(* ===== verification/Prelude.thy ===== *)
theory Prelude
  imports
    Complex_Main
    "HOL-Library.AList"
    "HOL-Library.Char_ord"
    "HOL-Library.List_Lexorder"
begin

text \<open>
  Shared vocabulary of the development.

  \<^item> \<open>exn\<close> lists the exception classes the modelled code raises; \<open>'a res\<close> is the outcome of
    a call that may raise (\<open>Inl\<close> the exception, \<open>Inr\<close> the returned value). The text of an
    exception is not modelled, only its class.
  \<^item> A stateful method returns the outcome together with the object's state at that point, so
    that what a raising call has already written stays visible.
  \<^item> A Python \<open>dict\<close> whose iteration order matters is an association list with
    \<open>AList.update\<close> (assignment keeps the position of an existing key and appends a new one),
    \<open>map_of\<close> (lookup) and \<open>AList.delete\<close> (pop).
  \<^item> \<open>show_nat\<close> and \<open>zpad\<close> are Python's decimal rendering of an integer and its zero padding.
\<close>

named_theorems res_simps "rewrites for outcomes of calls that may raise"

datatype exn =
    ValueError
  | TypeError
  | KeyError
  | AssertionError
  | OverflowError
  | IndexError
  | DivisionByZero
  | BrokerError
  | OrderTypeUnsupportedError
  | BrokerNotConnectedError
  | SlippageError
  | UnknownSlippageBandError
  | MarginSourceError
  | RiskManagerError
  | RollExecutorError
  | TradingCalendarError
  | ContinuousSeriesError
  | StrategyError
  | WalkForwardError
  | CPCVError
  | PaperLedgerError
  | DataSourceError
  | BarsNotSupported
  | TicksNotSupported
  | SettlesNotSupported
  | OtherDataSourceError
  | UnknownPolicyError
  | BackoffQueueTimeout
  | SchemaMismatch
  | FutureDatedSourceError
  | ContractNotConfigured
  | BRRWindowEmpty
  | InsufficientVenues
  | COTSourceError
  | COTContractUnknownError
  | COTSchemaDriftError
  | MacroSourceError
  | ShutdownVoidError
  | StorageError
  | TermStructureError
  | IntradayContinuousError
  | IntradaySessionError
  | OSError
  | InvalidOperation
  | CMEScrapeError
  | WAFBlockedError
  | MalformedSettlementPage
  | IBKRError
  | IBKRConnectionError
  | IBKRReqError
  | IBKRContractAmbiguity
  | CftcSocrataError
  | FredMacroError
  | BlsMacroError
  | ScheduleDriftError
  | IBKRBrokerNotImplemented
  | TopstepXBrokerNotImplemented
  | ZeroDivisionError
  | CSCVError
  | BlockBootstrapError
  | MultipleTestError
  | PermutationError
  | RomanoWolfError
  | RealityCheckError
  | SPAError
  | MultiStrategyError
  | SurvivalError
  | BCaError
  | TailRiskError
  | RobustnessError
  | StatisticsError
  | PSRError
  | BacktestValidationError
  | StatsError

type_synonym 'a res = "exn + 'a"

definition bindE :: "'a res \<Rightarrow> ('a \<Rightarrow> 'b res) \<Rightarrow> 'b res" where
  "bindE m f = (case m of Inl e \<Rightarrow> Inl e | Inr x \<Rightarrow> f x)"

definition require :: "bool \<Rightarrow> exn \<Rightarrow> unit res" where
  "require b e = (if b then Inr () else Inl e)"

fun traverse :: "('a \<Rightarrow> 'b res) \<Rightarrow> 'a list \<Rightarrow> 'b list res" where
  "traverse f [] = Inr []"
| "traverse f (x # xs) = bindE (f x) (\<lambda>y. bindE (traverse f xs) (\<lambda>ys. Inr (y # ys)))"

fun foldE :: "('s \<Rightarrow> 'a \<Rightarrow> 's res) \<Rightarrow> 's \<Rightarrow> 'a list \<Rightarrow> 's res" where
  "foldE f s [] = Inr s"
| "foldE f s (x # xs) = bindE (f s x) (\<lambda>s'. foldE f s' xs)"

text \<open>Sequencing of state-passing calls: a raise stops the sequence and keeps the state reached so far.\<close>

definition bindS :: "'a res \<times> 's \<Rightarrow> ('a \<Rightarrow> 's \<Rightarrow> 'b res \<times> 's) \<Rightarrow> 'b res \<times> 's" where
  "bindS m f = (case m of (Inl e, s) \<Rightarrow> (Inl e, s) | (Inr x, s) \<Rightarrow> f x s)"

fun show_nat :: "nat \<Rightarrow> string" where
  "show_nat n = (if n < 10 then [char_of (48 + n)] else show_nat (n div 10) @ [char_of (48 + n mod 10)])"

declare show_nat.simps [simp del]

definition zpad :: "nat \<Rightarrow> nat \<Rightarrow> string" where
  "zpad w n = replicate (w - length (show_nat n)) (CHR ''0'') @ show_nat n"

definition digit_val :: "char \<Rightarrow> nat" where
  "digit_val c = of_char c - 48"

definition digits_val :: "string \<Rightarrow> nat" where
  "digits_val s = foldl (\<lambda>a c. 10 * a + digit_val c) 0 s"

text \<open>Python's \<open>str.isdigit\<close> on ASCII text (the empty string is not numeric).\<close>

definition is_ascii_digit :: "char \<Rightarrow> bool" where
  "is_ascii_digit c \<longleftrightarrow> 48 \<le> (of_char c :: nat) \<and> (of_char c :: nat) \<le> 57"

definition all_digits :: "string \<Rightarrow> bool" where
  "all_digits s \<longleftrightarrow> s \<noteq> [] \<and> (\<forall>c \<in> set s. is_ascii_digit c)"

section \<open>Outcomes\<close>

lemma bindE_simps [simp, res_simps]:
  "bindE (Inl e) f = Inl e"
  "bindE (Inr x) f = f x"
  by (simp_all add: bindE_def)

lemma bindE_Inr_iff [res_simps]:
  "bindE m f = Inr y \<longleftrightarrow> (\<exists>x. m = Inr x \<and> f x = Inr y)"
  by (cases m) auto

lemma bindE_Inl_iff [res_simps]:
  "bindE m f = Inl e \<longleftrightarrow> m = Inl e \<or> (\<exists>x. m = Inr x \<and> f x = Inl e)"
  by (cases m) auto

lemma bindS_simps [simp]:
  "bindS (Inl e, s) f = (Inl e, s)"
  "bindS (Inr x, s) f = f x s"
  by (simp_all add: bindS_def)

lemma bindS_Inr_iff:
  "bindS m f = (Inr y, s') \<longleftrightarrow> (\<exists>x s. m = (Inr x, s) \<and> f x s = (Inr y, s'))"
  by (cases m; cases "fst m") auto

text \<open>An invariant of the state that every call keeps is kept by the sequence, on raise and on return.\<close>

lemma bindS_state:
  assumes "P (snd m)" "\<And>x s. m = (Inr x, s) \<Longrightarrow> P s \<Longrightarrow> P (snd (f x s))"
  shows "P (snd (bindS m f))"
  using assms by (cases m; cases "fst m") auto

lemma bindE_assoc: "bindE (bindE m f) g = bindE m (\<lambda>x. bindE (f x) g)"
  by (cases m) auto

lemma require_simps [simp]:
  "require True e = Inr ()"
  "require False e = Inl e"
  by (simp_all add: require_def)

lemma require_iff [res_simps]:
  "require b e = Inr u \<longleftrightarrow> b"
  "require b e = Inl e' \<longleftrightarrow> \<not> b \<and> e' = e"
  by (auto simp: require_def)

lemma traverse_Inr_iff:
  "traverse f xs = Inr ys \<longleftrightarrow> list_all2 (\<lambda>x y. f x = Inr y) xs ys"
proof (induction xs arbitrary: ys)
  case Nil
  then show ?case by auto
next
  case (Cons x xs)
  then show ?case by (cases ys) (auto simp: res_simps)
qed

lemma traverse_length: "traverse f xs = Inr ys \<Longrightarrow> length ys = length xs"
  by (auto simp: traverse_Inr_iff dest: list_all2_lengthD)

lemma traverse_mem: "traverse f xs = Inr ys \<Longrightarrow> x \<in> set xs \<Longrightarrow> \<exists>y \<in> set ys. f x = Inr y"
  by (induction xs arbitrary: ys) (auto simp: bindE_Inr_iff)

lemma traverse_mem_back: "traverse f xs = Inr ys \<Longrightarrow> y \<in> set ys \<Longrightarrow> \<exists>x \<in> set xs. f x = Inr y"
  by (induction xs arbitrary: ys) (auto simp: bindE_Inr_iff)

lemma traverse_ok_iff: "(\<exists>ys. traverse f xs = Inr ys) \<longleftrightarrow> (\<forall>x \<in> set xs. \<exists>y. f x = Inr y)"
  by (induction xs) (auto simp: bindE_Inr_iff)

lemma foldE_append: "foldE f s (xs @ ys) = bindE (foldE f s xs) (\<lambda>s'. foldE f s' ys)"
  by (induction xs arbitrary: s) (auto simp: bindE_assoc)

lemma foldE_invariant:
  assumes "foldE f s xs = Inr s'" and "P s"
    and "\<And>s x s'. x \<in> set xs \<Longrightarrow> P s \<Longrightarrow> f s x = Inr s' \<Longrightarrow> P s'"
  shows "P s'"
  using assms
proof (induction xs arbitrary: s)
  case Nil
  then show ?case by simp
next
  case (Cons x xs)
  from Cons.prems(1) obtain s1 where s1: "f s x = Inr s1" and rest: "foldE f s1 xs = Inr s'"
    by (auto simp: res_simps)
  have "P s1" using Cons.prems(2,3) s1 by auto
  with rest show ?case by (rule Cons.IH) (use Cons.prems(3) in auto)
qed

section \<open>Decimal rendering\<close>

lemma digit_val_char_of [simp]: "d < 10 \<Longrightarrow> digit_val (char_of (48 + d)) = d"
  by (simp add: digit_val_def)

lemma is_ascii_digit_char_of [simp]: "(d::nat) < 10 \<Longrightarrow> is_ascii_digit (char_of (48 + d))"
  by (simp add: is_ascii_digit_def)

lemma digits_val_snoc [simp]: "digits_val (s @ [c]) = 10 * digits_val s + digit_val c"
  by (simp add: digits_val_def)

lemma digits_val_zeros [simp]: "digits_val (replicate k (CHR ''0'') @ s) = digits_val s"
proof (induction k)
  case 0
  then show ?case by simp
next
  case (Suc k)
  then show ?case by (simp add: digits_val_def digit_val_def)
qed

lemma digits_val_show_nat [simp]: "digits_val (show_nat n) = n"
proof (induction n rule: show_nat.induct)
  case (1 n)
  show ?case
  proof (cases "n < 10")
    case True
    then show ?thesis by (subst show_nat.simps) (simp add: digits_val_def)
  next
    case False
    then have "show_nat n = show_nat (n div 10) @ [char_of (48 + n mod 10)]"
      by (subst show_nat.simps) simp
    moreover have "digits_val (show_nat (n div 10)) = n div 10"
      using "1" False by simp
    ultimately show ?thesis by simp
  qed
qed

lemma all_digits_show_nat [simp]: "all_digits (show_nat n)"
proof (induction n rule: show_nat.induct)
  case (1 n)
  show ?case
  proof (cases "n < 10")
    case True
    then show ?thesis by (subst show_nat.simps) (simp add: all_digits_def)
  next
    case False
    with "1" have "all_digits (show_nat (n div 10))" by simp
    with False show ?thesis by (subst show_nat.simps) (auto simp: all_digits_def)
  qed
qed

lemma digits_val_zpad [simp]: "digits_val (zpad w n) = n"
  by (simp add: zpad_def)

lemma zpad_inject [simp]: "zpad w m = zpad w n \<longleftrightarrow> m = n"
  by (metis digits_val_zpad)

lemma all_digits_zpad [simp]: "all_digits (zpad w n)"
proof -
  have "all_digits (show_nat n)" by simp
  then show ?thesis by (auto simp: zpad_def all_digits_def is_ascii_digit_def)
qed

lemma length_show_nat_le2: "n < 100 \<Longrightarrow> length (show_nat n) \<le> 2"
  by (subst show_nat.simps) (auto simp: show_nat.simps [of "n div 10"])

lemma length_zpad2 [simp]: "n < 100 \<Longrightarrow> length (zpad 2 n) = 2"
  using length_show_nat_le2 [of n] by (simp add: zpad_def)

section \<open>Ordered dictionaries\<close>

lemma keys_update [simp]:
  "map fst (AList.update k v d) = (if k \<in> set (map fst d) then map fst d else map fst d @ [k])"
  by (induction d) auto

lemma map_of_delete [simp]: "map_of (AList.delete k d) = (map_of d)(k := None)"
  by (simp add: delete_conv')

lemma map_of_update [simp]: "map_of (AList.update k v d) = (map_of d)(k \<mapsto> v)"
  by (rule update_conv')

lemma map_of_key: "map_of d k = None \<longleftrightarrow> k \<notin> set (map fst d)"
  by (simp add: map_of_eq_None_iff)

lemma values_of_distinct: "distinct (map fst d) \<Longrightarrow> (k, v) \<in> set d \<longleftrightarrow> map_of d k = Some v"
  by (rule map_of_eq_Some_iff [symmetric])

lemma set_update_subset: "set (AList.update k v d) \<subseteq> insert (k, v) (set d)"
  by (induction d) auto

text \<open>\<open>d.setdefault(k, []).append(x)\<close>: grouping a list by a key, in order of first appearance.\<close>

definition group_add :: "'k \<Rightarrow> 'a \<Rightarrow> ('k \<times> 'a list) list \<Rightarrow> ('k \<times> 'a list) list" where
  "group_add k x d = AList.update k ((case map_of d k of None \<Rightarrow> [] | Some xs \<Rightarrow> xs) @ [x]) d"

definition group_by :: "('a \<Rightarrow> 'k) \<Rightarrow> 'a list \<Rightarrow> ('k \<times> 'a list) list" where
  "group_by f xs = foldl (\<lambda>d x. group_add (f x) x d) [] xs"

lemma group_by_snoc: "group_by f (xs @ [x]) = group_add (f x) x (group_by f xs)"
  by (simp add: group_by_def)

lemma map_of_group_by:
  "map_of (group_by f xs) k = (let ys = filter (\<lambda>x. f x = k) xs in if ys = [] then None else Some ys)"
proof (induction xs rule: rev_induct)
  case (snoc x xs)
  then show ?case by (auto simp: group_by_snoc group_add_def Let_def split: if_splits option.splits)
qed (simp add: group_by_def)

lemma distinct_group_by: "distinct (map fst (group_by f xs))"
  by (induction xs rule: rev_induct) (simp_all add: group_by_snoc group_add_def group_by_def)

lemma group_by_mem: "(k, ys) \<in> set (group_by f xs) \<longleftrightarrow> ys = filter (\<lambda>x. f x = k) xs \<and> ys \<noteq> []"
  unfolding values_of_distinct [OF distinct_group_by] map_of_group_by by (auto simp: Let_def)

section \<open>Selection, strings\<close>

text \<open>
  \<open>min(xs, key=f)\<close> and \<open>max(xs, key=f)\<close> return the first extremal element; \<open>min_by\<close> and
  \<open>max_by\<close> take the head and the tail of the list, since Python raises on an empty one.
\<close>

fun min_by :: "('a \<Rightarrow> 'b::linorder) \<Rightarrow> 'a \<Rightarrow> 'a list \<Rightarrow> 'a" where
  "min_by f m [] = m"
| "min_by f m (x # xs) = min_by f (if f x < f m then x else m) xs"

fun max_by :: "('a \<Rightarrow> 'b::linorder) \<Rightarrow> 'a \<Rightarrow> 'a list \<Rightarrow> 'a" where
  "max_by f m [] = m"
| "max_by f m (x # xs) = max_by f (if f m < f x then x else m) xs"

lemma min_by_mem: "min_by f m xs \<in> set (m # xs)"
  by (induction f m xs rule: min_by.induct) (auto split: if_splits)

lemma max_by_mem: "max_by f m xs \<in> set (m # xs)"
  by (induction f m xs rule: max_by.induct) (auto split: if_splits)

lemma min_by_le: "x \<in> set (m # xs) \<Longrightarrow> f (min_by f m xs) \<le> f x"
proof (induction f m xs arbitrary: x rule: min_by.induct)
  case (2 f m y ys)
  let ?m = "if f y < f m then y else m"
  have 1: "f (min_by f ?m ys) \<le> f z" if "z \<in> set (?m # ys)" for z using "2.IH" that by simp
  have 2: "f ?m \<le> f y" "f ?m \<le> f m" by auto
  show ?case
    using "2.prems" 1 [of x] order_trans [OF 1 [of ?m] 2(1)] order_trans [OF 1 [of ?m] 2(2)] by auto
qed simp

lemma max_by_ge: "x \<in> set (m # xs) \<Longrightarrow> f x \<le> f (max_by f m xs)"
proof (induction f m xs arbitrary: x rule: max_by.induct)
  case (2 f m y ys)
  let ?m = "if f m < f y then y else m"
  have 1: "f z \<le> f (max_by f ?m ys)" if "z \<in> set (?m # ys)" for z using "2.IH" that by simp
  have 2: "f y \<le> f ?m" "f m \<le> f ?m" by auto
  show ?case
    using "2.prems" 1 [of x] order_trans [OF 2(1) 1 [of ?m]] order_trans [OF 2(2) 1 [of ?m]] by auto
qed simp

text \<open>\<open>str.upper\<close> and \<open>str.strip\<close> on ASCII text, decimal rendering of an \<open>int\<close>, \<open>sep.join\<close>.\<close>

definition char_upper :: "char \<Rightarrow> char" where
  "char_upper c = (let n = (of_char c :: nat) in if 97 \<le> n \<and> n \<le> 122 then char_of (n - 32) else c)"

definition str_upper :: "string \<Rightarrow> string" where
  "str_upper s = map char_upper s"

definition is_ascii_space :: "char \<Rightarrow> bool" where
  "is_ascii_space c \<longleftrightarrow> (let n = (of_char c :: nat) in n = 32 \<or> 9 \<le> n \<and> n \<le> 13 \<or> 28 \<le> n \<and> n \<le> 31)"

definition str_strip :: "string \<Rightarrow> string" where
  "str_strip s = rev (dropWhile is_ascii_space (rev (dropWhile is_ascii_space s)))"

definition show_int :: "int \<Rightarrow> string" where
  "show_int i = (if i < 0 then ''-'' @ show_nat (nat (- i)) else show_nat (nat i))"

fun str_join :: "string \<Rightarrow> string list \<Rightarrow> string" where
  "str_join sep [] = []"
| "str_join sep [s] = s"
| "str_join sep (s # t # ts) = s @ sep @ str_join sep (t # ts)"

end
