(* ===== verification/Rounding.thy ===== *)
theory Rounding
  imports Prelude
begin

text \<open>
  Rounding half to even to a number of significant digits in a base: the arithmetic behind Python's \<open>Decimal\<close>
  (base ten, 28 digits) and \<open>float\<close> (base two, 53 digits). The exponent is unbounded. The locale \<open>rounding\<close> states the laws that
  clients use, with the consequences they share; \<open>radix_rounding\<close> proves them of \<open>radix_round\<close>.
\<close>

fun ndigits :: "nat \<Rightarrow> nat \<Rightarrow> nat" where
  "ndigits B n = (if B < 2 \<or> n < B then 1 else Suc (ndigits B (n div B)))"

declare ndigits.simps [simp del]

text \<open>The adjusted exponent of a positive value: the power of the base of its leading digit.\<close>

definition adjusted :: "nat \<Rightarrow> rat \<Rightarrow> int" where
  "adjusted B x =
     (let (p, q) = quotient_of x;
          e = int (ndigits B (nat p)) - int (ndigits B (nat q))
      in if of_nat B powi e \<le> x then e else e - 1)"

definition round_half_even :: "rat \<Rightarrow> int" where
  "round_half_even y =
     (let f = \<lfloor>y\<rfloor>; r = y - of_int f
      in if r < 1/2 then f else if r > 1/2 then f + 1 else if even f then f else f + 1)"

definition ulp :: "nat \<Rightarrow> nat \<Rightarrow> rat \<Rightarrow> rat" where
  "ulp B d x = of_nat B powi (adjusted B x - (int d - 1))"

definition round_pos :: "nat \<Rightarrow> nat \<Rightarrow> rat \<Rightarrow> rat" where
  "round_pos B d x = (let u = ulp B d x in of_int (round_half_even (x / u)) * u)"

definition radix_round :: "nat \<Rightarrow> nat \<Rightarrow> rat \<Rightarrow> rat" where
  "radix_round B d x = (if x = 0 then 0 else if x > 0 then round_pos B d x else - round_pos B d (- x))"

text \<open>The integer part of a square root, two bits at a time, and the square root of a positive value rounded half to even.\<close>

function isqrt :: "int \<Rightarrow> int" where
  "isqrt n = (if n \<le> 0 then 0 else let r = 2 * isqrt (n div 4) in if (r + 1) * (r + 1) \<le> n then r + 1 else r)"
  by auto
termination by (relation "measure nat") auto

declare isqrt.simps [simp del]

definition radix_sqrt :: "nat \<Rightarrow> nat \<Rightarrow> rat \<Rightarrow> rat" where
  "radix_sqrt B d x =
     (if x \<le> 0 then 0
      else (let k = int d - 1 - adjusted B x div 2;
                y = x * of_nat B powi (2 * k);
                n = isqrt \<lfloor>y\<rfloor>;
                h = (2 * of_int n + 1) * (2 * of_int n + 1) / 4;
                m = (if y < h then n else if y > h then n + 1 else if even n then n else n + 1)
            in of_int m * of_nat B powi (- k)))"

section \<open>Laws of a rounding function\<close>

locale rounding =
  fixes rnd :: "rat \<Rightarrow> rat" and eps :: rat and top_int :: int
  assumes rnd_mono: "x \<le> y \<Longrightarrow> rnd x \<le> rnd y"
    and rnd_minus: "rnd (- x) = - rnd x"
    and rnd_idem: "rnd (rnd x) = rnd x"
    and rnd_small_int: "\<bar>n\<bar> \<le> top_int \<Longrightarrow> rnd (of_int n) = of_int n"
    and rnd_error: "\<bar>rnd x - x\<bar> \<le> eps * \<bar>x\<bar>"
    and eps_bounds: "0 < eps" "eps < 1"
    and top_int_pos: "0 < top_int"
begin

lemma rnd_zero: "rnd 0 = 0"
  using rnd_small_int [of 0] top_int_pos by simp

lemma rnd_one: "rnd 1 = 1"
  using rnd_small_int [of 1] top_int_pos by simp

lemma rnd_nonneg: "0 \<le> x \<Longrightarrow> 0 \<le> rnd x"
  using rnd_mono [of 0 x] rnd_zero by simp

lemma rnd_nonpos: "x \<le> 0 \<Longrightarrow> rnd x \<le> 0"
  using rnd_mono [of x 0] rnd_zero by simp

lemma rnd_pos: "0 < x \<Longrightarrow> 0 < rnd x"
proof -
  assume x: "0 < x"
  have "\<bar>rnd x - x\<bar> \<le> eps * x" using rnd_error [of x] x by simp
  moreover have "eps * x < x" using x eps_bounds by simp
  ultimately show "0 < rnd x" by linarith
qed

lemma rnd_neg: "x < 0 \<Longrightarrow> rnd x < 0"
  using rnd_pos [of "- x"] rnd_minus [of x] by simp

lemma rnd_eq_0_iff: "rnd x = 0 \<longleftrightarrow> x = 0"
  using rnd_pos [of x] rnd_neg [of x] rnd_zero by (cases "0 < x"; cases "x < 0") auto

lemma rnd_le_fixed: "rnd y = y \<Longrightarrow> x \<le> y \<Longrightarrow> rnd x \<le> y"
  using rnd_mono [of x y] by simp

lemma rnd_ge_fixed: "rnd y = y \<Longrightarrow> y \<le> x \<Longrightarrow> y \<le> rnd x"
  using rnd_mono [of y x] by simp

lemma rnd_lower: "0 \<le> x \<Longrightarrow> (1 - eps) * x \<le> rnd x"
  using rnd_error [of x] by (simp add: abs_le_iff algebra_simps)

lemma rnd_upper: "0 \<le> x \<Longrightarrow> rnd x \<le> (1 + eps) * x"
  using rnd_error [of x] by (simp add: algebra_simps abs_le_iff)

lemma rnd_abs: "rnd \<bar>x\<bar> = \<bar>rnd x\<bar>"
  using rnd_nonneg [of x] rnd_nonpos [of x] rnd_minus [of x] by (cases "0 \<le> x") auto

end

section \<open>Half-even rounding to an integer\<close>

lemma round_half_even_bounds: "\<lfloor>y\<rfloor> \<le> round_half_even y" "round_half_even y \<le> \<lfloor>y\<rfloor> + 1"
  by (simp_all add: round_half_even_def Let_def)

lemma round_half_even_int [simp]: "round_half_even (of_int n) = n"
  by (simp add: round_half_even_def)

lemma round_half_even_numeral [simp]: "round_half_even (numeral k) = numeral k"
  using round_half_even_int [of "numeral k"] by simp

lemma round_half_even_error: "\<bar>of_int (round_half_even y) - y\<bar> \<le> 1/2"
  using floor_correct [of y] by (auto simp: round_half_even_def Let_def abs_le_iff)

lemma round_half_even_mono:
  assumes "y \<le> z" shows "round_half_even y \<le> round_half_even z"
proof (cases "\<lfloor>y\<rfloor> = \<lfloor>z\<rfloor>")
  case True
  with assms show ?thesis by (auto simp: round_half_even_def Let_def)
next
  case False
  then have "\<lfloor>y\<rfloor> + 1 \<le> \<lfloor>z\<rfloor>" using floor_mono [OF assms] by linarith
  then show ?thesis using round_half_even_bounds(2) [of y] round_half_even_bounds(1) [of z] by linarith
qed

section \<open>The laws of rounding in a base\<close>

locale radix =
  fixes B d :: nat
  assumes base: "2 \<le> B" and digits: "0 < d"
begin

abbreviation b :: rat where "b \<equiv> of_nat B"

lemma base_pos [simp]: "0 < B" "Suc 0 < B"
  using base by simp_all

lemma b_gt_1: "1 < b"
  by simp

lemma powi_pos [simp]: "0 < b powi k"
  by (rule zero_less_power_int) simp

lemma pow_int: "b ^ k = of_int (int B ^ k)"
  by simp

lemma powi_split: "b powi (i + j) = b powi i * b powi j" "b powi (i - j) = b powi i / b powi j"
  by (simp_all add: power_int_add power_int_diff)

lemma pow_powi: "b ^ k = b powi int k"
  by simp

lemma ndigits_pos: "0 < ndigits B n"
  by (subst ndigits.simps) simp

lemma ndigits_bounds: "0 < n \<Longrightarrow> B ^ (ndigits B n - 1) \<le> n \<and> n < B ^ ndigits B n"
proof (induction n rule: less_induct)
  case (less n)
  show ?case
  proof (cases "n < B")
    case True
    with less.prems show ?thesis by (subst (1 2) ndigits.simps) simp
  next
    case False
    let ?d = "ndigits B (n div B)"
    have div: "n div B < n" "0 < n div B" using False base less.prems by (auto simp: div_greater_zero_iff)
    have IH: "B ^ (?d - 1) \<le> n div B" "n div B < B ^ ?d" using less.IH [OF div] by auto
    have n: "ndigits B n = Suc ?d" using False base by (subst ndigits.simps) simp
    have t: "B ^ ?d = B * B ^ (?d - 1)"
      using ndigits_pos [of "n div B"] by (cases ?d) auto
    have "B * B ^ (?d - 1) \<le> B * (n div B)" using IH(1) by simp
    also have "\<dots> \<le> n" by simp
    finally have lo: "B * B ^ (?d - 1) \<le> n" .
    have "n < B * (n div B) + B" using base by (metis mult_div_mod_eq mod_less_divisor add_less_cancel_left less_le_trans pos2)
    also have "\<dots> = B * (n div B + 1)" by simp
    also have "\<dots> \<le> B * B ^ ?d" using IH(2) by (intro mult_le_mono2) simp
    finally show ?thesis using lo unfolding n by (simp add: t)
  qed
qed

lemma ndigits_bounds_rat:
  assumes "0 < p" shows "b ^ (ndigits B (nat p) - 1) \<le> of_int p" "of_int p < b ^ ndigits B (nat p)"
proof -
  have n: "B ^ (ndigits B (nat p) - 1) \<le> nat p" "nat p < B ^ ndigits B (nat p)"
    using ndigits_bounds [of "nat p"] assms by auto
  have p: "of_int p = (of_nat (nat p) :: rat)" using assms by simp
  show "b ^ (ndigits B (nat p) - 1) \<le> of_int p" unfolding p using n(1) by (metis of_nat_le_iff of_nat_power)
  show "of_int p < b ^ ndigits B (nat p)" unfolding p using n(2) by (metis of_nat_less_iff of_nat_power)
qed

lemma adjusted_bounds:
  assumes "0 < x" shows "b powi adjusted B x \<le> x" "x < b powi (adjusted B x + 1)"
proof -
  obtain p q where pq: "quotient_of x = (p, q)" by (cases "quotient_of x")
  have q: "0 < q" using quotient_of_denom_pos [OF pq] .
  have x: "x = of_int p / of_int q" using quotient_of_div [OF pq] .
  have p: "0 < p" using assms q unfolding x by (simp add: zero_less_divide_iff)
  define m where "m = ndigits B (nat p)"
  define k where "k = ndigits B (nat q)"
  have mk: "0 < m" "0 < k" by (simp_all add: m_def k_def ndigits_pos)
  note pb = ndigits_bounds_rat [OF p, folded m_def] and qb = ndigits_bounds_rat [OF q, folded k_def]
  let ?e = "int m - int k"
  have "b powi (?e - 1) = b ^ (m - 1) / b ^ k"
    using mk by (simp add: powi_split pow_powi of_nat_diff del: power_int_of_nat)
  also have "\<dots> \<le> x" unfolding x
    using pb qb p q by (intro frac_le) auto
  finally have lo: "b powi (?e - 1) \<le> x" .
  have "x < b ^ m / b ^ (k - 1)" unfolding x
    using pb qb p q by (intro frac_less) auto
  also have "\<dots> = b powi (?e + 1)"
    using mk by (simp add: powi_split pow_powi of_nat_diff del: power_int_of_nat)
  finally have hi: "x < b powi (?e + 1)" .
  have adj: "adjusted B x = (if b powi ?e \<le> x then ?e else ?e - 1)"
    by (simp add: adjusted_def pq m_def k_def Let_def)
  show "b powi adjusted B x \<le> x" using lo adj by auto
  show "x < b powi (adjusted B x + 1)" using hi adj by auto
qed

lemma powi_le_iff: "b powi i \<le> b powi j \<longleftrightarrow> i \<le> j"
  using b_gt_1 by (metis not_less power_int_increasing power_int_strict_increasing less_imp_le)

lemma powi_less_iff: "b powi i < b powi j \<longleftrightarrow> i < j"
  using powi_le_iff [of j i] by linarith

lemma adjusted_mono:
  assumes "0 < x" "x \<le> z" shows "adjusted B x \<le> adjusted B z"
proof -
  have "b powi adjusted B x < b powi (adjusted B z + 1)"
    using adjusted_bounds(1) [of x] adjusted_bounds(2) [of z] assms by linarith
  then show ?thesis by (simp add: powi_less_iff)
qed

lemma ulp_pos: "0 < ulp B d x"
  by (simp add: ulp_def)

lemma round_pos_eq: "round_pos B d x = of_int (round_half_even (x / ulp B d x)) * ulp B d x"
  by (simp add: round_pos_def Let_def)

lemma scaled_ulp: "b ^ (d - 1) * ulp B d x = b powi adjusted B x" "b ^ d * ulp B d x = b powi (adjusted B x + 1)"
  using digits by (simp_all add: ulp_def pow_powi of_nat_diff del: power_int_of_nat flip: powi_split(1))

lemma ulp_bounds:
  assumes "0 < x" shows "b ^ (d - 1) * ulp B d x \<le> x" "x < b ^ d * ulp B d x"
  unfolding scaled_ulp using adjusted_bounds [OF assms] by simp_all

lemma coefficient_bounds:
  assumes "0 < x"
  shows "int B ^ (d - 1) \<le> round_half_even (x / ulp B d x)" "round_half_even (x / ulp B d x) \<le> int B ^ d"
proof -
  have "of_int (int B ^ (d - 1)) \<le> x / ulp B d x" "x / ulp B d x \<le> of_int (int B ^ d)"
    using ulp_bounds [OF assms] ulp_pos [of x] by (simp_all add: field_simps)
  then show "int B ^ (d - 1) \<le> round_half_even (x / ulp B d x)" "round_half_even (x / ulp B d x) \<le> int B ^ d"
    using round_half_even_mono round_half_even_int by metis+
qed

lemma coefficient_rat:
  assumes "0 < x"
  shows "b ^ (d - 1) \<le> of_int (round_half_even (x / ulp B d x))" "of_int (round_half_even (x / ulp B d x)) \<le> b ^ d"
  unfolding pow_int of_int_le_iff by (rule coefficient_bounds [OF assms])+

lemma round_pos_mono:
  assumes "0 < x" "x \<le> z" shows "round_pos B d x \<le> round_pos B d z"
proof (cases "adjusted B x = adjusted B z")
  case True
  then have u: "ulp B d x = ulp B d z" by (simp add: ulp_def)
  have "x / ulp B d z \<le> z / ulp B d z" using assms(2) ulp_pos [of z] by (simp add: divide_right_mono)
  then show ?thesis unfolding round_pos_eq u
    using ulp_pos [of z] by (simp add: round_half_even_mono)
next
  case False
  then have lt: "adjusted B x + 1 \<le> adjusted B z" using adjusted_mono [OF assms] by simp
  have "round_pos B d x \<le> b ^ d * ulp B d x"
    unfolding round_pos_eq using coefficient_rat(2) [OF assms(1)] ulp_pos [of x]
    by (intro mult_right_mono) (simp_all add: less_imp_le)
  also have "\<dots> \<le> b powi adjusted B z" using lt by (simp only: scaled_ulp powi_le_iff)
  also have "\<dots> = b ^ (d - 1) * ulp B d z" by (simp only: scaled_ulp)
  also have "\<dots> \<le> round_pos B d z"
    unfolding round_pos_eq using coefficient_rat(1) [of z] assms ulp_pos [of z]
    by (intro mult_right_mono) (simp_all add: less_imp_le)
  finally show ?thesis .
qed

lemma round_pos_error:
  assumes "0 < x" shows "\<bar>round_pos B d x - x\<bar> \<le> 1 / (2 * b ^ (d - 1)) * x"
proof -
  have "round_pos B d x - x = (of_int (round_half_even (x / ulp B d x)) - x / ulp B d x) * ulp B d x"
    using ulp_pos [of x] by (simp add: round_pos_eq field_simps)
  then have "\<bar>round_pos B d x - x\<bar> = \<bar>of_int (round_half_even (x / ulp B d x)) - x / ulp B d x\<bar> * ulp B d x"
    using ulp_pos [of x] by (simp add: abs_mult)
  also have "\<dots> \<le> 1/2 * ulp B d x"
    using round_half_even_error ulp_pos [of x] by (intro mult_right_mono) auto
  also have "\<dots> \<le> 1 / (2 * b ^ (d - 1)) * x" using ulp_bounds(1) [OF assms] by (simp add: field_simps)
  finally show ?thesis .
qed

lemma round_pos_positive:
  assumes "0 < x" shows "0 < round_pos B d x"
  unfolding round_pos_eq
proof (rule mult_pos_pos [OF _ ulp_pos])
  have "0 < b ^ (d - 1)" by simp
  also have "\<dots> \<le> of_int (round_half_even (x / ulp B d x))" by (rule coefficient_rat(1) [OF assms])
  finally show "0 < (of_int (round_half_even (x / ulp B d x)) :: rat)" .
qed

lemma round_pos_exact:
  assumes x: "x = of_int n * b powi e" and n: "0 < n" "n < int B ^ d"
  shows "round_pos B d x = x"
proof -
  have "0 < x" using x n by (simp add: zero_less_power_int)
  have "of_int n < b ^ d" unfolding pow_int of_int_less_iff by (rule n)
  then have "x < b ^ d * b powi e" unfolding x by (intro mult_strict_right_mono) (auto simp: zero_less_power_int)
  also have "\<dots> = b powi (e + int d)" by (simp add: power_int_add)
  finally have "adjusted B x < e + int d"
    using adjusted_bounds(1) [OF \<open>0 < x\<close>] powi_less_iff le_less_trans by blast
  then obtain k where k: "e = (adjusted B x - (int d - 1)) + int k"
    using zle_iff_zadd [of "adjusted B x - (int d - 1)" e] by auto
  have "b powi e = ulp B d x * b ^ k"
    by (subst k) (simp add: ulp_def power_int_add)
  then have "x = of_int (n * int B ^ k) * ulp B d x" by (subst x) simp
  then have "x / ulp B d x = of_int (n * int B ^ k)"
    using ulp_pos [of x] by (metis nonzero_mult_div_cancel_right order_less_irrefl)
  then show ?thesis unfolding round_pos_eq
    using ulp_pos [of x] by (metis nonzero_eq_divide_eq order_less_irrefl round_half_even_int)
qed

lemma radix_round_exact:
  assumes x: "x = of_int n * b powi e" and n: "\<bar>n\<bar> \<le> int B ^ d"
  shows "radix_round B d x = x"
proof -
  have pos: "round_pos B d (of_int m * b powi e) = of_int m * b powi e"
    if m: "0 < m" "m \<le> int B ^ d" for m :: int
  proof (cases "m = int B ^ d")
    case True
    then have "of_int m * b powi e = of_int 1 * b powi (e + int d)"
      by (simp add: power_int_add)
    then show ?thesis using round_pos_exact [of _ 1 "e + int d"] base digits by simp
  next
    case False
    with m show ?thesis by (intro round_pos_exact [of _ m e]) auto
  qed
  have p: "0 < b powi e" by (simp add: zero_less_power_int)
  consider "n = 0" | "0 < n" | "n < 0" by linarith
  then show ?thesis
  proof cases
    case 1
    then show ?thesis by (simp add: x radix_round_def)
  next
    case 2
    with pos [of n] n p show ?thesis by (simp add: x radix_round_def zero_less_mult_iff)
  next
    case 3
    then have "x < 0" using p by (simp add: x mult_less_0_iff)
    with pos [of "- n"] n 3 show ?thesis by (simp add: x radix_round_def)
  qed
qed

lemma radix_round_form: "\<exists>n e. radix_round B d x = of_int n * b powi e \<and> \<bar>n\<bar> \<le> int B ^ d"
proof -
  have pos: "\<exists>n e. round_pos B d y = of_int n * b powi e \<and> \<bar>n\<bar> \<le> int B ^ d" if "0 < y" for y
  proof (intro exI conjI)
    show "round_pos B d y = of_int (round_half_even (y / ulp B d y)) * b powi (adjusted B y - (int d - 1))"
      by (simp add: round_pos_eq ulp_def)
    have "0 \<le> int B ^ (d - 1)" by simp
    then show "\<bar>round_half_even (y / ulp B d y)\<bar> \<le> int B ^ d"
      using coefficient_bounds [OF that] by linarith
  qed
  consider "x = 0" | "0 < x" | "x < 0" by linarith
  then show ?thesis
  proof cases
    case 1
    then have "radix_round B d x = of_int 0 * b powi 0 \<and> \<bar>0::int\<bar> \<le> int B ^ d" by (simp add: radix_round_def)
    then show ?thesis by blast
  next
    case 2
    then show ?thesis using pos [of x] by (simp add: radix_round_def)
  next
    case 3
    then obtain n e where "round_pos B d (- x) = of_int n * b powi e" "\<bar>n\<bar> \<le> int B ^ d"
      using pos [of "- x"] by auto
    with 3 have "radix_round B d x = of_int (- n) * b powi e \<and> \<bar>- n\<bar> \<le> int B ^ d" by (simp add: radix_round_def)
    then show ?thesis by blast
  qed
qed

lemma radix_round_sign: "0 < x \<Longrightarrow> 0 < radix_round B d x" "x < 0 \<Longrightarrow> radix_round B d x < 0" "radix_round B d 0 = 0"
  using round_pos_positive [of x] round_pos_positive [of "- x"] by (simp_all add: radix_round_def)

lemma radix_round_mono:
  assumes "x \<le> y" shows "radix_round B d x \<le> radix_round B d y"
proof -
  consider "0 < x" | "y < 0" | "x \<le> 0" "0 \<le> y" by linarith
  then show ?thesis
  proof cases
    case 1
    then show ?thesis using round_pos_mono [OF _ assms] assms by (simp add: radix_round_def)
  next
    case 2
    then show ?thesis using round_pos_mono [of "- y" "- x"] assms by (simp add: radix_round_def)
  next
    case 3
    then have "radix_round B d x \<le> 0" "0 \<le> radix_round B d y"
      using radix_round_sign(1) [of y] radix_round_sign(2) [of x] radix_round_sign(3)
      by (cases "x = 0"; cases "y = 0"; simp)+
    then show ?thesis by simp
  qed
qed

end

sublocale radix \<subseteq> rounding "radix_round B d" "1 / (2 * of_nat B ^ (d - 1))" "int B ^ d"
proof unfold_locales
  fix x y :: rat and n :: int
  show "x \<le> y \<Longrightarrow> radix_round B d x \<le> radix_round B d y" by (rule radix_round_mono)
  show "radix_round B d (- x) = - radix_round B d x" by (simp add: radix_round_def)
  show "radix_round B d (radix_round B d x) = radix_round B d x" using radix_round_form [of x] radix_round_exact by blast
  show "\<bar>n\<bar> \<le> int B ^ d \<Longrightarrow> radix_round B d (of_int n) = of_int n"
    by (rule radix_round_exact [of _ n 0]) auto
  show "\<bar>radix_round B d x - x\<bar> \<le> 1 / (2 * of_nat B ^ (d - 1)) * \<bar>x\<bar>"
    using round_pos_error [of x] round_pos_error [of "- x"]
    by (cases "0 < x"; cases "x < 0") (auto simp: radix_round_def abs_minus_commute)
  have "1 \<le> b ^ (d - 1)" by (intro one_le_power) (simp add: Suc_le_eq)
  then show "0 < 1 / (2 * b ^ (d - 1))" "1 / (2 * b ^ (d - 1)) < 1" by (simp_all add: field_simps)
  show "0 < int B ^ d" using base by simp
qed

end
