(* ===== verification/Decimal_Arith.thy ===== *)
theory Decimal_Arith
  imports Rounding
begin

text \<open>
  Python's \<open>decimal.Decimal\<close> under its default context, which no module of the engine changes:
  28 significant digits, \<open>ROUND_HALF_EVEN\<close>. A finite Decimal is represented by its numeric
  value, a rational; every arithmetic operator computes the exact rational result and rounds it
  with \<open>dround\<close>. Comparisons, \<open>max\<close>, \<open>min\<close> and the construction of a literal are exact, as
  they are in Python. What the representation leaves out: NaN and infinities, the exponent range
  (overflow beyond ten to the 999999), and the trailing zeros that only \<open>str\<close> can observe.
  The interpretation \<open>dec28\<close> proves the laws of the locale \<open>rounding\<close> of \<open>dround\<close>.
\<close>

type_synonym decimal = rat

definition dround :: "rat \<Rightarrow> decimal" where
  "dround x = radix_round 10 28 x"

definition dadd :: "decimal \<Rightarrow> decimal \<Rightarrow> decimal" where
  "dadd a b = dround (a + b)"

definition dsub :: "decimal \<Rightarrow> decimal \<Rightarrow> decimal" where
  "dsub a b = dround (a - b)"

definition dmul :: "decimal \<Rightarrow> decimal \<Rightarrow> decimal" where
  "dmul a b = dround (a * b)"

definition ddiv :: "decimal \<Rightarrow> decimal \<Rightarrow> decimal res" where
  "ddiv a b = (if b = 0 then Inl DivisionByZero else Inr (dround (a / b)))"

definition dneg :: "decimal \<Rightarrow> decimal" where
  "dneg a = dround (- a)"

definition dabs :: "decimal \<Rightarrow> decimal" where
  "dabs a = dround \<bar>a\<bar>"

definition dsum :: "decimal list \<Rightarrow> decimal" where
  "dsum xs = foldl dadd 0 xs"

definition dint :: "int \<Rightarrow> decimal" where
  "dint n = of_int n"

text \<open>\<open>int(value.to_integral_value(rounding=ROUND_DOWN))\<close>: truncation towards zero.\<close>

definition dtrunc :: "decimal \<Rightarrow> int" where
  "dtrunc x = (if 0 \<le> x then \<lfloor>x\<rfloor> else \<lceil>x\<rceil>)"

text \<open>A value that the context represents without rounding.\<close>

definition drepr :: "rat \<Rightarrow> bool" where
  "drepr x \<longleftrightarrow> dround x = x"

section \<open>The context of 28 digits\<close>

interpretation ten: radix 10 28
  by unfold_locales simp_all

interpretation dec28: rounding dround "5 / 10 ^ 28" "10 ^ 28"
proof unfold_locales
  fix x y :: rat and n :: int
  show "x \<le> y \<Longrightarrow> dround x \<le> dround y" unfolding dround_def by (rule ten.rnd_mono)
  show "dround (- x) = - dround x" unfolding dround_def by (rule ten.rnd_minus)
  show "dround (dround x) = dround x" unfolding dround_def by (rule ten.rnd_idem)
  show "\<bar>n\<bar> \<le> 10 ^ 28 \<Longrightarrow> dround (of_int n) = of_int n" unfolding dround_def by (rule ten.rnd_small_int) simp
  show "\<bar>dround x - x\<bar> \<le> 5 / 10 ^ 28 * \<bar>x\<bar>" unfolding dround_def using ten.rnd_error [of x] by simp
qed simp_all

lemma dround_exact: "x = of_int n * 10 powi e \<Longrightarrow> \<bar>n\<bar> \<le> 10 ^ 28 \<Longrightarrow> dround x = x"
  unfolding dround_def using ten.radix_round_exact [of x n e] by simp

lemmas dround_mono = dec28.rnd_mono

section \<open>Exact values\<close>

named_theorems dec_exact "when an operation on decimals does not round"

lemma drepr_dround [simp]: "drepr (dround x)"
  by (simp add: drepr_def dec28.rnd_idem)

lemma drepr_zero [simp]: "drepr 0"
  by (simp add: drepr_def dec28.rnd_zero)

lemma drepr_minus [simp]: "drepr (- x) \<longleftrightarrow> drepr x"
  by (simp add: drepr_def dec28.rnd_minus)

lemma drepr_abs [simp]: "drepr \<bar>x\<bar> \<longleftrightarrow> drepr x"
  by (cases "0 \<le> x") simp_all

lemma drepr_of_int: "\<bar>n\<bar> \<le> 10 ^ 28 \<Longrightarrow> drepr (of_int n)"
  by (simp add: drepr_def dec28.rnd_small_int)

lemma drepr_scaled: "\<bar>n\<bar> \<le> 10 ^ 28 \<Longrightarrow> drepr (of_int n / 10 ^ k)"
  unfolding drepr_def by (rule dround_exact [of _ n "- int k"]) (simp_all add: power_int_minus divide_inverse)

lemma drepr_numeral [simp]: "(numeral n :: int) \<le> 10 ^ 28 \<Longrightarrow> drepr (numeral n)"
  using drepr_of_int [of "numeral n"] by simp

lemma drepr_one [simp]: "drepr 1"
  using drepr_of_int [of 1] by simp

lemma dround_drepr [dec_exact]: "drepr x \<Longrightarrow> dround x = x"
  by (simp add: drepr_def)

lemma op_exact [dec_exact]:
  "drepr (a + b) \<Longrightarrow> dadd a b = a + b"
  "drepr (a - b) \<Longrightarrow> dsub a b = a - b"
  "drepr (a * b) \<Longrightarrow> dmul a b = a * b"
  "b \<noteq> 0 \<Longrightarrow> drepr (a / b) \<Longrightarrow> ddiv a b = Inr (a / b)"
  by (simp_all add: dadd_def dsub_def dmul_def ddiv_def drepr_def)

lemma drepr_ops [simp]: "drepr (dadd a b)" "drepr (dsub a b)" "drepr (dmul a b)" "drepr (dneg a)"
  by (simp_all add: dadd_def dsub_def dmul_def dneg_def)

lemma dneg_drepr [simp]: "drepr a \<Longrightarrow> dneg a = - a"
  by (simp add: dneg_def dround_drepr)

lemma dabs_drepr [simp]: "drepr a \<Longrightarrow> dabs a = \<bar>a\<bar>"
  by (simp add: dabs_def dround_drepr)

lemma dadd_zero: "drepr a \<Longrightarrow> dadd a 0 = a" "drepr a \<Longrightarrow> dadd 0 a = a"
  by (simp_all add: dadd_def dround_drepr)

lemma foldl_dadd_zeros: "\<forall>x \<in> set xs. x = 0 \<Longrightarrow> drepr a \<Longrightarrow> foldl dadd a xs = a"
  by (induction xs arbitrary: a) (auto simp: dadd_zero)

lemma dsum_zeros: "\<forall>x \<in> set xs. x = 0 \<Longrightarrow> dsum xs = 0"
  by (simp add: dsum_def foldl_dadd_zeros)

lemma dmul_sign: "0 \<le> a \<Longrightarrow> 0 \<le> b \<Longrightarrow> 0 \<le> dmul a b" "0 < a \<Longrightarrow> 0 < b \<Longrightarrow> 0 < dmul a b"
  by (simp_all add: dmul_def dec28.rnd_nonneg dec28.rnd_pos)

lemma ddiv_Inr: "b \<noteq> 0 \<Longrightarrow> ddiv a b = Inr (dround (a / b))"
  by (simp add: ddiv_def)

lemma ddiv_Inr_iff [res_simps]: "ddiv a b = Inr q \<longleftrightarrow> b \<noteq> 0 \<and> q = dround (a / b)"
  by (auto simp: ddiv_def)

lemma dtrunc_nonneg: "0 \<le> x \<Longrightarrow> 0 \<le> dtrunc x"
  by (simp add: dtrunc_def)

lemma dtrunc_le: "0 \<le> x \<Longrightarrow> of_int (dtrunc x) \<le> x"
  by (simp add: dtrunc_def)

end
