(* ===== verification/Py_Dates.thy ===== *)
theory Py_Dates
  imports Prelude
begin

text \<open>
  Python's \<open>datetime.date\<close> and \<open>datetime.datetime\<close>, as far as the engine uses them. A date is
  its proleptic Gregorian ordinal (\<open>date.toordinal\<close>, 1 January of year 1 is day 1), so that
  comparison and the addition of a \<open>timedelta\<close> are those of integers; the constructor and the
  additions raise outside the years 1 to 9999 as Python's do. A datetime is its wall-clock time in
  microseconds with the UTC offset of its \<open>tzinfo\<close> (\<open>None\<close> for a naive datetime).
  The lemmas relate \<open>year_of\<close> to the constructor and bound the day of the year.
\<close>

type_synonym date = int

definition is_leap :: "int \<Rightarrow> bool" where
  "is_leap y \<longleftrightarrow> y mod 4 = 0 \<and> (y mod 100 \<noteq> 0 \<or> y mod 400 = 0)"

definition days_before_year :: "int \<Rightarrow> int" where
  "days_before_year y = (let p = y - 1 in 365 * p + p div 4 - p div 100 + p div 400)"

definition days_in_month :: "int \<Rightarrow> int \<Rightarrow> int" where
  "days_in_month y m =
     (if m = 2 then (if is_leap y then 29 else 28)
      else if m = 4 \<or> m = 6 \<or> m = 9 \<or> m = 11 then 30 else 31)"

definition days_before_month :: "int \<Rightarrow> int \<Rightarrow> int" where
  "days_before_month y m =
     [0, 0, 31, 59, 90, 120, 151, 181, 212, 243, 273, 304, 334] ! nat m
       + (if 2 < m \<and> is_leap y then 1 else 0)"

definition ymd2ord :: "int \<Rightarrow> int \<Rightarrow> int \<Rightarrow> date" where
  "ymd2ord y m d = days_before_year y + days_before_month y m + d"

definition mk_date :: "int \<Rightarrow> int \<Rightarrow> int \<Rightarrow> date res" where
  "mk_date y m d =
     (if 1 \<le> y \<and> y \<le> 9999 \<and> 1 \<le> m \<and> m \<le> 12 \<and> 1 \<le> d \<and> d \<le> days_in_month y m
      then Inr (ymd2ord y m d) else Inl ValueError)"

text \<open>\<open>date.max.toordinal()\<close>.\<close>

definition max_ordinal :: int where
  "max_ordinal = 3652059"

definition date_add :: "date \<Rightarrow> int \<Rightarrow> date res" where
  "date_add d k = (if 1 \<le> d + k \<and> d + k \<le> max_ordinal then Inr (d + k) else Inl OverflowError)"

text \<open>\<open>date.weekday()\<close>: Monday is 0, Sunday is 6.\<close>

definition weekday :: "date \<Rightarrow> int" where
  "weekday d = (d + 6) mod 7"

abbreviation (input) "MONDAY \<equiv> (0::int)"
abbreviation (input) "WEDNESDAY \<equiv> (2::int)"
abbreviation (input) "THURSDAY \<equiv> (3::int)"
abbreviation (input) "FRIDAY \<equiv> (4::int)"
abbreviation (input) "SATURDAY \<equiv> (5::int)"
abbreviation (input) "SUNDAY \<equiv> (6::int)"

definition year_of :: "date \<Rightarrow> int" where
  "year_of n =
     (let y = (400 * (n - 1)) div 146097 + 1
      in if n \<le> days_before_year y then y - 1
         else if days_before_year (y + 1) < n then y + 1 else y)"

definition month_of :: "date \<Rightarrow> int" where
  "month_of n =
     (let y = year_of n; doy = n - days_before_year y
      in int (length (filter (\<lambda>m. days_before_month y m < doy) [1, 2, 3, 4, 5, 6, 7, 8, 9, 10, 11, 12])))"

definition day_of :: "date \<Rightarrow> int" where
  "day_of n = n - days_before_year (year_of n) - days_before_month (year_of n) (month_of n)"

definition date_isoformat :: "date \<Rightarrow> string" where
  "date_isoformat n =
     zpad 4 (nat (year_of n)) @ ''-'' @ zpad 2 (nat (month_of n)) @ ''-'' @ zpad 2 (nat (day_of n))"

record datetime =
  dt_local :: int
  dt_off :: "int option"

definition dt_aware :: "datetime \<Rightarrow> bool" where
  "dt_aware t \<longleftrightarrow> dt_off t \<noteq> None"

definition dt_is_utc :: "datetime \<Rightarrow> bool" where
  "dt_is_utc t \<longleftrightarrow> dt_off t = Some 0"

text \<open>The instant two aware datetimes are compared by.\<close>

definition dt_instant :: "datetime \<Rightarrow> int" where
  "dt_instant t = dt_local t - (case dt_off t of None \<Rightarrow> 0 | Some z \<Rightarrow> z)"

definition dt_date :: "datetime \<Rightarrow> date" where
  "dt_date t = dt_local t div 86400000000"

definition iso_hms :: "int \<Rightarrow> string" where
  "iso_hms us =
     (let s = us div 1000000
      in zpad 2 (nat (s div 3600)) @ '':'' @ zpad 2 (nat (s div 60 mod 60)) @ '':'' @ zpad 2 (nat (s mod 60)))"

definition iso_offset :: "int \<Rightarrow> string" where
  "iso_offset z =
     (let a = \<bar>z\<bar> div 1000000
      in (if z < 0 then ''-'' else ''+'') @ zpad 2 (nat (a div 3600)) @ '':'' @ zpad 2 (nat (a div 60 mod 60))
         @ (if a mod 60 = 0 then '''' else '':'' @ zpad 2 (nat (a mod 60))))"

definition dt_isoformat :: "datetime \<Rightarrow> string" where
  "dt_isoformat t =
     (let tod = dt_local t mod 86400000000; us = tod mod 1000000
      in date_isoformat (dt_date t) @ ''T'' @ iso_hms tod
         @ (if us = 0 then '''' else ''.'' @ zpad 6 (nat us))
         @ (case dt_off t of None \<Rightarrow> '''' | Some z \<Rightarrow> iso_offset z))"

text \<open>\<open>datetime + timedelta\<close> (microseconds): leaving the years 1 to 9999 raises.\<close>

definition dt_add :: "datetime \<Rightarrow> int \<Rightarrow> datetime res" where
  "dt_add t us =
     (let l = dt_local t + us
      in if 86400000000 \<le> l \<and> l < (max_ordinal + 1) * 86400000000 then Inr (t\<lparr>dt_local := l\<rparr>)
         else Inl OverflowError)"

text \<open>\<open>astimezone(UTC)\<close> of an aware datetime.\<close>

definition to_utc :: "datetime \<Rightarrow> datetime res" where
  "to_utc t = dt_add \<lparr>dt_local = dt_local t, dt_off = Some 0\<rparr> (dt_instant t - dt_local t)"

text \<open>\<open>==\<close> on datetimes: two naive or two aware values compare by their instant, a mixed pair is unequal.\<close>

definition dt_eq :: "datetime \<Rightarrow> datetime \<Rightarrow> bool" where
  "dt_eq s t \<longleftrightarrow> dt_aware s = dt_aware t \<and> dt_instant s = dt_instant t"

lemma to_utc_Inr: "to_utc t = Inr u \<Longrightarrow> u = \<lparr>dt_local = dt_instant t, dt_off = Some 0\<rparr> \<and> dt_instant u = dt_instant t"
  by (auto simp: to_utc_def dt_add_def Let_def dt_instant_def split: if_splits)

lemma to_utc_utc: "to_utc t = Inr u \<Longrightarrow> to_utc u = Inr u"
  by (auto simp: to_utc_def dt_add_def Let_def dt_instant_def split: if_splits)

section \<open>Years\<close>

lemma div_succ:
  assumes "0 < k" shows "(p + 1) div k = p div k + (if (p + 1) mod k = 0 then 1 else (0::int))"
proof -
  define q where "q = p div k"
  define r where "r = p mod k"
  have p: "p = k * q + r" and r: "0 \<le> r" "r < k" using assms by (simp_all add: q_def r_def)
  show ?thesis
  proof (cases "r = k - 1")
    case True
    then have "p + 1 = k * (q + 1)" using p by (simp add: distrib_left)
    then show ?thesis using assms by (simp add: q_def [symmetric])
  next
    case False
    then have "(p + 1) div k = q" "(p + 1) mod k = r + 1"
      using p r int_div_pos_eq [of "p + 1" k q "r + 1"] int_mod_pos_eq [of "p + 1" k q "r + 1"] by auto
    then show ?thesis using r by (simp add: q_def [symmetric])
  qed
qed

lemma year_length: "days_before_year (y + 1) = days_before_year y + (if is_leap y then 366 else 365)"
proof -
  obtain p where y: "y = p + 1" by (metis add.commute add_diff_cancel_left' diff_add_cancel)
  define A B C where "A = ((p + 1) mod 4 = 0)" "B = ((p + 1) mod 100 = 0)" "C = ((p + 1) mod 400 = 0)"
  note abc = this
  have "B \<Longrightarrow> A" "C \<Longrightarrow> B"
    unfolding abc using mod_mod_cancel [of 4 100 "p + 1"] mod_mod_cancel [of 100 400 "p + 1"]
    by (auto simp del: mod_0_imp_dvd)
  note imps = this
  have alg: "365 * (p + 1) + (a + ia) - (b + ib) + (c + ic)
      = 365 * p + a - b + c + 365 + ia - ib + ic" for a b c ia ib ic
    by simp
  have e: "p + 1 + 1 - 1 = p + 1" "p + 1 - 1 = p" by simp_all
  have "days_before_year (p + 1 + 1) = days_before_year (p + 1) + 365
      + (if A then 1 else 0) - (if B then 1 else 0) + (if C then 1 else 0)"
    unfolding days_before_year_def Let_def e abc div_succ [of 4 p, OF zero_less_numeral]
      div_succ [of 100 p, OF zero_less_numeral] div_succ [of 400 p, OF zero_less_numeral]
    by (rule alg)
  moreover have "is_leap (p + 1) \<longleftrightarrow> A \<and> (\<not> B \<or> C)" by (simp only: is_leap_def abc)
  ultimately show ?thesis unfolding y using imps
    by (cases A; cases B; cases C) simp_all
qed

lemma days_before_year_less: "y < z \<Longrightarrow> days_before_year y < days_before_year z"
proof (induction z rule: int_gr_induct)
  case base
  then show ?case using year_length [of y] by simp
next
  case (step z)
  then show ?case using year_length [of z] by simp
qed

lemma days_before_year_mono: "y \<le> z \<Longrightarrow> days_before_year y \<le> days_before_year z"
  using days_before_year_less [of y z] by (cases "y = z") auto

lemma days_before_year_bounds:
  "400 * days_before_year y \<le> 146097 * (y - 1) + 396"
  "146097 * (y - 1) - 699 \<le> 400 * days_before_year y"
proof -
  define p where "p = y - 1"
  define a b c where "a = p div 4" "b = p div 100" "c = p div 400"
  note abc = this
  have d: "days_before_year y = 365 * p + a - b + c"
    by (simp only: days_before_year_def Let_def p_def abc)
  have "4 * a \<le> p" "p \<le> 4 * a + 3" "100 * b \<le> p" "p \<le> 100 * b + 99" "400 * c \<le> p" "p \<le> 400 * c + 399"
    unfolding abc by linarith+
  then show "400 * days_before_year y \<le> 146097 * (y - 1) + 396"
    "146097 * (y - 1) - 699 \<le> 400 * days_before_year y"
    unfolding d p_def [symmetric] by (simp_all add: algebra_simps)
qed

lemma year_of_bounds: "days_before_year (year_of n) < n" "n \<le> days_before_year (year_of n + 1)"
proof -
  define z where "z = (400 * (n - 1)) div 146097"
  have z: "146097 * z \<le> 400 * (n - 1)" "400 * (n - 1) < 146097 * z + 146097"
    unfolding z_def by linarith+
  have lo: "days_before_year z < n" using days_before_year_bounds(1) [of z] z by (simp add: algebra_simps)
  have hi: "n \<le> days_before_year (z + 3)" using days_before_year_bounds(2) [of "z + 3"] z by (simp add: algebra_simps)
  have y: "year_of n = (if n \<le> days_before_year (z + 1) then z
    else if days_before_year (z + 2) < n then z + 2 else z + 1)"
    by (simp add: year_of_def z_def Let_def add.assoc)
  show "days_before_year (year_of n) < n" using lo by (auto simp: y)
  show "n \<le> days_before_year (year_of n + 1)" using hi by (auto simp: y add.assoc)
qed

lemma year_of_eqI:
  assumes "days_before_year y < n" "n \<le> days_before_year (y + 1)" shows "year_of n = y"
proof -
  have "\<not> year_of n < y" using days_before_year_mono [of "year_of n + 1" y] year_of_bounds(2) [of n] assms by auto
  moreover have "\<not> y < year_of n" using days_before_year_mono [of "y + 1" "year_of n"] year_of_bounds(1) [of n] assms by auto
  ultimately show ?thesis by simp
qed

lemma year_of_mono: "m \<le> n \<Longrightarrow> year_of m \<le> year_of n"
proof (rule ccontr)
  assume "m \<le> n" "\<not> year_of m \<le> year_of n"
  then have "days_before_year (year_of n + 1) \<le> days_before_year (year_of m)"
    by (intro days_before_year_mono) simp
  then show False using year_of_bounds(1) [of m] year_of_bounds(2) [of n] \<open>m \<le> n\<close> by linarith
qed

section \<open>Months\<close>

lemma month_cases:
  assumes "1 \<le> m" "m \<le> (12::int)"
  obtains "m = 1" | "m = 2" | "m = 3" | "m = 4" | "m = 5" | "m = 6"
    | "m = 7" | "m = 8" | "m = 9" | "m = 10" | "m = 11" | "m = 12"
proof -
  from assms have "m \<in> {1..12}" by simp
  also have "{1..12::int} = {1, 2, 3, 4, 5, 6, 7, 8, 9, 10, 11, 12}" by (simp add: set_upto [symmetric] upto.simps)
  finally show thesis using that by blast
qed

lemma days_before_month_simps [simp]:
  "days_before_month y 1 = 0"
  "days_before_month y 2 = 31"
  "days_before_month y 3 = 59 + (if is_leap y then 1 else 0)"
  "days_before_month y 4 = 90 + (if is_leap y then 1 else 0)"
  "days_before_month y 5 = 120 + (if is_leap y then 1 else 0)"
  "days_before_month y 6 = 151 + (if is_leap y then 1 else 0)"
  "days_before_month y 7 = 181 + (if is_leap y then 1 else 0)"
  "days_before_month y 8 = 212 + (if is_leap y then 1 else 0)"
  "days_before_month y 9 = 243 + (if is_leap y then 1 else 0)"
  "days_before_month y 10 = 273 + (if is_leap y then 1 else 0)"
  "days_before_month y 11 = 304 + (if is_leap y then 1 else 0)"
  "days_before_month y 12 = 334 + (if is_leap y then 1 else 0)"
  by (simp_all add: days_before_month_def)

lemma days_in_month_bounds: "28 \<le> days_in_month y m" "days_in_month y m \<le> 31"
  by (auto simp: days_in_month_def)

lemma days_before_next_month:
  assumes "1 \<le> m" "m < 12" shows "days_before_month y (m + 1) = days_before_month y m + days_in_month y m"
proof -
  from assms have "1 \<le> m" "m \<le> 12" by auto
  then show ?thesis by (rule month_cases) (use assms in \<open>simp_all add: days_in_month_def\<close>)
qed

lemma month_end:
  assumes "1 \<le> m" "m \<le> 12"
  shows "0 \<le> days_before_month y m"
    "days_before_month y m + days_in_month y m \<le> (if is_leap y then 366 else 365)"
  using assms by (rule_tac [!] month_cases [OF assms]) (simp_all add: days_in_month_def)

lemma ymd2ord_in_year:
  assumes "1 \<le> m" "m \<le> 12" "1 \<le> d" "d \<le> days_in_month y m"
  shows "days_before_year y < ymd2ord y m d" "ymd2ord y m d \<le> days_before_year (y + 1)"
  using month_end [OF assms(1,2), of y] assms(3,4) year_length [of y] by (auto simp: ymd2ord_def)

lemma year_of_ymd2ord [simp]:
  "1 \<le> m \<Longrightarrow> m \<le> 12 \<Longrightarrow> 1 \<le> d \<Longrightarrow> d \<le> days_in_month y m \<Longrightarrow> year_of (ymd2ord y m d) = y"
  using ymd2ord_in_year by (intro year_of_eqI)

lemma mk_date_Inr [res_simps]:
  "mk_date y m d = Inr n \<longleftrightarrow>
     1 \<le> y \<and> y \<le> 9999 \<and> 1 \<le> m \<and> m \<le> 12 \<and> 1 \<le> d \<and> d \<le> days_in_month y m \<and> n = ymd2ord y m d"
  by (auto simp: mk_date_def)

lemma days_before_year_range: "1 \<le> y \<Longrightarrow> 0 \<le> days_before_year y" "y \<le> 9999 \<Longrightarrow> days_before_year (y + 1) \<le> max_ordinal"
proof -
  assume "1 \<le> y"
  then have "days_before_year 1 \<le> days_before_year y" by (rule days_before_year_mono)
  then show "0 \<le> days_before_year y" by (simp add: days_before_year_def)
next
  assume "y \<le> 9999"
  then have "days_before_year (y + 1) \<le> days_before_year 10000" by (intro days_before_year_mono) simp
  then show "days_before_year (y + 1) \<le> max_ordinal" by (simp add: days_before_year_def max_ordinal_def)
qed

lemma date_add_in_years:
  assumes "1 \<le> y" "z \<le> 9999" "days_before_year y < d + k" "d + k \<le> days_before_year (z + 1)"
  shows "date_add d k = Inr (d + k)"
  using days_before_year_range(1) [OF assms(1)] days_before_year_range(2) [OF assms(2)] assms(3,4)
  by (simp add: date_add_def)

section \<open>Weekdays\<close>

lemma weekday_range [simp]: "0 \<le> weekday d" "weekday d < 7"
  by (simp_all add: weekday_def)

lemma weekday_add: "weekday (d + k) = (weekday d + k) mod 7"
  by (simp add: weekday_def mod_simps) (simp add: algebra_simps)

lemma weekday_in_window:
  assumes "0 \<le> w" "w < 7" shows "\<exists>i. 0 \<le> i \<and> i < 7 \<and> weekday (d + i) = w"
proof (intro exI conjI)
  show "0 \<le> (w - weekday d) mod 7" "(w - weekday d) mod 7 < 7" by simp_all
  show "weekday (d + (w - weekday d) mod 7) = w"
    using assms by (simp add: weekday_add mod_simps)
qed

end
