(* ===== verification/Market_Types.thy ===== *)
theory Market_Types
  imports Decimal_Arith Py_Dates Sha256
begin

text \<open>
  The record types of the data layer (\<open>src/futur3/data/types.py\<close>): the enumerations, the frozen
  dataclasses \<open>RawBar\<close>, \<open>Settle\<close> and \<open>RawTick\<close> with the checks their constructors make, and the
  provenance hash. A dataclass is a \<open>record\<close>; its \<open>__post_init__\<close> is a function on that record that
  raises or returns \<open>()\<close>, and building a value is writing the record and running it. Python strings
  are \<open>string\<close>s whose characters are the bytes of the UTF-8 encoding.
\<close>

definition SHA256_HEX_LENGTH :: nat where
  "SHA256_HEX_LENGTH = 64"

datatype SourceTier =
    T1_EXCHANGE_HISTORICAL
  | T2_EXCHANGE
  | T2_BROKER
  | T2_MACRO
  | T3_AGGREGATOR
  | T4_DERIVED

fun tier_value :: "SourceTier \<Rightarrow> int" where
  "tier_value T1_EXCHANGE_HISTORICAL = 1"
| "tier_value T2_EXCHANGE = 2"
| "tier_value T2_BROKER = 3"
| "tier_value T2_MACRO = 4"
| "tier_value T3_AGGREGATOR = 5"
| "tier_value T4_DERIVED = 6"

lemma tier_value_inject: "tier_value s = tier_value t \<Longrightarrow> s = t"
  by (cases s; cases t) simp_all

text \<open>\<open>SourceTier\<close> is an \<open>IntEnum\<close>: tiers compare by their rank.\<close>

instantiation SourceTier :: linorder
begin

definition less_eq_SourceTier :: "SourceTier \<Rightarrow> SourceTier \<Rightarrow> bool" where
  "less_eq_SourceTier s t = (tier_value s \<le> tier_value t)"

definition less_SourceTier :: "SourceTier \<Rightarrow> SourceTier \<Rightarrow> bool" where
  "less_SourceTier s t = (tier_value s < tier_value t)"

instance
  by standard (auto simp: less_eq_SourceTier_def less_SourceTier_def intro: tier_value_inject)

end

datatype BarResolution = SEC_1 | SEC_5 | MIN_1 | MIN_5 | MIN_15 | HOUR_1 | DAY_1 | SETTLE

fun resolution_value :: "BarResolution \<Rightarrow> string" where
  "resolution_value SEC_1 = ''1s''"
| "resolution_value SEC_5 = ''5s''"
| "resolution_value MIN_1 = ''1m''"
| "resolution_value MIN_5 = ''5m''"
| "resolution_value MIN_15 = ''15m''"
| "resolution_value HOUR_1 = ''1h''"
| "resolution_value DAY_1 = ''1d''"
| "resolution_value SETTLE = ''settle''"

datatype SettleState = settle_live | settle_preliminary | settle_final

datatype TickSide = tick_bid | tick_ask | tick_trade

type_synonym ContractSymbol = string

definition assert_tz_aware :: "datetime \<Rightarrow> unit res" where
  "assert_tz_aware ts = require (dt_aware ts) ValueError"

record RawBar =
  rb_contract :: ContractSymbol
  rb_ts :: datetime
  rb_resolution :: BarResolution
  rb_open :: decimal
  rb_high :: decimal
  rb_low :: decimal
  rb_close :: decimal
  rb_volume :: int
  rb_oi :: "int option"
  rb_source_id :: string
  rb_as_of_iso :: datetime
  rb_content_bytes_sha :: string

definition RawBar_post_init :: "RawBar \<Rightarrow> unit res" where
  "RawBar_post_init b =
     bindE (assert_tz_aware (rb_ts b)) (\<lambda>_.
     bindE (assert_tz_aware (rb_as_of_iso b)) (\<lambda>_.
     bindE (require (\<not> rb_high b < rb_low b) ValueError) (\<lambda>_.
     bindE (require (\<not> rb_volume b < 0) ValueError) (\<lambda>_.
     bindE (require (case rb_oi b of None \<Rightarrow> True | Some oi \<Rightarrow> \<not> oi < 0) ValueError) (\<lambda>_.
     require (length (rb_content_bytes_sha b) = SHA256_HEX_LENGTH) ValueError)))))"

record Settle =
  st_contract :: ContractSymbol
  st_as_of_date :: date
  st_settle :: decimal
  st_settle_state :: SettleState
  st_open :: decimal
  st_high :: decimal
  st_low :: decimal
  st_last :: decimal
  st_change :: decimal
  st_volume_est :: int
  st_oi_prior :: int
  st_source_id :: string
  st_as_of_iso :: "datetime option"
  st_content_bytes_sha :: string
  st_cme_month_code :: string

definition Settle_post_init :: "Settle \<Rightarrow> unit res" where
  "Settle_post_init s =
     bindE (case st_as_of_iso s of None \<Rightarrow> Inr () | Some ts \<Rightarrow> assert_tz_aware ts) (\<lambda>_.
     bindE (require (\<not> st_high s < st_low s) ValueError) (\<lambda>_.
     bindE (require (\<not> st_volume_est s < 0) ValueError) (\<lambda>_.
     bindE (require (\<not> st_oi_prior s < 0) ValueError) (\<lambda>_.
     require (\<not> (st_content_bytes_sha s \<noteq> [] \<and> length (st_content_bytes_sha s) \<noteq> SHA256_HEX_LENGTH)) ValueError))))"

record RawTick =
  rt_contract :: ContractSymbol
  rt_ts :: datetime
  rt_price :: decimal
  rt_size :: int
  rt_side :: "TickSide option"
  rt_source_id :: string
  rt_as_of_iso :: datetime
  rt_content_bytes_sha :: string

definition RawTick_post_init :: "RawTick \<Rightarrow> unit res" where
  "RawTick_post_init t =
     bindE (assert_tz_aware (rt_ts t)) (\<lambda>_.
     bindE (assert_tz_aware (rt_as_of_iso t)) (\<lambda>_.
     bindE (require (\<not> rt_size t \<le> 0) ValueError) (\<lambda>_.
     bindE (require (\<not> rt_price t \<le> 0) ValueError) (\<lambda>_.
     require (length (rt_content_bytes_sha t) = SHA256_HEX_LENGTH) ValueError))))"

definition content_sha256 :: "string \<Rightarrow> string" where
  "content_sha256 payload = sha256_hex payload"

definition source_provenance_hash :: "string \<Rightarrow> datetime \<Rightarrow> string \<Rightarrow> string" where
  "source_provenance_hash source_id as_of_iso content_bytes_sha =
     sha256_hex (source_id @ ''||'' @ dt_isoformat as_of_iso @ ''||'' @ content_bytes_sha)"

lemma length_source_provenance_hash [simp]:
  "length (source_provenance_hash source_id as_of_iso sha) = SHA256_HEX_LENGTH"
  by (simp add: source_provenance_hash_def SHA256_HEX_LENGTH_def)

lemma RawBar_post_init_iff:
  "RawBar_post_init b = Inr () \<longleftrightarrow>
     dt_aware (rb_ts b) \<and> dt_aware (rb_as_of_iso b) \<and> rb_low b \<le> rb_high b \<and> 0 \<le> rb_volume b \<and>
     (\<forall>oi. rb_oi b = Some oi \<longrightarrow> 0 \<le> oi) \<and> length (rb_content_bytes_sha b) = 64"
  by (auto simp: RawBar_post_init_def assert_tz_aware_def SHA256_HEX_LENGTH_def res_simps split: option.splits)

end
