(* ===== verification/Verifier.thy ===== *)
theory Verifier
  imports Market_Types "HOL-Library.Multiset"
begin

text \<open>
  Cross-source verification (\<open>src/futur3/data/verifier.py\<close> and
  \<open>src/futur3/data/verifier_policies.py\<close>): policies, the verified records and diagnostic events,
  the consensus checks, and \<open>MultiSourceVerifier.verify_settle\<close> / \<open>verify_bar\<close> with the in-memory
  hash chain.

  A data source is a record of its identifier, its tier and the two calls the verifier makes; the
  calls may raise. The clock is read once per verification, after the sources have been polled:
  \<open>now\<close> is that reading. \<open>dec_str\<close> is \<open>str\<close> on \<open>Decimal\<close>, whose result depends on trailing zeros
  that the numeric model does not keep; it only feeds the text of a disagreement event.
\<close>

section \<open>Policies\<close>

datatype PolicyKind = fail_closed | majority_vote | highest_tier

fun kind_str :: "PolicyKind \<Rightarrow> string" where
  "kind_str fail_closed = ''fail_closed''"
| "kind_str majority_vote = ''majority_vote''"
| "kind_str highest_tier = ''highest_tier''"

datatype ToleranceBand = TIGHT | NORMAL | WIDE

fun band_str :: "ToleranceBand \<Rightarrow> string" where
  "band_str TIGHT = ''TIGHT''"
| "band_str NORMAL = ''NORMAL''"
| "band_str WIDE = ''WIDE''"

definition T2_OR_BETTER_MAX_TIER :: SourceTier where
  "T2_OR_BETTER_MAX_TIER = T2_MACRO"

definition FIELD_SETTLE :: string where "FIELD_SETTLE = ''settle''"
definition FIELD_CLOSE :: string where "FIELD_CLOSE = ''close''"
definition FIELD_VOLUME :: string where "FIELD_VOLUME = ''volume''"
definition FIELD_OI :: string where "FIELD_OI = ''oi''"
definition FIELD_TICK :: string where "FIELD_TICK = ''tick''"
definition FIELD_OHLC :: string where "FIELD_OHLC = ''ohlc''"

fun settle_state_rank :: "SettleState \<Rightarrow> int" where
  "settle_state_rank settle_live = 0"
| "settle_state_rank settle_preliminary = 1"
| "settle_state_rank settle_final = 2"

definition BAR_WINDOW_EPSILON :: int where
  "BAR_WINDOW_EPSILON = 1000"

definition WIDE_RELATIVE_TOLERANCE :: decimal where
  "WIDE_RELATIVE_TOLERANCE = 5 / 100"

datatype VerifierPolicy = VerifierPolicy
  (policy_id: string)
  (kind: PolicyKind)
  (min_quorum: int)
  (tolerance_band: ToleranceBand)
  (timeout_seconds: int)
  (require_tier_t2_or_better: bool)
  (per_field_policy: "(string \<times> VerifierPolicy) list")

definition resolve_for_field :: "VerifierPolicy \<Rightarrow> string \<Rightarrow> VerifierPolicy" where
  "resolve_for_field p field_name =
     (case map_of (per_field_policy p) field_name of Some q \<Rightarrow> q | None \<Rightarrow> p)"

section \<open>Verified records and diagnostic events\<close>

record VerifiedSettle =
  vs_contract :: ContractSymbol
  vs_as_of_date :: date
  vs_settle :: decimal
  vs_settle_state :: SettleState
  vs_n_sources_agreed :: int
  vs_source_provenance_hashes :: "string list"
  vs_verifier_run_hash :: string
  vs_tier_used :: SourceTier
  vs_policy_id :: string

definition VerifiedSettle_post_init :: "VerifiedSettle \<Rightarrow> unit res" where
  "VerifiedSettle_post_init v =
     bindE (require (length (vs_verifier_run_hash v) = SHA256_HEX_LENGTH) ValueError) (\<lambda>_.
     require (\<forall>h \<in> set (vs_source_provenance_hashes v). length h = SHA256_HEX_LENGTH) ValueError)"

record VerifiedBar =
  vb_contract :: ContractSymbol
  vb_ts :: datetime
  vb_resolution :: BarResolution
  vb_open :: decimal
  vb_high :: decimal
  vb_low :: decimal
  vb_close :: decimal
  vb_volume :: int
  vb_n_sources_agreed :: int
  vb_source_provenance_hashes :: "string list"
  vb_verifier_run_hash :: string
  vb_prev_bar_hash :: "string option"
  vb_tier_used :: SourceTier
  vb_policy_id :: string

definition VerifiedBar_post_init :: "VerifiedBar \<Rightarrow> unit res" where
  "VerifiedBar_post_init v =
     bindE (require (dt_aware (vb_ts v)) ValueError) (\<lambda>_.
     bindE (require (length (vb_verifier_run_hash v) = SHA256_HEX_LENGTH) ValueError) (\<lambda>_.
     require (case vb_prev_bar_hash v of None \<Rightarrow> True | Some h \<Rightarrow> length h = SHA256_HEX_LENGTH) ValueError))"

record DisagreementEvent =
  de_contract :: ContractSymbol
  de_bar_ts :: datetime
  de_resolution :: BarResolution
  de_field :: string
  de_sources :: "string list"
  de_values :: "string list"
  de_diff_magnitude_max :: string
  de_tolerance_used :: ToleranceBand
  de_policy_kind :: PolicyKind
  de_quorum_required :: int
  de_quorum_achieved :: int
  de_detected_at :: datetime
  de_policy_id :: string

definition DisagreementEvent_post_init :: "DisagreementEvent \<Rightarrow> unit res" where
  "DisagreementEvent_post_init d =
     bindE (require (dt_aware (de_detected_at d)) ValueError) (\<lambda>_.
     require (length (de_sources d) = length (de_values d)) ValueError)"

record IncompleteBar =
  ib_contract :: ContractSymbol
  ib_bar_ts :: datetime
  ib_resolution :: BarResolution
  ib_n_sources_responded :: int
  ib_n_sources_required :: int
  ib_sources_pending :: "string list"
  ib_detected_at :: datetime
  ib_policy_id :: string

definition IncompleteBar_post_init :: "IncompleteBar \<Rightarrow> unit res" where
  "IncompleteBar_post_init i = require (dt_aware (ib_detected_at i)) ValueError"

datatype 'v outcome = Verified 'v | Disagreed DisagreementEvent | Incomplete IncompleteBar

section \<open>Hashes\<close>

text \<open>\<open>json.dumps\<close> on a string (\<open>ensure_ascii\<close>): the short escapes, \<open>\u00xx\<close> for the other control characters.\<close>

definition json_char :: "char \<Rightarrow> string" where
  "json_char c =
     (let n = of_char c :: nat
      in if n = 34 then [CHR 0x5C, CHR 0x22]
         else if n = 92 then [CHR 0x5C, CHR 0x5C]
         else if n = 10 then [CHR 0x5C, CHR ''n'']
         else if n = 13 then [CHR 0x5C, CHR ''r'']
         else if n = 9 then [CHR 0x5C, CHR ''t'']
         else if n = 12 then [CHR 0x5C, CHR ''f'']
         else if n = 8 then [CHR 0x5C, CHR ''b'']
         else if 32 \<le> n \<and> n \<le> 126 then [c]
         else [CHR 0x5C, CHR ''u'', CHR ''0'', CHR ''0'', hex_digit (n div 16), hex_digit (n mod 16)])"

definition json_string :: "string \<Rightarrow> string" where
  "json_string s = [CHR 0x22] @ concat (map json_char s) @ [CHR 0x22]"

definition json_bool :: "bool \<Rightarrow> string" where
  "json_bool b = (if b then ''true'' else ''false'')"

definition tolerance_signature :: "VerifierPolicy \<Rightarrow> string" where
  "tolerance_signature p =
     sha256_hex
       (''{'' @ json_string ''kind'' @ '': '' @ json_string (kind_str (kind p)) @
        '', '' @ json_string ''min_quorum'' @ '': '' @ show_int (min_quorum p) @
        '', '' @ json_string ''policy_id'' @ '': '' @ json_string (policy_id p) @
        '', '' @ json_string ''require_tier_t2_or_better'' @ '': '' @ json_bool (require_tier_t2_or_better p) @
        '', '' @ json_string ''tolerance_band'' @ '': '' @ json_string (band_str (tolerance_band p)) @ ''}'')"

definition compute_verifier_run_hash :: "VerifierPolicy \<Rightarrow> string list \<Rightarrow> string \<Rightarrow> string" where
  "compute_verifier_run_hash resolved provenance bar_identifier =
     sha256_hex (policy_id resolved @ ''||'' @ str_join ''||'' (sort provenance) @ ''||'' @
                 tolerance_signature resolved @ ''||'' @ bar_identifier)"

definition settle_state_best :: "SettleState \<Rightarrow> SettleState list \<Rightarrow> SettleState" where
  "settle_state_best s ss = max_by settle_state_rank s ss"

section \<open>Consensus checks\<close>

definition max_relative :: "decimal \<Rightarrow> decimal list \<Rightarrow> decimal res" where
  "max_relative median values =
     bindE (traverse (\<lambda>v. ddiv (dabs (dsub v median)) (dabs median)) values) (\<lambda>rs. Inr (Max (set rs)))"

definition check_settle_consensus :: "Settle list \<Rightarrow> VerifierPolicy \<Rightarrow> (bool \<times> decimal \<times> decimal) res" where
  "check_settle_consensus settles resolved =
     (let values = map st_settle settles
      in if values = [] then Inr (False, 0, 0)
         else if tolerance_band resolved = WIDE then
           (let median = sort values ! (length values div 2)
            in if median = 0 then
                 (let agreed = list_all (\<lambda>v. v = 0) values
                  in Inr (agreed, median, if agreed then 0 else Max (set (map dabs values))))
               else
                 bindE (max_relative median values) (\<lambda>r. Inr (r \<le> WIDE_RELATIVE_TOLERANCE, median, r)))
         else
           (let first = hd values
            in Inr (list_all (\<lambda>v. v = first) values, first, Max (set (map (\<lambda>v. dabs (dsub v first)) values)))))"

definition same_ohlcv :: "RawBar \<Rightarrow> RawBar \<Rightarrow> bool" where
  "same_ohlcv b c \<longleftrightarrow>
     rb_open b = rb_open c \<and> rb_high b = rb_high c \<and> rb_low b = rb_low c \<and> rb_close b = rb_close c \<and>
     rb_volume b = rb_volume c"

definition check_bar_consensus :: "RawBar list \<Rightarrow> VerifierPolicy \<Rightarrow> (bool \<times> RawBar \<times> decimal) res" where
  "check_bar_consensus bars resolved =
     (case bars of
        [] \<Rightarrow> Inl AssertionError
      | b0 # bs \<Rightarrow>
          (let closes = map rb_close bars;
               representative = min_by rb_source_id b0 bs
           in if tolerance_band resolved = WIDE then
                (let median = sort closes ! (length closes div 2)
                 in if median = 0 then
                      (let agreed = list_all (\<lambda>c. c = 0) closes
                       in Inr (agreed, representative, if agreed then 0 else Max (set (map dabs closes))))
                    else
                      bindE (max_relative median closes)
                        (\<lambda>r. Inr (r \<le> WIDE_RELATIVE_TOLERANCE, representative, r)))
              else
                Inr (list_all (\<lambda>b. same_ohlcv b b0) bars, representative,
                     Max (set (map (\<lambda>c. dabs (dsub c (rb_close b0))) closes)))))"

section \<open>MultiSourceVerifier\<close>

record DataSource =
  source_id :: string
  tier :: SourceTier
  get_bars :: "ContractSymbol \<Rightarrow> datetime \<Rightarrow> datetime \<Rightarrow> BarResolution \<Rightarrow> RawBar list res"
  latest_settle :: "ContractSymbol \<Rightarrow> datetime \<Rightarrow> Settle option res"

record MultiSourceVerifier =
  mv_sources :: "DataSource list"
  mv_policy :: VerifierPolicy
  mv_prev_bar_hash :: "((ContractSymbol \<times> BarResolution) \<times> string) list"

definition MultiSourceVerifier_init :: "DataSource list \<Rightarrow> VerifierPolicy \<Rightarrow> MultiSourceVerifier res" where
  "MultiSourceVerifier_init sources policy =
     (if sources = [] then Inl ValueError
      else Inr \<lparr>mv_sources = sort_key source_id sources, mv_policy = policy, mv_prev_bar_hash = []\<rparr>)"

definition source_ids :: "MultiSourceVerifier \<Rightarrow> string list" where
  "source_ids mv = map source_id (mv_sources mv)"

definition supported_bar_resolutions :: "BarResolution list" where
  "supported_bar_resolutions = [SEC_1, SEC_5, MIN_1, MIN_5, MIN_15, HOUR_1, DAY_1]"

definition tier_filter :: "MultiSourceVerifier \<Rightarrow> VerifierPolicy \<Rightarrow> DataSource list" where
  "tier_filter mv resolved =
     (if \<not> require_tier_t2_or_better resolved then mv_sources mv
      else filter (\<lambda>s. tier_value (tier s) \<le> tier_value T2_OR_BETTER_MAX_TIER) (mv_sources mv))"

text \<open>The exceptions that make a source count as not responding: \<open>DataSourceError\<close> and its subclasses.\<close>

definition is_data_source_error :: "exn \<Rightarrow> bool" where
  "is_data_source_error e \<longleftrightarrow>
     e \<in> {DataSourceError, BarsNotSupported, TicksNotSupported, SettlesNotSupported, OtherDataSourceError, UnknownPolicyError,
             BackoffQueueTimeout, SchemaMismatch, FutureDatedSourceError, ContractNotConfigured, BRRWindowEmpty,
             InsufficientVenues, COTSourceError, COTContractUnknownError, COTSchemaDriftError, MacroSourceError,
             ShutdownVoidError, CMEScrapeError, WAFBlockedError, MalformedSettlementPage, IBKRError, IBKRConnectionError,
             IBKRReqError, IBKRContractAmbiguity, CftcSocrataError, FredMacroError, BlsMacroError, ScheduleDriftError}"

definition settle_answer :: "ContractSymbol \<Rightarrow> datetime \<Rightarrow> DataSource \<Rightarrow> Settle option res" where
  "settle_answer contract as_of src =
     (case latest_settle src contract as_of of
        Inl e \<Rightarrow> if is_data_source_error e then Inr None else Inl e
      | Inr r \<Rightarrow> Inr r)"

definition bar_answer ::
  "ContractSymbol \<Rightarrow> datetime \<Rightarrow> datetime \<Rightarrow> BarResolution \<Rightarrow> DataSource \<Rightarrow> RawBar option res" where
  "bar_answer contract bar_ts ts_end resolution src =
     (case get_bars src contract bar_ts ts_end resolution of
        Inl e \<Rightarrow> if is_data_source_error e then Inr None else Inl e
      | Inr bars \<Rightarrow> Inr (List.find (\<lambda>b. dt_eq (rb_ts b) bar_ts) bars))"

fun poll :: "(DataSource \<Rightarrow> 'a option res) \<Rightarrow> DataSource list \<Rightarrow> ((DataSource \<times> 'a) list \<times> string list) res" where
  "poll ask [] = Inr ([], [])"
| "poll ask (s # ss) =
     bindE (ask s) (\<lambda>a. bindE (poll ask ss) (\<lambda>(responding, not_responding).
       case a of
         None \<Rightarrow> Inr (responding, source_id s # not_responding)
       | Some x \<Rightarrow> Inr ((s, x) # responding, not_responding)))"

definition settle_provenance :: "DataSource \<times> Settle \<Rightarrow> string res" where
  "settle_provenance r =
     (case st_as_of_iso (snd r) of
        None \<Rightarrow> Inl DataSourceError
      | Some ts \<Rightarrow> Inr (source_provenance_hash (st_source_id (snd r)) ts (st_content_bytes_sha (snd r))))"

definition verify_settle ::
  "(decimal \<Rightarrow> string) \<Rightarrow> datetime \<Rightarrow> MultiSourceVerifier \<Rightarrow> ContractSymbol \<Rightarrow> datetime \<Rightarrow> VerifiedSettle outcome res" where
  "verify_settle dec_str now mv contract as_of =
     (let resolved = resolve_for_field (mv_policy mv) FIELD_SETTLE
      in bindE (poll (settle_answer contract as_of) (tier_filter mv resolved)) (\<lambda>(responding, not_responding).
        if int (length responding) < min_quorum resolved then
          (let i = \<lparr>ib_contract = contract, ib_bar_ts = as_of, ib_resolution = SETTLE,
                    ib_n_sources_responded = int (length responding),
                    ib_n_sources_required = min_quorum resolved, ib_sources_pending = not_responding,
                    ib_detected_at = now, ib_policy_id = policy_id resolved\<rparr>
           in bindE (IncompleteBar_post_init i) (\<lambda>_. Inr (Incomplete i)))
        else
          (let settles = map snd responding
           in bindE (check_settle_consensus settles resolved) (\<lambda>(agreed, consensus, max_diff).
             if \<not> agreed then
               (let d = \<lparr>de_contract = contract, de_bar_ts = as_of, de_resolution = SETTLE,
                         de_field = FIELD_SETTLE, de_sources = map (source_id \<circ> fst) responding,
                         de_values = map (dec_str \<circ> st_settle \<circ> snd) responding,
                         de_diff_magnitude_max = dec_str max_diff,
                         de_tolerance_used = tolerance_band resolved, de_policy_kind = kind resolved,
                         de_quorum_required = min_quorum resolved,
                         de_quorum_achieved = int (length responding),
                         de_detected_at = now, de_policy_id = policy_id resolved\<rparr>
                in bindE (DisagreementEvent_post_init d) (\<lambda>_. Inr (Disagreed d)))
             else
               bindE (traverse settle_provenance responding) (\<lambda>prov.
                 let as_of_date = st_as_of_date (hd settles);
                     bar_id = contract @ ''||'' @ date_isoformat as_of_date @ ''||'' @ resolution_value SETTLE;
                     v = \<lparr>vs_contract = contract, vs_as_of_date = as_of_date, vs_settle = consensus,
                          vs_settle_state = settle_state_best (st_settle_state (hd settles)) (map st_settle_state (tl settles)),
                          vs_n_sources_agreed = int (length responding),
                          vs_source_provenance_hashes = prov,
                          vs_verifier_run_hash = compute_verifier_run_hash resolved prov bar_id,
                          vs_tier_used = min_by tier_value (tier (fst (hd responding))) (map (tier \<circ> fst) (tl responding)),
                          vs_policy_id = policy_id resolved\<rparr>
                 in bindE (VerifiedSettle_post_init v) (\<lambda>_. Inr (Verified v)))))))"

definition verify_bar ::
  "(decimal \<Rightarrow> string) \<Rightarrow> datetime \<Rightarrow> MultiSourceVerifier \<Rightarrow> ContractSymbol \<Rightarrow> datetime \<Rightarrow> BarResolution \<Rightarrow>
   VerifiedBar outcome res \<times> MultiSourceVerifier" where
  "verify_bar dec_str now mv contract bar_ts resolution =
     (if \<not> dt_aware bar_ts then (Inl ValueError, mv)
      else if resolution \<notin> set supported_bar_resolutions then (Inl ValueError, mv)
      else
        (let resolved = resolve_for_field (mv_policy mv) FIELD_OHLC
         in case bindE (dt_add bar_ts BAR_WINDOW_EPSILON) (\<lambda>ts_end.
                   poll (bar_answer contract bar_ts ts_end resolution) (tier_filter mv resolved)) of
              Inl e \<Rightarrow> (Inl e, mv)
            | Inr (responding, not_responding) \<Rightarrow>
        (if int (length responding) < min_quorum resolved then
          (let i = \<lparr>ib_contract = contract, ib_bar_ts = bar_ts, ib_resolution = resolution,
                    ib_n_sources_responded = int (length responding),
                    ib_n_sources_required = min_quorum resolved, ib_sources_pending = not_responding,
                    ib_detected_at = now, ib_policy_id = policy_id resolved\<rparr>
           in (bindE (IncompleteBar_post_init i) (\<lambda>_. Inr (Incomplete i)), mv))
         else
          (let raw_bars = map snd responding
           in case check_bar_consensus raw_bars resolved of
                Inl e \<Rightarrow> (Inl e, mv)
              | Inr (agreed, representative, max_diff) \<Rightarrow>
             if \<not> agreed then
               (let d = \<lparr>de_contract = contract, de_bar_ts = bar_ts, de_resolution = resolution,
                         de_field = FIELD_CLOSE, de_sources = map (source_id \<circ> fst) responding,
                         de_values = map (dec_str \<circ> rb_close \<circ> snd) responding,
                         de_diff_magnitude_max = dec_str max_diff,
                         de_tolerance_used = tolerance_band resolved, de_policy_kind = kind resolved,
                         de_quorum_required = min_quorum resolved,
                         de_quorum_achieved = int (length responding),
                         de_detected_at = now, de_policy_id = policy_id resolved\<rparr>
                in (bindE (DisagreementEvent_post_init d) (\<lambda>_. Inr (Disagreed d)), mv))
             else
               (let prov = map (\<lambda>b. source_provenance_hash (rb_source_id b) (rb_as_of_iso b) (rb_content_bytes_sha b)) raw_bars;
                    bar_id = contract @ ''||'' @ dt_isoformat bar_ts @ ''||'' @ resolution_value resolution;
                    run_hash = compute_verifier_run_hash resolved prov bar_id;
                    prev_key = (contract, resolution);
                    prev_hash = map_of (mv_prev_bar_hash mv) prev_key;
                    mv' = mv\<lparr>mv_prev_bar_hash := AList.update prev_key run_hash (mv_prev_bar_hash mv)\<rparr>;
                    v = \<lparr>vb_contract = contract, vb_ts = bar_ts, vb_resolution = resolution,
                         vb_open = rb_open representative, vb_high = rb_high representative,
                         vb_low = rb_low representative, vb_close = rb_close representative,
                         vb_volume = rb_volume representative,
                         vb_n_sources_agreed = int (length responding),
                         vb_source_provenance_hashes = prov, vb_verifier_run_hash = run_hash,
                         vb_prev_bar_hash = prev_hash,
                         vb_tier_used = min_by tier_value (tier (fst (hd responding))) (map (tier \<circ> fst) (tl responding)),
                         vb_policy_id = policy_id resolved\<rparr>
                in (bindE (VerifiedBar_post_init v) (\<lambda>_. Inr (Verified v)), mv'))))))"

section \<open>Polling\<close>

text \<open>The answers that reach the consensus check, as a function of what each source returns.\<close>

definition responses :: "(DataSource \<Rightarrow> 'a option res) \<Rightarrow> DataSource list \<Rightarrow> (DataSource \<times> 'a) list" where
  "responses ask ss =
     concat (map (\<lambda>s. case ask s of Inr (Some x) \<Rightarrow> [(s, x)] | _ \<Rightarrow> []) ss)"

lemma set_responses: "(s, x) \<in> set (responses ask ss) \<longleftrightarrow> s \<in> set ss \<and> ask s = Inr (Some x)"
  by (auto simp: responses_def split: sum.splits option.splits)

lemma poll_Inr:
  "poll ask ss = Inr (r, n) \<Longrightarrow>
     r = responses ask ss \<and> n = map source_id (filter (\<lambda>s. ask s = Inr None) ss) \<and> length r + length n = length ss"
  by (induction ss arbitrary: r n)
     (auto simp: responses_def res_simps split: option.splits prod.splits)

lemma poll_total:
  "(\<And>s. s \<in> set ss \<Longrightarrow> \<exists>a. ask s = Inr a) \<Longrightarrow> \<exists>n. poll ask ss = Inr (responses ask ss, n)"
proof (induction ss)
  case (Cons s ss)
  obtain n where n: "poll ask ss = Inr (responses ask ss, n)" using Cons by auto
  obtain a where "ask s = Inr a" using Cons.prems by auto
  then show ?case using n by (cases a) (auto simp: responses_def)
qed (simp add: responses_def)

definition settle_responses :: "MultiSourceVerifier \<Rightarrow> ContractSymbol \<Rightarrow> datetime \<Rightarrow> (DataSource \<times> Settle) list" where
  "settle_responses mv contract as_of =
     responses (\<lambda>s. latest_settle s contract as_of) (tier_filter mv (resolve_for_field (mv_policy mv) FIELD_SETTLE))"

lemma responses_settle_answer: "responses (settle_answer c t) ss = responses (\<lambda>s. latest_settle s c t) ss"
  unfolding responses_def by (rule arg_cong [of _ _ concat]) (auto simp: settle_answer_def split: sum.splits option.splits)

lemma settle_answer_ok:
  "(\<And>e. latest_settle s c t = Inl e \<Longrightarrow> is_data_source_error e) \<Longrightarrow> \<exists>a. settle_answer c t s = Inr a"
  by (auto simp: settle_answer_def split: sum.splits)

section \<open>Consensus\<close>

lemma consensus_exact:
  assumes "check_settle_consensus settles resolved = Inr (agreed, consensus, d)" "tolerance_band resolved \<noteq> WIDE"
  shows "agreed \<longleftrightarrow> settles \<noteq> [] \<and> (\<forall>x \<in> set settles. st_settle x = consensus)"
    and "settles \<noteq> [] \<Longrightarrow> consensus = st_settle (hd settles)"
  using assms by (cases settles; auto simp: check_settle_consensus_def Let_def list_all_iff)+


lemma relative_close:
  fixes v m :: decimal
  assumes m: "m \<noteq> 0" and q: "ddiv (dabs (dsub v m)) (dabs m) = Inr q" and le: "q \<le> 5 / 100"
  shows "\<bar>v - m\<bar> \<le> 50001 / 1000000 * \<bar>m\<bar>"
proof -
  let ?d = "\<bar>dround (v - m)\<bar>" and ?n = "\<bar>dround m\<bar>"
  have n: "0 < ?n" using m dec28.rnd_eq_0_iff [of m] by simp
  have q': "q = dround (?d / ?n)"
    using q by (simp add: res_simps dabs_def dsub_def dec28.rnd_abs dec28.rnd_idem)
  have "?d / ?n - 5 / 10 ^ 28 * (?d / ?n) \<le> q"
    using dec28.rnd_error [of "?d / ?n"] q' by (simp add: abs_le_iff)
  then have "(1 - 5 / 10 ^ 28) * (?d / ?n) \<le> 5 / 100" using le by (simp add: algebra_simps)
  then have 1: "(1 - 5 / 10 ^ 28) * ?d \<le> 5 / 100 * ?n" using n by (simp add: divide_simps)
  have 2: "(1 - 5 / 10 ^ 28) * \<bar>v - m\<bar> \<le> ?d"
    using dec28.rnd_error [of "v - m"] by (simp add: algebra_simps abs_if split: if_splits)
  have 3: "?n \<le> (1 + 5 / 10 ^ 28) * \<bar>m\<bar>"
    using dec28.rnd_error [of m] by (simp add: algebra_simps abs_if split: if_splits)
  have "(1 - 5 / 10 ^ 28) * ((1 - 5 / 10 ^ 28) * \<bar>v - m\<bar>) \<le> (1 - 5 / 10 ^ 28) * ?d"
    using 2 by (intro mult_left_mono) simp_all
  also have "\<dots> \<le> 5 / 100 * ((1 + 5 / 10 ^ 28) * \<bar>m\<bar>)"
    using 1 mult_left_mono [OF 3, of "5 / 100"] by simp
  finally show ?thesis by simp
qed

lemma consensus_wide:
  assumes c: "check_settle_consensus settles resolved = Inr (True, consensus, d)"
    and wide: "tolerance_band resolved = WIDE" and x: "x \<in> set settles"
  shows "\<bar>st_settle x - consensus\<bar> \<le> 50001 / 1000000 * \<bar>consensus\<bar>"
proof (cases "consensus = 0")
  case True
  then show ?thesis using c wide x
    by (auto simp: check_settle_consensus_def Let_def list_all_iff bindE_Inr_iff split: if_splits)
next
  case False
  define vals where "vals = map st_settle settles"
  have ne: "vals \<noteq> []" using x by (auto simp: vals_def)
  have "bindE (max_relative consensus vals) (\<lambda>r. Inr (r \<le> 5 / 100, consensus, r)) = Inr (True, consensus, d)"
    using c ne False
    by (simp add: check_settle_consensus_def wide Let_def WIDE_RELATIVE_TOLERANCE_def vals_def [symmetric] bindE_Inr_iff
          del: bindE_simps split: if_split_asm) auto
  then obtain r where r: "max_relative consensus vals = Inr r" and le: "r \<le> 5 / 100"
    by (auto simp: bindE_Inr_iff)
  then obtain rs where rs: "traverse (\<lambda>v. ddiv (dabs (dsub v consensus)) (dabs consensus)) vals = Inr rs"
    and rmax: "r = Max (set rs)"
    by (auto simp: max_relative_def bindE_Inr_iff)
  have "st_settle x \<in> set vals" using x by (simp add: vals_def)
  then obtain q where "q \<in> set rs" "ddiv (dabs (dsub (st_settle x) consensus)) (dabs consensus) = Inr q"
    using traverse_mem [OF rs] by auto
  moreover have "q \<le> r" using calculation rmax by simp
  ultimately show ?thesis using relative_close [OF False] le by (meson order_trans)
qed

section \<open>Settles\<close>

lemma verify_settle_cases:
  assumes "verify_settle dec_str now mv contract as_of = Inr (Verified v)"
  shows "\<exists>d prov. check_settle_consensus (map snd (settle_responses mv contract as_of))
             (resolve_for_field (mv_policy mv) FIELD_SETTLE) = Inr (True, vs_settle v, d) \<and>
           traverse settle_provenance (settle_responses mv contract as_of) = Inr prov \<and>
           min_quorum (resolve_for_field (mv_policy mv) FIELD_SETTLE) \<le> int (length (settle_responses mv contract as_of)) \<and>
           vs_n_sources_agreed v = int (length (settle_responses mv contract as_of))"
  using assms
  by (auto simp: verify_settle_def Let_def bindE_Inr_iff settle_responses_def responses_settle_answer
        dest!: poll_Inr split: if_splits)

lemma length_compute_verifier_run_hash [simp]:
  "length (compute_verifier_run_hash p prov b) = SHA256_HEX_LENGTH"
  by (simp add: compute_verifier_run_hash_def SHA256_HEX_LENGTH_def)

lemma settle_provenance_length: "settle_provenance r = Inr h \<Longrightarrow> length h = SHA256_HEX_LENGTH"
  by (auto simp: settle_provenance_def split: option.splits)


lemma verify_settle_build:
  assumes polled: "\<And>s e. s \<in> set (mv_sources mv) \<Longrightarrow> latest_settle s contract as_of = Inl e \<Longrightarrow> is_data_source_error e"
    and quorum: "min_quorum (resolve_for_field (mv_policy mv) FIELD_SETTLE) \<le> int (length (settle_responses mv contract as_of))"
    and cons: "check_settle_consensus (map snd (settle_responses mv contract as_of))
                 (resolve_for_field (mv_policy mv) FIELD_SETTLE) = Inr (True, c, d)"
    and prov: "traverse settle_provenance (settle_responses mv contract as_of) = Inr prov"
  shows "\<exists>v. verify_settle dec_str now mv contract as_of = Inr (Verified v)"
proof -
  let ?p = "resolve_for_field (mv_policy mv) FIELD_SETTLE"
  have "\<exists>a. settle_answer contract as_of s = Inr a" if "s \<in> set (tier_filter mv ?p)" for s
    using that polled by (intro settle_answer_ok) (auto simp: tier_filter_def split: if_splits)
  then obtain n where "poll (settle_answer contract as_of) (tier_filter mv ?p) = Inr (settle_responses mv contract as_of, n)"
    using poll_total [of "tier_filter mv ?p" "settle_answer contract as_of"]
    by (auto simp: settle_responses_def responses_settle_answer)
  moreover have "\<forall>h \<in> set prov. length h = SHA256_HEX_LENGTH"
    using traverse_mem_back [OF prov] settle_provenance_length by blast
  ultimately show ?thesis
    using quorum cons prov
    by (auto simp: verify_settle_def Let_def VerifiedSettle_post_init_def require_def linorder_not_less)
qed

lemma verify_settle_agreement:
  assumes "verify_settle dec_str now mv contract as_of = Inr (Verified v)"
  shows "min_quorum (resolve_for_field (mv_policy mv) FIELD_SETTLE) \<le> vs_n_sources_agreed v
       \<and> vs_n_sources_agreed v = int (length (settle_responses mv contract as_of))
       \<and> (\<forall>s \<in> set (tier_filter mv (resolve_for_field (mv_policy mv) FIELD_SETTLE)).
            \<forall>x. latest_settle s contract as_of = Inr (Some x) \<longrightarrow>
              (if tolerance_band (resolve_for_field (mv_policy mv) FIELD_SETTLE) = WIDE
               then \<bar>st_settle x - vs_settle v\<bar> \<le> 50001 / 1000000 * \<bar>vs_settle v\<bar>
               else st_settle x = vs_settle v))"
proof -
  let ?p = "resolve_for_field (mv_policy mv) FIELD_SETTLE"
  obtain d prov where c: "check_settle_consensus (map snd (settle_responses mv contract as_of)) ?p = Inr (True, vs_settle v, d)"
    and rest: "min_quorum ?p \<le> int (length (settle_responses mv contract as_of))"
      "vs_n_sources_agreed v = int (length (settle_responses mv contract as_of))"
    using verify_settle_cases [OF assms] by blast
  have mem: "x \<in> set (map snd (settle_responses mv contract as_of))"
    if "s \<in> set (tier_filter mv ?p)" "latest_settle s contract as_of = Inr (Some x)" for s x
    using that set_responses [of s x "\<lambda>s. latest_settle s contract as_of" "tier_filter mv ?p"]
    by (force simp: settle_responses_def)
  have "if tolerance_band ?p = WIDE then \<bar>st_settle x - vs_settle v\<bar> \<le> 50001 / 1000000 * \<bar>vs_settle v\<bar>
        else st_settle x = vs_settle v"
    if "s \<in> set (tier_filter mv ?p)" "latest_settle s contract as_of = Inr (Some x)" for s x
    using mem [OF that] consensus_wide [OF c _ mem [OF that]] consensus_exact(1) [OF c] by (auto simp del: set_map)
  then show ?thesis using rest by metis
qed

text \<open>
  No silent disagreement: when \<open>verify_settle\<close> returns a \<open>VerifiedSettle\<close>, at least \<open>min_quorum\<close>
  eligible sources answered, and every eligible source that answered is consistent with the
  verified price: equal to it under a \<open>TIGHT\<close> or \<open>NORMAL\<close> band, within five percent of it (up to the
  rounding of the decimal context) under \<open>WIDE\<close>. Sources below tier two are not eligible when the
  policy requires it.
\<close>

theorem verify_settle_sound:
  assumes "verify_settle dec_str now mv contract as_of = Inr (Verified v)"
  shows "min_quorum (resolve_for_field (mv_policy mv) FIELD_SETTLE) \<le> vs_n_sources_agreed v
       \<and> vs_n_sources_agreed v = int (length (settle_responses mv contract as_of))
       \<and> (\<forall>s \<in> set (tier_filter mv (resolve_for_field (mv_policy mv) FIELD_SETTLE)).
            \<forall>x. latest_settle s contract as_of = Inr (Some x) \<longrightarrow>
              (if tolerance_band (resolve_for_field (mv_policy mv) FIELD_SETTLE) = WIDE
               then \<bar>st_settle x - vs_settle v\<bar> \<le> 50001 / 1000000 * \<bar>vs_settle v\<bar>
               else st_settle x = vs_settle v))"
  using assms by (rule verify_settle_agreement)

text \<open>A small configuration: sources at given tiers that quote given prices for every contract and day.\<close>

definition quoted_settle :: "string \<Rightarrow> decimal \<Rightarrow> Settle" where
  "quoted_settle sid price =
     \<lparr>st_contract = ''ESM26'', st_as_of_date = 739000, st_settle = price, st_settle_state = settle_final,
      st_open = price, st_high = price, st_low = price, st_last = price, st_change = 0,
      st_volume_est = 10, st_oi_prior = 5, st_source_id = sid,
      st_as_of_iso = Some \<lparr>dt_local = 63849600000000000, dt_off = Some 0\<rparr>,
      st_content_bytes_sha = '''', st_cme_month_code = ''M''\<rparr>"

definition quoted_bar :: "string \<Rightarrow> datetime \<Rightarrow> decimal \<Rightarrow> RawBar" where
  "quoted_bar sid ts price =
     \<lparr>rb_contract = ''ESM26'', rb_ts = ts, rb_resolution = DAY_1, rb_open = price, rb_high = price,
      rb_low = price, rb_close = price, rb_volume = 10, rb_oi = None, rb_source_id = sid, rb_as_of_iso = ts,
      rb_content_bytes_sha = replicate 64 (CHR ''0'')\<rparr>"

definition quoting_source :: "string \<Rightarrow> SourceTier \<Rightarrow> decimal \<Rightarrow> DataSource" where
  "quoting_source sid t price =
     \<lparr>source_id = sid, tier = t, get_bars = (\<lambda>_ ts _ _. Inr [quoted_bar sid ts price]),
      latest_settle = (\<lambda>_ _. Inr (Some (quoted_settle sid price)))\<rparr>"

definition utc_noon :: datetime where
  "utc_noon = \<lparr>dt_local = 63849643200000000, dt_off = Some 0\<rparr>"

definition two_of_three :: MultiSourceVerifier where
  "two_of_three =
     \<lparr>mv_sources = [quoting_source ''cme'' T2_EXCHANGE 100, quoting_source ''ibkr'' T2_BROKER 100,
                   quoting_source ''yahoo'' T3_AGGREGATOR 101],
      mv_policy = VerifierPolicy ''p'' fail_closed 2 TIGHT 60 True [], mv_prev_bar_hash = []\<rparr>"

lemmas two_of_three_simps =
  two_of_three_def quoting_source_def quoted_settle_def quoted_bar_def settle_responses_def responses_def
  tier_filter_def resolve_for_field_def T2_OR_BETTER_MAX_TIER_def

lemma two_of_three_verifies:
  "\<exists>v. verify_settle dec_str now two_of_three ''ESM26'' utc_noon = Inr (Verified v)"
proof (rule verify_settle_build)
  show "check_settle_consensus (map snd (settle_responses two_of_three ''ESM26'' utc_noon))
          (resolve_for_field (mv_policy two_of_three) FIELD_SETTLE) = Inr (True, 100, 0)"
    by (simp add: two_of_three_simps check_settle_consensus_def dsub_def dabs_def dec28.rnd_zero)
  show "min_quorum (resolve_for_field (mv_policy two_of_three) FIELD_SETTLE)
          \<le> int (length (settle_responses two_of_three ''ESM26'' utc_noon))"
    by (simp add: two_of_three_simps)
  show "traverse settle_provenance (settle_responses two_of_three ''ESM26'' utc_noon)
          = Inr [source_provenance_hash ''cme'' \<lparr>dt_local = 63849600000000000, dt_off = Some 0\<rparr> '''',
                 source_provenance_hash ''ibkr'' \<lparr>dt_local = 63849600000000000, dt_off = Some 0\<rparr> '''']"
    by (simp add: two_of_three_simps settle_provenance_def)
qed (auto simp: two_of_three_simps)

theorem verify_settle_sound_witness:
  "\<exists>v. verify_settle (\<lambda>_. '''') utc_noon two_of_three ''ESM26'' utc_noon = Inr (Verified v)
     \<and> 2 \<le> vs_n_sources_agreed v \<and> vs_settle v = 100"
proof -
  obtain v where v: "verify_settle (\<lambda>_. '''') utc_noon two_of_three ''ESM26'' utc_noon = Inr (Verified v)"
    using two_of_three_verifies by blast
  have "2 \<le> vs_n_sources_agreed v" "vs_settle v = 100"
    using verify_settle_sound [OF v] by (simp_all add: two_of_three_simps)
  then show ?thesis using v by blast
qed



section \<open>Bars\<close>

definition bar_responses ::
  "MultiSourceVerifier \<Rightarrow> ContractSymbol \<Rightarrow> datetime \<Rightarrow> BarResolution \<Rightarrow> (DataSource \<times> RawBar) list" where
  "bar_responses mv contract bar_ts resolution =
     responses (bar_answer contract bar_ts (bar_ts\<lparr>dt_local := dt_local bar_ts + BAR_WINDOW_EPSILON\<rparr>) resolution)
       (tier_filter mv (resolve_for_field (mv_policy mv) FIELD_OHLC))"

lemma dt_add_Inr: "dt_add t us = Inr t' \<Longrightarrow> t' = t\<lparr>dt_local := dt_local t + us\<rparr>"
  by (auto simp: dt_add_def Let_def split: if_splits)


lemma verify_bar_Verified:
  assumes "verify_bar dec_str now mv contract bar_ts resolution = (Inr (Verified v), mv')"
  shows "\<exists>rep d prov. check_bar_consensus (map snd (bar_responses mv contract bar_ts resolution))
             (resolve_for_field (mv_policy mv) FIELD_OHLC) = Inr (True, rep, d) \<and>
           min_quorum (resolve_for_field (mv_policy mv) FIELD_OHLC) \<le> vb_n_sources_agreed v \<and>
           vb_n_sources_agreed v = int (length (bar_responses mv contract bar_ts resolution)) \<and>
           vb_open v = rb_open rep \<and> vb_high v = rb_high rep \<and> vb_low v = rb_low rep \<and> vb_close v = rb_close rep \<and>
           vb_volume v = rb_volume rep \<and> vb_contract v = contract \<and> vb_ts v = bar_ts \<and> vb_resolution v = resolution \<and>
           vb_prev_bar_hash v = map_of (mv_prev_bar_hash mv) (contract, resolution) \<and>
           mv' = mv\<lparr>mv_prev_bar_hash := AList.update (contract, resolution) (vb_verifier_run_hash v) (mv_prev_bar_hash mv)\<rparr>"
  using assms
  by (auto simp: verify_bar_def Let_def bindE_Inr_iff bar_responses_def
        dest!: poll_Inr dt_add_Inr split: if_splits sum.splits prod.splits)

lemma verify_bar_other:
  assumes "verify_bar dec_str now mv contract bar_ts resolution = (r, mv')" "\<And>v. r \<noteq> Inr (Verified v)"
    and chain: "\<forall>h \<in> ran (map_of (mv_prev_bar_hash mv)). length h = SHA256_HEX_LENGTH"
  shows "mv' = mv"
proof -
  have "length h = SHA256_HEX_LENGTH" if "map_of (mv_prev_bar_hash mv) k = Some h" for h k
    using chain ranI [of "map_of (mv_prev_bar_hash mv)", OF that] by blast
  then show ?thesis
    using assms(1,2)
    by (auto simp: verify_bar_def Let_def VerifiedBar_post_init_def
          split: if_splits sum.splits prod.splits option.splits)
qed




section \<open>The hash chain\<close>

text \<open>A session of \<open>verify_bar\<close> calls (clock reading, contract, instant, resolution): the bars it verifies, in order.\<close>

fun verify_bars ::
  "(decimal \<Rightarrow> string) \<Rightarrow> MultiSourceVerifier \<Rightarrow> (datetime \<times> ContractSymbol \<times> datetime \<times> BarResolution) list \<Rightarrow> VerifiedBar list" where
  "verify_bars dec_str mv [] = []"
| "verify_bars dec_str mv ((now, contract, bar_ts, resolution) # reqs) =
     (case verify_bar dec_str now mv contract bar_ts resolution of
        (Inr (Verified v), mv') \<Rightarrow> v # verify_bars dec_str mv' reqs
      | (_, mv') \<Rightarrow> verify_bars dec_str mv' reqs)"

fun linked :: "string option \<Rightarrow> VerifiedBar list \<Rightarrow> bool" where
  "linked p [] = True"
| "linked p (v # vs) \<longleftrightarrow> vb_prev_bar_hash v = p \<and> linked (Some (vb_verifier_run_hash v)) vs"

definition chain_ok :: "MultiSourceVerifier \<Rightarrow> bool" where
  "chain_ok mv \<longleftrightarrow> (\<forall>h \<in> ran (map_of (mv_prev_bar_hash mv)). length h = SHA256_HEX_LENGTH)"

lemma verify_bar_hash_length:
  "verify_bar dec_str now mv c t r = (Inr (Verified v), mv') \<Longrightarrow> length (vb_verifier_run_hash v) = SHA256_HEX_LENGTH"
  by (auto simp: verify_bar_def Let_def bindE_Inr_iff split: if_splits sum.splits prod.splits)

lemma chain_ok_verify_bar:
  assumes v: "verify_bar dec_str now mv c t r = (Inr (Verified v), mv')" and "chain_ok mv"
  shows "chain_ok mv'"
proof -
  have m: "map_of (mv_prev_bar_hash mv') = (map_of (mv_prev_bar_hash mv))((c, r) \<mapsto> vb_verifier_run_hash v)"
    using verify_bar_Verified [OF v] by auto
  show ?thesis
    using assms(2) verify_bar_hash_length [OF v] unfolding chain_ok_def m by (auto simp: ran_def)
qed

lemma verify_bars_linked:
  "chain_ok mv \<Longrightarrow>
     linked (map_of (mv_prev_bar_hash mv) k) (filter (\<lambda>v. (vb_contract v, vb_resolution v) = k) (verify_bars dec_str mv reqs))"
proof (induction reqs arbitrary: mv)
  case (Cons req reqs)
  obtain now c t r where req: "req = (now, c, t, r)" by (cases req)
  obtain o' mv' where o: "verify_bar dec_str now mv c t r = (o', mv')" by fastforce
  show ?case
  proof (cases "\<exists>v. o' = Inr (Verified v)")
    case True
    then obtain v where v: "verify_bar dec_str now mv c t r = (Inr (Verified v), mv')" using o by auto
    have "vb_contract v = c" "vb_resolution v = r" "vb_prev_bar_hash v = map_of (mv_prev_bar_hash mv) (c, r)"
      "map_of (mv_prev_bar_hash mv') = (map_of (mv_prev_bar_hash mv))((c, r) \<mapsto> vb_verifier_run_hash v)"
      using verify_bar_Verified [OF v] by auto
    then show ?thesis using Cons.IH [OF chain_ok_verify_bar [OF v Cons.prems]] v req by auto
  next
    case False
    then have "mv' = mv" using verify_bar_other [OF o] Cons.prems by (auto simp: chain_ok_def)
    moreover have "verify_bars dec_str mv (req # reqs) = verify_bars dec_str mv' reqs"
      using o False req by (auto split: sum.splits outcome.splits)
    ultimately show ?thesis using Cons.IH [OF Cons.prems] by simp
  qed
qed simp

text \<open>
  The bars a fresh verifier emits form one hash chain per contract and resolution: whatever calls are
  made in between, the first bar of a series has no predecessor and every later one carries the run hash of
  the bar of its series verified just before it.
\<close>

theorem verify_bars_hash_chain:
  assumes "MultiSourceVerifier_init sources policy = Inr mv"
  shows "linked None (filter (\<lambda>v. vb_contract v = contract \<and> vb_resolution v = resolution) (verify_bars dec_str mv reqs))"
proof -
  have "chain_ok mv" "mv_prev_bar_hash mv = []"
    using assms by (auto simp: MultiSourceVerifier_init_def chain_ok_def split: if_splits)
  then show ?thesis using verify_bars_linked [of mv "(contract, resolution)" dec_str reqs] by simp
qed

theorem verify_bars_hash_chain_witness:
  "\<exists>mv. MultiSourceVerifier_init [quoting_source ''cme'' T2_EXCHANGE 100] (VerifierPolicy ''p'' fail_closed 1 TIGHT 60 True []) = Inr mv
     \<and> linked None (filter (\<lambda>v. vb_contract v = ''ESM26'' \<and> vb_resolution v = DAY_1)
         (verify_bars (\<lambda>_. '''') mv [(utc_noon, ''ESM26'', utc_noon, DAY_1), (utc_noon, ''ESM26'', utc_noon, DAY_1)]))"
proof -
  obtain mv where "MultiSourceVerifier_init [quoting_source ''cme'' T2_EXCHANGE 100]
      (VerifierPolicy ''p'' fail_closed 1 TIGHT 60 True []) = Inr mv"
    by (simp add: MultiSourceVerifier_init_def)
  then show ?thesis using verify_bars_hash_chain by blast
qed

section \<open>Order of the sources\<close>

text \<open>
  The order in which the sources are configured is irrelevant: two verifiers built from the same
  sources in any order, with pairwise distinct identifiers, are the same verifier, so every verification
  (run hash and hash chain included) has the same result.
\<close>

theorem verifier_source_order:
  assumes "mset sources = mset sources'" "distinct (map source_id sources)"
  shows "MultiSourceVerifier_init sources policy = MultiSourceVerifier_init sources' policy"
proof -
  have "sort_key source_id sources = sort_key source_id sources'"
  proof (rule sort_key_inj_key_eq)
    show "mset sources = mset (sort_key source_id sources')" using assms(1) by simp
    show "inj_on source_id (set sources)" using assms(2) by (simp add: distinct_map)
    show "sorted (map source_id (sort_key source_id sources'))" by simp
  qed
  moreover have "sources = [] \<longleftrightarrow> sources' = []" using assms(1) by auto
  ultimately show ?thesis by (simp add: MultiSourceVerifier_init_def)
qed

theorem verifier_source_order_witness:
  "MultiSourceVerifier_init [quoting_source ''b'' T2_BROKER 1, quoting_source ''a'' T2_EXCHANGE 1]
       (VerifierPolicy ''p'' fail_closed 1 TIGHT 60 True [])
     = MultiSourceVerifier_init [quoting_source ''a'' T2_EXCHANGE 1, quoting_source ''b'' T2_BROKER 1]
       (VerifierPolicy ''p'' fail_closed 1 TIGHT 60 True [])"
  by (rule verifier_source_order) (simp_all add: quoting_source_def)

lemma run_hash_order_independent:
  "mset hs = mset hs' \<Longrightarrow> compute_verifier_run_hash policy hs bar_id = compute_verifier_run_hash policy hs' bar_id"
  unfolding compute_verifier_run_hash_def by (simp add: sorted_list_of_multiset_mset [symmetric] del: sorted_list_of_multiset_mset)

end
