(* ===== verification/Broker.thy ===== *)
theory Broker
  imports Market_Types
begin

text \<open>
  The broker seam (\<open>src/futur3/execution/broker.py\<close>): order types, the frozen dataclasses \<open>Order\<close>,
  \<open>OrderEvent\<close>, \<open>Position\<close> and \<open>AccountMetrics\<close> with the checks of their constructors.
  \<open>Order_new\<close> builds an order the way its constructor does: it runs \<open>__post_init__\<close> and raises when
  that raises. The calls the engines make of a broker are the locale of \<open>Engine_Broker\<close>.
\<close>

datatype OrderType =
    MKT | LMT | STP | STP_LMT | STP_PRT | MIT | LIT | MOC | MOO | TRAIL | TRAIL_LMT | JOIN_BID | JOIN_ASK

datatype Side = BUY | SELL

datatype Duration = DAY | GTC | GTD

datatype OrderEventType =
    submitted | ack | filled | partial_fill | cancelled | rejected | modified

fun event_str :: "OrderEventType \<Rightarrow> string" where
  "event_str submitted = ''submitted''"
| "event_str ack = ''ack''"
| "event_str filled = ''filled''"
| "event_str partial_fill = ''partial_fill''"
| "event_str cancelled = ''cancelled''"
| "event_str rejected = ''rejected''"
| "event_str modified = ''modified''"

datatype ConsistencyRuleStatus = compliant | warning | violation

definition all_order_types :: "OrderType list" where
  "all_order_types =
     [MKT, LMT, STP, STP_LMT, STP_PRT, MIT, LIT, MOC, MOO, TRAIL, TRAIL_LMT, JOIN_BID, JOIN_ASK]"

lemma all_order_types [simp]: "t \<in> set all_order_types"
  by (cases t) (simp_all add: all_order_types_def)

section \<open>Orders\<close>

record Order =
  o_contract :: ContractSymbol
  o_side :: Side
  o_quantity :: int
  o_order_type :: OrderType
  o_limit_price :: "decimal option"
  o_stop_price :: "decimal option"
  o_duration :: Duration
  o_parent_order_id :: "string option"
  o_oco_group_id :: "string option"
  o_client_order_id :: "string option"

definition requires_limit :: "OrderType \<Rightarrow> bool" where
  "requires_limit t \<longleftrightarrow> t \<in> {LMT, STP_LMT, LIT, TRAIL_LMT}"

definition requires_stop :: "OrderType \<Rightarrow> bool" where
  "requires_stop t \<longleftrightarrow> t \<in> {STP, STP_LMT, STP_PRT, MIT}"

definition Order_post_init :: "Order \<Rightarrow> unit res" where
  "Order_post_init ord =
     bindE (require (\<not> o_quantity ord \<le> 0) ValueError) (\<lambda>_.
     bindE (require (\<not> (requires_limit (o_order_type ord) \<and> o_limit_price ord = None)) ValueError) (\<lambda>_.
     require (\<not> (requires_stop (o_order_type ord) \<and> o_stop_price ord = None)) ValueError))"

definition Order_new :: "Order \<Rightarrow> Order res" where
  "Order_new ord = bindE (Order_post_init ord) (\<lambda>_. Inr ord)"

section \<open>Order events\<close>

record OrderEvent =
  oe_broker_order_id :: string
  oe_client_order_id :: string
  oe_contract :: ContractSymbol
  oe_event_type :: OrderEventType
  oe_fill_price :: "decimal option"
  oe_fill_quantity :: "int option"
  oe_cumulative_filled :: int
  oe_remaining_quantity :: int
  oe_ts_utc :: datetime
  oe_raw_broker_payload_sha :: string

definition OrderEvent_post_init :: "OrderEvent \<Rightarrow> unit res" where
  "OrderEvent_post_init e =
     bindE (require (dt_aware (oe_ts_utc e)) ValueError) (\<lambda>_.
     bindE (require (dt_is_utc (oe_ts_utc e)) ValueError) (\<lambda>_.
     bindE (require (\<not> oe_cumulative_filled e < 0) ValueError) (\<lambda>_.
     bindE (require (\<not> oe_remaining_quantity e < 0) ValueError) (\<lambda>_.
     bindE (require (case oe_fill_quantity e of None \<Rightarrow> True | Some q \<Rightarrow> \<not> q < 0) ValueError) (\<lambda>_.
     require (length (oe_raw_broker_payload_sha e) = SHA256_HEX_LENGTH) ValueError)))))"

section \<open>Positions and account metrics\<close>

record Position =
  p_contract :: ContractSymbol
  p_quantity :: int
  p_avg_entry_price :: decimal
  p_unrealized_pnl :: decimal
  p_realized_pnl_today :: decimal
  p_margin_used :: decimal

definition Position_post_init :: "Position \<Rightarrow> unit res" where
  "Position_post_init p =
     bindE (require (\<not> p_margin_used p < 0) ValueError) (\<lambda>_.
     require (\<not> (p_quantity p \<noteq> 0 \<and> p_avg_entry_price p \<le> 0)) ValueError)"

record AccountMetrics =
  am_account_id :: string
  am_equity :: decimal
  am_cash :: decimal
  am_margin_used :: decimal
  am_margin_available :: decimal
  am_leverage_used :: decimal
  am_realized_pnl_today :: decimal
  am_unrealized_pnl :: decimal
  am_trailing_drawdown_remaining :: "decimal option"
  am_consistency_rule_status :: "ConsistencyRuleStatus option"
  am_max_position_size_allowed :: "int option"

definition AccountMetrics_post_init :: "AccountMetrics \<Rightarrow> unit res" where
  "AccountMetrics_post_init m =
     bindE (require (\<not> am_margin_used m < 0) ValueError) (\<lambda>_.
     bindE (require (\<not> am_margin_available m < 0) ValueError) (\<lambda>_.
     bindE (require (\<not> am_leverage_used m < 0) ValueError) (\<lambda>_.
     require (case am_max_position_size_allowed m of None \<Rightarrow> True | Some n \<Rightarrow> \<not> n < 0) ValueError)))"

lemma Order_new_iff:
  "Order_new ord = Inr ord' \<longleftrightarrow>
     ord' = ord \<and> 0 < o_quantity ord \<and>
     (requires_limit (o_order_type ord) \<longrightarrow> o_limit_price ord \<noteq> None) \<and>
     (requires_stop (o_order_type ord) \<longrightarrow> o_stop_price ord \<noteq> None)"
  by (auto simp: Order_new_def Order_post_init_def res_simps)

lemma Order_new_Inl: "Order_new ord = Inl e \<Longrightarrow> e = ValueError"
  by (auto simp: Order_new_def Order_post_init_def res_simps)

lemma Position_post_init_iff:
  "Position_post_init p = Inr () \<longleftrightarrow> 0 \<le> p_margin_used p \<and> (p_quantity p \<noteq> 0 \<longrightarrow> 0 < p_avg_entry_price p)"
  by (auto simp: Position_post_init_def res_simps)

end
