(* ===== verification/Slippage.thy ===== *)
theory Slippage
  imports Broker
begin

text \<open>
  Backtest slippage (\<open>src/futur3/execution/slippage.py\<close>): tick sizes, the three bands and the
  tick-haircut model. The abstract \<open>SlippageModel\<close> is a function from an intended price, side,
  quantity, contract and time to an executed price; the contract of its docstring (a fill is never
  better than intended) is the locale \<open>slippage_model\<close>, which the tick-haircut model interprets.
\<close>

datatype SlippageBand = CONSERVATIVE | REALISTIC | PESSIMISTIC

definition SLIPPAGE_BAND_ENV_VAR :: string where
  "SLIPPAGE_BAND_ENV_VAR = ''FUTUR3_SLIPPAGE_BAND''"

definition DEFAULT_BAND :: string where
  "DEFAULT_BAND = ''CONSERVATIVE''"

definition band_names :: "(string \<times> SlippageBand) list" where
  "band_names = [(''CONSERVATIVE'', CONSERVATIVE), (''REALISTIC'', REALISTIC), (''PESSIMISTIC'', PESSIMISTIC)]"

fun band_ticks_per_side :: "SlippageBand \<Rightarrow> int" where
  "band_ticks_per_side CONSERVATIVE = 2"
| "band_ticks_per_side REALISTIC = 1"
| "band_ticks_per_side PESSIMISTIC = 4"

definition SYMBOL_SUFFIX_LEN :: nat where
  "SYMBOL_SUFFIX_LEN = 3"

definition CONTRACT_TICK_SIZE :: "(string \<times> decimal) list" where
  "CONTRACT_TICK_SIZE =
     [(''ES'', 25 / 100), (''MES'', 25 / 100), (''NQ'', 25 / 100), (''MNQ'', 25 / 100),
      (''CL'', 1 / 100), (''MCL'', 1 / 100), (''GC'', 10 / 100), (''MGC'', 10 / 100),
      (''MBT'', 5), (''MET'', 5 / 10), (''YM'', 1), (''RTY'', 10 / 100),
      (''6E'', 5 / 100000), (''6A'', 5 / 100000), (''ZN'', 15625 / 1000000), (''ZB'', 3125 / 100000),
      (''6J'', 5 / 10000000), (''6B'', 1 / 10000), (''6C'', 5 / 100000), (''6S'', 1 / 10000),
      (''HG'', 5 / 10000), (''SI'', 5 / 1000), (''ZT'', 390625 / 100000000), (''ZF'', 78125 / 10000000),
      (''UB'', 3125 / 100000), (''NKD'', 5)]"

definition slippage_contract_root :: "ContractSymbol \<Rightarrow> string res" where
  "slippage_contract_root s =
     (if length s \<le> SYMBOL_SUFFIX_LEN then Inl SlippageError
      else Inr (take (length s - SYMBOL_SUFFIX_LEN) s))"

definition tick_size_for :: "ContractSymbol \<Rightarrow> decimal res" where
  "tick_size_for contract =
     bindE (slippage_contract_root contract) (\<lambda>root.
       case map_of CONTRACT_TICK_SIZE root of None \<Rightarrow> Inl SlippageError | Some t \<Rightarrow> Inr t)"

definition resolve_slippage_band :: "(string \<times> string) list \<Rightarrow> SlippageBand res" where
  "resolve_slippage_band env =
     (let raw = (case map_of env SLIPPAGE_BAND_ENV_VAR of Some v \<Rightarrow> v | None \<Rightarrow> DEFAULT_BAND)
      in case map_of band_names (str_upper (str_strip raw)) of
           None \<Rightarrow> Inl UnknownSlippageBandError
         | Some b \<Rightarrow> Inr b)"

type_synonym SlippageModel = "decimal \<Rightarrow> Side \<Rightarrow> int \<Rightarrow> ContractSymbol \<Rightarrow> datetime \<Rightarrow> decimal res"

text \<open>\<open>TickHaircutSlippageModel(band)\<close>; the constructor's check of the band is the type of bands.\<close>

definition TickHaircut_from_env :: "(string \<times> string) list \<Rightarrow> SlippageBand res" where
  "TickHaircut_from_env env = resolve_slippage_band env"

definition apply_slippage :: "SlippageBand \<Rightarrow> SlippageModel" where
  "apply_slippage band intended_price side quantity contract ts =
     bindE (require (\<not> intended_price \<le> 0) ValueError) (\<lambda>_.
     bindE (require (\<not> quantity \<le> 0) ValueError) (\<lambda>_.
     bindE (assert_tz_aware ts) (\<lambda>_.
     bindE (tick_size_for contract) (\<lambda>tick.
       let adjustment = dmul tick (dint (band_ticks_per_side band))
       in Inr (if side = BUY then dadd intended_price adjustment else dsub intended_price adjustment)))))"

section \<open>The contract of a slippage model\<close>

locale slippage_model =
  fixes slip :: SlippageModel
  assumes slip_buy_adverse: "drepr price \<Longrightarrow> slip price BUY q c ts = Inr x \<Longrightarrow> price \<le> x"
    and slip_sell_adverse: "drepr price \<Longrightarrow> slip price SELL q c ts = Inr x \<Longrightarrow> x \<le> price"
    and slip_needs_price: "slip price side q c ts = Inr x \<Longrightarrow> 0 < price"
begin

text \<open>A round trip at one quoted price, in either direction, never gains.\<close>

lemma round_trip_never_gains:
  assumes "drepr price" "slip price BUY q c ts = Inr b" "slip price SELL q c ts' = Inr s"
  shows "s \<le> b"
  using slip_buy_adverse [OF assms(1,2)] slip_sell_adverse [OF assms(1,3)] by simp

end

section \<open>Tick haircut\<close>

lemma tick_size_pos: "tick_size_for c = Inr t \<Longrightarrow> 0 < t"
proof -
  have "\<forall>(r, t) \<in> set CONTRACT_TICK_SIZE. 0 < t" by (simp add: CONTRACT_TICK_SIZE_def)
  then show "tick_size_for c = Inr t \<Longrightarrow> 0 < t"
    by (auto simp: tick_size_for_def bindE_Inr_iff dest: map_of_SomeD split: option.splits)
qed

lemma haircut_pos: "0 < t \<Longrightarrow> 0 < dmul t (dint (band_ticks_per_side band))"
  by (cases band) (simp_all add: dmul_sign dint_def)

lemma apply_slippage_Inr:
  "apply_slippage band p side q c ts = Inr x \<longleftrightarrow>
     0 < p \<and> 0 < q \<and> dt_aware ts \<and>
     (\<exists>t. tick_size_for c = Inr t \<and>
          x = (if side = BUY then dround (p + dmul t (dint (band_ticks_per_side band)))
               else dround (p - dmul t (dint (band_ticks_per_side band)))))"
  by (auto simp: apply_slippage_def assert_tz_aware_def bindE_Inr_iff require_iff Let_def dadd_def dsub_def)

lemma apply_slippage_adverse:
  assumes "drepr p" "apply_slippage band p side q c ts = Inr x"
  shows "if side = BUY then p \<le> x else x \<le> p"
proof -
  obtain t where t: "tick_size_for c = Inr t"
    and x: "x = (if side = BUY then dround (p + dmul t (dint (band_ticks_per_side band)))
               else dround (p - dmul t (dint (band_ticks_per_side band))))"
    using assms(2) by (auto simp: apply_slippage_Inr)
  have h: "0 < dmul t (dint (band_ticks_per_side band))" using haircut_pos [OF tick_size_pos [OF t]] .
  have p: "dround p = p" using assms(1) by (rule dround_drepr)
  show ?thesis using x dec28.rnd_ge_fixed [OF p] dec28.rnd_le_fixed [OF p] h by simp
qed

interpretation haircut: slippage_model "apply_slippage band" for band
proof
  show "price \<le> x" if "drepr price" "apply_slippage band price BUY q c ts = Inr x" for price q c ts x
    using apply_slippage_adverse [OF that] by simp
  show "x \<le> price" if "drepr price" "apply_slippage band price SELL q c ts = Inr x" for price q c ts x
    using apply_slippage_adverse [OF that] by simp
qed (simp add: apply_slippage_Inr)

text \<open>
  Slippage is adverse: in every band a buy is executed at or above and a sell at or below the intended
  price, so buying and selling at one quote never gains; the executed price is the intended one moved by
  the band's ticks, rounded to the decimal context.
\<close>

theorem apply_slippage_round_trip:
  assumes "drepr price" "apply_slippage band price BUY q c ts = Inr b" "apply_slippage band price SELL q' c ts' = Inr s"
  shows "s \<le> price \<and> price \<le> b \<and>
         (\<exists>t. tick_size_for c = Inr t \<and> 0 < t \<and>
              b = dround (price + dmul t (dint (band_ticks_per_side band))) \<and>
              s = dround (price - dmul t (dint (band_ticks_per_side band))))"
  using haircut.slip_buy_adverse [OF assms(1,2)] haircut.slip_sell_adverse [OF assms(1,3)] assms(2,3) tick_size_pos
  by (auto simp: apply_slippage_Inr)

theorem apply_slippage_round_trip_witness:
  "apply_slippage CONSERVATIVE 5000 BUY 1 ''ESM26'' \<lparr>dt_local = 63849643200000000, dt_off = Some 0\<rparr> = Inr (50005 / 10) \<and>
   apply_slippage CONSERVATIVE 5000 SELL 1 ''ESM26'' \<lparr>dt_local = 63849643200000000, dt_off = Some 0\<rparr> = Inr (49995 / 10) \<and>
   (49995 / 10 :: decimal) \<le> 5000"
proof -
  let ?t = "\<lparr>dt_local = 63849643200000000, dt_off = Some 0\<rparr> :: datetime"
  have t: "tick_size_for ''ESM26'' = Inr (1 / 4)"
    by (simp add: tick_size_for_def slippage_contract_root_def SYMBOL_SUFFIX_LEN_def CONTRACT_TICK_SIZE_def)
  have h: "dmul (1 / 4) (dint 2) = 1 / 2" using drepr_scaled [of 5 1] by (simp add: dmul_def dint_def dec_exact)
  have r: "dround (10001 / 2) = 10001 / 2" "dround (9999 / 2) = 9999 / 2"
    using drepr_scaled [of 50005 1] drepr_scaled [of 49995 1] by (simp_all add: dec_exact)
  have b: "apply_slippage CONSERVATIVE 5000 BUY 1 ''ESM26'' ?t = Inr (50005 / 10)"
    and s: "apply_slippage CONSERVATIVE 5000 SELL 1 ''ESM26'' ?t = Inr (49995 / 10)"
    by (simp_all add: apply_slippage_def assert_tz_aware_def dt_aware_def dadd_def dsub_def t h r)
  have "drepr 5000" using drepr_of_int [of 5000] by simp
  from apply_slippage_round_trip [OF this b s] show ?thesis using b s by simp
qed

end
