(* ===== verification/Risk_Manager.thy ===== *)
theory Risk_Manager
  imports Market_Types
begin

text \<open>
  Position sizing (\<open>src/futur3/execution/margin_source.py\<close>, \<open>risk_manager.py\<close> and
  \<open>fixed_size_risk_manager.py\<close>). A margin source is a lookup that may raise; a sizer is a function
  from contract, full Kelly fraction, equity, price, return history and seed to a \<open>SizingDecision\<close>.
  \<open>surv\<close> stands for the leverage-survival bootstrap of \<open>survival.py\<close>, a Monte-Carlo estimate over
  binary floating point: \<open>surv params returns leverage seed\<close> is the outcome of the comparison
  \<open>survival_probability(...) >= float(survival_floor)\<close>. Nothing is assumed about it.
\<close>

section \<open>Margin sources\<close>

type_synonym MarginSource = "string \<Rightarrow> decimal res"

definition StaticMarginSource :: "(string \<times> decimal) list \<Rightarrow> MarginSource" where
  "StaticMarginSource margins r =
     (case map_of margins r of None \<Rightarrow> Inl MarginSourceError | Some m \<Rightarrow> Inr m)"

definition known_roots :: "(string \<times> decimal) list \<Rightarrow> string set" where
  "known_roots margins = fst ` set margins"

section \<open>Registries\<close>

definition RISK_SYMBOL_SUFFIX_LEN :: nat where
  "RISK_SYMBOL_SUFFIX_LEN = 3"

definition MIN_SURVIVAL_RETURNS :: nat where
  "MIN_SURVIVAL_RETURNS = 2"

definition CONTRACT_INITIAL_MARGIN :: "(string \<times> decimal) list" where
  "CONTRACT_INITIAL_MARGIN =
     [(''ES'', 15400), (''MES'', 1540), (''NQ'', 22800), (''MNQ'', 2280), (''CL'', 7200), (''MCL'', 720),
      (''GC'', 26100), (''MGC'', 2610), (''MBT'', 2800), (''MET'', 1800), (''YM'', 1700), (''RTY'', 3000),
      (''6E'', 2600), (''6A'', 1800), (''ZN'', 2200), (''ZB'', 4000), (''6J'', 2860), (''6B'', 2090),
      (''6C'', 990), (''6S'', 4400), (''HG'', 13200), (''SI'', 46230), (''ZT'', 1320), (''ZF'', 1375),
      (''UB'', 5665), (''NKD'', 21874)]"

definition CONTRACT_MULTIPLIER :: "(string \<times> decimal) list" where
  "CONTRACT_MULTIPLIER =
     [(''ES'', 50), (''MES'', 5), (''NQ'', 20), (''MNQ'', 2), (''CL'', 1000), (''MCL'', 100),
      (''GC'', 100), (''MGC'', 10), (''MBT'', 1 / 10), (''MET'', 1 / 10), (''YM'', 5), (''RTY'', 50),
      (''6E'', 125000), (''6A'', 100000), (''ZN'', 1000), (''ZB'', 1000), (''6J'', 12500000), (''6B'', 62500),
      (''6C'', 100000), (''6S'', 125000), (''HG'', 25000), (''SI'', 5000), (''ZT'', 2000), (''ZF'', 1000),
      (''UB'', 1000), (''NKD'', 5)]"

datatype BindingConstraint = by_kelly | by_margin | by_leverage | by_survival | no_edge

section \<open>Parameters and decisions\<close>

record RiskParams =
  kelly_multiplier :: decimal
  margin_budget_pct :: decimal
  leverage_cap :: decimal
  survival_floor :: decimal
  kill_switch_dd :: decimal
  survival_horizon :: int
  survival_paths :: int

definition RiskParams_default :: RiskParams where
  "RiskParams_default =
     \<lparr>kelly_multiplier = 25 / 100, margin_budget_pct = 50 / 100, leverage_cap = 3, survival_floor = 995 / 1000,
      kill_switch_dd = 30 / 100, survival_horizon = 252, survival_paths = 10000\<rparr>"

definition RiskParams_post_init :: "RiskParams \<Rightarrow> unit res" where
  "RiskParams_post_init p =
     bindE (require (0 < kelly_multiplier p \<and> kelly_multiplier p \<le> 1) ValueError) (\<lambda>_.
     bindE (require (0 < margin_budget_pct p \<and> margin_budget_pct p \<le> 1) ValueError) (\<lambda>_.
     bindE (require (\<not> leverage_cap p \<le> 0) ValueError) (\<lambda>_.
     bindE (require (0 < survival_floor p \<and> survival_floor p < 1) ValueError) (\<lambda>_.
     bindE (require (0 < kill_switch_dd p \<and> kill_switch_dd p < 1) ValueError) (\<lambda>_.
     bindE (require (\<not> survival_horizon p < 1) ValueError) (\<lambda>_.
     require (\<not> survival_paths p < 1) ValueError))))))"

record SizingDecision =
  sd_contracts :: int
  sd_binding_constraint :: BindingConstraint
  sd_kelly_contracts :: int
  sd_margin_contracts :: int
  sd_leverage_contracts :: int
  sd_notional_per_contract :: decimal
  sd_margin_per_contract :: decimal
  sd_survival_contracts :: "int option"

definition SizingDecision_new :: "SizingDecision \<Rightarrow> SizingDecision res" where
  "SizingDecision_new d = bindE (require (\<not> sd_contracts d < 0) ValueError) (\<lambda>_. Inr d)"

definition contract_root :: "ContractSymbol \<Rightarrow> string res" where
  "contract_root s =
     (if length s \<le> RISK_SYMBOL_SUFFIX_LEN then Inl RiskManagerError
      else Inr (take (length s - RISK_SYMBOL_SUFFIX_LEN) s))"

definition lookup_root :: "(string \<times> decimal) list \<Rightarrow> string \<Rightarrow> decimal res" where
  "lookup_root registry r =
     (case map_of registry r of None \<Rightarrow> Inl RiskManagerError | Some v \<Rightarrow> Inr v)"

definition floor_to_int :: "decimal \<Rightarrow> int" where
  "floor_to_int v = dtrunc v"

definition multiplier_for :: "ContractSymbol \<Rightarrow> decimal res" where
  "multiplier_for contract = bindE (contract_root contract) (lookup_root CONTRACT_MULTIPLIER)"

section \<open>The sizer\<close>

type_synonym survival_test = "RiskParams \<Rightarrow> rat list \<Rightarrow> decimal \<Rightarrow> int option \<Rightarrow> bool"

type_synonym sizer =
  "ContractSymbol \<Rightarrow> decimal \<Rightarrow> decimal \<Rightarrow> decimal \<Rightarrow> rat list option \<Rightarrow> int option \<Rightarrow> SizingDecision res"

record RiskManager =
  rm_params :: RiskParams
  rm_margin_source :: MarginSource

definition RiskManager_init :: "RiskParams option \<Rightarrow> MarginSource option \<Rightarrow> RiskManager" where
  "RiskManager_init params source =
     \<lparr>rm_params = (case params of Some p \<Rightarrow> p | None \<Rightarrow> RiskParams_default),
      rm_margin_source = (case source of Some s \<Rightarrow> s | None \<Rightarrow> StaticMarginSource CONTRACT_INITIAL_MARGIN)\<rparr>"

text \<open>The binary search of \<open>_survival_cap\<close>: the loop \<open>while hi - lo > 1\<close>.\<close>

function survival_search :: "(int \<Rightarrow> bool) \<Rightarrow> int \<Rightarrow> int \<Rightarrow> int" where
  "survival_search survives lo hi =
     (if hi - lo > 1
      then (let mid = (lo + hi) div 2
            in if survives mid then survival_search survives mid hi else survival_search survives lo mid)
      else lo)"
  by pat_completeness auto
termination
  by (relation "measure (\<lambda>(survives, lo, hi). nat (hi - lo))") auto

declare survival_search.simps [simp del]

definition survives_at :: "survival_test \<Rightarrow> RiskParams \<Rightarrow> rat list \<Rightarrow> decimal \<Rightarrow> decimal \<Rightarrow> int option \<Rightarrow> int \<Rightarrow> bool" where
  "survives_at surv p returns notional equity seed n =
     (if n \<le> 0 then True
      else case ddiv (dmul (dint n) notional) equity of
             Inl e \<Rightarrow> False
           | Inr lev \<Rightarrow> surv p returns lev seed)"

definition survival_cap :: "survival_test \<Rightarrow> RiskParams \<Rightarrow> rat list \<Rightarrow> int \<Rightarrow> decimal \<Rightarrow> decimal \<Rightarrow> int option \<Rightarrow> int" where
  "survival_cap surv p returns base notional equity seed =
     (if length returns < MIN_SURVIVAL_RETURNS then base
      else if survives_at surv p returns notional equity seed base then base
      else survival_search (survives_at surv p returns notional equity seed) 0 base)"

definition binding :: "int \<Rightarrow> int \<Rightarrow> int \<Rightarrow> int option \<Rightarrow> BindingConstraint" where
  "binding k m l s =
     (let caps = [(by_kelly, k), (by_margin, m), (by_leverage, l)] @ (case s of None \<Rightarrow> [] | Some v \<Rightarrow> [(by_survival, v)]);
          smallest = Min (set (map snd caps))
      in case List.find (\<lambda>(name, v). v = smallest) caps of Some (name, v) \<Rightarrow> name | None \<Rightarrow> by_kelly)"

text \<open>The tail of \<open>size_position\<close>, once the candidate counts are known.\<close>

definition edge_decision ::
  "survival_test \<Rightarrow> RiskParams \<Rightarrow> decimal \<Rightarrow> rat list option \<Rightarrow> int option \<Rightarrow> decimal \<Rightarrow> decimal \<Rightarrow> int \<Rightarrow> int \<Rightarrow> int \<Rightarrow>
   SizingDecision res" where
  "edge_decision surv params account_equity returns seed notional margin1 kelly_contracts margin_contracts leverage_contracts =
     (let base = min (min kelly_contracts margin_contracts) leverage_contracts;
          survival_contracts =
            (case returns of
               Some rs \<Rightarrow> if base > 0 then Some (survival_cap surv params rs base notional account_equity seed) else None
             | None \<Rightarrow> None);
          contracts = (case survival_contracts of None \<Rightarrow> base | Some s \<Rightarrow> min base s)
      in SizingDecision_new
           \<lparr>sd_contracts = contracts,
            sd_binding_constraint = binding kelly_contracts margin_contracts leverage_contracts survival_contracts,
            sd_kelly_contracts = kelly_contracts, sd_margin_contracts = margin_contracts,
            sd_leverage_contracts = leverage_contracts, sd_notional_per_contract = notional,
            sd_margin_per_contract = margin1, sd_survival_contracts = survival_contracts\<rparr>)"

definition size_position :: "survival_test \<Rightarrow> RiskManager \<Rightarrow> sizer" where
  "size_position surv rm contract full_kelly_fraction account_equity price returns seed =
     bindE (require (\<not> account_equity \<le> 0) ValueError) (\<lambda>_.
     bindE (require (\<not> price \<le> 0) ValueError) (\<lambda>_.
     bindE (contract_root contract) (\<lambda>root.
     bindE (case rm_margin_source rm root of
              Inl e \<Rightarrow> Inl (if e = MarginSourceError then RiskManagerError else e)
            | Inr m \<Rightarrow> Inr m) (\<lambda>margin1.
     bindE (lookup_root CONTRACT_MULTIPLIER root) (\<lambda>multiplier.
     let notional = dmul price multiplier
     in
     bindE (ddiv (dmul account_equity (margin_budget_pct (rm_params rm))) margin1) (\<lambda>mq.
     bindE (ddiv (dmul account_equity (leverage_cap (rm_params rm))) notional) (\<lambda>lq.
     let margin_contracts = floor_to_int mq; leverage_contracts = floor_to_int lq
     in
     if full_kelly_fraction \<le> 0 then
       SizingDecision_new
         \<lparr>sd_contracts = 0, sd_binding_constraint = no_edge, sd_kelly_contracts = 0,
          sd_margin_contracts = margin_contracts, sd_leverage_contracts = leverage_contracts,
          sd_notional_per_contract = notional, sd_margin_per_contract = margin1, sd_survival_contracts = None\<rparr>
     else
       bindE (ddiv (dmul (dmul full_kelly_fraction (kelly_multiplier (rm_params rm))) account_equity) notional) (\<lambda>kq.
         edge_decision surv (rm_params rm) account_equity returns seed notional margin1
           (floor_to_int kq) margin_contracts leverage_contracts))))))))"

section \<open>The fixed-size sizer\<close>

record FixedSizeRiskManager = RiskManager +
  fs_fixed :: int

definition FixedSizeRiskManager_init ::
  "int \<Rightarrow> RiskParams option \<Rightarrow> MarginSource option \<Rightarrow> FixedSizeRiskManager res" where
  "FixedSizeRiskManager_init contracts params source =
     (if contracts < 1 then Inl ValueError
      else Inr (RiskManager.extend (RiskManager_init params source) \<lparr>fs_fixed = contracts\<rparr>))"

definition fixed_count :: "int \<Rightarrow> SizingDecision \<Rightarrow> int" where
  "fixed_count fixed base =
     (let affordable = [sd_margin_contracts base, sd_leverage_contracts base] @
                       (case sd_survival_contracts base of None \<Rightarrow> [] | Some s \<Rightarrow> [s])
      in min fixed (Min (set affordable)))"

definition fixed_size_position :: "survival_test \<Rightarrow> FixedSizeRiskManager \<Rightarrow> sizer" where
  "fixed_size_position surv rm contract full_kelly_fraction account_equity price returns seed =
     bindE (size_position surv (RiskManager.truncate rm) contract full_kelly_fraction account_equity price returns seed) (\<lambda>base.
       if full_kelly_fraction \<le> 0 then Inr base
       else SizingDecision_new (base\<lparr>sd_contracts := fixed_count (fs_fixed rm) base\<rparr>))"

section \<open>Rounding of the caps\<close>

lemma registry_pos: "map_of CONTRACT_MULTIPLIER r = Some m \<Longrightarrow> 0 < m"
proof -
  have "\<forall>(r, m) \<in> set CONTRACT_MULTIPLIER. 0 < m" by (simp add: CONTRACT_MULTIPLIER_def)
  then show "map_of CONTRACT_MULTIPLIER r = Some m \<Longrightarrow> 0 < m" by (auto dest: map_of_SomeD)
qed

lemma multiplier_pos: "lookup_root CONTRACT_MULTIPLIER r = Inr m \<Longrightarrow> 0 < m"
  by (auto simp: lookup_root_def registry_pos split: option.splits)

lemma multiplier_for_pos: "multiplier_for c = Inr m \<Longrightarrow> 0 < m"
  by (auto simp: multiplier_for_def bindE_Inr_iff multiplier_pos)

text \<open>A cap \<open>int(a / b)\<close> is the number of whole units of \<open>b\<close> in \<open>a\<close>, up to the rounding of the quotient.\<close>

lemma floor_quotient:
  assumes q: "ddiv a b = Inr q" and a: "0 \<le> a" and b: "0 < b"
  shows "of_int (floor_to_int q) * b \<le> a * (1 + 5 / 10 ^ 28)"
    and "a * (1 - 5 / 10 ^ 28) < (of_int (floor_to_int q) + 1) * b"
    and "0 \<le> floor_to_int q"
proof -
  have q: "q = dround (a / b)" using q by (simp add: res_simps)
  have nn: "0 \<le> a / b" using a b by simp
  have q0: "0 \<le> q" using q dec28.rnd_nonneg nn by simp
  show "0 \<le> floor_to_int q" using q0 by (simp add: floor_to_int_def dtrunc_nonneg)
  have "of_int (floor_to_int q) \<le> (1 + 5 / 10 ^ 28) * (a / b)"
    using dec28.rnd_upper [OF nn] q dtrunc_le [OF q0] by (simp add: floor_to_int_def)
  then show "of_int (floor_to_int q) * b \<le> a * (1 + 5 / 10 ^ 28)" using b by (simp add: divide_simps mult_ac)
  have "(1 - 5 / 10 ^ 28) * (a / b) \<le> q"
    using dec28.rnd_lower [OF nn] q by simp
  moreover have "q < of_int (floor_to_int q) + 1" using q0 by (simp add: floor_to_int_def dtrunc_def) linarith
  ultimately have "(1 - 5 / 10 ^ 28) * (a / b) < of_int (floor_to_int q) + 1" by (rule le_less_trans)
  then show "a * (1 - 5 / 10 ^ 28) < (of_int (floor_to_int q) + 1) * b" using b by (simp add: divide_simps mult_ac)
qed

section \<open>The survival search\<close>

lemma survival_search_boundary:
  "lo < hi \<Longrightarrow> survives lo \<Longrightarrow> \<not> survives hi \<Longrightarrow>
     lo \<le> survival_search survives lo hi \<and> survival_search survives lo hi < hi \<and>
     survives (survival_search survives lo hi) \<and> \<not> survives (survival_search survives lo hi + 1)"
proof (induction survives lo hi rule: survival_search.induct)
  case (1 survives lo hi)
  show ?case
  proof (cases "hi - lo > 1")
    case True
    define mid where "mid = (lo + hi) div 2"
    have mid: "lo < mid" "mid < hi" using True by (auto simp: mid_def)
    have step: "survival_search survives lo hi =
        (if survives mid then survival_search survives mid hi else survival_search survives lo mid)"
      using True by (subst survival_search.simps) (simp add: mid_def Let_def)
    show ?thesis
    proof (cases "survives mid")
      case True
      then show ?thesis using "1.IH"(1) [OF \<open>hi - lo > 1\<close> mid_def] "1.prems" mid step by auto
    next
      case False
      then show ?thesis using "1.IH"(2) [OF \<open>hi - lo > 1\<close> mid_def] "1.prems" mid step by auto
    qed
  next
    case False
    then have "hi = lo + 1" using "1.prems" by simp
    then show ?thesis using "1.prems" by (subst (1 2 3 4) survival_search.simps) simp
  qed
qed

lemma survival_cap_range: "0 \<le> base \<Longrightarrow> 0 \<le> survival_cap surv p rs base n e seed \<and> survival_cap surv p rs base n e seed \<le> base"
proof -
  assume b: "0 \<le> base"
  have s0: "survives_at surv p rs n e seed 0" by (simp add: survives_at_def)
  show ?thesis
  proof (cases "survives_at surv p rs n e seed base")
    case False
    then have "0 < base" using b s0 by (cases "base = 0") auto
    then show ?thesis
      using survival_search_boundary [of 0 base "survives_at surv p rs n e seed"] s0 False
      by (auto simp: survival_cap_def)
  qed (use b in \<open>simp add: survival_cap_def\<close>)
qed

section \<open>What a sizing decision contains\<close>

lemma SizingDecision_new_Inr [res_simps]: "SizingDecision_new d = Inr d' \<longleftrightarrow> d' = d \<and> 0 \<le> sd_contracts d"
  by (auto simp: SizingDecision_new_def res_simps)

definition min_cap :: "SizingDecision \<Rightarrow> int" where
  "min_cap d = min (min (sd_kelly_contracts d) (sd_margin_contracts d)) (sd_leverage_contracts d)"

lemma margin_lookup_Inr:
  "(case ms r of Inl e \<Rightarrow> Inl (if e = MarginSourceError then RiskManagerError else e) | Inr m \<Rightarrow> Inr m) = Inr x \<longleftrightarrow> ms r = Inr x"
  by (auto split: sum.splits)

lemma edge_decision_Inr:
  assumes "edge_decision surv p equity returns seed notional m kc mc lc = Inr d"
  shows "sd_kelly_contracts d = kc \<and> sd_margin_contracts d = mc \<and> sd_leverage_contracts d = lc \<and>
         sd_notional_per_contract d = notional \<and> sd_margin_per_contract d = m \<and> 0 \<le> sd_contracts d \<and>
         sd_survival_contracts d =
           (case returns of
              Some rs \<Rightarrow> if min_cap d > 0 then Some (survival_cap surv p rs (min_cap d) (sd_notional_per_contract d) equity seed) else None
            | None \<Rightarrow> None) \<and>
         sd_contracts d = (case sd_survival_contracts d of None \<Rightarrow> min_cap d | Some s \<Rightarrow> min (min_cap d) s) \<and>
         sd_binding_constraint d =
           binding (sd_kelly_contracts d) (sd_margin_contracts d) (sd_leverage_contracts d) (sd_survival_contracts d)"
  using assms unfolding edge_decision_def Let_def SizingDecision_new_Inr min_cap_def
  by (cases returns; cases "0 < min (min kc mc) lc") simp_all

lemma size_position_common:
  assumes "size_position surv rm c f equity price returns seed = Inr d"
  shows "\<exists>r m k mq lq. 0 < equity \<and> 0 < price \<and> contract_root c = Inr r \<and> rm_margin_source rm r = Inr m \<and>
           lookup_root CONTRACT_MULTIPLIER r = Inr k \<and> 0 \<le> sd_contracts d \<and>
           sd_margin_per_contract d = m \<and> sd_notional_per_contract d = dmul price k \<and>
           ddiv (dmul equity (margin_budget_pct (rm_params rm))) m = Inr mq \<and> sd_margin_contracts d = floor_to_int mq \<and>
           ddiv (dmul equity (leverage_cap (rm_params rm))) (dmul price k) = Inr lq \<and> sd_leverage_contracts d = floor_to_int lq"
  using assms
  by (auto simp: size_position_def bindE_Inr_iff require_iff margin_lookup_Inr Let_def SizingDecision_new_Inr
        dest!: edge_decision_Inr split: if_splits)

lemma size_position_no_edge:
  assumes "size_position surv rm c f equity price returns seed = Inr d" "f \<le> 0"
  shows "sd_contracts d = 0 \<and> sd_binding_constraint d = no_edge"
  using assms by (auto simp: size_position_def bindE_Inr_iff require_iff margin_lookup_Inr Let_def SizingDecision_new_Inr)

lemma size_position_edge:
  assumes "size_position surv rm c f equity price returns seed = Inr d" "0 < f"
  shows "\<exists>kq. ddiv (dmul (dmul f (kelly_multiplier (rm_params rm))) equity) (sd_notional_per_contract d) = Inr kq \<and>
           sd_kelly_contracts d = floor_to_int kq \<and>
           sd_survival_contracts d =
             (case returns of
                Some rs \<Rightarrow> if min_cap d > 0
                           then Some (survival_cap surv (rm_params rm) rs (min_cap d) (sd_notional_per_contract d) equity seed)
                           else None
              | None \<Rightarrow> None) \<and>
           sd_contracts d = (case sd_survival_contracts d of None \<Rightarrow> min_cap d | Some s \<Rightarrow> min (min_cap d) s) \<and>
           sd_binding_constraint d =
             binding (sd_kelly_contracts d) (sd_margin_contracts d) (sd_leverage_contracts d) (sd_survival_contracts d)"
proof -
  obtain r m k kq mq lq where
    "ddiv (dmul (dmul f (kelly_multiplier (rm_params rm))) equity) (dmul price k) = Inr kq"
    and e: "edge_decision surv (rm_params rm) equity returns seed (dmul price k) m (floor_to_int kq) mq lq = Inr d"
    using assms by (auto simp: size_position_def bindE_Inr_iff require_iff margin_lookup_Inr Let_def)
  moreover note edge = edge_decision_Inr [OF e]
  have "dmul price k = sd_notional_per_contract d" "floor_to_int kq = sd_kelly_contracts d" using edge by simp_all
  ultimately have "ddiv (dmul (dmul f (kelly_multiplier (rm_params rm))) equity) (sd_notional_per_contract d) = Inr kq"
    "sd_kelly_contracts d = floor_to_int kq" by simp_all
  then show ?thesis using edge by blast
qed

lemma size_position_le_caps:
  assumes "size_position surv rm c f equity price returns seed = Inr d" "0 < f"
  shows "sd_contracts d \<le> min_cap d" "0 \<le> sd_contracts d"
  using size_position_edge [OF assms] size_position_common [OF assms(1)] by (auto split: option.splits)

section \<open>The interface the engines size through\<close>

text \<open>
  What the engines rely on when they size a target: a decision is never negative, no edge means no
  position, no decision exceeds the margin and leverage caps it reports, and a ruined account is
  refused.
\<close>

locale position_sizer =
  fixes size :: sizer
  assumes size_nonneg: "size c f equity price returns seed = Inr d \<Longrightarrow> 0 \<le> sd_contracts d"
    and size_no_edge: "size c f equity price returns seed = Inr d \<Longrightarrow> f \<le> 0 \<Longrightarrow> sd_contracts d = 0"
    and size_margin: "size c f equity price returns seed = Inr d \<Longrightarrow> 0 < f \<Longrightarrow> sd_contracts d \<le> sd_margin_contracts d"
    and size_leverage: "size c f equity price returns seed = Inr d \<Longrightarrow> 0 < f \<Longrightarrow> sd_contracts d \<le> sd_leverage_contracts d"
    and size_ruined: "equity \<le> 0 \<Longrightarrow> size c f equity price returns seed = Inl ValueError"
begin

lemma size_solvent: "size c f equity price returns seed = Inr d \<Longrightarrow> 0 < equity"
  using size_ruined by (cases "equity \<le> 0") force+

lemma size_le_caps:
  "size c f equity price returns seed = Inr d \<Longrightarrow> 0 < f \<Longrightarrow>
     sd_contracts d \<le> min (sd_margin_contracts d) (sd_leverage_contracts d)"
  using size_margin size_leverage by simp

end

interpretation rm_sizer: position_sizer "size_position surv rm" for surv rm
proof
  fix c f equity price returns seed d
  show "size_position surv rm c f equity price returns seed = Inl ValueError" if "equity \<le> 0"
    using that by (simp add: size_position_def)
  assume s: "size_position surv rm c f equity price returns seed = Inr d"
  show "0 \<le> sd_contracts d" using size_position_common [OF s] by auto
  show "sd_contracts d = 0" if "f \<le> 0" using size_position_no_edge [OF s that] by simp
  show "sd_contracts d \<le> sd_margin_contracts d" if "0 < f" using size_position_le_caps(1) [OF s that] by (simp add: min_cap_def)
  show "sd_contracts d \<le> sd_leverage_contracts d" if "0 < f" using size_position_le_caps(1) [OF s that] by (simp add: min_cap_def)
qed

lemma fixed_size_Inr:
  assumes "fixed_size_position surv rm c f equity price returns seed = Inr d"
  shows "\<exists>base. size_position surv (RiskManager.truncate rm) c f equity price returns seed = Inr base \<and>
           (if f \<le> 0 then d = base
            else d = base\<lparr>sd_contracts := fixed_count (fs_fixed rm) base\<rparr> \<and> 0 \<le> fixed_count (fs_fixed rm) base)"
  using assms by (cases "f \<le> 0") (simp_all add: fixed_size_position_def bindE_Inr_iff SizingDecision_new_Inr)

lemma fixed_count_le:
  "fixed_count n d \<le> n" "fixed_count n d \<le> sd_margin_contracts d" "fixed_count n d \<le> sd_leverage_contracts d"
  "sd_survival_contracts d = Some s \<Longrightarrow> fixed_count n d \<le> s"
  by (cases "sd_survival_contracts d"; simp add: fixed_count_def min_le_iff_disj)+

interpretation fixed_sizer: position_sizer "fixed_size_position surv rm" for surv rm
proof
  fix c f equity price returns seed d
  show "fixed_size_position surv rm c f equity price returns seed = Inl ValueError" if "equity \<le> 0"
    using that by (simp add: fixed_size_position_def size_position_def)
  assume "fixed_size_position surv rm c f equity price returns seed = Inr d"
  from fixed_size_Inr [OF this] obtain base where
    b: "size_position surv (RiskManager.truncate rm) c f equity price returns seed = Inr base"
    and d: "if f \<le> 0 then d = base
            else d = base\<lparr>sd_contracts := fixed_count (fs_fixed rm) base\<rparr> \<and> 0 \<le> fixed_count (fs_fixed rm) base"
    by blast
  show "0 \<le> sd_contracts d" using d rm_sizer.size_nonneg [OF b] by (auto split: if_splits)
  show "sd_contracts d = 0" if "f \<le> 0" using d rm_sizer.size_no_edge [OF b that] that by simp
  show "sd_contracts d \<le> sd_margin_contracts d" if "0 < f" using d that by (simp add: fixed_count_le)
  show "sd_contracts d \<le> sd_leverage_contracts d" if "0 < f" using d that by (simp add: fixed_count_le)
qed

section \<open>Properties of sizing\<close>

text \<open>
  C19. Tighten-only sizing: with a positive edge, the decision is exactly the smallest of the Kelly, margin,
  leverage and (when evaluated) survival caps it reports, and the constraint it names attains that minimum.
\<close>

theorem size_position_is_min:
  assumes "size_position surv rm c f equity price returns seed = Inr d" "0 < f"
  shows "sd_contracts d = Min (set ([sd_kelly_contracts d, sd_margin_contracts d, sd_leverage_contracts d] @
                                    (case sd_survival_contracts d of None \<Rightarrow> [] | Some s \<Rightarrow> [s])))
       \<and> (case sd_binding_constraint d of
            by_kelly \<Rightarrow> sd_contracts d = sd_kelly_contracts d
          | by_margin \<Rightarrow> sd_contracts d = sd_margin_contracts d
          | by_leverage \<Rightarrow> sd_contracts d = sd_leverage_contracts d
          | by_survival \<Rightarrow> sd_survival_contracts d = Some (sd_contracts d) \<and> sd_contracts d < min_cap d
          | no_edge \<Rightarrow> False)"
proof (cases "sd_survival_contracts d")
  case None
  then show ?thesis using size_position_edge [OF assms]
    by (auto simp: min_cap_def binding_def Let_def min_def split: if_splits)
next
  case (Some s)
  then show ?thesis using size_position_edge [OF assms]
    by (auto simp: min_cap_def binding_def Let_def min_def split: if_splits)
qed

text \<open>
  The money behind a size: with valid parameters and positive margins, the margin posted for the sized
  contracts stays within the margin budget and their notional within the leverage cap, up to the relative
  rounding error of the two decimal operations involved.
\<close>

theorem size_position_within_budget:
  assumes s: "size_position surv rm c f equity price returns seed = Inr d"
    and "RiskParams_post_init (rm_params rm) = Inr ()" "0 < sd_margin_per_contract d"
  shows "of_int (sd_contracts d) * sd_margin_per_contract d \<le> equity * margin_budget_pct (rm_params rm) * (1 + 1 / 10 ^ 26)
       \<and> of_int (sd_contracts d) * sd_notional_per_contract d \<le> equity * leverage_cap (rm_params rm) * (1 + 1 / 10 ^ 26)"
proof -
  obtain r m k mq lq where e: "0 < equity" "0 < price" "lookup_root CONTRACT_MULTIPLIER r = Inr k" "0 \<le> sd_contracts d"
    "sd_margin_per_contract d = m" "sd_notional_per_contract d = dmul price k"
    and mq: "ddiv (dmul equity (margin_budget_pct (rm_params rm))) m = Inr mq" "sd_margin_contracts d = floor_to_int mq"
    and lq: "ddiv (dmul equity (leverage_cap (rm_params rm))) (dmul price k) = Inr lq" "sd_leverage_contracts d = floor_to_int lq"
    using size_position_common [OF s] by blast
  have p: "0 < margin_budget_pct (rm_params rm)" "0 < leverage_cap (rm_params rm)"
    using assms(2) by (auto simp: RiskParams_post_init_def bindE_Inr_iff require_iff)
  have n: "0 < dmul price k" using e multiplier_pos dmul_sign by blast
  have budget: "of_int (sd_contracts d) * u \<le> equity * w * (1 + 1 / 10 ^ 26)"
    if u: "0 < u" and w: "0 < w" and q: "ddiv (dmul equity w) u = Inr q" and le: "0 < f \<Longrightarrow> sd_contracts d \<le> floor_to_int q" for u w q
  proof -
    have x: "0 \<le> dmul equity w" using e w by (simp add: dmul_sign less_imp_le)
    have "sd_contracts d \<le> floor_to_int q"
      using le floor_quotient(3) [OF q x u] rm_sizer.size_no_edge [OF s] by (cases "0 < f") auto
    then have "of_int (sd_contracts d) * u \<le> of_int (floor_to_int q) * u" using u by simp
    also have "\<dots> \<le> dmul equity w * (1 + 5 / 10 ^ 28)" by (rule floor_quotient(1) [OF q x u])
    also have "\<dots> \<le> (1 + 5 / 10 ^ 28) * (equity * w) * (1 + 5 / 10 ^ 28)"
      using dec28.rnd_upper [of "equity * w"] e w by (intro mult_right_mono) (simp_all add: dmul_def)
    also have "\<dots> = equity * w * ((1 + 5 / 10 ^ 28) * (1 + 5 / 10 ^ 28))" by (simp only: mult_ac)
    also have "\<dots> \<le> equity * w * (1 + 1 / 10 ^ 26)" using e w by (intro mult_left_mono) simp_all
    finally show ?thesis .
  qed
  show ?thesis
    using budget [OF _ p(1) mq(1)] budget [OF n p(2) lq(1)] rm_sizer.size_margin [OF s] rm_sizer.size_leverage [OF s]
      mq(2) lq(2) e assms(3) by auto
qed

text \<open>
  The survival cap is a true boundary of the bootstrap gate, whatever that gate answers: when at least
  two returns are supplied and the other caps leave a position, the cap itself passes the gate, and it is
  either the full size or one contract more fails it.
\<close>

theorem survival_cap_boundary:
  assumes "size_position surv rm c f equity price (Some rs) seed = Inr d" "0 < f" "2 \<le> length rs" "0 < min_cap d"
  shows "\<exists>n. sd_survival_contracts d = Some n \<and> sd_contracts d = n \<and> 0 \<le> n \<and> n \<le> min_cap d \<and>
           survives_at surv (rm_params rm) rs (sd_notional_per_contract d) equity seed n \<and>
           (n = min_cap d \<or> \<not> survives_at surv (rm_params rm) rs (sd_notional_per_contract d) equity seed (n + 1))"
proof -
  define surv_at where "surv_at = survives_at surv (rm_params rm) rs (sd_notional_per_contract d) equity seed"
  define n where "n = survival_cap surv (rm_params rm) rs (min_cap d) (sd_notional_per_contract d) equity seed"
  have d: "sd_survival_contracts d = Some n" "sd_contracts d = min (min_cap d) n"
    using size_position_edge [OF assms(1,2)] assms(4) by (auto simp: n_def)
  have r: "0 \<le> n" "n \<le> min_cap d" using survival_cap_range assms(4) by (simp_all add: n_def)
  have n: "n = (if surv_at (min_cap d) then min_cap d else survival_search surv_at 0 (min_cap d))"
    using assms(3) by (simp add: n_def survival_cap_def MIN_SURVIVAL_RETURNS_def surv_at_def)
  have "surv_at 0" by (simp add: surv_at_def survives_at_def)
  then have "surv_at n \<and> (n = min_cap d \<or> \<not> surv_at (n + 1))"
    using n survival_search_boundary [of 0 "min_cap d" surv_at] assms(4) by (auto split: if_splits)
  then show ?thesis using d r by (auto simp: surv_at_def)
qed

text \<open>A worked sizing: ten-year-bond futures at 100 for an account of one million, gate at leverage 0.3.\<close>

definition gate03 :: survival_test where
  "gate03 p rs lev seed \<longleftrightarrow> lev \<le> 3 / 10"

definition zb_decision :: "int option \<Rightarrow> SizingDecision" where
  "zb_decision cap =
     \<lparr>sd_contracts = (case cap of None \<Rightarrow> 5 | Some s \<Rightarrow> s),
      sd_binding_constraint = (case cap of None \<Rightarrow> by_kelly | Some s \<Rightarrow> if s < 5 then by_survival else by_kelly),
      sd_kelly_contracts = 5, sd_margin_contracts = 125, sd_leverage_contracts = 30,
      sd_notional_per_contract = 100000, sd_margin_per_contract = 4000, sd_survival_contracts = cap\<rparr>"

lemma zb_lookups:
  "contract_root ''ZBM26'' = Inr ''ZB''" "lookup_root CONTRACT_MULTIPLIER ''ZB'' = Inr 1000"
  "StaticMarginSource CONTRACT_INITIAL_MARGIN ''ZB'' = Inr 4000"
  by (simp_all add: contract_root_def RISK_SYMBOL_SUFFIX_LEN_def lookup_root_def CONTRACT_MULTIPLIER_def
        StaticMarginSource_def CONTRACT_INITIAL_MARGIN_def)

lemma zb_gate:
  "survives_at gate03 p rs 100000 1000000 seed 5 \<longleftrightarrow> False" "survives_at gate03 p rs 100000 1000000 seed 4 \<longleftrightarrow> False"
  "survives_at gate03 p rs 100000 1000000 seed 3" "survives_at gate03 p rs 100000 1000000 seed 2"
  using drepr_scaled [of 5 1] drepr_scaled [of 4 1] drepr_scaled [of 3 1] drepr_scaled [of 2 1]
  by (simp_all add: survives_at_def gate03_def dint_def dec_exact)

lemma zb_survival_cap: "survival_cap gate03 p [0, 0] 5 100000 1000000 seed = 3"
  by (simp add: survival_cap_def MIN_SURVIVAL_RETURNS_def zb_gate survival_search.simps Let_def)

lemma zb_money:
  "dmul 100 1000 = 100000" "ddiv (dmul 1000000 (1 / 2)) 4000 = Inr 125" "ddiv (dmul 1000000 3) 100000 = Inr 30"
  "ddiv (dmul (dmul 2 (1 / 4)) 1000000) 100000 = Inr 5"
  using drepr_scaled [of 5 1] by (simp_all add: dec_exact)

lemma zb_edge:
  "edge_decision gate03 p 1000000 None seed 100000 4000 5 125 30 = Inr (zb_decision None)"
  "edge_decision gate03 p 1000000 (Some [0, 0]) seed 100000 4000 5 125 30 = Inr (zb_decision (Some 3))"
  by (simp_all add: edge_decision_def zb_survival_cap SizingDecision_new_def binding_def zb_decision_def)

lemma zb_floors: "floor_to_int 5 = 5" "floor_to_int 125 = 125" "floor_to_int 30 = 30"
  by (simp_all add: floor_to_int_def dtrunc_def)

lemma zb_sizing:
  "size_position gate03 (RiskManager_init None None) ''ZBM26'' 2 1000000 100 None None = Inr (zb_decision None)"
  "size_position gate03 (RiskManager_init None None) ''ZBM26'' 2 1000000 100 (Some [0, 0]) None = Inr (zb_decision (Some 3))"
  by (simp_all add: size_position_def RiskManager_init_def RiskParams_default_def zb_lookups zb_money zb_floors zb_edge)

theorem size_position_is_min_witness:
  "size_position gate03 (RiskManager_init None None) ''ZBM26'' 2 1000000 100 (Some [0, 0]) None = Inr (zb_decision (Some 3))
   \<and> sd_contracts (zb_decision (Some 3)) = Min (set [5, 125, 30, 3])"
  using size_position_is_min [OF zb_sizing(2)] zb_sizing(2) by (simp add: zb_decision_def)

theorem size_position_within_budget_witness:
  "size_position gate03 (RiskManager_init None None) ''ZBM26'' 2 1000000 100 None None = Inr (zb_decision None)
   \<and> of_int (sd_contracts (zb_decision None)) * sd_margin_per_contract (zb_decision None) \<le> 1000000 * (1 / 2) * (1 + 1 / 10 ^ 26)"
  using size_position_within_budget [OF zb_sizing(1)] zb_sizing(1)
  by (simp add: RiskManager_init_def RiskParams_default_def RiskParams_post_init_def zb_decision_def)

theorem survival_cap_boundary_witness:
  "size_position gate03 (RiskManager_init None None) ''ZBM26'' 2 1000000 100 (Some [0, 0]) None = Inr (zb_decision (Some 3))
   \<and> sd_contracts (zb_decision (Some 3)) = 3
   \<and> (\<exists>n. sd_survival_contracts (zb_decision (Some 3)) = Some n \<and> n \<le> 5)"
  using survival_cap_boundary [OF zb_sizing(2)] zb_sizing(2) by (simp add: zb_decision_def min_cap_def)






text \<open>
  The fixed-size sizer never trades more than its pinned count nor more than the base sizer's margin,
  leverage and survival caps, and trades exactly the pinned count whenever those caps afford it.
\<close>

theorem fixed_size_pinned:
  assumes "fixed_size_position surv rm c f equity price returns seed = Inr d" "0 < f"
  shows "sd_contracts d \<le> fs_fixed rm
       \<and> sd_contracts d \<le> min (sd_margin_contracts d) (sd_leverage_contracts d)
       \<and> (\<forall>s. sd_survival_contracts d = Some s \<longrightarrow> sd_contracts d \<le> s)
       \<and> (fs_fixed rm \<le> min (sd_margin_contracts d) (sd_leverage_contracts d) \<and>
          (\<forall>s. sd_survival_contracts d = Some s \<longrightarrow> fs_fixed rm \<le> s) \<longrightarrow> sd_contracts d = fs_fixed rm)"
proof -
  obtain base where d: "d = base\<lparr>sd_contracts := fixed_count (fs_fixed rm) base\<rparr>"
    using fixed_size_Inr [OF assms(1)] assms(2) by (auto simp: not_le)
  have "fixed_count (fs_fixed rm) base = fs_fixed rm"
    if "fs_fixed rm \<le> sd_margin_contracts base" "fs_fixed rm \<le> sd_leverage_contracts base"
      "\<forall>s. sd_survival_contracts base = Some s \<longrightarrow> fs_fixed rm \<le> s"
    using that by (cases "sd_survival_contracts base") (auto simp: fixed_count_def)
  then show ?thesis using d fixed_count_le [where d = base and n = "fs_fixed rm"] by simp
qed

lemma zb_fixed:
  "fixed_size_position gate03 (RiskManager.extend (RiskManager_init None None) \<lparr>fs_fixed = 1\<rparr>) ''ZBM26'' 2 1000000 100 None None
     = Inr ((zb_decision None)\<lparr>sd_contracts := 1\<rparr>)"
proof -
  let ?rm = "RiskManager.extend (RiskManager_init None None) \<lparr>fs_fixed = 1\<rparr>"
  have rm: "RiskManager.truncate ?rm = RiskManager_init None None" "fs_fixed ?rm = 1"
    by (simp_all add: RiskManager.defs)
  have "fixed_count 1 (zb_decision None) = 1" by (simp add: fixed_count_def zb_decision_def)
  then show ?thesis by (simp add: fixed_size_position_def rm zb_sizing(1) SizingDecision_new_def)
qed

theorem fixed_size_pinned_witness:
  "fixed_size_position gate03 (RiskManager.extend (RiskManager_init None None) \<lparr>fs_fixed = 1\<rparr>) ''ZBM26'' 2 1000000 100 None None
     = Inr ((zb_decision None)\<lparr>sd_contracts := 1\<rparr>)
   \<and> sd_contracts ((zb_decision None)\<lparr>sd_contracts := 1\<rparr>) \<le> 1"
  using fixed_size_pinned [OF zb_fixed] zb_fixed by (simp add: RiskManager.defs)

end
