(* ===== verification/Mock_Broker.thy ===== *)
theory Mock_Broker
  imports Verifier Slippage Risk_Manager
begin

text \<open>
  The in-memory broker of the backtest (\<open>src/futur3/execution/adapters/mock_broker.py\<close>). The object
  is the record \<open>MockBroker\<close>; a method takes it and returns the outcome and the object afterwards,
  also when it raises, so that what a failing call has already written is visible.

  Two fields are not Python state: \<open>mb_clock\<close> gives the successive readings of the injected clock and
  \<open>mb_reads\<close> counts those consumed, and \<open>mb_dec_str\<close> is \<open>str\<close> on the decimals of the run (it only
  enters the payload hash of an event).
\<close>

section \<open>State\<close>

record MockBroker =
  mb_starting_equity :: decimal
  mb_account_id :: string
  mb_block_all_trades :: bool
  mb_restrict_supported_to :: "OrderType list option"
  mb_clock :: "nat \<Rightarrow> datetime"
  mb_reads :: nat
  mb_dec_str :: "decimal \<Rightarrow> string"
  mb_orders :: "(string \<times> Order) list"
  mb_cancelled :: "string set"
  mb_filled_qty :: "(string \<times> int) list"
  mb_events :: "OrderEvent list"
  mb_positions :: "(ContractSymbol \<times> Position) list"
  mb_realized_pnl_today :: decimal
  mb_trade_pnls :: "decimal list"
  mb_open_trade_pnl :: "(ContractSymbol \<times> decimal) list"
  mb_next_order_id_seq :: nat

definition MockBroker_init ::
  "decimal \<Rightarrow> string \<Rightarrow> bool \<Rightarrow> OrderType list option \<Rightarrow> (nat \<Rightarrow> datetime) \<Rightarrow> (decimal \<Rightarrow> string) \<Rightarrow> MockBroker res" where
  "MockBroker_init starting_equity account_id block restrict clock dec_str =
     bindE (require (\<not> starting_equity \<le> 0) ValueError) (\<lambda>_.
     bindE (require (account_id \<noteq> []) ValueError) (\<lambda>_.
     Inr \<lparr>mb_starting_equity = starting_equity, mb_account_id = account_id, mb_block_all_trades = block,
          mb_restrict_supported_to = restrict, mb_clock = clock, mb_reads = 0, mb_dec_str = dec_str,
          mb_orders = [], mb_cancelled = {}, mb_filled_qty = [], mb_events = [], mb_positions = [],
          mb_realized_pnl_today = 0, mb_trade_pnls = [], mb_open_trade_pnl = [], mb_next_order_id_seq = 0\<rparr>))"

definition order_count :: "MockBroker \<Rightarrow> int" where
  "order_count b = int (length (mb_orders b)) - int (card (mb_cancelled b))"

definition supported_order_types :: "MockBroker \<Rightarrow> OrderType list" where
  "supported_order_types b =
     (case mb_restrict_supported_to b of Some ts \<Rightarrow> ts | None \<Rightarrow> all_order_types)"

definition is_trade_allowed :: "MockBroker \<Rightarrow> ContractSymbol \<Rightarrow> Side \<Rightarrow> int \<Rightarrow> bool" where
  "is_trade_allowed b contract side quantity =
     (if quantity \<le> 0 then False
      else if mb_block_all_trades b then False
      else True)"

section \<open>Events\<close>

definition client_id_or :: "Order \<Rightarrow> string \<Rightarrow> string" where
  "client_id_or ord fallback =
     (case o_client_order_id ord of Some s \<Rightarrow> if s \<noteq> [] then s else fallback | None \<Rightarrow> fallback)"

definition emit_event ::
  "string \<Rightarrow> string \<Rightarrow> ContractSymbol \<Rightarrow> OrderEventType \<Rightarrow> decimal option \<Rightarrow> int option \<Rightarrow> int \<Rightarrow> int \<Rightarrow>
   MockBroker \<Rightarrow> OrderEvent res \<times> MockBroker" where
  "emit_event broker_order_id client_order_id contract event_type fill_price fill_quantity cumulative remaining b =
     (let ts = mb_clock b (mb_reads b);
          b1 = b\<lparr>mb_reads := mb_reads b + 1\<rparr>;
          payload = broker_order_id @ ''||'' @ event_str event_type @ ''||'' @
                    (case fill_price of None \<Rightarrow> ''None'' | Some p \<Rightarrow> mb_dec_str b p) @ ''||'' @
                    (case fill_quantity of None \<Rightarrow> ''None'' | Some q \<Rightarrow> show_int q) @ ''||'' @ dt_isoformat ts;
          event = \<lparr>oe_broker_order_id = broker_order_id, oe_client_order_id = client_order_id,
                   oe_contract = contract, oe_event_type = event_type, oe_fill_price = fill_price,
                   oe_fill_quantity = fill_quantity, oe_cumulative_filled = cumulative,
                   oe_remaining_quantity = remaining, oe_ts_utc = ts,
                   oe_raw_broker_payload_sha = sha256_hex payload\<rparr>
      in case OrderEvent_post_init event of
           Inl e \<Rightarrow> (Inl e, b1)
         | Inr _ \<Rightarrow> (Inr event, b1\<lparr>mb_events := mb_events b1 @ [event]\<rparr>))"

section \<open>Orders\<close>

definition order_id :: "nat \<Rightarrow> string" where
  "order_id n = ''mock-'' @ zpad 6 n"

definition place_order :: "Order \<Rightarrow> MockBroker \<Rightarrow> string res \<times> MockBroker" where
  "place_order ord b =
     (if o_order_type ord \<notin> set (supported_order_types b) then (Inl OrderTypeUnsupportedError, b)
      else
        (let n = mb_next_order_id_seq b + 1;
             oid = order_id n;
             b1 = b\<lparr>mb_next_order_id_seq := n, mb_orders := AList.update oid ord (mb_orders b),
                    mb_filled_qty := AList.update oid 0 (mb_filled_qty b)\<rparr>;
             client_id = client_id_or ord (''anon-'' @ zpad 6 n)
         in bindS (emit_event oid client_id (o_contract ord) submitted None None 0 (o_quantity ord) b1) (\<lambda>_ b2.
            bindS (emit_event oid client_id (o_contract ord) ack None None 0 (o_quantity ord) b2) (\<lambda>_ b3.
            (Inr oid, b3)))))"

definition cancel_order :: "string \<Rightarrow> MockBroker \<Rightarrow> unit res \<times> MockBroker" where
  "cancel_order oid b =
     (case map_of (mb_orders b) oid of
        None \<Rightarrow> (Inl BrokerError, b)
      | Some ord \<Rightarrow>
          if oid \<in> mb_cancelled b then (Inl BrokerError, b)
          else
            (let b1 = b\<lparr>mb_cancelled := insert oid (mb_cancelled b)\<rparr>
             in case map_of (mb_filled_qty b1) oid of
                  None \<Rightarrow> (Inl KeyError, b1)
                | Some done1 \<Rightarrow>
                    bindS (emit_event oid (client_id_or ord ''anon'') (o_contract ord) cancelled None None done1
                             (max 0 (o_quantity ord - done1)) b1) (\<lambda>_ b2. (Inr (), b2))))"

definition modified_order :: "Order \<Rightarrow> decimal option \<Rightarrow> decimal option \<Rightarrow> int option \<Rightarrow> Order" where
  "modified_order ord new_limit new_stop new_quantity =
     ord\<lparr>o_quantity := (case new_quantity of Some q \<Rightarrow> q | None \<Rightarrow> o_quantity ord),
         o_limit_price := (case new_limit of Some p \<Rightarrow> Some p | None \<Rightarrow> o_limit_price ord),
         o_stop_price := (case new_stop of Some p \<Rightarrow> Some p | None \<Rightarrow> o_stop_price ord)\<rparr>"

definition modify_order ::
  "string \<Rightarrow> decimal option \<Rightarrow> decimal option \<Rightarrow> int option \<Rightarrow> MockBroker \<Rightarrow> unit res \<times> MockBroker" where
  "modify_order oid new_limit new_stop new_quantity b =
     (if new_limit = None \<and> new_stop = None \<and> new_quantity = None then (Inl ValueError, b)
      else case map_of (mb_orders b) oid of
        None \<Rightarrow> (Inl BrokerError, b)
      | Some ord \<Rightarrow>
          if oid \<in> mb_cancelled b then (Inl BrokerError, b)
          else case Order_new (modified_order ord new_limit new_stop new_quantity) of
            Inl e \<Rightarrow> (Inl e, b)
          | Inr new_order \<Rightarrow>
            (let b1 = b\<lparr>mb_orders := AList.update oid new_order (mb_orders b)\<rparr>
             in case map_of (mb_filled_qty b1) oid of
                  None \<Rightarrow> (Inl KeyError, b1)
                | Some done1 \<Rightarrow>
                    bindS (emit_event oid (client_id_or ord ''anon'') (o_contract ord) modified None None done1
                             (max 0 (o_quantity new_order - done1)) b1) (\<lambda>_ b2. (Inr (), b2))))"

section \<open>Queries\<close>

definition get_positions :: "MockBroker \<Rightarrow> Position list" where
  "get_positions b = sort_key p_contract (map snd (mb_positions b))"

definition get_account_metrics :: "MockBroker \<Rightarrow> AccountMetrics res" where
  "get_account_metrics b =
     (let unrealized = dsum (map (p_unrealized_pnl \<circ> snd) (mb_positions b));
          margin_used = dsum (map (p_margin_used \<circ> snd) (mb_positions b));
          equity = dadd (dadd (mb_starting_equity b) (mb_realized_pnl_today b)) unrealized;
          margin_available = max 0 (dsub equity margin_used)
      in bindE (if equity > 0 then ddiv margin_used equity else Inr 0) (\<lambda>leverage_used.
         let m = \<lparr>am_account_id = mb_account_id b, am_equity = equity,
                  am_cash = dadd (mb_starting_equity b) (mb_realized_pnl_today b),
                  am_margin_used = margin_used, am_margin_available = margin_available,
                  am_leverage_used = leverage_used, am_realized_pnl_today = mb_realized_pnl_today b,
                  am_unrealized_pnl = unrealized, am_trailing_drawdown_remaining = None,
                  am_consistency_rule_status = None, am_max_position_size_allowed = None\<rparr>
         in bindE (AccountMetrics_post_init m) (\<lambda>_. Inr m)))"

definition stream_order_events :: "MockBroker \<Rightarrow> OrderEvent list" where
  "stream_order_events b = mb_events b"

section \<open>Fills\<close>

definition set_position :: "ContractSymbol \<Rightarrow> Position \<Rightarrow> MockBroker \<Rightarrow> unit res \<times> MockBroker" where
  "set_position contract p b =
     (case Position_post_init p of
        Inl e \<Rightarrow> (Inl e, b)
      | Inr _ \<Rightarrow> (Inr (), b\<lparr>mb_positions := AList.update contract p (mb_positions b)\<rparr>))"

definition open_pnl :: "MockBroker \<Rightarrow> ContractSymbol \<Rightarrow> decimal" where
  "open_pnl b contract = (case map_of (mb_open_trade_pnl b) contract of Some x \<Rightarrow> x | None \<Rightarrow> 0)"

definition book_trade :: "ContractSymbol \<Rightarrow> MockBroker \<Rightarrow> MockBroker" where
  "book_trade contract b =
     b\<lparr>mb_trade_pnls := mb_trade_pnls b @ [open_pnl b contract],
       mb_open_trade_pnl := AList.delete contract (mb_open_trade_pnl b)\<rparr>"

definition signed_qty :: "Side \<Rightarrow> int \<Rightarrow> int" where
  "signed_qty side quantity = (if side = BUY then quantity else - quantity)"

definition realized_delta :: "Position \<Rightarrow> int \<Rightarrow> decimal \<Rightarrow> decimal \<Rightarrow> decimal" where
  "realized_delta existing closing_qty fill_price multiplier =
     (if p_quantity existing > 0
      then dmul (dmul (dsub fill_price (p_avg_entry_price existing)) (dint closing_qty)) multiplier
      else dmul (dmul (dsub (p_avg_entry_price existing) fill_price) (dint closing_qty)) multiplier)"

text \<open>The three branches of \<open>_apply_fill_to_position\<close>: opening from flat, adding, closing (also partly or through zero).\<close>

definition open_fill :: "ContractSymbol \<Rightarrow> int \<Rightarrow> decimal \<Rightarrow> decimal \<Rightarrow> MockBroker \<Rightarrow> unit res \<times> MockBroker" where
  "open_fill contract delta fill_price realized b =
     set_position contract
       \<lparr>p_contract = contract, p_quantity = delta, p_avg_entry_price = fill_price,
        p_unrealized_pnl = 0, p_realized_pnl_today = realized, p_margin_used = 0\<rparr> b"

definition increase_fill :: "ContractSymbol \<Rightarrow> Position \<Rightarrow> int \<Rightarrow> decimal \<Rightarrow> MockBroker \<Rightarrow> unit res \<times> MockBroker" where
  "increase_fill contract existing delta fill_price b =
     (let old_qty = p_quantity existing; new_qty = old_qty + delta;
          old_notional = dmul (p_avg_entry_price existing) (dint \<bar>old_qty\<bar>);
          new_notional = dmul fill_price (dint \<bar>delta\<bar>)
      in case ddiv (dadd old_notional new_notional) (dint \<bar>new_qty\<bar>) of
           Inl e \<Rightarrow> (Inl e, b)
         | Inr new_avg \<Rightarrow>
             set_position contract
               \<lparr>p_contract = contract, p_quantity = new_qty, p_avg_entry_price = new_avg,
                p_unrealized_pnl = 0, p_realized_pnl_today = p_realized_pnl_today existing,
                p_margin_used = p_margin_used existing\<rparr> b)"

definition accrue :: "ContractSymbol \<Rightarrow> decimal \<Rightarrow> MockBroker \<Rightarrow> MockBroker" where
  "accrue contract rd b =
     b\<lparr>mb_realized_pnl_today := dadd (mb_realized_pnl_today b) rd,
       mb_open_trade_pnl := AList.update contract (dadd (open_pnl b contract) rd) (mb_open_trade_pnl b)\<rparr>"

definition close_fill ::
  "ContractSymbol \<Rightarrow> Position \<Rightarrow> int \<Rightarrow> decimal \<Rightarrow> bool \<Rightarrow> MockBroker \<Rightarrow> unit res \<times> MockBroker" where
  "close_fill contract existing delta fill_price is_roll b =
     (let old_qty = p_quantity existing; new_qty = old_qty + delta;
          closing_qty = min \<bar>old_qty\<bar> \<bar>delta\<bar>
      in case multiplier_for contract of
           Inl e \<Rightarrow> (Inl e, b)
         | Inr multiplier \<Rightarrow>
             (let rd = realized_delta existing closing_qty fill_price multiplier;
                  cumulative = dadd (p_realized_pnl_today existing) rd;
                  b1 = accrue contract rd b
              in if new_qty = 0 then
                   set_position contract
                     \<lparr>p_contract = contract, p_quantity = 0, p_avg_entry_price = 0,
                      p_unrealized_pnl = 0, p_realized_pnl_today = cumulative, p_margin_used = 0\<rparr>
                     (if is_roll then b1 else book_trade contract b1)
                 else if (old_qty > 0) \<noteq> (new_qty > 0) then
                   set_position contract
                     \<lparr>p_contract = contract, p_quantity = new_qty, p_avg_entry_price = fill_price,
                      p_unrealized_pnl = 0, p_realized_pnl_today = cumulative,
                      p_margin_used = p_margin_used existing\<rparr>
                     (book_trade contract b1)
                 else
                   set_position contract
                     \<lparr>p_contract = contract, p_quantity = new_qty,
                      p_avg_entry_price = p_avg_entry_price existing,
                      p_unrealized_pnl = 0, p_realized_pnl_today = cumulative,
                      p_margin_used = p_margin_used existing\<rparr>
                     b1))"

definition apply_fill_to_position ::
  "ContractSymbol \<Rightarrow> Side \<Rightarrow> int \<Rightarrow> decimal \<Rightarrow> bool \<Rightarrow> MockBroker \<Rightarrow> unit res \<times> MockBroker" where
  "apply_fill_to_position contract side quantity fill_price is_roll b =
     (let delta = signed_qty side quantity
      in case map_of (mb_positions b) contract of
           None \<Rightarrow> open_fill contract delta fill_price 0 b
         | Some existing \<Rightarrow>
             if p_quantity existing = 0 then
               open_fill contract delta fill_price (p_realized_pnl_today existing) b
             else if (p_quantity existing > 0 \<and> delta > 0) \<or> (p_quantity existing < 0 \<and> delta < 0) then
               increase_fill contract existing delta fill_price b
             else close_fill contract existing delta fill_price is_roll b)"

definition fill_order :: "string \<Rightarrow> decimal \<Rightarrow> int option \<Rightarrow> MockBroker \<Rightarrow> OrderEvent res \<times> MockBroker" where
  "fill_order oid fill_price fill_quantity b =
     (case map_of (mb_orders b) oid of
        None \<Rightarrow> (Inl BrokerError, b)
      | Some ord \<Rightarrow>
          if oid \<in> mb_cancelled b then (Inl BrokerError, b)
          else if fill_price \<le> 0 then (Inl ValueError, b)
          else case map_of (mb_filled_qty b) oid of
            None \<Rightarrow> (Inl KeyError, b)
          | Some already \<Rightarrow>
            (let remaining = o_quantity ord - already
             in if remaining \<le> 0 then (Inl BrokerError, b)
                else
                  (let actual = (case fill_quantity of Some q \<Rightarrow> q | None \<Rightarrow> remaining)
                   in if actual \<le> 0 then (Inl ValueError, b)
                      else if actual > remaining then (Inl BrokerError, b)
                      else
                        (let new_filled = already + actual;
                             b1 = b\<lparr>mb_filled_qty := AList.update oid new_filled (mb_filled_qty b)\<rparr>;
                             new_remaining = o_quantity ord - new_filled
                         in bindS (apply_fill_to_position (o_contract ord) (o_side ord) actual fill_price False b1) (\<lambda>_ b2.
                            emit_event oid (client_id_or ord ''anon'') (o_contract ord)
                              (if new_remaining = 0 then filled else partial_fill)
                              (Some fill_price) (Some actual) new_filled new_remaining b2)))))"

section \<open>Backtest auto-fill and rolls\<close>

definition backtest_fill_price :: "Order \<Rightarrow> VerifiedBar \<Rightarrow> decimal option res" where
  "backtest_fill_price ord bar =
     (case o_order_type ord of
        MKT \<Rightarrow> Inr (Some (vb_open bar))
      | LMT \<Rightarrow>
          (case o_limit_price ord of
             None \<Rightarrow> Inl AssertionError
           | Some limit \<Rightarrow>
               Inr (if (o_side ord = BUY \<and> vb_low bar \<le> limit) \<or> (o_side ord = SELL \<and> vb_high bar \<ge> limit)
                    then Some limit else None))
      | STP \<Rightarrow>
          (case o_stop_price ord of
             None \<Rightarrow> Inl AssertionError
           | Some stp \<Rightarrow>
               Inr (if (o_side ord = BUY \<and> vb_high bar \<ge> stp) \<or> (o_side ord = SELL \<and> vb_low bar \<le> stp)
                    then Some stp else None))
      | _ \<Rightarrow> Inr None)"

definition executed_price :: "SlippageModel option \<Rightarrow> Order \<Rightarrow> VerifiedBar \<Rightarrow> decimal option res" where
  "executed_price slippage ord bar =
     bindE (backtest_fill_price ord bar) (\<lambda>price.
       case (price, slippage) of
         (Some p, Some slip) \<Rightarrow>
           if o_order_type ord \<in> {MKT, STP}
           then bindE (slip p (o_side ord) (o_quantity ord) (o_contract ord) (vb_ts bar)) (\<lambda>x. Inr (Some x))
           else Inr (Some p)
       | _ \<Rightarrow> Inr price)"

fun advance_loop ::
  "VerifiedBar \<Rightarrow> SlippageModel option \<Rightarrow> string list \<Rightarrow> MockBroker \<Rightarrow> OrderEvent list res \<times> MockBroker" where
  "advance_loop bar slippage [] b = (Inr [], b)"
| "advance_loop bar slippage (oid # oids) b =
     (if oid \<in> mb_cancelled b then advance_loop bar slippage oids b
      else case map_of (mb_orders b) oid of
        None \<Rightarrow> (Inl KeyError, b)
      | Some ord \<Rightarrow>
          if o_contract ord \<noteq> vb_contract bar then advance_loop bar slippage oids b
          else case map_of (mb_filled_qty b) oid of
            None \<Rightarrow> (Inl KeyError, b)
          | Some already \<Rightarrow>
              if already \<ge> o_quantity ord then advance_loop bar slippage oids b
              else case executed_price slippage ord bar of
                Inl e \<Rightarrow> (Inl e, b)
              | Inr None \<Rightarrow> advance_loop bar slippage oids b
              | Inr (Some price) \<Rightarrow>
                  bindS (fill_order oid price None b) (\<lambda>ev b1.
                  bindS (advance_loop bar slippage oids b1) (\<lambda>evs b2. (Inr (ev # evs), b2))))"

definition advance :: "VerifiedBar \<Rightarrow> SlippageModel option \<Rightarrow> MockBroker \<Rightarrow> OrderEvent list res \<times> MockBroker" where
  "advance bar slippage b = advance_loop bar slippage (map fst (mb_orders b)) b"

definition roll_position ::
  "ContractSymbol \<Rightarrow> ContractSymbol \<Rightarrow> decimal \<Rightarrow> decimal \<Rightarrow> MockBroker \<Rightarrow> int res \<times> MockBroker" where
  "roll_position front bk front_fill back_fill b =
     (case map_of (mb_positions b) front of
        None \<Rightarrow> (Inr 0, b)
      | Some existing \<Rightarrow>
          if p_quantity existing = 0 then (Inr 0, b)
          else
            (let qty = p_quantity existing;
                 close_side = (if qty > 0 then SELL else BUY);
                 open_side = (if qty > 0 then BUY else SELL)
             in bindS (apply_fill_to_position front close_side \<bar>qty\<bar> front_fill True b) (\<lambda>_ b1.
                bindS (apply_fill_to_position bk open_side \<bar>qty\<bar> back_fill True b1) (\<lambda>_ b2.
                  let carried = open_pnl b2 front;
                      b3 = b2\<lparr>mb_open_trade_pnl := AList.delete front (mb_open_trade_pnl b2)\<rparr>;
                      b4 = (if carried \<noteq> 0
                            then b3\<lparr>mb_open_trade_pnl := AList.update bk (dadd (open_pnl b3 bk) carried) (mb_open_trade_pnl b3)\<rparr>
                            else b3)
                  in (Inr qty, b4)))))"

definition reset :: "MockBroker \<Rightarrow> MockBroker" where
  "reset b =
     b\<lparr>mb_orders := [], mb_cancelled := {}, mb_filled_qty := [], mb_events := [], mb_positions := [],
       mb_realized_pnl_today := 0, mb_trade_pnls := [], mb_open_trade_pnl := [], mb_next_order_id_seq := 0\<rparr>"

end
