(* ===== verification/Broker_Invariant.thy ===== *)
theory Broker_Invariant
  imports Mock_Broker
begin

text \<open>
  The representation invariant of \<open>MockBroker\<close> and its preservation by every method, on return and on
  raise; the reachable states of a broker as an inductive relation over its methods; what the order
  book therefore guarantees (identifiers, fills, cancellation).
\<close>

section \<open>The invariant\<close>

definition order_ok :: "Order \<Rightarrow> bool" where
  "order_ok ord \<longleftrightarrow> Order_post_init ord = Inr ()"

definition position_ok :: "ContractSymbol \<times> Position \<Rightarrow> bool" where
  "position_ok cp \<longleftrightarrow>
     p_contract (snd cp) = fst cp \<and> p_unrealized_pnl (snd cp) = 0 \<and> p_margin_used (snd cp) = 0 \<and>
     (if p_quantity (snd cp) = 0 then p_avg_entry_price (snd cp) = 0 else 0 < p_avg_entry_price (snd cp))"

definition positions_ok :: "(ContractSymbol \<times> Position) list \<Rightarrow> bool" where
  "positions_ok ps \<longleftrightarrow> distinct (map fst ps) \<and> (\<forall>cp \<in> set ps. position_ok cp)"

definition order_ids :: "nat \<Rightarrow> string list" where
  "order_ids n = map order_id [1..<Suc n]"

definition orders_inv :: "MockBroker \<Rightarrow> bool" where
  "orders_inv b \<longleftrightarrow>
     map fst (mb_orders b) = order_ids (mb_next_order_id_seq b) \<and>
     map fst (mb_filled_qty b) = order_ids (mb_next_order_id_seq b) \<and>
     (\<forall>ord \<in> snd ` set (mb_orders b). order_ok ord) \<and>
     (\<forall>n \<in> snd ` set (mb_filled_qty b). 0 \<le> n) \<and>
     mb_cancelled b \<subseteq> set (order_ids (mb_next_order_id_seq b))"

definition books_inv :: "MockBroker \<Rightarrow> bool" where
  "books_inv b \<longleftrightarrow> positions_ok (mb_positions b) \<and> distinct (map fst (mb_open_trade_pnl b))"

definition events_inv :: "MockBroker \<Rightarrow> bool" where
  "events_inv b \<longleftrightarrow> (\<forall>e \<in> set (mb_events b). OrderEvent_post_init e = Inr ())"

definition broker_inv :: "MockBroker \<Rightarrow> bool" where
  "broker_inv b \<longleftrightarrow> 0 < mb_starting_equity b \<and> orders_inv b \<and> books_inv b \<and> events_inv b"

section \<open>Frames\<close>

text \<open>What a method leaves alone: the order book, the accounting books, the configuration.\<close>

definition same_orders :: "MockBroker \<Rightarrow> MockBroker \<Rightarrow> bool" where
  "same_orders b b' \<longleftrightarrow>
     mb_orders b' = mb_orders b \<and> mb_cancelled b' = mb_cancelled b \<and> mb_filled_qty b' = mb_filled_qty b \<and>
     mb_next_order_id_seq b' = mb_next_order_id_seq b"

definition same_books :: "MockBroker \<Rightarrow> MockBroker \<Rightarrow> bool" where
  "same_books b b' \<longleftrightarrow>
     mb_positions b' = mb_positions b \<and> mb_realized_pnl_today b' = mb_realized_pnl_today b \<and>
     mb_trade_pnls b' = mb_trade_pnls b \<and> mb_open_trade_pnl b' = mb_open_trade_pnl b"

definition same_config :: "MockBroker \<Rightarrow> MockBroker \<Rightarrow> bool" where
  "same_config b b' \<longleftrightarrow>
     mb_starting_equity b' = mb_starting_equity b \<and> mb_account_id b' = mb_account_id b \<and>
     mb_block_all_trades b' = mb_block_all_trades b \<and>
     mb_restrict_supported_to b' = mb_restrict_supported_to b \<and> mb_clock b' = mb_clock b \<and> mb_dec_str b' = mb_dec_str b"

lemmas same_defs = same_orders_def same_books_def same_config_def

lemma same_refl [simp]: "same_orders b b" "same_books b b" "same_config b b"
  by (simp_all add: same_defs)

lemma same_trans:
  "same_orders a b \<Longrightarrow> same_orders b c \<Longrightarrow> same_orders a c"
  "same_books a b \<Longrightarrow> same_books b c \<Longrightarrow> same_books a c"
  "same_config a b \<Longrightarrow> same_config b c \<Longrightarrow> same_config a c"
  by (simp_all add: same_defs)

lemma same_inv:
  "same_orders b b' \<Longrightarrow> orders_inv b \<Longrightarrow> orders_inv b'"
  "same_books b b' \<Longrightarrow> books_inv b \<Longrightarrow> books_inv b'"
  by (simp_all add: same_defs orders_inv_def books_inv_def)

section \<open>Events\<close>

lemma emit_event_frame:
  "emit_event oid cid c t fp fq cum rem b = (r, b') \<Longrightarrow> same_orders b b' \<and> same_books b b' \<and> same_config b b'"
  by (auto simp: emit_event_def Let_def same_defs split: sum.splits)

lemma emit_event_events:
  "emit_event oid cid c t fp fq cum rem b = (r, b') \<Longrightarrow>
     (case r of Inl e \<Rightarrow> mb_events b' = mb_events b \<and> e = ValueError
      | Inr ev \<Rightarrow> mb_events b' = mb_events b @ [ev] \<and> OrderEvent_post_init ev = Inr ()
                  \<and> oe_broker_order_id ev = oid \<and> oe_client_order_id ev = cid \<and> oe_contract ev = c \<and> oe_event_type ev = t
                  \<and> oe_fill_price ev = fp \<and> oe_fill_quantity ev = fq \<and> oe_cumulative_filled ev = cum
                  \<and> oe_remaining_quantity ev = rem)"
  by (auto simp: emit_event_def Let_def OrderEvent_post_init_def res_simps split: sum.splits)

lemma emit_event_inv:
  assumes "emit_event oid cid c t fp fq cum rem b = (r, b')" "broker_inv b"
  shows "broker_inv b'"
  using assms(2) emit_event_frame [OF assms(1)] emit_event_events [OF assms(1)]
  by (auto simp: broker_inv_def same_defs orders_inv_def books_inv_def events_inv_def split: sum.splits)

text \<open>With a clock that reads aware UTC times an event with non-negative counts is always emitted.\<close>

lemma emit_event_total:
  assumes "dt_is_utc (mb_clock b (mb_reads b))" "0 \<le> cum" "0 \<le> rem" "case fq of None \<Rightarrow> True | Some q \<Rightarrow> 0 \<le> q"
  shows "\<exists>ev b'. emit_event oid cid c t fp fq cum rem b = (Inr ev, b')"
  using assms
  by (auto simp: emit_event_def Let_def OrderEvent_post_init_def dt_aware_def dt_is_utc_def SHA256_HEX_LENGTH_def
        not_less require_def split: option.splits)

section \<open>Orders\<close>

lemma order_id_inject [simp]: "order_id m = order_id n \<longleftrightarrow> m = n"
  by (simp add: order_id_def)

lemma order_ids_Suc [simp]: "order_ids (Suc n) = order_ids n @ [order_id (Suc n)]"
  by (simp add: order_ids_def)

lemma set_order_ids: "set (order_ids n) = order_id ` {1..n}"
  by (simp add: order_ids_def atLeastLessThanSuc_atLeastAtMost del: upt_Suc)

lemma distinct_order_ids [simp]: "distinct (order_ids n)"
  by (simp add: order_ids_def distinct_map inj_on_def del: upt_Suc)

lemma fresh_order_id [simp]: "order_id (Suc n) \<notin> set (order_ids n)"
  by (auto simp: set_order_ids)

lemma order_keys:
  assumes "orders_inv b"
  shows "set (map fst (mb_orders b)) = set (order_ids (mb_next_order_id_seq b))"
    and "set (map fst (mb_filled_qty b)) = set (order_ids (mb_next_order_id_seq b))"
  using assms unfolding orders_inv_def by presburger+

lemma order_filled_known:
  assumes "orders_inv b"
  shows "map_of (mb_orders b) oid = None \<longleftrightarrow> map_of (mb_filled_qty b) oid = None"
  unfolding map_of_key order_keys [OF assms] ..

lemma known_order_id: "orders_inv b \<Longrightarrow> map_of (mb_orders b) oid = Some ord \<Longrightarrow> oid \<in> set (order_ids (mb_next_order_id_seq b))"
  using order_keys(1) [of b] by (force dest: map_of_SomeD)

lemma update_values: "(k', v') \<in> set (AList.update k v d) \<Longrightarrow> (k' = k \<and> v' = v) \<or> (k', v') \<in> set d"
  using set_update_subset [of k v d] by auto

definition registered :: "Order \<Rightarrow> MockBroker \<Rightarrow> MockBroker" where
  "registered ord b =
     (let n = mb_next_order_id_seq b + 1
      in b\<lparr>mb_next_order_id_seq := n, mb_orders := AList.update (order_id n) ord (mb_orders b),
           mb_filled_qty := AList.update (order_id n) 0 (mb_filled_qty b)\<rparr>)"

lemma registered_inv:
  assumes "broker_inv b" "order_ok ord"
  shows "broker_inv (registered ord b)"
proof -
  have "orders_inv b" using assms by (simp add: broker_inv_def)
  then have "orders_inv (registered ord b)"
    using assms(2)
    by (auto simp: registered_def Let_def orders_inv_def dest!: update_values)
  then show ?thesis using assms by (simp add: broker_inv_def registered_def books_inv_def events_inv_def Let_def)
qed

lemma place_order_alt:
  "place_order ord b =
     (if o_order_type ord \<notin> set (supported_order_types b) then (Inl OrderTypeUnsupportedError, b)
      else
        (let oid = order_id (mb_next_order_id_seq b + 1);
             cid = client_id_or ord (''anon-'' @ zpad 6 (mb_next_order_id_seq b + 1))
         in bindS (emit_event oid cid (o_contract ord) submitted None None 0 (o_quantity ord) (registered ord b)) (\<lambda>_ b2.
            bindS (emit_event oid cid (o_contract ord) ack None None 0 (o_quantity ord) b2) (\<lambda>_ b3. (Inr oid, b3)))))"
  by (simp add: place_order_def registered_def Let_def)

lemma emit_event_inv_snd: "broker_inv b \<Longrightarrow> broker_inv (snd (emit_event oid cid c t fp fq cum rem b))"
  using emit_event_inv [of oid cid c t fp fq cum rem b] by (metis prod.collapse)

lemma place_order_inv:
  assumes "broker_inv b" "order_ok ord"
  shows "broker_inv (snd (place_order ord b))"
  unfolding place_order_alt Let_def using assms registered_inv
  by (auto intro!: bindS_state [where P = broker_inv] emit_event_inv_snd)

lemma cancel_order_inv:
  assumes "broker_inv b"
  shows "broker_inv (snd (cancel_order oid b))"
proof -
  have "broker_inv (b\<lparr>mb_cancelled := insert oid (mb_cancelled b)\<rparr>)" if "map_of (mb_orders b) oid = Some ord" for ord
    using that assms known_order_id [of b oid ord] by (simp add: broker_inv_def orders_inv_def books_inv_def events_inv_def)
  then show ?thesis
    using assms by (auto simp: cancel_order_def Let_def intro!: bindS_state [where P = broker_inv] emit_event_inv_snd split: option.splits)
qed

lemma modify_order_inv:
  assumes "broker_inv b"
  shows "broker_inv (snd (modify_order oid nl ns nq b))"
proof -
  have "broker_inv (b\<lparr>mb_orders := AList.update oid new (mb_orders b)\<rparr>)"
    if "map_of (mb_orders b) oid = Some ord" "Order_new x = Inr new" for ord new x
  proof -
    have "oid \<in> set (order_ids (mb_next_order_id_seq b))" using assms that(1) known_order_id by (simp add: broker_inv_def)
    moreover have "order_ok new" using that(2) by (auto simp: Order_new_def order_ok_def bindE_Inr_iff)
    ultimately show ?thesis using assms
      by (auto simp: broker_inv_def orders_inv_def books_inv_def events_inv_def dest!: update_values)
  qed
  then show ?thesis
    using assms by (auto simp: modify_order_def Let_def intro!: bindS_state [where P = broker_inv] emit_event_inv_snd
        split: option.splits sum.splits)
qed

section \<open>Fills\<close>

lemma set_position_frame:
  "set_position c p b = (r, b') \<Longrightarrow>
     same_orders b b' \<and> same_config b b' \<and> mb_events b' = mb_events b \<and> mb_reads b' = mb_reads b \<and>
     mb_realized_pnl_today b' = mb_realized_pnl_today b \<and>
     mb_trade_pnls b' = mb_trade_pnls b \<and> mb_open_trade_pnl b' = mb_open_trade_pnl b"
  by (auto simp: set_position_def same_defs split: sum.splits)

lemma set_position_ok:
  assumes "set_position c p b = (r, b')" "positions_ok (mb_positions b)"
    and p: "p_contract p = c" "p_unrealized_pnl p = 0" "p_margin_used p = 0" "p_quantity p = 0 \<Longrightarrow> p_avg_entry_price p = 0"
  shows "positions_ok (mb_positions b')"
proof (cases "Position_post_init p")
  case (Inr u)
  then have "position_ok (c, p)" using p by (auto simp: position_ok_def Position_post_init_iff)
  moreover have "mb_positions b' = AList.update c p (mb_positions b)" using assms(1) Inr by (auto simp: set_position_def)
  ultimately show ?thesis using assms(2) by (auto simp: positions_ok_def dest!: update_values)
qed (use assms in \<open>simp add: set_position_def\<close>)

text \<open>Every outcome of a fill writes one position on top of at most an accrual and a booked trade.\<close>

lemma apply_fill_cases:
  assumes "apply_fill_to_position c side q fp roll b = (r, b')"
  obtains (raised) e where "r = Inl e" "b' = b"
  | (written) p b0 where "set_position c p b0 = (r, b')" "p_contract p = c" "p_unrealized_pnl p = 0"
      "p_margin_used p = 0 \<or> (\<exists>p0. map_of (mb_positions b) c = Some p0 \<and> p_margin_used p = p_margin_used p0)"
      "p_quantity p = 0 \<Longrightarrow> 0 < q \<Longrightarrow> p_avg_entry_price p = 0"
      "b0 = b \<or> (\<exists>rd. b0 = accrue c rd b \<or> b0 = book_trade c (accrue c rd b))"
proof (cases "map_of (mb_positions b) c")
  case None
  then have "open_fill c (signed_qty side q) fp 0 b = (r, b')"
    using assms by (simp add: apply_fill_to_position_def Let_def)
  then show thesis unfolding open_fill_def by (rule written) (auto simp: signed_qty_def split: if_splits)
next
  case (Some p0)
  consider "p_quantity p0 = 0"
    | "p_quantity p0 \<noteq> 0" "(p_quantity p0 > 0 \<and> signed_qty side q > 0) \<or> (p_quantity p0 < 0 \<and> signed_qty side q < 0)"
    | "p_quantity p0 \<noteq> 0" "\<not> ((p_quantity p0 > 0 \<and> signed_qty side q > 0) \<or> (p_quantity p0 < 0 \<and> signed_qty side q < 0))"
    by blast
  then show thesis
  proof cases
    case 1
    then have "open_fill c (signed_qty side q) fp (p_realized_pnl_today p0) b = (r, b')"
      using Some assms by (simp add: apply_fill_to_position_def Let_def)
    then show thesis unfolding open_fill_def by (rule written) (auto simp: signed_qty_def split: if_splits)
  next
    case 2
    then have "increase_fill c p0 (signed_qty side q) fp b = (r, b')"
      using Some assms by (simp add: apply_fill_to_position_def Let_def)
    then show thesis using Some 2 raised written unfolding increase_fill_def Let_def
      by (fastforce split: sum.splits)
  next
    case 3
    then have "close_fill c p0 (signed_qty side q) fp roll b = (r, b')"
      using Some assms unfolding apply_fill_to_position_def Let_def by (auto split: if_splits)
    then show thesis using Some raised written unfolding close_fill_def Let_def
      by (fastforce split: sum.splits if_splits)
  qed
qed

lemma accrue_simps [simp]:
  "mb_positions (accrue c rd b) = mb_positions b" "mb_positions (book_trade c b) = mb_positions b"
  "same_orders b (accrue c rd b)" "same_orders b (book_trade c b)" "same_config b (accrue c rd b)"
  "same_config b (book_trade c b)"
  "mb_events (accrue c rd b) = mb_events b" "mb_events (book_trade c b) = mb_events b"
  "mb_reads (accrue c rd b) = mb_reads b" "mb_reads (book_trade c b) = mb_reads b"
  "distinct (map fst (mb_open_trade_pnl b)) \<Longrightarrow> distinct (map fst (mb_open_trade_pnl (accrue c rd b)))"
  "distinct (map fst (mb_open_trade_pnl b)) \<Longrightarrow> distinct (map fst (mb_open_trade_pnl (book_trade c b)))"
  by (simp_all add: accrue_def book_trade_def same_defs distinct_delete)

definition same_events :: "MockBroker \<Rightarrow> MockBroker \<Rightarrow> bool" where
  "same_events b b' \<longleftrightarrow> mb_events b' = mb_events b \<and> mb_reads b' = mb_reads b"

lemma apply_fill_frame:
  assumes "apply_fill_to_position c side q fp roll b = (r, b')"
  shows "same_orders b b' \<and> same_config b b' \<and> same_events b b'"
  using assms
proof (cases rule: apply_fill_cases)
  case (written p b0)
  have "same_orders b b0" "same_config b b0" "same_events b b0"
    using written(6) by (auto simp: same_defs same_events_def accrue_def book_trade_def)
  then show ?thesis using set_position_frame [OF written(1)] same_trans by (auto simp: same_events_def)
qed (simp add: same_events_def)

lemma apply_fill_books:
  assumes "apply_fill_to_position c side q fp roll b = (r, b')" and inv: "books_inv b" and q: "0 < q"
  shows "books_inv b'"
  using assms(1)
proof (cases rule: apply_fill_cases)
  case (written p b0)
  have b0: "positions_ok (mb_positions b0)" "distinct (map fst (mb_open_trade_pnl b0))"
    using written(6) inv by (auto simp: books_inv_def)
  have "p_margin_used p = 0"
    using written(4) inv by (auto simp: books_inv_def positions_ok_def position_ok_def dest!: map_of_SomeD)
  then have "positions_ok (mb_positions b')" using set_position_ok [OF written(1) b0(1)] written q by blast
  then show ?thesis using b0 set_position_frame [OF written(1)] by (simp add: books_inv_def)
qed (use inv in simp)

lemma apply_fill_inv:
  assumes "apply_fill_to_position c side q fp roll b = (r, b')" "broker_inv b" "0 < q"
  shows "broker_inv b'"
  using assms(2) apply_fill_frame [OF assms(1)] apply_fill_books [OF assms(1) _ assms(3)]
  by (auto simp: broker_inv_def same_inv events_inv_def same_config_def same_events_def)

lemma apply_fill_inv_snd: "broker_inv b \<Longrightarrow> 0 < q \<Longrightarrow> broker_inv (snd (apply_fill_to_position c side q fp roll b))"
  using apply_fill_inv by (metis prod.collapse)

lemma fill_order_inv: "broker_inv b \<Longrightarrow> broker_inv (snd (fill_order oid fp fq b))"
proof -
  assume inv: "broker_inv b"
  have "broker_inv (b\<lparr>mb_filled_qty := AList.update oid n (mb_filled_qty b)\<rparr>)"
    if "map_of (mb_filled_qty b) oid = Some m" "0 \<le> n" for m n
  proof -
    have "oid \<in> set (order_ids (mb_next_order_id_seq b))"
      using inv that(1) order_keys(2) [of b] by (force simp: broker_inv_def dest: map_of_SomeD)
    then show ?thesis using inv that(2)
      by (auto simp: broker_inv_def orders_inv_def books_inv_def events_inv_def dest!: update_values)
  qed
  moreover have "0 \<le> m" if "map_of (mb_filled_qty b) oid = Some m" for m
    using inv map_of_SomeD [OF that] by (force simp: broker_inv_def orders_inv_def)
  ultimately show ?thesis
    using inv unfolding fill_order_def Let_def
    by (auto intro!: bindS_state [where P = broker_inv] emit_event_inv_snd apply_fill_inv_snd
          split: option.splits)
qed

lemma advance_loop_inv: "broker_inv b \<Longrightarrow> broker_inv (snd (advance_loop bar slip oids b))"
proof (induction oids arbitrary: b)
  case (Cons oid oids)
  have "broker_inv (snd (bindS (fill_order oid price None b) (\<lambda>ev b1.
          bindS (advance_loop bar slip oids b1) (\<lambda>evs b2. (Inr (ev # evs), b2)))))" for price
    using Cons fill_order_inv by (intro bindS_state [where P = broker_inv]) auto
  then show ?case using Cons by (auto split: option.splits sum.splits)
qed simp

lemma advance_inv: "broker_inv b \<Longrightarrow> broker_inv (snd (advance bar slip b))"
  by (simp add: advance_def advance_loop_inv)

lemma roll_position_inv: "broker_inv b \<Longrightarrow> broker_inv (snd (roll_position front bk ff bf b))"
proof -
  assume inv: "broker_inv b"
  have carry: "broker_inv (b2\<lparr>mb_open_trade_pnl := d\<rparr>)" if "broker_inv b2" "distinct (map fst d)" for b2 d
    using that by (simp add: broker_inv_def orders_inv_def books_inv_def events_inv_def)
  have d: "distinct (map fst (mb_open_trade_pnl b2))" if "broker_inv b2" for b2
    using that by (simp add: broker_inv_def books_inv_def)
  show ?thesis
    using inv unfolding roll_position_def Let_def
    by (auto intro!: bindS_state [where P = broker_inv] apply_fill_inv_snd carry split: option.splits simp: d distinct_delete)
qed

lemma reset_inv: "broker_inv b \<Longrightarrow> broker_inv (reset b)"
  by (simp add: reset_def broker_inv_def orders_inv_def order_ids_def books_inv_def positions_ok_def events_inv_def)

lemma MockBroker_init_inv: "MockBroker_init e a bl r c d = Inr b \<Longrightarrow> broker_inv b"
  by (auto simp: MockBroker_init_def res_simps broker_inv_def orders_inv_def order_ids_def books_inv_def positions_ok_def events_inv_def)

section \<open>Reachable states\<close>

text \<open>One call of a public method, whatever its outcome. An \<open>Order\<close> that exists has passed its constructor.\<close>

inductive trade_step :: "MockBroker \<Rightarrow> MockBroker \<Rightarrow> bool" where
  place: "order_ok ord \<Longrightarrow> trade_step b (snd (place_order ord b))"
| cancel: "trade_step b (snd (cancel_order oid b))"
| modify: "trade_step b (snd (modify_order oid nl ns nq b))"
| fill: "trade_step b (snd (fill_order oid fp fq b))"
| adv: "trade_step b (snd (advance bar slip b))"
| rst: "trade_step b (reset b)"

inductive broker_step :: "MockBroker \<Rightarrow> MockBroker \<Rightarrow> bool" where
  trade: "trade_step b b' \<Longrightarrow> broker_step b b'"
| roll: "broker_step b (snd (roll_position front bk ff bf b))"

inductive reachable :: "MockBroker \<Rightarrow> bool" where
  init: "MockBroker_init equity account block restrict clock dec_str = Inr b \<Longrightarrow> reachable b"
| step: "reachable b \<Longrightarrow> broker_step b b' \<Longrightarrow> reachable b'"

lemmas op_inv =
  place_order_inv cancel_order_inv modify_order_inv fill_order_inv advance_inv roll_position_inv reset_inv

lemma trade_step_inv: "trade_step b b' \<Longrightarrow> broker_inv b \<Longrightarrow> broker_inv b'"
  by (induction rule: trade_step.induct) (auto intro: op_inv)

lemma broker_step_inv: "broker_step b b' \<Longrightarrow> broker_inv b \<Longrightarrow> broker_inv b'"
  by (induction rule: broker_step.induct) (auto intro: op_inv trade_step_inv)

lemma reachable_inv: "reachable b \<Longrightarrow> broker_inv b"
  by (induction rule: reachable.induct) (auto intro: MockBroker_init_inv broker_step_inv)

section \<open>What a fill does to the positions\<close>

definition position_qty :: "MockBroker \<Rightarrow> ContractSymbol \<Rightarrow> int" where
  "position_qty b c = (case map_of (mb_positions b) c of Some p \<Rightarrow> p_quantity p | None \<Rightarrow> 0)"

lemma set_position_qty:
  "set_position c p b = (Inr u, b') \<Longrightarrow> map_of (mb_positions b') = (map_of (mb_positions b))(c \<mapsto> p)"
  "set_position c p b = (Inl e, b') \<Longrightarrow> b' = b"
  by (auto simp: set_position_def split: sum.splits)

lemma open_fill_qty: "open_fill c d fp r b = (Inr u, b') \<Longrightarrow> position_qty b' = (position_qty b)(c := d)"
  by (auto simp: open_fill_def position_qty_def fun_eq_iff dest: set_position_qty)

lemma increase_fill_qty:
  "increase_fill c p0 d fp b = (Inr u, b') \<Longrightarrow> position_qty b' = (position_qty b)(c := p_quantity p0 + d)"
  by (auto simp: increase_fill_def Let_def position_qty_def fun_eq_iff dest: set_position_qty split: sum.splits)

lemma close_fill_qty:
  "close_fill c p0 d fp roll b = (Inr u, b') \<Longrightarrow> position_qty b' = (position_qty b)(c := p_quantity p0 + d)"
  by (auto simp: close_fill_def Let_def position_qty_def fun_eq_iff dest!: set_position_qty
        split: sum.splits if_splits)

lemma apply_fill_qty:
  assumes "apply_fill_to_position c side q fp roll b = (Inr u, b')"
  shows "position_qty b' = (position_qty b)(c := position_qty b c + signed_qty side q)"
proof (cases "map_of (mb_positions b) c")
  case None
  then show ?thesis using assms
    by (auto simp: apply_fill_to_position_def Let_def position_qty_def [of b c] dest!: open_fill_qty)
next
  case (Some p0)
  then have "position_qty b c = p_quantity p0" by (simp add: position_qty_def)
  then show ?thesis using Some assms unfolding apply_fill_to_position_def Let_def
    by (auto dest!: open_fill_qty increase_fill_qty close_fill_qty split: if_splits)
qed

lemma apply_fill_raise:
  "apply_fill_to_position c side q fp roll b = (Inl e, b') \<Longrightarrow> mb_positions b' = mb_positions b"
  by (erule apply_fill_cases) (auto dest: set_position_qty(2))

lemma fill_order_Inr:
  assumes "fill_order oid fp fq b = (Inr ev, b')"
  shows "\<exists>ord already actual b2.
     map_of (mb_orders b) oid = Some ord \<and> oid \<notin> mb_cancelled b \<and> 0 < fp \<and> map_of (mb_filled_qty b) oid = Some already \<and>
     actual = (case fq of Some q \<Rightarrow> q | None \<Rightarrow> o_quantity ord - already) \<and> 0 < actual \<and> actual \<le> o_quantity ord - already \<and>
     apply_fill_to_position (o_contract ord) (o_side ord) actual fp False
       (b\<lparr>mb_filled_qty := AList.update oid (already + actual) (mb_filled_qty b)\<rparr>) = (Inr (), b2) \<and>
     emit_event oid (client_id_or ord ''anon'') (o_contract ord)
       (if o_quantity ord = already + actual then filled else partial_fill)
       (Some fp) (Some actual) (already + actual) (o_quantity ord - (already + actual)) b2 = (Inr ev, b')"
proof -
  obtain ord where ord: "map_of (mb_orders b) oid = Some ord"
    using assms by (cases "map_of (mb_orders b) oid") (simp_all add: fill_order_def)
  have guards: "oid \<notin> mb_cancelled b" "0 < fp"
    using assms by (cases "oid \<in> mb_cancelled b"; cases "fp \<le> 0"; simp add: fill_order_def ord)+
  obtain already where al: "map_of (mb_filled_qty b) oid = Some already"
    using assms guards by (cases "map_of (mb_filled_qty b) oid") (simp_all add: fill_order_def ord)
  define actual where "actual = (case fq of Some q \<Rightarrow> q | None \<Rightarrow> o_quantity ord - already)"
  define b1 where "b1 = b\<lparr>mb_filled_qty := AList.update oid (already + actual) (mb_filled_qty b)\<rparr>"
  have f: "(if o_quantity ord - already \<le> 0 then (Inl BrokerError, b)
        else if actual \<le> 0 then (Inl ValueError, b)
        else if actual > o_quantity ord - already then (Inl BrokerError, b)
        else bindS (apply_fill_to_position (o_contract ord) (o_side ord) actual fp False b1) (\<lambda>_ b2.
               emit_event oid (client_id_or ord ''anon'') (o_contract ord)
                 (if o_quantity ord - (already + actual) = 0 then filled else partial_fill)
                 (Some fp) (Some actual) (already + actual) (o_quantity ord - (already + actual)) b2)) = (Inr ev, b')"
    using assms
    by (simp only: fill_order_def ord al Let_def option.case guards(1) not_le [THEN iffD2, OF guards(2)] if_False
          actual_def b1_def)
  have act: "0 < actual" "actual \<le> o_quantity ord - already" using f by (auto split: if_splits)
  then obtain u b2 where "apply_fill_to_position (o_contract ord) (o_side ord) actual fp False b1 = (Inr u, b2)"
    "emit_event oid (client_id_or ord ''anon'') (o_contract ord)
       (if o_quantity ord - (already + actual) = 0 then filled else partial_fill)
       (Some fp) (Some actual) (already + actual) (o_quantity ord - (already + actual)) b2 = (Inr ev, b')"
    using f by (auto simp: bindS_Inr_iff)
  then show ?thesis using ord guards al act actual_def b1_def by auto
qed

end
