(* ===== verification/Broker_Ledger.thy ===== *)
theory Broker_Ledger
  imports Broker_Invariant
begin

text \<open>
  The books of \<open>MockBroker\<close>: positions against the event log, account equity across fills and rolls, the
  per-trade ledger against the realized profit and loss. Equity statements are about exact arithmetic: a
  hypothesis says which intermediate results the 28-digit context represents without rounding, which is
  the case for prices on a tick grid.
\<close>

section \<open>Positions and the event log\<close>

definition fill_delta :: "(string \<times> Order) list \<Rightarrow> OrderEvent \<Rightarrow> int" where
  "fill_delta orders e =
     (case (map_of orders (oe_broker_order_id e), oe_fill_quantity e) of
        (Some ord, Some q) \<Rightarrow> signed_qty (o_side ord) q
      | _ \<Rightarrow> 0)"

definition net_fills :: "MockBroker \<Rightarrow> ContractSymbol \<Rightarrow> int" where
  "net_fills b c = sum_list (map (fill_delta (mb_orders b)) (filter (\<lambda>e. oe_contract e = c) (mb_events b)))"

definition utc_clock :: "MockBroker \<Rightarrow> bool" where
  "utc_clock b \<longleftrightarrow> (\<forall>n. dt_is_utc (mb_clock b n))"

definition log_inv :: "MockBroker \<Rightarrow> bool" where
  "log_inv b \<longleftrightarrow>
     broker_inv b \<and> utc_clock b \<and> (\<forall>c. position_qty b c = net_fills b c) \<and>
     (\<forall>e \<in> set (mb_events b). oe_broker_order_id e \<in> set (order_ids (mb_next_order_id_seq b)))"

lemma net_fills_cong:
  assumes "mb_events b' = mb_events b"
    and "\<And>e. e \<in> set (mb_events b) \<Longrightarrow> fill_delta (mb_orders b') e = fill_delta (mb_orders b) e"
  shows "net_fills b' c = net_fills b c"
  using assms by (auto simp: net_fills_def intro!: arg_cong [where f = sum_list])

lemma position_qty_cong: "mb_positions b' = mb_positions b \<Longrightarrow> position_qty b' c = position_qty b c"
  by (simp add: position_qty_def)

lemma quiet_sum:
  "(\<And>e. e \<in> set evs \<Longrightarrow> oe_fill_quantity e = None) \<Longrightarrow> sum_list (map (fill_delta orders) (filter P evs)) = 0"
  by (induction evs) (auto simp: fill_delta_def split: option.splits)

text \<open>Adding an event that reports no fill, for an order of the book, keeps the correspondence.\<close>

lemma emit_quiet_log:
  assumes e: "emit_event oid cid c t fp None cum rem b = (r, b')" and inv: "log_inv b"
    and oid: "oid \<in> set (order_ids (mb_next_order_id_seq b))"
  shows "log_inv b'"
proof -
  note fr = emit_event_frame [OF e]
  have "broker_inv b'" "utc_clock b'"
    using emit_event_inv [OF e] inv fr by (auto simp: log_inv_def utc_clock_def same_config_def)
  moreover have "\<exists>evs. mb_events b' = mb_events b @ evs \<and> (\<forall>ev \<in> set evs. oe_fill_quantity ev = None \<and> oe_broker_order_id ev = oid)"
    using emit_event_events [OF e] by (cases r) auto
  then obtain evs where evs: "mb_events b' = mb_events b @ evs"
    "\<forall>ev \<in> set evs. oe_fill_quantity ev = None \<and> oe_broker_order_id ev = oid" by blast
  have zero: "sum_list (map (fill_delta (mb_orders b)) (filter P evs)) = 0" for P
    using evs(2) by (intro quiet_sum) blast
  have "net_fills b' d = net_fills b d" for d
    using fr evs(1) zero by (simp add: net_fills_def same_orders_def)
  then have "position_qty b' d = net_fills b' d" for d
    using inv fr position_qty_cong [of b' b d] by (simp add: log_inv_def same_books_def)
  moreover have "\<forall>ev \<in> set (mb_events b'). oe_broker_order_id ev \<in> set (order_ids (mb_next_order_id_seq b'))"
    using inv fr evs oid by (auto simp: log_inv_def same_orders_def)
  ultimately show ?thesis by (simp add: log_inv_def)
qed

lemma emit_quiet_log_snd:
  "log_inv b \<Longrightarrow> oid \<in> set (order_ids (mb_next_order_id_seq b)) \<Longrightarrow>
     log_inv (snd (emit_event oid cid c t fp None cum rem b))"
  using emit_quiet_log by (metis prod.collapse)

lemma emit_seq: "emit_event oid cid c t fp fq cum rem b = (r, b') \<Longrightarrow> mb_next_order_id_seq b' = mb_next_order_id_seq b"
  using emit_event_frame by (auto simp: same_orders_def)

lemma registered_log:
  assumes "log_inv b" "order_ok ord"
  shows "log_inv (registered ord b)"
proof -
  have "fill_delta (mb_orders (registered ord b)) e = fill_delta (mb_orders b) e" if "e \<in> set (mb_events b)" for e
    using that assms(1) by (auto simp: log_inv_def registered_def Let_def fill_delta_def)
  then have "net_fills (registered ord b) c = net_fills b c" for c
    by (intro net_fills_cong) (simp_all add: registered_def Let_def)
  moreover have "position_qty (registered ord b) c = position_qty b c" for c
    by (intro position_qty_cong) (simp add: registered_def Let_def)
  ultimately show ?thesis
    using assms registered_inv [of b ord] by (auto simp: log_inv_def utc_clock_def registered_def Let_def)
qed

lemma place_order_log: "log_inv b \<Longrightarrow> order_ok ord \<Longrightarrow> log_inv (snd (place_order ord b))"
proof -
  assume a: "log_inv b" "order_ok ord"
  have "log_inv (registered ord b)" using registered_log a by blast
  moreover have "mb_next_order_id_seq (registered ord b) = Suc (mb_next_order_id_seq b)" by (simp add: registered_def Let_def)
  ultimately show ?thesis
    unfolding place_order_alt Let_def using a(1)
    by (auto intro!: bindS_state [where P = log_inv] emit_quiet_log_snd simp: emit_seq)
qed

lemma cancel_order_log: "log_inv b \<Longrightarrow> log_inv (snd (cancel_order oid b))"
proof -
  assume inv: "log_inv b"
  have "log_inv (b\<lparr>mb_cancelled := insert oid (mb_cancelled b)\<rparr>) \<and> oid \<in> set (order_ids (mb_next_order_id_seq b))"
    if "map_of (mb_orders b) oid = Some ord" for ord
    using inv known_order_id [OF _ that]
    by (auto simp: log_inv_def broker_inv_def orders_inv_def books_inv_def events_inv_def utc_clock_def position_qty_def net_fills_def)
  then show ?thesis using inv
    by (auto simp: cancel_order_def Let_def intro!: bindS_state [where P = log_inv] emit_quiet_log_snd split: option.splits)
qed

lemma modify_order_log: "log_inv b \<Longrightarrow> log_inv (snd (modify_order oid nl ns nq b))"
proof -
  assume inv: "log_inv b"
  have "log_inv (b\<lparr>mb_orders := AList.update oid new (mb_orders b)\<rparr>) \<and> oid \<in> set (order_ids (mb_next_order_id_seq b))"
    if ord: "map_of (mb_orders b) oid = Some ord" and new: "Order_new (modified_order ord nl ns nq) = Inr new" for ord new
  proof -
    let ?b = "b\<lparr>mb_orders := AList.update oid new (mb_orders b)\<rparr>"
    have oid: "oid \<in> set (order_ids (mb_next_order_id_seq b))"
      using inv known_order_id [OF _ ord] by (simp add: log_inv_def broker_inv_def)
    have "order_ok new" "o_side new = o_side ord"
      using new by (auto simp: Order_new_def order_ok_def bindE_Inr_iff modified_order_def)
    then have "broker_inv ?b"
      using inv oid by (auto simp: log_inv_def broker_inv_def orders_inv_def books_inv_def events_inv_def dest!: update_values)
    moreover have "fill_delta (mb_orders ?b) e = fill_delta (mb_orders b) e" for e
      using ord \<open>o_side new = o_side ord\<close> by (cases "oe_fill_quantity e") (auto simp: fill_delta_def split: option.splits)
    then have "net_fills ?b c = net_fills b c" for c by (intro net_fills_cong) simp_all
    ultimately show ?thesis using inv oid by (simp add: log_inv_def utc_clock_def position_qty_def)
  qed
  then show ?thesis using inv
    by (auto simp: modify_order_def Let_def intro!: bindS_state [where P = log_inv] emit_quiet_log_snd
        split: option.splits sum.splits)
qed

lemma fill_order_cases:
  assumes "fill_order oid fp fq b = (r, b')"
  obtains (refused) e where "r = Inl e" "b' = b"
  | (applied) ord already actual b1 r1 b2 where
      "map_of (mb_orders b) oid = Some ord" "map_of (mb_filled_qty b) oid = Some already" "0 < fp"
      "0 < actual" "actual \<le> o_quantity ord - already"
      "b1 = b\<lparr>mb_filled_qty := AList.update oid (already + actual) (mb_filled_qty b)\<rparr>"
      "apply_fill_to_position (o_contract ord) (o_side ord) actual fp False b1 = (r1, b2)"
      "(case r1 of Inl e \<Rightarrow> (Inl e, b2)
        | Inr _ \<Rightarrow> emit_event oid (client_id_or ord ''anon'') (o_contract ord)
            (if o_quantity ord - (already + actual) = 0 then filled else partial_fill)
            (Some fp) (Some actual) (already + actual) (o_quantity ord - (already + actual)) b2) = (r, b')"
proof (cases "map_of (mb_orders b) oid")
  case None
  then show thesis using assms refused by (auto simp: fill_order_def)
next
  case (Some ord)
  show thesis
  proof (cases "oid \<in> mb_cancelled b \<or> fp \<le> 0 \<or> map_of (mb_filled_qty b) oid = None")
    case True
    then show thesis using assms refused Some by (auto simp: fill_order_def split: if_splits)
  next
    case False
    then obtain already where al: "map_of (mb_filled_qty b) oid = Some already" by auto
    have g: "oid \<notin> mb_cancelled b" "\<not> fp \<le> 0" using False by simp_all
    define actual where "actual = (case fq of Some q \<Rightarrow> q | None \<Rightarrow> o_quantity ord - already)"
    define b1 where "b1 = b\<lparr>mb_filled_qty := AList.update oid (already + actual) (mb_filled_qty b)\<rparr>"
    have f: "(if o_quantity ord - already \<le> 0 then (Inl BrokerError, b)
        else if actual \<le> 0 then (Inl ValueError, b)
        else if actual > o_quantity ord - already then (Inl BrokerError, b)
        else bindS (apply_fill_to_position (o_contract ord) (o_side ord) actual fp False b1) (\<lambda>_ b2.
               emit_event oid (client_id_or ord ''anon'') (o_contract ord)
                 (if o_quantity ord - (already + actual) = 0 then filled else partial_fill)
                 (Some fp) (Some actual) (already + actual) (o_quantity ord - (already + actual)) b2)) = (r, b')"
      using assms by (simp only: fill_order_def Some al Let_def option.case g if_False actual_def b1_def)
    show thesis
    proof (cases "0 < actual \<and> actual \<le> o_quantity ord - already")
      case True
      obtain r1 b2 where "apply_fill_to_position (o_contract ord) (o_side ord) actual fp False b1 = (r1, b2)" by fastforce
      then show thesis
        using f True applied [OF Some al _ _ _ b1_def] g by (cases r1) (auto simp: not_le)
    next
      case False
      then show thesis using f refused by (auto split: if_splits)
    qed
  qed
qed

lemma net_fills_snoc:
  "mb_events b' = mb_events b @ [ev] \<Longrightarrow> mb_orders b' = mb_orders b \<Longrightarrow>
     net_fills b' c = net_fills b c + (if oe_contract ev = c then fill_delta (mb_orders b) ev else 0)"
  by (simp add: net_fills_def)

lemma filled_update_inv:
  assumes "broker_inv b" "map_of (mb_filled_qty b) oid = Some m" "0 \<le> n"
  shows "broker_inv (b\<lparr>mb_filled_qty := AList.update oid n (mb_filled_qty b)\<rparr>)" and "0 \<le> m"
proof -
  have "oid \<in> set (order_ids (mb_next_order_id_seq b))"
    using assms(1,2) order_keys(2) [of b] by (force simp: broker_inv_def dest: map_of_SomeD)
  then show "broker_inv (b\<lparr>mb_filled_qty := AList.update oid n (mb_filled_qty b)\<rparr>)" using assms
    by (auto simp: broker_inv_def orders_inv_def books_inv_def events_inv_def dest!: update_values)
  show "0 \<le> m" using assms(1) map_of_SomeD [OF assms(2)] by (force simp: broker_inv_def orders_inv_def)
qed

lemma fill_order_log:
  assumes inv: "log_inv b"
  shows "log_inv (snd (fill_order oid fp fq b))"
proof -
  obtain r b' where f: "fill_order oid fp fq b = (r, b')" by fastforce
  from f have "log_inv b'"
  proof (cases rule: fill_order_cases)
    case (refused e)
    then show ?thesis using inv by simp
  next
    case (applied ord already actual b1 r1 b2)
    note fr = apply_fill_frame [OF applied(7)]
    have bi: "broker_inv b'" using fill_order_inv [of b oid fp fq] f inv by (simp add: log_inv_def)
    have keep: "mb_orders b2 = mb_orders b" "mb_events b2 = mb_events b" "mb_clock b2 = mb_clock b"
      "mb_next_order_id_seq b2 = mb_next_order_id_seq b" "\<And>c. position_qty b1 c = position_qty b c"
      using fr applied(6) by (simp_all add: same_defs same_events_def position_qty_def)
    have oid: "oid \<in> set (order_ids (mb_next_order_id_seq b))"
      using inv known_order_id [OF _ applied(1)] by (simp add: log_inv_def broker_inv_def)
    show ?thesis
    proof (cases r1)
      case (Inl e)
      then have "b' = b2" using applied(8) by simp
      moreover have "mb_positions b2 = mb_positions b1" using applied(7) Inl apply_fill_raise by blast
      ultimately show ?thesis using inv bi keep applied(6) by (auto simp: log_inv_def utc_clock_def position_qty_def net_fills_def)
    next
      case (Inr u)
      have "0 \<le> already" using filled_update_inv(2) [OF _ applied(2), of 0] inv by (simp add: log_inv_def)
      then have "\<exists>ev b'. emit_event oid (client_id_or ord ''anon'') (o_contract ord)
            (if o_quantity ord - (already + actual) = 0 then filled else partial_fill)
            (Some fp) (Some actual) (already + actual) (o_quantity ord - (already + actual)) b2 = (Inr ev, b')"
        using inv keep applied(4,5) by (intro emit_event_total) (auto simp: log_inv_def utc_clock_def)
      then obtain ev where e: "emit_event oid (client_id_or ord ''anon'') (o_contract ord)
            (if o_quantity ord - (already + actual) = 0 then filled else partial_fill)
            (Some fp) (Some actual) (already + actual) (o_quantity ord - (already + actual)) b2 = (Inr ev, b')"
        using applied(8) Inr by auto
      note ev = emit_event_events [OF e] and fr' = emit_event_frame [OF e]
      have delta: "fill_delta (mb_orders b) ev = signed_qty (o_side ord) actual"
        using ev applied(1) by (simp add: fill_delta_def)
      have "position_qty b' c = net_fills b' c" for c
        using apply_fill_qty [of _ _ _ _ _ b1 u b2] applied(7) Inr keep inv delta ev fr'
          net_fills_snoc [of b' b ev c] position_qty_cong [of b' b2 c]
        by (auto simp: log_inv_def same_defs)
      moreover have "\<forall>e \<in> set (mb_events b'). oe_broker_order_id e \<in> set (order_ids (mb_next_order_id_seq b'))"
        using ev fr' keep inv oid by (auto simp: log_inv_def same_defs)
      ultimately show ?thesis using bi inv keep fr' by (simp add: log_inv_def utc_clock_def same_defs)
    qed
  qed
  then show ?thesis using f by simp
qed

lemma advance_loop_log: "log_inv b \<Longrightarrow> log_inv (snd (advance_loop bar slip oids b))"
proof (induction oids arbitrary: b)
  case (Cons oid oids)
  have "log_inv (snd (bindS (fill_order oid price None b) (\<lambda>ev b1.
          bindS (advance_loop bar slip oids b1) (\<lambda>evs b2. (Inr (ev # evs), b2)))))" for price
    using Cons fill_order_log by (intro bindS_state [where P = log_inv]) auto
  then show ?case using Cons by (auto split: option.splits sum.splits)
qed simp

lemma reset_log: "log_inv b \<Longrightarrow> log_inv (reset b)"
  using reset_inv [of b] by (simp add: log_inv_def utc_clock_def reset_def position_qty_def net_fills_def)

lemma trade_step_log: "trade_step b b' \<Longrightarrow> log_inv b \<Longrightarrow> log_inv b'"
  by (induction rule: trade_step.induct)
     (auto simp: advance_def intro: place_order_log cancel_order_log modify_order_log fill_order_log advance_loop_log reset_log)

section \<open>Equity across a fill\<close>

text \<open>The value of the position in \<open>c\<close> at price \<open>x\<close> with point multiplier \<open>m\<close>, as the engine marks it.\<close>

definition open_value :: "MockBroker \<Rightarrow> ContractSymbol \<Rightarrow> decimal \<Rightarrow> decimal \<Rightarrow> rat" where
  "open_value b c x m =
     (case map_of (mb_positions b) c of
        None \<Rightarrow> 0
      | Some p \<Rightarrow> (x - p_avg_entry_price p) * of_int (p_quantity p) * m)"

definition same_direction :: "int \<Rightarrow> int \<Rightarrow> bool" where
  "same_direction q d \<longleftrightarrow> (q > 0 \<and> d > 0) \<or> (q < 0 \<and> d < 0)"

text \<open>
  \<open>fill_exact\<close>: the products and sums a fill computes fit the decimal context. The average entry price of
  an addition, a quotient, is not required to.
\<close>

definition close_exact :: "MockBroker \<Rightarrow> ContractSymbol \<Rightarrow> Position \<Rightarrow> rat \<Rightarrow> rat \<Rightarrow> rat \<Rightarrow> bool" where
  "close_exact b c p0 x cq m \<longleftrightarrow>
     drepr (x - p_avg_entry_price p0) \<and> drepr ((x - p_avg_entry_price p0) * cq) \<and>
     drepr ((x - p_avg_entry_price p0) * cq * m) \<and>
     (\<forall>s \<in> {1, - 1}.
        drepr (mb_realized_pnl_today b + s * ((x - p_avg_entry_price p0) * cq * m)) \<and>
        drepr (open_pnl b c + s * ((x - p_avg_entry_price p0) * cq * m)))"

definition fill_exact :: "MockBroker \<Rightarrow> ContractSymbol \<Rightarrow> int \<Rightarrow> decimal \<Rightarrow> bool" where
  "fill_exact b c d x \<longleftrightarrow>
     (case map_of (mb_positions b) c of
        None \<Rightarrow> True
      | Some p0 \<Rightarrow>
          p_quantity p0 \<noteq> 0 \<longrightarrow>
          (if same_direction (p_quantity p0) d
           then drepr (p_avg_entry_price p0 * of_int \<bar>p_quantity p0\<bar>) \<and> drepr (x * of_int \<bar>d\<bar>) \<and>
                drepr (p_avg_entry_price p0 * of_int \<bar>p_quantity p0\<bar> + x * of_int \<bar>d\<bar>)
           else \<forall>m. multiplier_for c = Inr m \<longrightarrow> close_exact b c p0 x (of_int (min \<bar>p_quantity p0\<bar> \<bar>d\<bar>)) m))"

text \<open>The rounding a fill may leave in the books: that of the average price of an addition.\<close>

definition rounding_slack :: "MockBroker \<Rightarrow> ContractSymbol \<Rightarrow> int \<Rightarrow> decimal \<Rightarrow> rat \<Rightarrow> rat" where
  "rounding_slack b c d x m =
     (case map_of (mb_positions b) c of
        None \<Rightarrow> 0
      | Some p0 \<Rightarrow>
          if p_quantity p0 \<noteq> 0 \<and> same_direction (p_quantity p0) d
          then 5 / 10 ^ 28 * (p_avg_entry_price p0 * of_int \<bar>p_quantity p0\<bar> + x * of_int \<bar>d\<bar>) * m
          else 0)"

lemma realized_delta_exact:
  assumes "close_exact b c p0 x (of_int cq) m"
  shows "realized_delta p0 cq x m = (if p_quantity p0 > 0 then 1 else - 1) * ((x - p_avg_entry_price p0) * of_int cq * m)"
proof -
  define y where "y = x - p_avg_entry_price p0"
  have d: "drepr y" "drepr (y * of_int cq)" "drepr (y * of_int cq * m)" using assms by (simp_all add: close_exact_def y_def)
  have "p_avg_entry_price p0 - x = - y" by (simp add: y_def)
  moreover have "drepr (- y)" "drepr (- y * of_int cq)" "drepr (- y * of_int cq * m)"
    using d by (metis drepr_minus mult_minus_left)+
  ultimately show ?thesis using d by (simp add: realized_delta_def dint_def dec_exact y_def [symmetric])
qed

lemma open_pnl_simps [simp]:
  "open_pnl (accrue c rd b) c = dadd (open_pnl b c) rd"
  by (simp add: open_pnl_def accrue_def)

lemma accrue_exact:
  assumes "close_exact b c p0 x (of_int cq) m"
  shows "mb_realized_pnl_today (accrue c (realized_delta p0 cq x m) b) = mb_realized_pnl_today b + realized_delta p0 cq x m"
    and "dadd (open_pnl b c) (realized_delta p0 cq x m) = open_pnl b c + realized_delta p0 cq x m"
proof -
  have s: "(if p_quantity p0 > 0 then 1 else - 1) \<in> {1, - 1 :: rat}" by simp
  note rd = realized_delta_exact [OF assms]
  show "mb_realized_pnl_today (accrue c (realized_delta p0 cq x m) b) = mb_realized_pnl_today b + realized_delta p0 cq x m"
    using assms s unfolding rd close_exact_def by (simp add: accrue_def op_exact del: insert_iff)
  show "dadd (open_pnl b c) (realized_delta p0 cq x m) = open_pnl b c + realized_delta p0 cq x m"
    using assms s unfolding rd close_exact_def by (simp add: op_exact del: insert_iff)
qed

lemma increase_fill_value:
  assumes f: "increase_fill c p0 d x b = (Inr u, b')" and p0: "map_of (mb_positions b) c = Some p0" "0 < p_avg_entry_price p0"
    and dir: "same_direction (p_quantity p0) d" and x: "0 < x" and m: "0 < m"
    and ex: "drepr (p_avg_entry_price p0 * of_int \<bar>p_quantity p0\<bar>)" "drepr (x * of_int \<bar>d\<bar>)"
      "drepr (p_avg_entry_price p0 * of_int \<bar>p_quantity p0\<bar> + x * of_int \<bar>d\<bar>)"
  shows "\<bar>open_value b' c x m - open_value b c x m\<bar>
           \<le> 5 / 10 ^ 28 * (p_avg_entry_price p0 * of_int \<bar>p_quantity p0\<bar> + x * of_int \<bar>d\<bar>) * m"
    and "mb_realized_pnl_today b' = mb_realized_pnl_today b"
proof -
  define S where "S = p_avg_entry_price p0 * of_int \<bar>p_quantity p0\<bar> + x * of_int \<bar>d\<bar>"
  define n where "n = (of_int (p_quantity p0 + d) :: rat)"
  have n: "n \<noteq> 0" "\<bar>n\<bar> = of_int \<bar>p_quantity p0 + d\<bar>"
    and an: "of_int \<bar>p_quantity p0\<bar> + of_int \<bar>d\<bar> = \<bar>n\<bar>"
    using dir by (auto simp: n_def same_direction_def)
  have "0 < (of_int \<bar>p_quantity p0\<bar> :: rat)" "0 < (of_int \<bar>d\<bar> :: rat)" using dir by (auto simp: same_direction_def)
  then have S: "0 < S" unfolding S_def using p0(2) x by (intro add_pos_pos mult_pos_pos)
  define avg where "avg = dround (S / \<bar>n\<bar>)"
  have sum: "dadd (dmul (p_avg_entry_price p0) (dint \<bar>p_quantity p0\<bar>)) (dmul x (dint \<bar>d\<bar>)) = S"
    using ex by (simp add: S_def dint_def op_exact)
  have q: "ddiv S (dint \<bar>p_quantity p0 + d\<bar>) = Inr avg"
    using n by (simp add: ddiv_Inr dint_def avg_def n_def [symmetric])
  from f have "set_position c
       \<lparr>p_contract = c, p_quantity = p_quantity p0 + d, p_avg_entry_price = avg, p_unrealized_pnl = 0,
        p_realized_pnl_today = p_realized_pnl_today p0, p_margin_used = p_margin_used p0\<rparr> b = (Inr u, b')"
    by (simp add: increase_fill_def sum q)
  note sp = set_position_qty(1) [OF this] and fr = set_position_frame [OF this]
  show "mb_realized_pnl_today b' = mb_realized_pnl_today b" using fr by simp
  have v': "open_value b' c x m = (x - avg) * n * m" using sp by (simp add: open_value_def n_def)
  have v: "open_value b c x m = (x - S / \<bar>n\<bar>) * n * m"
  proof -
    have "(x * \<bar>n\<bar> - S) * sgn n = (x - p_avg_entry_price p0) * of_int (p_quantity p0)"
      using dir by (auto simp: an [symmetric] S_def same_direction_def n_def sgn_if algebra_simps)
    moreover have "(x - S / \<bar>n\<bar>) * n = (x * \<bar>n\<bar> - S) * sgn n"
      using n(1) by (simp add: field_simps sgn_if abs_if split: if_splits)
    ultimately show ?thesis using p0(1) by (simp add: open_value_def)
  qed
  have err: "\<bar>avg - S / \<bar>n\<bar>\<bar> \<le> 5 / 10 ^ 28 * (S / \<bar>n\<bar>)"
    using dec28.rnd_error [of "S / \<bar>n\<bar>"] S n(1) by (simp add: avg_def)
  have "\<bar>open_value b' c x m - open_value b c x m\<bar> = \<bar>avg - S / \<bar>n\<bar>\<bar> * \<bar>n\<bar> * m"
    using m unfolding v v' by (simp add: left_diff_distrib [symmetric] abs_mult abs_minus_commute)
  also have "\<dots> \<le> 5 / 10 ^ 28 * (S / \<bar>n\<bar>) * \<bar>n\<bar> * m"
    using err m by (intro mult_right_mono) simp_all
  also have "\<dots> = 5 / 10 ^ 28 * S * m" using n(1) by simp
  finally show "\<bar>open_value b' c x m - open_value b c x m\<bar>
      \<le> 5 / 10 ^ 28 * (p_avg_entry_price p0 * of_int \<bar>p_quantity p0\<bar> + x * of_int \<bar>d\<bar>) * m"
    by (simp add: S_def)
qed

lemma close_fill_cases:
  fixes p0 d x m
  defines "rd \<equiv> realized_delta p0 (min \<bar>p_quantity p0\<bar> \<bar>d\<bar>) x m"
  assumes "close_fill c p0 d x roll b = (r, b')" "multiplier_for c = Inr m"
  obtains (flat) p where "p_quantity p0 + d = 0" "p_quantity p = 0"
      "set_position c p (if roll then accrue c rd b else book_trade c (accrue c rd b)) = (r, b')"
  | (flip) p where "p_quantity p0 + d \<noteq> 0" "(p_quantity p0 > 0) \<noteq> (p_quantity p0 + d > 0)" "p_avg_entry_price p = x"
      "p_quantity p = p_quantity p0 + d" "set_position c p (book_trade c (accrue c rd b)) = (r, b')"
  | (part) p where "p_quantity p0 + d \<noteq> 0" "(p_quantity p0 > 0) = (p_quantity p0 + d > 0)"
      "p_avg_entry_price p = p_avg_entry_price p0" "p_quantity p = p_quantity p0 + d"
      "set_position c p (accrue c rd b) = (r, b')"
proof -
  consider "p_quantity p0 + d = 0"
    | "p_quantity p0 + d \<noteq> 0" "(p_quantity p0 > 0) \<noteq> (p_quantity p0 + d > 0)"
    | "p_quantity p0 + d \<noteq> 0" "(p_quantity p0 > 0) = (p_quantity p0 + d > 0)" by blast
  then show thesis
  proof cases
    case 1
    show thesis using assms(2) unfolding close_fill_def Let_def assms(3) rd_def [symmetric] sum.case if_P [OF 1]
      by (elim flat [OF 1, rotated]) simp
  next
    case 2
    show thesis using assms(2) unfolding close_fill_def Let_def assms(3) rd_def [symmetric] sum.case if_not_P [OF 2(1)] if_P [OF 2(2)]
      by (elim flip [OF 2, rotated 2]) simp_all
  next
    case 3
    have n: "\<not> (p_quantity p0 > 0) \<noteq> (p_quantity p0 + d > 0)" using 3(2) by simp
    show thesis using assms(2) unfolding close_fill_def Let_def assms(3) rd_def [symmetric] sum.case if_not_P [OF 3(1)] if_not_P [OF n]
      by (elim part [OF 3, rotated 2]) simp_all
  qed
qed

lemma close_fill_value:
  assumes f: "close_fill c p0 d x roll b = (Inr u, b')" and p0: "map_of (mb_positions b) c = Some p0" "p_quantity p0 \<noteq> 0"
    and dir: "\<not> same_direction (p_quantity p0) d" "d \<noteq> 0" and m: "multiplier_for c = Inr m"
    and ex: "close_exact b c p0 x (of_int (min \<bar>p_quantity p0\<bar> \<bar>d\<bar>)) m"
  shows "mb_realized_pnl_today b' + open_value b' c x m = mb_realized_pnl_today b + open_value b c x m"
proof -
  define cq where "cq = min \<bar>p_quantity p0\<bar> \<bar>d\<bar>"
  define rd where "rd = realized_delta p0 cq x m"
  have rd: "rd = (if p_quantity p0 > 0 then 1 else - 1) * ((x - p_avg_entry_price p0) * of_int cq * m)"
    using realized_delta_exact ex by (simp add: rd_def cq_def)
  have acc: "mb_realized_pnl_today (accrue c rd b) = mb_realized_pnl_today b + rd"
    using accrue_exact(1) [OF ex] by (simp add: rd_def cq_def)
  have book: "mb_realized_pnl_today (book_trade c s) = mb_realized_pnl_today s" for s by (simp add: book_trade_def)
  have v: "open_value b c x m = (x - p_avg_entry_price p0) * of_int (p_quantity p0) * m" using p0 by (simp add: open_value_def)
  from f m show ?thesis
  proof (cases rule: close_fill_cases)
    case (flat p)
    have "of_int cq * (if p_quantity p0 > 0 then 1 else - 1) = (of_int (p_quantity p0) :: rat)"
      using flat by (auto simp: cq_def)
    then have "rd = open_value b c x m" unfolding v rd by (simp add: mult_ac)
    then show ?thesis
      using flat set_position_frame [OF flat(3)] set_position_qty(1) [OF flat(3)] acc
      by (simp add: open_value_def [of b'] book rd_def cq_def)
  next
    case (flip p)
    have "of_int cq * (if p_quantity p0 > 0 then 1 else - 1) = (of_int (p_quantity p0) :: rat)"
      using flip p0 by (auto simp: cq_def)
    then have "rd = open_value b c x m" unfolding v rd by (simp add: mult_ac)
    then show ?thesis
      using flip set_position_frame [OF flip(5)] set_position_qty(1) [OF flip(5)] acc
      by (simp add: open_value_def [of b'] book rd_def cq_def)
  next
    case (part p)
    have "of_int cq * (if p_quantity p0 > 0 then 1 else - 1) = (- of_int d :: rat)"
      using part dir p0(2) by (auto simp: cq_def same_direction_def)
    then have "rd = (x - p_avg_entry_price p0) * - of_int d * m" unfolding rd by (metis mult.assoc mult.commute)
    then show ?thesis unfolding v
      using part set_position_frame [OF part(5)] set_position_qty(1) [OF part(5)] acc
      by (simp add: open_value_def [of b'] rd_def cq_def algebra_simps)
  qed
qed

text \<open>The two cases together: a fill at \<open>x\<close> leaves the equity marked at \<open>x\<close> where it was, up to the slack.\<close>

lemma apply_fill_marked:
  assumes f: "apply_fill_to_position c side q x roll b = (Inr u, b')" and inv: "books_inv b"
    and pos: "0 < q" "0 < x" and m: "multiplier_for c = Inr m" and ex: "fill_exact b c (signed_qty side q) x"
  shows "\<bar>(mb_realized_pnl_today b' + open_value b' c x m) - (mb_realized_pnl_today b + open_value b c x m)\<bar>
           \<le> rounding_slack b c (signed_qty side q) x m"
proof -
  have d: "signed_qty side q \<noteq> 0" using pos(1) by (auto simp: signed_qty_def)
  have opened: "mb_realized_pnl_today b' = mb_realized_pnl_today b \<and> open_value b' c x m = 0"
    if "open_fill c (signed_qty side q) x r b = (Inr u, b')" for r
  proof -
    from that have s: "set_position c \<lparr>p_contract = c, p_quantity = signed_qty side q, p_avg_entry_price = x,
        p_unrealized_pnl = 0, p_realized_pnl_today = r, p_margin_used = 0\<rparr> b = (Inr u, b')" by (simp add: open_fill_def)
    show ?thesis using set_position_frame [OF s] set_position_qty(1) [OF s] by (simp add: open_value_def)
  qed
  show ?thesis
  proof (cases "map_of (mb_positions b) c")
    case None
    then show ?thesis using f opened [of 0]
      by (simp add: apply_fill_to_position_def open_value_def [of b] rounding_slack_def)
  next
    case (Some p0)
    show ?thesis
    proof (cases "p_quantity p0 = 0")
      case True
      then show ?thesis using Some f opened [of "p_realized_pnl_today p0"]
        by (simp add: apply_fill_to_position_def open_value_def [of b] rounding_slack_def)
    next
      case False
      have avg: "0 < p_avg_entry_price p0"
        using inv map_of_SomeD [OF Some] False by (auto simp: books_inv_def positions_ok_def position_ok_def)
      show ?thesis
      proof (cases "same_direction (p_quantity p0) (signed_qty side q)")
        case True
        then have "increase_fill c p0 (signed_qty side q) x b = (Inr u, b')"
          using Some False f by (simp add: apply_fill_to_position_def same_direction_def)
        from increase_fill_value [OF this Some avg True pos(2) multiplier_for_pos [OF m]] ex True False Some
        show ?thesis by (simp add: fill_exact_def rounding_slack_def)
      next
        case dir: False
        then have "close_fill c p0 (signed_qty side q) x roll b = (Inr u, b')"
          using Some False f unfolding apply_fill_to_position_def Let_def same_direction_def by (auto split: if_splits)
        from close_fill_value [OF this Some False dir d m] ex dir False Some m
        show ?thesis by (simp add: fill_exact_def rounding_slack_def)
      qed
    qed
  qed
qed

lemma apply_fill_other:
  "apply_fill_to_position c side q x roll b = (r, b') \<Longrightarrow> c' \<noteq> c \<Longrightarrow> map_of (mb_positions b') c' = map_of (mb_positions b) c'"
proof (erule apply_fill_cases)
  fix p b0
  assume "set_position c p b0 = (r, b')" "c' \<noteq> c" "b0 = b \<or> (\<exists>rd. b0 = accrue c rd b \<or> b0 = book_trade c (accrue c rd b))"
  then show "map_of (mb_positions b') c' = map_of (mb_positions b) c'"
    by (auto simp: set_position_def split: sum.splits)
qed simp

lemma emit_value: "emit_event oid cid c t fp fq cum rem b = (r, b') \<Longrightarrow>
    open_value b' d x m = open_value b d x m \<and> mb_realized_pnl_today b' = mb_realized_pnl_today b"
  using emit_event_frame by (auto simp: open_value_def same_books_def)

lemma fill_exact_filled [simp]:
  "fill_exact (b\<lparr>mb_filled_qty := f\<rparr>) c d x \<longleftrightarrow> fill_exact b c d x"
  by (cases "map_of (mb_positions b) c") (simp_all add: fill_exact_def close_exact_def open_pnl_def)

lemma fill_order_marked:
  assumes f: "fill_order oid x fq b = (Inr ev, b')" and inv: "broker_inv b"
    and ord: "map_of (mb_orders b) oid = Some ord" and m: "multiplier_for (o_contract ord) = Inr m"
    and q: "oe_fill_quantity ev = Some q" and ex: "fill_exact b (o_contract ord) (signed_qty (o_side ord) q) x"
  shows "\<bar>(mb_realized_pnl_today b' + open_value b' (o_contract ord) x m)
          - (mb_realized_pnl_today b + open_value b (o_contract ord) x m)\<bar>
           \<le> rounding_slack b (o_contract ord) (signed_qty (o_side ord) q) x m"
proof -
  obtain already actual b2 where al: "map_of (mb_filled_qty b) oid = Some already"
    and pos: "0 < x" "0 < actual"
    and a: "apply_fill_to_position (o_contract ord) (o_side ord) actual x False
       (b\<lparr>mb_filled_qty := AList.update oid (already + actual) (mb_filled_qty b)\<rparr>) = (Inr (), b2)"
    and e: "emit_event oid (client_id_or ord ''anon'') (o_contract ord)
       (if o_quantity ord = already + actual then filled else partial_fill)
       (Some x) (Some actual) (already + actual) (o_quantity ord - (already + actual)) b2 = (Inr ev, b')"
    using fill_order_Inr [OF f] ord by auto
  let ?b1 = "b\<lparr>mb_filled_qty := AList.update oid (already + actual) (mb_filled_qty b)\<rparr>"
  have q': "q = actual" using emit_event_events [OF e] q by simp
  have "books_inv ?b1" using inv by (simp add: broker_inv_def books_inv_def)
  moreover have "fill_exact ?b1 (o_contract ord) (signed_qty (o_side ord) actual) x" using ex q' by simp
  ultimately have "\<bar>(mb_realized_pnl_today b2 + open_value b2 (o_contract ord) x m)
          - (mb_realized_pnl_today ?b1 + open_value ?b1 (o_contract ord) x m)\<bar>
           \<le> rounding_slack ?b1 (o_contract ord) (signed_qty (o_side ord) actual) x m"
    using apply_fill_marked [OF a _ pos(2,1) m] by blast
  then show ?thesis using emit_value [OF e] q' by (simp add: open_value_def rounding_slack_def)
qed

section \<open>Rolls\<close>

definition roll_exact :: "MockBroker \<Rightarrow> ContractSymbol \<Rightarrow> ContractSymbol \<Rightarrow> decimal \<Rightarrow> decimal \<Rightarrow> bool" where
  "roll_exact b front bk ff bf \<longleftrightarrow>
     (let qty = position_qty b front;
          close_side = (if qty > 0 then SELL else BUY);
          open_side = (if qty > 0 then BUY else SELL);
          b1 = snd (apply_fill_to_position front close_side \<bar>qty\<bar> ff True b);
          b2 = snd (apply_fill_to_position bk open_side \<bar>qty\<bar> bf True b1)
      in fill_exact b front (- qty) ff \<and> fill_exact b1 bk qty bf \<and> drepr (open_pnl b2 bk + open_pnl b2 front))"

lemma roll_position_Inr:
  assumes "roll_position front bk ff bf b = (Inr n, b')" "n \<noteq> 0"
  obtains b1 b2 where "n = position_qty b front"
    "apply_fill_to_position front (if n > 0 then SELL else BUY) \<bar>n\<bar> ff True b = (Inr (), b1)"
    "apply_fill_to_position bk (if n > 0 then BUY else SELL) \<bar>n\<bar> bf True b1 = (Inr (), b2)"
    "b' = (let b3 = b2\<lparr>mb_open_trade_pnl := AList.delete front (mb_open_trade_pnl b2)\<rparr>
           in if open_pnl b2 front \<noteq> 0
              then b3\<lparr>mb_open_trade_pnl := AList.update bk (dadd (open_pnl b3 bk) (open_pnl b2 front)) (mb_open_trade_pnl b3)\<rparr>
              else b3)"
proof -
  obtain p0 where p0: "map_of (mb_positions b) front = Some p0" and q: "p_quantity p0 \<noteq> 0"
    using assms by (auto simp: roll_position_def split: option.splits if_splits)
  from assms(1) have "bindS (apply_fill_to_position front (if p_quantity p0 > 0 then SELL else BUY) \<bar>p_quantity p0\<bar> ff True b) (\<lambda>_ b1.
      bindS (apply_fill_to_position bk (if p_quantity p0 > 0 then BUY else SELL) \<bar>p_quantity p0\<bar> bf True b1) (\<lambda>_ b2.
        let carried = open_pnl b2 front;
            b3 = b2\<lparr>mb_open_trade_pnl := AList.delete front (mb_open_trade_pnl b2)\<rparr>;
            b4 = (if carried \<noteq> 0
                  then b3\<lparr>mb_open_trade_pnl := AList.update bk (dadd (open_pnl b3 bk) carried) (mb_open_trade_pnl b3)\<rparr>
                  else b3)
        in (Inr (p_quantity p0), b4))) = (Inr n, b')"
    unfolding roll_position_def p0 option.case Let_def using q by (simp only: if_False)
  then show thesis
    using that p0 unfolding bindS_Inr_iff Let_def by (auto simp: position_qty_def)
qed

lemma signed_roll [simp]:
  "n \<noteq> 0 \<Longrightarrow> signed_qty (if n > 0 then SELL else BUY) \<bar>n\<bar> = - n" "signed_qty (if n > 0 then BUY else SELL) \<bar>n\<bar> = n"
  by (auto simp: signed_qty_def)

lemma roll_books_frame:
  assumes "b' = (let b3 = b2\<lparr>mb_open_trade_pnl := AList.delete front (mb_open_trade_pnl b2)\<rparr>
           in if open_pnl b2 front \<noteq> 0
              then b3\<lparr>mb_open_trade_pnl := AList.update bk (dadd (open_pnl b3 bk) (open_pnl b2 front)) (mb_open_trade_pnl b3)\<rparr>
              else b3)"
  shows "mb_positions b' = mb_positions b2" "mb_realized_pnl_today b' = mb_realized_pnl_today b2"
    "mb_trade_pnls b' = mb_trade_pnls b2"
  using assms by (auto simp: Let_def split: if_splits)

lemma roll_moves_position:
  assumes r: "roll_position front bk ff bf b = (Inr n, b')" and "front \<noteq> bk"
  shows "n = position_qty b front
       \<and> position_qty b' = (position_qty b)(front := 0, bk := position_qty b bk + n)"
proof (cases "n = 0")
  case True
  have "position_qty b front = 0 \<and> b' = b"
  proof (cases "map_of (mb_positions b) front")
    case None
    then show ?thesis using r by (simp add: roll_position_def position_qty_def)
  next
    case (Some p)
    have "p_quantity p = 0"
    proof (rule ccontr)
      assume q: "p_quantity p \<noteq> 0"
      show False using r True q unfolding roll_position_def Some option.case Let_def if_not_P [OF q]
        by (auto simp: bindS_Inr_iff)
    qed
    then show ?thesis using r Some by (simp add: roll_position_def position_qty_def)
  qed
  then show ?thesis using True by (auto simp: fun_eq_iff)
next
  case False
  obtain b1 b2 where n: "n = position_qty b front"
    and l1: "apply_fill_to_position front (if n > 0 then SELL else BUY) \<bar>n\<bar> ff True b = (Inr (), b1)"
    and l2: "apply_fill_to_position bk (if n > 0 then BUY else SELL) \<bar>n\<bar> bf True b1 = (Inr (), b2)"
    and b': "b' = (let b3 = b2\<lparr>mb_open_trade_pnl := AList.delete front (mb_open_trade_pnl b2)\<rparr>
           in if open_pnl b2 front \<noteq> 0
              then b3\<lparr>mb_open_trade_pnl := AList.update bk (dadd (open_pnl b3 bk) (open_pnl b2 front)) (mb_open_trade_pnl b3)\<rparr>
              else b3)"
    using roll_position_Inr [OF r False] .
  have "position_qty b' = position_qty b2" using roll_books_frame(1) [OF b'] by (simp add: position_qty_def fun_eq_iff)
  then show ?thesis
    using apply_fill_qty [OF l1] apply_fill_qty [OF l2] n False assms(2) by (auto simp: fun_eq_iff)
qed

lemma roll_marked:
  assumes r: "roll_position front bk ff bf b = (Inr n, b')" and ne: "front \<noteq> bk" "n \<noteq> 0" and inv: "books_inv b"
    and prices: "0 < ff" "0 < bf" and m: "multiplier_for front = Inr mf" "multiplier_for bk = Inr mk"
    and ex: "roll_exact b front bk ff bf"
  shows "\<bar>(mb_realized_pnl_today b' + open_value b' front ff mf + open_value b' bk bf mk)
          - (mb_realized_pnl_today b + open_value b front ff mf + open_value b bk bf mk)\<bar> \<le> rounding_slack b bk n bf mk"
proof -
  obtain b1 b2 where n: "n = position_qty b front"
    and l1: "apply_fill_to_position front (if n > 0 then SELL else BUY) \<bar>n\<bar> ff True b = (Inr (), b1)"
    and l2: "apply_fill_to_position bk (if n > 0 then BUY else SELL) \<bar>n\<bar> bf True b1 = (Inr (), b2)"
    and b': "b' = (let b3 = b2\<lparr>mb_open_trade_pnl := AList.delete front (mb_open_trade_pnl b2)\<rparr>
           in if open_pnl b2 front \<noteq> 0
              then b3\<lparr>mb_open_trade_pnl := AList.update bk (dadd (open_pnl b3 bk) (open_pnl b2 front)) (mb_open_trade_pnl b3)\<rparr>
              else b3)"
    using roll_position_Inr [OF r ne(2)] .
  have ex: "fill_exact b front (- n) ff" "fill_exact b1 bk n bf" using ex n l1 by (simp_all add: roll_exact_def Let_def)
  have slack0: "rounding_slack b front (- n) ff mf = 0"
    using n ne(2) by (auto simp: rounding_slack_def position_qty_def same_direction_def split: option.splits)
  have 1: "mb_realized_pnl_today b1 + open_value b1 front ff mf = mb_realized_pnl_today b + open_value b front ff mf"
    using apply_fill_marked [OF l1 inv _ prices(1) m(1)] ex(1) ne(2) slack0 by simp
  have inv1: "books_inv b1" using apply_fill_books [OF l1 inv] ne(2) by simp
  have 2: "\<bar>(mb_realized_pnl_today b2 + open_value b2 bk bf mk) - (mb_realized_pnl_today b1 + open_value b1 bk bf mk)\<bar>
             \<le> rounding_slack b1 bk n bf mk"
    using apply_fill_marked [OF l2 inv1 _ prices(2) m(2)] ex(2) ne(2) by simp
  have "open_value b1 bk bf mk = open_value b bk bf mk" "rounding_slack b1 bk n bf mk = rounding_slack b bk n bf mk"
    "open_value b2 front ff mf = open_value b1 front ff mf"
    using apply_fill_other [OF l1 ne(1) [symmetric]] apply_fill_other [OF l2 ne(1)]
    by (simp_all add: open_value_def rounding_slack_def)
  moreover have "open_value b' c x k = open_value b2 c x k" for c x k using roll_books_frame(1) [OF b'] by (simp add: open_value_def)
  ultimately show ?thesis using 1 2 roll_books_frame(2) [OF b'] by (simp add: algebra_simps)
qed

section \<open>The per-trade ledger\<close>

lemma sum_update:
  "distinct (map fst d) \<Longrightarrow>
     sum_list (map snd (AList.update k v d)) = sum_list (map snd d) - (case map_of d k of Some x \<Rightarrow> x | None \<Rightarrow> 0) + (v :: rat)"
proof (induction d)
  case (Cons kv d)
  then show ?case by (cases kv) (auto simp: map_of_eq_None_iff split: option.splits)
qed simp

lemma delete_absent: "k \<notin> fst ` set d \<Longrightarrow> AList.delete k d = d"
  by (induction d) auto

lemma sum_delete:
  "distinct (map fst d) \<Longrightarrow>
     sum_list (map snd (AList.delete k d)) = sum_list (map snd d) - (case map_of d k of Some x \<Rightarrow> x | None \<Rightarrow> (0 :: rat))"
proof (induction d)
  case (Cons kv d)
  obtain k' v where kv: "kv = (k', v)" by fastforce
  show ?case
  proof (cases "k' = k")
    case True
    then have "AList.delete k d = d" using Cons.prems kv by (intro delete_absent) simp
    then show ?thesis using True kv by simp
  next
    case False
    then show ?thesis using Cons kv by simp
  qed
qed simp

definition ledger_gap :: "MockBroker \<Rightarrow> rat" where
  "ledger_gap b =
     mb_realized_pnl_today b - sum_list (mb_trade_pnls b) - sum_list (map snd (mb_open_trade_pnl b))"

lemma ledger_gap_books: "same_books b b' \<Longrightarrow> ledger_gap b' = ledger_gap b"
  by (simp add: ledger_gap_def same_books_def)

lemma ledger_gap_set_position: "set_position c p b = (r, b') \<Longrightarrow> ledger_gap b' = ledger_gap b"
  by (auto simp: ledger_gap_def dest!: set_position_frame)

lemma ledger_gap_book_trade: "distinct (map fst (mb_open_trade_pnl b)) \<Longrightarrow> ledger_gap (book_trade c b) = ledger_gap b"
  by (simp add: ledger_gap_def book_trade_def sum_delete open_pnl_def)

lemma ledger_gap_accrue:
  assumes "close_exact b c p0 x (of_int cq) m" "distinct (map fst (mb_open_trade_pnl b))"
  shows "ledger_gap (accrue c (realized_delta p0 cq x m) b) = ledger_gap b"
proof -
  have t: "mb_trade_pnls (accrue c rd b) = mb_trade_pnls b"
    "mb_open_trade_pnl (accrue c rd b) = AList.update c (dadd (open_pnl b c) rd) (mb_open_trade_pnl b)" for rd
    by (simp_all add: accrue_def)
  show ?thesis
    unfolding ledger_gap_def t accrue_exact [OF assms(1)] sum_update [OF assms(2)]
    by (simp add: open_pnl_def)
qed

lemma apply_fill_ledger:
  assumes f: "apply_fill_to_position c side q x roll b = (Inr u, b')" and inv: "books_inv b"
    and ex: "fill_exact b c (signed_qty side q) x"
  shows "ledger_gap b' = ledger_gap b"
proof (cases "map_of (mb_positions b) c")
  case None
  then show ?thesis using f by (auto simp: apply_fill_to_position_def open_fill_def dest: ledger_gap_set_position)
next
  case (Some p0)
  have d: "distinct (map fst (mb_open_trade_pnl b))" using inv by (simp add: books_inv_def)
  show ?thesis
  proof (cases "p_quantity p0 \<noteq> 0 \<and> \<not> same_direction (p_quantity p0) (signed_qty side q)")
    case True
    then have cf: "close_fill c p0 (signed_qty side q) x roll b = (Inr u, b')"
      using Some f unfolding apply_fill_to_position_def Let_def same_direction_def by (auto split: if_splits)
    then obtain m where m: "multiplier_for c = Inr m"
      by (cases "multiplier_for c") (simp_all add: close_fill_def)
    let ?rd = "realized_delta p0 (min \<bar>p_quantity p0\<bar> \<bar>signed_qty side q\<bar>) x m"
    have ce: "close_exact b c p0 x (of_int (min \<bar>p_quantity p0\<bar> \<bar>signed_qty side q\<bar>)) m"
      using ex Some True m by (simp add: fill_exact_def)
    have a: "ledger_gap (accrue c ?rd b) = ledger_gap b" "ledger_gap (book_trade c (accrue c ?rd b)) = ledger_gap b"
      using ledger_gap_accrue [OF ce d] ledger_gap_book_trade [of "accrue c ?rd b" c] d by simp_all
    from cf m show ?thesis
    proof (cases rule: close_fill_cases)
      case (flat p)
      then show ?thesis using ledger_gap_set_position [OF flat(3)] a by presburger
    next
      case (flip p)
      then show ?thesis using ledger_gap_set_position [OF flip(5)] a by presburger
    next
      case (part p)
      then show ?thesis using ledger_gap_set_position [OF part(5)] a by presburger
    qed
  next
    case False
    then show ?thesis using Some f unfolding apply_fill_to_position_def Let_def same_direction_def
      by (auto simp: open_fill_def increase_fill_def Let_def dest!: ledger_gap_set_position split: if_splits sum.splits)
  qed
qed

lemma roll_ledger:
  assumes r: "roll_position front bk ff bf b = (Inr n, b')" and ne: "front \<noteq> bk" and inv: "books_inv b"
    and ex: "roll_exact b front bk ff bf"
  shows "ledger_gap b' = ledger_gap b"
proof (cases "n = 0")
  case True
  then show ?thesis using r roll_moves_position [OF r ne]
    by (cases "map_of (mb_positions b) front") (auto simp: roll_position_def position_qty_def)
next
  case False
  obtain b1 b2 where n: "n = position_qty b front"
    and l1: "apply_fill_to_position front (if n > 0 then SELL else BUY) \<bar>n\<bar> ff True b = (Inr (), b1)"
    and l2: "apply_fill_to_position bk (if n > 0 then BUY else SELL) \<bar>n\<bar> bf True b1 = (Inr (), b2)"
    and b': "b' = (let b3 = b2\<lparr>mb_open_trade_pnl := AList.delete front (mb_open_trade_pnl b2)\<rparr>
           in if open_pnl b2 front \<noteq> 0
              then b3\<lparr>mb_open_trade_pnl := AList.update bk (dadd (open_pnl b3 bk) (open_pnl b2 front)) (mb_open_trade_pnl b3)\<rparr>
              else b3)"
    using roll_position_Inr [OF r False] .
  have ex: "fill_exact b front (- n) ff" "fill_exact b1 bk n bf" "drepr (open_pnl b2 bk + open_pnl b2 front)"
    using ex n l1 l2 by (simp_all add: roll_exact_def Let_def)
  have inv1: "books_inv b1" using apply_fill_books [OF l1 inv] False by simp
  have inv2: "books_inv b2" using apply_fill_books [OF l2 inv1] False by simp
  then have d: "distinct (map fst (mb_open_trade_pnl b2))" by (simp add: books_inv_def)
  define b3 where "b3 = b2\<lparr>mb_open_trade_pnl := AList.delete front (mb_open_trade_pnl b2)\<rparr>"
  have o3: "open_pnl b3 bk = open_pnl b2 bk" using ne by (simp add: b3_def open_pnl_def)
  have d3: "distinct (map fst (mb_open_trade_pnl b3))" using d by (simp add: b3_def distinct_delete)
  have g3: "ledger_gap b3 = ledger_gap b2 + open_pnl b2 front" by (simp add: ledger_gap_def b3_def sum_delete [OF d] open_pnl_def)
  have b'3: "b' = (if open_pnl b2 front \<noteq> 0
      then b3\<lparr>mb_open_trade_pnl := AList.update bk (dadd (open_pnl b3 bk) (open_pnl b2 front)) (mb_open_trade_pnl b3)\<rparr> else b3)"
    using b' by (simp add: Let_def b3_def)
  have "ledger_gap (b3\<lparr>mb_open_trade_pnl := AList.update bk (dadd (open_pnl b3 bk) (open_pnl b2 front)) (mb_open_trade_pnl b3)\<rparr>)
      = ledger_gap b3 - open_pnl b2 front"
    using ex(3) unfolding o3 op_exact(1) [OF ex(3)] by (simp add: ledger_gap_def sum_update [OF d3] open_pnl_def [of b3] o3 [symmetric])
  then have "ledger_gap b' = ledger_gap b2" using b'3 g3 by (auto split: if_splits)
  then show ?thesis using apply_fill_ledger [OF l1 inv] apply_fill_ledger [OF l2 inv1] ex(1,2) False by simp
qed

lemma place_order_books: "same_books b (snd (place_order ord b))"
proof -
  have r: "same_books b (registered ord b)" by (simp add: registered_def Let_def same_books_def)
  have e: "same_books b (snd (emit_event oid cid c t fp fq cum rem b'))" if "same_books b b'" for oid cid c t fp fq cum rem b'
    using that emit_event_frame [of oid cid c t fp fq cum rem b'] same_trans(2) by (metis prod.collapse)
  show ?thesis unfolding place_order_alt Let_def
    by (auto intro!: bindS_state [where P = "same_books b"] e r)
qed

lemma cancel_order_books: "same_books b (snd (cancel_order oid b))"
  by (auto simp: cancel_order_def Let_def same_books_def bindS_def dest!: emit_event_frame split: option.splits sum.splits prod.splits)

lemma modify_order_books: "same_books b (snd (modify_order oid nl ns nq b))"
  by (auto simp: modify_order_def Let_def same_books_def bindS_def dest!: emit_event_frame split: option.splits sum.splits prod.splits)

end
