(* ===== verification/Broker_Properties.thy ===== *)
theory Broker_Properties
  imports Broker_Ledger
begin

text \<open>
  The guarantees of \<open>MockBroker\<close> a strategy or an engine relies on: fresh identifiers, fills that succeed
  exactly when they should and have the effect they announce, positions equal to the fills of the event
  log, equity that neither a fill nor a roll moves, a complete per-trade ledger, and auto-fill prices that
  respect the bar and the order.
\<close>

section \<open>Totality of the methods\<close>

lemma update_fresh: "k \<notin> fst ` set d \<Longrightarrow> AList.update k v d = d @ [(k, v)]"
  by (induction d) auto

lemma place_order_ok:
  assumes inv: "broker_inv b" and utc: "utc_clock b" and ord: "order_ok ord"
    and sup: "o_order_type ord \<in> set (supported_order_types b)"
  shows "\<exists>b' e1 e2. place_order ord b = (Inr (order_id (Suc (mb_next_order_id_seq b))), b') \<and>
           mb_orders b' = mb_orders b @ [(order_id (Suc (mb_next_order_id_seq b)), ord)] \<and>
           mb_filled_qty b' = mb_filled_qty b @ [(order_id (Suc (mb_next_order_id_seq b)), 0)] \<and>
           mb_cancelled b' = mb_cancelled b \<and> mb_next_order_id_seq b' = Suc (mb_next_order_id_seq b) \<and>
           mb_events b' = mb_events b @ [e1, e2] \<and> oe_event_type e1 = submitted \<and> oe_event_type e2 = ack \<and>
           same_books b b' \<and> same_config b b'"
proof -
  let ?n = "Suc (mb_next_order_id_seq b)"
  have oi: "orders_inv b" using inv by (simp add: broker_inv_def)
  have fresh: "order_id ?n \<notin> fst ` set (mb_orders b)" "order_id ?n \<notin> fst ` set (mb_filled_qty b)"
    using order_keys [OF oi] fresh_order_id by (metis set_map)+
  have q: "0 \<le> o_quantity ord" using ord by (simp add: order_ok_def Order_post_init_def res_simps)
  have reg: "mb_orders (registered ord b) = mb_orders b @ [(order_id ?n, ord)]"
    "mb_filled_qty (registered ord b) = mb_filled_qty b @ [(order_id ?n, 0)]"
    "mb_cancelled (registered ord b) = mb_cancelled b" "mb_next_order_id_seq (registered ord b) = ?n"
    "mb_events (registered ord b) = mb_events b" "same_books b (registered ord b)" "same_config b (registered ord b)"
    by (simp_all add: registered_def Let_def update_fresh [OF fresh(1)] update_fresh [OF fresh(2)] same_books_def same_config_def)
  define emit where "emit = (\<lambda>t. emit_event (order_id ?n) (client_id_or ord (''anon-'' @ zpad 6 ?n)) (o_contract ord) t None None 0 (o_quantity ord))"
  have utc': "dt_is_utc (mb_clock s k)" if "same_config b s" for s k using utc that by (simp add: utc_clock_def same_config_def)
  obtain e1 b2 where e1: "emit submitted (registered ord b) = (Inr e1, b2)"
    using emit_event_total [of "registered ord b" 0 "o_quantity ord" None] utc' [OF reg(7)] q unfolding emit_def by fastforce
  note f1 = emit_event_frame [OF e1 [unfolded emit_def]] and v1 = emit_event_events [OF e1 [unfolded emit_def]]
  have c2: "same_config b b2" using f1 reg(7) same_trans(3) by blast
  obtain e2 b3 where e2: "emit ack b2 = (Inr e2, b3)"
    using emit_event_total [of b2 0 "o_quantity ord" None] utc' [OF c2] q unfolding emit_def by fastforce
  note f2 = emit_event_frame [OF e2 [unfolded emit_def]] and v2 = emit_event_events [OF e2 [unfolded emit_def]]
  have "place_order ord b = (Inr (order_id ?n), b3)"
    using sup e1 e2 by (simp add: place_order_alt Let_def emit_def)
  moreover have "same_books b b3" "same_config b b3" using f1 f2 reg c2 same_trans by blast+
  ultimately show ?thesis using f1 f2 v1 v2 reg by (auto simp: same_orders_def)
qed

lemma set_position_total:
  "0 \<le> p_margin_used p \<Longrightarrow> (p_quantity p \<noteq> 0 \<Longrightarrow> 0 < p_avg_entry_price p) \<Longrightarrow> \<exists>b'. set_position c p b = (Inr (), b')"
  using Position_post_init_iff [of p] by (auto simp: set_position_def)

lemma apply_fill_total:
  assumes inv: "books_inv b" and pos: "0 < q" "0 < x" and m: "multiplier_for c = Inr m"
  shows "\<exists>b'. apply_fill_to_position c side q x roll b = (Inr (), b')"
proof (cases "map_of (mb_positions b) c")
  case None
  then show ?thesis using pos by (auto simp: apply_fill_to_position_def open_fill_def intro!: set_position_total)
next
  case (Some p0)
  have p0: "p_margin_used p0 = 0" "p_quantity p0 \<noteq> 0 \<Longrightarrow> 0 < p_avg_entry_price p0"
    using inv map_of_SomeD [OF Some] by (auto simp: books_inv_def positions_ok_def position_ok_def)
  show ?thesis
  proof (cases "p_quantity p0 = 0")
    case True
    then show ?thesis using Some pos by (auto simp: apply_fill_to_position_def open_fill_def intro!: set_position_total)
  next
    case False
    note avg = p0(2) [OF False]
    show ?thesis
    proof (cases "same_direction (p_quantity p0) (signed_qty side q)")
      case True
      let ?S = "dadd (dmul (p_avg_entry_price p0) (dint \<bar>p_quantity p0\<bar>)) (dmul x (dint \<bar>signed_qty side q\<bar>))"
      have n: "0 < dint \<bar>p_quantity p0\<bar>" "0 < dint \<bar>signed_qty side q\<bar>" "0 < dint \<bar>p_quantity p0 + signed_qty side q\<bar>"
        using True by (auto simp: dint_def same_direction_def)
      have "0 < ?S" using dmul_sign(2) avg pos n by (simp add: dadd_def dec28.rnd_pos add_pos_pos)
      then have "0 < dround (?S / dint \<bar>p_quantity p0 + signed_qty side q\<bar>)" using n by (simp add: dec28.rnd_pos)
      then have "\<exists>b'. increase_fill c p0 (signed_qty side q) x b = (Inr (), b')"
        using n p0(1) by (auto simp: increase_fill_def Let_def ddiv_Inr intro!: set_position_total)
      then show ?thesis using Some False True by (simp add: apply_fill_to_position_def same_direction_def)
    next
      case dir: False
      have "\<exists>b'. close_fill c p0 (signed_qty side q) x roll b = (Inr (), b')"
        using m p0(1) avg pos by (auto simp: close_fill_def Let_def intro!: set_position_total)
      then show ?thesis using Some False dir unfolding apply_fill_to_position_def same_direction_def Let_def by auto
    qed
  qed
qed

lemma fill_order_ok:
  assumes inv: "broker_inv b" and utc: "utc_clock b" and ord: "map_of (mb_orders b) oid = Some ord"
    and open_: "oid \<notin> mb_cancelled b" and al: "map_of (mb_filled_qty b) oid = Some already"
    and q: "q = (case fq of Some n \<Rightarrow> n | None \<Rightarrow> o_quantity ord - already)" "0 < q" "q \<le> o_quantity ord - already"
    and x: "0 < x" and m: "multiplier_for (o_contract ord) = Inr m"
  shows "\<exists>ev b'. fill_order oid x fq b = (Inr ev, b') \<and>
           position_qty b' = (position_qty b)(o_contract ord := position_qty b (o_contract ord) + signed_qty (o_side ord) q) \<and>
           mb_filled_qty b' = AList.update oid (already + q) (mb_filled_qty b) \<and>
           mb_orders b' = mb_orders b \<and> mb_cancelled b' = mb_cancelled b \<and> mb_events b' = mb_events b @ [ev] \<and>
           oe_broker_order_id ev = oid \<and> oe_fill_price ev = Some x \<and> oe_fill_quantity ev = Some q \<and>
           oe_event_type ev = (if already + q = o_quantity ord then filled else partial_fill) \<and> same_config b b'"
proof -
  define b1 where "b1 = b\<lparr>mb_filled_qty := AList.update oid (already + q) (mb_filled_qty b)\<rparr>"
  have al0: "0 \<le> already" using filled_update_inv(2) [OF inv al, of 0] by simp
  have "books_inv b1" using inv by (simp add: b1_def broker_inv_def books_inv_def)
  then obtain b2 where a: "apply_fill_to_position (o_contract ord) (o_side ord) q x False b1 = (Inr (), b2)"
    using apply_fill_total q x m by blast
  note fr = apply_fill_frame [OF a]
  have clock: "dt_is_utc (mb_clock b2 (mb_reads b2))" using utc fr by (simp add: utc_clock_def same_config_def b1_def)
  obtain ev b' where e: "emit_event oid (client_id_or ord ''anon'') (o_contract ord)
       (if o_quantity ord - (already + q) = 0 then filled else partial_fill)
       (Some x) (Some q) (already + q) (o_quantity ord - (already + q)) b2 = (Inr ev, b')"
    using emit_event_total [OF clock, of "already + q" "o_quantity ord - (already + q)" "Some q"] al0 q by fastforce
  note fe = emit_event_frame [OF e] and ve = emit_event_events [OF e]
  have "fill_order oid x fq b = (Inr ev, b')"
  proof -
    have c: "\<not> o_quantity ord - already \<le> 0" "\<not> q \<le> 0" "\<not> q > o_quantity ord - already" "\<not> x \<le> 0" using q x by auto
    show ?thesis
      unfolding fill_order_def Let_def ord al option.case q(1) [symmetric] b1_def [symmetric]
        if_not_P [OF open_] if_not_P [OF c(4)] if_not_P [OF c(1)] if_not_P [OF c(2)] if_not_P [OF c(3)]
      by (simp only: a e bindS_simps)
  qed
  moreover have "position_qty b' = position_qty b2" "position_qty b1 = position_qty b"
    using fe by (auto simp: position_qty_def fun_eq_iff same_books_def b1_def)
  moreover have "same_config b b'"
    using fr fe by (simp add: same_config_def b1_def)
  moreover have "mb_filled_qty b' = AList.update oid (already + q) (mb_filled_qty b)" "mb_orders b' = mb_orders b"
    "mb_cancelled b' = mb_cancelled b" "mb_events b' = mb_events b @ [ev]"
    using fr fe ve by (simp_all add: same_orders_def same_events_def b1_def)
  moreover have "oe_event_type ev = (if already + q = o_quantity ord then filled else partial_fill)"
    using ve by auto
  ultimately show ?thesis using apply_fill_qty [OF a] ve by auto
qed

section \<open>A worked session\<close>

definition noon_clock :: "nat \<Rightarrow> datetime" where
  "noon_clock n = \<lparr>dt_local = 63849643200000000 + int n, dt_off = Some 0\<rparr>"

definition session0 :: MockBroker where
  "session0 =
     \<lparr>mb_starting_equity = 50000, mb_account_id = ''A'', mb_block_all_trades = False,
      mb_restrict_supported_to = None, mb_clock = noon_clock, mb_reads = 0, mb_dec_str = (\<lambda>_. ''''),
      mb_orders = [], mb_cancelled = {}, mb_filled_qty = [], mb_events = [], mb_positions = [],
      mb_realized_pnl_today = 0, mb_trade_pnls = [], mb_open_trade_pnl = [], mb_next_order_id_seq = 0\<rparr>"

definition buy2 :: Order where
  "buy2 = \<lparr>o_contract = ''ESM26'', o_side = BUY, o_quantity = 2, o_order_type = MKT, o_limit_price = None,
           o_stop_price = None, o_duration = DAY, o_parent_order_id = None, o_oco_group_id = None,
           o_client_order_id = None\<rparr>"

definition session1 :: MockBroker where
  "session1 = snd (place_order buy2 session0)"

lemma session0_init: "MockBroker_init 50000 ''A'' False None noon_clock (\<lambda>_. '''') = Inr session0"
  by (simp add: MockBroker_init_def session0_def)

lemma session0_inv: "broker_inv session0" "utc_clock session0"
  using MockBroker_init_inv [OF session0_init] by (simp_all add: utc_clock_def session0_def noon_clock_def dt_is_utc_def)

lemma buy2_ok: "order_ok buy2"
  by (simp add: order_ok_def buy2_def Order_post_init_def requires_limit_def requires_stop_def)

lemma es_multiplier: "multiplier_for ''ESM26'' = Inr 50" "multiplier_for ''ESU26'' = Inr 50"
  by (simp_all add: multiplier_for_def contract_root_def RISK_SYMBOL_SUFFIX_LEN_def lookup_root_def CONTRACT_MULTIPLIER_def)

lemma session1_place:
  "place_order buy2 session0 = (Inr (order_id 1), session1)" "mb_orders session1 = [(order_id 1, buy2)]"
  "mb_filled_qty session1 = [(order_id 1, 0)]" "mb_cancelled session1 = {}" "mb_positions session1 = []"
  "mb_realized_pnl_today session1 = 0" "utc_clock session1" "broker_inv session1" "mb_restrict_supported_to session1 = None"
proof -
  have "o_order_type buy2 \<in> set (supported_order_types session0)" by (simp add: supported_order_types_def session0_def)
  from place_order_ok [OF session0_inv buy2_ok this] obtain b' e1 e2 where
    b': "place_order buy2 session0 = (Inr (order_id (Suc 0)), b')" "mb_orders b' = [(order_id (Suc 0), buy2)]"
      "mb_filled_qty b' = [(order_id (Suc 0), 0)]" "mb_cancelled b' = {}" "same_books session0 b'" "same_config session0 b'"
    by (auto simp: session0_def)
  then have "b' = session1" by (simp add: session1_def)
  with b' session0_inv(2) show "place_order buy2 session0 = (Inr (order_id 1), session1)" "mb_orders session1 = [(order_id 1, buy2)]"
    "mb_filled_qty session1 = [(order_id 1, 0)]" "mb_cancelled session1 = {}" "mb_positions session1 = []"
    "mb_realized_pnl_today session1 = 0" "utc_clock session1" "mb_restrict_supported_to session1 = None"
    by (auto simp: same_defs session0_def utc_clock_def)
  show "broker_inv session1" using place_order_inv [OF session0_inv(1) buy2_ok] by (simp add: session1_def)
qed

definition session2 :: MockBroker where
  "session2 = snd (fill_order (order_id 1) 5000 None session1)"

lemma session2_fill:
  "\<exists>ev. fill_order (order_id 1) 5000 None session1 = (Inr ev, session2) \<and> oe_fill_quantity ev = Some 2"
  "position_qty session2 ''ESM26'' = 2" "utc_clock session2" "broker_inv session2"
proof -
  have "\<exists>ev b'. fill_order (order_id 1) 5000 None session1 = (Inr ev, b') \<and>
      position_qty b' = (position_qty session1)(''ESM26'' := position_qty session1 ''ESM26'' + signed_qty BUY 2) \<and>
      oe_fill_quantity ev = Some 2 \<and> same_config session1 b'"
    using fill_order_ok [of session1 "order_id 1" buy2 0 2 None 5000 50] session1_place es_multiplier(1)
    by (fastforce simp: buy2_def)
  then obtain ev b' where b': "fill_order (order_id 1) 5000 None session1 = (Inr ev, b')"
    "position_qty b' ''ESM26'' = 2" "oe_fill_quantity ev = Some 2" "same_config session1 b'"
    using session1_place(5) by (auto simp: position_qty_def [of session1] signed_qty_def)
  then have "b' = session2" by (simp add: session2_def)
  with b' session1_place(7) show "\<exists>ev. fill_order (order_id 1) 5000 None session1 = (Inr ev, session2) \<and> oe_fill_quantity ev = Some 2"
    "position_qty session2 ''ESM26'' = 2" "utc_clock session2"
    by (auto simp: same_config_def utc_clock_def)
  show "broker_inv session2" using fill_order_inv [OF session1_place(8)] by (simp add: session2_def)
qed

section \<open>Properties\<close>

text \<open>
  C1. Representation invariant: in every state reachable from a constructed broker by any sequence of
  method calls, including calls that raise, order identifiers are exactly the first \<open>n\<close> of the sequence,
  every order has passed its checks and has a non-negative fill count, only known orders are cancelled,
  positions are well-formed and keyed by their contract, a flat position has price zero and an open one a
  positive price, and every event is valid.
\<close>

theorem reachable_broker_inv:
  assumes "reachable b"
  shows "broker_inv b"
  using assms by (rule reachable_inv)

lemma session_reachable: "reachable session1" "reachable session2"
proof -
  have "reachable session0" using session0_init by (rule reachable.init)
  then show r1: "reachable session1" unfolding session1_def
    by (rule reachable.step) (intro broker_step.trade trade_step.place buy2_ok)
  show "reachable session2" unfolding session2_def
    by (rule reachable.step [OF r1]) (intro broker_step.trade trade_step.fill)
qed

theorem reachable_broker_inv_witness: "broker_inv session2 \<and> position_qty session2 ''ESM26'' = 2"
  using reachable_broker_inv [OF session_reachable(2)] session2_fill(2) by simp

text \<open>
  Order placement: with a UTC clock, a valid order of a supported type is always accepted under an
  identifier that was never used before, with nothing filled; no other order, position or profit changes,
  and exactly the two events \<open>submitted\<close> and \<open>ack\<close> are logged.
\<close>

theorem place_order_fresh:
  assumes "reachable b" "utc_clock b" "order_ok ord" "o_order_type ord \<in> set (supported_order_types b)"
  shows "\<exists>oid b' e1 e2. place_order ord b = (Inr oid, b') \<and> oid \<notin> fst ` set (mb_orders b) \<and>
           mb_orders b' = mb_orders b @ [(oid, ord)] \<and> mb_filled_qty b' = mb_filled_qty b @ [(oid, 0)] \<and>
           mb_cancelled b' = mb_cancelled b \<and> same_books b b' \<and>
           mb_events b' = mb_events b @ [e1, e2] \<and> oe_event_type e1 = submitted \<and> oe_event_type e2 = ack"
proof -
  have inv: "broker_inv b" using assms(1) by (rule reachable_inv)
  have "order_id (Suc (mb_next_order_id_seq b)) \<notin> fst ` set (mb_orders b)"
    using inv order_keys(1) [of b] fresh_order_id by (metis broker_inv_def set_map)
  then show ?thesis using place_order_ok [OF inv assms(2-4)] by blast
qed

theorem place_order_fresh_witness:
  "\<exists>oid b'. place_order buy2 session1 = (Inr oid, b') \<and> oid \<notin> fst ` set (mb_orders session1)"
proof -
  have "o_order_type buy2 \<in> set (supported_order_types session1)"
    using session1_place(9) by (simp add: supported_order_types_def)
  from place_order_fresh [OF session_reachable(1) session1_place(7) buy2_ok this] show ?thesis by blast
qed

text \<open>
  Fills succeed exactly when they should: for a live order of a configured contract, a positive price
  and a quantity within the unfilled remainder (all of it by default), \<open>fill_order\<close> returns, moves the
  position in that contract by the signed quantity and no other, advances the order's fill count, and logs
  one event that says \<open>filled\<close> if and only if nothing remains.
\<close>

theorem fill_order_effect:
  assumes "reachable b" "utc_clock b" "map_of (mb_orders b) oid = Some ord" "oid \<notin> mb_cancelled b"
    and "map_of (mb_filled_qty b) oid = Some already"
    and "q = (case fq of Some n \<Rightarrow> n | None \<Rightarrow> o_quantity ord - already)" "0 < q" "q \<le> o_quantity ord - already"
    and "0 < x" "multiplier_for (o_contract ord) = Inr m"
  shows "\<exists>ev b'. fill_order oid x fq b = (Inr ev, b') \<and>
           position_qty b' = (position_qty b)(o_contract ord := position_qty b (o_contract ord) + signed_qty (o_side ord) q) \<and>
           map_of (mb_filled_qty b') = (map_of (mb_filled_qty b))(oid \<mapsto> already + q) \<and>
           mb_orders b' = mb_orders b \<and> mb_events b' = mb_events b @ [ev] \<and>
           oe_fill_price ev = Some x \<and> oe_fill_quantity ev = Some q \<and>
           oe_event_type ev = (if already + q = o_quantity ord then filled else partial_fill)"
proof -
  obtain ev b' where f: "fill_order oid x fq b = (Inr ev, b')"
    "position_qty b' = (position_qty b)(o_contract ord := position_qty b (o_contract ord) + signed_qty (o_side ord) q)"
    "mb_filled_qty b' = AList.update oid (already + q) (mb_filled_qty b)"
    "mb_orders b' = mb_orders b" "mb_events b' = mb_events b @ [ev]"
    "oe_fill_price ev = Some x" "oe_fill_quantity ev = Some q"
    "oe_event_type ev = (if already + q = o_quantity ord then filled else partial_fill)"
    using fill_order_ok [OF reachable_inv [OF assms(1)] assms(2-)] by blast
  have "map_of (mb_filled_qty b') = (map_of (mb_filled_qty b))(oid \<mapsto> already + q)" by (simp add: f(3))
  then show ?thesis using f by blast
qed

theorem fill_order_effect_witness:
  "\<exists>ev b'. fill_order (order_id 1) 5000 (Some 1) session1 = (Inr ev, b') \<and> position_qty b' ''ESM26'' = 1
     \<and> oe_event_type ev = partial_fill"
  using fill_order_effect [OF session_reachable(1) session1_place(7), of "order_id 1" buy2 0 1 "Some 1" 5000 50]
    session1_place es_multiplier
  by (auto simp: buy2_def signed_qty_def position_qty_def [of session1])

text \<open>
  C2. The event log is the truth: as long as no roll is made, after any sequence of method calls (failing
  ones included) under a UTC clock, the position in each contract is the sum of the signed quantities of
  its fill events, each with the side of the order it belongs to.
\<close>

theorem positions_are_fills:
  assumes "MockBroker_init equity account block restrict clock dec_str = Inr b0" "\<forall>n. dt_is_utc (clock n)"
    and "trade_step\<^sup>*\<^sup>* b0 b"
  shows "position_qty b c = net_fills b c"
proof -
  have "log_inv b0"
    using assms(1,2) MockBroker_init_inv [OF assms(1)]
    by (auto simp: log_inv_def utc_clock_def MockBroker_init_def res_simps position_qty_def net_fills_def)
  with assms(3) have "log_inv b" by (induction rule: rtranclp_induct) (auto intro: trade_step_log)
  then show ?thesis by (simp add: log_inv_def)
qed

theorem positions_are_fills_witness:
  "position_qty session2 ''ESM26'' = net_fills session2 ''ESM26'' \<and> position_qty session2 ''ESM26'' = 2"
proof -
  have "trade_step session0 session1" unfolding session1_def by (intro trade_step.place buy2_ok)
  moreover have "trade_step session1 session2" unfolding session2_def by (rule trade_step.fill)
  ultimately have "trade_step\<^sup>*\<^sup>* session0 session2" by auto
  from positions_are_fills [OF session0_init _ this] show ?thesis
    using session2_fill(2) by (simp add: noon_clock_def dt_is_utc_def)
qed



text \<open>The session continued: the long position is rolled from June to September at 5010 against 5030.\<close>

definition es_long :: Position where
  "es_long = \<lparr>p_contract = ''ESM26'', p_quantity = 2, p_avg_entry_price = 5000, p_unrealized_pnl = 0,
              p_realized_pnl_today = 0, p_margin_used = 0\<rparr>"

lemma session2_books:
  "mb_positions session2 = [(''ESM26'', es_long)]" "mb_open_trade_pnl session2 = []" "mb_realized_pnl_today session2 = 0"
proof -
  obtain ev where ev: "fill_order (order_id 1) 5000 None session1 = (Inr ev, session2)" using session2_fill(1) by blast
  have open0: "mb_open_trade_pnl session1 = []"
    using place_order_books [of session0 buy2] session1_place(1) by (simp add: same_books_def session1_def session0_def)
  obtain b1 b2 where a: "apply_fill_to_position ''ESM26'' BUY 2 5000 False b1 = (Inr (), b2)" and b1: "same_books session1 b1"
    and e: "same_books b2 session2"
    using fill_order_Inr [OF ev] session1_place(2,3) emit_event_frame by (fastforce simp: buy2_def same_books_def)
  show "mb_positions session2 = [(''ESM26'', es_long)]" "mb_open_trade_pnl session2 = []" "mb_realized_pnl_today session2 = 0"
    using a b1 e open0 session1_place(5,6)
    by (auto simp: apply_fill_to_position_def open_fill_def set_position_def Position_post_init_def signed_qty_def
          same_books_def es_long_def)
qed

lemma es_roll_delta: "realized_delta es_long 2 5010 50 = 1000"
  by (simp add: realized_delta_def es_long_def dint_def dec_exact)

definition rolled1 :: MockBroker where
  "rolled1 = snd (apply_fill_to_position ''ESM26'' SELL 2 5010 True session2)"

definition rolled2 :: MockBroker where
  "rolled2 = snd (apply_fill_to_position ''ESU26'' BUY 2 5030 True rolled1)"

lemma rolled1_facts:
  "apply_fill_to_position ''ESM26'' SELL 2 5010 True session2 = (Inr (), rolled1)"
  "map_of (mb_positions rolled1) ''ESU26'' = None" "mb_open_trade_pnl rolled1 = [(''ESM26'', 1000)]"
  using session2_books es_roll_delta es_multiplier
  by (simp_all add: rolled1_def apply_fill_to_position_def close_fill_def set_position_def Position_post_init_def
        signed_qty_def accrue_def open_pnl_def es_long_def dec_exact)

lemma rolled2_facts:
  "apply_fill_to_position ''ESU26'' BUY 2 5030 True rolled1 = (Inr (), rolled2)" "mb_open_trade_pnl rolled2 = [(''ESM26'', 1000)]"
  using rolled1_facts(2,3)
  by (simp_all add: rolled2_def apply_fill_to_position_def open_fill_def set_position_def Position_post_init_def signed_qty_def)

lemma es_roll:
  "\<exists>b'. roll_position ''ESM26'' ''ESU26'' 5010 5030 session2 = (Inr 2, b')" "roll_exact session2 ''ESM26'' ''ESU26'' 5010 5030"
proof -
  have q: "position_qty session2 ''ESM26'' = 2" by (rule session2_fill(2))
  show "\<exists>b'. roll_position ''ESM26'' ''ESU26'' 5010 5030 session2 = (Inr 2, b')"
    using rolled1_facts rolled2_facts session2_books by (simp add: roll_position_def es_long_def Let_def)
  have "fill_exact session2 ''ESM26'' (- 2) 5010"
    using session2_books es_multiplier
    by (simp add: fill_exact_def es_long_def same_direction_def close_exact_def open_pnl_def)
  moreover have "fill_exact rolled1 ''ESU26'' 2 5030" using rolled1_facts(2) by (simp add: fill_exact_def)
  moreover have "drepr (open_pnl rolled2 ''ESU26'' + open_pnl rolled2 ''ESM26'')" by (simp add: open_pnl_def rolled2_facts(2))
  ultimately show "roll_exact session2 ''ESM26'' ''ESU26'' 5010 5030"
    using q rolled1_facts(1) rolled2_facts(1) by (simp add: roll_exact_def)
qed

text \<open>
  A roll carries the exposure and nothing else: it empties the front contract, adds exactly that signed
  quantity to the back contract, and leaves the equity marked at the two roll prices unchanged; if the back
  contract already held a position in the same direction, up to the rounding of its new average price.
\<close>

theorem roll_keeps_exposure_and_equity:
  assumes "reachable b" "roll_position front bk ff bf b = (Inr n, b')" "front \<noteq> bk" "n \<noteq> 0" "0 < ff" "0 < bf"
    and "multiplier_for front = Inr mf" "multiplier_for bk = Inr mk" "roll_exact b front bk ff bf"
  shows "n = position_qty b front
       \<and> position_qty b' = (position_qty b)(front := 0, bk := position_qty b bk + n)
       \<and> \<bar>(mb_realized_pnl_today b' + open_value b' front ff mf + open_value b' bk bf mk)
          - (mb_realized_pnl_today b + open_value b front ff mf + open_value b bk bf mk)\<bar> \<le> rounding_slack b bk n bf mk"
proof -
  have "books_inv b" using reachable_inv [OF assms(1)] by (simp add: broker_inv_def)
  then show ?thesis
    using roll_moves_position [OF assms(2,3)] roll_marked [OF assms(2-4) _ assms(5-9)] by simp
qed

theorem roll_keeps_exposure_and_equity_witness:
  "\<exists>b'. roll_position ''ESM26'' ''ESU26'' 5010 5030 session2 = (Inr 2, b') \<and>
     position_qty b' ''ESM26'' = 0 \<and> position_qty b' ''ESU26'' = 2 \<and>
     mb_realized_pnl_today b' + open_value b' ''ESM26'' 5010 50 + open_value b' ''ESU26'' 5030 50 = 1000"
proof -
  obtain b' where r: "roll_position ''ESM26'' ''ESU26'' 5010 5030 session2 = (Inr 2, b')" using es_roll(1) by blast
  from roll_keeps_exposure_and_equity [OF session_reachable(2) r _ _ _ _ es_multiplier es_roll(2)]
  have "position_qty b' = (position_qty session2)(''ESM26'' := 0, ''ESU26'' := position_qty session2 ''ESU26'' + 2)"
    and "mb_realized_pnl_today b' + open_value b' ''ESM26'' 5010 50 + open_value b' ''ESU26'' 5030 50 = 1000"
    using session2_books by (simp_all add: open_value_def [of session2] rounding_slack_def es_long_def)
  then show ?thesis using r session2_books by (simp add: position_qty_def [of session2])
qed

text \<open>
  Runs whose fills and rolls are exact; placements, cancellations and modifications may also fail.
\<close>

inductive exact_step :: "MockBroker \<Rightarrow> MockBroker \<Rightarrow> bool" where
  place: "order_ok ord \<Longrightarrow> exact_step b (snd (place_order ord b))"
| cancel: "exact_step b (snd (cancel_order oid b))"
| modify: "exact_step b (snd (modify_order oid nl ns nq b))"
| fill: "fill_order oid x fq b = (Inr ev, b') \<Longrightarrow> map_of (mb_orders b) oid = Some ord \<Longrightarrow> oe_fill_quantity ev = Some q \<Longrightarrow>
    fill_exact b (o_contract ord) (signed_qty (o_side ord) q) x \<Longrightarrow> exact_step b b'"
| roll: "roll_position front bk ff bf b = (Inr n, b') \<Longrightarrow> front \<noteq> bk \<Longrightarrow> roll_exact b front bk ff bf \<Longrightarrow> exact_step b b'"

lemma fill_order_ledger:
  assumes f: "fill_order oid x fq b = (Inr ev, b')" and inv: "broker_inv b" and ord: "map_of (mb_orders b) oid = Some ord"
    and q: "oe_fill_quantity ev = Some q" and ex: "fill_exact b (o_contract ord) (signed_qty (o_side ord) q) x"
  shows "ledger_gap b' = ledger_gap b"
proof -
  obtain already actual b2 where
    a: "apply_fill_to_position (o_contract ord) (o_side ord) actual x False
       (b\<lparr>mb_filled_qty := AList.update oid (already + actual) (mb_filled_qty b)\<rparr>) = (Inr (), b2)"
    and e: "emit_event oid (client_id_or ord ''anon'') (o_contract ord)
       (if o_quantity ord = already + actual then filled else partial_fill)
       (Some x) (Some actual) (already + actual) (o_quantity ord - (already + actual)) b2 = (Inr ev, b')"
    using fill_order_Inr [OF f] ord by auto
  let ?b1 = "b\<lparr>mb_filled_qty := AList.update oid (already + actual) (mb_filled_qty b)\<rparr>"
  have "q = actual" using emit_event_events [OF e] q by simp
  then have "ledger_gap b2 = ledger_gap ?b1"
    using apply_fill_ledger [OF a] inv ex by (simp add: broker_inv_def books_inv_def)
  moreover have "ledger_gap b' = ledger_gap b2" using emit_event_frame [OF e] ledger_gap_books by blast
  ultimately show ?thesis by (simp add: ledger_gap_def)
qed

lemma exact_step_inv: "exact_step b b' \<Longrightarrow> broker_inv b \<Longrightarrow> broker_inv b'"
  by (induction rule: exact_step.induct) (metis op_inv snd_conv)+

lemma exact_step_ledger: "exact_step b b' \<Longrightarrow> broker_inv b \<Longrightarrow> ledger_gap b' = ledger_gap b"
  by (induction rule: exact_step.induct)
     (auto simp: broker_inv_def intro: ledger_gap_books place_order_books cancel_order_books modify_order_books
        fill_order_ledger roll_ledger)

text \<open>
  C4. Every realized cent belongs to one bet: along any run with exact arithmetic, the realized profit and
  loss is the sum of the booked trades and of the amounts still accumulating on open bets; partial closes,
  flips and rolls never lose or double-count a realization.
\<close>

theorem trade_ledger_complete:
  assumes "MockBroker_init equity account block restrict clock dec_str = Inr b0" "exact_step\<^sup>*\<^sup>* b0 b"
  shows "mb_realized_pnl_today b = sum_list (mb_trade_pnls b) + sum_list (map snd (mb_open_trade_pnl b))"
proof -
  have "ledger_gap b0 = 0" "broker_inv b0"
    using assms(1) MockBroker_init_inv [OF assms(1)] by (auto simp: ledger_gap_def MockBroker_init_def res_simps)
  with assms(2) have "ledger_gap b = 0 \<and> broker_inv b"
    by (induction rule: rtranclp_induct) (auto intro: exact_step_inv simp: exact_step_ledger)
  then show ?thesis by (simp add: ledger_gap_def)
qed

theorem trade_ledger_complete_witness:
  "\<exists>b. roll_position ''ESM26'' ''ESU26'' 5010 5030 session2 = (Inr 2, b) \<and>
     mb_realized_pnl_today b = sum_list (mb_trade_pnls b) + sum_list (map snd (mb_open_trade_pnl b))"
proof -
  obtain b where r: "roll_position ''ESM26'' ''ESU26'' 5010 5030 session2 = (Inr 2, b)" using es_roll(1) by blast
  obtain ev where ev: "fill_order (order_id 1) 5000 None session1 = (Inr ev, session2)" "oe_fill_quantity ev = Some 2"
    using session2_fill(1) by blast
  have "exact_step session0 session1" unfolding session1_def by (intro exact_step.place buy2_ok)
  moreover have "exact_step session1 session2"
  proof (rule exact_step.fill [OF ev(1) _ ev(2)])
    show "map_of (mb_orders session1) (order_id 1) = Some buy2" by (simp add: session1_place(2))
    show "fill_exact session1 (o_contract buy2) (signed_qty (o_side buy2) 2) 5000" by (simp add: fill_exact_def session1_place(5))
  qed
  moreover have "exact_step session2 b" by (rule exact_step.roll [OF r _ es_roll(2)]) simp
  ultimately have "exact_step\<^sup>*\<^sup>* session0 b" by (meson converse_rtranclp_into_rtranclp rtranclp.rtrancl_refl)
  from trade_ledger_complete [OF session0_init this] r show ?thesis by blast
qed

section \<open>Auto-fill\<close>

lemma fill_order_keeps:
  "fill_order oid x fq b = (Inr ev, b') \<Longrightarrow> mb_orders b' = mb_orders b \<and> mb_cancelled b' = mb_cancelled b"
  by (drule fill_order_Inr) (auto simp: same_orders_def dest!: apply_fill_frame emit_event_frame)

lemma fill_order_filled:
  assumes "fill_order oid x None b = (Inr ev, b')" "map_of (mb_orders b) oid = Some ord"
  shows "map_of (mb_filled_qty b') = (map_of (mb_filled_qty b))(oid \<mapsto> o_quantity ord)"
    and "oe_broker_order_id ev = oid" "oe_fill_price ev = Some x"
proof -
  obtain already actual b2 where
    a: "actual = o_quantity ord - already"
       "apply_fill_to_position (o_contract ord) (o_side ord) actual x False
          (b\<lparr>mb_filled_qty := AList.update oid (already + actual) (mb_filled_qty b)\<rparr>) = (Inr (), b2)"
    and e: "emit_event oid (client_id_or ord ''anon'') (o_contract ord)
       (if o_quantity ord = already + actual then filled else partial_fill)
       (Some x) (Some actual) (already + actual) (o_quantity ord - (already + actual)) b2 = (Inr ev, b')"
    using fill_order_Inr [OF assms(1)] assms(2) by auto
  show "map_of (mb_filled_qty b') = (map_of (mb_filled_qty b))(oid \<mapsto> o_quantity ord)"
    using apply_fill_frame [OF a(2)] emit_event_frame [OF e] a(1) by (simp add: same_orders_def)
  show "oe_broker_order_id ev = oid" "oe_fill_price ev = Some x" using emit_event_events [OF e] by simp_all
qed

text \<open>What one pass of \<open>advance\<close> reports: every event is a fill of a live order of the bar's contract at its executed price.\<close>

definition advance_event_ok :: "VerifiedBar \<Rightarrow> SlippageModel option \<Rightarrow> (string \<times> Order) list \<Rightarrow> string set \<Rightarrow> OrderEvent \<Rightarrow> bool" where
  "advance_event_ok bar slip orders gone ev \<longleftrightarrow>
     (\<exists>ord x. map_of orders (oe_broker_order_id ev) = Some ord \<and> oe_broker_order_id ev \<notin> gone \<and>
        o_contract ord = vb_contract bar \<and> oe_fill_price ev = Some x \<and> executed_price slip ord bar = Inr (Some x))"

lemma advance_loop_events:
  "advance_loop bar slip oids b = (Inr evs, b') \<Longrightarrow>
     mb_orders b' = mb_orders b \<and> mb_cancelled b' = mb_cancelled b \<and>
     (\<forall>ev \<in> set evs. advance_event_ok bar slip (mb_orders b) (mb_cancelled b) ev)"
proof (induction oids arbitrary: b evs)
  case (Cons oid oids)
  show ?case
  proof (cases "\<exists>ord already x. oid \<notin> mb_cancelled b \<and> map_of (mb_orders b) oid = Some ord \<and> o_contract ord = vb_contract bar \<and>
      map_of (mb_filled_qty b) oid = Some already \<and> already < o_quantity ord \<and> executed_price slip ord bar = Inr (Some x)")
    case True
    then obtain ord already x where c: "oid \<notin> mb_cancelled b" "map_of (mb_orders b) oid = Some ord" "o_contract ord = vb_contract bar"
      "map_of (mb_filled_qty b) oid = Some already" "already < o_quantity ord" "executed_price slip ord bar = Inr (Some x)" by blast
    then obtain ev b1 evs1 where f: "fill_order oid x None b = (Inr ev, b1)"
      and l: "advance_loop bar slip oids b1 = (Inr evs1, b')" and evs: "evs = ev # evs1"
      using Cons.prems by (auto simp: bindS_Inr_iff)
    have "advance_event_ok bar slip (mb_orders b) (mb_cancelled b) ev"
      using fill_order_filled(2,3) [OF f c(2)] c by (auto simp: advance_event_ok_def)
    then show ?thesis using Cons.IH [OF l] fill_order_keeps [OF f] evs by auto
  next
    case False
    then have "advance_loop bar slip oids b = (Inr evs, b')"
      using Cons.prems by (fastforce split: if_splits option.splits sum.splits)
    then show ?thesis by (rule Cons.IH)
  qed
qed simp

context slippage_model
begin

lemma executed_price_adverse:
  assumes "executed_price (Some slip) ord bar = Inr (Some x)"
    and "drepr (vb_open bar)" "\<And>p. o_stop_price ord = Some p \<Longrightarrow> drepr p"
  shows "case (o_order_type ord, o_side ord) of
           (MKT, BUY) \<Rightarrow> vb_open bar \<le> x
         | (MKT, SELL) \<Rightarrow> x \<le> vb_open bar
         | (LMT, BUY) \<Rightarrow> o_limit_price ord = Some x \<and> vb_low bar \<le> x
         | (LMT, SELL) \<Rightarrow> o_limit_price ord = Some x \<and> x \<le> vb_high bar
         | (STP, BUY) \<Rightarrow> (\<exists>s. o_stop_price ord = Some s \<and> s \<le> x \<and> s \<le> vb_high bar)
         | (STP, SELL) \<Rightarrow> (\<exists>s. o_stop_price ord = Some s \<and> x \<le> s \<and> vb_low bar \<le> s)
         | _ \<Rightarrow> False"
  using assms slip_buy_adverse slip_sell_adverse
  by (cases "o_order_type ord"; cases "o_side ord")
     (auto simp: executed_price_def backtest_fill_price_def bindE_Inr_iff split: option.splits if_splits)

end

text \<open>
  C5. Auto-fill discipline: every fill that \<open>advance\<close> reports under a tick-haircut model belongs to a live
  market, limit or stop order for the bar's contract. A market order fills no better than the open, a limit
  order exactly at its limit and only if the bar traded there, a stop order no better than its stop and
  only if the bar reached it. Other order types never fill.
\<close>

theorem advance_fill_prices:
  assumes "advance bar (Some (apply_slippage band)) b = (Inr evs, b')" "ev \<in> set evs" "drepr (vb_open bar)"
    and "\<forall>ord \<in> snd ` set (mb_orders b). \<forall>p. o_stop_price ord = Some p \<longrightarrow> drepr p"
  shows "\<exists>ord x. map_of (mb_orders b) (oe_broker_order_id ev) = Some ord \<and> oe_broker_order_id ev \<notin> mb_cancelled b \<and>
           o_contract ord = vb_contract bar \<and> oe_fill_price ev = Some x \<and>
           (case (o_order_type ord, o_side ord) of
              (MKT, BUY) \<Rightarrow> vb_open bar \<le> x
            | (MKT, SELL) \<Rightarrow> x \<le> vb_open bar
            | (LMT, BUY) \<Rightarrow> o_limit_price ord = Some x \<and> vb_low bar \<le> x
            | (LMT, SELL) \<Rightarrow> o_limit_price ord = Some x \<and> x \<le> vb_high bar
            | (STP, BUY) \<Rightarrow> (\<exists>s. o_stop_price ord = Some s \<and> s \<le> x \<and> s \<le> vb_high bar)
            | (STP, SELL) \<Rightarrow> (\<exists>s. o_stop_price ord = Some s \<and> x \<le> s \<and> vb_low bar \<le> s)
            | _ \<Rightarrow> False)"
proof -
  obtain ord x where o: "map_of (mb_orders b) (oe_broker_order_id ev) = Some ord" "oe_broker_order_id ev \<notin> mb_cancelled b"
    "o_contract ord = vb_contract bar" "oe_fill_price ev = Some x" "executed_price (Some (apply_slippage band)) ord bar = Inr (Some x)"
    using advance_loop_events assms(1,2) by (fastforce simp: advance_def advance_event_ok_def)
  have "drepr p" if "o_stop_price ord = Some p" for p using assms(4) map_of_SomeD [OF o(1)] that by force
  from haircut.executed_price_adverse [OF o(5) assms(3) this] o show ?thesis by blast
qed

lemma executed_price_market: "o_order_type ord = MKT \<Longrightarrow> executed_price slip ord bar \<noteq> Inr None"
  by (auto simp: executed_price_def backtest_fill_price_def bindE_Inr_iff split: option.splits)

lemma advance_loop_fills:
  "advance_loop bar slip oids b = (Inr evs, b') \<Longrightarrow> map_of (mb_orders b) oid = Some ord \<Longrightarrow> oid \<notin> mb_cancelled b \<Longrightarrow>
     o_contract ord = vb_contract bar \<Longrightarrow> o_order_type ord = MKT \<Longrightarrow>
     oid \<in> set oids \<or> (\<exists>n. map_of (mb_filled_qty b) oid = Some n \<and> o_quantity ord \<le> n) \<Longrightarrow>
     \<exists>n. map_of (mb_filled_qty b') oid = Some n \<and> o_quantity ord \<le> n"
proof (induction oids arbitrary: b evs)
  case (Cons i oids)
  show ?case
  proof (cases "\<exists>ord already x. i \<notin> mb_cancelled b \<and> map_of (mb_orders b) i = Some ord \<and> o_contract ord = vb_contract bar \<and>
      map_of (mb_filled_qty b) i = Some already \<and> already < o_quantity ord \<and> executed_price slip ord bar = Inr (Some x)")
    case True
    then obtain ordi already x where c: "i \<notin> mb_cancelled b" "map_of (mb_orders b) i = Some ordi" "o_contract ordi = vb_contract bar"
      "map_of (mb_filled_qty b) i = Some already" "already < o_quantity ordi" "executed_price slip ordi bar = Inr (Some x)" by blast
    then obtain ev b1 evs1 where f: "fill_order i x None b = (Inr ev, b1)"
      and l: "advance_loop bar slip oids b1 = (Inr evs1, b')"
      using Cons.prems(1) by (auto simp: bindS_Inr_iff)
    note keep = fill_order_keeps [OF f] and fl = fill_order_filled(1) [OF f c(2)]
    show ?thesis
      by (rule Cons.IH [OF l]) (use Cons.prems keep fl c in auto)
  next
    case False
    then have l: "advance_loop bar slip oids b = (Inr evs, b')"
      using Cons.prems(1) by (fastforce split: if_splits option.splits sum.splits)
    have "\<exists>n. map_of (mb_filled_qty b) oid = Some n \<and> o_quantity ord \<le> n" if "oid = i"
      using Cons.prems(1-5) False executed_price_market [of ord slip bar] that
      by (cases "map_of (mb_filled_qty b) oid"; cases "executed_price slip ord bar") (fastforce split: if_splits option.splits)+
    then show ?thesis using Cons.IH [OF l Cons.prems(2-5)] Cons.prems(6) by auto
  qed
qed auto

text \<open>
  C6. Market orders do not linger: after \<open>advance\<close> returns, every live market order for the bar's contract
  that was outstanding is completely filled.
\<close>

theorem advance_fills_market_orders:
  assumes "advance bar slip b = (Inr evs, b')" "map_of (mb_orders b) oid = Some ord" "oid \<notin> mb_cancelled b"
    and "o_contract ord = vb_contract bar" "o_order_type ord = MKT"
  shows "\<exists>n. map_of (mb_filled_qty b') oid = Some n \<and> o_quantity ord \<le> n"
proof -
  have "oid \<in> set (map fst (mb_orders b))" using map_of_SomeD [OF assms(2)] by force
  then show ?thesis using advance_loop_fills assms by (simp add: advance_def)
qed

definition es_bar :: VerifiedBar where
  "es_bar = \<lparr>vb_contract = ''ESM26'', vb_ts = \<lparr>dt_local = 63849643200000000, dt_off = Some 0\<rparr>, vb_resolution = DAY_1,
             vb_open = 5000, vb_high = 5020, vb_low = 4990, vb_close = 5010, vb_volume = 10, vb_n_sources_agreed = 2,
             vb_source_provenance_hashes = [], vb_verifier_run_hash = [], vb_prev_bar_hash = None,
             vb_tier_used = T2_EXCHANGE, vb_policy_id = ''p''\<rparr>"

lemma es_slipped: "apply_slippage CONSERVATIVE 5000 BUY 2 ''ESM26'' \<lparr>dt_local = 63849643200000000, dt_off = Some 0\<rparr> = Inr (10001 / 2)"
proof -
  have t: "tick_size_for ''ESM26'' = Inr (1 / 4)"
    by (simp add: tick_size_for_def slippage_contract_root_def SYMBOL_SUFFIX_LEN_def CONTRACT_TICK_SIZE_def)
  have h: "dmul (1 / 4) (dint 2) = 1 / 2" using drepr_scaled [of 5 1] by (simp add: dmul_def dint_def dec_exact)
  have "dround (10001 / 2) = 10001 / 2" using drepr_scaled [of 50005 1] by (simp add: dec_exact)
  then show ?thesis by (simp add: apply_slippage_def assert_tz_aware_def dt_aware_def dadd_def t h)
qed

lemma session1_advance:
  "\<exists>ev b'. advance es_bar (Some (apply_slippage CONSERVATIVE)) session1 = (Inr [ev], b') \<and> oe_fill_price ev = Some (10001 / 2)"
proof -
  have "executed_price (Some (apply_slippage CONSERVATIVE)) buy2 es_bar = Inr (Some (10001 / 2))"
    by (simp add: executed_price_def backtest_fill_price_def buy2_def es_bar_def es_slipped)
  moreover obtain ev b' where "fill_order (order_id 1) (10001 / 2) None session1 = (Inr ev, b')" "oe_fill_price ev = Some (10001 / 2)"
    using fill_order_ok [of session1 "order_id 1" buy2 0 2 None "10001 / 2" 50] session1_place es_multiplier(1)
    by (fastforce simp: buy2_def)
  ultimately show ?thesis using session1_place by (simp add: advance_def buy2_def es_bar_def)
qed

theorem advance_fill_prices_witness:
  "\<exists>ev b'. advance es_bar (Some (apply_slippage CONSERVATIVE)) session1 = (Inr [ev], b') \<and>
     (\<exists>ord x. map_of (mb_orders session1) (oe_broker_order_id ev) = Some ord \<and> oe_fill_price ev = Some x \<and> x = 10001 / 2)"
proof -
  obtain ev b' where a: "advance es_bar (Some (apply_slippage CONSERVATIVE)) session1 = (Inr [ev], b')" "oe_fill_price ev = Some (10001 / 2)"
    using session1_advance by blast
  have "drepr (vb_open es_bar)" "\<forall>ord \<in> snd ` set (mb_orders session1). \<forall>p. o_stop_price ord = Some p \<longrightarrow> drepr p"
    by (simp_all add: es_bar_def session1_place(2) buy2_def)
  from advance_fill_prices [OF a(1) _ this, of ev] show ?thesis using a by auto
qed

theorem advance_fills_market_orders_witness:
  "\<exists>ev b'. advance es_bar (Some (apply_slippage CONSERVATIVE)) session1 = (Inr [ev], b') \<and>
     (\<exists>n. map_of (mb_filled_qty b') (order_id 1) = Some n \<and> 2 \<le> n)"
proof -
  obtain ev b' where a: "advance es_bar (Some (apply_slippage CONSERVATIVE)) session1 = (Inr [ev], b')"
    using session1_advance by blast
  from advance_fills_market_orders [OF a, of "order_id 1" buy2] show ?thesis
    using a session1_place by (simp add: buy2_def es_bar_def)
qed

end
