(* ===== verification/Prop_Broker.thy ===== *)
theory Prop_Broker
  imports Broker_Properties
begin

text \<open>
  The prop-account overlay on the mock broker
  (\<open>src/futur3/execution/adapters/prop_aware_mock_broker.py\<close>). The subclass is a record that holds the
  base object and its own fields; \<open>inherited\<close> runs a method of the base class on it. A halt keeps the
  figures its message reports instead of the formatted text.

  The lemmas show what the overlay promises: the gate refuses exactly what it documents, a halt latches
  for the life of the session, the trailing peak never falls, and everything else behaves as the base
  class does.
\<close>

section \<open>The account's configuration\<close>

text \<open>No method of the base class changes the configuration of the account.\<close>

lemma config_update [simp]:
  "same_config b (b1\<lparr>mb_filled_qty := f\<rparr>) = same_config b b1" "same_config b (b1\<lparr>mb_cancelled := k\<rparr>) = same_config b b1"
  "same_config b (b1\<lparr>mb_orders := os\<rparr>) = same_config b b1" "same_config b (b1\<lparr>mb_open_trade_pnl := pn\<rparr>) = same_config b b1"
  "same_config b (b1\<lparr>mb_next_order_id_seq := n\<rparr>) = same_config b b1"
  by (simp_all add: same_config_def)

lemma emit_event_config: "same_config b b1 \<Longrightarrow> same_config b (snd (emit_event oid cid c t fp fq cum rem b1))"
  using emit_event_frame [of oid cid c t fp fq cum rem b1] same_trans(3) by (metis prod.collapse)

lemma apply_fill_config: "same_config b b1 \<Longrightarrow> same_config b (snd (apply_fill_to_position c side q fp roll b1))"
  using apply_fill_frame [of c side q fp roll b1] same_trans(3) by (metis prod.collapse)

lemmas config_bind = bindS_state [where P = "same_config b" for b]

lemma place_order_config: "same_config b (snd (place_order ord b))"
  unfolding place_order_def Let_def by (auto intro!: config_bind emit_event_config)

lemma cancel_order_config: "same_config b (snd (cancel_order oid b))"
  unfolding cancel_order_def Let_def by (auto intro!: config_bind emit_event_config split: option.splits)

lemma modify_order_config: "same_config b (snd (modify_order oid nl ns nq b))"
  unfolding modify_order_def Let_def by (auto intro!: config_bind emit_event_config split: option.splits sum.splits)

lemma fill_order_config: "same_config b b1 \<Longrightarrow> same_config b (snd (fill_order oid fp fq b1))"
  unfolding fill_order_def Let_def by (auto intro!: config_bind emit_event_config apply_fill_config split: option.splits)

lemma advance_loop_config: "same_config b b1 \<Longrightarrow> same_config b (snd (advance_loop bar slip oids b1))"
proof (induction oids arbitrary: b1)
  case (Cons oid oids)
  have "same_config b (snd (bindS (fill_order oid price None b1) (\<lambda>ev b1.
          bindS (advance_loop bar slip oids b1) (\<lambda>evs b2. (Inr (ev # evs), b2)))))" for price
    using Cons fill_order_config by (intro config_bind) auto
  then show ?case using Cons by (auto split: option.splits sum.splits)
qed simp

lemma roll_position_config: "same_config b (snd (roll_position front bk ff bf b))"
  unfolding roll_position_def Let_def by (auto intro!: config_bind apply_fill_config split: option.splits)

lemma reset_config: "same_config b (reset b)"
  by (simp add: reset_def same_config_def)

lemma broker_step_config: "broker_step b b' \<Longrightarrow> same_config b b'"
  by (induction rule: broker_step.induct)
    (auto elim!: trade_step.cases simp: place_order_config cancel_order_config modify_order_config fill_order_config
      advance_def advance_loop_config roll_position_config reset_config)

section \<open>State\<close>

datatype HaltReason =
    DLL_breached decimal decimal
  | MLL_breached decimal decimal

datatype BlockReason =
    AccountHalted HaltReason
  | ExceedsMaxContracts int int
  | Breach HaltReason

record PropAwareMockBroker =
  pb_base :: MockBroker
  pb_daily_loss_limit :: decimal
  pb_trailing_max_loss_limit :: decimal
  pb_max_contracts :: int
  pb_initial_equity_peak :: decimal
  pb_equity_peak :: decimal
  pb_halted :: "HaltReason option"

definition PropAwareMockBroker_init ::
  "decimal \<Rightarrow> decimal \<Rightarrow> int \<Rightarrow> decimal option \<Rightarrow> decimal \<Rightarrow> string \<Rightarrow> bool \<Rightarrow> OrderType list option \<Rightarrow>
   (nat \<Rightarrow> datetime) \<Rightarrow> (decimal \<Rightarrow> string) \<Rightarrow> PropAwareMockBroker res" where
  "PropAwareMockBroker_init daily_loss_limit trailing_max_loss_limit max_contracts initial_equity_peak
       starting_equity account_id block restrict clock dec_str =
     bindE (MockBroker_init starting_equity account_id block restrict clock dec_str) (\<lambda>base.
     bindE (require (\<not> daily_loss_limit \<le> 0) ValueError) (\<lambda>_.
     bindE (require (\<not> trailing_max_loss_limit \<le> 0) ValueError) (\<lambda>_.
     bindE (require (\<not> max_contracts < 1) ValueError) (\<lambda>_.
     bindE (require (case initial_equity_peak of None \<Rightarrow> True | Some p \<Rightarrow> \<not> p < starting_equity) ValueError) (\<lambda>_.
     let peak = (case initial_equity_peak of Some p \<Rightarrow> p | None \<Rightarrow> starting_equity)
     in Inr \<lparr>pb_base = base, pb_daily_loss_limit = daily_loss_limit,
             pb_trailing_max_loss_limit = trailing_max_loss_limit, pb_max_contracts = max_contracts,
             pb_initial_equity_peak = peak, pb_equity_peak = peak, pb_halted = None\<rparr>)))))"

definition inherited :: "(MockBroker \<Rightarrow> 'r \<times> MockBroker) \<Rightarrow> PropAwareMockBroker \<Rightarrow> 'r \<times> PropAwareMockBroker" where
  "inherited m pb = (let (r, b) = m (pb_base pb) in (r, pb\<lparr>pb_base := b\<rparr>))"

section \<open>The gate\<close>

definition current_equity :: "MockBroker \<Rightarrow> decimal" where
  "current_equity b =
     dadd (dadd (mb_starting_equity b) (mb_realized_pnl_today b)) (dsum (map (p_unrealized_pnl \<circ> snd) (mb_positions b)))"

definition observe :: "decimal \<Rightarrow> PropAwareMockBroker \<Rightarrow> PropAwareMockBroker" where
  "observe equity pb = pb\<lparr>pb_equity_peak := max (pb_equity_peak pb) equity\<rparr>"

definition increasing_block_reason :: "int \<Rightarrow> PropAwareMockBroker \<Rightarrow> BlockReason option \<times> PropAwareMockBroker" where
  "increasing_block_reason resulting_abs_qty pb =
     (case pb_halted pb of
        Some h \<Rightarrow> (Some (AccountHalted h), pb)
      | None \<Rightarrow>
          if resulting_abs_qty > pb_max_contracts pb
          then (Some (ExceedsMaxContracts resulting_abs_qty (pb_max_contracts pb)), pb)
          else
            (let equity = current_equity (pb_base pb);
                 realized = mb_realized_pnl_today (pb_base pb);
                 pb1 = observe equity pb
             in if realized \<le> dneg (pb_daily_loss_limit pb1) then
                  (let h = DLL_breached realized (pb_daily_loss_limit pb1)
                   in (Some (Breach h), pb1\<lparr>pb_halted := Some h\<rparr>))
                else
                  (let drawdown = dsub (pb_equity_peak pb1) equity
                   in if drawdown \<ge> pb_trailing_max_loss_limit pb1 then
                        (let h = MLL_breached drawdown (pb_trailing_max_loss_limit pb1)
                         in (Some (Breach h), pb1\<lparr>pb_halted := Some h\<rparr>))
                      else (None, pb1))))"

definition prop_is_trade_allowed ::
  "ContractSymbol \<Rightarrow> Side \<Rightarrow> int \<Rightarrow> PropAwareMockBroker \<Rightarrow> bool \<times> PropAwareMockBroker" where
  "prop_is_trade_allowed contract side quantity pb =
     (if \<not> is_trade_allowed (pb_base pb) contract side quantity then (False, pb)
      else
        (let current_qty = (case map_of (mb_positions (pb_base pb)) contract of Some p \<Rightarrow> p_quantity p | None \<Rightarrow> 0);
             delta = (if side = BUY then quantity else - quantity);
             resulting_qty = current_qty + delta
         in if \<bar>resulting_qty\<bar> < \<bar>current_qty\<bar> then (True, pb)
            else
              (case increasing_block_reason \<bar>resulting_qty\<bar> pb of
                 (Some block, pb1) \<Rightarrow> (False, pb1)
               | (None, pb1) \<Rightarrow> (True, pb1))))"

definition prop_get_account_metrics :: "PropAwareMockBroker \<Rightarrow> AccountMetrics res \<times> PropAwareMockBroker" where
  "prop_get_account_metrics pb =
     (case get_account_metrics (pb_base pb) of
        Inl e \<Rightarrow> (Inl e, pb)
      | Inr metrics \<Rightarrow> (Inr metrics, observe (am_equity metrics) pb))"

definition prop_reset :: "PropAwareMockBroker \<Rightarrow> PropAwareMockBroker" where
  "prop_reset pb =
     pb\<lparr>pb_base := reset (pb_base pb), pb_equity_peak := pb_initial_equity_peak pb, pb_halted := None\<rparr>"

section \<open>The steps of a session\<close>

text \<open>Every method call of a session that does not reset the object, failing calls included.\<close>

inductive session_step :: "PropAwareMockBroker \<Rightarrow> PropAwareMockBroker \<Rightarrow> bool" where
  place: "order_ok ord \<Longrightarrow> session_step pb (snd (inherited (place_order ord) pb))"
| cancel: "session_step pb (snd (inherited (cancel_order oid) pb))"
| modify: "session_step pb (snd (inherited (modify_order oid nl ns nq) pb))"
| fill: "session_step pb (snd (inherited (fill_order oid fp fq) pb))"
| adv: "session_step pb (snd (inherited (advance bar slip) pb))"
| roll: "session_step pb (snd (inherited (roll_position front bk ff bf) pb))"
| gate: "session_step pb (snd (prop_is_trade_allowed c side q pb))"
| metrics: "session_step pb (snd (prop_get_account_metrics pb))"

abbreviation session :: "PropAwareMockBroker \<Rightarrow> PropAwareMockBroker \<Rightarrow> bool" where
  "session \<equiv> session_step\<^sup>*\<^sup>*"

definition same_limits :: "PropAwareMockBroker \<Rightarrow> PropAwareMockBroker \<Rightarrow> bool" where
  "same_limits pb pb' \<longleftrightarrow>
     pb_daily_loss_limit pb' = pb_daily_loss_limit pb \<and> pb_trailing_max_loss_limit pb' = pb_trailing_max_loss_limit pb \<and>
     pb_max_contracts pb' = pb_max_contracts pb \<and> pb_initial_equity_peak pb' = pb_initial_equity_peak pb"

lemma inherited_simps [simp]:
  "fst (inherited m pb) = fst (m (pb_base pb))"
  "snd (inherited m pb) = pb\<lparr>pb_base := snd (m (pb_base pb))\<rparr>"
  by (simp_all add: inherited_def split: prod.splits)

lemma observe_simps [simp]:
  "pb_base (observe e pb) = pb_base pb" "pb_halted (observe e pb) = pb_halted pb"
  "pb_equity_peak (observe e pb) = max (pb_equity_peak pb) e"
  "pb_daily_loss_limit (observe e pb) = pb_daily_loss_limit pb"
  "pb_trailing_max_loss_limit (observe e pb) = pb_trailing_max_loss_limit pb"
  "pb_max_contracts (observe e pb) = pb_max_contracts pb"
  "pb_initial_equity_peak (observe e pb) = pb_initial_equity_peak pb"
  by (simp_all add: observe_def)

text \<open>The gate reads the book and never writes it; metrics likewise.\<close>

lemma block_reason_frame:
  "pb_base (snd (increasing_block_reason n pb)) = pb_base pb"
  "same_limits pb (snd (increasing_block_reason n pb))"
  "pb_equity_peak pb \<le> pb_equity_peak (snd (increasing_block_reason n pb))"
  "pb_halted pb = Some h \<Longrightarrow> pb_halted (snd (increasing_block_reason n pb)) = Some h"
  by (auto simp: increasing_block_reason_def same_limits_def Let_def split: option.splits)

lemma gate_snd:
  "snd (prop_is_trade_allowed c side q pb) = pb \<or>
   (\<exists>n. snd (prop_is_trade_allowed c side q pb) = snd (increasing_block_reason n pb))"
proof -
  have s: "snd (case x of (Some block, pb1) \<Rightarrow> (False, pb1) | (None, pb1) \<Rightarrow> (True, pb1)) = snd x"
    for x :: "BlockReason option \<times> PropAwareMockBroker"
    by (cases x; cases "fst x") simp_all
  show ?thesis by (auto simp: prop_is_trade_allowed_def Let_def s)
qed

lemma gate_frame [simp]: "pb_base (snd (prop_is_trade_allowed c side q pb)) = pb_base pb"
  using gate_snd [of c side q pb] by (auto simp: block_reason_frame)

lemma prop_metrics_frame [simp]:
  "pb_base (snd (prop_get_account_metrics pb)) = pb_base pb"
  "fst (prop_get_account_metrics pb) = get_account_metrics (pb_base pb)"
  by (auto simp: prop_get_account_metrics_def split: sum.splits)

lemma session_step_frame:
  "session_step pb pb' \<Longrightarrow> same_limits pb pb' \<and> pb_equity_peak pb \<le> pb_equity_peak pb' \<and>
     (\<forall>h. pb_halted pb = Some h \<longrightarrow> pb_halted pb' = Some h)"
proof (induction rule: session_step.induct)
  case (gate pb c side q)
  then show ?case using gate_snd [of c side q pb] by (auto simp: same_limits_def block_reason_frame [unfolded same_limits_def])
qed (auto simp: same_limits_def prop_get_account_metrics_def split: sum.splits)

lemma session_frame:
  "session pb pb' \<Longrightarrow> same_limits pb pb' \<and> pb_equity_peak pb \<le> pb_equity_peak pb' \<and>
     (\<forall>h. pb_halted pb = Some h \<longrightarrow> pb_halted pb' = Some h)"
proof (induction rule: rtranclp_induct)
  case (step y z)
  from session_step_frame [OF step(2)] step(3) show ?case unfolding same_limits_def by force
qed (simp add: same_limits_def)

section \<open>What the gate promises\<close>

definition reduces :: "PropAwareMockBroker \<Rightarrow> ContractSymbol \<Rightarrow> Side \<Rightarrow> int \<Rightarrow> bool" where
  "reduces pb c side q \<longleftrightarrow>
     \<bar>position_qty (pb_base pb) c + signed_qty side q\<bar> < \<bar>position_qty (pb_base pb) c\<bar>"

lemma prop_is_trade_allowed_alt:
  "prop_is_trade_allowed c side q pb =
     (if \<not> is_trade_allowed (pb_base pb) c side q then (False, pb)
      else if reduces pb c side q then (True, pb)
      else (fst (increasing_block_reason \<bar>position_qty (pb_base pb) c + signed_qty side q\<bar> pb) = None,
            snd (increasing_block_reason \<bar>position_qty (pb_base pb) c + signed_qty side q\<bar> pb)))"
proof -
  have s: "(case x of (Some block, pb1) \<Rightarrow> (False, pb1) | (None, pb1) \<Rightarrow> (True, pb1)) = (fst x = None, snd x)"
    for x :: "BlockReason option \<times> PropAwareMockBroker"
    by (cases x; cases "fst x") simp_all
  show ?thesis
    by (simp add: prop_is_trade_allowed_def reduces_def position_qty_def signed_qty_def Let_def s)
qed

lemma block_reason_None:
  "fst (increasing_block_reason n pb) = None \<longleftrightarrow>
     pb_halted pb = None \<and> n \<le> pb_max_contracts pb \<and>
     dneg (pb_daily_loss_limit pb) < mb_realized_pnl_today (pb_base pb) \<and>
     dsub (max (pb_equity_peak pb) (current_equity (pb_base pb))) (current_equity (pb_base pb)) < pb_trailing_max_loss_limit pb"
  by (auto simp: increasing_block_reason_def Let_def split: option.splits)

text \<open>
  The gate of a prop account refuses exactly what it documents. A positive quantity is permitted, unless
  all trading is blocked, if and only if it strictly shrinks the position in that contract, or the account is
  not halted, the resulting position is within \<open>max_contracts\<close>, the realized loss is below the daily limit and
  the equity is less than the trailing limit below its peak (the peak including the current equity). Asking
  never changes the book.
\<close>

theorem prop_gate_exact:
  "(fst (prop_is_trade_allowed c side q pb) \<longleftrightarrow>
      0 < q \<and> \<not> mb_block_all_trades (pb_base pb) \<and>
      (\<bar>position_qty (pb_base pb) c + signed_qty side q\<bar> < \<bar>position_qty (pb_base pb) c\<bar> \<or>
       pb_halted pb = None \<and> \<bar>position_qty (pb_base pb) c + signed_qty side q\<bar> \<le> pb_max_contracts pb \<and>
       dneg (pb_daily_loss_limit pb) < mb_realized_pnl_today (pb_base pb) \<and>
       dsub (max (pb_equity_peak pb) (current_equity (pb_base pb))) (current_equity (pb_base pb))
         < pb_trailing_max_loss_limit pb)) \<and>
   pb_base (snd (prop_is_trade_allowed c side q pb)) = pb_base pb"
  unfolding prop_is_trade_allowed_alt
  by (auto simp: block_reason_None block_reason_frame reduces_def is_trade_allowed_def)

text \<open>
  C11. Halts latch: once a session is halted it stays halted, with the same reason, through every further
  method call short of a reset; from then on the gate permits exactly the orders that shrink a position. The
  limits never change and the trailing equity peak never falls, halted or not.
\<close>

theorem prop_halt_latches:
  assumes "session pb pb'"
  shows "pb_equity_peak pb \<le> pb_equity_peak pb' \<and> same_limits pb pb' \<and>
         (\<forall>h. pb_halted pb = Some h \<longrightarrow>
            pb_halted pb' = Some h \<and>
            (\<forall>c side q. fst (prop_is_trade_allowed c side q pb') \<longleftrightarrow>
               is_trade_allowed (pb_base pb') c side q \<and> reduces pb' c side q))"
proof -
  from session_frame [OF assms] have f: "pb_equity_peak pb \<le> pb_equity_peak pb'" "same_limits pb pb'"
    "\<And>h. pb_halted pb = Some h \<Longrightarrow> pb_halted pb' = Some h" by blast+
  moreover have "fst (prop_is_trade_allowed c side q pb') \<longleftrightarrow> is_trade_allowed (pb_base pb') c side q \<and> reduces pb' c side q"
    if "pb_halted pb' = Some h" for c side q h
    using that by (simp add: prop_is_trade_allowed_alt block_reason_None)
  ultimately show ?thesis by blast
qed

definition prop_demo :: PropAwareMockBroker where
  "prop_demo = \<lparr>pb_base = session2, pb_daily_loss_limit = 500, pb_trailing_max_loss_limit = 1000, pb_max_contracts = 3,
                pb_initial_equity_peak = 52000, pb_equity_peak = 52000, pb_halted = None\<rparr>"

lemma session2_account: "mb_starting_equity session2 = 50000" "mb_block_all_trades session2 = False"
proof -
  have "same_config session0 session2"
    using fill_order_config [OF place_order_config [of session0 buy2], of "order_id 1" 5000 None]
    by (simp add: session1_def session2_def)
  then show "mb_starting_equity session2 = 50000" "mb_block_all_trades session2 = False"
    by (simp_all add: same_config_def session0_def)
qed

lemma session2_equity: "current_equity session2 = 50000"
  by (simp add: current_equity_def session2_account session2_books es_long_def dsum_def dec_exact)

lemma prop_demo_halts:
  "pb_halted (snd (prop_is_trade_allowed ''ESM26'' BUY 1 prop_demo)) = Some (MLL_breached 2000 1000)"
  using session2_fill(2)
  by (simp add: prop_is_trade_allowed_alt is_trade_allowed_def reduces_def prop_demo_def session2_account signed_qty_def
      increasing_block_reason_def Let_def session2_equity session2_books observe_def dec_exact)

theorem prop_halt_latches_witness:
  "\<exists>pb'. session prop_demo pb' \<and> pb_halted pb' = Some (MLL_breached 2000 1000) \<and>
     \<not> fst (prop_is_trade_allowed ''ESM26'' BUY 1 pb') \<and> fst (prop_is_trade_allowed ''ESM26'' SELL 2 pb')"
proof (intro exI conjI)
  let ?pb1 = "snd (prop_is_trade_allowed ''ESM26'' BUY 1 prop_demo)"
  let ?pb' = "snd (prop_get_account_metrics ?pb1)"
  have s: "session prop_demo ?pb1" "session ?pb1 ?pb'" by (auto intro: session_step.gate session_step.metrics)
  then show "session prop_demo ?pb'" by (rule rtranclp_trans)
  from prop_halt_latches [OF s(2)] prop_demo_halts
  show "pb_halted ?pb' = Some (MLL_breached 2000 1000)" "\<not> fst (prop_is_trade_allowed ''ESM26'' BUY 1 ?pb')"
    "fst (prop_is_trade_allowed ''ESM26'' SELL 2 ?pb')"
    using session2_fill(2) by (simp_all add: is_trade_allowed_def reduces_def prop_demo_def session2_account signed_qty_def)
qed

end
