(* ===== verification/Runtime.thy ===== *)
theory Runtime
  imports Verifier
begin

text \<open>
  The verifier presets and their selection (\<open>src/futur3/data/verifier_policies.py\<close>) and the runtime
  context that carries the selected policy (\<open>src/futur3/runtime/context.py\<close>). The environment is an
  association list; \<open>str.upper\<close> is modelled on ASCII text. The clock of a context is the function it
  calls for the current time.
\<close>

section \<open>Policy presets\<close>

definition SETTLE_EXACT :: VerifierPolicy where
  "SETTLE_EXACT = VerifierPolicy ''settle_exact_v1'' fail_closed 2 TIGHT 60 True []"

definition TICK_EXACT :: VerifierPolicy where
  "TICK_EXACT = VerifierPolicy ''tick_exact_v1'' fail_closed 2 TIGHT 15 True []"

definition OHLC_MAJORITY_A1 :: VerifierPolicy where
  "OHLC_MAJORITY_A1 = VerifierPolicy ''ohlc_majority_v1'' majority_vote 3 NORMAL 60 True []"

definition VOLUME_MAJORITY_A1 :: VerifierPolicy where
  "VOLUME_MAJORITY_A1 = VerifierPolicy ''volume_majority_v1'' majority_vote 3 WIDE 60 True []"

definition OI_TIER :: VerifierPolicy where
  "OI_TIER = VerifierPolicy ''oi_tier_v1'' highest_tier 1 NORMAL 60 True []"

definition OHLC_MAJORITY_C :: VerifierPolicy where
  "OHLC_MAJORITY_C = VerifierPolicy ''ohlc_majority_c_v1'' majority_vote 3 NORMAL 60 True []"

definition VOLUME_MAJORITY_C :: VerifierPolicy where
  "VOLUME_MAJORITY_C = VerifierPolicy ''volume_majority_c_v1'' majority_vote 3 WIDE 60 True []"

definition phase_a1_per_field :: "(string \<times> VerifierPolicy) list" where
  "phase_a1_per_field =
     [(FIELD_SETTLE, SETTLE_EXACT), (FIELD_TICK, TICK_EXACT), (FIELD_OHLC, OHLC_MAJORITY_A1),
      (FIELD_VOLUME, VOLUME_MAJORITY_A1), (FIELD_OI, OI_TIER)]"

definition phase_c_per_field :: "(string \<times> VerifierPolicy) list" where
  "phase_c_per_field =
     [(FIELD_SETTLE, SETTLE_EXACT), (FIELD_TICK, TICK_EXACT), (FIELD_OHLC, OHLC_MAJORITY_C),
      (FIELD_VOLUME, VOLUME_MAJORITY_C), (FIELD_OI, OI_TIER)]"

definition POLICY_PHASE_A1_DEFAULT :: VerifierPolicy where
  "POLICY_PHASE_A1_DEFAULT =
     VerifierPolicy ''phase_a1_default_v1'' fail_closed 3 NORMAL 60 True phase_a1_per_field"

definition POLICY_PHASE_B1_SHADOW :: VerifierPolicy where
  "POLICY_PHASE_B1_SHADOW =
     VerifierPolicy ''phase_b1_shadow_v1'' fail_closed 3 NORMAL 60 True phase_a1_per_field"

definition POLICY_PHASE_C_LIVE :: VerifierPolicy where
  "POLICY_PHASE_C_LIVE =
     VerifierPolicy ''phase_c_live_v1'' majority_vote 3 NORMAL 60 True phase_c_per_field"

definition VALID_POLICY_NAMES :: "(string \<times> VerifierPolicy) list" where
  "VALID_POLICY_NAMES =
     [(''PHASE_A1'', POLICY_PHASE_A1_DEFAULT), (''PHASE_B1'', POLICY_PHASE_B1_SHADOW), (''PHASE_C'', POLICY_PHASE_C_LIVE)]"

definition DEFAULT_POLICY_NAME :: string where
  "DEFAULT_POLICY_NAME = ''PHASE_A1''"

definition POLICY_ENV_VAR :: string where
  "POLICY_ENV_VAR = ''FUTUR3_VERIFIER_POLICY''"

type_synonym environ = "(string \<times> string) list"

definition resolve_policy :: "environ \<Rightarrow> VerifierPolicy res" where
  "resolve_policy env =
     (let raw = (case map_of env POLICY_ENV_VAR of Some v \<Rightarrow> v | None \<Rightarrow> DEFAULT_POLICY_NAME)
      in case map_of VALID_POLICY_NAMES (str_upper raw) of
           None \<Rightarrow> Inl UnknownPolicyError
         | Some p \<Rightarrow> Inr p)"

section \<open>RuntimeContext\<close>

datatype RuntimeMode = BACKTEST | LIVE_PAPER | LIVE_FUNDED

record RuntimeContext =
  rc_mode :: RuntimeMode
  rc_verifier_policy :: VerifierPolicy
  rc_clock :: "unit \<Rightarrow> datetime"
  rc_degraded_mode_allowed :: bool

definition is_backtest :: "RuntimeContext \<Rightarrow> bool" where
  "is_backtest c \<longleftrightarrow> rc_mode c = BACKTEST"

definition is_live :: "RuntimeContext \<Rightarrow> bool" where
  "is_live c \<longleftrightarrow> rc_mode c \<in> {LIVE_PAPER, LIVE_FUNDED}"

definition is_paper :: "RuntimeContext \<Rightarrow> bool" where
  "is_paper c \<longleftrightarrow> rc_mode c = LIVE_PAPER"

definition is_funded :: "RuntimeContext \<Rightarrow> bool" where
  "is_funded c \<longleftrightarrow> rc_mode c = LIVE_FUNDED"

definition from_env ::
  "(unit \<Rightarrow> datetime) \<Rightarrow> RuntimeMode \<Rightarrow> (unit \<Rightarrow> datetime) option \<Rightarrow> environ \<Rightarrow> bool \<Rightarrow> RuntimeContext res" where
  "from_env system_clock mode clock env degraded =
     bindE (resolve_policy env) (\<lambda>policy.
       Inr \<lparr>rc_mode = mode, rc_verifier_policy = policy,
            rc_clock = (case clock of Some c \<Rightarrow> c | None \<Rightarrow> system_clock),
            rc_degraded_mode_allowed = degraded\<rparr>)"

section \<open>Results\<close>

lemmas preset_simps =
  SETTLE_EXACT_def OHLC_MAJORITY_A1_def OHLC_MAJORITY_C_def phase_a1_per_field_def phase_c_per_field_def
  POLICY_PHASE_A1_DEFAULT_def POLICY_PHASE_B1_SHADOW_def POLICY_PHASE_C_LIVE_def
  FIELD_SETTLE_def FIELD_TICK_def FIELD_OHLC_def FIELD_VOLUME_def FIELD_OI_def

lemma upper_names: "str_upper ''PHASE_A1'' = ''PHASE_A1''" "str_upper ''phase_a1'' = ''PHASE_A1''"
  by code_simp+

lemma resolve_policy_preset:
  "resolve_policy env = Inr p \<Longrightarrow>
     p \<in> {POLICY_PHASE_A1_DEFAULT, POLICY_PHASE_B1_SHADOW, POLICY_PHASE_C_LIVE}"
  by (auto simp: resolve_policy_def VALID_POLICY_NAMES_def Let_def split: if_splits option.splits)

lemma preset_settle:
  "p \<in> {POLICY_PHASE_A1_DEFAULT, POLICY_PHASE_B1_SHADOW, POLICY_PHASE_C_LIVE} \<Longrightarrow>
     resolve_for_field p FIELD_SETTLE = SETTLE_EXACT"
  by (auto simp: preset_simps resolve_for_field_def)

text \<open>
  Whatever the environment says, a context that \<open>from_env\<close> returns verifies settles strictly: a
  verifier running under its policy only returns a settle on which at least two sources of tier two or
  better agree to the cent, and with which no such source that answered disagrees.
\<close>

theorem from_env_settles_strict:
  assumes "from_env sys mode clock env degraded = Inr ctx"
    and "mv_policy mv = rc_verifier_policy ctx"
    and "verify_settle dec_str now mv contract as_of = Inr (Verified v)"
  shows "2 \<le> vs_n_sources_agreed v \<and>
         (\<forall>s \<in> set (mv_sources mv). \<forall>x. tier s \<le> T2_MACRO \<longrightarrow> latest_settle s contract as_of = Inr (Some x) \<longrightarrow>
            st_settle x = vs_settle v)"
proof -
  have "resolve_for_field (mv_policy mv) FIELD_SETTLE = SETTLE_EXACT"
    using assms(1,2) resolve_policy_preset preset_settle by (auto simp: from_env_def bindE_Inr_iff)
  then show ?thesis
    using verify_settle_agreement [OF assms(3)]
    by (auto simp: SETTLE_EXACT_def tier_filter_def T2_OR_BETTER_MAX_TIER_def less_eq_SourceTier_def)
qed

definition a1_verifier :: MultiSourceVerifier where
  "a1_verifier = two_of_three\<lparr>mv_policy := POLICY_PHASE_A1_DEFAULT\<rparr>"

lemma a1_verifier_verifies: "\<exists>v. verify_settle dec_str now a1_verifier ''ESM26'' utc_noon = Inr (Verified v)"
proof (rule verify_settle_build)
  show "check_settle_consensus (map snd (settle_responses a1_verifier ''ESM26'' utc_noon))
          (resolve_for_field (mv_policy a1_verifier) FIELD_SETTLE) = Inr (True, 100, 0)"
    by (simp add: a1_verifier_def two_of_three_simps preset_simps check_settle_consensus_def dsub_def dabs_def dec28.rnd_zero)
  show "min_quorum (resolve_for_field (mv_policy a1_verifier) FIELD_SETTLE)
          \<le> int (length (settle_responses a1_verifier ''ESM26'' utc_noon))"
    by (simp add: a1_verifier_def two_of_three_simps preset_simps)
  show "traverse settle_provenance (settle_responses a1_verifier ''ESM26'' utc_noon)
          = Inr [source_provenance_hash ''cme'' \<lparr>dt_local = 63849600000000000, dt_off = Some 0\<rparr> '''',
                 source_provenance_hash ''ibkr'' \<lparr>dt_local = 63849600000000000, dt_off = Some 0\<rparr> '''']"
    by (simp add: a1_verifier_def two_of_three_simps preset_simps settle_provenance_def)
qed (auto simp: a1_verifier_def two_of_three_simps)

theorem from_env_settles_strict_witness:
  "\<exists>ctx v. from_env (\<lambda>_. utc_noon) BACKTEST None [(''FUTUR3_VERIFIER_POLICY'', ''phase_a1'')] False = Inr ctx
     \<and> verify_settle (\<lambda>_. '''') utc_noon a1_verifier ''ESM26'' utc_noon = Inr (Verified v) \<and> 2 \<le> vs_n_sources_agreed v"
proof -
  obtain v where v: "verify_settle (\<lambda>_. '''') utc_noon a1_verifier ''ESM26'' utc_noon = Inr (Verified v)"
    using a1_verifier_verifies by blast
  obtain ctx where ctx: "from_env (\<lambda>_. utc_noon) BACKTEST None [(''FUTUR3_VERIFIER_POLICY'', ''phase_a1'')] False = Inr ctx"
    and "rc_verifier_policy ctx = POLICY_PHASE_A1_DEFAULT"
    by (simp add: from_env_def resolve_policy_def POLICY_ENV_VAR_def VALID_POLICY_NAMES_def upper_names)
  then have "mv_policy a1_verifier = rc_verifier_policy ctx" by (simp add: a1_verifier_def)
  from from_env_settles_strict [OF ctx this v] show ?thesis using ctx v by blast
qed

text \<open>
  Policy selection fails loudly: the variable selects a preset exactly when its value, ignoring case,
  is one of the three names, an unset variable selects phase A1, and every other value raises
  \<open>UnknownPolicyError\<close>.
\<close>

theorem resolve_policy_fail_loud:
  "resolve_policy env =
     (case map_of env POLICY_ENV_VAR of
        None \<Rightarrow> Inr POLICY_PHASE_A1_DEFAULT
      | Some raw \<Rightarrow>
          if str_upper raw = ''PHASE_A1'' then Inr POLICY_PHASE_A1_DEFAULT
          else if str_upper raw = ''PHASE_B1'' then Inr POLICY_PHASE_B1_SHADOW
          else if str_upper raw = ''PHASE_C'' then Inr POLICY_PHASE_C_LIVE
          else Inl UnknownPolicyError)"
  by (cases "map_of env POLICY_ENV_VAR")
     (simp_all add: resolve_policy_def VALID_POLICY_NAMES_def DEFAULT_POLICY_NAME_def upper_names del: map_of_key)

end
