(* ===== verification/Engine_Broker.thy ===== *)
theory Engine_Broker
  imports Prop_Broker Runtime
begin

text \<open>
  The broker as the engines see it. The engines are written against \<open>MockBroker\<close> and run unchanged on its
  subclass: \<open>broker_ops\<close> is the table of the methods they call, with one table per class. The locale
  \<open>engine_broker\<close> is the contract the engines rely on: every call acts on the order book and the positions
  as \<open>MockBroker\<close> does, and a trade gate may refuse more but never writes the book. Both classes satisfy
  it, so what is proved of an engine inside the locale holds on either.
\<close>

record 's broker_ops =
  bo_advance :: "VerifiedBar \<Rightarrow> SlippageModel option \<Rightarrow> 's \<Rightarrow> OrderEvent list res \<times> 's"
  bo_roll :: "ContractSymbol \<Rightarrow> ContractSymbol \<Rightarrow> decimal \<Rightarrow> decimal \<Rightarrow> 's \<Rightarrow> int res \<times> 's"
  bo_metrics :: "'s \<Rightarrow> AccountMetrics res \<times> 's"
  bo_positions :: "'s \<Rightarrow> Position list"
  bo_allowed :: "ContractSymbol \<Rightarrow> Side \<Rightarrow> int \<Rightarrow> 's \<Rightarrow> bool \<times> 's"
  bo_place :: "Order \<Rightarrow> 's \<Rightarrow> string res \<times> 's"
  bo_trade_pnls :: "'s \<Rightarrow> decimal list"

definition mock_ops :: "MockBroker broker_ops" where
  "mock_ops =
     \<lparr>bo_advance = advance, bo_roll = roll_position, bo_metrics = (\<lambda>b. (get_account_metrics b, b)),
      bo_positions = get_positions, bo_allowed = (\<lambda>c side q b. (is_trade_allowed b c side q, b)),
      bo_place = place_order, bo_trade_pnls = mb_trade_pnls\<rparr>"

definition prop_ops :: "PropAwareMockBroker broker_ops" where
  "prop_ops =
     \<lparr>bo_advance = (\<lambda>bar slip. inherited (advance bar slip)),
      bo_roll = (\<lambda>front bk ff bf. inherited (roll_position front bk ff bf)),
      bo_metrics = prop_get_account_metrics, bo_positions = (\<lambda>pb. get_positions (pb_base pb)),
      bo_allowed = prop_is_trade_allowed, bo_place = (\<lambda>ord. inherited (place_order ord)),
      bo_trade_pnls = (\<lambda>pb. mb_trade_pnls (pb_base pb))\<rparr>"

locale engine_broker =
  fixes ops :: "'s broker_ops" and book :: "'s \<Rightarrow> MockBroker"
  assumes advance_book: "map_prod id book (bo_advance ops bar slip s) = advance bar slip (book s)"
    and roll_book: "map_prod id book (bo_roll ops front bk ff bf s) = roll_position front bk ff bf (book s)"
    and metrics_book: "map_prod id book (bo_metrics ops s) = (get_account_metrics (book s), book s)"
    and positions_book: "bo_positions ops s = get_positions (book s)"
    and allowed_stricter: "fst (bo_allowed ops c side q s) \<Longrightarrow> is_trade_allowed (book s) c side q"
    and allowed_book: "book (snd (bo_allowed ops c side q s)) = book s"
    and place_book: "map_prod id book (bo_place ops ord s) = place_order ord (book s)"
    and trade_pnls_book: "bo_trade_pnls ops s = mb_trade_pnls (book s)"
begin

lemma book_eqs:
  "bo_advance ops bar slip s = (r, s') \<Longrightarrow> advance bar slip (book s) = (r, book s')"
  "bo_roll ops front bk ff bf s = (r2, s') \<Longrightarrow> roll_position front bk ff bf (book s) = (r2, book s')"
  "bo_metrics ops s = (r3, s') \<Longrightarrow> r3 = get_account_metrics (book s) \<and> book s' = book s"
  "bo_place ops ord s = (r4, s') \<Longrightarrow> place_order ord (book s) = (r4, book s')"
  using advance_book [of bar slip s] roll_book [of front bk ff bf s] metrics_book [of s] place_book [of ord s]
  by (auto simp: map_prod_def split: prod.splits)

end

interpretation mock_eng: engine_broker mock_ops id
  by unfold_locales (simp_all add: mock_ops_def map_prod_def split: prod.splits)

interpretation prop_eng: engine_broker prop_ops pb_base
proof
  show "map_prod id pb_base (bo_metrics prop_ops s) = (get_account_metrics (pb_base s), pb_base s)" for s
    by (simp add: prop_ops_def prod_eq_iff)
  show "is_trade_allowed (pb_base s) c side q" if "fst (bo_allowed prop_ops c side q s)" for c side q s
    using that by (auto simp: prop_ops_def prop_is_trade_allowed_def split: if_splits)
qed (simp_all add: prop_ops_def prod_eq_iff)



end
