(* ===== verification/Trading_Calendar.thy ===== *)
theory Trading_Calendar
  imports Py_Dates
begin

text \<open>
  \<open>futur3/contracts/trading_calendar.py\<close>: the computed CME holidays and the trading-day
  arithmetic of \<open>CMETradingCalendar\<close>. A calendar is the record of its two override sets. Every
  operation returns an outcome, because the date constructor and the date additions it makes raise
  outside the years 1 to 9999 (the holiday set of a year looks at the following year, so a question
  about the year 9999 raises).

  Lemmas: Easter falls on a Sunday between 22 March and 25 April; every seven consecutive days of
  the computed calendar hold a trading day; \<open>add_trading_days\<close> moves by exactly \<open>n\<close> trading
  days, cannot exhaust its step budget on the computed calendar, and is undone by moving back.
\<close>

definition juneteenth_first_cme_year :: int where
  "juneteenth_first_cme_year = 2022"

definition observed :: "date \<Rightarrow> date res" where
  "observed holiday =
     (if weekday holiday = SATURDAY then date_add holiday (- 1)
      else if weekday holiday = SUNDAY then date_add holiday 1
      else Inr holiday)"

definition nth_weekday :: "int \<Rightarrow> int \<Rightarrow> int \<Rightarrow> int \<Rightarrow> date res" where
  "nth_weekday year month wd n =
     bindE (mk_date year month 1) (\<lambda>first.
       let offset = (wd - weekday first) mod 7
       in mk_date year month (1 + offset + (n - 1) * 7))"

definition last_weekday :: "int \<Rightarrow> int \<Rightarrow> int \<Rightarrow> date res" where
  "last_weekday year month wd =
     bindE (mk_date year month (days_in_month year month)) (\<lambda>last_day.
       date_add last_day (- ((weekday last_day - wd) mod 7)))"

definition easter_sunday :: "int \<Rightarrow> date res" where
  "easter_sunday year =
     (let golden = year mod 19;
          century = year div 100;
          year_of_century = year mod 100;
          century_div4 = century div 4;
          century_mod4 = century mod 4;
          correction = (century + 8) div 25;
          sunday_letter = (century - correction + 1) div 3;
          epact = (19 * golden + century - century_div4 - sunday_letter + 15) mod 30;
          yoc_div4 = year_of_century div 4;
          yoc_mod4 = year_of_century mod 4;
          offset = (32 + 2 * century_mod4 + 2 * yoc_div4 - epact - yoc_mod4) mod 7;
          month_seed = (golden + 11 * epact + 22 * offset) div 451;
          month = (epact + offset - 7 * month_seed + 114) div 31;
          day = (epact + offset - 7 * month_seed + 114) mod 31 + 1
      in mk_date year month day)"

definition good_friday :: "int \<Rightarrow> date res" where
  "good_friday year = bindE (easter_sunday year) (\<lambda>d. date_add d (- 2))"

definition anchored_holidays :: "int \<Rightarrow> date list res" where
  "anchored_holidays year =
     bindE (bindE (mk_date year 1 1) observed) (\<lambda>new_year.
     bindE (nth_weekday year 1 MONDAY 3) (\<lambda>mlk.
     bindE (nth_weekday year 2 MONDAY 3) (\<lambda>washington.
     bindE (good_friday year) (\<lambda>gf.
     bindE (last_weekday year 5 MONDAY) (\<lambda>memorial.
     bindE (bindE (mk_date year 7 4) observed) (\<lambda>independence.
     bindE (nth_weekday year 9 MONDAY 1) (\<lambda>labor.
     bindE (nth_weekday year 11 THURSDAY 4) (\<lambda>thanksgiving.
     bindE (bindE (mk_date year 12 25) observed) (\<lambda>christmas.
     let days = [new_year, mlk, washington, gf, memorial, independence, labor, thanksgiving, christmas]
     in if juneteenth_first_cme_year \<le> year
        then bindE (bindE (mk_date year 6 19) observed) (\<lambda>juneteenth. Inr (days @ [juneteenth]))
        else Inr days)))))))))"

definition holidays_in_year :: "int \<Rightarrow> date list res" where
  "holidays_in_year year =
     bindE (anchored_holidays year) (\<lambda>this_year.
     bindE (anchored_holidays (year + 1)) (\<lambda>next_year.
     Inr (filter (\<lambda>d. year_of d = year) (this_year @ next_year))))"

record cme_calendar =
  extra_holidays :: "date list"
  extra_trading :: "date list"

definition CMETradingCalendar :: "date list \<Rightarrow> date list \<Rightarrow> cme_calendar res" where
  "CMETradingCalendar holidays trading =
     (if list_ex (\<lambda>d. d \<in> set trading) holidays then Inl TradingCalendarError
      else Inr \<lparr>extra_holidays = holidays, extra_trading = trading\<rparr>)"

definition is_holiday :: "cme_calendar \<Rightarrow> date \<Rightarrow> bool res" where
  "is_holiday cal day =
     (if day \<in> set (extra_trading cal) then Inr False
      else if day \<in> set (extra_holidays cal) then Inr True
      else if SATURDAY \<le> weekday day then Inr False
      else bindE (holidays_in_year (year_of day)) (\<lambda>hs. Inr (day \<in> set hs)))"

definition is_trading_day :: "cme_calendar \<Rightarrow> date \<Rightarrow> bool res" where
  "is_trading_day cal day =
     (if day \<in> set (extra_trading cal) then Inr True
      else if day \<in> set (extra_holidays cal) then Inr False
      else if SATURDAY \<le> weekday day then Inr False
      else bindE (holidays_in_year (year_of day)) (\<lambda>hs. Inr (day \<notin> set hs)))"

text \<open>The loop of \<open>add_trading_days\<close>; \<open>left\<close> is the number of calendar steps still allowed.\<close>

fun add_trading_days_loop :: "cme_calendar \<Rightarrow> int \<Rightarrow> nat \<Rightarrow> nat \<Rightarrow> date \<Rightarrow> date res" where
  "add_trading_days_loop cal step left 0 current = Inr current"
| "add_trading_days_loop cal step 0 (Suc remaining) current =
     bindE (date_add current step) (\<lambda>_. Inl TradingCalendarError)"
| "add_trading_days_loop cal step (Suc left) (Suc remaining) current =
     bindE (date_add current step) (\<lambda>next.
     bindE (is_trading_day cal next) (\<lambda>open_day.
       add_trading_days_loop cal step left (if open_day then remaining else Suc remaining) next))"

definition add_trading_days :: "cme_calendar \<Rightarrow> date \<Rightarrow> int \<Rightarrow> date res" where
  "add_trading_days cal start n =
     (if n = 0 then Inr start
      else add_trading_days_loop cal (if 0 < n then 1 else - 1) (nat (\<bar>n\<bar> * 7 + 30)) (nat \<bar>n\<bar>) start)"

definition next_trading_day :: "cme_calendar \<Rightarrow> date \<Rightarrow> date res" where
  "next_trading_day cal day = add_trading_days cal day 1"

definition prev_trading_day :: "cme_calendar \<Rightarrow> date \<Rightarrow> date res" where
  "prev_trading_day cal day = add_trading_days cal day (- 1)"

text \<open>The loop of \<open>trading_days_between\<close> over the \<open>todo\<close> days that are left.\<close>

fun trading_days_between_loop :: "cme_calendar \<Rightarrow> nat \<Rightarrow> date \<Rightarrow> nat \<Rightarrow> nat res" where
  "trading_days_between_loop cal 0 current count = Inr count"
| "trading_days_between_loop cal (Suc todo) current count =
     bindE (is_trading_day cal current) (\<lambda>open_day.
     bindE (date_add current 1) (\<lambda>next.
       trading_days_between_loop cal todo next (if open_day then Suc count else count)))"

definition trading_days_between :: "cme_calendar \<Rightarrow> date \<Rightarrow> date \<Rightarrow> nat res" where
  "trading_days_between cal start end_day =
     (if end_day < start then Inl TradingCalendarError
      else trading_days_between_loop cal (nat (end_day - start + 1)) start 0)"

section \<open>Easter\<close>

lemma days_before_year_leap:
  "days_before_year y + (if is_leap y then 1 else 0) = 365 * (y - 1) + y div 4 - y div 100 + y div 400"
  using year_length [of y] by (simp add: days_before_year_def Let_def split: if_splits)

lemma easter_ordinal_mod7:
  fixes y :: int
  defines "C \<equiv> y div 100" and "Y \<equiv> y mod 100"
  assumes "offset = (32 + 2 * (C mod 4) + 2 * (Y div 4) - h - Y mod 4) mod 7"
  shows "(365 * (y - 1) + y div 4 - y div 100 + y div 400 + h + offset - 7 * s + 81) mod 7 = 0"
proof -
  define d e i k where "d = C div 4" "e = C mod 4" "i = Y div 4" "k = Y mod 4"
  note defs = this
  have C: "C = 4 * d + e" and Y: "Y = 4 * i + k" and y: "y = 100 * C + Y"
    by (simp_all add: defs C_def Y_def)
  have "y div 4 = 25 * C + i" using Y by (simp add: y defs) 
  moreover have "y div 100 = C" by (simp add: C_def)
  moreover have "y div 400 = d" using div_mult2_eq' [of y 100 4] by (simp add: defs C_def zdiv_zmult2_eq)
  moreover obtain q where q: "offset = 32 + 2 * e + 2 * i - h - k - 7 * q"
    using assms(3) unfolding defs by (metis minus_mult_div_eq_mod)
  ultimately have "365 * (y - 1) + y div 4 - y div 100 + y div 400 + h + offset - 7 * s + 81
      = 7 * (20871 * d + 5218 * e + 209 * i + 52 * k - 36 - s - q)"
    unfolding y C Y by (simp add: algebra_simps)
  then show ?thesis by (metis mod_mult_self1_is_0)
qed

lemma easter_seed_range:
  fixes g h l :: int
  assumes "0 \<le> g" "g < 19" "0 \<le> h" "h < 30" "0 \<le> l" "l < 7"
  shows "114 \<le> h + l - 7 * ((g + 11 * h + 22 * l) div 451) + 114"
    "h + l - 7 * ((g + 11 * h + 22 * l) div 451) + 114 \<le> 148"
proof -
  define s where "s = (g + 11 * h + 22 * l) div 451"
  have s: "451 * s \<le> g + 11 * h + 22 * l" "g + 11 * h + 22 * l < 451 * s + 451"
    unfolding s_def by linarith+
  have "0 \<le> s" "s \<le> 1" using s assms by linarith+
  then consider "s = 0" | "s = 1" by linarith
  then have "0 \<le> h + l - 7 * s \<and> h + l - 7 * s \<le> 34"
    by cases (use s assms in linarith)+
  then show "114 \<le> h + l - 7 * ((g + 11 * h + 22 * l) div 451) + 114"
    "h + l - 7 * ((g + 11 * h + 22 * l) div 451) + 114 \<le> 148"
    unfolding s_def [symmetric] by simp_all
qed

lemma march_april_ordinal:
  assumes N: "114 \<le> N" "N \<le> (148::int)" and y: "1 \<le> y" "y \<le> 9999"
  shows "mk_date y (N div 31) (N mod 31 + 1) = Inr (days_before_year y + (if is_leap y then 1 else 0) + N - 33)"
proof -
  define q r where q_r_def: "q = N div 31" "r = N mod 31"
  then have Nm: "N = 31 * q + r" "0 \<le> r" "r < 31" by simp_all
  with N have "q = 3 \<or> q = 4" by linarith
  then show ?thesis unfolding q_r_def [symmetric]
    using Nm N y by (auto simp: mk_date_def ymd2ord_def days_in_month_def)
qed

lemma easter_sunday_correct:
  assumes "1 \<le> y" "y \<le> 9999"
  shows "\<exists>d. easter_sunday y = Inr d \<and> weekday d = SUNDAY \<and> ymd2ord y 3 22 \<le> d \<and> d \<le> ymd2ord y 4 25"
proof -
  define g h l where "g = y mod 19"
    "h = (19 * g + y div 100 - y div 100 div 4 - (y div 100 - (y div 100 + 8) div 25 + 1) div 3 + 15) mod 30"
    "l = (32 + 2 * (y div 100 mod 4) + 2 * (y mod 100 div 4) - h - y mod 100 mod 4) mod 7"
  note defs = this
  define s where "s = (g + 11 * h + 22 * l) div 451"
  define N where "N = h + l - 7 * s + 114"
  have r: "0 \<le> g" "g < 19" "0 \<le> h" "h < 30" "0 \<le> l" "l < 7" by (simp_all add: defs)
  have N: "114 \<le> N" "N \<le> 148"
    using easter_seed_range [OF r] by (simp_all add: N_def s_def)
  define d where "d = days_before_year y + (if is_leap y then 1 else 0) + N - 33"
  have "easter_sunday y = mk_date y (N div 31) (N mod 31 + 1)"
    by (simp only: easter_sunday_def Let_def N_def s_def defs)
  also have "\<dots> = Inr d" unfolding d_def by (rule march_april_ordinal [OF N assms])
  finally have e: "easter_sunday y = Inr d" .
  have "d = 365 * (y - 1) + y div 4 - y div 100 + y div 400 + h + l - 7 * s + 81"
    unfolding d_def N_def using days_before_year_leap [of y] by linarith
  then have "d mod 7 = 0" using easter_ordinal_mod7 [OF defs(3), of s] by simp
  then have "weekday d = 6" by (simp add: weekday_def mod_add_eq [symmetric, of d])
  moreover have "ymd2ord y 3 22 \<le> d" "d \<le> ymd2ord y 4 25"
    using N by (auto simp: d_def ymd2ord_def)
  ultimately show ?thesis using e by blast
qed

lemma good_friday_correct:
  assumes "1 \<le> y" "y \<le> 9999"
  obtains d where "good_friday y = Inr d" "weekday d = FRIDAY"
proof -
  obtain e where e: "easter_sunday y = Inr e" "weekday e = SUNDAY" "ymd2ord y 3 22 \<le> e" "e \<le> ymd2ord y 4 25"
    using easter_sunday_correct [OF assms] by blast
  have "ymd2ord y 4 25 \<le> days_before_year (y + 1)"
    by (rule ymd2ord_in_year) (simp_all add: days_in_month_def)
  then have "date_add e (- 2) = Inr (e - 2)"
    using date_add_in_years [OF assms, of e "- 2"] e(3,4) by (auto simp: ymd2ord_def split: if_splits)
  moreover have "weekday (e - 2) = 4" using weekday_add [of e "- 2"] e(2) by simp
  ultimately show thesis using that e(1) by (simp add: good_friday_def)
qed

section \<open>The computed holidays\<close>

text \<open>
  A holiday that falls on a Tuesday, Wednesday or Thursday is one of the four fixed dates or the Thursday
  of the week of Thanksgiving.
\<close>

definition midweek :: "date \<Rightarrow> bool" where
  "midweek d \<longleftrightarrow> weekday d = 1 \<or> weekday d = 2 \<or> weekday d = 3"

definition fixed_dates :: "int \<Rightarrow> date set" where
  "fixed_dates y =
     {ymd2ord y 1 1, ymd2ord y 6 19, ymd2ord y 7 4, ymd2ord y 12 25}
     \<union> {d. ymd2ord y 11 22 \<le> d \<and> d \<le> ymd2ord y 11 28 \<and> weekday d = 3}"

lemma weekday_shift: "weekday d = w \<Longrightarrow> weekday (d + k) = (w + k) mod 7"
  by (simp add: weekday_add)

lemma observed_correct:
  assumes "1 \<le> d" "d < max_ordinal"
  shows "\<exists>h. observed d = Inr h \<and> (midweek h \<longrightarrow> h = d)"
proof (cases "d = 1")
  case True
  then show ?thesis by (simp add: observed_def weekday_def)
next
  case False
  then show ?thesis
    using assms weekday_shift [of d 5 "- 1"] weekday_shift [of d 6 1]
    by (auto simp: observed_def date_add_def midweek_def)
qed

lemma observed_fixed:
  assumes "1 \<le> y" "y \<le> 9999" "1 \<le> m" "m \<le> 12" "1 \<le> d" "d < days_in_month y m"
  shows "\<exists>h. bindE (mk_date y m d) observed = Inr h \<and> (midweek h \<longrightarrow> h = ymd2ord y m d)"
proof -
  have "ymd2ord y m d + 1 \<le> days_before_year (y + 1)"
    using ymd2ord_in_year(2) [of m "d + 1" y] assms by (simp add: ymd2ord_def)
  then have "ymd2ord y m d < max_ordinal" using days_before_year_range(2) [OF assms(2)] by linarith
  moreover have "1 \<le> ymd2ord y m d"
    using ymd2ord_in_year(1) [of m d y] days_before_year_range(1) [OF assms(1)] assms by simp
  ultimately show ?thesis using observed_correct [of "ymd2ord y m d"] assms by (auto simp: mk_date_def)
qed

lemma nth_weekday_correct:
  assumes "1 \<le> y" "y \<le> 9999" "1 \<le> m" "m \<le> 12" "1 \<le> n" "n \<le> 4" "0 \<le> w" "w < 7"
  shows "\<exists>d. nth_weekday y m w n = Inr d \<and> weekday d = w
           \<and> ymd2ord y m (7 * n - 6) \<le> d \<and> d \<le> ymd2ord y m (7 * n)"
proof -
  define f where "f = ymd2ord y m 1"
  define off where "off = (w - weekday f) mod 7"
  have off: "0 \<le> off" "off < 7" by (simp_all add: off_def)
  have "1 + off + (n - 1) * 7 \<le> days_in_month y m"
    using off assms days_in_month_bounds(1) [of y m] by (simp add: algebra_simps)
  then have "nth_weekday y m w n = Inr (f + off + (n - 1) * 7)"
    using assms off days_in_month_bounds(1) [of y m]
    by (simp add: nth_weekday_def mk_date_def off_def f_def Let_def ymd2ord_def)
  moreover have "weekday (f + off + (n - 1) * 7) = w"
  proof -
    have "weekday (f + off + (n - 1) * 7) = weekday (f + off)"
      unfolding weekday_add [of "f + off"] by (simp only: mod_mult_self1) simp
    also have "\<dots> = w" using assms by (simp add: weekday_add off_def mod_simps)
    finally show ?thesis .
  qed
  moreover have "ymd2ord y m (7 * n - 6) \<le> f + off + (n - 1) * 7" "f + off + (n - 1) * 7 \<le> ymd2ord y m (7 * n)"
    using off by (simp_all add: f_def ymd2ord_def)
  ultimately show ?thesis by blast
qed

lemma last_weekday_correct:
  assumes "1 \<le> y" "y \<le> 9999" "1 \<le> m" "m \<le> 12" "0 \<le> w" "w < 7"
  shows "\<exists>d. last_weekday y m w = Inr d \<and> weekday d = w
           \<and> ymd2ord y m (days_in_month y m) - 6 \<le> d \<and> d \<le> ymd2ord y m (days_in_month y m)"
proof -
  define l where "l = ymd2ord y m (days_in_month y m)"
  define bk where "bk = (weekday l - w) mod 7"
  have b: "0 \<le> bk" "bk < 7" by (simp_all add: bk_def)
  have "days_before_year y < l + - bk" "l + - bk \<le> days_before_year (y + 1)"
    using ymd2ord_in_year [of m "days_in_month y m" y] month_end(1) [of m y] b assms
      days_in_month_bounds(1) [of y m] by (simp_all add: l_def ymd2ord_def)
  then have "date_add l (- bk) = Inr (l - bk)" using date_add_in_years [OF assms(1,2), of l "- bk"] by simp
  then have "last_weekday y m w = Inr (l - bk)"
    using assms days_in_month_bounds(1) [of y m] by (simp add: last_weekday_def mk_date_def l_def bk_def)
  moreover have "weekday (l - bk) = w"
    using assms weekday_add [of l "- bk"] by (simp add: bk_def mod_simps)
  moreover have "l - 6 \<le> l - bk" "l - bk \<le> l" using b by simp_all
  ultimately show ?thesis unfolding l_def by blast
qed

lemma anchored_holidays_correct:
  assumes y: "1 \<le> y" "y \<le> 9999"
  shows "\<exists>hs. anchored_holidays y = Inr hs \<and> (\<forall>h \<in> set hs. midweek h \<longrightarrow> h \<in> fixed_dates y)"
proof -
  obtain ny where ny: "bindE (mk_date y 1 1) observed = Inr ny" "midweek ny \<longrightarrow> ny = ymd2ord y 1 1"
    using observed_fixed [of y 1 1] y by (auto simp: days_in_month_def)
  obtain jt where jt: "bindE (mk_date y 6 19) observed = Inr jt" "midweek jt \<longrightarrow> jt = ymd2ord y 6 19"
    using observed_fixed [of y 6 19] y by (auto simp: days_in_month_def)
  obtain ind where ind: "bindE (mk_date y 7 4) observed = Inr ind" "midweek ind \<longrightarrow> ind = ymd2ord y 7 4"
    using observed_fixed [of y 7 4] y by (auto simp: days_in_month_def)
  obtain xm where xm: "bindE (mk_date y 12 25) observed = Inr xm" "midweek xm \<longrightarrow> xm = ymd2ord y 12 25"
    using observed_fixed [of y 12 25] y by (auto simp: days_in_month_def)
  obtain mlk where mlk: "nth_weekday y 1 MONDAY 3 = Inr mlk" "weekday mlk = 0"
    using nth_weekday_correct [of y 1 3 0] y by auto
  obtain wb where wb: "nth_weekday y 2 MONDAY 3 = Inr wb" "weekday wb = 0"
    using nth_weekday_correct [of y 2 3 0] y by auto
  obtain lab where lab: "nth_weekday y 9 MONDAY 1 = Inr lab" "weekday lab = 0"
    using nth_weekday_correct [of y 9 1 0] y by auto
  obtain th where th: "nth_weekday y 11 THURSDAY 4 = Inr th" "th \<in> fixed_dates y"
    using nth_weekday_correct [of y 11 4 3] y by (auto simp: fixed_dates_def)
  obtain mem where mem: "last_weekday y 5 MONDAY = Inr mem" "weekday mem = 0"
    using last_weekday_correct [of y 5 0] y by auto
  obtain gf where gf: "good_friday y = Inr gf" "weekday gf = FRIDAY"
    by (rule good_friday_correct [OF y])
  have not_mid: "\<not> midweek mlk" "\<not> midweek wb" "\<not> midweek lab" "\<not> midweek mem" "\<not> midweek gf"
    by (simp_all add: midweek_def mlk wb lab mem gf)
  have "ymd2ord y 1 1 \<in> fixed_dates y" "ymd2ord y 6 19 \<in> fixed_dates y" "ymd2ord y 7 4 \<in> fixed_dates y"
    "ymd2ord y 12 25 \<in> fixed_dates y" by (simp_all add: fixed_dates_def)
  then show ?thesis
    using ny(2) jt(2) ind(2) xm(2) th(2) not_mid
    by (auto simp: anchored_holidays_def ny(1) jt(1) ind(1) xm(1) mlk(1) wb(1) lab(1) th(1) mem(1) gf(1) Let_def)
qed

text \<open>The ordinals of the fixed dates within their year.\<close>

lemma fixed_dates_offsets:
  assumes "f \<in> fixed_dates y" "l = (if is_leap y then 1 else 0)"
  obtains k where "f = days_before_year y + k"
    "k \<in> {1, 170 + l, 185 + l, 359 + l} \<or> 326 + l \<le> k \<and> k \<le> 332 + l \<and> weekday f = 3"
proof (rule that [of "f - days_before_year y"])
  show "f - days_before_year y \<in> {1, 170 + l, 185 + l, 359 + l}
          \<or> 326 + l \<le> f - days_before_year y \<and> f - days_before_year y \<le> 332 + l \<and> weekday f = 3"
    using assms by (auto simp: fixed_dates_def ymd2ord_def)
qed simp

lemma fixed_dates_year: "f \<in> fixed_dates y \<Longrightarrow> year_of f = y"
proof (rule year_of_eqI)
  assume f: "f \<in> fixed_dates y"
  obtain k where k: "f = days_before_year y + k" "1 \<le> k" "k \<le> 360"
    by (rule fixed_dates_offsets [OF f refl]) (auto split: if_splits)
  then show "days_before_year y < f" "f \<le> days_before_year (y + 1)" using year_length [of y] by (simp_all split: if_splits)
qed

text \<open>Two days of one week with the same name are the same day.\<close>

lemma weekday_unique:
  assumes "weekday a = weekday b" "a \<le> b" "b - a < 7"
  shows "a = b"
proof -
  have "(weekday a + (b - a)) mod 7 = weekday a" using weekday_add [of a "b - a"] assms(1) by simp
  then have "(b - a) mod 7 = 0" using assms(2,3) weekday_range [of a] by (simp add: mod_eq_0_iff_dvd) presburger
  then show ?thesis using assms(2,3) by simp
qed

lemma holidays_in_year_correct:
  assumes "1 \<le> y" "y \<le> 9998"
  shows "\<exists>hs. holidays_in_year y = Inr hs \<and> (\<forall>h \<in> set hs. midweek h \<longrightarrow> h \<in> fixed_dates y)"
proof -
  obtain h1 where h1: "anchored_holidays y = Inr h1" "\<forall>h \<in> set h1. midweek h \<longrightarrow> h \<in> fixed_dates y"
    using anchored_holidays_correct [of y] assms by auto
  obtain h2 where h2: "anchored_holidays (y + 1) = Inr h2" "\<forall>h \<in> set h2. midweek h \<longrightarrow> h \<in> fixed_dates (y + 1)"
    using anchored_holidays_correct [of "y + 1"] assms by auto
  have "h \<in> fixed_dates y" if "h \<in> set (h1 @ h2)" "year_of h = y" "midweek h" for h
    using that h1(2) h2(2) fixed_dates_year [of h "y + 1"] by auto
  then show ?thesis by (auto simp: holidays_in_year_def h1(1) h2(1))
qed

section \<open>Trading days\<close>

text \<open>The dates on which the computed calendar answers.\<close>

definition answerable :: "date \<Rightarrow> bool" where
  "answerable d \<longleftrightarrow> 1 \<le> d \<and> d \<le> days_before_year 9999"

lemma answerable_year: "answerable d \<Longrightarrow> 1 \<le> year_of d \<and> year_of d \<le> 9998"
proof -
  assume "answerable d"
  then have d: "1 \<le> d" "d \<le> days_before_year 9999" by (simp_all add: answerable_def)
  have "year_of 1 = 1" "year_of (days_before_year 9999) = 9998"
    by (rule year_of_eqI; simp add: days_before_year_def)+
  then show ?thesis using year_of_mono [OF d(1)] year_of_mono [OF d(2)] by simp
qed

lemma answerable_range: "answerable d \<Longrightarrow> 1 \<le> d \<and> d \<le> max_ordinal"
  by (simp add: answerable_def days_before_year_def max_ordinal_def)

lemma answerable_between: "answerable a \<Longrightarrow> answerable c \<Longrightarrow> a \<le> b \<Longrightarrow> b \<le> c \<Longrightarrow> answerable b"
  by (simp add: answerable_def)

lemma is_trading_day_answers: "answerable d \<Longrightarrow> \<exists>b. is_trading_day cal d = Inr b"
  using holidays_in_year_correct [of "year_of d"] answerable_year [of d] by (auto simp: is_trading_day_def)

lemma midweek_closed:
  assumes "answerable d" "extra_holidays cal = []" "midweek d" "is_trading_day cal d \<noteq> Inr True"
  shows "d \<in> fixed_dates (year_of d)"
proof -
  obtain hs where hs: "holidays_in_year (year_of d) = Inr hs" "\<forall>h \<in> set hs. midweek h \<longrightarrow> h \<in> fixed_dates (year_of d)"
    using holidays_in_year_correct [of "year_of d"] answerable_year [OF assms(1)] by auto
  have "\<not> SATURDAY \<le> weekday d" using assms(3) by (auto simp: midweek_def)
  then have "d \<in> set hs" using assms(2,4) by (auto simp: is_trading_day_def hs(1) split: if_splits)
  then show ?thesis using hs(2) assms(3) by blast
qed

lemma fixed_dates_apart:
  assumes a: "a \<in> fixed_dates y" and b: "b \<in> fixed_dates z" and lt: "a < b"
  shows "7 \<le> b - a"
proof -
  define l :: "int \<Rightarrow> int" where "l = (\<lambda>y. if is_leap y then 1 else 0)"
  have l: "0 \<le> l x" "l x \<le> 1" for x by (simp_all add: l_def)
  obtain k where k: "k \<in> {1, 170 + l y, 185 + l y, 359 + l y} \<or> 326 + l y \<le> k \<and> k \<le> 332 + l y \<and> weekday a = 3"
      "a = days_before_year y + k"
    by (rule fixed_dates_offsets [OF a refl]) (auto simp: l_def)
  obtain j where j: "j \<in> {1, 170 + l z, 185 + l z, 359 + l z} \<or> 326 + l z \<le> j \<and> j \<le> 332 + l z \<and> weekday b = 3"
      "b = days_before_year z + j"
    by (rule fixed_dates_offsets [OF b refl]) (auto simp: l_def)
  show ?thesis
  proof (cases "y = z")
    case True
    have "7 \<le> b - a" if "weekday a = 3" "weekday b = 3" using weekday_unique [of a b] that lt by force
    then show ?thesis using k j lt l [of y] True by auto
  next
    case False
    have "y \<le> z" using year_of_mono [of a b] lt fixed_dates_year [OF a] fixed_dates_year [OF b] by simp
    with False have "days_before_year (y + 1) \<le> days_before_year z" by (intro days_before_year_mono) auto
    moreover have "days_before_year (y + 1) = days_before_year y + 365 + l y"
      using year_length [of y] by (simp add: l_def)
    moreover have "k \<le> 359 + l y" "1 \<le> j" using k(1) j(1) l [of y] l [of z] by auto
    ultimately show ?thesis using k(2) j(2) by linarith
  qed
qed

lemma trading_day_in_week:
  assumes "extra_holidays cal = []" "answerable d" "answerable (d + 6)"
  shows "\<exists>i. 0 \<le> i \<and> i < 7 \<and> is_trading_day cal (d + i) = Inr True"
proof (rule ccontr)
  assume closed: "\<not> ?thesis"
  obtain i where i: "0 \<le> i" "i < 7" "weekday (d + i) = 1" using weekday_in_window [of 1 d] by auto
  obtain j where j: "0 \<le> j" "j < 7" "weekday (d + j) = 2" using weekday_in_window [of 2 d] by auto
  have "answerable (d + i)" "answerable (d + j)"
    using answerable_between [OF assms(2,3)] i j by simp_all
  then have "d + i \<in> fixed_dates (year_of (d + i))" "d + j \<in> fixed_dates (year_of (d + j))"
    using midweek_closed [OF _ assms(1)] closed i j by (auto simp: midweek_def)
  then show False
    using fixed_dates_apart [of "d + i" _ "d + j"] fixed_dates_apart [of "d + j" _ "d + i"] i j
    by (cases "i < j"; cases "j < i") auto
qed

text \<open>At most one of the three midweek days is closed, so every week has two open days.\<close>

lemma two_trading_days_in_week:
  assumes "extra_holidays cal = []" "answerable d" "answerable (d + 6)"
  shows "\<exists>i j. 0 \<le> i \<and> i < j \<and> j < 7 \<and> is_trading_day cal (d + i) = Inr True \<and> is_trading_day cal (d + j) = Inr True"
proof -
  define opn where "opn i \<longleftrightarrow> is_trading_day cal (d + i) = Inr True" for i
  obtain i where i: "0 \<le> i" "i < 7" "weekday (d + i) = 1" using weekday_in_window [of 1 d] by auto
  obtain j where j: "0 \<le> j" "j < 7" "weekday (d + j) = 2" using weekday_in_window [of 2 d] by auto
  obtain k where k: "0 \<le> k" "k < 7" "weekday (d + k) = 3" using weekday_in_window [of 3 d] by auto
  have one: "opn a \<or> opn b" if "0 \<le> a" "a < b" "b < 7" "midweek (d + a)" "midweek (d + b)" for a b
  proof (rule ccontr)
    assume "\<not> ?thesis"
    moreover have "answerable (d + a)" "answerable (d + b)" using answerable_between [OF assms(2,3)] that by simp_all
    ultimately have "d + a \<in> fixed_dates (year_of (d + a))" "d + b \<in> fixed_dates (year_of (d + b))"
      using midweek_closed [OF _ assms(1)] that by (auto simp: opn_def)
    then show False using fixed_dates_apart that by fastforce
  qed
  have mid: "midweek (d + i)" "midweek (d + j)" "midweek (d + k)" using i j k by (simp_all add: midweek_def)
  have ne: "i \<noteq> j" "i \<noteq> k" "j \<noteq> k" using i(3) j(3) k(3) by auto
  have "opn i \<or> opn j" "opn i \<or> opn k" "opn j \<or> opn k"
    using one [of i j] one [of j i] one [of i k] one [of k i] one [of j k] one [of k j] mid ne i(1,2) j(1,2) k(1,2)
    by linarith+
  then have "\<exists>a b. 0 \<le> a \<and> a < b \<and> b < 7 \<and> opn a \<and> opn b"
    using ne i(1,2) j(1,2) k(1,2) by (metis linorder_neqE)
  then show ?thesis by (simp add: opn_def)
qed

section \<open>Moving by trading days\<close>

definition open_on :: "cme_calendar \<Rightarrow> date \<Rightarrow> bool" where
  "open_on cal d \<longleftrightarrow> is_trading_day cal d = Inr True"

text \<open>The steps 1 to \<open>k\<close> of a walk that meet an open day.\<close>

definition open_steps :: "cme_calendar \<Rightarrow> int \<Rightarrow> date \<Rightarrow> nat \<Rightarrow> nat set" where
  "open_steps cal step cur k = {i. 1 \<le> i \<and> i \<le> k \<and> open_on cal (cur + step * int i)}"

definition walkable :: "cme_calendar \<Rightarrow> int \<Rightarrow> date \<Rightarrow> nat \<Rightarrow> bool" where
  "walkable cal step cur k \<longleftrightarrow>
     (\<forall>i. 1 \<le> i \<and> i \<le> k \<longrightarrow> 1 \<le> cur + step * int i \<and> cur + step * int i \<le> max_ordinal
        \<and> (\<exists>b. is_trading_day cal (cur + step * int i) = Inr b))"

lemma finite_open_steps [simp]: "finite (open_steps cal step cur k)"
  by (rule finite_subset [of _ "{..k}"]) (auto simp: open_steps_def)

lemma shift_step: "cur + step + step * int i = cur + step * int (Suc i)"
  by (simp add: algebra_simps)

lemma open_steps_Suc:
  "card (open_steps cal step cur (Suc k)) =
     (if open_on cal (cur + step) then 1 else 0) + card (open_steps cal step (cur + step) k)"
proof -
  have "open_steps cal step cur (Suc k) =
      (if open_on cal (cur + step) then {1} else {}) \<union> Suc ` open_steps cal step (cur + step) k"
    (is "?L = ?A \<union> ?B")
  proof (rule set_eqI)
    fix i
    show "i \<in> ?L \<longleftrightarrow> i \<in> ?A \<union> ?B"
      by (cases i rule: nat.exhaust; cases "i = 1") (auto simp: open_steps_def shift_step image_iff)
  qed
  moreover have "?A \<inter> ?B = {}" by (auto simp: open_steps_def)
  ultimately have "card ?L = card ?A + card ?B" by (simp add: card_Un_disjoint)
  then show ?thesis by (simp add: card_image)
qed

lemma walkable_0 [simp]: "walkable cal step cur 0"
  by (simp add: walkable_def)

lemma walkable_Suc:
  "walkable cal step cur (Suc k) \<longleftrightarrow>
     1 \<le> cur + step \<and> cur + step \<le> max_ordinal \<and> (\<exists>b. is_trading_day cal (cur + step) = Inr b)
     \<and> walkable cal step (cur + step) k"
  (is "?L \<longleftrightarrow> ?R")
proof
  assume L: ?L
  have "walkable cal step (cur + step) k"
    using L unfolding walkable_def shift_step by auto
  then show ?R using L by (auto simp: walkable_def)
next
  assume R: ?R
  show ?L unfolding walkable_def
  proof (intro allI impI)
    fix i assume i: "1 \<le> i \<and> i \<le> Suc k"
    show "1 \<le> cur + step * int i \<and> cur + step * int i \<le> max_ordinal
        \<and> (\<exists>b. is_trading_day cal (cur + step * int i) = Inr b)"
      using i R by (cases i; cases "i = 1") (auto simp: walkable_def shift_step)
  qed
qed

lemma ex_le_Suc:
  "(\<exists>k. 1 \<le> k \<and> k \<le> Suc n \<and> P k) \<longleftrightarrow> P 1 \<or> (\<exists>k. 1 \<le> k \<and> k \<le> n \<and> P (Suc k))"
proof
  assume "\<exists>k. 1 \<le> k \<and> k \<le> Suc n \<and> P k"
  then obtain k where k: "1 \<le> k" "k \<le> Suc n" "P k" by blast
  then obtain j where "k = Suc j" by (cases k) auto
  with k show "P 1 \<or> (\<exists>k. 1 \<le> k \<and> k \<le> n \<and> P (Suc k))" by (cases "j = 0") auto
qed (auto intro: exI [of _ 1] exI [of _ "Suc _"])

lemma add_trading_days_loop_iff:
  "add_trading_days_loop cal step left (Suc r) cur = Inr d \<longleftrightarrow>
     (\<exists>k. 1 \<le> k \<and> k \<le> left \<and> d = cur + step * int k \<and> open_on cal d
        \<and> walkable cal step cur k \<and> card (open_steps cal step cur k) = Suc r)"
  (is "?L left r cur \<longleftrightarrow> ?R left r cur")
proof (induction left arbitrary: r cur)
  case 0
  then show ?case by (auto simp: date_add_def)
next
  case (Suc left)
  let ?c = "cur + step"
  have k1: "?R (Suc left) r cur \<longleftrightarrow>
      (d = ?c \<and> open_on cal ?c \<and> walkable cal step cur 1 \<and> r = 0)
      \<or> (\<exists>k. 1 \<le> k \<and> k \<le> left \<and> d = ?c + step * int k \<and> open_on cal d
          \<and> walkable cal step cur (Suc k) \<and> card (open_steps cal step cur (Suc k)) = Suc r)"
    (is "_ \<longleftrightarrow> ?A \<or> ?B")
  proof -
    have one: "card (open_steps cal step cur 1) = (if open_on cal ?c then 1 else 0)"
      using open_steps_Suc [of cal step cur 0] by (simp add: open_steps_def)
    show ?thesis unfolding ex_le_Suc using one by (auto simp: shift_step)
  qed
  show ?case
  proof (cases "1 \<le> ?c \<and> ?c \<le> max_ordinal \<and> (\<exists>b. is_trading_day cal ?c = Inr b)")
    case False
    then have "\<not> ?L (Suc left) r cur" by (auto simp: date_add_def res_simps)
    moreover have "\<not> walkable cal step cur (Suc k)" for k using False by (simp add: walkable_Suc)
    ultimately show ?thesis unfolding k1 by (metis One_nat_def)
  next
    case True
    then obtain b where b: "is_trading_day cal ?c = Inr b" by blast
    have L: "add_trading_days_loop cal step (Suc left) (Suc r) cur =
        add_trading_days_loop cal step left (if b then r else Suc r) ?c"
      using True b by (simp add: date_add_def)
    have ob: "open_on cal ?c \<longleftrightarrow> b" by (simp add: open_on_def b)
    have w: "walkable cal step cur 1" "walkable cal step cur (Suc k) \<longleftrightarrow> walkable cal step ?c k" for k
      using True walkable_Suc [of cal step cur 0] by (simp_all add: walkable_Suc)
    show ?thesis
    proof (cases "b \<and> r = 0")
      case True
      have "\<not> ?B"
      proof
        assume ?B
        then obtain k where k: "1 \<le> k" "d = ?c + step * int k" "open_on cal d"
          "card (open_steps cal step cur (Suc k)) = Suc r" by blast
        then have "k \<in> open_steps cal step ?c k" by (simp add: open_steps_def)
        then have "0 < card (open_steps cal step ?c k)" by (auto simp: card_gt_0_iff)
        then show False using k(4) True ob by (simp add: open_steps_Suc)
      qed
      then show ?thesis unfolding k1 L using True ob w by auto
    next
      case False
      then obtain r' where r': "(if b then r else Suc r) = Suc r'"
        by (cases "if b then r else Suc r") (auto split: if_splits)
      have "?L left r' ?c \<longleftrightarrow> ?R left r' ?c" by (rule Suc.IH)
      then show ?thesis unfolding k1 L r' using False ob w r' by (auto simp: open_steps_Suc split: if_splits)
    qed
  qed
qed

lemma add_trading_days_iff:
  assumes "n \<noteq> 0"
  shows "add_trading_days cal start n = Inr d \<longleftrightarrow>
     (\<exists>k. 1 \<le> k \<and> k \<le> nat (\<bar>n\<bar> * 7 + 30) \<and> d = start + sgn n * int k \<and> open_on cal d
        \<and> walkable cal (sgn n) start k \<and> card (open_steps cal (sgn n) start k) = nat \<bar>n\<bar>)"
proof -
  obtain r where r: "nat \<bar>n\<bar> = Suc r" using assms by (cases "nat \<bar>n\<bar>") auto
  have "(if 0 < n then 1 else - 1) = sgn n" using assms by (simp add: sgn_if)
  then show ?thesis using assms by (simp add: add_trading_days_def r add_trading_days_loop_iff)
qed

lemma open_steps_snoc:
  "open_steps cal step cur (Suc k) =
     open_steps cal step cur k \<union> (if open_on cal (cur + step * int (Suc k)) then {Suc k} else {})"
  by (auto simp: open_steps_def le_Suc_eq)

lemma card_open_steps_snoc:
  "card (open_steps cal step cur (Suc k)) =
     card (open_steps cal step cur k) + (if open_on cal (cur + step * int (Suc k)) then 1 else 0)"
proof -
  have "Suc k \<notin> open_steps cal step cur k" by (simp add: open_steps_def)
  then show ?thesis by (simp add: open_steps_snoc)
qed

lemma card_open_steps_mono: "j \<le> k \<Longrightarrow> card (open_steps cal step cur j) \<le> card (open_steps cal step cur k)"
  by (intro card_mono) (auto simp: open_steps_def)

lemma open_steps_dates:
  assumes "step = 1 \<or> step = - 1"
  shows "card (open_steps cal step cur k) = card ((\<lambda>i. cur + step * int i) ` open_steps cal step cur k)"
  using assms by (intro card_image [symmetric] inj_onI) auto

lemma open_steps_forward:
  "(\<lambda>i. cur + 1 * int i) ` open_steps cal 1 cur k = {x. cur < x \<and> x \<le> cur + int k \<and> open_on cal x}"
proof (intro set_eqI iffI)
  fix x assume "x \<in> {x. cur < x \<and> x \<le> cur + int k \<and> open_on cal x}"
  then have "nat (x - cur) \<in> open_steps cal 1 cur k \<and> x = cur + 1 * int (nat (x - cur))"
    by (auto simp: open_steps_def)
  then show "x \<in> (\<lambda>i. cur + 1 * int i) ` open_steps cal 1 cur k" by blast
qed (auto simp: open_steps_def)

lemma open_steps_backward:
  "(\<lambda>i. cur + - 1 * int i) ` open_steps cal (- 1) cur k = {x. cur - int k \<le> x \<and> x < cur \<and> open_on cal x}"
proof (intro set_eqI iffI)
  fix x assume "x \<in> {x. cur - int k \<le> x \<and> x < cur \<and> open_on cal x}"
  then have "nat (cur - x) \<in> open_steps cal (- 1) cur k \<and> x = cur + - 1 * int (nat (cur - x))"
    by (auto simp: open_steps_def)
  then show "x \<in> (\<lambda>i. cur + - 1 * int i) ` open_steps cal (- 1) cur k" by blast
qed (auto simp: open_steps_def)

lemma add_trading_days_forward:
  assumes "add_trading_days cal start n = Inr d" "0 < n"
  shows "start < d \<and> open_on cal d \<and> card {x. start < x \<and> x \<le> d \<and> open_on cal x} = nat n"
proof -
  obtain k where k: "1 \<le> k" "d = start + int k" "open_on cal d" "card (open_steps cal 1 start k) = nat n"
    using assms add_trading_days_iff [of n cal start d] by auto
  then show ?thesis using open_steps_dates [of 1 cal start k] by (simp add: open_steps_forward [simplified])
qed

lemma add_trading_days_backward:
  assumes "add_trading_days cal start n = Inr d" "n < 0"
  shows "d < start \<and> open_on cal d \<and> card {x. d \<le> x \<and> x < start \<and> open_on cal x} = nat (- n)"
proof -
  obtain k where k: "1 \<le> k" "d = start - int k" "open_on cal d" "card (open_steps cal (- 1) start k) = nat (- n)"
    using assms add_trading_days_iff [of n cal start d] by auto
  then show ?thesis using open_steps_dates [of "- 1" cal start k] by (simp add: open_steps_backward [simplified])
qed

lemma first_reach:
  fixes f :: "nat \<Rightarrow> nat"
  assumes "f 0 = 0" "\<And>k. f (Suc k) \<le> f k + 1" "n \<le> f m" "0 < n"
  obtains k where "1 \<le> k" "k \<le> m" "f k = n" "f k = Suc (f (k - 1))"
proof -
  define k where "k = (LEAST k. n \<le> f k)"
  have nk: "n \<le> f k" unfolding k_def by (rule LeastI [of _ m]) (rule assms(3))
  then have k0: "k \<noteq> 0" using assms(1,4) by (metis not_le)
  have "k \<le> m" unfolding k_def by (rule Least_le) (rule assms(3))
  moreover have "\<not> n \<le> f (k - 1)"
    using not_less_Least [of "k - 1" "\<lambda>k. n \<le> f k"] k0 unfolding k_def [symmetric] by simp
  moreover have "f k \<le> f (k - 1) + 1" using assms(2) [of "k - 1"] k0 by simp
  ultimately show thesis using that [of k] nk k0 by auto
qed

lemma weekly_open_steps:
  assumes "\<And>j. j < r \<Longrightarrow> \<exists>i. 1 \<le> i \<and> i \<le> 7 \<and> open_on cal (cur + step * int (7 * j + i))"
  shows "r \<le> card (open_steps cal step cur (7 * r))"
  using assms
proof (induction r)
  case 0
  then show ?case by simp
next
  case (Suc r)
  obtain i where i: "1 \<le> i" "i \<le> 7" "open_on cal (cur + step * int (7 * r + i))" using Suc.prems [of r] by auto
  have "insert (7 * r + i) (open_steps cal step cur (7 * r)) \<subseteq> open_steps cal step cur (7 * Suc r)"
    using i by (auto simp: open_steps_def)
  then have "card (insert (7 * r + i) (open_steps cal step cur (7 * r))) \<le> card (open_steps cal step cur (7 * Suc r))"
    by (intro card_mono) simp_all
  moreover have "7 * r + i \<notin> open_steps cal step cur (7 * r)" using i by (simp add: open_steps_def)
  ultimately show ?case using Suc by simp
qed

lemma add_trading_days_finds:
  assumes "n \<noteq> 0" "walkable cal (sgn n) start m" "nat \<bar>n\<bar> \<le> card (open_steps cal (sgn n) start m)"
    and "m \<le> nat (\<bar>n\<bar> * 7 + 30)"
  shows "\<exists>d. add_trading_days cal start n = Inr d"
proof -
  define f where "f k = card (open_steps cal (sgn n) start k)" for k
  have step: "f (Suc k) = f k + (if open_on cal (start + sgn n * int (Suc k)) then 1 else 0)" for k
    unfolding f_def by (rule card_open_steps_snoc)
  have f0: "f 0 = 0" by (simp add: f_def open_steps_def)
  have fs: "f (Suc k) \<le> f k + 1" for k by (simp add: step)
  have fm: "nat \<bar>n\<bar> \<le> f m" using assms(3) by (simp add: f_def)
  have n: "0 < nat \<bar>n\<bar>" using assms(1) by simp
  obtain k where k: "1 \<le> k" "k \<le> m" "f k = nat \<bar>n\<bar>" "f k = Suc (f (k - 1))"
    by (rule first_reach [OF f0 fs fm n])
  have "Suc (k - 1) = k" using k(1) by simp
  then have "open_on cal (start + sgn n * int k)" using step [of "k - 1"] k(4) by (metis add.right_neutral n_not_Suc_n)
  moreover have "walkable cal (sgn n) start k" using assms(2) k(2) by (auto simp: walkable_def)
  ultimately have "add_trading_days cal start n = Inr (start + sgn n * int k)"
    unfolding add_trading_days_iff [OF assms(1)] using k assms(4)
    by (intro exI [of _ k] conjI) (simp_all add: f_def)
  then show ?thesis by blast
qed

lemma add_trading_days_exists:
  assumes "extra_holidays cal = []" "answerable start" "answerable (start + 7 * n)"
  shows "\<exists>d. add_trading_days cal start n = Inr d"
proof (cases "n = 0")
  case True
  then show ?thesis by (simp add: add_trading_days_def)
next
  case False
  define r where "r = nat \<bar>n\<bar>"
  have n: "n = sgn n * int r" by (simp add: r_def sgn_if)
  have sg: "sgn n = 1 \<or> sgn n = - 1" using False by (simp add: sgn_if)
  have ans: "answerable (start + sgn n * int i)" if "i \<le> 7 * r" for i
  proof -
    have "sgn n * int i \<le> 0 \<and> 7 * n \<le> sgn n * int i \<or> 0 \<le> sgn n * int i \<and> sgn n * int i \<le> 7 * n"
      using sg that n by auto
    then show ?thesis
      using answerable_between [OF assms(2,3)] answerable_between [OF assms(3,2)] by auto
  qed
  have w: "walkable cal (sgn n) start (7 * r)"
    using ans is_trading_day_answers answerable_range by (auto simp: walkable_def)
  have week: "\<exists>i. 1 \<le> i \<and> i \<le> 7 \<and> open_on cal (start + sgn n * int (7 * j + i))" if j: "j < r" for j
  proof -
    define b where "b = (if sgn n = 1 then start + int (7 * j + 1) else start - int (7 * j + 7))"
    have "answerable b" "answerable (b + 6)"
      using ans [of "7 * j + 1"] ans [of "7 * j + 7"] j sg by (auto simp: b_def algebra_simps)
    then obtain i where i: "0 \<le> i" "i < 7" "is_trading_day cal (b + i) = Inr True"
      using trading_day_in_week [OF assms(1)] by blast
    show ?thesis
    proof (cases "sgn n = 1")
      case True
      then have "open_on cal (start + sgn n * int (7 * j + nat (i + 1)))"
        using i by (simp add: open_on_def b_def algebra_simps)
      then show ?thesis using i by (intro exI [of _ "nat (i + 1)"]) auto
    next
      case False
      then have "sgn n = - 1" using sg by simp
      then have "open_on cal (start + sgn n * int (7 * j + nat (7 - i)))"
        using i by (simp add: open_on_def b_def algebra_simps)
      then show ?thesis using i by (intro exI [of _ "nat (7 - i)"]) auto
    qed
  qed
  have "r \<le> card (open_steps cal (sgn n) start (7 * r))" by (rule weekly_open_steps [OF week])
  then show ?thesis using add_trading_days_finds [OF False w] by (simp add: r_def)
qed

text \<open>A walk of \<open>k\<close> steps from \<open>start\<close> to \<open>d\<close>, seen from its other end.\<close>

lemma mirror_step: "d = start + s * int k \<Longrightarrow> i \<le> k \<Longrightarrow> d + - s * int i = start + s * int (k - i)"
  by (simp add: of_nat_diff algebra_simps)

lemma walkable_mirror:
  assumes "d = start + s * int k" "walkable cal s start k" "open_on cal start" "1 \<le> start" "start \<le> max_ordinal"
  shows "walkable cal (- s) d k"
  unfolding walkable_def
proof (intro allI impI)
  fix i assume i: "1 \<le> i \<and> i \<le> k"
  show "1 \<le> d + - s * int i \<and> d + - s * int i \<le> max_ordinal \<and> (\<exists>b. is_trading_day cal (d + - s * int i) = Inr b)"
  proof (cases "i = k")
    case True
    then show ?thesis using mirror_step [OF assms(1), of k] assms(3-5) by (auto simp: open_on_def)
  next
    case False
    then have "1 \<le> k - i \<and> k - i \<le> k" using i by auto
    then show ?thesis using assms(2) mirror_step [OF assms(1), of i] i unfolding walkable_def by auto
  qed
qed

lemma open_steps_mirror:
  assumes d: "d = start + s * int (Suc m)" and st: "open_on cal start"
  shows "open_steps cal (- s) d (Suc m) = insert (Suc m) ((\<lambda>j. Suc m - j) ` open_steps cal s start m)"
proof (intro set_eqI iffI)
  fix i assume "i \<in> open_steps cal (- s) d (Suc m)"
  then have i: "1 \<le> i" "i \<le> Suc m" "open_on cal (start + s * int (Suc m - i))"
    using mirror_step [OF d] by (auto simp: open_steps_def)
  show "i \<in> insert (Suc m) ((\<lambda>j. Suc m - j) ` open_steps cal s start m)"
  proof (cases "i = Suc m")
    case False
    then have "Suc m - i \<in> open_steps cal s start m" "i = Suc m - (Suc m - i)" using i by (auto simp: open_steps_def)
    then show ?thesis by blast
  qed simp
next
  fix i assume "i \<in> insert (Suc m) ((\<lambda>j. Suc m - j) ` open_steps cal s start m)"
  then consider "i = Suc m" | j where "j \<in> open_steps cal s start m" "i = Suc m - j" by blast
  then show "i \<in> open_steps cal (- s) d (Suc m)"
  proof cases
    case 1
    then show ?thesis using mirror_step [OF d, of "Suc m"] st by (simp add: open_steps_def)
  next
    case 2
    then have j: "1 \<le> j" "j \<le> m" "open_on cal (start + s * int j)" "i = Suc m - j" by (auto simp: open_steps_def)
    then have "open_on cal (d + - s * int i)" using mirror_step [OF d, of i] by simp
    then show ?thesis using j unfolding open_steps_def by simp
  qed
qed

lemma card_open_steps_mirror:
  assumes "d = start + s * int k" "1 \<le> k" "open_on cal start" "open_on cal d"
  shows "card (open_steps cal (- s) d k) = card (open_steps cal s start k)"
proof -
  obtain m where m: "k = Suc m" using assms(2) by (cases k) auto
  have "Suc m \<notin> (\<lambda>j. Suc m - j) ` open_steps cal s start m" by (auto simp: open_steps_def)
  moreover have "inj_on (\<lambda>j. Suc m - j) (open_steps cal s start m)" by (rule inj_onI) (auto simp: open_steps_def)
  ultimately have "card (open_steps cal (- s) d k) = Suc (card (open_steps cal s start m))"
    using open_steps_mirror [of d start s m cal] assms(1,3) by (simp add: m card_image)
  also have "\<dots> = card (open_steps cal s start k)" using assms(1,4) by (simp add: m card_open_steps_snoc)
  finally show ?thesis .
qed

lemma add_trading_days_undo:
  assumes "add_trading_days cal start n = Inr d" "open_on cal start" "1 \<le> start" "start \<le> max_ordinal"
  shows "add_trading_days cal d (- n) = Inr start"
proof (cases "n = 0")
  case True
  with assms(1) show ?thesis by (simp add: add_trading_days_def)
next
  case False
  define s where "s = sgn n"
  obtain k where k: "1 \<le> k" "k \<le> nat (\<bar>n\<bar> * 7 + 30)" "d = start + s * int k" "open_on cal d"
    "walkable cal s start k" "card (open_steps cal s start k) = nat \<bar>n\<bar>"
    using assms(1) add_trading_days_iff [OF False] by (auto simp: s_def)
  have "walkable cal (- s) d k" by (rule walkable_mirror [OF k(3,5) assms(2-4)])
  moreover have "card (open_steps cal (- s) d k) = card (open_steps cal s start k)"
    by (rule card_open_steps_mirror [OF k(3,1) assms(2) k(4)])
  moreover have "start = d + - s * int k" using mirror_step [OF k(3), of k] by simp
  moreover have n: "- n \<noteq> 0" "sgn (- n) = - s" using False by (simp_all add: s_def sgn_minus)
  ultimately show ?thesis
    using k(1,2,6) assms(2) unfolding add_trading_days_iff [OF n(1)]
    by (intro exI [of _ k] conjI) (simp_all only: abs_minus_cancel)
qed

lemma add_trading_days_antimono:
  assumes "add_trading_days cal start (- m) = Inr a" "add_trading_days cal start (- n) = Inr b" "0 \<le> n" "n \<le> m"
  shows "a \<le> b"
proof (cases "n = 0 \<or> m = 0")
  case True
  then have "n = 0" using assms(3,4) by linarith
  then have "b = start" using assms(2) by (simp add: add_trading_days_def)
  moreover have "a \<le> start"
    using assms(1,3,4) add_trading_days_backward [of cal start "- m" a]
    by (cases "m = 0") (auto simp: add_trading_days_def [of _ _ 0])
  ultimately show ?thesis by simp
next
  case False
  obtain k where k: "a = start - int k" "card (open_steps cal (- 1) start k) = nat m"
    using assms(1,3,4) False add_trading_days_iff [of "- m" cal start a] by auto
  obtain j where j: "1 \<le> j" "b = start - int j" "open_on cal b" "card (open_steps cal (- 1) start j) = nat n"
    using assms(2,3) False add_trading_days_iff [of "- n" cal start b] by auto
  have "j \<le> k"
  proof (rule ccontr)
    assume "\<not> j \<le> k"
    then obtain i where i: "j = Suc i" "k \<le> i" by (cases j) auto
    then have "nat m \<le> card (open_steps cal (- 1) start i)" using card_open_steps_mono [OF i(2)] k(2) by metis
    moreover have "nat n = Suc (card (open_steps cal (- 1) start i))"
    proof -
      have "b = start + - 1 * int (Suc i)" using j(2) by (simp add: i(1))
      then show ?thesis using j(3,4) by (simp add: i(1) card_open_steps_snoc)
    qed
    ultimately show False using assms(4) by simp
  qed
  then show ?thesis using k(1) j(2) by simp
qed

lemma trading_days_between_loop_counts:
  assumes "trading_days_between_loop cal todo cur count = Inr c"
  shows "c = count + card {x. cur \<le> x \<and> x < cur + int todo \<and> open_on cal x}"
  using assms
proof (induction todo arbitrary: cur count)
  case 0
  then show ?case using card_eq_0_iff by fastforce
next
  case (Suc todo)
  then obtain b where b: "is_trading_day cal cur = Inr b"
    and rest: "trading_days_between_loop cal todo (cur + 1) (if b then Suc count else count) = Inr c"
    by (auto simp: res_simps date_add_def split: if_splits)
  let ?S = "{x. cur + 1 \<le> x \<and> x < cur + 1 + int todo \<and> open_on cal x}"
  have "{x. cur \<le> x \<and> x < cur + int (Suc todo) \<and> open_on cal x} = (if b then insert cur ?S else ?S)"
    using b by (auto simp: open_on_def order_le_less)
  moreover have "finite ?S" by (rule finite_subset [of _ "{cur + 1..<cur + 1 + int todo}"]) auto
  ultimately show ?case using Suc.IH [OF rest] by (simp split: if_splits)
qed

section \<open>Properties\<close>

definition default_calendar :: cme_calendar where
  "default_calendar = \<lparr>extra_holidays = [], extra_trading = []\<rparr>"

text \<open>
  C21. \<open>add_trading_days\<close> moves by exactly \<open>n\<close> trading days: a result lies strictly after
  (before) \<open>start\<close> for positive (negative) \<open>n\<close>, is itself a trading day, and the trading
  days walked over, the result included and \<open>start\<close> excluded, number \<open>|n|\<close>.
\<close>
theorem add_trading_days_moves_n:
  assumes "add_trading_days cal start n = Inr d"
  shows "(0 < n \<longrightarrow> start < d \<and> is_trading_day cal d = Inr True
            \<and> card {x. start < x \<and> x \<le> d \<and> is_trading_day cal x = Inr True} = nat n)
       \<and> (n < 0 \<longrightarrow> d < start \<and> is_trading_day cal d = Inr True
            \<and> card {x. d \<le> x \<and> x < start \<and> is_trading_day cal x = Inr True} = nat (- n))
       \<and> (n = 0 \<longrightarrow> d = start)"
  using add_trading_days_forward [OF assms] add_trading_days_backward [OF assms] assms
  by (auto simp: open_on_def add_trading_days_def)

text \<open>Independence Day 2026 falls on a Saturday and is observed on Friday 3 July.\<close>
theorem add_trading_days_moves_n_witness:
  "add_trading_days default_calendar (ymd2ord 2026 7 2) 1 = Inr (ymd2ord 2026 7 6)
   \<and> card {x. ymd2ord 2026 7 2 < x \<and> x \<le> ymd2ord 2026 7 6 \<and> is_trading_day default_calendar x = Inr True} = 1"
proof -
  have h: "add_trading_days default_calendar (ymd2ord 2026 7 2) 1 = Inr (ymd2ord 2026 7 6)" by code_simp
  show ?thesis using add_trading_days_moves_n [OF h] h by simp
qed

text \<open>
  On the computed calendar (no extra holidays) \<open>add_trading_days\<close> always returns: its budget
  of \<open>7|n| + 30\<close> calendar steps is never exhausted and no date arithmetic raises, whenever
  \<open>start\<close> and \<open>start + 7n\<close> lie in the years 1 to 9998.
\<close>
theorem add_trading_days_total:
  assumes "extra_holidays cal = []" "1 \<le> start" "start \<le> days_before_year 9999"
    and "1 \<le> start + 7 * n" "start + 7 * n \<le> days_before_year 9999"
  shows "\<exists>d. add_trading_days cal start n = Inr d"
  using add_trading_days_exists [of cal start n] assms by (simp add: answerable_def)

theorem add_trading_days_total_witness:
  "\<exists>d. add_trading_days default_calendar (ymd2ord 2026 1 5) (- 250) = Inr d"
  by (rule add_trading_days_total) (simp_all add: default_calendar_def ymd2ord_def days_before_year_def)

text \<open>
  Moving by \<open>n\<close> trading days from a trading day and then by \<open>-n\<close> returns to the start,
  for every calendar, overrides included.
\<close>
theorem add_trading_days_roundtrip:
  assumes "is_trading_day cal start = Inr True" "1 \<le> start" "start \<le> max_ordinal"
    and "add_trading_days cal start n = Inr d"
  shows "add_trading_days cal d (- n) = Inr start"
  using add_trading_days_undo [OF assms(4)] assms(1-3) by (simp add: open_on_def)

theorem add_trading_days_roundtrip_witness:
  "add_trading_days default_calendar (ymd2ord 2026 7 6) (- 1) = Inr (ymd2ord 2026 7 2)"
proof -
  have h: "add_trading_days default_calendar (ymd2ord 2026 7 2) 1 = Inr (ymd2ord 2026 7 6)" by code_simp
  have t: "is_trading_day default_calendar (ymd2ord 2026 7 2) = Inr True" by code_simp
  show ?thesis
    using add_trading_days_roundtrip [OF t _ _ h] by (simp add: ymd2ord_def days_before_year_def max_ordinal_def)
qed

text \<open>
  The Easter computation is right about the calendar: for every year Python's dates have, it
  returns a Sunday that lies between 22 March and 25 April of that year, so Good Friday is a Friday.
\<close>
theorem easter_sunday_is_sunday:
  assumes "1 \<le> y" "y \<le> 9999"
  shows "\<exists>d. easter_sunday y = Inr d \<and> weekday d = SUNDAY \<and> year_of d = y
           \<and> ymd2ord y 3 22 \<le> d \<and> d \<le> ymd2ord y 4 25"
proof -
  obtain d where d: "easter_sunday y = Inr d" "weekday d = SUNDAY" "ymd2ord y 3 22 \<le> d" "d \<le> ymd2ord y 4 25"
    using easter_sunday_correct [OF assms] by blast
  have "year_of (ymd2ord y 3 22) = y" "year_of (ymd2ord y 4 25) = y" by (simp_all add: days_in_month_def)
  then have "year_of d = y" using year_of_mono [OF d(3)] year_of_mono [OF d(4)] by simp
  with d show ?thesis by blast
qed

theorem easter_sunday_is_sunday_witness:
  "\<exists>d. easter_sunday 2026 = Inr d \<and> weekday d = SUNDAY \<and> year_of d = 2026
     \<and> ymd2ord 2026 3 22 \<le> d \<and> d \<le> ymd2ord 2026 4 25"
  by (rule easter_sunday_is_sunday) simp_all

text \<open>
  \<open>trading_days_between\<close> returns only for an interval that is not inverted, and then the
  number of trading days of the closed interval, both ends included.
\<close>
theorem trading_days_between_counts:
  assumes "trading_days_between cal s e = Inr c"
  shows "s \<le> e \<and> c = card {x. s \<le> x \<and> x \<le> e \<and> is_trading_day cal x = Inr True}"
proof -
  have le: "s \<le> e" using assms by (auto simp: trading_days_between_def split: if_splits)
  then have "c = card {x. s \<le> x \<and> x < s + int (nat (e - s + 1)) \<and> open_on cal x}"
    using trading_days_between_loop_counts [of cal "nat (e - s + 1)" s 0 c] assms
    by (simp add: trading_days_between_def)
  then show ?thesis using le by (simp add: open_on_def)
qed

theorem trading_days_between_counts_witness:
  "trading_days_between default_calendar (ymd2ord 2026 7 1) (ymd2ord 2026 7 6) = Inr 3
   \<and> card {x. ymd2ord 2026 7 1 \<le> x \<and> x \<le> ymd2ord 2026 7 6 \<and> is_trading_day default_calendar x = Inr True} = 3"
proof -
  have h: "trading_days_between default_calendar (ymd2ord 2026 7 1) (ymd2ord 2026 7 6) = Inr 3" by code_simp
  show ?thesis using trading_days_between_counts [OF h] h by simp
qed

end
