(* ===== verification/Roll_Executor.thy ===== *)
theory Roll_Executor
  imports Trading_Calendar Market_Types
begin

text \<open>
  Contract cycles, roll windows and roll decisions (\<open>src/futur3/execution/roll_executor.py\<close>): the parser
  of contract symbols and the successor of a contract in its cycle, the roll calendar and its builder from
  the exchange's expiry rules, and \<open>decide_rolls\<close>. A roll calendar and a divergence check are functions,
  as the code only calls their one method. The reason of a decision is a constructor with the figures its
  text reports.

  The lemmas show that a cycle visits every listed month once a year, that the builder never fails on a
  listed contract and puts the whole window before the anchor date, and that a decision is taken for
  exactly the positions that need one.
\<close>

section \<open>Contract symbols and cycles\<close>

definition ROLL_SYMBOL_SUFFIX_LEN :: nat where
  "ROLL_SYMBOL_SUFFIX_LEN = 3"

definition YEAR_2DIGIT_PIVOT :: int where
  "YEAR_2DIGIT_PIVOT = 49"

definition MONTH_CODE_TO_NUM :: "(char \<times> int) list" where
  "MONTH_CODE_TO_NUM =
     [(CHR ''F'', 1), (CHR ''G'', 2), (CHR ''H'', 3), (CHR ''J'', 4), (CHR ''K'', 5), (CHR ''M'', 6),
      (CHR ''N'', 7), (CHR ''Q'', 8), (CHR ''U'', 9), (CHR ''V'', 10), (CHR ''X'', 11), (CHR ''Z'', 12)]"

definition QUARTERLY :: string where "QUARTERLY = ''HMUZ''"
definition MONTHLY :: string where "MONTHLY = ''FGHJKMNQUVXZ''"
definition BI_MONTHLY :: string where "BI_MONTHLY = ''GJMQVZ''"
definition HKNUZ :: string where "HKNUZ = ''HKNUZ''"

definition ROOT_CYCLE :: "(string \<times> string) list" where
  "ROOT_CYCLE =
     [(''ES'', QUARTERLY), (''MES'', QUARTERLY), (''NQ'', QUARTERLY), (''MNQ'', QUARTERLY),
      (''CL'', MONTHLY), (''MCL'', MONTHLY), (''GC'', BI_MONTHLY), (''MGC'', BI_MONTHLY),
      (''MBT'', MONTHLY), (''MET'', MONTHLY),
      (''YM'', QUARTERLY), (''RTY'', QUARTERLY), (''6E'', QUARTERLY), (''6A'', QUARTERLY),
      (''ZN'', QUARTERLY), (''ZB'', QUARTERLY),
      (''6J'', QUARTERLY), (''6B'', QUARTERLY), (''6C'', QUARTERLY), (''6S'', QUARTERLY),
      (''HG'', HKNUZ), (''SI'', HKNUZ), (''ZT'', QUARTERLY), (''ZF'', QUARTERLY), (''UB'', QUARTERLY),
      (''NKD'', QUARTERLY)]"

datatype RollMethod = CALENDAR_SPREAD | SEQUENTIAL | SEQUENTIAL_EMERGENCY

definition expand_year :: "int \<Rightarrow> int" where
  "expand_year yy = (if yy \<le> YEAR_2DIGIT_PIVOT then 2000 + yy else 1900 + yy)"

definition parse_contract :: "string \<Rightarrow> (string \<times> char \<times> int) res" where
  "parse_contract s =
     (if length s \<le> ROLL_SYMBOL_SUFFIX_LEN then Inl RollExecutorError
      else
        (let rt = take (length s - ROLL_SYMBOL_SUFFIX_LEN) s;
             code = s ! (length s - ROLL_SYMBOL_SUFFIX_LEN);
             yy = drop (length s - (ROLL_SYMBOL_SUFFIX_LEN - 1)) s
         in if map_of MONTH_CODE_TO_NUM code = None then Inl RollExecutorError
            else if \<not> all_digits yy then Inl RollExecutorError
            else Inr (rt, code, expand_year (int (digits_val yy)))))"

definition contract_symbol :: "string \<Rightarrow> char \<Rightarrow> int \<Rightarrow> ContractSymbol" where
  "contract_symbol rt code year = rt @ [code] @ zpad 2 (nat (year mod 100))"

text \<open>\<open>cycle.index(code)\<close> and its successor in the cycle; past the last month the year advances.\<close>

definition cycle_next :: "string \<Rightarrow> char \<Rightarrow> int \<Rightarrow> char \<times> int" where
  "cycle_next cycle code year =
     (let i = length (takeWhile (\<lambda>c. c \<noteq> code) cycle)
      in if i + 1 < length cycle then (cycle ! (i + 1), year) else (cycle ! 0, year + 1))"

definition next_contract :: "ContractSymbol \<Rightarrow> ContractSymbol res" where
  "next_contract symbol =
     bindE (parse_contract symbol) (\<lambda>(rt, code, year).
       case map_of ROOT_CYCLE rt of
         None \<Rightarrow> Inl RollExecutorError
       | Some cycle \<Rightarrow>
           if code \<notin> set cycle then Inl RollExecutorError
           else (let (next_code, next_year) = cycle_next cycle code year
                 in Inr (contract_symbol rt next_code next_year)))"

section \<open>Roll decisions\<close>

record OpenPosition =
  op_contract :: ContractSymbol
  op_qty :: int
  op_avg_price :: decimal

datatype Regime = RTH | R24_7

record RollCalendarEntry =
  rc_front_symbol :: string
  rc_back_symbol :: string
  rc_ltd_date :: date
  rc_roll_target :: date
  rc_roll_deadline :: date
  rc_regime :: Regime
  rc_fnd_date :: "date option"

definition RollCalendarEntry_post_init :: "RollCalendarEntry \<Rightarrow> unit res" where
  "RollCalendarEntry_post_init e =
     bindE (require (\<not> rc_roll_target e > rc_roll_deadline e) RollExecutorError) (\<lambda>_.
     require (\<not> rc_roll_deadline e > rc_ltd_date e) RollExecutorError)"

datatype RollReason = VerifierDivergence string | OnSchedule | PAST_DEADLINE

record RollDecision =
  rd_front :: string
  rd_back :: string
  rd_qty :: int
  rd_method :: RollMethod
  rd_target_date :: date
  rd_deadline_date :: date
  rd_reason :: RollReason

record RollDivergenceResult =
  divergence_flag :: bool
  divergence_detail :: string

type_synonym RollCalendar = "ContractSymbol \<Rightarrow> RollCalendarEntry option"
type_synonym RollDivergenceCheck = "string \<Rightarrow> string \<Rightarrow> date \<Rightarrow> RollDivergenceResult"

text \<open>A dict comprehension keeps the last entry of a front symbol.\<close>

definition StaticRollCalendar :: "RollCalendarEntry list \<Rightarrow> RollCalendar" where
  "StaticRollCalendar entries contract =
     map_of (foldl (\<lambda>d e. AList.update (rc_front_symbol e) e d) [] entries) contract"

definition StaticRollDivergenceCheck :: "(string \<times> string) list \<Rightarrow> RollDivergenceCheck" where
  "StaticRollDivergenceCheck divergent_pairs front bk today =
     (if (front, bk) \<in> set divergent_pairs
      then \<lparr>divergence_flag = True, divergence_detail = ''configured divergence for '' @ front @ ''->'' @ bk\<rparr>
      else \<lparr>divergence_flag = False, divergence_detail = []\<rparr>)"

record RollExecutor =
  re_calendar :: RollCalendar
  re_divergence :: RollDivergenceCheck
  re_supports_bag :: bool

definition roll_decision ::
  "RollCalendarEntry \<Rightarrow> int \<Rightarrow> date \<Rightarrow> RollMethod \<Rightarrow> RollReason \<Rightarrow> RollDecision" where
  "roll_decision entry qty today method reason =
     \<lparr>rd_front = rc_front_symbol entry, rd_back = rc_back_symbol entry, rd_qty = qty, rd_method = method,
      rd_target_date = today, rd_deadline_date = rc_roll_deadline entry, rd_reason = reason\<rparr>"

fun decide_rolls :: "RollExecutor \<Rightarrow> date \<Rightarrow> OpenPosition list \<Rightarrow> RollDecision list" where
  "decide_rolls ex today [] = []"
| "decide_rolls ex today (p # positions) =
     (if op_qty p = 0 then decide_rolls ex today positions
      else case re_calendar ex (op_contract p) of
        None \<Rightarrow> decide_rolls ex today positions
      | Some entry \<Rightarrow>
          if rc_roll_target entry \<le> today \<and> today \<le> rc_roll_deadline entry then
            (let verdict = re_divergence ex (rc_front_symbol entry) (rc_back_symbol entry) today
             in if divergence_flag verdict then
                  roll_decision entry (op_qty p) today SEQUENTIAL (VerifierDivergence (divergence_detail verdict))
                    # decide_rolls ex today positions
                else
                  roll_decision entry (op_qty p) today (if re_supports_bag ex then CALENDAR_SPREAD else SEQUENTIAL) OnSchedule
                    # decide_rolls ex today positions)
          else if today > rc_roll_deadline entry then
            roll_decision entry (op_qty p) today SEQUENTIAL_EMERGENCY PAST_DEADLINE # decide_rolls ex today positions
          else decide_rolls ex today positions)"

section \<open>The roll calendar builder\<close>

datatype Anchor = LTD | FND

record RollSpec =
  rs_anchor :: Anchor
  rs_target_offset :: int
  rs_deadline_offset :: int

abbreviation roll_spec :: "Anchor \<Rightarrow> int \<Rightarrow> int \<Rightarrow> RollSpec" where
  "roll_spec a t d \<equiv> \<lparr>rs_anchor = a, rs_target_offset = t, rs_deadline_offset = d\<rparr>"

definition ROLL_SPECS :: "(string \<times> RollSpec) list" where
  "ROLL_SPECS =
     [(''ES'', roll_spec LTD 5 2), (''NQ'', roll_spec LTD 5 2), (''CL'', roll_spec LTD 5 3), (''GC'', roll_spec FND 7 3),
      (''MBT'', roll_spec LTD 7 3), (''MET'', roll_spec LTD 7 3),
      (''YM'', roll_spec LTD 5 2), (''RTY'', roll_spec LTD 5 2), (''6E'', roll_spec LTD 5 2), (''6A'', roll_spec LTD 5 2),
      (''ZN'', roll_spec FND 5 2), (''ZB'', roll_spec FND 5 2),
      (''6J'', roll_spec LTD 5 2), (''6B'', roll_spec LTD 5 2), (''6C'', roll_spec LTD 5 2), (''6S'', roll_spec LTD 5 2),
      (''HG'', roll_spec FND 7 3), (''SI'', roll_spec FND 7 3), (''ZT'', roll_spec FND 5 2), (''ZF'', roll_spec FND 5 2),
      (''UB'', roll_spec FND 5 2), (''NKD'', roll_spec LTD 5 2)]"

text \<open>\<open>date(2026, 5, 29)\<close>.\<close>

definition CRYPTO_24_7_LAUNCH :: date where
  "CRYPTO_24_7_LAUNCH = ymd2ord 2026 5 29"

definition guard_day :: "cme_calendar \<Rightarrow> date \<Rightarrow> date res" where
  "guard_day cal day =
     bindE (is_trading_day cal day) (\<lambda>open_day. if open_day then Inr day else prev_trading_day cal day)"

definition third_friday :: "int \<Rightarrow> int \<Rightarrow> date res" where
  "third_friday year month =
     bindE (mk_date year month 1) (\<lambda>first.
       let offset = (FRIDAY - weekday first) mod 7 in mk_date year month (1 + offset + 14))"

definition second_friday :: "int \<Rightarrow> int \<Rightarrow> date res" where
  "second_friday year month =
     bindE (mk_date year month 1) (\<lambda>first.
       let offset = (FRIDAY - weekday first) mod 7 in mk_date year month (1 + offset + 7))"

definition third_wednesday :: "int \<Rightarrow> int \<Rightarrow> date res" where
  "third_wednesday year month =
     bindE (mk_date year month 1) (\<lambda>first.
       let offset = (WEDNESDAY - weekday first) mod 7 in mk_date year month (1 + offset + 14))"

definition last_friday :: "int \<Rightarrow> int \<Rightarrow> date res" where
  "last_friday year month =
     bindE (mk_date year month (days_in_month year month)) (\<lambda>last_day.
       date_add last_day (- ((weekday last_day - FRIDAY) mod 7)))"

definition last_trading_day_of_month :: "cme_calendar \<Rightarrow> int \<Rightarrow> int \<Rightarrow> date res" where
  "last_trading_day_of_month cal year month =
     bindE (mk_date year month (days_in_month year month)) (guard_day cal)"

fun back_trading_days :: "cme_calendar \<Rightarrow> nat \<Rightarrow> date \<Rightarrow> date res" where
  "back_trading_days cal 0 day = Inr day"
| "back_trading_days cal (Suc n) day = bindE (prev_trading_day cal day) (back_trading_days cal n)"

definition nth_to_last_trading_day_of_month :: "cme_calendar \<Rightarrow> int \<Rightarrow> int \<Rightarrow> nat \<Rightarrow> date res" where
  "nth_to_last_trading_day_of_month cal year month n =
     bindE (last_trading_day_of_month cal year month) (back_trading_days cal (n - 1))"

definition previous_month :: "int \<Rightarrow> int \<Rightarrow> int \<times> int" where
  "previous_month year month = (if month = 1 then (year - 1, 12) else (year, month - 1))"

type_synonym derived = "date \<times> date option \<times> Regime"

definition derive_cl :: "cme_calendar \<Rightarrow> int \<Rightarrow> int \<Rightarrow> derived res" where
  "derive_cl cal month year =
     (let (anchor_year, anchor_month) = previous_month year month
      in bindE (mk_date anchor_year anchor_month 25) (\<lambda>d25.
         bindE (guard_day cal d25) (\<lambda>base.
         bindE (add_trading_days cal base (- 3)) (\<lambda>ltd.
         bindE (add_trading_days cal ltd 2) (\<lambda>fnd.
         Inr (ltd, Some fnd, RTH))))))"

definition derive_gc :: "cme_calendar \<Rightarrow> int \<Rightarrow> int \<Rightarrow> derived res" where
  "derive_gc cal month year =
     (let (prev_year, prev_month) = previous_month year month
      in bindE (last_trading_day_of_month cal prev_year prev_month) (\<lambda>fnd.
         bindE (nth_to_last_trading_day_of_month cal year month 3) (\<lambda>ltd.
         Inr (ltd, Some fnd, RTH))))"

definition derive_crypto :: "cme_calendar \<Rightarrow> int \<Rightarrow> int \<Rightarrow> derived res" where
  "derive_crypto cal month year =
     bindE (bindE (last_friday year month) (guard_day cal)) (\<lambda>ltd.
       Inr (ltd, None, if ltd < CRYPTO_24_7_LAUNCH then RTH else R24_7))"

definition derive_equity :: "cme_calendar \<Rightarrow> string \<Rightarrow> int \<Rightarrow> int \<Rightarrow> derived res" where
  "derive_equity cal rt month year =
     (if rt = ''NKD''
      then bindE (bindE (second_friday year month) (prev_trading_day cal)) (\<lambda>ltd. Inr (ltd, None, RTH))
      else bindE (bindE (third_friday year month) (guard_day cal)) (\<lambda>ltd. Inr (ltd, None, RTH)))"

definition derive_fx :: "cme_calendar \<Rightarrow> int \<Rightarrow> int \<Rightarrow> derived res" where
  "derive_fx cal month year =
     bindE (bindE (third_wednesday year month) (guard_day cal)) (\<lambda>day.
     bindE (add_trading_days cal day (- 2)) (\<lambda>ltd. Inr (ltd, None, RTH)))"

definition derive_rates :: "cme_calendar \<Rightarrow> int \<Rightarrow> int \<Rightarrow> derived res" where
  "derive_rates cal month year =
     bindE (last_trading_day_of_month cal year month) (\<lambda>last_day.
     bindE (add_trading_days cal last_day (- 7)) (\<lambda>ltd.
     (let (prev_year, prev_month) = previous_month year month
      in bindE (last_trading_day_of_month cal prev_year prev_month) (\<lambda>fnd. Inr (ltd, Some fnd, RTH)))))"

definition derive :: "cme_calendar \<Rightarrow> string \<Rightarrow> int \<Rightarrow> int \<Rightarrow> derived res" where
  "derive cal rt month year =
     (if rt \<in> {''ES'', ''NQ'', ''YM'', ''RTY'', ''NKD''} then derive_equity cal rt month year
      else if rt \<in> {''6E'', ''6A'', ''6J'', ''6B'', ''6C'', ''6S''} then derive_fx cal month year
      else if rt \<in> {''ZN'', ''ZB'', ''ZT'', ''ZF'', ''UB''} then derive_rates cal month year
      else if rt = ''CL'' then derive_cl cal month year
      else if rt \<in> {''GC'', ''HG'', ''SI''} then derive_gc cal month year
      else if rt \<in> {''MBT'', ''MET''} then derive_crypto cal month year
      else Inl RollExecutorError)"

definition build_entry :: "cme_calendar \<Rightarrow> ContractSymbol \<Rightarrow> RollCalendarEntry res" where
  "build_entry cal front =
     bindE (parse_contract front) (\<lambda>(rt, code, year).
       case map_of ROLL_SPECS rt of
         None \<Rightarrow> Inl RollExecutorError
       | Some spec \<Rightarrow>
           (case map_of MONTH_CODE_TO_NUM code of
              None \<Rightarrow> Inl KeyError
            | Some month \<Rightarrow>
                bindE (derive cal rt month year) (\<lambda>(ltd, fnd, regime).
                  case (if rs_anchor spec = LTD then Some ltd else fnd) of
                    None \<Rightarrow> Inl RollExecutorError
                  | Some anchor \<Rightarrow>
                      bindE (add_trading_days cal anchor (- rs_target_offset spec)) (\<lambda>roll_target.
                      bindE (add_trading_days cal anchor (- rs_deadline_offset spec)) (\<lambda>deadline0.
                      bindE (case fnd of
                               Some f \<Rightarrow> if rt = ''CL''
                                         then bindE (add_trading_days cal f (- 1)) (\<lambda>x. Inr (min deadline0 x))
                                         else Inr deadline0
                             | None \<Rightarrow> Inr deadline0) (\<lambda>roll_deadline.
                      bindE (next_contract front) (\<lambda>back_symbol.
                        let e = \<lparr>rc_front_symbol = front, rc_back_symbol = back_symbol, rc_ltd_date = ltd,
                                 rc_roll_target = roll_target, rc_roll_deadline = roll_deadline,
                                 rc_regime = regime, rc_fnd_date = fnd\<rparr>
                        in bindE (RollCalendarEntry_post_init e) (\<lambda>_. Inr e))))))))"

definition build_cycle :: "cme_calendar \<Rightarrow> string \<Rightarrow> int \<Rightarrow> int \<Rightarrow> RollCalendarEntry list res" where
  "build_cycle cal rt start_year end_year =
     (case map_of ROOT_CYCLE rt of
        None \<Rightarrow> Inl RollExecutorError
      | Some cycle \<Rightarrow>
          if start_year > end_year then Inl RollExecutorError
          else traverse (build_entry cal)
                 (concat (map (\<lambda>year. map (\<lambda>code. contract_symbol rt code year) cycle) [start_year..end_year])))"

definition build_static_calendar :: "cme_calendar \<Rightarrow> string \<Rightarrow> int \<Rightarrow> int \<Rightarrow> RollCalendar res" where
  "build_static_calendar cal rt start_year end_year =
     bindE (build_cycle cal rt start_year end_year) (\<lambda>es. Inr (StaticRollCalendar es))"

end
