(* ===== verification/Backtest_Engine.thy ===== *)
theory Backtest_Engine
  imports Engine_Broker Continuous
begin

text \<open>
  The single-stream backtest (\<open>src/futur3/engine/backtest.py\<close>) and the signal of a strategy
  (\<open>src/futur3/strategies/base.py\<close>). The engine's fields are the record \<open>BacktestEngine\<close>; the local
  variables of \<open>run\<close> are the record \<open>run_state\<close>, whose broker component is the object the engine drives
  through a \<open>broker_ops\<close> table. A strategy is a function of the bars seen so far and the context; a sizer
  is the risk manager's \<open>size_position\<close>. The body of the loop is split at the points the code numbers:
  filling and rolling, marking, deciding.

  The returns handed to the sizer are the decimals before their conversion to binary floating point, which
  belongs to the survival test.
\<close>

section \<open>Signals\<close>

record Signal =
  sg_contract :: ContractSymbol
  sg_ts :: datetime
  sg_strategy_id :: string
  sg_direction :: int
  sg_full_kelly_fraction :: decimal
  sg_confidence :: decimal

definition Signal_post_init :: "Signal \<Rightarrow> unit res" where
  "Signal_post_init s =
     bindE (require (sg_direction s \<in> {- 1, 0, 1}) StrategyError) (\<lambda>_.
     bindE (require (\<not> sg_full_kelly_fraction s < 0) StrategyError) (\<lambda>_.
     bindE (require (0 \<le> sg_confidence s \<and> sg_confidence s \<le> 1) StrategyError) (\<lambda>_.
     require (\<not> (sg_direction s = 0 \<and> sg_full_kelly_fraction s \<noteq> 0)) StrategyError)))"

type_synonym Strategy = "VerifiedBar list \<Rightarrow> RuntimeContext \<Rightarrow> Signal option res"

section \<open>The engine\<close>

definition MIN_CLOSES_FOR_SURVIVAL :: nat where
  "MIN_CLOSES_FOR_SURVIVAL = 3"

record RunResult =
  rr_bars_processed :: nat
  rr_signals_generated :: nat
  rr_orders_placed :: nat
  rr_fills :: nat
  rr_final_equity :: decimal
  rr_realized_pnl :: decimal
  rr_final_positions :: "Position list"
  rr_equity_curve :: "decimal list"
  rr_survival_capped_bars :: nat
  rr_rolls_executed :: nat
  rr_total_roll_cost :: decimal
  rr_trade_pnls :: "decimal list"

fun unrealized_loop :: "(ContractSymbol \<times> decimal) list \<Rightarrow> Position list \<Rightarrow> decimal \<Rightarrow> decimal res" where
  "unrealized_loop last_close [] unrealized = Inr unrealized"
| "unrealized_loop last_close (p # positions) unrealized =
     (if p_quantity p = 0 then unrealized_loop last_close positions unrealized
      else case map_of last_close (p_contract p) of
        None \<Rightarrow> unrealized_loop last_close positions unrealized
      | Some price \<Rightarrow>
          bindE (multiplier_for (p_contract p)) (\<lambda>multiplier.
            unrealized_loop last_close positions
              (dadd unrealized (dmul (dmul (dsub price (p_avg_entry_price p)) (dint (p_quantity p))) multiplier))))"

definition mark_to_market :: "decimal \<Rightarrow> Position list \<Rightarrow> (ContractSymbol \<times> decimal) list \<Rightarrow> decimal res" where
  "mark_to_market realized_equity positions last_close =
     bindE (unrealized_loop last_close positions 0) (\<lambda>unrealized. Inr (dadd realized_equity unrealized))"

definition net_position :: "Position list \<Rightarrow> ContractSymbol \<Rightarrow> int" where
  "net_position positions contract = sum_list (map p_quantity (filter (\<lambda>p. p_contract p = contract) positions))"

record BacktestEngine =
  be_ctx :: RuntimeContext
  be_strategy :: Strategy
  be_risk :: sizer
  be_slippage :: "SlippageModel option"
  be_survival_gate :: bool
  be_survival_seed :: int
  be_target_position :: bool
  be_roll_by_date :: "(date \<times> RollEvent) list"
  be_stop_loss_pct :: "decimal option"

definition BacktestEngine_init ::
  "RuntimeContext \<Rightarrow> Strategy \<Rightarrow> sizer \<Rightarrow> SlippageModel option \<Rightarrow> bool \<Rightarrow> int \<Rightarrow> bool \<Rightarrow> RollEvent list \<Rightarrow>
   decimal option \<Rightarrow> BacktestEngine res" where
  "BacktestEngine_init ctx strategy risk slippage survival_gate survival_seed target_position roll_events stop_loss_pct =
     bindE (require (case stop_loss_pct of None \<Rightarrow> True | Some p \<Rightarrow> \<not> p \<le> 0) ValueError) (\<lambda>_.
     Inr \<lparr>be_ctx = ctx, be_strategy = strategy, be_risk = risk, be_slippage = slippage,
          be_survival_gate = survival_gate, be_survival_seed = survival_seed,
          be_target_position = target_position,
          be_roll_by_date = foldl (\<lambda>d e. AList.update (ev_roll_date e) e d) [] roll_events,
          be_stop_loss_pct = stop_loss_pct\<rparr>)"

subsection \<open>Orders\<close>

text \<open>The market order the engine builds, and the sequence gate, build, place that the code repeats.\<close>

definition market_order :: "ContractSymbol \<Rightarrow> Side \<Rightarrow> int \<Rightarrow> string \<Rightarrow> Order" where
  "market_order contract side quantity client_order_id =
     \<lparr>o_contract = contract, o_side = side, o_quantity = quantity, o_order_type = MKT, o_limit_price = None,
      o_stop_price = None, o_duration = DAY, o_parent_order_id = None, o_oco_group_id = None,
      o_client_order_id = Some client_order_id\<rparr>"

definition place_if_allowed ::
  "'s broker_ops \<Rightarrow> ContractSymbol \<Rightarrow> Side \<Rightarrow> int \<Rightarrow> string \<Rightarrow> 's \<Rightarrow> bool res \<times> 's" where
  "place_if_allowed ops contract side quantity client_order_id s =
     (let (allowed, s1) = bo_allowed ops contract side quantity s
      in if \<not> allowed then (Inr False, s1)
         else case Order_new (market_order contract side quantity client_order_id) of
           Inl e \<Rightarrow> (Inl e, s1)
         | Inr ord \<Rightarrow> bindS (bo_place ops ord s1) (\<lambda>_ s2. (Inr True, s2)))"

definition execute_roll :: "BacktestEngine \<Rightarrow> 's broker_ops \<Rightarrow> VerifiedBar \<Rightarrow> 's \<Rightarrow> (nat \<times> decimal) res \<times> 's" where
  "execute_roll eng ops bar s =
     (case map_of (be_roll_by_date eng) (dt_date (vb_ts bar)) of
        None \<Rightarrow> (Inr (0, 0), s)
      | Some event \<Rightarrow>
          if net_position (bo_positions ops s) (ev_old_contract event) = 0 then (Inr (0, 0), s)
          else
            bindS (bo_roll ops (ev_old_contract event) (ev_new_contract event)
                     (ev_front_settle event) (ev_back_settle event) s) (\<lambda>rolled s1.
              if rolled = 0 then (Inr (0, 0), s1)
              else case multiplier_for (ev_new_contract event) of
                Inl e \<Rightarrow> (Inl e, s1)
              | Inr multiplier \<Rightarrow>
                  (Inr (1, dmul (dmul (dsub (ev_back_settle event) (ev_front_settle event)) (dint rolled)) multiplier), s1)))"

fun price_returns :: "decimal list \<Rightarrow> rat list res" where
  "price_returns (x # y # rest) =
     bindE (ddiv y x) (\<lambda>q. bindE (price_returns (y # rest)) (\<lambda>rs. Inr (dsub q 1 # rs)))"
| "price_returns _ = Inr []"

definition survival_inputs ::
  "BacktestEngine \<Rightarrow> (ContractSymbol \<times> decimal list) list \<Rightarrow> ContractSymbol \<Rightarrow> nat \<Rightarrow> (rat list option \<times> int option) res" where
  "survival_inputs eng closes_by_contract contract bar_index =
     (if \<not> be_survival_gate eng then Inr (None, None)
      else case map_of closes_by_contract contract of
        None \<Rightarrow> Inr (None, None)
      | Some closes \<Rightarrow>
          if length closes < MIN_CLOSES_FOR_SURVIVAL then Inr (None, None)
          else bindE (price_returns closes) (\<lambda>returns. Inr (Some returns, Some (be_survival_seed eng + int bar_index))))"

definition resolve_order :: "BacktestEngine \<Rightarrow> SizingDecision \<Rightarrow> Signal \<Rightarrow> Position list \<Rightarrow> (Side \<times> int) option" where
  "resolve_order eng decision signal positions =
     (if be_target_position eng then
        (let target = (if sg_direction signal > 0 then sd_contracts decision else - sd_contracts decision);
             delta = target - net_position positions (sg_contract signal)
         in if delta = 0 then None else Some (if delta > 0 then BUY else SELL, \<bar>delta\<bar>))
      else Some (if sg_direction signal > 0 then BUY else SELL, sd_contracts decision))"

definition flatten_on_flat ::
  "'s broker_ops \<Rightarrow> Signal \<Rightarrow> Position list \<Rightarrow> VerifiedBar \<Rightarrow> 's \<Rightarrow> nat res \<times> 's" where
  "flatten_on_flat ops signal positions bar s =
     (let net = net_position positions (sg_contract signal)
      in if net = 0 then (Inr 0, s)
         else bindS (place_if_allowed ops (sg_contract signal) (if net > 0 then SELL else BUY) \<bar>net\<bar>
                       (sg_strategy_id signal @ ''@'' @ dt_isoformat (vb_ts bar)) s) (\<lambda>placed s1.
                (Inr (if placed then 1 else 0), s1)))"

definition apply_stop_loss ::
  "BacktestEngine \<Rightarrow> 's broker_ops \<Rightarrow> VerifiedBar \<Rightarrow> Position list \<Rightarrow> 's \<Rightarrow> bool res \<times> 's" where
  "apply_stop_loss eng ops bar positions s =
     (case (List.find (\<lambda>p. p_contract p = vb_contract bar \<and> p_quantity p \<noteq> 0) positions, be_stop_loss_pct eng) of
        (Some pos, Some pct) \<Rightarrow>
          if p_avg_entry_price pos \<le> 0 then (Inr False, s)
          else
            (case (if p_quantity pos > 0
                   then ddiv (dsub (p_avg_entry_price pos) (vb_close bar)) (p_avg_entry_price pos)
                   else ddiv (dsub (vb_close bar) (p_avg_entry_price pos)) (p_avg_entry_price pos)) of
               Inl e \<Rightarrow> (Inl e, s)
             | Inr adverse \<Rightarrow>
                 if adverse < pct then (Inr False, s)
                 else place_if_allowed ops (vb_contract bar) (if p_quantity pos > 0 then SELL else BUY) \<bar>p_quantity pos\<bar>
                        (''stop@'' @ dt_isoformat (vb_ts bar)) s)
      | _ \<Rightarrow> (Inr False, s))"

subsection \<open>The loop\<close>

record 's run_state =
  rn_broker :: 's
  rn_history :: "VerifiedBar list"
  rn_last_close :: "(ContractSymbol \<times> decimal) list"
  rn_closes :: "(ContractSymbol \<times> decimal list) list"
  rn_curve :: "decimal list"
  rn_signals :: nat
  rn_orders :: nat
  rn_fills :: nat
  rn_capped :: nat
  rn_rolls :: nat
  rn_roll_cost :: decimal

definition with_broker :: "('s \<Rightarrow> 'a res \<times> 's) \<Rightarrow> 's run_state \<Rightarrow> 'a res \<times> 's run_state" where
  "with_broker m rn = (let (r, s) = m (rn_broker rn) in (r, rn\<lparr>rn_broker := s\<rparr>))"

definition track_close :: "VerifiedBar \<Rightarrow> (ContractSymbol \<times> decimal list) list \<Rightarrow> (ContractSymbol \<times> decimal list) list" where
  "track_close bar closes =
     AList.update (vb_contract bar)
       ((case map_of closes (vb_contract bar) of None \<Rightarrow> [] | Some cs \<Rightarrow> cs) @ [vb_close bar]) closes"

text \<open>Step 1: fill the orders of earlier bars against this bar, then roll.\<close>

definition fill_phase :: "BacktestEngine \<Rightarrow> 's broker_ops \<Rightarrow> VerifiedBar \<Rightarrow> 's run_state \<Rightarrow> unit res \<times> 's run_state" where
  "fill_phase eng ops bar rn =
     bindS (with_broker (bo_advance ops bar (be_slippage eng)) rn) (\<lambda>events rn1.
       let rn2 = rn1\<lparr>rn_fills := rn_fills rn1 + length events,
                     rn_last_close := AList.update (vb_contract bar) (vb_close bar) (rn_last_close rn1)\<rparr>
       in bindS (with_broker (execute_roll eng ops bar) rn2) (\<lambda>(rolled_n, roll_cost) rn3.
            (Inr (), rn3\<lparr>rn_rolls := rn_rolls rn3 + rolled_n, rn_roll_cost := dadd (rn_roll_cost rn3) roll_cost,
                         rn_closes := (if be_survival_gate eng then track_close bar (rn_closes rn3) else rn_closes rn3)\<rparr>)))"

text \<open>Step 2: mark to market at this bar's close.\<close>

definition mark_phase :: "'s broker_ops \<Rightarrow> VerifiedBar \<Rightarrow> 's run_state \<Rightarrow> (Position list \<times> decimal) res \<times> 's run_state" where
  "mark_phase ops bar rn =
     bindS (with_broker (bo_metrics ops) rn) (\<lambda>metrics rn1.
       let positions = bo_positions ops (rn_broker rn1)
       in case mark_to_market (am_equity metrics) positions (rn_last_close rn1) of
            Inl e \<Rightarrow> (Inl e, rn1)
          | Inr mtm_equity \<Rightarrow>
              (Inr (positions, mtm_equity),
               rn1\<lparr>rn_curve := rn_curve rn1 @ [mtm_equity], rn_history := rn_history rn1 @ [bar]\<rparr>))"

text \<open>Steps 4 to 6: size the signal, resolve the order, pass the broker's gate, place.\<close>

definition trade_signal ::
  "BacktestEngine \<Rightarrow> 's broker_ops \<Rightarrow> nat \<Rightarrow> VerifiedBar \<Rightarrow> Position list \<Rightarrow> decimal \<Rightarrow> Signal \<Rightarrow> 's run_state \<Rightarrow>
   unit res \<times> 's run_state" where
  "trade_signal eng ops i bar positions mtm_equity signal rn =
     (case bindE (survival_inputs eng (rn_closes rn) (sg_contract signal) i) (\<lambda>(returns, seed).
             be_risk eng (sg_contract signal) (sg_full_kelly_fraction signal) mtm_equity (vb_close bar) returns seed) of
        Inl e \<Rightarrow> (Inl e, rn)
      | Inr decision \<Rightarrow>
          (let rn1 = (if sd_binding_constraint decision = by_survival then rn\<lparr>rn_capped := rn_capped rn + 1\<rparr> else rn)
           in if sd_contracts decision \<le> 0 then (Inr (), rn1)
              else case resolve_order eng decision signal positions of
                None \<Rightarrow> (Inr (), rn1)
              | Some (side, quantity) \<Rightarrow>
                  bindS (with_broker (place_if_allowed ops (sg_contract signal) side quantity
                           (sg_strategy_id signal @ ''@'' @ dt_isoformat (vb_ts bar))) rn1) (\<lambda>placed rn2.
                    (Inr (), if placed then rn2\<lparr>rn_orders := rn_orders rn2 + 1\<rparr> else rn2))))"

definition act_on_signal ::
  "BacktestEngine \<Rightarrow> 's broker_ops \<Rightarrow> nat \<Rightarrow> VerifiedBar \<Rightarrow> Position list \<Rightarrow> decimal \<Rightarrow> Signal \<Rightarrow> 's run_state \<Rightarrow>
   unit res \<times> 's run_state" where
  "act_on_signal eng ops i bar positions mtm_equity signal rn =
     (if sg_direction signal = 0 then
        (if be_target_position eng
         then bindS (with_broker (flatten_on_flat ops signal positions bar) rn) (\<lambda>n rn1.
                (Inr (), rn1\<lparr>rn_orders := rn_orders rn1 + n\<rparr>))
         else (Inr (), rn))
      else trade_signal eng ops i bar positions mtm_equity signal rn)"

text \<open>The stop-loss overlay and step 3: ask the strategy.\<close>

definition decide ::
  "BacktestEngine \<Rightarrow> 's broker_ops \<Rightarrow> nat \<Rightarrow> VerifiedBar \<Rightarrow> Position list \<Rightarrow> decimal \<Rightarrow> 's run_state \<Rightarrow>
   unit res \<times> 's run_state" where
  "decide eng ops i bar positions mtm_equity rn =
     bindS (if be_stop_loss_pct eng = None then (Inr False, rn)
            else with_broker (apply_stop_loss eng ops bar positions) rn) (\<lambda>stopped rn1.
       if stopped then (Inr (), rn1\<lparr>rn_orders := rn_orders rn1 + 1\<rparr>)
       else case be_strategy eng (rn_history rn1) (be_ctx eng) of
              Inl e \<Rightarrow> (Inl e, rn1)
            | Inr None \<Rightarrow> (Inr (), rn1)
            | Inr (Some signal) \<Rightarrow>
                act_on_signal eng ops i bar positions mtm_equity signal (rn1\<lparr>rn_signals := rn_signals rn1 + 1\<rparr>))"

definition bar_step ::
  "BacktestEngine \<Rightarrow> 's broker_ops \<Rightarrow> nat \<Rightarrow> VerifiedBar \<Rightarrow> 's run_state \<Rightarrow> unit res \<times> 's run_state" where
  "bar_step eng ops i bar rn =
     bindS (fill_phase eng ops bar rn) (\<lambda>_ rn1.
     bindS (mark_phase ops bar rn1) (\<lambda>(positions, mtm_equity) rn2.
       if mtm_equity \<le> 0 then (Inr (), rn2)
       else decide eng ops i bar positions mtm_equity rn2))"

fun run_loop ::
  "BacktestEngine \<Rightarrow> 's broker_ops \<Rightarrow> nat \<Rightarrow> VerifiedBar list \<Rightarrow> 's run_state \<Rightarrow> unit res \<times> 's run_state" where
  "run_loop eng ops i [] rn = (Inr (), rn)"
| "run_loop eng ops i (bar # bars) rn =
     bindS (bar_step eng ops i bar rn) (\<lambda>_ rn1. run_loop eng ops (i + 1) bars rn1)"

definition run_start :: "'s \<Rightarrow> 's run_state" where
  "run_start s =
     \<lparr>rn_broker = s, rn_history = [], rn_last_close = [], rn_closes = [], rn_curve = [], rn_signals = 0, rn_orders = 0,
      rn_fills = 0, rn_capped = 0, rn_rolls = 0, rn_roll_cost = 0\<rparr>"

definition run :: "BacktestEngine \<Rightarrow> 's broker_ops \<Rightarrow> VerifiedBar list \<Rightarrow> 's \<Rightarrow> RunResult res \<times> 's" where
  "run eng ops bars s =
     map_prod id rn_broker
       (bindS (run_loop eng ops 0 bars (run_start s)) (\<lambda>_ rn.
        bindS (with_broker (bo_metrics ops) rn) (\<lambda>final_metrics rn1.
          (Inr \<lparr>rr_bars_processed = length bars, rr_signals_generated = rn_signals rn1, rr_orders_placed = rn_orders rn1,
                rr_fills = rn_fills rn1,
                rr_final_equity = (if rn_curve rn1 \<noteq> [] then last (rn_curve rn1) else am_equity final_metrics),
                rr_realized_pnl = am_realized_pnl_today final_metrics,
                rr_final_positions = bo_positions ops (rn_broker rn1), rr_equity_curve = rn_curve rn1,
                rr_survival_capped_bars = rn_capped rn1, rr_rolls_executed = rn_rolls rn1,
                rr_total_roll_cost = rn_roll_cost rn1, rr_trade_pnls = bo_trade_pnls ops (rn_broker rn1)\<rparr>, rn1))))"

end
