(* ===== verification/Engine_Properties.thy ===== *)
theory Engine_Properties
  imports Backtest_Engine
begin

text \<open>
  What the backtest loop guarantees on any broker that satisfies \<open>engine_broker\<close>: it drives the broker only
  through its methods, its counters are those of the broker's own records, a run over a prefix of the bars
  is the prefix of the run, a decision moves no money on its own bar, a ruined account places no order, and
  a target position is reached at the next bar.
\<close>

section \<open>Lifting the broker into the loop's state\<close>

lemma with_broker_simps [simp]:
  "fst (with_broker m rn) = fst (m (rn_broker rn))"
  "snd (with_broker m rn) = rn\<lparr>rn_broker := snd (m (rn_broker rn))\<rparr>"
  by (simp_all add: with_broker_def split: prod.splits)

lemma with_broker_eq: "with_broker m rn = (r, rn') \<longleftrightarrow> (\<exists>s. m (rn_broker rn) = (r, s) \<and> rn' = rn\<lparr>rn_broker := s\<rparr>)"
  by (auto simp: with_broker_def split: prod.splits)

text \<open>What one decision does to the book: nothing, or the placement of one valid market order.\<close>

definition placed_market :: "MockBroker \<Rightarrow> MockBroker \<Rightarrow> bool" where
  "placed_market b b' \<longleftrightarrow> (\<exists>ord oid. order_ok ord \<and> o_order_type ord = MKT \<and> place_order ord b = (Inr oid, b'))"

lemma market_order_ok: "0 < q \<Longrightarrow> order_ok (market_order c side q cid)"
  by (simp add: order_ok_def market_order_def Order_post_init_def requires_limit_def requires_stop_def)

lemma market_order_simps [simp]:
  "o_contract (market_order c side q cid) = c" "o_side (market_order c side q cid) = side"
  "o_quantity (market_order c side q cid) = q" "o_order_type (market_order c side q cid) = MKT"
  by (simp_all add: market_order_def)

lemma market_order_new: "Order_new (market_order c side q cid) = (if 0 < q then Inr (market_order c side q cid) else Inl ValueError)"
  by (simp add: Order_new_def Order_post_init_def requires_limit_def requires_stop_def)

lemma step_fields [simp]: "rn_broker (if p then rn\<lparr>rn_capped := n\<rparr> else rn) = rn_broker rn"
  "rn_broker (if p then rn\<lparr>rn_orders := n\<rparr> else rn) = rn_broker rn"
  by simp_all

section \<open>The book under the loop\<close>

context engine_broker
begin

lemma placed_steps: "placed_market b b' \<Longrightarrow> broker_step\<^sup>*\<^sup>* b b'"
  unfolding placed_market_def by (metis broker_step.trade r_into_rtranclp snd_conv trade_step.place)

lemma place_if_allowed_Inr:
  assumes "place_if_allowed ops c side q cid s = (Inr placed, s')"
  shows "if placed then 0 < q \<and> is_trade_allowed (book s) c side q \<and>
             (\<exists>oid. place_order (market_order c side q cid) (book s) = (Inr oid, book s'))
         else book s' = book s"
proof -
  obtain ok s1 where a: "bo_allowed ops c side q s = (ok, s1)" by fastforce
  have b: "book s1 = book s" using allowed_book [of c side q s] a by simp
  show ?thesis
  proof (cases ok)
    case True
    then obtain oid where "placed" "0 < q" "bo_place ops (market_order c side q cid) s1 = (Inr oid, s')"
      using assms a by (auto simp: place_if_allowed_def market_order_new bindS_Inr_iff split: if_splits)
    then show ?thesis using book_eqs(4) [of _ s1] b allowed_stricter [of c side q s] a True by auto
  next
    case False
    then show ?thesis using assms a b by (auto simp: place_if_allowed_def)
  qed
qed

lemma place_if_allowed_steps:
  assumes "broker_step\<^sup>*\<^sup>* b0 (book s)"
  shows "broker_step\<^sup>*\<^sup>* b0 (book (snd (place_if_allowed ops c side q cid s)))"
proof -
  obtain ok s1 where a: "bo_allowed ops c side q s = (ok, s1)" by fastforce
  have b: "book s1 = book s" using allowed_book [of c side q s] a by simp
  obtain r s2 where p: "bo_place ops (market_order c side q cid) s1 = (r, s2)" by fastforce
  have "snd (place_order (market_order c side q cid) (book s)) = book s2" using book_eqs(4) [OF p] b by simp
  then have "broker_step (book s) (book s2)" if "0 < q"
    using trade_step.place [OF market_order_ok [OF that]] broker_step.trade by metis
  moreover have "snd (bindS (bo_place ops (market_order c side q cid) s1) (\<lambda>_ s2. (Inr True, s2))) = s2"
    using p by (cases r) auto
  ultimately show ?thesis using a b assms by (auto simp: place_if_allowed_def market_order_new)
qed

lemma advance_steps:
  assumes "broker_step\<^sup>*\<^sup>* b (book s)"
  shows "broker_step\<^sup>*\<^sup>* b (book (snd (bo_advance ops bar slip s)))"
proof -
  have "book (snd (bo_advance ops bar slip s)) = snd (advance bar slip (book s))"
    using book_eqs(1) [of bar slip s] by (metis prod.collapse snd_conv)
  then show ?thesis using assms
    by (auto intro: rtranclp.rtrancl_into_rtrancl broker_step.trade trade_step.adv)
qed

lemma roll_steps:
  assumes "broker_step\<^sup>*\<^sup>* b (book s)"
  shows "broker_step\<^sup>*\<^sup>* b (book (snd (bo_roll ops front bk ff bf s)))"
proof -
  have "book (snd (bo_roll ops front bk ff bf s)) = snd (roll_position front bk ff bf (book s))"
    using book_eqs(2) [of front bk ff bf s] by (metis prod.collapse snd_conv)
  then show ?thesis using assms
    by (auto intro: rtranclp.rtrancl_into_rtrancl broker_step.roll)
qed

lemma metrics_keeps [simp]: "book (snd (bo_metrics ops s)) = book s" "fst (bo_metrics ops s) = get_account_metrics (book s)"
  using book_eqs(3) [of s] by (metis prod.collapse)+

abbreviation grows :: "MockBroker \<Rightarrow> 's run_state \<Rightarrow> bool" where
  "grows b rn \<equiv> broker_step\<^sup>*\<^sup>* b (book (rn_broker rn))"

lemmas grows_bind = bindS_state [where P = "grows b" for b] bindS_state [where P = "\<lambda>s. broker_step\<^sup>*\<^sup>* b (book s)" for b]

lemma execute_roll_steps: "broker_step\<^sup>*\<^sup>* b (book s) \<Longrightarrow> broker_step\<^sup>*\<^sup>* b (book (snd (execute_roll eng ops bar s)))"
  unfolding execute_roll_def
  by (auto intro!: grows_bind intro: roll_steps split: option.splits sum.splits)

lemma fill_phase_steps: "grows b rn \<Longrightarrow> grows b (snd (fill_phase eng ops bar rn))"
  unfolding fill_phase_def Let_def
  by (auto intro!: grows_bind intro: advance_steps execute_roll_steps split: prod.splits)

lemma mark_phase_steps: "grows b rn \<Longrightarrow> grows b (snd (mark_phase ops bar rn))"
  unfolding mark_phase_def Let_def by (auto intro!: grows_bind split: sum.splits)

lemma flatten_steps: "broker_step\<^sup>*\<^sup>* b (book s) \<Longrightarrow> broker_step\<^sup>*\<^sup>* b (book (snd (flatten_on_flat ops sg ps bar s)))"
  unfolding flatten_on_flat_def Let_def by (auto intro!: grows_bind intro: place_if_allowed_steps)

lemma stop_loss_steps: "broker_step\<^sup>*\<^sup>* b (book s) \<Longrightarrow> broker_step\<^sup>*\<^sup>* b (book (snd (apply_stop_loss eng ops bar ps s)))"
  unfolding apply_stop_loss_def
  by (auto intro: place_if_allowed_steps split: option.splits sum.splits)

lemma trade_signal_steps: "grows b rn \<Longrightarrow> grows b (snd (trade_signal eng ops i bar ps m sg rn))"
  unfolding trade_signal_def Let_def
  by (auto intro!: grows_bind intro: place_if_allowed_steps split: option.splits sum.splits)

lemma act_on_signal_steps: "grows b rn \<Longrightarrow> grows b (snd (act_on_signal eng ops i bar ps m sg rn))"
  unfolding act_on_signal_def by (auto intro!: grows_bind trade_signal_steps flatten_steps)

lemma decide_steps: "grows b rn \<Longrightarrow> grows b (snd (decide eng ops i bar ps m rn))"
  unfolding decide_def
  by (auto intro!: grows_bind act_on_signal_steps stop_loss_steps split: option.splits sum.splits)

lemma bar_step_steps: "grows b rn \<Longrightarrow> grows b (snd (bar_step eng ops i bar rn))"
  unfolding bar_step_def
  by (auto intro!: grows_bind fill_phase_steps mark_phase_steps decide_steps split: prod.splits)

lemma run_loop_steps: "grows b rn \<Longrightarrow> grows b (snd (run_loop eng ops i bars rn))"
  by (induction bars arbitrary: i rn) (auto intro!: grows_bind bar_step_steps)

lemma run_steps: "broker_step\<^sup>*\<^sup>* (book s) (book (snd (run eng ops bars s)))"
proof -
  have "grows (book s) (snd (run_loop eng ops 0 bars (run_start s)))" by (rule run_loop_steps) (simp add: run_start_def)
  then show ?thesis unfolding run_def by (auto intro!: grows_bind)
qed

end

section \<open>What a decision does\<close>

lemma place_order_Inr:
  assumes "place_order ord b = (Inr oid, b')" and inv: "orders_inv b"
  shows "oid = order_id (Suc (mb_next_order_id_seq b)) \<and> mb_orders b' = mb_orders b @ [(oid, ord)] \<and>
         mb_filled_qty b' = mb_filled_qty b @ [(oid, 0)] \<and> mb_cancelled b' = mb_cancelled b \<and>
         same_books b b' \<and> same_config b b' \<and>
         (\<exists>e1 e2. mb_events b' = mb_events b @ [e1, e2] \<and> oe_event_type e1 = submitted \<and> oe_event_type e2 = ack)"
proof -
  let ?n = "Suc (mb_next_order_id_seq b)"
  have fresh: "order_id ?n \<notin> fst ` set (mb_orders b)" "order_id ?n \<notin> fst ` set (mb_filled_qty b)"
    using order_keys [OF inv] fresh_order_id by (metis set_map)+
  have reg: "mb_orders (registered ord b) = mb_orders b @ [(order_id ?n, ord)]"
    "mb_filled_qty (registered ord b) = mb_filled_qty b @ [(order_id ?n, 0)]"
    "mb_cancelled (registered ord b) = mb_cancelled b" "mb_events (registered ord b) = mb_events b"
    by (simp_all add: registered_def Let_def update_fresh [OF fresh(1)] update_fresh [OF fresh(2)])
  define cid where "cid = client_id_or ord (''anon-'' @ zpad 6 ?n)"
  from assms(1) obtain e1 b2 e2 where
    e1: "emit_event (order_id ?n) cid (o_contract ord) submitted None None 0 (o_quantity ord) (registered ord b) = (Inr e1, b2)"
    and e2: "emit_event (order_id ?n) cid (o_contract ord) ack None None 0 (o_quantity ord) b2 = (Inr e2, b')"
    and oid: "oid = order_id ?n"
    by (auto simp: place_order_alt Let_def cid_def bindS_Inr_iff split: if_splits)
  have "same_books b b'" "same_config b b'"
    using place_order_books [of b ord] place_order_config [of b ord] assms(1) by simp_all
  then show ?thesis
    using emit_event_frame [OF e1] emit_event_frame [OF e2] emit_event_events [OF e1] emit_event_events [OF e2] reg oid
    by (auto simp: same_orders_def)
qed

text \<open>
  Where an order of a bar can come from: the stop-loss overlay on the bar's own contract, a flat signal
  under target-position netting, or a sized signal.
\<close>

definition order_origin ::
  "BacktestEngine \<Rightarrow> VerifiedBar \<Rightarrow> Position list \<Rightarrow> decimal \<Rightarrow> VerifiedBar list \<Rightarrow> ContractSymbol \<Rightarrow> Side \<Rightarrow> int \<Rightarrow> bool" where
  "order_origin eng bar positions m hist c side q \<longleftrightarrow>
     (\<exists>pos. be_stop_loss_pct eng \<noteq> None \<and> pos \<in> set positions \<and> p_contract pos = c \<and> c = vb_contract bar \<and>
        signed_qty side q = - p_quantity pos) \<or>
     (\<exists>sg. be_strategy eng hist (be_ctx eng) = Inr (Some sg) \<and> c = sg_contract sg \<and>
        (sg_direction sg = 0 \<and> be_target_position eng \<and> signed_qty side q = - net_position positions c \<or>
         sg_direction sg \<noteq> 0 \<and>
           (\<exists>returns seed d. be_risk eng c (sg_full_kelly_fraction sg) m (vb_close bar) returns seed = Inr d \<and>
              0 < sd_contracts d \<and> resolve_order eng d sg positions = Some (side, q))))"

text \<open>The variables of the loop that deciding leaves alone.\<close>

definition same_marks :: "'s run_state \<Rightarrow> 's run_state \<Rightarrow> bool" where
  "same_marks rn rn' \<longleftrightarrow>
     rn_history rn' = rn_history rn \<and> rn_last_close rn' = rn_last_close rn \<and> rn_closes rn' = rn_closes rn \<and>
     rn_curve rn' = rn_curve rn \<and> rn_fills rn' = rn_fills rn \<and> rn_rolls rn' = rn_rolls rn \<and>
     rn_roll_cost rn' = rn_roll_cost rn"

context engine_broker
begin

definition decided :: "(ContractSymbol \<Rightarrow> Side \<Rightarrow> int \<Rightarrow> bool) \<Rightarrow> 's run_state \<Rightarrow> 's run_state \<Rightarrow> bool" where
  "decided origin rn rn' \<longleftrightarrow>
     same_marks rn rn' \<and>
     (rn_orders rn' = rn_orders rn \<and> book (rn_broker rn') = book (rn_broker rn) \<or>
      rn_orders rn' = Suc (rn_orders rn) \<and>
      (\<exists>c side q cid oid. origin c side q \<and> 0 < q \<and>
         place_order (market_order c side q cid) (book (rn_broker rn)) = (Inr oid, book (rn_broker rn'))))"

lemma decided_after:
  assumes "decided origin rn1 rn'" "same_marks rn rn1" "rn_orders rn1 = rn_orders rn" "book (rn_broker rn1) = book (rn_broker rn)"
  shows "decided origin rn rn'"
  using assms by (simp add: decided_def same_marks_def)

lemma placed_decided:
  assumes "place_if_allowed ops c side q cid (rn_broker rn) = (Inr placed, s')" "origin c side q"
  shows "decided origin rn (rn\<lparr>rn_broker := s', rn_orders := rn_orders rn + (if placed then 1 else 0)\<rparr>)"
proof (cases placed)
  case True
  with place_if_allowed_Inr [OF assms(1)] assms(2) show ?thesis unfolding decided_def same_marks_def by auto blast
next
  case False
  with place_if_allowed_Inr [OF assms(1)] show ?thesis by (simp add: decided_def same_marks_def)
qed

lemma stop_loss_decided:
  assumes "apply_stop_loss eng ops bar ps (rn_broker rn) = (Inr stopped, s')"
  shows "decided (order_origin eng bar ps m h) rn (rn\<lparr>rn_broker := s', rn_orders := rn_orders rn + (if stopped then 1 else 0)\<rparr>)"
proof (cases "stopped = False \<and> s' = rn_broker rn")
  case True
  then show ?thesis by (simp add: decided_def same_marks_def)
next
  case False
  then obtain pos pct where pos: "List.find (\<lambda>p. p_contract p = vb_contract bar \<and> p_quantity p \<noteq> 0) ps = Some pos"
    "be_stop_loss_pct eng = Some pct"
    and pl: "place_if_allowed ops (vb_contract bar) (if p_quantity pos > 0 then SELL else BUY) \<bar>p_quantity pos\<bar>
              (''stop@'' @ dt_isoformat (vb_ts bar)) (rn_broker rn) = (Inr stopped, s')"
    using assms by (auto simp: apply_stop_loss_def split: option.splits if_splits sum.splits)
  have "pos \<in> set ps" "p_contract pos = vb_contract bar" using pos(1) by (auto simp: find_Some_iff)
  then have "order_origin eng bar ps m h (vb_contract bar) (if p_quantity pos > 0 then SELL else BUY) \<bar>p_quantity pos\<bar>"
    unfolding order_origin_def using pos(2) by (auto simp: signed_qty_def)
  then show ?thesis by (rule placed_decided [OF pl])
qed

lemma flatten_decided:
  assumes "flatten_on_flat ops sg ps bar (rn_broker rn) = (Inr n, s')" and sg: "be_strategy eng h (be_ctx eng) = Inr (Some sg)"
    and dir: "sg_direction sg = 0" "be_target_position eng"
  shows "decided (order_origin eng bar ps m h) rn (rn\<lparr>rn_broker := s', rn_orders := rn_orders rn + n\<rparr>)"
proof (cases "net_position ps (sg_contract sg) = 0")
  case True
  then show ?thesis using assms(1) by (simp add: flatten_on_flat_def decided_def same_marks_def)
next
  case False
  let ?net = "net_position ps (sg_contract sg)"
  obtain placed where pl: "place_if_allowed ops (sg_contract sg) (if ?net > 0 then SELL else BUY) \<bar>?net\<bar>
      (sg_strategy_id sg @ ''@'' @ dt_isoformat (vb_ts bar)) (rn_broker rn) = (Inr placed, s')"
    and n: "n = (if placed then 1 else 0)"
    using assms(1) False by (auto simp: flatten_on_flat_def Let_def bindS_Inr_iff)
  have "order_origin eng bar ps m h (sg_contract sg) (if ?net > 0 then SELL else BUY) \<bar>?net\<bar>"
    unfolding order_origin_def using sg dir by (auto simp: signed_qty_def)
  then show ?thesis unfolding n by (rule placed_decided [OF pl])
qed

lemma trade_signal_decided:
  assumes "trade_signal eng ops i bar ps m sg rn = (Inr (), rn')" and sg: "be_strategy eng h (be_ctx eng) = Inr (Some sg)"
    and dir: "sg_direction sg \<noteq> 0"
  shows "decided (order_origin eng bar ps m h) rn rn'"
proof -
  obtain returns seed d where d: "be_risk eng (sg_contract sg) (sg_full_kelly_fraction sg) m (vb_close bar) returns seed = Inr d"
    and rest: "(let rn1 = (if sd_binding_constraint d = by_survival then rn\<lparr>rn_capped := rn_capped rn + 1\<rparr> else rn)
       in if sd_contracts d \<le> 0 then (Inr (), rn1)
          else case resolve_order eng d sg ps of
            None \<Rightarrow> (Inr (), rn1)
          | Some (side, quantity) \<Rightarrow>
              bindS (with_broker (place_if_allowed ops (sg_contract sg) side quantity
                       (sg_strategy_id sg @ ''@'' @ dt_isoformat (vb_ts bar))) rn1) (\<lambda>placed rn2.
                (Inr (), if placed then rn2\<lparr>rn_orders := rn_orders rn2 + 1\<rparr> else rn2))) = (Inr (), rn')"
    using assms(1) by (auto simp: trade_signal_def bindE_Inr_iff split: sum.splits)
  define rn1 where "rn1 = (if sd_binding_constraint d = by_survival then rn\<lparr>rn_capped := rn_capped rn + 1\<rparr> else rn)"
  have f: "same_marks rn rn1" "rn_orders rn1 = rn_orders rn" "book (rn_broker rn1) = book (rn_broker rn)"
    by (simp_all add: rn1_def same_marks_def)
  have "decided (order_origin eng bar ps m h) rn1 rn'"
  proof (cases "sd_contracts d \<le> 0 \<or> resolve_order eng d sg ps = None")
    case True
    then have "rn' = rn1" using rest unfolding rn1_def [symmetric] Let_def by (auto split: if_splits)
    then show ?thesis by (simp add: decided_def same_marks_def)
  next
    case False
    then obtain side q where r: "resolve_order eng d sg ps = Some (side, q)" "0 < sd_contracts d" by fastforce
    then obtain placed s' where pl: "place_if_allowed ops (sg_contract sg) side q
        (sg_strategy_id sg @ ''@'' @ dt_isoformat (vb_ts bar)) (rn_broker rn1) = (Inr placed, s')"
      and rn': "rn' = rn1\<lparr>rn_broker := s', rn_orders := rn_orders rn1 + (if placed then 1 else 0)\<rparr>"
      using rest unfolding rn1_def [symmetric] Let_def by (auto simp: bindS_Inr_iff with_broker_eq)
    have "order_origin eng bar ps m h (sg_contract sg) side q" unfolding order_origin_def using sg dir d r by blast
    then show ?thesis unfolding rn' by (rule placed_decided [OF pl])
  qed
  then show ?thesis using f by (rule decided_after)
qed

lemma decide_decided:
  assumes "decide eng ops i bar ps m rn = (Inr (), rn')"
  shows "decided (order_origin eng bar ps m (rn_history rn)) rn rn'"
proof -
  obtain stopped rn1 where st: "(if be_stop_loss_pct eng = None then (Inr False, rn)
      else with_broker (apply_stop_loss eng ops bar ps) rn) = (Inr stopped, rn1)"
    and rest: "(if stopped then (Inr (), rn1\<lparr>rn_orders := rn_orders rn1 + 1\<rparr>)
       else case be_strategy eng (rn_history rn1) (be_ctx eng) of
              Inl e \<Rightarrow> (Inl e, rn1)
            | Inr None \<Rightarrow> (Inr (), rn1)
            | Inr (Some signal) \<Rightarrow>
                act_on_signal eng ops i bar ps m signal (rn1\<lparr>rn_signals := rn_signals rn1 + 1\<rparr>)) = (Inr (), rn')"
    using assms unfolding decide_def bindS_Inr_iff by auto
  have d1: "decided (order_origin eng bar ps m (rn_history rn)) rn (rn1\<lparr>rn_orders := rn_orders rn1 + (if stopped then 1 else 0)\<rparr>)"
    using st stop_loss_decided [of eng bar ps rn stopped _ m "rn_history rn"]
    by (auto simp: with_broker_eq decided_def same_marks_def split: if_splits)
  have h: "rn_history rn1 = rn_history rn" "rn_orders rn1 = rn_orders rn"
    using st by (auto simp: with_broker_eq split: if_splits)
  show ?thesis
  proof (cases "stopped \<or> be_strategy eng (rn_history rn1) (be_ctx eng) = Inr None")
    case True
    then show ?thesis using rest d1 by (auto split: if_splits)
  next
    case False
    then obtain sg where sg: "be_strategy eng (rn_history rn) (be_ctx eng) = Inr (Some sg)"
      and act: "act_on_signal eng ops i bar ps m sg (rn1\<lparr>rn_signals := rn_signals rn1 + 1\<rparr>) = (Inr (), rn')"
      using rest h by (auto split: sum.splits option.splits)
    have n: "\<not> stopped" using False by blast
    have "decided (order_origin eng bar ps m (rn_history rn)) (rn1\<lparr>rn_signals := rn_signals rn1 + 1\<rparr>) rn'"
    proof (cases "sg_direction sg = 0")
      case True
      show ?thesis
      proof (cases "be_target_position eng")
        case tgt: True
        then obtain n s' where "flatten_on_flat ops sg ps bar (rn_broker rn1) = (Inr n, s')"
          and rn': "rn' = rn1\<lparr>rn_signals := rn_signals rn1 + 1, rn_broker := s', rn_orders := rn_orders rn1 + n\<rparr>"
          using act True by (auto simp: act_on_signal_def bindS_Inr_iff with_broker_eq)
        with flatten_decided [of sg ps bar "rn1\<lparr>rn_signals := rn_signals rn1 + 1\<rparr>" n s', OF _ sg True tgt] show ?thesis
          by simp
      next
        case False
        then have "rn' = rn1\<lparr>rn_signals := rn_signals rn1 + 1\<rparr>" using act True by (simp add: act_on_signal_def)
        then show ?thesis by (simp add: decided_def same_marks_def)
      qed
    next
      case False
      then show ?thesis using act trade_signal_decided [OF _ sg False] by (simp add: act_on_signal_def)
    qed
    moreover have "same_marks rn (rn1\<lparr>rn_signals := rn_signals rn1 + 1\<rparr>)" "book (rn_broker rn1) = book (rn_broker rn)"
      using d1 n h by (auto simp: decided_def same_marks_def)
    ultimately show ?thesis using decided_after h by force
  qed
qed

end

section \<open>What filling and marking do\<close>

definition is_fill :: "OrderEvent \<Rightarrow> bool" where
  "is_fill ev \<longleftrightarrow> oe_event_type ev \<in> {filled, partial_fill}"

lemma fill_order_event:
  assumes "fill_order oid x fq b = (Inr ev, b')"
  shows "mb_events b' = mb_events b @ [ev] \<and> is_fill ev \<and> oe_broker_order_id ev = oid \<and> oid \<in> fst ` set (mb_orders b)"
proof -
  from fill_order_Inr [OF assms] obtain ord already actual b2 where
    o: "map_of (mb_orders b) oid = Some ord"
    and a: "apply_fill_to_position (o_contract ord) (o_side ord) actual x False
              (b\<lparr>mb_filled_qty := AList.update oid (already + actual) (mb_filled_qty b)\<rparr>) = (Inr (), b2)"
    and e: "emit_event oid (client_id_or ord ''anon'') (o_contract ord)
       (if o_quantity ord = already + actual then filled else partial_fill)
       (Some x) (Some actual) (already + actual) (o_quantity ord - (already + actual)) b2 = (Inr ev, b')"
    by blast
  have "mb_events b2 = mb_events b" using apply_fill_frame [OF a] by (simp add: same_events_def)
  moreover have "oid \<in> fst ` set (mb_orders b)" using map_of_SomeD [OF o] by force
  ultimately show ?thesis using emit_event_events [OF e] by (auto simp: is_fill_def)
qed

lemma advance_loop_log_events:
  "advance_loop bar slip oids b = (Inr evs, b') \<Longrightarrow>
     mb_events b' = mb_events b @ evs \<and> mb_orders b' = mb_orders b \<and>
     (\<forall>ev \<in> set evs. is_fill ev \<and> oe_broker_order_id ev \<in> fst ` set (mb_orders b))"
proof (induction oids arbitrary: b evs)
  case (Cons oid oids)
  show ?case
  proof (cases "advance_loop bar slip oids b = (Inr evs, b')")
    case True
    then show ?thesis by (rule Cons.IH)
  next
    case False
    then obtain x ev b1 evs1 where f: "fill_order oid x None b = (Inr ev, b1)"
      and l: "advance_loop bar slip oids b1 = (Inr evs1, b')" and evs: "evs = ev # evs1"
      using Cons.prems by (auto simp: bindS_Inr_iff split: if_splits option.splits sum.splits)
    show ?thesis using Cons.IH [OF l] fill_order_event [OF f] fill_order_keeps [OF f] evs by simp
  qed
qed simp

text \<open>A roll touches positions and profit only.\<close>

definition same_log :: "MockBroker \<Rightarrow> MockBroker \<Rightarrow> bool" where
  "same_log b s \<longleftrightarrow> mb_orders s = mb_orders b \<and> mb_filled_qty s = mb_filled_qty b \<and> mb_cancelled s = mb_cancelled b \<and>
                 mb_events s = mb_events b"

lemma apply_fill_log: "same_log b s \<Longrightarrow> same_log b (snd (apply_fill_to_position c side q x is_roll s))"
  using apply_fill_frame [of c side q x is_roll s "fst (apply_fill_to_position c side q x is_roll s)"
      "snd (apply_fill_to_position c side q x is_roll s)"]
  by (simp add: same_log_def same_events_def same_orders_def)

lemma roll_position_log: "same_log b (snd (roll_position front bk ff bf b))"
  unfolding roll_position_def Let_def
  by (auto intro!: bindS_state [where P = "same_log b"] apply_fill_log split: option.splits)
    (auto simp: same_log_def)

lemma roll_position_keeps: "roll_position front bk ff bf b = (r, b') \<Longrightarrow> same_log b b'"
  using roll_position_log [of b front bk ff bf] by simp

context engine_broker
begin

text \<open>A returning fill phase: one \<open>advance\<close>, then at most one roll.\<close>

lemma fill_phase_Inr:
  assumes "fill_phase eng ops bar rn = (Inr (), rn')"
  obtains evs b1 where "advance bar (be_slippage eng) (book (rn_broker rn)) = (Inr evs, b1)"
    and "book (rn_broker rn') = b1 \<or>
         (\<exists>event q. event \<in> snd ` set (be_roll_by_date eng) \<and>
            roll_position (ev_old_contract event) (ev_new_contract event) (ev_front_settle event) (ev_back_settle event) b1
              = (Inr q, book (rn_broker rn')))"
    and "rn_fills rn' = rn_fills rn + length evs" "rn_orders rn' = rn_orders rn" "rn_signals rn' = rn_signals rn"
    and "rn_curve rn' = rn_curve rn" "rn_history rn' = rn_history rn"
    and "rn_last_close rn' = AList.update (vb_contract bar) (vb_close bar) (rn_last_close rn)"
proof -
  obtain evs s1 n cost s2 where a: "bo_advance ops bar (be_slippage eng) (rn_broker rn) = (Inr evs, s1)"
    and r: "execute_roll eng ops bar s1 = (Inr (n, cost), s2)"
    and rn': "rn_broker rn' = s2" "rn_fills rn' = rn_fills rn + length evs" "rn_orders rn' = rn_orders rn"
      "rn_signals rn' = rn_signals rn" "rn_curve rn' = rn_curve rn" "rn_history rn' = rn_history rn"
      "rn_last_close rn' = AList.update (vb_contract bar) (vb_close bar) (rn_last_close rn)"
    using assms by (auto simp: fill_phase_def Let_def bindS_Inr_iff with_broker_eq)
  have "book s2 = book s1 \<or>
         (\<exists>event q. event \<in> snd ` set (be_roll_by_date eng) \<and>
            roll_position (ev_old_contract event) (ev_new_contract event) (ev_front_settle event) (ev_back_settle event) (book s1)
              = (Inr q, book s2))"
    using r by (auto simp: execute_roll_def bindS_Inr_iff image_iff split: option.splits if_splits sum.splits
        dest!: book_eqs(2) map_of_SomeD intro!: bexI)
  then show thesis using that [OF book_eqs(1) [OF a]] rn' by blast
qed

lemma mark_phase_Inr:
  assumes "mark_phase ops bar rn = (Inr (ps, m), rn')"
  shows "book (rn_broker rn') = book (rn_broker rn) \<and> ps = get_positions (book (rn_broker rn)) \<and>
         (\<exists>am. get_account_metrics (book (rn_broker rn)) = Inr am \<and> mark_to_market (am_equity am) ps (rn_last_close rn) = Inr m) \<and>
         rn_curve rn' = rn_curve rn @ [m] \<and> rn_history rn' = rn_history rn @ [bar] \<and> rn_fills rn' = rn_fills rn \<and>
         rn_orders rn' = rn_orders rn \<and> rn_signals rn' = rn_signals rn \<and> rn_last_close rn' = rn_last_close rn"
proof -
  obtain am rn1 where w: "with_broker (bo_metrics ops) rn = (Inr am, rn1)"
    and c: "(case mark_to_market (am_equity am) (bo_positions ops (rn_broker rn1)) (rn_last_close rn1) of
            Inl e \<Rightarrow> (Inl e, rn1)
          | Inr mtm_equity \<Rightarrow>
              (Inr (bo_positions ops (rn_broker rn1), mtm_equity),
               rn1\<lparr>rn_curve := rn_curve rn1 @ [mtm_equity], rn_history := rn_history rn1 @ [bar]\<rparr>)) = (Inr (ps, m), rn')"
    using assms unfolding mark_phase_def Let_def bindS_Inr_iff by blast
  obtain s1 where a: "bo_metrics ops (rn_broker rn) = (Inr am, s1)" "rn1 = rn\<lparr>rn_broker := s1\<rparr>"
    using w by (auto simp: with_broker_eq)
  have "get_account_metrics (book (rn_broker rn)) = Inr am" "book s1 = book (rn_broker rn)" using book_eqs(3) [OF a(1)] by simp_all
  then show ?thesis using c
    by (cases "mark_to_market (am_equity am) (bo_positions ops (rn_broker rn1)) (rn_last_close rn1)")
      (auto simp: positions_book a(2))
qed

lemma bar_step_Inr:
  assumes "bar_step eng ops i bar rn = (Inr (), rn')"
  obtains rn1 ps m rn2 where "fill_phase eng ops bar rn = (Inr (), rn1)" "mark_phase ops bar rn1 = (Inr (ps, m), rn2)"
    and "if m \<le> 0 then rn' = rn2 else decide eng ops i bar ps m rn2 = (Inr (), rn')"
  using assms by (auto simp: bar_step_def bindS_Inr_iff split: if_splits)

lemma decided_log:
  assumes "decided origin rn rn'" "orders_inv (book (rn_broker rn))"
  shows "\<exists>new. mb_events (book (rn_broker rn')) = mb_events (book (rn_broker rn)) @ new \<and> (\<forall>ev \<in> set new. \<not> is_fill ev)"
    and "length (mb_orders (book (rn_broker rn'))) - rn_orders rn' = length (mb_orders (book (rn_broker rn))) - rn_orders rn"
    and "same_books (book (rn_broker rn)) (book (rn_broker rn')) \<and> same_config (book (rn_broker rn)) (book (rn_broker rn'))"
    and "rn_orders rn \<le> rn_orders rn'" "rn_orders rn' \<le> Suc (rn_orders rn)"
    and "length (mb_orders (book (rn_broker rn'))) = length (mb_orders (book (rn_broker rn))) + (rn_orders rn' - rn_orders rn)"
  using assms place_order_Inr [OF _ assms(2)] by (fastforce simp: decided_def is_fill_def)+

end

section \<open>The loop\<close>

lemma metrics_total:
  assumes "broker_inv b"
  shows "\<exists>m. get_account_metrics b = Inr m \<and> am_equity m = current_equity b \<and> am_realized_pnl_today m = mb_realized_pnl_today b"
proof -
  have ok: "position_ok cp" if "cp \<in> set (mb_positions b)" for cp
    using assms that by (simp add: broker_inv_def books_inv_def positions_ok_def)
  have z: "dsum (map (p_margin_used \<circ> snd) (mb_positions b)) = 0"
    by (rule dsum_zeros) (auto dest!: ok simp: position_ok_def)
  show ?thesis
    by (auto simp: get_account_metrics_def z current_equity_def Let_def AccountMetrics_post_init_def bindE_def ddiv_def dec_exact dsub_def
        require_def split: sum.splits)
qed

lemma run_loop_append:
  "run_loop eng ops i (xs @ ys) rn = bindS (run_loop eng ops i xs rn) (\<lambda>_ rn1. run_loop eng ops (i + length xs) ys rn1)"
proof (induction xs arbitrary: i rn)
  case (Cons x xs)
  then show ?case by (cases "bar_step eng ops i x rn"; cases "fst (bar_step eng ops i x rn)") auto
qed simp

context engine_broker
begin

lemma steps_inv: "broker_step\<^sup>*\<^sup>* b b' \<Longrightarrow> broker_inv b \<Longrightarrow> broker_inv b'"
  by (induction rule: rtranclp_induct) (auto intro: broker_step_inv)

lemma phase_inv:
  assumes "broker_inv (book (rn_broker rn))"
  shows "fill_phase eng ops bar rn = (r, rn') \<Longrightarrow> broker_inv (book (rn_broker rn'))"
    and "bar_step eng ops i bar rn = (r, rn') \<Longrightarrow> broker_inv (book (rn_broker rn'))"
    and "run_loop eng ops i bars rn = (r, rn') \<Longrightarrow> broker_inv (book (rn_broker rn'))"
proof -
  have "grows (book (rn_broker rn)) rn" by simp
  from fill_phase_steps [OF this] bar_step_steps [OF this] run_loop_steps [OF this]
  show "fill_phase eng ops bar rn = (r, rn') \<Longrightarrow> broker_inv (book (rn_broker rn'))"
    "bar_step eng ops i bar rn = (r, rn') \<Longrightarrow> broker_inv (book (rn_broker rn'))"
    "run_loop eng ops i bars rn = (r, rn') \<Longrightarrow> broker_inv (book (rn_broker rn'))"
    using steps_inv [OF _ assms] by (metis snd_conv)+
qed

lemma fill_phase_log:
  assumes "fill_phase eng ops bar rn = (Inr (), rn')"
  shows "\<exists>evs. mb_events (book (rn_broker rn')) = mb_events (book (rn_broker rn)) @ evs \<and> rn_fills rn' = rn_fills rn + length evs \<and>
           (\<forall>ev \<in> set evs. is_fill ev \<and> oe_broker_order_id ev \<in> fst ` set (mb_orders (book (rn_broker rn))))"
    and "mb_orders (book (rn_broker rn')) = mb_orders (book (rn_broker rn))"
proof -
  obtain evs b1 where a: "advance bar (be_slippage eng) (book (rn_broker rn)) = (Inr evs, b1)"
    and r: "book (rn_broker rn') = b1 \<or> (\<exists>f k x y q. roll_position f k x y b1 = (Inr q, book (rn_broker rn')))"
    and n: "rn_fills rn' = rn_fills rn + length evs"
    using fill_phase_Inr [OF assms] by metis
  have l: "mb_events b1 = mb_events (book (rn_broker rn)) @ evs" "mb_orders b1 = mb_orders (book (rn_broker rn))"
    "\<forall>ev \<in> set evs. is_fill ev \<and> oe_broker_order_id ev \<in> fst ` set (mb_orders (book (rn_broker rn)))"
    using advance_loop_log_events a unfolding advance_def by blast+
  have "same_log b1 (book (rn_broker rn'))" using r roll_position_keeps by (auto simp: same_log_def)
  with l n show "\<exists>evs. mb_events (book (rn_broker rn')) = mb_events (book (rn_broker rn)) @ evs \<and> rn_fills rn' = rn_fills rn + length evs \<and>
           (\<forall>ev \<in> set evs. is_fill ev \<and> oe_broker_order_id ev \<in> fst ` set (mb_orders (book (rn_broker rn))))"
    "mb_orders (book (rn_broker rn')) = mb_orders (book (rn_broker rn))"
    by (auto simp: same_log_def)
qed

definition bar_facts :: "VerifiedBar \<Rightarrow> 's run_state \<Rightarrow> 's run_state \<Rightarrow> bool" where
  "bar_facts bar rn rn' \<longleftrightarrow>
     (\<exists>m evs new. rn_curve rn' = rn_curve rn @ [m] \<and> rn_history rn' = rn_history rn @ [bar] \<and>
        mb_events (book (rn_broker rn')) = mb_events (book (rn_broker rn)) @ evs @ new \<and>
        (\<forall>ev \<in> set evs. is_fill ev \<and> oe_broker_order_id ev \<in> fst ` set (mb_orders (book (rn_broker rn)))) \<and>
        (\<forall>ev \<in> set new. \<not> is_fill ev) \<and> rn_fills rn' = rn_fills rn + length evs \<and>
        rn_orders rn \<le> rn_orders rn' \<and> rn_orders rn' \<le> Suc (rn_orders rn) \<and>
        length (mb_orders (book (rn_broker rn'))) = length (mb_orders (book (rn_broker rn))) + (rn_orders rn' - rn_orders rn) \<and>
        (m \<le> 0 \<longrightarrow> rn_orders rn' = rn_orders rn \<and> rn_signals rn' = rn_signals rn \<and> new = [] \<and>
           mb_orders (book (rn_broker rn')) = mb_orders (book (rn_broker rn))))"

lemma bar_step_facts:
  assumes "bar_step eng ops i bar rn = (Inr (), rn')" and inv: "broker_inv (book (rn_broker rn))"
  shows "bar_facts bar rn rn'"
proof -
  from bar_step_Inr [OF assms(1)] obtain rn1 ps m rn2 where f: "fill_phase eng ops bar rn = (Inr (), rn1)"
    and k: "mark_phase ops bar rn1 = (Inr (ps, m), rn2)"
    and d: "if m \<le> 0 then rn' = rn2 else decide eng ops i bar ps m rn2 = (Inr (), rn')" by blast
  obtain evs where l: "mb_events (book (rn_broker rn1)) = mb_events (book (rn_broker rn)) @ evs" "rn_fills rn1 = rn_fills rn + length evs"
    "\<forall>ev \<in> set evs. is_fill ev \<and> oe_broker_order_id ev \<in> fst ` set (mb_orders (book (rn_broker rn)))"
    using fill_phase_log(1) [OF f] by blast
  note o = fill_phase_log(2) [OF f] and mk = mark_phase_Inr [OF k]
  have s: "rn_orders rn1 = rn_orders rn" "rn_signals rn1 = rn_signals rn" "rn_curve rn1 = rn_curve rn" "rn_history rn1 = rn_history rn"
    using fill_phase_Inr [OF f] by metis+
  show ?thesis
  proof (cases "m \<le> 0")
    case True
    then show ?thesis using d l o mk s unfolding bar_facts_def by (intro exI [of _ m] exI [of _ evs] exI [of _ "[]"]) simp
  next
    case False
    then have dd: "decided (order_origin eng bar ps m (rn_history rn2)) rn2 rn'" using d decide_decided by simp
    have "orders_inv (book (rn_broker rn2))" using phase_inv(1) [OF inv f] mk by (simp add: broker_inv_def)
    note dl = decided_log [OF dd this]
    obtain new where "mb_events (book (rn_broker rn')) = mb_events (book (rn_broker rn2)) @ new" "\<forall>ev \<in> set new. \<not> is_fill ev"
      using dl(1) by blast
    then show ?thesis using False dl dd l o mk s unfolding bar_facts_def decided_def same_marks_def
      by (intro exI [of _ m] exI [of _ evs] exI [of _ new]) simp
  qed
qed

lemma bar_step_books:
  assumes "bar_step eng ops i bar rn = (Inr (), rn')" and inv: "broker_inv (book (rn_broker rn))"
  shows "\<exists>rn1. fill_phase eng ops bar rn = (Inr (), rn1) \<and> same_books (book (rn_broker rn1)) (book (rn_broker rn'))"
proof -
  obtain rn1 ps m rn2 where f: "fill_phase eng ops bar rn = (Inr (), rn1)" and k: "mark_phase ops bar rn1 = (Inr (ps, m), rn2)"
    and d: "if m \<le> 0 then rn' = rn2 else decide eng ops i bar ps m rn2 = (Inr (), rn')"
    using bar_step_Inr [OF assms(1)] by blast
  have mk: "book (rn_broker rn2) = book (rn_broker rn1)" using mark_phase_Inr [OF k] by simp
  have oi: "orders_inv (book (rn_broker rn2))" using phase_inv(1) [OF inv f] mk by (simp add: broker_inv_def)
  have "same_books (book (rn_broker rn2)) (book (rn_broker rn'))"
  proof (cases "m \<le> 0")
    case False
    then have "decided (order_origin eng bar ps m (rn_history rn2)) rn2 rn'" using d decide_decided by simp
    from decided_log(3) [OF this oi] show ?thesis by blast
  qed (use d in simp)
  then show ?thesis using f mk by simp
qed

lemma run_loop_facts:
  assumes "run_loop eng ops i bars rn = (Inr (), rn')" "broker_inv (book (rn_broker rn))"
  shows "(\<exists>pts. rn_curve rn' = rn_curve rn @ pts \<and> length pts = length bars) \<and>
         rn_history rn' = rn_history rn @ bars \<and> rn_orders rn \<le> rn_orders rn' \<and> rn_orders rn' \<le> rn_orders rn + length bars \<and>
         length (mb_orders (book (rn_broker rn'))) = length (mb_orders (book (rn_broker rn))) + (rn_orders rn' - rn_orders rn) \<and>
         length (filter is_fill (mb_events (book (rn_broker rn')))) =
           length (filter is_fill (mb_events (book (rn_broker rn)))) + (rn_fills rn' - rn_fills rn) \<and> rn_fills rn \<le> rn_fills rn'"
  using assms
proof (induction bars arbitrary: i rn)
  case (Cons bar bars)
  obtain rn1 where st: "bar_step eng ops i bar rn = (Inr (), rn1)" and l: "run_loop eng ops (i + 1) bars rn1 = (Inr (), rn')"
    using Cons.prems(1) by (auto simp: bindS_Inr_iff)
  have inv1: "broker_inv (book (rn_broker rn1))" using phase_inv(2) [OF Cons.prems(2) st] .
  obtain m evs new where f: "rn_curve rn1 = rn_curve rn @ [m]" "rn_history rn1 = rn_history rn @ [bar]"
    "mb_events (book (rn_broker rn1)) = mb_events (book (rn_broker rn)) @ evs @ new"
    "\<forall>ev \<in> set evs. is_fill ev" "\<forall>ev \<in> set new. \<not> is_fill ev" "rn_fills rn1 = rn_fills rn + length evs"
    "rn_orders rn \<le> rn_orders rn1" "rn_orders rn1 \<le> Suc (rn_orders rn)"
    "length (mb_orders (book (rn_broker rn1))) = length (mb_orders (book (rn_broker rn))) + (rn_orders rn1 - rn_orders rn)"
    using bar_step_facts [OF st Cons.prems(2)] unfolding bar_facts_def by blast
  have "filter is_fill evs = evs" "filter is_fill new = []" using f(4,5) by (simp_all add: filter_id_conv filter_empty_conv)
  then have n: "length (filter is_fill (mb_events (book (rn_broker rn1)))) = length (filter is_fill (mb_events (book (rn_broker rn)))) + length evs"
    by (simp add: f(3))
  obtain pts where "rn_curve rn' = rn_curve rn1 @ pts" "length pts = length bars" using Cons.IH [OF l inv1] by blast
  then have "\<exists>pts. rn_curve rn' = rn_curve rn @ pts \<and> length pts = length (bar # bars)" using f(1) by (intro exI [of _ "m # pts"]) simp
  then show ?case using Cons.IH [OF l inv1] f(2,6-9) n by auto
qed simp

end

section \<open>A small run\<close>

text \<open>An account of one million, one Treasury-bond bar a day, a strategy that is always long, target-position netting.\<close>

definition zb_bar :: VerifiedBar where
  "zb_bar = es_bar\<lparr>vb_contract := ''ZBM26'', vb_open := 100, vb_high := 101, vb_low := 99, vb_close := 100\<rparr>"

definition zb_signal :: Signal where
  "zb_signal = \<lparr>sg_contract = ''ZBM26'', sg_ts = vb_ts zb_bar, sg_strategy_id = ''s'', sg_direction = 1,
                sg_full_kelly_fraction = 2, sg_confidence = 1\<rparr>"

definition zb_engine :: "sizer \<Rightarrow> BacktestEngine" where
  "zb_engine risk = \<lparr>be_ctx = \<lparr>rc_mode = BACKTEST, rc_verifier_policy = POLICY_PHASE_A1_DEFAULT, rc_clock = (\<lambda>_. utc_noon),
                         rc_degraded_mode_allowed = False\<rparr>,
                be_strategy = (\<lambda>h ctx. Inr (if h = [] then None else Some (zb_signal\<lparr>sg_contract := vb_contract (last h)\<rparr>))), be_risk = risk,
                be_slippage = None, be_survival_gate = False, be_survival_seed = 0, be_target_position = True,
                be_roll_by_date = [], be_stop_loss_pct = None\<rparr>"

definition zb0 :: MockBroker where
  "zb0 = session0\<lparr>mb_starting_equity := 1000000\<rparr>"

lemma zb0_init: "MockBroker_init 1000000 ''A'' False None noon_clock (\<lambda>_. '''') = Inr zb0"
  by (simp add: MockBroker_init_def zb0_def session0_def)

lemma zb0_inv: "broker_inv zb0" "utc_clock zb0" "reachable zb0"
  using MockBroker_init_inv [OF zb0_init] reachable.init [OF zb0_init]
  by (simp_all add: utc_clock_def zb0_def session0_def noon_clock_def dt_is_utc_def)

lemma zb0_empty: "mb_orders zb0 = []" "mb_positions zb0 = []" "mb_events zb0 = []" "mb_block_all_trades zb0 = False"
  "mb_restrict_supported_to zb0 = None" "mb_next_order_id_seq zb0 = 0" "mb_filled_qty zb0 = []" "mb_cancelled zb0 = {}"
  by (simp_all add: zb0_def session0_def)

definition zb_order :: "int \<Rightarrow> Order" where
  "zb_order q = market_order ''ZBM26'' BUY q (''s@'' @ dt_isoformat (vb_ts zb_bar))"

definition zb1 :: "int \<Rightarrow> MockBroker" where
  "zb1 q = snd (place_order (zb_order q) zb0)"

lemma zb_order_ok: "0 < q \<Longrightarrow> order_ok (zb_order q)"
  unfolding zb_order_def by (rule market_order_ok)

lemma zb1_place:
  assumes "0 < q"
  shows "place_order (zb_order q) zb0 = (Inr (order_id 1), zb1 q)" "mb_orders (zb1 q) = [(order_id 1, zb_order q)]"
    "mb_filled_qty (zb1 q) = [(order_id 1, 0)]" "mb_cancelled (zb1 q) = {}" "same_books zb0 (zb1 q)" "same_config zb0 (zb1 q)"
  using place_order_ok [OF zb0_inv(1,2) zb_order_ok [OF assms]] by (auto simp: zb1_def zb0_empty supported_order_types_def)

lemma zb0_mark:
  assumes "rn_broker rn = zb0"
  shows "mark_phase mock_ops zb_bar rn =
           (Inr ([], 1000000), rn\<lparr>rn_curve := rn_curve rn @ [1000000], rn_history := rn_history rn @ [zb_bar]\<rparr>)"
proof -
  obtain am where am: "get_account_metrics zb0 = Inr am" "am_equity am = current_equity zb0" using metrics_total [OF zb0_inv(1)] by blast
  have "current_equity zb0 = 1000000" by (simp add: current_equity_def zb0_def session0_def dsum_def dec_exact)
  then show ?thesis using am assms
    by (simp add: mark_phase_def mock_ops_def with_broker_def get_positions_def zb0_empty mark_to_market_def dec_exact)
qed

lemma zb_step:
  assumes risk: "risk ''ZBM26'' 2 1000000 100 None None = Inr d" and q: "0 < sd_contracts d" and bnd: "sd_binding_constraint d \<noteq> by_survival"
  shows "\<exists>rn'. bar_step (zb_engine risk) mock_ops 0 zb_bar (run_start zb0) = (Inr (), rn') \<and> rn_broker rn' = zb1 (sd_contracts d) \<and>
           rn_curve rn' = [1000000] \<and> rn_orders rn' = 1"
proof -
  let ?q = "sd_contracts d"
  let ?rn1 = "(run_start zb0)\<lparr>rn_last_close := [(''ZBM26'', 100)]\<rparr>"
  have f: "fill_phase (zb_engine risk) mock_ops zb_bar (run_start zb0) = (Inr (), ?rn1)"
    by (simp add: fill_phase_def with_broker_def mock_ops_def run_start_def advance_def zb0_empty execute_roll_def zb_engine_def
        zb_bar_def dec_exact)
  define rn2 where "rn2 = ?rn1\<lparr>rn_curve := [1000000], rn_history := [zb_bar]\<rparr>"
  have m: "mark_phase mock_ops zb_bar ?rn1 = (Inr ([], 1000000), rn2)"
    using zb0_mark [of ?rn1] by (simp add: run_start_def rn2_def)
  have "place_if_allowed mock_ops ''ZBM26'' BUY ?q (''s@'' @ dt_isoformat (vb_ts zb_bar)) zb0 = (Inr True, zb1 ?q)"
    using zb1_place(1) [OF q] q
    by (simp add: place_if_allowed_def mock_ops_def is_trade_allowed_def zb0_empty market_order_new zb_order_def)
  then have "decide (zb_engine risk) mock_ops 0 zb_bar [] 1000000 rn2 =
      (Inr (), rn2\<lparr>rn_signals := 1, rn_broker := zb1 ?q, rn_orders := 1\<rparr>)"
    using risk q bnd
    by (simp add: decide_def zb_engine_def zb_signal_def act_on_signal_def trade_signal_def survival_inputs_def resolve_order_def
        net_position_def with_broker_def rn2_def run_start_def zb_bar_def es_bar_def)
  then show ?thesis using f m by (simp add: bar_step_def rn2_def run_start_def)
qed

abbreviation zb_risk :: sizer where
  "zb_risk \<equiv> size_position gate03 (RiskManager_init None None)"

lemma zb_risk: "zb_risk ''ZBM26'' 2 1000000 100 None None = Inr (zb_decision None)" "sd_contracts (zb_decision None) = 5"
  "sd_binding_constraint (zb_decision None) \<noteq> by_survival"
  using zb_sizing(1) by (simp_all add: zb_decision_def)

section \<open>Properties of a run\<close>

context engine_broker
begin

lemma run_Inr:
  assumes "run eng ops bars s = (Inr r, s')"
  obtains rn m where "run_loop eng ops 0 bars (run_start s) = (Inr (), rn)" "book s' = book (rn_broker rn)"
    and "get_account_metrics (book s') = Inr m"
    and "rr_bars_processed r = length bars" "rr_signals_generated r = rn_signals rn" "rr_orders_placed r = rn_orders rn"
      "rr_fills r = rn_fills rn" "rr_final_equity r = (if rn_curve rn \<noteq> [] then last (rn_curve rn) else am_equity m)"
      "rr_realized_pnl r = am_realized_pnl_today m" "rr_final_positions r = get_positions (book s')"
      "rr_equity_curve r = rn_curve rn" "rr_trade_pnls r = mb_trade_pnls (book s')"
proof -
  from assms obtain rn rn1 m where l: "run_loop eng ops 0 bars (run_start s) = (Inr (), rn)"
    and w: "with_broker (bo_metrics ops) rn = (Inr m, rn1)" and s': "s' = rn_broker rn1"
    and r: "r = \<lparr>rr_bars_processed = length bars, rr_signals_generated = rn_signals rn1, rr_orders_placed = rn_orders rn1,
                rr_fills = rn_fills rn1,
                rr_final_equity = (if rn_curve rn1 \<noteq> [] then last (rn_curve rn1) else am_equity m),
                rr_realized_pnl = am_realized_pnl_today m,
                rr_final_positions = bo_positions ops (rn_broker rn1), rr_equity_curve = rn_curve rn1,
                rr_survival_capped_bars = rn_capped rn1, rr_rolls_executed = rn_rolls rn1,
                rr_total_roll_cost = rn_roll_cost rn1, rr_trade_pnls = bo_trade_pnls ops (rn_broker rn1)\<rparr>"
    unfolding run_def map_prod_def
    by (cases "run_loop eng ops 0 bars (run_start s)"; cases "fst (run_loop eng ops 0 bars (run_start s))";
        cases "with_broker (bo_metrics ops) (snd (run_loop eng ops 0 bars (run_start s)))";
        cases "fst (with_broker (bo_metrics ops) (snd (run_loop eng ops 0 bars (run_start s))))") auto
  obtain s1 where "bo_metrics ops (rn_broker rn) = (Inr m, s1)" "rn1 = rn\<lparr>rn_broker := s1\<rparr>" using w by (auto simp: with_broker_eq)
  with book_eqs(3) show thesis using that [OF l, of m] s' r by (auto simp: positions_book trade_pnls_book)
qed

lemma run_loop_run:
  assumes "run_loop eng ops 0 bars (run_start s) = (Inr (), rn)" "broker_inv (book s)"
  shows "\<exists>r s'. run eng ops bars s = (Inr r, s') \<and> rr_equity_curve r = rn_curve rn \<and> rr_orders_placed r = rn_orders rn \<and>
           rr_fills r = rn_fills rn \<and> book s' = book (rn_broker rn)"
proof -
  have "broker_inv (book (rn_broker rn))" using phase_inv(3) [OF _ assms(1)] assms(2) by (simp add: run_start_def)
  from metrics_total [OF this] obtain m where "fst (bo_metrics ops (rn_broker rn)) = Inr m" by auto
  then obtain s1 where m: "bo_metrics ops (rn_broker rn) = (Inr m, s1)" by (metis prod.collapse)
  have "book s1 = book (rn_broker rn)" using book_eqs(3) [OF m] by simp
  then show ?thesis using assms(1) m by (simp add: run_def with_broker_def)
qed

end

text \<open>
  The result of a backtest is what the broker recorded, on either broker class: one equity point per bar,
  the final equity is the last of them, \<open>orders_placed\<close> is exactly the number of orders the broker received,
  \<open>fills\<close> exactly the number of fill events it logged, at most one order is placed per bar, and final
  positions, realized profit and trade ledger are the broker's own. The broker is left in a reachable state.
\<close>

theorem run_counters_truthful:
  assumes "engine_broker ops book" "reachable (book s)" "run eng ops bars s = (Inr r, s')"
  shows "length (rr_equity_curve r) = length bars \<and> rr_bars_processed r = length bars \<and>
         (bars \<noteq> [] \<longrightarrow> rr_final_equity r = last (rr_equity_curve r)) \<and>
         length (mb_orders (book s')) = length (mb_orders (book s)) + rr_orders_placed r \<and> rr_orders_placed r \<le> length bars \<and>
         length (filter is_fill (mb_events (book s'))) = length (filter is_fill (mb_events (book s))) + rr_fills r \<and>
         rr_final_positions r = get_positions (book s') \<and> rr_realized_pnl r = mb_realized_pnl_today (book s') \<and>
         rr_trade_pnls r = mb_trade_pnls (book s') \<and> reachable (book s')"
proof -
  have inv: "broker_inv (book s)" using assms(2) by (rule reachable_inv)
  from engine_broker.run_Inr [OF assms(1,3)] obtain rn m where l: "run_loop eng ops 0 bars (run_start s) = (Inr (), rn)"
    and b: "book s' = book (rn_broker rn)" and m: "get_account_metrics (book s') = Inr m"
    and r: "rr_bars_processed r = length bars" "rr_orders_placed r = rn_orders rn" "rr_fills r = rn_fills rn"
      "rr_final_equity r = (if rn_curve rn \<noteq> [] then last (rn_curve rn) else am_equity m)"
      "rr_realized_pnl r = am_realized_pnl_today m" "rr_final_positions r = get_positions (book s')"
      "rr_equity_curve r = rn_curve rn" "rr_trade_pnls r = mb_trade_pnls (book s')" by metis
  have steps: "broker_step\<^sup>*\<^sup>* (book s) (book s')"
    using engine_broker.run_steps [OF assms(1), of s eng bars] assms(3) by simp
  then have re: "reachable (book s')" using assms(2) by (induction rule: rtranclp_induct) (auto intro: reachable.step)
  have "am_realized_pnl_today m = mb_realized_pnl_today (book s')" using metrics_total [OF reachable_inv [OF re]] m by auto
  then show ?thesis
    using engine_broker.run_loop_facts [OF assms(1) l] inv r b re by (auto simp: run_start_def)
qed

text \<open>
  C7. No look-ahead: a backtest that returns on a sequence of bars also returns on every prefix of it, and
  the equity curve of the prefix is the prefix of the equity curve. So no point of the curve depends on a
  later bar, whatever the strategy, the sizer and the flags.
\<close>

theorem run_no_lookahead:
  assumes "engine_broker ops book" "reachable (book s)" "run eng ops (xs @ ys) s = (Inr r, s')"
  shows "\<exists>r1 s1. run eng ops xs s = (Inr r1, s1) \<and> rr_equity_curve r1 = take (length xs) (rr_equity_curve r) \<and>
           rr_orders_placed r1 \<le> rr_orders_placed r \<and> rr_fills r1 \<le> rr_fills r"
proof -
  have inv: "broker_inv (book s)" using assms(2) by (rule reachable_inv)
  from engine_broker.run_Inr [OF assms(1,3)] obtain rn where l: "run_loop eng ops 0 (xs @ ys) (run_start s) = (Inr (), rn)"
    and r: "rr_equity_curve r = rn_curve rn" "rr_orders_placed r = rn_orders rn" "rr_fills r = rn_fills rn" by metis
  then obtain rn1 where l1: "run_loop eng ops 0 xs (run_start s) = (Inr (), rn1)"
    and l2: "run_loop eng ops (length xs) ys rn1 = (Inr (), rn)"
    by (auto simp: run_loop_append bindS_Inr_iff)
  have inv1: "broker_inv (book (rn_broker rn1))"
    using engine_broker.phase_inv(3) [OF assms(1) _ l1] inv by (simp add: run_start_def)
  have "length (rn_curve rn1) = length xs"
    using engine_broker.run_loop_facts [OF assms(1) l1] inv by (auto simp: run_start_def)
  then have "rn_curve rn1 = take (length xs) (rn_curve rn)" "rn_orders rn1 \<le> rn_orders rn" "rn_fills rn1 \<le> rn_fills rn"
    using engine_broker.run_loop_facts [OF assms(1) l2 inv1] by auto
  then show ?thesis using engine_broker.run_loop_run [OF assms(1) l1 inv] r by metis
qed

lemma zb_run:
  assumes "risk ''ZBM26'' 2 1000000 100 None None = Inr d" "0 < sd_contracts d" "sd_binding_constraint d \<noteq> by_survival"
  shows "\<exists>r s'. run (zb_engine risk) mock_ops [zb_bar] zb0 = (Inr r, s') \<and> rr_equity_curve r = [1000000] \<and> rr_orders_placed r = 1 \<and>
           s' = zb1 (sd_contracts d)"
proof -
  obtain rn' where st: "bar_step (zb_engine risk) mock_ops 0 zb_bar (run_start zb0) = (Inr (), rn')" "rn_broker rn' = zb1 (sd_contracts d)"
    "rn_curve rn' = [1000000]" "rn_orders rn' = 1"
    using zb_step [of risk, OF assms] by blast
  then have l: "run_loop (zb_engine risk) mock_ops 0 [zb_bar] (run_start zb0) = (Inr (), rn')" by simp
  then show ?thesis using st
    by (metis mock_eng.run_loop_run zb0_inv(1) id_apply)
qed

theorem run_counters_truthful_witness:
  "\<exists>r s'. run (zb_engine zb_risk) mock_ops [zb_bar] zb0 = (Inr r, s') \<and> rr_orders_placed r = 1 \<and> length (mb_orders s') = 1 \<and> reachable s'"
proof -
  obtain r s' where r: "run (zb_engine zb_risk) mock_ops [zb_bar] zb0 = (Inr r, s')" "rr_orders_placed r = 1"
    using zb_run [of zb_risk, OF zb_risk(1)] zb_risk by auto
  from run_counters_truthful [OF mock_eng.engine_broker_axioms _ r(1)] zb0_inv(3) show ?thesis using r by (simp add: zb0_empty)
qed

theorem run_no_lookahead_witness:
  "\<exists>r s1. run (zb_engine zb_risk) mock_ops [zb_bar] zb0 = (Inr r, s1) \<and> rr_equity_curve r = take (length [zb_bar]) [1000000]"
proof -
  obtain r s' where r: "run (zb_engine zb_risk) mock_ops ([zb_bar] @ []) zb0 = (Inr r, s')" "rr_equity_curve r = [1000000]"
    using zb_run [of zb_risk, OF zb_risk(1)] zb_risk by auto
  have "reachable (id zb0)" using zb0_inv(3) by simp
  from run_no_lookahead [OF mock_eng.engine_broker_axioms this r(1)] show ?thesis unfolding r(2) by blast
qed

text \<open>
  A decision is paid for on a later bar: every fill logged while a bar is processed belongs to an order
  the broker already held before that bar, and deciding on the bar leaves positions, realized profit and the
  trade ledger exactly as filling and rolling left them.
\<close>

theorem bar_fills_earlier_orders:
  assumes "engine_broker ops book" "reachable (book (rn_broker rn))" "bar_step eng ops i bar rn = (Inr (), rn')"
  shows "\<exists>log. mb_events (book (rn_broker rn')) = mb_events (book (rn_broker rn)) @ log \<and>
           (\<forall>ev \<in> set log. is_fill ev \<longrightarrow> oe_broker_order_id ev \<in> fst ` set (mb_orders (book (rn_broker rn)))) \<and>
           (\<exists>rn1. fill_phase eng ops bar rn = (Inr (), rn1) \<and> same_books (book (rn_broker rn1)) (book (rn_broker rn')))"
proof -
  have inv: "broker_inv (book (rn_broker rn))" using assms(2) by (rule reachable_inv)
  obtain evs new where "mb_events (book (rn_broker rn')) = mb_events (book (rn_broker rn)) @ evs @ new"
    "\<forall>ev \<in> set evs. oe_broker_order_id ev \<in> fst ` set (mb_orders (book (rn_broker rn)))" "\<forall>ev \<in> set new. \<not> is_fill ev"
    using engine_broker.bar_step_facts [OF assms(1,3) inv] unfolding engine_broker.bar_facts_def [OF assms(1)] by blast
  then show ?thesis using engine_broker.bar_step_books [OF assms(1,3) inv] by (intro exI [of _ "evs @ new"]) auto
qed

theorem bar_fills_earlier_orders_witness:
  "\<exists>rn' log. bar_step (zb_engine zb_risk) mock_ops 0 zb_bar (run_start zb0) = (Inr (), rn') \<and> mb_orders (rn_broker rn') = [(order_id 1, zb_order 5)] \<and>
     mb_events (rn_broker rn') = log \<and> (\<forall>ev \<in> set log. \<not> is_fill ev)"
proof -
  obtain rn' where st: "bar_step (zb_engine zb_risk) mock_ops 0 zb_bar (run_start zb0) = (Inr (), rn')" "rn_broker rn' = zb1 5"
    using zb_step [of zb_risk, OF zb_risk(1)] zb_risk by auto
  have "reachable (id (rn_broker (run_start zb0)))" using zb0_inv(3) by (simp add: run_start_def)
  from bar_fills_earlier_orders [OF mock_eng.engine_broker_axioms this st(1)] show ?thesis
    using st zb1_place(2) [of 5] by (auto simp: run_start_def zb0_empty)
qed

text \<open>
  A ruined account stops trading: on a bar whose marked equity is zero or negative no order is placed,
  the strategy is not asked, and the broker's orders are those it held before the bar.
\<close>

theorem ruined_account_stops:
  assumes "engine_broker ops book" "reachable (book (rn_broker rn))" "bar_step eng ops i bar rn = (Inr (), rn')"
    and "last (rn_curve rn') \<le> 0"
  shows "mb_orders (book (rn_broker rn')) = mb_orders (book (rn_broker rn)) \<and> rn_orders rn' = rn_orders rn \<and>
         rn_signals rn' = rn_signals rn"
  using engine_broker.bar_step_facts [OF assms(1,3) reachable_inv [OF assms(2)]] assms(4)
  by (auto simp: engine_broker.bar_facts_def [OF assms(1)])

definition es_crash :: VerifiedBar where
  "es_crash = es_bar\<lparr>vb_open := 4500, vb_high := 4500, vb_low := 4300, vb_close := 4400\<rparr>"

lemma es_crash_step:
  "\<exists>rn'. bar_step (zb_engine zb_risk) mock_ops 0 es_crash (run_start session2) = (Inr (), rn') \<and> rn_curve rn' = [- 10000]"
proof -
  have o: "mb_orders session2 = [(order_id 1, buy2)]" "map_of (mb_filled_qty session2) (order_id 1) = Some 2"
    using session2_fill(1) fill_order_keeps fill_order_filled(1) session1_place(2) by (fastforce simp: buy2_def)+
  have "advance_loop es_crash None [order_id 1] session2 = (Inr [], session2)"
    using o by (simp add: buy2_def)
  then have f: "fill_phase (zb_engine zb_risk) mock_ops es_crash (run_start session2)
      = (Inr (), (run_start session2)\<lparr>rn_last_close := [(''ESM26'', 4400)]\<rparr>)"
    by (simp add: fill_phase_def with_broker_def mock_ops_def run_start_def advance_def o(1) execute_roll_def zb_engine_def
        es_crash_def es_bar_def dec_exact)
  obtain am where am: "get_account_metrics session2 = Inr am" "am_equity am = 50000"
    using metrics_total [OF session2_fill(4)] session2_equity by auto
  have "mark_to_market 50000 [es_long] [(''ESM26'', 4400)] = Inr (- 10000)"
    by (simp add: mark_to_market_def es_long_def es_multiplier dec_exact dint_def)
  then have "mark_phase mock_ops es_crash ((run_start session2)\<lparr>rn_last_close := [(''ESM26'', 4400)]\<rparr>) =
      (Inr ([es_long], - 10000), (run_start session2)\<lparr>rn_last_close := [(''ESM26'', 4400)], rn_curve := [- 10000], rn_history := [es_crash]\<rparr>)"
    using am by (simp add: mark_phase_def mock_ops_def with_broker_def get_positions_def run_start_def session2_books)
  then show ?thesis using f by (simp add: bar_step_def)
qed

theorem ruined_account_stops_witness:
  "\<exists>rn'. bar_step (zb_engine zb_risk) mock_ops 0 es_crash (run_start session2) = (Inr (), rn') \<and> rn_curve rn' = [- 10000] \<and> rn_orders rn' = 0 \<and>
     mb_orders (rn_broker rn') = mb_orders session2"
proof -
  obtain rn' where st: "bar_step (zb_engine zb_risk) mock_ops 0 es_crash (run_start session2) = (Inr (), rn')" "rn_curve rn' = [- 10000]"
    using es_crash_step by blast
  have "reachable (id (rn_broker (run_start session2)))" using session_reachable(2) by (simp add: run_start_def)
  from ruined_account_stops [OF mock_eng.engine_broker_axioms this st(1)] show ?thesis using st by (simp add: run_start_def)
qed

end
