(* ===== verification/Roll_Properties.thy ===== *)
theory Roll_Properties
  imports Roll_Executor
begin

text \<open>
  Correctness of the roll planning of \<open>Roll_Executor\<close>. A contract symbol is read back as it was written
  for the years a two-digit year can name; \<open>next_contract\<close> is the next listed month in time; the calendar
  builder succeeds on every listed contract and places the roll window strictly before every date that
  would force a delivery or an expiry; \<open>decide_rolls\<close> takes one decision for exactly the positions that
  have reached their window.
\<close>

section \<open>Contract symbols\<close>

definition month_number :: "char \<Rightarrow> int" where
  "month_number code = the (map_of MONTH_CODE_TO_NUM code)"

text \<open>Months since the year 0: the order in time of the contracts of a root.\<close>

definition month_index :: "char \<Rightarrow> int \<Rightarrow> int" where
  "month_index code year = 12 * year + month_number code"

lemma expand_year_mod:
  assumes "1950 \<le> y" "y \<le> 2049"
  shows "expand_year (y mod 100) = y"
proof (cases "y < 2000")
  case True
  then have "y mod 100 = y - 1900" using assms by presburger
  then show ?thesis using True assms by (simp add: expand_year_def YEAR_2DIGIT_PIVOT_def)
next
  case False
  then have "y mod 100 = y - 2000" using assms by presburger
  then show ?thesis using False assms by (simp add: expand_year_def YEAR_2DIGIT_PIVOT_def)
qed

lemma parse_contract_symbol:
  assumes "1950 \<le> y" "y \<le> 2049" "rt \<noteq> []" "map_of MONTH_CODE_TO_NUM code \<noteq> None"
  shows "parse_contract (contract_symbol rt code y) = Inr (rt, code, y)"
proof -
  define yy where "yy = zpad 2 (nat (y mod 100))"
  have yy: "length yy = 2" "all_digits yy" "int (digits_val yy) = y mod 100"
    unfolding yy_def by (simp_all add: nat_less_iff)
  have s: "contract_symbol rt code y = rt @ code # yy" by (simp add: contract_symbol_def yy_def)
  show ?thesis
    using assms yy unfolding s
    by (auto simp: parse_contract_def ROLL_SYMBOL_SUFFIX_LEN_def Let_def expand_year_mod nth_append)
qed

section \<open>Cycles\<close>

lemma cycle_cases:
  assumes "map_of ROOT_CYCLE rt = Some cycle"
  shows "cycle = QUARTERLY \<or> cycle = MONTHLY \<or> cycle = BI_MONTHLY \<or> cycle = HKNUZ" "rt \<noteq> []"
  using assms by (auto simp: ROOT_CYCLE_def split: if_splits)

lemmas cycle_defs = QUARTERLY_def MONTHLY_def BI_MONTHLY_def HKNUZ_def

lemma cycle_sorted:
  assumes "map_of ROOT_CYCLE rt = Some cycle"
  shows "cycle \<noteq> []" "sorted_wrt (<) (map month_number cycle)"
    "code \<in> set cycle \<Longrightarrow> map_of MONTH_CODE_TO_NUM code = Some (month_number code)
       \<and> 1 \<le> month_number code \<and> month_number code \<le> 12"
  using cycle_cases(1) [OF assms]
  by (elim disjE; auto simp: cycle_defs MONTH_CODE_TO_NUM_def month_number_def)+

text \<open>The successor in the cycle is the next listed month, with nothing listed in between.\<close>

lemma cycle_next_adjacent:
  assumes rt: "map_of ROOT_CYCLE rt = Some cycle" and code: "code \<in> set cycle"
    and nxt: "cycle_next cycle code y = (code', y')"
  shows "code' \<in> set cycle" "y' = y \<or> y' = y + 1" "month_index code y < month_index code' y'"
    "c \<in> set cycle \<Longrightarrow> \<not> (month_index code y < month_index c z \<and> month_index c z < month_index code' y')"
proof -
  define i where "i = length (takeWhile (\<lambda>c. c \<noteq> code) cycle)"
  have i: "i < length cycle" "cycle ! i = code"
    using split_list_first [OF code] by (auto simp: i_def takeWhile_append)
  have less: "month_number (cycle ! j) < month_number (cycle ! k)" if "j < k" "k < length cycle" for j k
    using cycle_sorted(2) [OF rt] that by (simp add: sorted_wrt_iff_nth_less)
  have range: "1 \<le> month_number c" "month_number c \<le> 12" if "c \<in> set cycle" for c
    using cycle_sorted(3) [OF rt that] by simp_all
  have succ: "if i + 1 < length cycle then code' = cycle ! (i + 1) \<and> y' = y else code' = cycle ! 0 \<and> y' = y + 1"
    using nxt by (simp add: cycle_next_def i_def [symmetric] Let_def split: if_splits)
  then show mem: "code' \<in> set cycle" using cycle_sorted(1) [OF rt] by (auto split: if_splits)
  show "y' = y \<or> y' = y + 1" using succ by (simp split: if_splits)
  show "month_index code y < month_index code' y'"
    using succ less [of i "i + 1"] range [OF code] range [OF mem] i(2) by (auto simp: month_index_def split: if_splits)
  assume "c \<in> set cycle"
  then obtain k where k: "k < length cycle" "cycle ! k = c" by (auto simp: in_set_conv_nth)
  have c: "1 \<le> month_number c" "month_number c \<le> 12" using range \<open>c \<in> set cycle\<close> by auto
  show "\<not> (month_index code y < month_index c z \<and> month_index c z < month_index code' y')"
  proof
    assume b: "month_index code y < month_index c z \<and> month_index c z < month_index code' y'"
    show False
    proof (cases "i + 1 < length cycle")
      case True
      then have "z = y" using b succ c range [OF code] range [OF mem] by (auto simp: month_index_def)
      then have "month_number code < month_number c" "month_number c < month_number (cycle ! (i + 1))"
        using True b succ by (simp_all add: month_index_def)
      then show False using less [of k i] less [of "i + 1" k] i k True by (cases "k < i"; cases "i < k"; cases "k = i + 1") auto
    next
      case False
      then have "z = y \<or> z = y + 1" using b succ c range [OF code] range [OF mem] by (auto simp: month_index_def)
      then have "z = y \<and> month_number code < month_number c \<or> z = y + 1 \<and> month_number c < month_number (cycle ! 0)"
        using False b succ by (auto simp: month_index_def)
      moreover have "k \<le> i" using False k(1) by simp
      ultimately show False using less [of k i] less [of 0 k] i k by (cases "k = i"; cases "k = 0") auto
    qed
  qed
qed

lemma next_contract_symbol:
  assumes "map_of ROOT_CYCLE rt = Some cycle" "code \<in> set cycle" "1950 \<le> y" "y \<le> 2049"
  shows "next_contract (contract_symbol rt code y) =
           (let (code', y') = cycle_next cycle code y in Inr (contract_symbol rt code' y'))"
  using parse_contract_symbol [OF assms(3,4) cycle_cases(2) [OF assms(1)]] cycle_sorted(3) [OF assms(1,2)] assms(1,2)
  by (simp add: next_contract_def)

section \<open>Counting open days\<close>

definition open_days :: "cme_calendar \<Rightarrow> date \<Rightarrow> date \<Rightarrow> nat" where
  "open_days cal a b = card {x. a \<le> x \<and> x < b \<and> open_on cal x}"

lemma finite_open_days [simp]: "finite {x::int. a \<le> x \<and> x < b \<and> P x}"
  by (rule finite_subset [of _ "{a..<b}"]) auto

lemma open_days_split:
  assumes "a \<le> b" "b \<le> c"
  shows "open_days cal a c = open_days cal a b + open_days cal b c"
proof -
  have "{x. a \<le> x \<and> x < c \<and> open_on cal x} =
          {x. a \<le> x \<and> x < b \<and> open_on cal x} \<union> {x. b \<le> x \<and> x < c \<and> open_on cal x}" using assms by auto
  then show ?thesis unfolding open_days_def by (simp add: card_Un_disjoint disjoint_iff)
qed

lemma open_days_mono: "a' \<le> a \<Longrightarrow> b \<le> b' \<Longrightarrow> open_days cal a b \<le> open_days cal a' b'"
  unfolding open_days_def by (rule card_mono) auto

lemma open_days_closed: "(\<And>x. a \<le> x \<Longrightarrow> x < b \<Longrightarrow> \<not> open_on cal x) \<Longrightarrow> open_days cal a b = 0"
  by (auto simp: open_days_def)

text \<open>The dates of the builder lie far inside the range on which the computed calendar answers.\<close>

definition mid_range :: "date \<Rightarrow> bool" where
  "mid_range d \<longleftrightarrow> 1000 \<le> d \<and> d \<le> 1000000"

lemma mid_range_answerable: "mid_range d \<Longrightarrow> - 900 \<le> k \<Longrightarrow> k \<le> 900 \<Longrightarrow> answerable (d + k)"
  by (simp add: mid_range_def answerable_def days_before_year_def)

lemma open_days_weeks:
  assumes "extra_holidays cal = []" "answerable a" "answerable (a + 7 * int k)"
  shows "2 * k \<le> open_days cal a (a + 7 * int k)"
  using assms(3)
proof (induction k)
  case 0
  then show ?case by simp
next
  case (Suc k)
  define b where "b = a + 7 * int k"
  have "answerable b" "answerable (b + 6)"
    using answerable_between [OF assms(2) Suc.prems] by (simp_all add: b_def)
  then obtain i j where ij: "0 \<le> i" "i < j" "j < 7" "is_trading_day cal (b + i) = Inr True" "is_trading_day cal (b + j) = Inr True"
    using two_trading_days_in_week [OF assms(1)] by blast
  have "card {b + i, b + j} \<le> open_days cal b (b + 7)"
    unfolding open_days_def by (rule card_mono) (use ij in \<open>auto simp: open_on_def\<close>)
  then have "2 \<le> open_days cal b (b + 7)" using ij by simp
  moreover have "open_days cal a (a + 7 * int (Suc k)) = open_days cal a b + open_days cal b (b + 7)"
    using open_days_split [of a b "b + 7" cal] by (simp add: b_def algebra_simps)
  ultimately show ?case using Suc.IH \<open>answerable b\<close> by (simp add: b_def)
qed

section \<open>Stepping back by trading days\<close>

lemma add_back_reaches:
  assumes "add_trading_days cal s (- n) = Inr a" "0 < n" "nat n \<le> open_days cal b s"
  shows "b \<le> a"
proof (rule ccontr)
  assume "\<not> b \<le> a"
  have a: "a < s" "open_on cal a" "open_days cal a s = nat n"
    using add_trading_days_backward [OF assms(1)] assms(2) by (simp_all add: open_days_def)
  have "card (insert a {x. b \<le> x \<and> x < s \<and> open_on cal x}) \<le> open_days cal a s"
    unfolding open_days_def by (rule card_mono) (use \<open>\<not> b \<le> a\<close> a in auto)
  then show False using \<open>\<not> b \<le> a\<close> a(3) assms(3) by (simp add: open_days_def)
qed

lemma add_back:
  assumes "extra_holidays cal = []" "mid_range s" "0 < n" "n \<le> 20"
  shows "\<exists>a. add_trading_days cal s (- n) = Inr a \<and> open_on cal a \<and> s - 7 * n \<le> a \<and> a < s
           \<and> open_days cal a s = nat n"
proof -
  have ans: "answerable s" "answerable (s - 7 * n)"
    using mid_range_answerable [OF assms(2), of 0] mid_range_answerable [OF assms(2), of "- (7 * n)"] assms(3,4) by simp_all
  then obtain a where a: "add_trading_days cal s (- n) = Inr a"
    using add_trading_days_exists [OF assms(1), of s "- n"] by auto
  have "nat n \<le> open_days cal (s - 7 * n) s"
    using open_days_weeks [OF assms(1) ans(2), of "nat n"] ans(1) assms(3) by simp
  then have "s - 7 * n \<le> a" by (rule add_back_reaches [OF a assms(3)])
  then show ?thesis
    using a add_trading_days_backward [OF a] assms(3) by (auto simp: open_days_def)
qed

lemma add_forward:
  assumes "extra_holidays cal = []" "mid_range s" "0 < n" "n \<le> 20"
  shows "\<exists>a. add_trading_days cal s n = Inr a \<and> open_on cal a \<and> s < a \<and> a \<le> s + 200"
proof -
  have ans: "answerable s" "answerable (s + 7 * n)"
    using mid_range_answerable [OF assms(2), of 0] mid_range_answerable [OF assms(2), of "7 * n"] assms(3,4) by simp_all
  then obtain a where a: "add_trading_days cal s n = Inr a"
    using add_trading_days_exists [OF assms(1)] by blast
  moreover have "a \<le> s + (7 * n + 30)"
    using a assms(3) add_trading_days_iff [of n cal s a] by (auto simp: nat_le_iff le_nat_iff)
  ultimately show ?thesis using add_trading_days_forward [OF a assms(3)] assms(4) by auto
qed

text \<open>\<open>_guard\<close> gives the last open day on or before a date.\<close>

lemma guard_day_correct:
  assumes "extra_holidays cal = []" "mid_range d"
  shows "\<exists>g. guard_day cal d = Inr g \<and> open_on cal g \<and> d - 7 \<le> g \<and> g \<le> d \<and> (\<forall>x. g < x \<and> x \<le> d \<longrightarrow> \<not> open_on cal x)"
proof -
  have ans: "answerable d" using mid_range_answerable [OF assms(2), of 0] by simp
  obtain b where b: "is_trading_day cal d = Inr b" using is_trading_day_answers [OF ans] by blast
  show ?thesis
  proof (cases b)
    case True
    then show ?thesis using b by (auto simp: guard_day_def open_on_def)
  next
    case False
    obtain a where a: "add_trading_days cal d (- 1) = Inr a" "open_on cal a" "d - 7 \<le> a" "a < d" "open_days cal a d = 1"
      using add_back [OF assms, of 1] by auto
    have "\<not> open_on cal x" if "a < x" "x \<le> d" for x
    proof
      assume x: "open_on cal x"
      then have "x < d" using that b False by (cases "x = d") (auto simp: open_on_def)
      then have "card {a, x} \<le> open_days cal a d"
        unfolding open_days_def by (intro card_mono) (use that x a in auto)
      then show False using that a(5) by simp
    qed
    then show ?thesis using a b False by (auto simp: guard_day_def prev_trading_day_def)
  qed
qed

section \<open>Expiry dates of a month\<close>

lemma month_first_range:
  assumes "1949 \<le> y" "y \<le> 2049" "1 \<le> m" "m \<le> 12"
  shows "711000 \<le> ymd2ord y m 1" "ymd2ord y m 1 \<le> 749000"
proof -
  have "days_before_year 1949 \<le> days_before_year y" "days_before_year (y + 1) \<le> days_before_year 2050"
    using assms by (auto intro: days_before_year_mono)
  moreover have "days_before_year y < ymd2ord y m 1" "ymd2ord y m 1 \<le> days_before_year (y + 1)"
    using ymd2ord_in_year [of m 1 y] assms(3,4) days_in_month_bounds(1) [of y m] by simp_all
  ultimately show "711000 \<le> ymd2ord y m 1" "ymd2ord y m 1 \<le> 749000" by (simp_all add: days_before_year_def)
qed

lemma previous_month_end:
  assumes "previous_month y m = (py, pm)" "1 \<le> m" "m \<le> 12"
  shows "ymd2ord py pm (days_in_month py pm) = ymd2ord y m 1 - 1" "1 \<le> pm" "pm \<le> 12" "y - 1 \<le> py" "py \<le> y"
proof -
  show "ymd2ord py pm (days_in_month py pm) = ymd2ord y m 1 - 1"
  proof (cases "m = 1")
    case True
    then show ?thesis using assms(1) year_length [of "y - 1"]
      by (auto simp: previous_month_def ymd2ord_def days_in_month_def)
  next
    case False
    then show ?thesis using assms days_before_next_month [of "m - 1" y] by (auto simp: previous_month_def ymd2ord_def)
  qed
  show "1 \<le> pm" "pm \<le> 12" "y - 1 \<le> py" "py \<le> y" using assms by (auto simp: previous_month_def split: if_splits)
qed

lemma mk_date_ok:
  "1 \<le> y \<Longrightarrow> y \<le> 9999 \<Longrightarrow> 1 \<le> m \<Longrightarrow> m \<le> 12 \<Longrightarrow> 1 \<le> d \<Longrightarrow> d \<le> days_in_month y m \<Longrightarrow>
     mk_date y m d = Inr (ymd2ord y m 1 + (d - 1))"
  by (simp add: mk_date_def ymd2ord_def)

text \<open>The last trading day of a month, counted from the first of the month \<open>f\<close>: it leaves at least eight open days.\<close>

lemma last_trading_day_correct:
  assumes "extra_holidays cal = []" "1949 \<le> y" "y \<le> 2049" "1 \<le> m" "m \<le> 12" "f = ymd2ord y m 1"
  shows "\<exists>g. last_trading_day_of_month cal y m = Inr g \<and> open_on cal g \<and> f + 20 \<le> g \<and> g \<le> f + (days_in_month y m - 1)
           \<and> f + (days_in_month y m - 1) - 7 \<le> g \<and> 7 \<le> open_days cal f g"
proof -
  define e where "e = f + (days_in_month y m - 1)"
  have dim: "28 \<le> days_in_month y m" "days_in_month y m \<le> 31" by (rule days_in_month_bounds)+
  have f: "711000 \<le> f" "f \<le> 749000" using month_first_range [OF assms(2-5)] assms(6) by simp_all
  have "mid_range e" using f dim by (simp add: mid_range_def e_def)
  then obtain g where g: "guard_day cal e = Inr g" "open_on cal g" "e - 7 \<le> g" "g \<le> e"
      "\<forall>x. g < x \<and> x \<le> e \<longrightarrow> \<not> open_on cal x"
    using guard_day_correct [OF assms(1)] by blast
  have "last_trading_day_of_month cal y m = Inr g"
    using g(1) assms dim mk_date_ok [of y m "days_in_month y m"] by (simp add: last_trading_day_of_month_def e_def)
  moreover have "7 \<le> open_days cal f g"
  proof -
    have "answerable f" "answerable (f + 7 * int 4)" using f by (simp_all add: answerable_def days_before_year_def)
    then have "8 \<le> open_days cal f (f + 28)" using open_days_weeks [OF assms(1), of f 4] by simp
    also have "\<dots> \<le> open_days cal f (e + 1)" using dim by (intro open_days_mono) (simp_all add: e_def)
    also have "\<dots> = open_days cal f g + open_days cal g (e + 1)"
      using g(3,4) dim by (intro open_days_split) (simp_all add: e_def)
    also have "open_days cal g (e + 1) = open_days cal g (g + 1) + open_days cal (g + 1) (e + 1)"
      using g(4) by (intro open_days_split) simp_all
    also have "open_days cal (g + 1) (e + 1) = 0" using g(5) by (intro open_days_closed) simp
    also have "open_days cal g (g + 1) \<le> 1"
    proof -
      have "{x. g \<le> x \<and> x < g + 1 \<and> open_on cal x} \<subseteq> {g}" by auto
      then show ?thesis unfolding open_days_def using card_mono [of "{g}"] by fastforce
    qed
    finally show ?thesis by simp
  qed
  ultimately show ?thesis using g(2-4) dim unfolding e_def by auto
qed

text \<open>The Friday and Wednesday rules count weeks from the first of the month.\<close>

lemma nth_weekday_from_first:
  assumes "1949 \<le> y" "y \<le> 2049" "1 \<le> m" "m \<le> 12" "k \<in> {7, 14}"
  shows "\<exists>d. bindE (mk_date y m 1) (\<lambda>first. let offset = (w - weekday first) mod 7 in mk_date y m (1 + offset + k)) = Inr d
           \<and> ymd2ord y m 1 \<le> d \<and> d \<le> ymd2ord y m 1 + 20"
proof -
  define off where "off = (w - weekday (ymd2ord y m 1)) mod 7"
  have off: "0 \<le> off" "off < 7" by (simp_all add: off_def)
  have "1 + off + k \<le> days_in_month y m" using off assms(5) days_in_month_bounds(1) [of y m] by auto
  then have "mk_date y m (1 + off + k) = Inr (ymd2ord y m 1 + (off + k))"
    using mk_date_ok [of y m "1 + off + k"] assms off by auto
  moreover have "mk_date y m 1 = Inr (ymd2ord y m 1)"
    using mk_date_ok [of y m 1] assms days_in_month_bounds(1) [of y m] by simp
  ultimately show ?thesis using off assms(5) by (auto simp: Let_def off_def)
qed

text \<open>
  What the builder needs of the derived dates of a contract whose month starts on \<open>f\<close>: the last trading
  day and the first notice day are open days near \<open>f\<close>, and the anchor comes first.
\<close>

definition expiry_ok :: "cme_calendar \<Rightarrow> RollSpec \<Rightarrow> date \<Rightarrow> derived \<Rightarrow> bool" where
  "expiry_ok cal spec f d = (case d of (ltd, fnd, regime) \<Rightarrow>
     open_on cal ltd \<and> f - 90 \<le> ltd \<and> ltd \<le> f + 31
     \<and> (case fnd of
          None \<Rightarrow> rs_anchor spec = LTD
        | Some g \<Rightarrow> open_on cal g \<and> f - 90 \<le> g \<and> g \<le> f + 300
            \<and> (if rs_anchor spec = LTD then ltd < g else g < ltd)))"

definition contract_month :: "cme_calendar \<Rightarrow> int \<Rightarrow> int \<Rightarrow> date \<Rightarrow> bool" where
  "contract_month cal y m f \<longleftrightarrow>
     extra_holidays cal = [] \<and> 1950 \<le> y \<and> y \<le> 2049 \<and> 1 \<le> m \<and> m \<le> 12 \<and> f = ymd2ord y m 1"

lemma contract_monthD:
  assumes "contract_month cal y m f"
  shows "extra_holidays cal = []" "1950 \<le> y" "y \<le> 2049" "1 \<le> m" "m \<le> 12" "f = ymd2ord y m 1"
    "711000 \<le> f" "f \<le> 749000"
  using assms month_first_range [of y m] by (simp_all add: contract_month_def)

lemma guard_bind:
  assumes "contract_month cal y m f" "b = Inr d" "f - 31 \<le> d" "d \<le> f + 31"
  obtains g where "bindE b (guard_day cal) = Inr g" "open_on cal g" "d - 7 \<le> g" "g \<le> d"
  using guard_day_correct [of cal d] contract_monthD [OF assms(1)] assms(2-4) by (auto simp: mid_range_def)

lemma derive_equity_ok:
  assumes cm: "contract_month cal y m f" and spec: "rs_anchor spec = LTD"
  shows "\<exists>d. derive_equity cal rt m y = Inr d \<and> expiry_ok cal spec f d"
proof -
  note cal = contract_monthD(1) [OF cm] and y = contract_monthD(2,3) [OF cm] and m = contract_monthD(4,5) [OF cm]
    and f = contract_monthD(6) [OF cm] and fr = contract_monthD(7,8) [OF cm]
  show ?thesis
  proof (cases "rt = ''NKD''")
  case True
  obtain d where d: "second_friday y m = Inr d" "f \<le> d" "d \<le> f + 20"
    using nth_weekday_from_first [of y m 7 FRIDAY] y m f by (auto simp: second_friday_def)
  obtain a where "add_trading_days cal d (- 1) = Inr a" "open_on cal a" "d - 7 \<le> a" "a < d"
    using add_back [OF cal, of d 1] d fr by (auto simp: mid_range_def)
  then show ?thesis using True d spec by (simp add: derive_equity_def prev_trading_day_def expiry_ok_def)
next
  case False
  obtain d where d: "third_friday y m = Inr d" "f \<le> d" "d \<le> f + 20"
    using nth_weekday_from_first [of y m 14 FRIDAY] y m f by (auto simp: third_friday_def)
  then obtain g where "bindE (third_friday y m) (guard_day cal) = Inr g" "open_on cal g" "d - 7 \<le> g" "g \<le> d"
    using guard_bind [OF cm d(1)] by auto
  then show ?thesis using False d spec by (simp add: derive_equity_def expiry_ok_def)
qed
qed

lemma derive_fx_ok:
  assumes cm: "contract_month cal y m f" and spec: "rs_anchor spec = LTD"
  shows "\<exists>d. derive_fx cal m y = Inr d \<and> expiry_ok cal spec f d"
proof -
  note cal = contract_monthD(1) [OF cm] and y = contract_monthD(2,3) [OF cm] and m = contract_monthD(4,5) [OF cm]
    and f = contract_monthD(6) [OF cm] and fr = contract_monthD(7,8) [OF cm]
  obtain d where d: "third_wednesday y m = Inr d" "f \<le> d" "d \<le> f + 20"
    using nth_weekday_from_first [of y m 14 WEDNESDAY] y m f by (auto simp: third_wednesday_def)
  then obtain g where g: "bindE (third_wednesday y m) (guard_day cal) = Inr g" "d - 7 \<le> g" "g \<le> d"
    using guard_bind [OF cm d(1)] by auto
  obtain a where "add_trading_days cal g (- 2) = Inr a" "open_on cal a" "g - 14 \<le> a" "a < g"
    using add_back [OF cal, of g 2] g d fr by (auto simp: mid_range_def)
  then show ?thesis using g d spec by (simp add: derive_fx_def expiry_ok_def)
qed

lemma derive_crypto_ok:
  assumes cm: "contract_month cal y m f" and spec: "rs_anchor spec = LTD"
  shows "\<exists>d. derive_crypto cal m y = Inr d \<and> expiry_ok cal spec f d"
proof -
  note cal = contract_monthD(1) [OF cm] and y = contract_monthD(2,3) [OF cm] and m = contract_monthD(4,5) [OF cm]
    and f = contract_monthD(6) [OF cm] and fr = contract_monthD(7,8) [OF cm]
  have dim: "28 \<le> days_in_month y m" "days_in_month y m \<le> 31" by (rule days_in_month_bounds)+
  define e where "e = f + (days_in_month y m - 1)"
  define off where "off = (weekday e - FRIDAY) mod 7"
  have off: "0 \<le> off" "off < 7" by (simp_all add: off_def)
  have "mk_date y m (days_in_month y m) = Inr e"
    using mk_date_ok [of y m "days_in_month y m"] y m f dim by (simp add: e_def)
  then have d: "last_friday y m = Inr (e - off)"
    using off fr dim by (auto simp: last_friday_def off_def date_add_def max_ordinal_def e_def)
  then obtain g where "bindE (last_friday y m) (guard_day cal) = Inr g" "open_on cal g" "e - off - 7 \<le> g" "g \<le> e - off"
    using guard_bind [OF cm d] off dim by (auto simp: e_def)
  then show ?thesis using off dim spec by (simp add: derive_crypto_def expiry_ok_def e_def)
qed

lemma derive_cl_ok:
  assumes cm: "contract_month cal y m f" and spec: "rs_anchor spec = LTD"
  shows "\<exists>d. derive_cl cal m y = Inr d \<and> expiry_ok cal spec f d"
proof -
  note cal = contract_monthD(1) [OF cm] and y = contract_monthD(2,3) [OF cm] and m = contract_monthD(4,5) [OF cm]
    and f = contract_monthD(6) [OF cm] and fr = contract_monthD(7,8) [OF cm]
  obtain py pm where p: "previous_month y m = (py, pm)" by (cases "previous_month y m")
  note pe = previous_month_end [OF p m]
  define d where "d = ymd2ord py pm 1 + 24"
  have dim: "28 \<le> days_in_month py pm" "days_in_month py pm \<le> 31" by (rule days_in_month_bounds)+
  have d: "f - 7 \<le> d" "d < f" using pe(1) dim f by (auto simp: d_def ymd2ord_def)
  have mk: "mk_date py pm 25 = Inr d" using mk_date_ok [of py pm 25] pe(2-5) y dim by (simp add: d_def)
  obtain g where g: "guard_day cal d = Inr g" "d - 7 \<le> g" "g \<le> d" using guard_bind [OF cm mk] d mk by auto
  obtain a where a: "add_trading_days cal g (- 3) = Inr a" "open_on cal a" "g - 21 \<le> a" "a < g"
    using add_back [OF cal, of g 3] g d fr by (auto simp: mid_range_def)
  obtain n where n: "add_trading_days cal a 2 = Inr n" "open_on cal n" "a < n" "n \<le> a + 200"
    using add_forward [OF cal, of a 2] a g d fr by (auto simp: mid_range_def)
  show ?thesis using p mk g a n d spec by (simp add: derive_cl_def expiry_ok_def)
qed

text \<open>The last trading day of the previous month comes before the month, and a step back of up to seven open days stays in it.\<close>

lemma fnd_ok:
  assumes cm: "contract_month cal y m f" and p: "previous_month y m = (py, pm)"
  obtains n where "last_trading_day_of_month cal py pm = Inr n" "open_on cal n" "f - 8 \<le> n" "n < f"
proof -
  note cal = contract_monthD(1) [OF cm] and y = contract_monthD(2,3) [OF cm] and m = contract_monthD(4,5) [OF cm]
    and f = contract_monthD(6) [OF cm] and fr = contract_monthD(7,8) [OF cm]
  note pe = previous_month_end [OF p m]
  have "ymd2ord py pm 1 + (days_in_month py pm - 1) = f - 1" using pe(1) f by (simp add: ymd2ord_def)
  then show thesis using that last_trading_day_correct [OF cal _ _ pe(2,3) refl, of py] pe(4,5) y by auto
qed

lemma derive_rates_ok:
  assumes cm: "contract_month cal y m f" and spec: "rs_anchor spec = FND"
  shows "\<exists>d. derive_rates cal m y = Inr d \<and> expiry_ok cal spec f d"
proof -
  note cal = contract_monthD(1) [OF cm] and y = contract_monthD(2,3) [OF cm] and m = contract_monthD(4,5) [OF cm]
    and f = contract_monthD(6) [OF cm] and fr = contract_monthD(7,8) [OF cm]
  obtain py pm where p: "previous_month y m = (py, pm)" by (cases "previous_month y m")
  obtain n where n: "last_trading_day_of_month cal py pm = Inr n" "open_on cal n" "f - 8 \<le> n" "n < f" by (rule fnd_ok [OF cm p])
  obtain g where g: "last_trading_day_of_month cal y m = Inr g" "f \<le> g" "g \<le> f + 30" "7 \<le> open_days cal f g"
    using last_trading_day_correct [OF cal _ y(2) m f] y(1) days_in_month_bounds(2) [of y m] by auto
  obtain a where a: "add_trading_days cal g (- 7) = Inr a" "open_on cal a" "a < g"
    using add_back [OF cal, of g 7] g fr by (auto simp: mid_range_def)
  moreover have "f \<le> a" using add_back_reaches [OF a(1)] g(4) by simp
  ultimately show ?thesis using p n g spec by (simp add: derive_rates_def expiry_ok_def)
qed

lemma derive_gc_ok:
  assumes cm: "contract_month cal y m f" and spec: "rs_anchor spec = FND"
  shows "\<exists>d. derive_gc cal m y = Inr d \<and> expiry_ok cal spec f d"
proof -
  note cal = contract_monthD(1) [OF cm] and y = contract_monthD(2,3) [OF cm] and m = contract_monthD(4,5) [OF cm]
    and f = contract_monthD(6) [OF cm] and fr = contract_monthD(7,8) [OF cm]
  obtain py pm where p: "previous_month y m = (py, pm)" by (cases "previous_month y m")
  obtain n where n: "last_trading_day_of_month cal py pm = Inr n" "open_on cal n" "f - 8 \<le> n" "n < f" by (rule fnd_ok [OF cm p])
  obtain g where g: "last_trading_day_of_month cal y m = Inr g" "f \<le> g" "g \<le> f + 30" "7 \<le> open_days cal f g"
    using last_trading_day_correct [OF cal _ y(2) m f] y(1) days_in_month_bounds(2) [of y m] by auto
  obtain a where a: "add_trading_days cal g (- 1) = Inr a" "open_on cal a" "a < g" "open_days cal a g = 1"
    using add_back [OF cal, of g 1] g fr by (auto simp: mid_range_def)
  have fa: "f \<le> a" using add_back_reaches [OF a(1)] g(4) by simp
  then have "6 \<le> open_days cal f a" using open_days_split [of f a g cal] a g(4) by simp
  obtain b where b: "add_trading_days cal a (- 1) = Inr b" "open_on cal b" "b < a"
    using add_back [OF cal, of a 1] a fa g fr by (auto simp: mid_range_def)
  have "f \<le> b" using add_back_reaches [OF b(1)] \<open>6 \<le> open_days cal f a\<close> by simp
  then show ?thesis using p n g a b spec
    by (simp add: derive_gc_def nth_to_last_trading_day_of_month_def prev_trading_day_def expiry_ok_def numeral_eq_Suc)
qed

lemma derive_ok:
  assumes "contract_month cal y m f" "map_of ROLL_SPECS rt = Some spec"
  shows "\<exists>d. derive cal rt m y = Inr d \<and> expiry_ok cal spec f d"
proof -
  consider "rt \<in> {''ES'', ''NQ'', ''YM'', ''RTY'', ''NKD''}" "rs_anchor spec = LTD"
    | "rt \<in> {''6E'', ''6A'', ''6J'', ''6B'', ''6C'', ''6S''}" "rs_anchor spec = LTD"
    | "rt \<in> {''ZN'', ''ZB'', ''ZT'', ''ZF'', ''UB''}" "rs_anchor spec = FND"
    | "rt = ''CL''" "rs_anchor spec = LTD"
    | "rt \<in> {''GC'', ''HG'', ''SI''}" "rs_anchor spec = FND"
    | "rt \<in> {''MBT'', ''MET''}" "rs_anchor spec = LTD"
    using assms(2) by (auto simp: ROLL_SPECS_def split: if_splits)
  then show ?thesis
  proof cases
    case 1
    then show ?thesis using derive_equity_ok [OF assms(1) 1(2), of rt] by (simp add: derive_def)
  next
    case 2
    from 2(1) have "derive cal rt m y = derive_fx cal m y" by (elim insertE emptyE) (simp_all add: derive_def)
    then show ?thesis using derive_fx_ok [OF assms(1) 2(2)] by simp
  next
    case 3
    from 3(1) have "derive cal rt m y = derive_rates cal m y" by (elim insertE emptyE) (simp_all add: derive_def)
    then show ?thesis using derive_rates_ok [OF assms(1) 3(2)] by simp
  next
    case 4
    from 4(1) have "derive cal rt m y = derive_cl cal m y" by (simp add: derive_def)
    then show ?thesis using derive_cl_ok [OF assms(1) 4(2)] by simp
  next
    case 5
    from 5(1) have "derive cal rt m y = derive_gc cal m y" by (elim insertE emptyE) (simp_all add: derive_def)
    then show ?thesis using derive_gc_ok [OF assms(1) 5(2)] by simp
  next
    case 6
    from 6(1) have "derive cal rt m y = derive_crypto cal m y" by (elim insertE emptyE) (simp_all add: derive_def)
    then show ?thesis using derive_crypto_ok [OF assms(1) 6(2)] by simp
  qed
qed

section \<open>The roll window\<close>

lemma roll_spec_offsets:
  assumes "map_of ROLL_SPECS rt = Some spec"
  shows "0 < rs_deadline_offset spec" "rs_deadline_offset spec < rs_target_offset spec" "rs_target_offset spec \<le> 7"
  using map_of_SomeD [OF assms] by (auto simp: ROLL_SPECS_def)

lemma add_back_order:
  assumes "open_days cal a s = p" "open_days cal b s = q" "p < q" "a < s" "b < s"
  shows "b < (a::int)"
proof (rule ccontr)
  assume "\<not> b < a"
  then have "open_days cal b s \<le> open_days cal a s" by (intro open_days_mono) simp_all
  then show False using assms by simp
qed

text \<open>The clamp of the crude-oil deadline to the day before first notice never binds.\<close>

lemma clamp_ok:
  assumes "extra_holidays cal = []" "mid_range g" "open_on cal ltd" "ltd < g" "d < ltd"
  shows "bindE (add_trading_days cal g (- 1)) (\<lambda>x. Inr (min d x)) = Inr d"
proof -
  obtain x where x: "add_trading_days cal g (- 1) = Inr x" using add_back [OF assms(1,2), of 1] by auto
  have "card {ltd} \<le> open_days cal ltd g" unfolding open_days_def by (rule card_mono) (use assms in auto)
  then have "ltd \<le> x" using add_back_reaches [OF x] by simp
  then show ?thesis using x assms(5) by (simp add: min_def)
qed

lemma build_entry_window:
  assumes cal: "extra_holidays cal = []" and spec: "map_of ROLL_SPECS rt = Some spec"
    and cyc: "map_of ROOT_CYCLE rt = Some cycle" "code \<in> set cycle" and y: "1950 \<le> y" "y \<le> 2049"
  obtains ltd fnd regime anchor t d bk where
    "build_entry cal (contract_symbol rt code y) =
       Inr \<lparr>rc_front_symbol = contract_symbol rt code y, rc_back_symbol = bk, rc_ltd_date = ltd,
            rc_roll_target = t, rc_roll_deadline = d, rc_regime = regime, rc_fnd_date = fnd\<rparr>"
    "next_contract (contract_symbol rt code y) = Inr bk"
    "anchor = (if rs_anchor spec = LTD then ltd else the fnd)" "rs_anchor spec \<noteq> LTD \<longrightarrow> fnd \<noteq> None"
    "open_on cal t" "open_on cal d" "open_on cal ltd" "t < d" "d < anchor" "anchor \<le> ltd"
    "\<forall>g. fnd = Some g \<longrightarrow> open_on cal g \<and> d < g"
    "open_days cal t anchor = nat (rs_target_offset spec)" "open_days cal d anchor = nat (rs_deadline_offset spec)"
proof -
  define m where "m = month_number code"
  define f where "f = ymd2ord y m 1"
  have m: "map_of MONTH_CODE_TO_NUM code = Some m" "1 \<le> m" "m \<le> 12" using cycle_sorted(3) [OF cyc] by (auto simp: m_def)
  have cm: "contract_month cal y m f" using cal y m by (simp add: contract_month_def f_def)
  note fr = contract_monthD(7,8) [OF cm] and offs = roll_spec_offsets [OF spec]
  obtain ltd fnd regime where dv: "derive cal rt m y = Inr (ltd, fnd, regime)" "expiry_ok cal spec f (ltd, fnd, regime)"
    using derive_ok [OF cm spec] by (metis prod_cases3)
  define anchor where "anchor = (if rs_anchor spec = LTD then ltd else the fnd)"
  have an: "(if rs_anchor spec = LTD then Some ltd else fnd) = Some anchor" "anchor \<le> ltd" "open_on cal ltd"
      "f - 90 \<le> anchor" "anchor \<le> f + 31" "\<forall>g. fnd = Some g \<longrightarrow> open_on cal g \<and> anchor \<le> g \<and> mid_range g"
      "\<forall>g. fnd = Some g \<and> rs_anchor spec = LTD \<longrightarrow> ltd < g"
    using dv(2) fr unfolding expiry_ok_def anchor_def by (auto simp: mid_range_def split: option.splits if_splits)
  have mr: "mid_range anchor" using an fr by (simp add: mid_range_def)
  obtain t where t: "add_trading_days cal anchor (- rs_target_offset spec) = Inr t" "open_on cal t" "t < anchor"
      "open_days cal t anchor = nat (rs_target_offset spec)"
    using add_back [OF cal mr, of "rs_target_offset spec"] offs by auto
  obtain d where d: "add_trading_days cal anchor (- rs_deadline_offset spec) = Inr d" "open_on cal d" "d < anchor"
      "open_days cal d anchor = nat (rs_deadline_offset spec)"
    using add_back [OF cal mr, of "rs_deadline_offset spec"] offs by auto
  have td: "t < d" by (rule add_back_order [OF d(4) t(4) _ d(3) t(3)]) (use offs in simp)
  obtain bk where bk: "next_contract (contract_symbol rt code y) = Inr bk"
    using next_contract_symbol [OF cyc y] by (auto simp: split_beta Let_def)
  have clamp: "(case fnd of Some g \<Rightarrow> if rt = ''CL'' then bindE (add_trading_days cal g (- 1)) (\<lambda>x. Inr (min d x)) else Inr d
                | None \<Rightarrow> Inr d) = Inr d"
  proof (cases "\<exists>g. fnd = Some g \<and> rt = ''CL''")
    case True
    then obtain g where g: "fnd = Some g" "rt = ''CL''" by blast
    have "rs_anchor spec = LTD" using spec g(2) by (auto simp: ROLL_SPECS_def)
    then show ?thesis using clamp_ok [OF cal _ an(3), of g d] an g d(3) by (simp add: anchor_def)
  qed (auto split: option.splits)
  have parse: "parse_contract (contract_symbol rt code y) = Inr (rt, code, y)"
    using parse_contract_symbol [OF y cycle_cases(2) [OF cyc(1)]] m(1) by simp
  have "build_entry cal (contract_symbol rt code y) =
       Inr \<lparr>rc_front_symbol = contract_symbol rt code y, rc_back_symbol = bk, rc_ltd_date = ltd,
            rc_roll_target = t, rc_roll_deadline = d, rc_regime = regime, rc_fnd_date = fnd\<rparr>"
    using td d(3) an(2)
    by (simp add: build_entry_def parse spec m(1) dv(1) an(1) t(1) d(1) clamp bk RollCalendarEntry_post_init_def)
  then show thesis
    by (rule that [OF _ bk anchor_def _ t(2) d(2) an(3) td d(3) an(2) _ t(4) d(4)]) (use an(1,6) d(3) in auto)
qed

section \<open>Decisions\<close>

text \<open>A position is due when it is open, its contract is in the calendar and its roll target has come.\<close>

definition roll_due :: "RollExecutor \<Rightarrow> date \<Rightarrow> OpenPosition \<Rightarrow> bool" where
  "roll_due ex today p \<longleftrightarrow>
     op_qty p \<noteq> 0 \<and> (case re_calendar ex (op_contract p) of None \<Rightarrow> False | Some e \<Rightarrow> rc_roll_target e \<le> today)"

definition roll_as_planned :: "RollExecutor \<Rightarrow> date \<Rightarrow> OpenPosition \<Rightarrow> RollDecision \<Rightarrow> bool" where
  "roll_as_planned ex today p d \<longleftrightarrow>
     (\<exists>e. re_calendar ex (op_contract p) = Some e
        \<and> rd_front d = rc_front_symbol e \<and> rd_back d = rc_back_symbol e \<and> rd_qty d = op_qty p
        \<and> rd_target_date d = today \<and> rd_deadline_date d = rc_roll_deadline e
        \<and> (rd_method d = SEQUENTIAL_EMERGENCY \<longleftrightarrow> rc_roll_deadline e < today)
        \<and> (rd_method d = CALENDAR_SPREAD \<longleftrightarrow>
             today \<le> rc_roll_deadline e \<and> re_supports_bag ex
             \<and> \<not> divergence_flag (re_divergence ex (rc_front_symbol e) (rc_back_symbol e) today)))"

lemma decide_rolls_planned:
  assumes "\<And>c e. re_calendar ex c = Some e \<Longrightarrow> rc_roll_target e \<le> rc_roll_deadline e"
  shows "list_all2 (roll_as_planned ex today) (filter (roll_due ex today) ps) (decide_rolls ex today ps)"
proof (induction ps)
  case (Cons p ps)
  show ?case
  proof (cases "re_calendar ex (op_contract p)")
    case (Some e)
    then show ?thesis
      using Cons assms [OF Some] by (auto simp: roll_due_def roll_as_planned_def roll_decision_def Let_def)
  qed (use Cons in \<open>simp add: roll_due_def\<close>)
qed simp

section \<open>Properties\<close>

text \<open>
  The successor of a listed contract is the next listed contract in time: its symbol reads back as
  the month that follows in the cycle of the root, it expires later, and no month of the cycle lies between
  the two. This holds for the contract years 1950 to 2048, those whose successor a two-digit year can name.
\<close>
theorem next_contract_successor:
  assumes "map_of ROOT_CYCLE rt = Some cycle" "code \<in> set cycle" "1950 \<le> y" "y \<le> 2048"
  shows "\<exists>code' y'. next_contract (contract_symbol rt code y) = Inr (contract_symbol rt code' y')
           \<and> parse_contract (contract_symbol rt code' y') = Inr (rt, code', y')
           \<and> code' \<in> set cycle \<and> month_index code y < month_index code' y'
           \<and> (\<forall>c \<in> set cycle. \<forall>z. \<not> (month_index code y < month_index c z \<and> month_index c z < month_index code' y'))"
proof -
  obtain code' y' where n: "cycle_next cycle code y = (code', y')" by (cases "cycle_next cycle code y")
  note adj = cycle_next_adjacent [OF assms(1,2) n]
  have "parse_contract (contract_symbol rt code' y') = Inr (rt, code', y')"
    using parse_contract_symbol [of y' rt code'] cycle_cases(2) [OF assms(1)] cycle_sorted(3) [OF assms(1) adj(1)] adj(2) assms(3,4)
    by auto
  then show ?thesis using next_contract_symbol [OF assms(1-3)] assms(4) n adj by auto
qed

text \<open>Gold lists February, April, June, August, October and December: December is followed by February.\<close>
theorem next_contract_successor_witness:
  "next_contract ''GCZ26'' = Inr ''GCG27''
   \<and> \<not> (month_index (CHR ''Z'') 2026 < month_index (CHR ''Q'') 2027
        \<and> month_index (CHR ''Q'') 2027 < month_index (CHR ''G'') 2027)"
proof -
  have rt: "map_of ROOT_CYCLE ''GC'' = Some BI_MONTHLY" by code_simp
  have mem: "CHR ''Z'' \<in> set BI_MONTHLY" by (simp add: BI_MONTHLY_def)
  have sym: "contract_symbol ''GC'' (CHR ''Z'') 2026 = ''GCZ26''" by code_simp
  have nxt: "next_contract ''GCZ26'' = Inr ''GCG27''" by code_simp
  have parse: "parse_contract ''GCG27'' = Inr (''GC'', CHR ''G'', 2027)" by code_simp
  obtain code' y' where succ: "next_contract ''GCZ26'' = Inr (contract_symbol ''GC'' code' y')"
      "parse_contract (contract_symbol ''GC'' code' y') = Inr (''GC'', code', y')"
      "\<forall>c \<in> set BI_MONTHLY. \<forall>z. \<not> (month_index (CHR ''Z'') 2026 < month_index c z \<and> month_index c z < month_index code' y')"
    using next_contract_successor [OF rt mem, of 2026] by (auto simp: sym)
  then have "''GCG27'' = contract_symbol ''GC'' code' y'" by (simp add: nxt)
  then have "code' = CHR ''G''" "y' = 2027" using succ(2) parse by simp_all
  moreover have "CHR ''Q'' \<in> set BI_MONTHLY" by (simp add: BI_MONTHLY_def)
  ultimately show ?thesis using succ(3) nxt by blast
qed

text \<open>
  C15. The calendar builder never fails on a listed contract and plans every roll in time. For every root
  with a roll rule, every month of its cycle and the years 1950 to 2049, on the computed calendar (extra
  trading days allowed), \<open>build_entry\<close> returns an entry from the contract to its successor whose roll
  target and deadline are trading days, exactly the configured numbers of trading days before the anchor
  (the last trading day or the first notice day), with the target before the deadline and the deadline
  before the anchor, the last trading day and the first notice day.
\<close>
theorem roll_window_before_expiry:
  assumes "extra_holidays cal = []" "map_of ROLL_SPECS rt = Some spec" "map_of ROOT_CYCLE rt = Some cycle"
    and "code \<in> set cycle" "1950 \<le> y" "y \<le> 2049"
  shows "\<exists>e anchor. build_entry cal (contract_symbol rt code y) = Inr e
     \<and> rc_front_symbol e = contract_symbol rt code y
     \<and> next_contract (contract_symbol rt code y) = Inr (rc_back_symbol e)
     \<and> (if rs_anchor spec = LTD then anchor = rc_ltd_date e else rc_fnd_date e = Some anchor)
     \<and> (\<forall>d \<in> {rc_roll_target e, rc_roll_deadline e, rc_ltd_date e}. is_trading_day cal d = Inr True)
     \<and> rc_roll_target e < rc_roll_deadline e \<and> rc_roll_deadline e < rc_ltd_date e
     \<and> (\<forall>g. rc_fnd_date e = Some g \<longrightarrow> is_trading_day cal g = Inr True \<and> rc_roll_deadline e < g)
     \<and> int (card {x. rc_roll_target e \<le> x \<and> x < anchor \<and> is_trading_day cal x = Inr True}) = rs_target_offset spec
     \<and> int (card {x. rc_roll_deadline e \<le> x \<and> x < anchor \<and> is_trading_day cal x = Inr True}) = rs_deadline_offset spec"
proof -
  obtain ltd fnd regime anchor t d bk where e:
      "build_entry cal (contract_symbol rt code y) =
         Inr \<lparr>rc_front_symbol = contract_symbol rt code y, rc_back_symbol = bk, rc_ltd_date = ltd,
              rc_roll_target = t, rc_roll_deadline = d, rc_regime = regime, rc_fnd_date = fnd\<rparr>"
      "next_contract (contract_symbol rt code y) = Inr bk"
    and a: "anchor = (if rs_anchor spec = LTD then ltd else the fnd)" "rs_anchor spec \<noteq> LTD \<longrightarrow> fnd \<noteq> None"
    and o: "open_on cal t" "open_on cal d" "open_on cal ltd" "\<forall>g. fnd = Some g \<longrightarrow> open_on cal g \<and> d < g"
    and lt: "t < d" "d < anchor" "anchor \<le> ltd"
    and n: "open_days cal t anchor = nat (rs_target_offset spec)" "open_days cal d anchor = nat (rs_deadline_offset spec)"
    by (rule build_entry_window [OF assms]) blast
  show ?thesis
    by (rule exI [of _ "the_elem {e. build_entry cal (contract_symbol rt code y) = Inr e}"], rule exI [of _ anchor])
       (use a o lt n roll_spec_offsets [OF assms(2)] in \<open>auto simp: e open_on_def open_days_def\<close>)
qed

definition esh26 :: RollCalendarEntry where
  "esh26 = \<lparr>rc_front_symbol = ''ESH26'', rc_back_symbol = ''ESM26'', rc_ltd_date = ymd2ord 2026 3 20,
     rc_roll_target = ymd2ord 2026 3 13, rc_roll_deadline = ymd2ord 2026 3 18, rc_regime = RTH, rc_fnd_date = None\<rparr>"

text \<open>The March 2026 equity-index contract expires on Friday 20 March.\<close>
theorem roll_window_before_expiry_witness:
  "build_entry default_calendar ''ESH26'' = Inr esh26
   \<and> card {x. ymd2ord 2026 3 13 \<le> x \<and> x < ymd2ord 2026 3 20 \<and> is_trading_day default_calendar x = Inr True} = 5"
proof -
  have rt: "map_of ROOT_CYCLE ''ES'' = Some QUARTERLY" and spec: "map_of ROLL_SPECS ''ES'' = Some (roll_spec LTD 5 2)" by code_simp+
  have mem: "CHR ''H'' \<in> set QUARTERLY" by (simp add: QUARTERLY_def)
  have sym: "contract_symbol ''ES'' (CHR ''H'') 2026 = ''ESH26''" by code_simp
  have e: "build_entry default_calendar ''ESH26'' = Inr esh26" by code_simp
  have cal: "extra_holidays default_calendar = []" by (simp add: default_calendar_def)
  show ?thesis using roll_window_before_expiry [OF cal spec rt mem, of 2026] by (simp add: sym e esh26_def)
qed

text \<open>
  \<open>decide_rolls\<close> takes one decision, in the order of the positions, for exactly the open positions
  whose contract the calendar knows and whose target has come, with the contracts of the calendar entry and
  the whole quantity of the position. The decision is an emergency exactly after the deadline, and a
  calendar spread exactly when the window is open, the broker supports it and the pair does not diverge.
\<close>
theorem decide_rolls_exact:
  assumes "\<forall>c e. re_calendar ex c = Some e \<longrightarrow> RollCalendarEntry_post_init e = Inr ()"
  shows "list_all2 (roll_as_planned ex today) (filter (roll_due ex today) ps) (decide_rolls ex today ps)"
  by (rule decide_rolls_planned) (use assms in \<open>fastforce simp: RollCalendarEntry_post_init_def res_simps\<close>)

definition es_executor :: RollExecutor where
  "es_executor = \<lparr>re_calendar = StaticRollCalendar [esh26], re_divergence = StaticRollDivergenceCheck [], re_supports_bag = True\<rparr>"

theorem decide_rolls_exact_witness:
  "list_all2 (roll_as_planned es_executor (ymd2ord 2026 3 18))
     [\<lparr>op_contract = ''ESH26'', op_qty = - 2, op_avg_price = 5000\<rparr>]
     (decide_rolls es_executor (ymd2ord 2026 3 18)
       [\<lparr>op_contract = ''NQH26'', op_qty = 1, op_avg_price = 20000\<rparr>,
        \<lparr>op_contract = ''ESH26'', op_qty = - 2, op_avg_price = 5000\<rparr>])"
proof -
  have wf: "\<forall>c e. re_calendar es_executor c = Some e \<longrightarrow> RollCalendarEntry_post_init e = Inr ()"
    by (simp add: es_executor_def StaticRollCalendar_def RollCalendarEntry_post_init_def esh26_def ymd2ord_def)
  show ?thesis
    using decide_rolls_exact [OF wf, of "ymd2ord 2026 3 18"
      "[\<lparr>op_contract = ''NQH26'', op_qty = 1, op_avg_price = 20000\<rparr>,
        \<lparr>op_contract = ''ESH26'', op_qty = - 2, op_avg_price = 5000\<rparr>]"]
    by (simp add: roll_due_def es_executor_def StaticRollCalendar_def esh26_def ymd2ord_def)
qed

end
