(* ===== verification/Continuous_Properties.thy ===== *)
theory Continuous_Properties
  imports Continuous
begin

text \<open>
  Correctness of the builder of \<open>Continuous\<close>: which bars a built series holds, in which order, and what its
  roll events record. The active contract of a day is the one with the earliest roll target that is still
  ahead; the lemmas on \<open>splice\<close> show that the windows pick exactly its bars, those on \<open>roll_scan\<close> that
  there is one event per change of contract.
\<close>

section \<open>Chains of contracts\<close>

abbreviation bar_day :: "RawBar \<Rightarrow> date" where
  "bar_day b \<equiv> dt_date (rb_ts b)"

abbreviation present_contracts :: "contract_bars \<Rightarrow> ContractSymbol list" where
  "present_contracts pcb \<equiv> map fst (filter (\<lambda>(c, bars). bars \<noteq> []) pcb)"

abbreviation target_of :: "RollCalendar \<Rightarrow> ContractSymbol \<Rightarrow> date" where
  "target_of cal c \<equiv> rc_roll_target (the (cal c))"

lemma roll_targets_eq:
  assumes "roll_targets cal cs = Inr rt"
  shows "rt = map (\<lambda>c. (c, target_of cal c)) cs" "c \<in> set cs \<Longrightarrow> cal c \<noteq> None"
proof -
  have "rt = map (\<lambda>c. (c, target_of cal c)) cs \<and> (\<forall>c \<in> set cs. cal c \<noteq> None)"
    using assms unfolding roll_targets_def
    by (induction cs arbitrary: rt) (auto simp: res_simps split: option.splits)
  then show "rt = map (\<lambda>c. (c, target_of cal c)) cs" "c \<in> set cs \<Longrightarrow> cal c \<noteq> None" by auto
qed

lemma roll_targets_lookup:
  assumes "roll_targets cal cs = Inr rt" "c \<in> set cs"
  shows "map_of rt c = Some (target_of cal c)"
  using assms(2) unfolding roll_targets_eq(1) [OF assms(1)] by (induction cs) auto

lemma sort_key_strict:
  assumes "distinct xs" "inj_on k (set xs)"
  shows "sorted_wrt (\<lambda>a b. k a < (k b :: 'b::linorder)) (sort_key k xs)"
proof -
  have "distinct (map k (sort_key k xs))" using assms by (simp add: distinct_map)
  then have "sorted_wrt (<) (map k (sort_key k xs))" by (simp add: strict_sorted_iff)
  then show ?thesis by (simp add: sorted_wrt_map)
qed

text \<open>Along a chain with increasing targets the windows pick the bars of the active contract.\<close>

lemma splice_mem:
  assumes "sorted_wrt (\<lambda>a b. T a < T b) chain" "\<And>c. c \<in> set chain \<Longrightarrow> map_of rt c = Some (T c)"
    and "\<And>p c. prev = Some p \<Longrightarrow> c \<in> set chain \<Longrightarrow> p \<le> T c"
  shows "b \<in> set (splice pcb rt chain prev) \<longleftrightarrow>
     (\<exists>c \<in> set chain. b \<in> set (the (map_of pcb c)) \<and> bar_day b < T c
        \<and> (case prev of None \<Rightarrow> True | Some p \<Rightarrow> p \<le> bar_day b)
        \<and> (\<forall>c' \<in> set chain. T c' < T c \<longrightarrow> T c' \<le> bar_day b))"
  using assms
proof (induction chain arbitrary: prev)
  case (Cons a cs)
  have less: "\<forall>c \<in> set cs. T a < T c" using Cons.prems(1) by simp
  have IH: "b \<in> set (splice pcb rt cs (Some (T a))) \<longleftrightarrow>
     (\<exists>c \<in> set cs. b \<in> set (the (map_of pcb c)) \<and> bar_day b < T c \<and> T a \<le> bar_day b
        \<and> (\<forall>c' \<in> set cs. T c' < T c \<longrightarrow> T c' \<le> bar_day b))"
  proof -
    have "sorted_wrt (\<lambda>a b. T a < T b) cs" "\<And>c. c \<in> set cs \<Longrightarrow> map_of rt c = Some (T c)"
      using Cons.prems(1,2) by simp_all
    moreover have "p \<le> T c" if "Some (T a) = Some p" "c \<in> set cs" for p c using that less by (simp add: less_imp_le)
    ultimately show ?thesis using Cons.IH [of "Some (T a)"] by simp
  qed
  have prev: "case prev of None \<Rightarrow> True | Some p \<Rightarrow> p \<le> T a" using Cons.prems(3) by (auto split: option.splits)
  have hd: "b \<in> set (the (map_of pcb a)) \<and> in_window (bar_day b) prev (T a) \<longleftrightarrow>
     b \<in> set (the (map_of pcb a)) \<and> bar_day b < T a \<and> (case prev of None \<Rightarrow> True | Some p \<Rightarrow> p \<le> bar_day b)
        \<and> (\<forall>c' \<in> set (a # cs). T c' < T a \<longrightarrow> T c' \<le> bar_day b)"
    using less by (auto simp: in_window_def split: option.splits)
  have tl: "T a \<le> bar_day b \<and> (\<forall>c' \<in> set cs. T c' < T c \<longrightarrow> T c' \<le> bar_day b) \<longleftrightarrow>
      (case prev of None \<Rightarrow> True | Some p \<Rightarrow> p \<le> bar_day b) \<and> (\<forall>c' \<in> set (a # cs). T c' < T c \<longrightarrow> T c' \<le> bar_day b)"
    if "c \<in> set cs" for c
    using that less prev by (auto split: option.splits)
  have "b \<in> set (splice pcb rt (a # cs) prev) \<longleftrightarrow>
      b \<in> set (the (map_of pcb a)) \<and> in_window (bar_day b) prev (T a) \<or> b \<in> set (splice pcb rt cs (Some (T a)))"
    using Cons.prems(2) [of a] by (auto simp: Let_def)
  then show ?case unfolding IH hd using tl by (simp only: list.set bex_simps) blast
qed simp

section \<open>Roll scanning\<close>

abbreviation rolls_at :: "RawBar \<times> RawBar \<Rightarrow> bool" where
  "rolls_at q \<equiv> rb_contract (snd q) \<noteq> rb_contract (fst q)"

lemma roll_scan_correct:
  assumes "roll_scan mk prev bars = Inr (flags, events)"
  shows "flags = map rolls_at (zip (prev # bars) bars)"
    and "list_all2 (\<lambda>q e. mk (rb_contract (fst q)) (rb_contract (snd q)) = Inr e) (filter rolls_at (zip (prev # bars) bars)) events"
proof -
  have "flags = map rolls_at (zip (prev # bars) bars)
     \<and> list_all2 (\<lambda>q e. mk (rb_contract (fst q)) (rb_contract (snd q)) = Inr e) (filter rolls_at (zip (prev # bars) bars)) events"
    using assms
    by (induction bars arbitrary: prev flags events) (auto simp: res_simps split: if_splits)
  then show "flags = map rolls_at (zip (prev # bars) bars)"
    and "list_all2 (\<lambda>q e. mk (rb_contract (fst q)) (rb_contract (snd q)) = Inr e) (filter rolls_at (zip (prev # bars) bars)) events"
    by auto
qed

section \<open>Roll prices\<close>

lemma best_on_or_before_correct:
  assumes "best_on_or_before t bars best = Some x" "\<And>b. best = Some b \<Longrightarrow> bar_day b \<le> t"
  shows "x \<in> set bars \<or> best = Some x" "bar_day x \<le> t" "\<And>b. best = Some b \<Longrightarrow> bar_day b \<le> bar_day x"
    "\<forall>b \<in> set bars. bar_day b \<le> t \<longrightarrow> bar_day b \<le> bar_day x"
proof -
  have "(x \<in> set bars \<or> best = Some x) \<and> bar_day x \<le> t \<and> (\<forall>b. best = Some b \<longrightarrow> bar_day b \<le> bar_day x)
     \<and> (\<forall>b \<in> set bars. bar_day b \<le> t \<longrightarrow> bar_day b \<le> bar_day x)"
    using assms
  proof (induction bars arbitrary: best)
    case (Cons a bars)
    define best' where "best' = (if bar_day a \<le> t \<and> (case best of None \<Rightarrow> True | Some b \<Rightarrow> bar_day a > bar_day b) then Some a else best)"
    have "best_on_or_before t bars best' = Some x" using Cons.prems(1) by (simp add: best'_def Let_def)
    moreover have "\<And>b. best' = Some b \<Longrightarrow> bar_day b \<le> t" using Cons.prems(2) by (auto simp: best'_def split: if_splits)
    ultimately have IH: "(x \<in> set bars \<or> best' = Some x) \<and> bar_day x \<le> t \<and> (\<forall>b. best' = Some b \<longrightarrow> bar_day b \<le> bar_day x)
     \<and> (\<forall>b \<in> set bars. bar_day b \<le> t \<longrightarrow> bar_day b \<le> bar_day x)" by (rule Cons.IH)
    then show ?case by (cases best) (auto simp: best'_def split: if_splits)
  qed auto
  then show "x \<in> set bars \<or> best = Some x" "bar_day x \<le> t" "\<And>b. best = Some b \<Longrightarrow> bar_day b \<le> bar_day x"
    "\<forall>b \<in> set bars. bar_day b \<le> t \<longrightarrow> bar_day b \<le> bar_day x" by auto
qed

lemma best_on_or_after_correct:
  assumes "best_on_or_after t bars best = Some x" "\<And>b. best = Some b \<Longrightarrow> t \<le> bar_day b"
  shows "x \<in> set bars \<or> best = Some x" "t \<le> bar_day x"
    "\<forall>b \<in> set bars. t \<le> bar_day b \<longrightarrow> bar_day x \<le> bar_day b"
proof -
  have "(x \<in> set bars \<or> best = Some x) \<and> t \<le> bar_day x \<and> (\<forall>b. best = Some b \<longrightarrow> bar_day x \<le> bar_day b)
     \<and> (\<forall>b \<in> set bars. t \<le> bar_day b \<longrightarrow> bar_day x \<le> bar_day b)"
    using assms
  proof (induction bars arbitrary: best)
    case (Cons a bars)
    define best' where "best' = (if bar_day a \<ge> t \<and> (case best of None \<Rightarrow> True | Some b \<Rightarrow> bar_day a < bar_day b) then Some a else best)"
    have "best_on_or_after t bars best' = Some x" using Cons.prems(1) by (simp add: best'_def Let_def)
    moreover have "\<And>b. best' = Some b \<Longrightarrow> t \<le> bar_day b" using Cons.prems(2) by (auto simp: best'_def split: if_splits)
    ultimately have IH: "(x \<in> set bars \<or> best' = Some x) \<and> t \<le> bar_day x \<and> (\<forall>b. best' = Some b \<longrightarrow> bar_day x \<le> bar_day b)
     \<and> (\<forall>b \<in> set bars. t \<le> bar_day b \<longrightarrow> bar_day x \<le> bar_day b)" by (rule Cons.IH)
    then show ?case by (cases best) (auto simp: best'_def split: if_splits)
  qed auto
  then show "x \<in> set bars \<or> best = Some x" "t \<le> bar_day x"
    "\<forall>b \<in> set bars. t \<le> bar_day b \<longrightarrow> bar_day x \<le> bar_day b" by auto
qed

section \<open>The built series\<close>

lemma zip_tl_ordered:
  assumes "sorted_wrt P xs" "(p, b) \<in> set (zip xs (tl xs))"
  shows "P p b" "p \<in> set xs" "b \<in> set xs"
proof -
  have "P p b \<and> p \<in> set xs \<and> b \<in> set xs"
    using assms
  proof (induction xs)
    case (Cons x xs)
    then show ?case by (cases xs) auto
  qed simp
  then show "P p b" "p \<in> set xs" "b \<in> set xs" by auto
qed

lemma increasing_ts_sorted: "increasing_ts bars \<Longrightarrow> sorted_wrt (\<lambda>a b. dt_instant (rb_ts a) < dt_instant (rb_ts b)) bars"
proof -
  assume "increasing_ts bars"
  then have "sorted_wrt (<) (map (\<lambda>b. dt_instant (rb_ts b)) bars)"
  proof (induction bars rule: increasing_ts.induct)
    case (1 prev cur rest)
    then show ?case by (auto simp: sorted_wrt_map)
  qed simp_all
  then show ?thesis by (simp add: sorted_wrt_map)
qed

lemma splice_subset:
  "x \<in> set (splice pcb rt cs p) \<Longrightarrow> \<exists>c \<in> set cs. x \<in> set (the (map_of pcb c))"
  by (induction cs arbitrary: p) (fastforce simp: Let_def)+

lemma splice_ordered:
  assumes "sorted_wrt (\<lambda>a b. T a < T b) chain" "\<And>c b. c \<in> set chain \<Longrightarrow> b \<in> set (the (map_of pcb c)) \<Longrightarrow> rb_contract b = c"
  shows "sorted_wrt (\<lambda>a b. T (rb_contract a) \<le> (T (rb_contract b) :: int)) (splice pcb rt chain prev)"
  using assms
proof (induction chain arbitrary: prev)
  case (Cons a cs)
  define w where "w = sort_key (\<lambda>bar. dt_instant (rb_ts bar))
    (filter (\<lambda>bar. in_window (bar_day bar) prev (the (map_of rt a))) (the (map_of pcb a)))"
  have w: "rb_contract x = a" if "x \<in> set w" for x using Cons.prems(2) [of a x] that by (simp add: w_def)
  have r: "T a < T (rb_contract x)" if x: "x \<in> set (splice pcb rt cs p)" for x p
  proof -
    obtain c where "c \<in> set cs" "x \<in> set (the (map_of pcb c))" using splice_subset [OF x] by blast
    then show ?thesis using Cons.prems(1) Cons.prems(2) [of c x] by simp
  qed
  have "sorted_wrt (\<lambda>a b. T (rb_contract a) \<le> T (rb_contract b)) w"
    by (rule sorted_wrt_mono_rel [of _ "\<lambda>_ _. True"]) (simp_all add: w sorted_wrt_true)
  moreover have "splice pcb rt (a # cs) prev = w @ splice pcb rt cs (Some (the (map_of rt a)))" by (simp add: w_def Let_def)
  ultimately show ?case
    using Cons.IH Cons.prems r w by (simp add: sorted_wrt_append less_imp_le)
qed simp

lemma present_bars:
  assumes "distinct (map fst pcb)"
  shows "(c, bars) \<in> set pcb \<Longrightarrow> the (map_of pcb c) = bars"
  using assms by (simp add: map_of_is_SomeI)

lemma present_contracts_mem: "c \<in> set (present_contracts pcb) \<longleftrightarrow> (\<exists>bars. (c, bars) \<in> set pcb \<and> bars \<noteq> [])"
  by force

lemma build_series_Inr:
  assumes "build_series pcb cal rt = Inr s"
  obtains targets where
    "roll_targets cal (present_contracts pcb) = Inr targets"
    "cs_bars s = splice pcb targets (sort_key (\<lambda>c. the (map_of targets c)) (present_contracts pcb)) None"
    "cs_roll_flags s = False # map rolls_at (zip (cs_bars s) (tl (cs_bars s)))"
    "list_all2 (\<lambda>q e. make_roll_event (rb_contract (fst q)) (rb_contract (snd q)) targets pcb = Inr e)
       (filter rolls_at (zip (cs_bars s) (tl (cs_bars s)))) (cs_roll_events s)"
    "increasing_ts (cs_bars s)" "\<forall>c \<in> set (present_contracts pcb). take (length rt) c = rt"
proof -
  obtain targets where t: "roll_targets cal (present_contracts pcb) = Inr targets"
    and pre: "\<forall>c \<in> set (present_contracts pcb). take (length rt) c = rt"
    using assms by (auto simp: build_series_def Let_def res_simps list_all_iff)
  define xs where "xs = splice pcb targets (sort_key (\<lambda>c. the (map_of targets c)) (present_contracts pcb)) None"
  obtain first rest flags events where x: "xs = first # rest"
    and scan: "roll_scan (\<lambda>f b. make_roll_event f b targets pcb) first rest = Inr (flags, events)"
    and s: "s = \<lparr>cs_root = rt, cs_bars = xs, cs_roll_events = events, cs_roll_flags = False # flags\<rparr>"
    and ok: "ContinuousSeries_post_init s = Inr ()"
    using assms unfolding build_series_def Let_def t bindE_simps xs_def [symmetric]
    by (auto simp: res_simps split: list.splits)
  have inc: "increasing_ts (cs_bars s)" using ok by (auto simp: ContinuousSeries_post_init_def res_simps)
  show thesis
    by (rule that [OF t]) (use roll_scan_correct [OF scan] inc pre in \<open>simp_all add: s x xs_def [symmetric]\<close>)
qed

lemma built_chain:
  assumes "build_series pcb cal rt = Inr s" "distinct (map fst pcb)" "inj_on (target_of cal) (set (present_contracts pcb))"
  obtains chain targets where
    "cs_bars s = splice pcb targets chain None" "sorted_wrt (\<lambda>a b. target_of cal a < target_of cal b) chain"
    "set chain = set (present_contracts pcb)" "\<And>c. c \<in> set chain \<Longrightarrow> map_of targets c = Some (target_of cal c)"
    "\<And>c. c \<in> set chain \<Longrightarrow> cal c \<noteq> None"
proof -
  obtain targets where t: "roll_targets cal (present_contracts pcb) = Inr targets"
    and b: "cs_bars s = splice pcb targets (sort_key (\<lambda>c. the (map_of targets c)) (present_contracts pcb)) None"
    by (rule build_series_Inr [OF assms(1)]) blast
  define chain where "chain = sort_key (\<lambda>c. the (map_of targets c)) (present_contracts pcb)"
  have key: "the (map_of targets c) = target_of cal c" if "c \<in> set (present_contracts pcb)" for c
    using roll_targets_lookup [OF t that] by simp
  have "distinct (present_contracts pcb)" using assms(2) by (simp add: distinct_map_filter)
  moreover have "inj_on (\<lambda>c. the (map_of targets c)) (set (present_contracts pcb))"
    using assms(3) key by (metis (no_types, lifting) inj_on_cong)
  ultimately have "sorted_wrt (\<lambda>a b. the (map_of targets a) < the (map_of targets b)) chain"
    unfolding chain_def by (rule sort_key_strict)
  then have "sorted_wrt (\<lambda>a b. target_of cal a < target_of cal b) chain"
    by (rule sorted_wrt_mono_rel [rotated]) (use key in \<open>simp add: chain_def\<close>)
  then show thesis
    using that [of targets chain] b roll_targets_lookup [OF t] roll_targets_eq(2) [OF t] by (simp add: chain_def)
qed

lemma built_bar:
  assumes "build_series pcb cal rt = Inr s" "distinct (map fst pcb)" "inj_on (target_of cal) (set (present_contracts pcb))"
  shows "b \<in> set (cs_bars s) \<longleftrightarrow>
     (\<exists>c bars. (c, bars) \<in> set pcb \<and> b \<in> set bars \<and> bar_day b < target_of cal c
        \<and> (\<forall>c' \<in> set (present_contracts pcb). target_of cal c' < target_of cal c \<longrightarrow> target_of cal c' \<le> bar_day b))"
proof -
  obtain chain targets where c: "cs_bars s = splice pcb targets chain None"
      "sorted_wrt (\<lambda>a b. target_of cal a < target_of cal b) chain" "set chain = set (present_contracts pcb)"
      "\<And>c. c \<in> set chain \<Longrightarrow> map_of targets c = Some (target_of cal c)"
    by (rule built_chain [OF assms]) blast
  have "b \<in> set (cs_bars s) \<longleftrightarrow>
     (\<exists>c \<in> set (present_contracts pcb). b \<in> set (the (map_of pcb c)) \<and> bar_day b < target_of cal c
        \<and> (\<forall>c' \<in> set (present_contracts pcb). target_of cal c' < target_of cal c \<longrightarrow> target_of cal c' \<le> bar_day b))"
    unfolding c(1) using splice_mem [OF c(2,4), of None b pcb] by (simp add: c(3))
  also have "\<dots> \<longleftrightarrow> (\<exists>c bars. (c, bars) \<in> set pcb \<and> b \<in> set bars \<and> bar_day b < target_of cal c
        \<and> (\<forall>c' \<in> set (present_contracts pcb). target_of cal c' < target_of cal c \<longrightarrow> target_of cal c' \<le> bar_day b))"
    unfolding Bex_def present_contracts_mem using present_bars [OF assms(2)] by (metis empty_iff empty_set)
  finally show ?thesis .
qed

text \<open>What a roll event records, for the last bar \<open>p\<close> of the old contract and the first bar \<open>b\<close> of the new one.\<close>

definition roll_recorded :: "contract_bars \<Rightarrow> RollCalendar \<Rightarrow> RawBar \<times> RawBar \<Rightarrow> RollEvent \<Rightarrow> bool" where
  "roll_recorded pcb cal q e \<longleftrightarrow>
     ev_old_contract e = rb_contract (fst q) \<and> ev_new_contract e = rb_contract (snd q)
     \<and> ev_roll_date e = target_of cal (rb_contract (fst q))
     \<and> bar_day (fst q) < ev_roll_date e \<and> ev_roll_date e \<le> bar_day (snd q)
     \<and> (\<exists>bars x. (rb_contract (fst q), bars) \<in> set pcb \<and> x \<in> set bars \<and> ev_front_settle e = rb_close x
          \<and> bar_day x \<le> ev_roll_date e \<and> (\<forall>y \<in> set bars. bar_day y \<le> ev_roll_date e \<longrightarrow> bar_day y \<le> bar_day x))
     \<and> (\<exists>bars x. (rb_contract (snd q), bars) \<in> set pcb \<and> x \<in> set bars \<and> ev_back_settle e = rb_close x
          \<and> ev_roll_date e \<le> bar_day x \<and> (\<forall>y \<in> set bars. ev_roll_date e \<le> bar_day y \<longrightarrow> bar_day x \<le> bar_day y))
     \<and> ev_roll_gap e = dsub (ev_back_settle e) (ev_front_settle e)"

lemma lookup_key_Inr [simp]: "lookup_key d k = Inr v \<longleftrightarrow> map_of d k = Some v"
  by (simp add: lookup_key_def split: option.splits)

lemma make_roll_event_correct:
  assumes "make_roll_event c d targets pcb = Inr e"
  shows "ev_old_contract e = c" "ev_new_contract e = d" "map_of targets c = Some (ev_roll_date e)"
    "\<exists>bars x. (c, bars) \<in> set pcb \<and> x \<in> set bars \<and> ev_front_settle e = rb_close x
       \<and> bar_day x \<le> ev_roll_date e \<and> (\<forall>y \<in> set bars. bar_day y \<le> ev_roll_date e \<longrightarrow> bar_day y \<le> bar_day x)"
    "\<exists>bars x. (d, bars) \<in> set pcb \<and> x \<in> set bars \<and> ev_back_settle e = rb_close x
       \<and> ev_roll_date e \<le> bar_day x \<and> (\<forall>y \<in> set bars. ev_roll_date e \<le> bar_day y \<longrightarrow> bar_day x \<le> bar_day y)"
    "ev_roll_gap e = dsub (ev_back_settle e) (ev_front_settle e)"
proof -
  obtain rd fb bb x z where m: "map_of targets c = Some rd" "map_of pcb c = Some fb" "map_of pcb d = Some bb"
      "best_on_or_before rd fb None = Some x" "best_on_or_after rd bb None = Some z"
      "e = \<lparr>ev_roll_date = rd, ev_old_contract = c, ev_new_contract = d, ev_front_settle = rb_close x,
            ev_back_settle = rb_close z, ev_roll_gap = dsub (rb_close z) (rb_close x)\<rparr>"
    using assms
    by (auto simp: make_roll_event_def res_simps close_on_or_before_def close_on_or_after_def Let_def split: option.splits)
  show "ev_old_contract e = c" "ev_new_contract e = d" "map_of targets c = Some (ev_roll_date e)"
    "ev_roll_gap e = dsub (ev_back_settle e) (ev_front_settle e)" using m by simp_all
  show "\<exists>bars x. (c, bars) \<in> set pcb \<and> x \<in> set bars \<and> ev_front_settle e = rb_close x
       \<and> bar_day x \<le> ev_roll_date e \<and> (\<forall>y \<in> set bars. bar_day y \<le> ev_roll_date e \<longrightarrow> bar_day y \<le> bar_day x)"
    using best_on_or_before_correct [OF m(4)] map_of_SomeD [OF m(2)] by (intro exI [of _ fb] exI [of _ x]) (simp add: m(6))
  show "\<exists>bars x. (d, bars) \<in> set pcb \<and> x \<in> set bars \<and> ev_back_settle e = rb_close x
       \<and> ev_roll_date e \<le> bar_day x \<and> (\<forall>y \<in> set bars. ev_roll_date e \<le> bar_day y \<longrightarrow> bar_day x \<le> bar_day y)"
    using best_on_or_after_correct [OF m(5)] map_of_SomeD [OF m(3)] by (intro exI [of _ bb] exI [of _ z]) (simp add: m(6))
qed

lemma built_adjacent:
  assumes "build_series pcb cal rt = Inr s" "distinct (map fst pcb)" "inj_on (target_of cal) (set (present_contracts pcb))"
    and own: "\<forall>(c, bars) \<in> set pcb. \<forall>b \<in> set bars. rb_contract b = c"
    and pb: "(p, b) \<in> set (zip (cs_bars s) (tl (cs_bars s)))" "rb_contract b \<noteq> rb_contract p"
  shows "rb_contract p \<in> set (present_contracts pcb)" "bar_day p < target_of cal (rb_contract p)"
    "target_of cal (rb_contract p) \<le> bar_day b"
proof -
  obtain chain targets where c: "cs_bars s = splice pcb targets chain None"
      "sorted_wrt (\<lambda>a b. target_of cal a < target_of cal b) chain" "set chain = set (present_contracts pcb)"
    by (rule built_chain [OF assms(1-3)]) blast
  have own': "rb_contract x = d" if "d \<in> set chain" "x \<in> set (the (map_of pcb d))" for d x
    using that own present_bars [OF assms(2)] unfolding c(3) present_contracts_mem by fastforce
  have "sorted_wrt (\<lambda>a b. target_of cal (rb_contract a) \<le> target_of cal (rb_contract b)) (cs_bars s)"
    unfolding c(1) by (rule splice_ordered [OF c(2) own'])
  note adj = zip_tl_ordered [OF this pb(1)]
  have at: "rb_contract x \<in> set (present_contracts pcb) \<and> bar_day x < target_of cal (rb_contract x)
      \<and> (\<forall>c' \<in> set (present_contracts pcb). target_of cal c' < target_of cal (rb_contract x) \<longrightarrow> target_of cal c' \<le> bar_day x)"
    if "x \<in> set (cs_bars s)" for x
    using that own unfolding built_bar [OF assms(1-3)] present_contracts_mem by fastforce
  show "rb_contract p \<in> set (present_contracts pcb)" "bar_day p < target_of cal (rb_contract p)" using at [OF adj(2)] by auto
  have "target_of cal (rb_contract p) \<noteq> target_of cal (rb_contract b)"
    using at [OF adj(2)] at [OF adj(3)] pb(2) assms(3) unfolding inj_on_def by metis
  then show "target_of cal (rb_contract p) \<le> bar_day b" using at [OF adj(2)] at [OF adj(3)] adj(1) by force
qed

section \<open>Properties\<close>

text \<open>
  C16. A built series holds exactly the bars of the active contract: a bar is in it if and only if it is a
  given bar of a contract whose roll target is still ahead on that day while every contract with an earlier
  target has reached it. The bars are in strictly increasing time order, and every contract used belongs to
  the root and has a calendar entry. No contract's bars at or after its own roll target are ever used.
\<close>
theorem build_series_active_bars:
  assumes "build_series pcb cal rt = Inr s" "distinct (map fst pcb)"
    and "inj_on (target_of cal) (set (present_contracts pcb))"
  shows "(\<forall>b. b \<in> set (cs_bars s) \<longleftrightarrow>
            (\<exists>c bars. (c, bars) \<in> set pcb \<and> b \<in> set bars \<and> bar_day b < target_of cal c
               \<and> (\<forall>c' \<in> set (present_contracts pcb). target_of cal c' < target_of cal c \<longrightarrow> target_of cal c' \<le> bar_day b)))
       \<and> sorted_wrt (\<lambda>a b. dt_instant (rb_ts a) < dt_instant (rb_ts b)) (cs_bars s)
       \<and> (\<forall>c \<in> set (present_contracts pcb). cal c \<noteq> None \<and> take (length rt) c = rt)"
proof -
  have "increasing_ts (cs_bars s)" "\<forall>c \<in> set (present_contracts pcb). take (length rt) c = rt"
    by (rule build_series_Inr [OF assms(1)]; simp)+
  moreover have "\<forall>c \<in> set (present_contracts pcb). cal c \<noteq> None" by (rule built_chain [OF assms]) simp
  ultimately show ?thesis using built_bar [OF assms] increasing_ts_sorted by simp
qed

definition day_bar :: "ContractSymbol \<Rightarrow> date \<Rightarrow> decimal \<Rightarrow> RawBar" where
  "day_bar c d p =
     \<lparr>rb_contract = c, rb_ts = \<lparr>dt_local = d * 86400000000, dt_off = Some 0\<rparr>, rb_resolution = DAY_1,
      rb_open = p, rb_high = p, rb_low = p, rb_close = p, rb_volume = 1, rb_oi = None, rb_source_id = ''s'',
      rb_as_of_iso = \<lparr>dt_local = d * 86400000000, dt_off = Some 0\<rparr>, rb_content_bytes_sha = ''''\<rparr>"

definition two_contracts :: contract_bars where
  "two_contracts =
     [(''ESM26'', [day_bar ''ESM26'' 12 7, day_bar ''ESM26'' 10 6, day_bar ''ESM26'' 9 6]),
      (''ESH26'', [day_bar ''ESH26'' 8 5, day_bar ''ESH26'' 9 5, day_bar ''ESH26'' 10 4])]"

definition two_targets :: RollCalendar where
  "two_targets c =
     (if c = ''ESH26'' then Some \<lparr>rc_front_symbol = c, rc_back_symbol = ''ESM26'', rc_ltd_date = 12, rc_roll_target = 10,
                                 rc_roll_deadline = 11, rc_regime = RTH, rc_fnd_date = None\<rparr>
      else if c = ''ESM26'' then Some \<lparr>rc_front_symbol = c, rc_back_symbol = ''ESU26'', rc_ltd_date = 22, rc_roll_target = 20,
                                 rc_roll_deadline = 21, rc_regime = RTH, rc_fnd_date = None\<rparr>
      else None)"

definition two_series :: ContinuousSeries where
  "two_series =
     \<lparr>cs_root = ''ES'',
      cs_bars = [day_bar ''ESH26'' 8 5, day_bar ''ESH26'' 9 5, day_bar ''ESM26'' 10 6, day_bar ''ESM26'' 12 7],
      cs_roll_events = [\<lparr>ev_roll_date = 10, ev_old_contract = ''ESH26'', ev_new_contract = ''ESM26'',
                         ev_front_settle = 4, ev_back_settle = 6, ev_roll_gap = 2\<rparr>],
      cs_roll_flags = [False, False, True, False]\<rparr>"

lemma two_series_built: "build_series two_contracts two_targets ''ES'' = Inr two_series"
  by code_simp

lemma two_contracts_ok:
  "distinct (map fst two_contracts)" "inj_on (target_of two_targets) (set (present_contracts two_contracts))"
  by (simp_all add: two_contracts_def two_targets_def)

text \<open>The last bar of the March contract, on the roll date, and the first of the June contract are left out.\<close>
theorem build_series_active_bars_witness:
  "day_bar ''ESH26'' 10 4 \<notin> set (cs_bars two_series) \<and> day_bar ''ESM26'' 9 6 \<notin> set (cs_bars two_series)
   \<and> day_bar ''ESM26'' 10 6 \<in> set (cs_bars two_series)
   \<and> sorted_wrt (\<lambda>a b. dt_instant (rb_ts a) < dt_instant (rb_ts b)) (cs_bars two_series)"
proof -
  have "sorted_wrt (\<lambda>a b. dt_instant (rb_ts a) < dt_instant (rb_ts b)) (cs_bars two_series)"
    using build_series_active_bars [OF two_series_built two_contracts_ok] by blast
  then show ?thesis by (simp add: two_series_def day_bar_def)
qed

text \<open>
  The rolls of a built series are exactly its changes of contract. A flag is set for a bar exactly when
  its contract differs from that of the bar before; the events correspond, in order, to these changes. Each
  event is dated at the roll target of the old contract, which lies after the old contract's last bar of the
  series and no later than the new contract's first one; its prices are the old contract's latest close up
  to that date and the new contract's earliest close from that date, and its gap is their difference.
\<close>
theorem build_series_roll_events:
  assumes "build_series pcb cal rt = Inr s" "distinct (map fst pcb)"
    and "inj_on (target_of cal) (set (present_contracts pcb))"
    and "\<forall>(c, bars) \<in> set pcb. \<forall>b \<in> set bars. rb_contract b = c"
  shows "cs_roll_flags s = False # map rolls_at (zip (cs_bars s) (tl (cs_bars s)))
       \<and> list_all2 (roll_recorded pcb cal) (filter rolls_at (zip (cs_bars s) (tl (cs_bars s)))) (cs_roll_events s)"
proof -
  obtain targets where t: "roll_targets cal (present_contracts pcb) = Inr targets"
    and flags: "cs_roll_flags s = False # map rolls_at (zip (cs_bars s) (tl (cs_bars s)))"
    and ev: "list_all2 (\<lambda>q e. make_roll_event (rb_contract (fst q)) (rb_contract (snd q)) targets pcb = Inr e)
       (filter rolls_at (zip (cs_bars s) (tl (cs_bars s)))) (cs_roll_events s)"
    by (rule build_series_Inr [OF assms(1)]) blast
  have "roll_recorded pcb cal q e"
    if q: "q \<in> set (filter rolls_at (zip (cs_bars s) (tl (cs_bars s))))"
      and mk: "make_roll_event (rb_contract (fst q)) (rb_contract (snd q)) targets pcb = Inr e" for q e
  proof -
    have "q \<in> set (zip (cs_bars s) (tl (cs_bars s)))" "rolls_at q" using q unfolding set_filter by blast+
    then obtain p b where pb: "q = (p, b)" "(p, b) \<in> set (zip (cs_bars s) (tl (cs_bars s)))" "rb_contract b \<noteq> rb_contract p"
      using that by (metis prod.collapse)
    note days = built_adjacent [OF assms pb(2,3)]
    note m = make_roll_event_correct [OF mk]
    have "ev_roll_date e = target_of cal (rb_contract p)"
      using m(3) roll_targets_lookup [OF t days(1)] pb(1) by simp
    then show ?thesis using days(2,3) m pb(1) by (simp add: roll_recorded_def)
  qed
  then show ?thesis using flags list.rel_mono_strong [OF ev] by blast
qed

theorem build_series_roll_events_witness:
  "list_all2 (roll_recorded two_contracts two_targets)
     [(day_bar ''ESH26'' 9 5, day_bar ''ESM26'' 10 6)] (cs_roll_events two_series)"
proof -
  have own: "\<forall>(c, bars) \<in> set two_contracts. \<forall>b \<in> set bars. rb_contract b = c" by (simp add: two_contracts_def day_bar_def)
  show ?thesis
    using build_series_roll_events [OF two_series_built two_contracts_ok own]
    by (simp add: two_series_def day_bar_def)
qed

end
