(* ===== verification/Combinations.thy ===== *)
theory Combinations
  imports Prelude
begin

text \<open>
  The combinations of the Python library, which both the purged cross-validation (\<open>src/futur3/cv/cpcv.py\<close>) and the symmetric splits of
  the overfitting estimate (\<open>src/futur3/cv/cscv.py\<close>) enumerate: how many there are, what they are, and in how many of them an element
  is chosen.
\<close>

text \<open>\<open>itertools.combinations\<close>: the sublists of length \<open>k\<close> in the order of their positions.\<close>

fun combinations :: "nat \<Rightarrow> 'a list \<Rightarrow> 'a list list" where
  "combinations 0 xs = [[]]"
| "combinations (Suc k) [] = []"
| "combinations (Suc k) (x # xs) = map ((#) x) (combinations k xs) @ combinations (Suc k) xs"

lemma length_combinations: "length (combinations k xs) = (length xs choose k)"
  by (induction k xs rule: combinations.induct) simp_all

lemma combinations_mem:
  "c \<in> set (combinations k xs) \<Longrightarrow> length c = k \<and> set c \<subseteq> set xs \<and> (distinct xs \<longrightarrow> distinct c)"
  by (induction k xs arbitrary: c rule: combinations.induct) (auto, blast+)

lemma combinations_filter_absent: "x \<notin> set xs \<Longrightarrow> filter (\<lambda>c. x \<in> set c) (combinations k xs) = []"
  using combinations_mem [of _ k xs] by (auto simp: filter_empty_conv)

lemma filter_combinations_count:
  assumes "distinct xs" "x \<in> set xs"
  shows "length (filter (\<lambda>c. x \<in> set c) (combinations (Suc k) xs)) = (length xs - 1 choose k)"
  using assms
proof (induction xs arbitrary: k)
  case (Cons y ys)
  show ?case
  proof (cases "x = y")
    case True
    then show ?thesis using Cons.prems combinations_filter_absent [of x ys "Suc k"]
      by (simp add: filter_map o_def length_combinations)
  next
    case False
    then have x: "x \<in> set ys" "distinct ys" using Cons.prems by auto
    then obtain m where m: "length ys = Suc m" by (cases ys) auto
    have "length (filter (\<lambda>c. x \<in> set c) (map ((#) y) (combinations k ys))) = (if k = 0 then 0 else m choose (k - 1))"
      using False Cons.IH [OF x(2,1), of "k - 1"] m by (cases k) (simp_all add: filter_map o_def)
    then show ?thesis using Cons.IH [OF x(2,1), of k] m False by (cases k) simp_all
  qed
qed simp

text \<open>Every subset of the size asked for is chosen.\<close>

lemma combinations_set:
  "distinct xs \<Longrightarrow> set ` set (combinations k xs) = {A. A \<subseteq> set xs \<and> card A = k}"
proof (induction k xs rule: combinations.induct)
  case (1 xs)
  have "A \<subseteq> set xs \<and> card A = 0 \<longleftrightarrow> A = {}" for A by (metis List.finite_set card_0_eq card.empty empty_subsetI finite_subset)
  then show ?case by auto
next
  case (2 k)
  then show ?case by auto
next
  case (3 k x xs)
  then have IH: "set ` set (combinations k xs) = {A. A \<subseteq> set xs \<and> card A = k}"
      "set ` set (combinations (Suc k) xs) = {A. A \<subseteq> set xs \<and> card A = Suc k}" and x: "x \<notin> set xs"
    by simp_all
  have "set ` set (combinations (Suc k) (x # xs)) = insert x ` (set ` set (combinations k xs)) \<union> set ` set (combinations (Suc k) xs)"
    by (auto simp: image_Un image_image)
  also have "\<dots> = {A. A \<subseteq> set (x # xs) \<and> card A = Suc k}"
    unfolding IH
  proof (intro equalityI subsetI)
    fix A assume A: "A \<in> {A. A \<subseteq> set (x # xs) \<and> card A = Suc k}"
    then have "finite A" using finite_subset by auto
    show "A \<in> insert x ` {A. A \<subseteq> set xs \<and> card A = k} \<union> {A. A \<subseteq> set xs \<and> card A = Suc k}"
    proof (cases "x \<in> A")
      case True
      then have "A = insert x (A - {x})" "card (A - {x}) = k" "A - {x} \<subseteq> set xs" using A \<open>finite A\<close> by auto
      then show ?thesis by blast
    qed (use A in auto)
  next
    fix A assume "A \<in> insert x ` {A. A \<subseteq> set xs \<and> card A = k} \<union> {A. A \<subseteq> set xs \<and> card A = Suc k}"
    then show "A \<in> {A. A \<subseteq> set (x # xs) \<and> card A = Suc k}"
    proof
      assume "A \<in> insert x ` {A. A \<subseteq> set xs \<and> card A = k}"
      then obtain B where B: "A = insert x B" "B \<subseteq> set xs" "card B = k" by blast
      then have "finite B" "x \<notin> B" using x finite_subset [OF B(2)] by auto
      then show ?thesis using B by auto
    qed auto
  qed
  finally show ?case .
qed

text \<open>Of the choices of half the elements, one half contains a given element.\<close>

lemma half_combinations_balanced:
  assumes "distinct xs" "x \<in> set xs" "length xs = 2 * m"
  shows "2 * length (filter (\<lambda>c. x \<in> set c) (combinations m xs)) = length (combinations m xs)"
proof -
  obtain k where k: "m = Suc k" using assms(2,3) by (cases m) auto
  have "length (filter (\<lambda>c. x \<in> set c) (combinations m xs)) = 2 * m - 1 choose k"
    using filter_combinations_count [OF assms(1,2), of k] assms(3) k by simp
  moreover have "2 * m choose m = (2 * m - 1 choose k) + (2 * m - 1 choose Suc k)"
    using binomial_Suc_Suc [of "2 * m - 1" k] k by (simp del: binomial_Suc_Suc)
  moreover have "(2 * m - 1 choose Suc k) = (2 * m - 1 choose k)"
    using binomial_symmetric [of k "2 * m - 1"] k by simp
  ultimately show ?thesis by (simp add: length_combinations assms(3))
qed

end
