(* ===== verification/CV_Properties.thy ===== *)
theory CV_Properties
  imports Cross_Validation
begin

text \<open>
  Correctness of the split generators of \<open>Cross_Validation\<close>. The walk-forward folds are compared with a
  closed form, fold \<open>i\<close> validating from \<open>first + i * step\<close>; the purged folds are described by what their
  index sets mean: a partition of the series in which training keeps its distance from testing.
\<close>

section \<open>Walk-forward folds\<close>

definition wf_step :: "int \<Rightarrow> int option \<Rightarrow> int" where
  "wf_step vw step = (case step of None \<Rightarrow> vw | Some s \<Rightarrow> s)"

definition wf_first :: "WalkForwardMode \<Rightarrow> int option \<Rightarrow> int \<Rightarrow> int" where
  "wf_first mode tw mt = (if mode = ''rolling'' then the tw else mt)"

text \<open>The configurations that yield at least one fold.\<close>

definition wf_valid :: "int \<Rightarrow> int \<Rightarrow> WalkForwardMode \<Rightarrow> int option \<Rightarrow> int option \<Rightarrow> int \<Rightarrow> bool" where
  "wf_valid n vw mode tw step mt \<longleftrightarrow>
     2 \<le> n \<and> 1 \<le> vw \<and> 1 \<le> mt \<and> 1 \<le> wf_step vw step \<and> wf_first mode tw mt < n
     \<and> (mode = ''anchored'' \<and> tw = None \<or> mode = ''rolling'' \<and> (\<exists>w. tw = Some w \<and> mt \<le> w))"

definition wf_at :: "int \<Rightarrow> int \<Rightarrow> WalkForwardMode \<Rightarrow> int option \<Rightarrow> int \<Rightarrow> int \<Rightarrow> nat \<Rightarrow> WalkForwardFold" where
  "wf_at n vw mode tw first st i =
     (let v = first + int i * st
      in \<lparr>wf_fold = int i, wf_train_start = (if mode = ''anchored'' then 0 else v - the tw), wf_train_end = v,
          wf_val_start = v, wf_val_end = min (v + vw) n\<rparr>)"

lemma walk_forward_loop_emits:
  assumes st: "1 \<le> st" and emit: "\<And>v. first \<le> v \<Longrightarrow>
      fold_train_start mode tw v = Inr (if mode = ''anchored'' then 0 else v - the tw)
      \<and> mt \<le> v - (if mode = ''anchored'' then 0 else v - the tw)"
  shows "\<exists>k. walk_forward_loop n vw mode tw st mt (first + int j * st) (map (wf_at n vw mode tw first st) [0..<j])
             = Some (Inr (map (wf_at n vw mode tw first st) [0..<k]))
           \<and> j \<le> k \<and> (\<forall>i \<ge> j. i < k \<longleftrightarrow> first + int i * st < n)"
proof (induction "nat (n - (first + int j * st))" arbitrary: j rule: less_induct)
  case less
  define v where "v = first + int j * st"
  have v: "first \<le> v" using st by (simp add: v_def)
  show ?case
  proof (cases "v < n")
    case True
    have "nat (n - (first + int (Suc j) * st)) < nat (n - (first + int j * st))"
      using True st by (simp add: v_def algebra_simps)
    then obtain k where k: "walk_forward_loop n vw mode tw st mt (first + int (Suc j) * st)
          (map (wf_at n vw mode tw first st) [0..<Suc j]) = Some (Inr (map (wf_at n vw mode tw first st) [0..<k]))"
        "Suc j \<le> k" "\<forall>i \<ge> Suc j. i < k \<longleftrightarrow> first + int i * st < n"
      using less by blast
    have nxt: "first + int (Suc j) * st = v + st" by (simp add: v_def algebra_simps)
    have "walk_forward_loop n vw mode tw st mt v (map (wf_at n vw mode tw first st) [0..<j]) =
          walk_forward_loop n vw mode tw st mt (v + st) (map (wf_at n vw mode tw first st) [0..<Suc j])"
      using True emit [OF v]
      by (subst walk_forward_loop.simps) (simp add: wf_at_def Let_def v_def)
    moreover have "i < k \<longleftrightarrow> first + int i * st < n" if "j \<le> i" for i
    proof (cases "i = j")
      case True
      then show ?thesis using k(2) \<open>v < n\<close> by (simp add: v_def)
    qed (use that k(3) in simp)
    ultimately show ?thesis using k(1,2) unfolding nxt v_def [symmetric] by (intro exI [of _ k]) simp
  next
    case False
    have "\<not> first + int i * st < n" if "j \<le> i" for i
    proof -
      have "int j * st \<le> int i * st" using that st by (intro mult_right_mono) simp_all
      then show ?thesis using False by (simp add: v_def)
    qed
    then show ?thesis using False by (intro exI [of _ j]) (auto simp: v_def walk_forward_loop.simps)
  qed
qed

lemma walk_forward_loop_skips:
  assumes st: "1 \<le> st" and "tw = Some w" "mode \<noteq> ''anchored''" "w < mt"
  shows "walk_forward_loop n vw mode tw st mt v folds = Some (Inr folds)"
proof (induction "nat (n - v)" arbitrary: v rule: less_induct)
  case less
  show ?case
  proof (cases "v < n")
    case True
    then have "walk_forward_loop n vw mode tw st mt (v + st) folds = Some (Inr folds)" using less st by simp
    then show ?thesis using True assms by (subst walk_forward_loop.simps) (simp add: fold_train_start_def)
  qed (simp add: walk_forward_loop.simps)
qed

lemma resolve_walk_forward_Inr:
  "resolve_walk_forward n vw mode tw step mt = Inr (st, first) \<longleftrightarrow>
     2 \<le> n \<and> 1 \<le> vw \<and> 1 \<le> mt \<and> 1 \<le> wf_step vw step \<and> st = wf_step vw step \<and> first = wf_first mode tw mt
     \<and> (mode = ''anchored'' \<and> tw = None \<or> mode = ''rolling'' \<and> (\<exists>w. tw = Some w \<and> 1 \<le> w))"
  by (auto simp: resolve_walk_forward_def Let_def res_simps MIN_SAMPLES_def VALID_MODES_def wf_step_def wf_first_def
      split: option.splits if_splits)

lemma resolve_walk_forward_Inl: "resolve_walk_forward n vw mode tw step mt = Inl e \<Longrightarrow> e = WalkForwardError"
  by (auto simp: resolve_walk_forward_def Let_def res_simps split: option.splits if_splits)

lemma walk_forward_splits_valid:
  assumes "wf_valid n vw mode tw step mt"
  obtains k where "walk_forward_splits n vw mode tw step mt =
      Some (Inr (map (wf_at n vw mode tw (wf_first mode tw mt) (wf_step vw step)) [0..<k]))" "0 < k"
    "\<And>i. i < k \<longleftrightarrow> wf_first mode tw mt + int i * wf_step vw step < n"
proof -
  let ?first = "wf_first mode tw mt" and ?st = "wf_step vw step"
  have r: "resolve_walk_forward n vw mode tw step mt = Inr (?st, ?first)"
    using assms unfolding resolve_walk_forward_Inr by (auto simp: wf_valid_def)
  have st: "1 \<le> ?st" using assms by (simp add: wf_valid_def)
  have "fold_train_start mode tw v = Inr (if mode = ''anchored'' then 0 else v - the tw)
      \<and> mt \<le> v - (if mode = ''anchored'' then 0 else v - the tw)" if "?first \<le> v" for v
    using that assms by (auto simp: wf_valid_def wf_first_def fold_train_start_def)
  then obtain k where k: "walk_forward_loop n vw mode tw ?st mt ?first [] = Some (Inr (map (wf_at n vw mode tw ?first ?st) [0..<k]))"
      "\<And>i. i < k \<longleftrightarrow> ?first + int i * ?st < n"
    using walk_forward_loop_emits [of ?st ?first mode tw mt n vw 0] st by auto
  have "0 < k" using k(2) [of 0] assms by (simp add: wf_valid_def)
  then show thesis using k r by (intro that [of k]) (simp_all add: walk_forward_splits_def)
qed

lemma wf_at_causal:
  assumes "wf_valid n vw mode tw step mt" "wf_first mode tw mt + int i * wf_step vw step < n"
  defines "f \<equiv> wf_at n vw mode tw (wf_first mode tw mt) (wf_step vw step) i"
  shows "wf_fold f = int i \<and> 0 \<le> wf_train_start f \<and> wf_train_start f < wf_train_end f
    \<and> wf_val_start f = wf_train_end f \<and> wf_val_start f < wf_val_end f \<and> wf_val_end f \<le> n
    \<and> wf_n_val f \<le> vw \<and> mt \<le> wf_n_train f
    \<and> (if mode = ''anchored'' then wf_train_start f = 0 else tw = Some (wf_n_train f))"
proof -
  define off where "off = int i * wf_step vw step"
  have off: "0 \<le> off" using assms(1) by (simp add: off_def wf_valid_def)
  have b: "wf_first mode tw mt + off < n" using assms(2) by (simp add: off_def)
  have f: "f = wf_at n vw mode tw (wf_first mode tw mt) (wf_step vw step) i" by (simp add: f_def)
  show ?thesis
    using assms(1) off b unfolding f wf_at_def Let_def off_def [symmetric] wf_valid_def
    by (auto simp: wf_n_val_def wf_n_train_def wf_first_def)
qed

lemma walk_forward_splits_invalid:
  assumes "\<not> wf_valid n vw mode tw step mt"
  shows "walk_forward_splits n vw mode tw step mt = Some (Inl WalkForwardError)"
proof (cases "resolve_walk_forward n vw mode tw step mt")
  case (Inl e)
  then show ?thesis using resolve_walk_forward_Inl by (simp add: walk_forward_splits_def)
next
  case (Inr q)
  obtain st first where q: "q = (st, first)" by (cases q)
  note r = Inr [unfolded q resolve_walk_forward_Inr]
  have "walk_forward_loop n vw mode tw st mt first [] = Some (Inr [])"
  proof (cases "first < n")
    case True
    then obtain w where "tw = Some w" "mode \<noteq> ''anchored''" "w < mt" using r assms by (auto simp: wf_valid_def)
    then show ?thesis using walk_forward_loop_skips [of st tw w mode mt n vw first "[]"] r by auto
  qed (simp add: walk_forward_loop.simps)
  then show ?thesis using Inr by (simp add: walk_forward_splits_def q)
qed

section \<open>Blocks\<close>

text \<open>The start of block \<open>b\<close>; the first blocks take one observation more.\<close>

definition block_start :: "int \<Rightarrow> int \<Rightarrow> int \<Rightarrow> int" where
  "block_start n nb b = b * (n div nb) + min b (n mod nb)"

lemma make_blocks_loop_eq:
  "0 \<le> a \<Longrightarrow> make_blocks_loop (n div nb) (n mod nb) [a..m] (block_start n nb a) =
     map (\<lambda>b. (block_start n nb b, block_start n nb (b + 1))) [a..m]"
proof (induction a m rule: upto.induct)
  case (1 a m)
  have step: "block_start n nb a + (n div nb + (if a < n mod nb then 1 else 0)) = block_start n nb (a + 1)"
    by (auto simp: block_start_def min_def algebra_simps)
  show ?case
  proof (cases "a \<le> m")
    case True
    then show ?thesis using 1 step by (simp add: upto_rec1 [OF True] Let_def)
  qed simp
qed

lemma make_blocks_eq: "0 < nb \<Longrightarrow> make_blocks n nb = map (\<lambda>b. (block_start n nb b, block_start n nb (b + 1))) [0..nb - 1]"
  using make_blocks_loop_eq [of 0 n nb "nb - 1"] by (simp add: make_blocks_def block_start_def)

lemma make_blocks_nth:
  "0 \<le> b \<Longrightarrow> b < nb \<Longrightarrow> make_blocks n nb ! nat b = (block_start n nb b, block_start n nb (b + 1))"
  by (simp add: make_blocks_eq nth_upto)

lemma block_start_mono: "0 < nb \<Longrightarrow> 0 \<le> n \<Longrightarrow> b \<le> c \<Longrightarrow> block_start n nb b \<le> block_start n nb c"
  unfolding block_start_def by (intro add_mono mult_right_mono) (simp_all add: pos_imp_zdiv_nonneg_iff)

lemma block_start_less:
  assumes "0 < nb" "nb \<le> n"
  shows "block_start n nb b < block_start n nb (b + 1)"
proof -
  have "1 \<le> n div nb" using zdiv_mono1 [of nb n nb] assms by simp
  then show ?thesis by (auto simp: block_start_def min_def algebra_simps)
qed

lemma block_start_ends:
  assumes "0 < nb" "0 \<le> n"
  shows "block_start n nb 0 = 0 \<and> block_start n nb nb = n"
proof -
  have "0 \<le> n mod nb" "n mod nb < nb" using assms by simp_all
  then show ?thesis using mult_div_mod_eq [of nb n] by (simp add: block_start_def min_def)
qed

text \<open>Every index lies in exactly one block.\<close>

lemma index_block:
  assumes "0 < nb" "0 \<le> i" "i < n"
  shows "\<exists>!b. 0 \<le> b \<and> b < nb \<and> block_start n nb b \<le> i \<and> i < block_start n nb (b + 1)"
proof -
  define S where "S = {b. 0 \<le> b \<and> b < nb \<and> block_start n nb b \<le> i}"
  have fin: "finite S" by (rule finite_subset [of _ "{0..<nb}"]) (auto simp: S_def)
  have "0 \<in> S" using assms block_start_ends [of nb n] by (simp add: S_def)
  then have m: "Max S \<in> S" "\<And>b. b \<in> S \<Longrightarrow> b \<le> Max S" using fin by (auto intro: Max_in)
  have "i < block_start n nb (Max S + 1)"
  proof (rule ccontr)
    assume no: "\<not> ?thesis"
    then have "Max S + 1 < nb"
      using m(1) assms block_start_ends [of nb n] by (cases "Max S + 1 = nb") (auto simp: S_def)
    then have "Max S + 1 \<in> S" using no m(1) by (simp add: S_def)
    then show False using m(2) by fastforce
  qed
  then have ex: "0 \<le> Max S \<and> Max S < nb \<and> block_start n nb (Max S) \<le> i \<and> i < block_start n nb (Max S + 1)"
    using m(1) by (simp add: S_def)
  have "b = c" if "block_start n nb b \<le> i" "i < block_start n nb (b + 1)" "block_start n nb c \<le> i" "i < block_start n nb (c + 1)" for b c
    using that block_start_mono [of nb n "b + 1" c] block_start_mono [of nb n "c + 1" b] assms by linarith
  then show ?thesis using ex by blast
qed

section \<open>Purged folds\<close>

lemma leakage_sets_eq:
  "leakage_sets n p e ivs (A, B, C) =
     (A \<union> (\<Union>(ts, te) \<in> set ivs. {ts..<te}),
      B \<union> (\<Union>(ts, te) \<in> set ivs. {max 0 (ts - p)..<ts}),
      C \<union> (\<Union>(ts, te) \<in> set ivs. {te..<min n (te + e)}))"
proof (induction ivs arbitrary: A B C)
  case (Cons iv ivs)
  obtain ts te where "iv = (ts, te)" by (cases iv)
  moreover have "{x..y - 1} = {x..<y}" for x y :: int by auto
  ultimately show ?case using Cons.IH by (simp add: Un_assoc)
qed simp

lemma classify_indices_eq:
  "classify_indices A B C is (tr, np, ne) =
     (tr @ filter (\<lambda>i. i \<notin> A \<and> i \<notin> B \<and> i \<notin> C) is,
      np + int (length (filter (\<lambda>i. i \<notin> A \<and> i \<in> B) is)),
      ne + int (length (filter (\<lambda>i. i \<notin> A \<and> i \<notin> B \<and> i \<in> C) is)))"
  by (induction "is" arbitrary: tr np ne) auto

lemma cpcv_loop_nth:
  "length (cpcv_loop n p e blocks combos folds) = length folds + length combos"
  "i < length folds \<Longrightarrow> cpcv_loop n p e blocks combos folds ! i = folds ! i"
  "i < length combos \<Longrightarrow> cpcv_loop n p e blocks combos folds ! (length folds + i) =
     cpcv_fold n p e blocks (int (length folds + i)) (combos ! i)"
proof (induction combos arbitrary: folds i)
  case (Cons c cs)
  { case 1 then show ?case using Cons.IH(1) by simp }
  { case 2 then show ?case using Cons.IH(2) by (simp add: nth_append) }
  { case 3
    let ?folds = "folds @ [cpcv_fold n p e blocks (int (length folds)) c]"
    show ?case
    proof (cases i)
      case 0
      then show ?thesis using Cons.IH(2) [of "length folds" ?folds] by simp
    next
      case (Suc j)
      then show ?thesis using Cons.IH(3) [of j ?folds] 3 by simp
    qed }
qed simp_all

lemma cpcv_splits_Inr:
  assumes "cpcv_splits n nb k p e = Inr folds"
  shows "2 \<le> nb" "1 \<le> k" "k < nb" "0 \<le> p" "0 \<le> e" "nb \<le> n"
    "folds = cpcv_loop n p e (make_blocks n nb) (combinations (nat k) [0..nb - 1]) []"
  using assms by (auto simp: cpcv_splits_def res_simps MIN_BLOCKS_def)

lemma cpcv_splits_nth:
  assumes "cpcv_splits n nb k p e = Inr folds"
  shows "length folds = nat nb choose nat k"
    "i < length folds \<Longrightarrow>
       folds ! i = cpcv_fold n p e (make_blocks n nb) (int i) (combinations (nat k) [0..nb - 1] ! i)"
  using cpcv_splits_Inr [OF assms] cpcv_loop_nth(1,3) [where folds = "[]" and combos = "combinations (nat k) [0..nb - 1]"]
  by (simp_all add: length_combinations)

text \<open>The test indices of a choice of blocks.\<close>

definition test_area :: "int \<Rightarrow> int \<Rightarrow> int list \<Rightarrow> int set" where
  "test_area n nb combo = (\<Union>b \<in> set combo. {block_start n nb b..<block_start n nb (b + 1)})"

text \<open>An index keeps its distance when no test index follows within the purge or precedes within the embargo.\<close>

definition keeps_distance :: "int \<Rightarrow> int \<Rightarrow> int set \<Rightarrow> int \<Rightarrow> bool" where
  "keeps_distance p e T i \<longleftrightarrow> (\<forall>t \<in> T. (i < t \<longrightarrow> p < t - i) \<and> (t < i \<longrightarrow> e < i - t))"

lemma purge_meaning:
  fixes s :: "int \<Rightarrow> int"
  assumes less: "\<And>b. s b < s (b + 1)" and T: "T = (\<Union>b \<in> B. {s b..<s (b + 1)})" and i: "0 \<le> i" "i \<notin> T"
  shows "i \<in> (\<Union>b \<in> B. {max 0 (s b - p)..<s b}) \<longleftrightarrow> (\<exists>t \<in> T. i < t \<and> t - i \<le> p)"
proof
  assume "i \<in> (\<Union>b \<in> B. {max 0 (s b - p)..<s b})"
  then obtain b where b: "b \<in> B" "s b - p \<le> i" "i < s b" by auto
  moreover have "s b \<in> T" using b(1) less [of b] by (auto simp: T)
  ultimately show "\<exists>t \<in> T. i < t \<and> t - i \<le> p" by (intro bexI [of _ "s b"]) auto
next
  assume "\<exists>t \<in> T. i < t \<and> t - i \<le> p"
  then obtain t b where b: "b \<in> B" "s b \<le> t" "t < s (b + 1)" "i < t" "t - i \<le> p" by (auto simp: T)
  moreover have "i < s b" using i(2) b by (force simp: T)
  ultimately show "i \<in> (\<Union>b \<in> B. {max 0 (s b - p)..<s b})" using i(1) by (intro UN_I [of b]) auto
qed

lemma embargo_meaning:
  fixes s :: "int \<Rightarrow> int"
  assumes less: "\<And>b. s b < s (b + 1)" and T: "T = (\<Union>b \<in> B. {s b..<s (b + 1)})" and i: "i < n" "i \<notin> T"
  shows "i \<in> (\<Union>b \<in> B. {s (b + 1)..<min n (s (b + 1) + e)}) \<longleftrightarrow> (\<exists>t \<in> T. t < i \<and> i - t \<le> e)"
proof
  assume "i \<in> (\<Union>b \<in> B. {s (b + 1)..<min n (s (b + 1) + e)})"
  then obtain b where b: "b \<in> B" "s (b + 1) \<le> i" "i < s (b + 1) + e" by auto
  moreover have "s (b + 1) - 1 \<in> T" using b(1) less [of b] by (auto simp: T)
  ultimately show "\<exists>t \<in> T. t < i \<and> i - t \<le> e" by (intro bexI [of _ "s (b + 1) - 1"]) auto
next
  assume "\<exists>t \<in> T. t < i \<and> i - t \<le> e"
  then obtain t b where b: "b \<in> B" "s b \<le> t" "t < s (b + 1)" "t < i" "i - t \<le> e" by (auto simp: T)
  moreover have "s (b + 1) \<le> i" using i(2) b by (force simp: T)
  ultimately show "i \<in> (\<Union>b \<in> B. {s (b + 1)..<min n (s (b + 1) + e)})" using i(1) by (intro UN_I [of b]) auto
qed

lemma cpcv_fold_correct:
  fixes j :: int
  assumes "0 < nb" "nb \<le> n" "0 \<le> p" "0 \<le> e" and combo: "set combo \<subseteq> {0..<nb}"
  defines "T \<equiv> test_area n nb combo" and "f \<equiv> cpcv_fold n p e (make_blocks n nb) j combo"
  shows "T \<subseteq> {0..<n}" "cf_test_blocks f = combo" "cf_test_idx f = sorted_list_of_set T"
    "cf_train_idx f = filter (\<lambda>i. i \<notin> T \<and> keeps_distance p e T i) [0..n - 1]"
    "cf_n_train f + cf_n_test f + cf_n_purged f + cf_n_embargoed f = n"
    "cf_n_purged f = int (length (filter (\<lambda>i. i \<notin> T \<and> (\<exists>t \<in> T. i < t \<and> t - i \<le> p)) [0..n - 1]))"
proof -
  let ?s = "block_start n nb"
  have mono: "b \<le> c \<Longrightarrow> ?s b \<le> ?s c" for b c using block_start_mono [of nb n] assms(1,2) by simp
  have ends: "?s 0 = 0" "?s nb = n" using block_start_ends [of nb n] assms(1,2) by simp_all
  have less: "?s b < ?s (b + 1)" for b using block_start_less [OF assms(1,2)] .
  have inside: "0 \<le> ?s b \<and> ?s (b + 1) \<le> n" if "b \<in> set combo" for b
    using mono [of 0 b] mono [of "b + 1" nb] ends that combo by auto
  show T: "T \<subseteq> {0..<n}" using inside by (fastforce simp: T_def test_area_def)
  then have fin: "finite T" by (rule finite_subset) simp
  define ivs where "ivs = map (\<lambda>b. make_blocks n nb ! nat b) combo"
  have ivs: "ivs = map (\<lambda>b. (?s b, ?s (b + 1))) combo"
    unfolding ivs_def using combo make_blocks_nth [of _ nb n] by (intro map_cong refl) auto
  define P where "P = (\<Union>b \<in> set combo. {max 0 (?s b - p)..<?s b})"
  define E where "E = (\<Union>b \<in> set combo. {?s (b + 1)..<min n (?s (b + 1) + e)})"
  have sets: "leakage_sets n p e ivs ({}, {}, {}) = (T, P, E)"
    by (simp add: leakage_sets_eq ivs T_def test_area_def P_def E_def)
  have purged: "i \<in> P \<longleftrightarrow> (\<exists>t \<in> T. i < t \<and> t - i \<le> p)" if "0 \<le> i" "i \<notin> T" for i
    unfolding P_def by (rule purge_meaning [of ?s]) (use less that in \<open>simp_all add: T_def test_area_def\<close>)
  have embargoed: "i \<in> E \<longleftrightarrow> (\<exists>t \<in> T. t < i \<and> i - t \<le> e)" if "i < n" "i \<notin> T" for i
    unfolding E_def by (rule embargo_meaning [of ?s]) (use less that in \<open>simp_all add: T_def test_area_def\<close>)
  have f: "f = \<lparr>cf_fold = j, cf_test_blocks = combo, cf_train_idx = filter (\<lambda>i. i \<notin> T \<and> i \<notin> P \<and> i \<notin> E) [0..n - 1],
      cf_test_idx = sorted_list_of_set T, cf_n_purged = int (length (filter (\<lambda>i. i \<notin> T \<and> i \<in> P) [0..n - 1])),
      cf_n_embargoed = int (length (filter (\<lambda>i. i \<notin> T \<and> i \<notin> P \<and> i \<in> E) [0..n - 1]))\<rparr>"
    by (simp add: f_def cpcv_fold_def ivs_def [symmetric] sets classify_indices_eq)
  show "cf_test_blocks f = combo" "cf_test_idx f = sorted_list_of_set T" by (simp_all add: f)
  have distance: "keeps_distance p e T i \<longleftrightarrow> \<not> (\<exists>t \<in> T. i < t \<and> t - i \<le> p) \<and> \<not> (\<exists>t \<in> T. t < i \<and> i - t \<le> e)" for i
    unfolding keeps_distance_def by (meson not_le)
  show "cf_train_idx f = filter (\<lambda>i. i \<notin> T \<and> keeps_distance p e T i) [0..n - 1]"
    using purged embargoed distance by (auto simp: f intro!: filter_cong)
  show "cf_n_purged f = int (length (filter (\<lambda>i. i \<notin> T \<and> (\<exists>t \<in> T. i < t \<and> t - i \<le> p)) [0..n - 1]))"
    using purged by (auto simp: f intro!: arg_cong [of _ _ length] filter_cong)
  have split: "length xs = length (filter (\<lambda>i. i \<in> T) xs) + length (filter (\<lambda>i. i \<notin> T \<and> i \<notin> P \<and> i \<notin> E) xs)
      + length (filter (\<lambda>i. i \<notin> T \<and> i \<in> P) xs) + length (filter (\<lambda>i. i \<notin> T \<and> i \<notin> P \<and> i \<in> E) xs)" for xs :: "int list"
    by (induction xs) auto
  have "set (filter (\<lambda>i. i \<in> T) [0..n - 1]) = T" using T by auto
  then have "length (filter (\<lambda>i. i \<in> T) [0..n - 1]) = card T" by (metis distinct_card distinct_filter distinct_upto)
  then show "cf_n_train f + cf_n_test f + cf_n_purged f + cf_n_embargoed f = n"
    using split [of "[0..n - 1]"] fin assms(1,2) by (simp add: f cf_n_train_def cf_n_test_def)
qed

section \<open>Properties\<close>

text \<open>
  Walk-forward splitting always returns, and its folds are causal. It succeeds for exactly the valid
  configurations and otherwise raises \<open>WalkForwardError\<close>. The folds are numbered in order; every fold trains
  on a non-empty window that ends exactly where its non-empty validation window begins, inside the series:
  from the start of the series in anchored mode, on exactly \<open>train_window\<close> observations in rolling mode. The
  first fold validates as early as allowed, each fold starts one step after the one before, and no further
  fold would fit.
\<close>
theorem walk_forward_causal:
  shows "\<exists>r. walk_forward_splits n vw mode tw step mt = Some r
     \<and> (case r of
          Inl e \<Rightarrow> e = WalkForwardError \<and> \<not> wf_valid n vw mode tw step mt
        | Inr folds \<Rightarrow> wf_valid n vw mode tw step mt \<and> folds \<noteq> []
            \<and> wf_val_start (hd folds) = wf_first mode tw mt \<and> n \<le> wf_val_start (last folds) + wf_step vw step
            \<and> (\<forall>i < length folds.
                 wf_fold (folds ! i) = int i
                 \<and> 0 \<le> wf_train_start (folds ! i) \<and> wf_train_start (folds ! i) < wf_train_end (folds ! i)
                 \<and> wf_val_start (folds ! i) = wf_train_end (folds ! i)
                 \<and> wf_val_start (folds ! i) < wf_val_end (folds ! i) \<and> wf_val_end (folds ! i) \<le> n
                 \<and> wf_n_val (folds ! i) \<le> vw \<and> mt \<le> wf_n_train (folds ! i)
                 \<and> (if mode = ''anchored'' then wf_train_start (folds ! i) = 0 else tw = Some (wf_n_train (folds ! i)))
                 \<and> (Suc i < length folds \<longrightarrow> wf_val_start (folds ! Suc i) = wf_val_start (folds ! i) + wf_step vw step)))"
proof (cases "wf_valid n vw mode tw step mt")
  case True
  let ?first = "wf_first mode tw mt" and ?st = "wf_step vw step"
  obtain k where k: "walk_forward_splits n vw mode tw step mt = Some (Inr (map (wf_at n vw mode tw ?first ?st) [0..<k]))" "0 < k"
      "\<And>i. i < k \<longleftrightarrow> ?first + int i * ?st < n" by (rule walk_forward_splits_valid [OF True]) blast
  define folds where "folds = map (wf_at n vw mode tw ?first ?st) [0..<k]"
  have len: "length folds = k" by (simp add: folds_def)
  have at: "folds ! i = wf_at n vw mode tw ?first ?st i" if "i < k" for i using that by (simp add: folds_def)
  have ne: "folds \<noteq> []" using k(2) len by auto
  have hd: "wf_val_start (hd folds) = ?first" using hd_conv_nth [OF ne] at [OF k(2)] by (simp add: wf_at_def Let_def)
  obtain j where j: "k = Suc j" using k(2) by (cases k) auto
  have "\<not> ?first + int (Suc j) * ?st < n" using k(3) [of k] j by simp
  then have "n \<le> ?first + int j * ?st + ?st" by (simp add: distrib_right)
  moreover have "last folds = wf_at n vw mode tw ?first ?st j" using last_conv_nth [OF ne] at [of j] by (simp add: len j)
  ultimately have last: "n \<le> wf_val_start (last folds) + ?st" by (simp add: wf_at_def Let_def)
  have fold: "wf_fold (folds ! i) = int i
      \<and> 0 \<le> wf_train_start (folds ! i) \<and> wf_train_start (folds ! i) < wf_train_end (folds ! i)
      \<and> wf_val_start (folds ! i) = wf_train_end (folds ! i)
      \<and> wf_val_start (folds ! i) < wf_val_end (folds ! i) \<and> wf_val_end (folds ! i) \<le> n
      \<and> wf_n_val (folds ! i) \<le> vw \<and> mt \<le> wf_n_train (folds ! i)
      \<and> (if mode = ''anchored'' then wf_train_start (folds ! i) = 0 else tw = Some (wf_n_train (folds ! i)))" if "i < k" for i
    unfolding at [OF that] by (rule wf_at_causal [OF True]) (use that k(3) in simp)
  have step: "wf_val_start (folds ! Suc i) = wf_val_start (folds ! i) + ?st" if "Suc i < k" for i
    using at [of i] at [of "Suc i"] that by (simp add: wf_at_def Let_def algebra_simps)
  have "walk_forward_splits n vw mode tw step mt = Some (Inr folds)" using k(1) by (simp add: folds_def)
  then show ?thesis
    by (rule exI [of _ "Inr folds", OF conjI]) (use True ne hd last fold step in \<open>simp only: sum.case len, blast\<close>)
next
  case False
  then show ?thesis by (simp add: walk_forward_splits_invalid)
qed

theorem walk_forward_causal_witness:
  "walk_forward_splits 10 3 ''rolling'' (Some 4) None 1 =
     Some (Inr [\<lparr>wf_fold = 0, wf_train_start = 0, wf_train_end = 4, wf_val_start = 4, wf_val_end = 7\<rparr>,
                \<lparr>wf_fold = 1, wf_train_start = 3, wf_train_end = 7, wf_val_start = 7, wf_val_end = 10\<rparr>])
   \<and> wf_valid 10 3 ''rolling'' (Some 4) None 1"
proof -
  have h: "walk_forward_splits 10 3 ''rolling'' (Some 4) None 1 =
     Some (Inr [\<lparr>wf_fold = 0, wf_train_start = 0, wf_train_end = 4, wf_val_start = 4, wf_val_end = 7\<rparr>,
                \<lparr>wf_fold = 1, wf_train_start = 3, wf_train_end = 7, wf_val_start = 7, wf_val_end = 10\<rparr>])"
    by code_simp
  show ?thesis using walk_forward_causal [of 10 3 "''rolling''" "Some 4" None 1] h by simp
qed

text \<open>
  C12. Purged combinatorial cross-validation lets no training observation come near a test observation. In
  every fold the test indices are the chosen blocks, and the training indices are exactly the others that
  keep their distance: every test index that follows is more than \<open>purge\<close> away (so that no label window of
  length \<open>purge\<close> reaches into the test set) and every test index that precedes is more than \<open>embargo\<close> away.
  The four counts of the fold add up to the series.
\<close>
theorem cpcv_no_leakage:
  assumes "cpcv_splits n nb k p e = Inr folds" "f \<in> set folds"
  shows "set (cf_test_idx f) = test_area n nb (cf_test_blocks f) \<and> set (cf_test_idx f) \<subseteq> {0..<n}
     \<and> set (cf_train_idx f) =
         {i. 0 \<le> i \<and> i < n \<and> i \<notin> set (cf_test_idx f)
           \<and> (\<forall>t \<in> set (cf_test_idx f). (i < t \<longrightarrow> p < t - i) \<and> (t < i \<longrightarrow> e < i - t))}
     \<and> sorted_wrt (<) (cf_train_idx f) \<and> sorted_wrt (<) (cf_test_idx f)
     \<and> cf_n_train f + cf_n_test f + cf_n_purged f + cf_n_embargoed f = n"
proof -
  note c = cpcv_splits_Inr [OF assms(1)] and nth = cpcv_splits_nth [OF assms(1)]
  obtain i where i: "i < length folds" "f = folds ! i" using assms(2) by (metis in_set_conv_nth)
  define combo where "combo = combinations (nat k) [0..nb - 1] ! i"
  have "combo \<in> set (combinations (nat k) [0..nb - 1])" using i(1) nth(1) by (simp add: combo_def length_combinations)
  then have combo: "set combo \<subseteq> {0..<nb}" using combinations_mem [of combo "nat k" "[0..nb - 1]"] by auto
  have f: "f = cpcv_fold n p e (make_blocks n nb) (int i) combo" using nth(2) i by (simp add: combo_def)
  have "0 < nb" using c(1) by simp
  note fc = cpcv_fold_correct [OF this c(6,4,5) combo]
  have "test_area n nb combo \<subseteq> {0..<n}" "cf_test_blocks f = combo"
      "cf_test_idx f = sorted_list_of_set (test_area n nb combo)"
      "cf_train_idx f = filter (\<lambda>i. i \<notin> test_area n nb combo \<and> keeps_distance p e (test_area n nb combo) i) [0..n - 1]"
      "cf_n_train f + cf_n_test f + cf_n_purged f + cf_n_embargoed f = n"
    unfolding f by (rule fc)+
  moreover from this(1) have "finite (test_area n nb combo)" by (rule finite_subset) simp
  moreover have "sorted_wrt (<) (filter P [0..n - 1])" for P by (intro sorted_wrt_filter) simp
  ultimately show ?thesis by (auto simp: keeps_distance_def)
qed

definition six_folds :: "CPCVFold list" where
  "six_folds = (case cpcv_splits 6 3 1 1 1 of Inr fs \<Rightarrow> fs | Inl e \<Rightarrow> [])"

lemma six_folds_built: "cpcv_splits 6 3 1 1 1 = Inr six_folds"
  by code_simp

text \<open>Six observations in three blocks: when the middle block is tested, only the outermost observations train.\<close>
theorem cpcv_no_leakage_witness:
  "cf_test_idx (six_folds ! 1) = [2, 3] \<and> cf_train_idx (six_folds ! 1) = [0, 5]
   \<and> cf_n_train (six_folds ! 1) + cf_n_test (six_folds ! 1) + cf_n_purged (six_folds ! 1) + cf_n_embargoed (six_folds ! 1) = 6"
proof -
  have "cf_test_idx (six_folds ! 1) = [2, 3]" "cf_train_idx (six_folds ! 1) = [0, 5]" "six_folds ! 1 \<in> set six_folds" by code_simp+
  then show ?thesis using cpcv_no_leakage [OF six_folds_built, of "six_folds ! 1"] by simp
qed

text \<open>
  The folds of purged cross-validation are all the choices of \<open>k_test\<close> blocks, each once, and every
  observation is tested in the same number of folds, the \<open>(n_blocks - 1) choose (k_test - 1)\<close> choices that hold
  its block.
\<close>
theorem cpcv_tests_evenly:
  assumes "cpcv_splits n nb k p e = Inr folds" "0 \<le> i" "i < n"
  shows "length folds = (nat nb choose nat k)
     \<and> length (filter (\<lambda>f. i \<in> set (cf_test_idx f)) folds) = (nat nb - 1 choose (nat k - 1))"
proof -
  note c = cpcv_splits_Inr [OF assms(1)] and nth = cpcv_splits_nth [OF assms(1)]
  let ?xs = "[0..nb - 1]"
  let ?C = "combinations (nat k) ?xs"
  define Q where "Q b \<longleftrightarrow> 0 \<le> b \<and> b < nb \<and> block_start n nb b \<le> i \<and> i < block_start n nb (b + 1)" for b
  have "\<exists>!b. Q b" unfolding Q_def using index_block [of nb i n] c(1) assms(2,3) by simp
  then obtain b where Q: "Q b" "\<And>b'. Q b' \<Longrightarrow> b' = b" by blast
  have b: "0 \<le> b" "b < nb" "block_start n nb b \<le> i" "i < block_start n nb (b + 1)" using Q(1) by (simp_all add: Q_def)
  have unique: "b' = b" if "0 \<le> b' \<and> b' < nb \<and> block_start n nb b' \<le> i \<and> i < block_start n nb (b' + 1)" for b'
    using Q(2) [of b'] that by (simp add: Q_def)
  have tests: "i \<in> set (cf_test_idx (folds ! j)) \<longleftrightarrow> b \<in> set (?C ! j)" if j: "j < length folds" for j
  proof -
    have "?C ! j \<in> set ?C" using j nth(1) by (simp add: length_combinations)
    then have combo: "set (?C ! j) \<subseteq> {0..<nb}" using combinations_mem [of "?C ! j" "nat k" ?xs] by auto
    have "0 < nb" using c(1) by simp
    note fc = cpcv_fold_correct [OF this c(6,4,5) combo]
    have "finite (test_area n nb (?C ! j))" by (rule finite_subset [OF fc(1)]) simp
    then have "set (cf_test_idx (folds ! j)) = test_area n nb (?C ! j)" unfolding nth(2) [OF j] fc(3) by simp
    then have "i \<in> set (cf_test_idx (folds ! j)) \<longleftrightarrow>
        (\<exists>b' \<in> set (?C ! j). block_start n nb b' \<le> i \<and> i < block_start n nb (b' + 1))" by (simp add: test_area_def)
    also have "\<dots> \<longleftrightarrow> b \<in> set (?C ! j)" using b(3,4) unique combo by (metis atLeastLessThan_iff subsetD)
    finally show ?thesis .
  qed
  have "length (filter (\<lambda>f. i \<in> set (cf_test_idx f)) folds) = card {j. j < length folds \<and> i \<in> set (cf_test_idx (folds ! j))}"
    by (rule length_filter_conv_card)
  also have "\<dots> = card {j. j < length ?C \<and> b \<in> set (?C ! j)}"
    using tests nth(1) by (intro arg_cong [of _ _ card]) (auto simp: length_combinations)
  also have "\<dots> = length (filter (\<lambda>c. b \<in> set c) ?C)" by (rule length_filter_conv_card [symmetric])
  also have "\<dots> = (nat nb - 1 choose (nat k - 1))"
    using filter_combinations_count [of ?xs b "nat k - 1"] b c(2) by simp
  finally show ?thesis using nth(1) by simp
qed

theorem cpcv_tests_evenly_witness:
  "length six_folds = 3 \<and> length (filter (\<lambda>f. 4 \<in> set (cf_test_idx f)) six_folds) = 1"
  using cpcv_tests_evenly [OF six_folds_built, of 4] by simp

end
