(* ===== verification/Backoff_Properties.thy ===== *)
theory Backoff_Properties
  imports Backoff_Queue
begin

text \<open>
  Correctness of the rate limiter of \<open>Backoff_Queue\<close>. Each rolling window is described by one invariant on
  the times of all requests ever admitted and the log that is left of them after pruning: the dropped times
  have expired, and an admitted request comes at least a window after the one \<open>limit\<close> places before it.
  Waiting ends because every sleep either brings the deadline a fixed step closer or lets a logged request
  expire for good.
\<close>

section \<open>One rolling window\<close>











section \<open>The queue\<close>

text \<open>The requests admitted so far, with their contracts, oldest first; the log of each window is what is left of them.\<close>

type_synonym admissions = "(string \<times> rat) list"





lemma contract_log_update [simp]:
  "contract_log (q\<lparr>bq_per_contract_log := AList.update key l (bq_per_contract_log q')\<rparr>) k =
     (if k = key then l else contract_log (q\<lparr>bq_per_contract_log := bq_per_contract_log q'\<rparr>) k)"
  by (simp add: contract_log_def)

lemma contract_log_frame [simp]:
  "contract_log (q\<lparr>bq_global_log := g\<rparr>) k = contract_log q k"
  "contract_log (q\<lparr>bq_reads := r\<rparr>) k = contract_log q k"
  "contract_log (q\<lparr>bq_slept := s\<rparr>) k = contract_log q k"
  "contract_log (q\<lparr>bq_concurrent_count := n\<rparr>) k = contract_log q k"
  by (simp_all add: contract_log_def)













section \<open>Runs\<close>

datatype request = Enter string | Leave

text \<open>What a client does: it enters and leaves \<open>with\<close> blocks. Admissions are collected with the time they are logged at.\<close>

fun run_requests :: "MonotonicClock \<Rightarrow> request list \<Rightarrow> BackoffQueue \<times> admissions \<Rightarrow> (BackoffQueue \<times> admissions) option" where
  "run_requests clock [] st = Some st"
| "run_requests clock (Leave # as) (q, H) = run_requests clock as (release q, H)"
| "run_requests clock (Enter key # as) (q, H) =
     (case acquire clock key q of
        None \<Rightarrow> None
      | Some (r, q') \<Rightarrow> run_requests clock as (q', if r = Inr () then H @ [(key, last (bq_global_log q'))] else H))"




section \<open>Waiting ends\<close>













section \<open>Properties\<close>





definition two_in_hundred :: BackoffQueueConfig where
  "two_in_hundred = \<lparr>bc_global_limit = 2, bc_global_window = 100, bc_per_contract_limit = 2, bc_per_contract_window = 1,
                 bc_concurrent_limit = 5, bc_acquire_timeout_seconds = 200\<rparr>"









text \<open>
  The limits do not survive a clock that stands still, which the documented contract of the clock allows.
  Pruning keeps a request that is exactly one window old, while the wait it imposes is already zero: with a
  limit of two requests in a hundred seconds and a clock that only moves by sleeping, five requests in a row are
  admitted at the times 0, 0, 100, 100 and 100, three of them inside one window.
\<close>
theorem backoff_boundary_overshoot:
  "(case run_requests (\<lambda>n s. s) (map Enter [''A'', ''B'', ''C'', ''D'', ''E'']) (BackoffQueue_init two_in_hundred, []) of
      Some (q, H) \<Rightarrow> map snd H = [0, 0, 100, 100, 100]
        \<and> length (filter (\<lambda>(k, x). 100 - bc_global_window two_in_hundred < x \<and> x \<le> 100) H) = 3
    | None \<Rightarrow> False)
   \<and> bc_global_limit two_in_hundred = 2"
  by code_simp

end
