(* ===== verification/Portfolio_Engine.thy ===== *)
theory Portfolio_Engine
  imports Backtest_Engine
begin

text \<open>
  The multi-contract backtest (\<open>src/futur3/engine/portfolio_backtest.py\<close>) and the inverse-volatility leg
  weights it uses (\<open>src/futur3/execution/vol_parity.py\<close>). As for the single-stream engine, the local
  variables of \<open>run\<close> are a record whose broker component is driven through a \<open>broker_ops\<close> table; marking,
  netting and placing are the definitions of \<open>Backtest_Engine\<close>, as the code shares them. A mapping of
  streams is an association list in insertion order; a cross-sectional strategy is a function of the
  histories of all streams and the context. The axis of dates is the sorted list of bars cut into groups of
  one date. A decimal power of two is the rounded product, and a decimal square root is rounded half to
  even at the precision of the context.
\<close>

section \<open>Inverse-volatility weights\<close>

definition MIN_VOL_OBS :: nat where
  "MIN_VOL_OBS = 2"

text \<open>\<open>Decimal.sqrt\<close> of a non-negative value, to 28 digits.\<close>

definition dsqrt :: "decimal \<Rightarrow> decimal" where
  "dsqrt x = radix_sqrt 10 28 x"

definition stdev :: "decimal list \<Rightarrow> decimal option res" where
  "stdev returns =
     (if length returns < MIN_VOL_OBS then Inr None
      else bindE (ddiv (dsum returns) (dint (int (length returns)))) (\<lambda>mean.
           bindE (ddiv (dsum (map (\<lambda>r. dmul (dsub r mean) (dsub r mean)) returns)) (dint (int (length returns) - 1))) (\<lambda>var.
             Inr (if var > 0 then Some (dsqrt var) else None))))"

definition inverse_vol :: "decimal list \<Rightarrow> decimal option res" where
  "inverse_vol returns =
     bindE (stdev returns) (\<lambda>sd. case sd of None \<Rightarrow> Inr None | Some s \<Rightarrow> bindE (ddiv 1 s) (\<lambda>x. Inr (Some x)))"

definition inverse_vol_weights :: "('k \<times> decimal list) list \<Rightarrow> ('k \<times> decimal) list res" where
  "inverse_vol_weights returns_by_key =
     (if returns_by_key = [] then Inr []
      else bindE (traverse (\<lambda>(key, rets). bindE (inverse_vol rets) (\<lambda>x. Inr (key, x))) returns_by_key) (\<lambda>inv.
        let finite_inv = map the (filter (\<lambda>x. x \<noteq> None) (map snd inv))
        in if finite_inv = [] then Inr (map (\<lambda>(key, _). (key, 1)) returns_by_key)
           else bindE (ddiv (dsum finite_inv) (dint (int (length finite_inv)))) (\<lambda>neutral.
             let raw = map (\<lambda>(key, x). (key, case x of None \<Rightarrow> neutral | Some v \<Rightarrow> v)) inv
             in bindE (ddiv (dsum (map snd raw)) (dint (int (length raw)))) (\<lambda>mean_raw.
                  traverse (\<lambda>(key, x). bindE (ddiv x mean_raw) (\<lambda>w. Inr (key, w))) raw))))"

section \<open>The engine\<close>

type_synonym histories = "(ContractSymbol \<times> VerifiedBar list) list"
type_synonym CrossSectionalStrategy = "histories \<Rightarrow> RuntimeContext \<Rightarrow> (ContractSymbol \<times> Signal) list res"

record PortfolioBacktestEngine =
  pe_ctx :: RuntimeContext
  pe_strategy :: CrossSectionalStrategy
  pe_risk :: sizer
  pe_slippage :: "SlippageModel option"
  pe_target_position :: bool
  pe_risk_parity :: bool
  pe_vol_lookback :: nat
  pe_rolls_by_date :: "(date \<times> RollEvent list) list"

definition group_roll :: "(date \<times> RollEvent list) list \<Rightarrow> RollEvent \<Rightarrow> (date \<times> RollEvent list) list" where
  "group_roll d e = group_add (ev_roll_date e) e d"

definition PortfolioBacktestEngine_init ::
  "RuntimeContext \<Rightarrow> CrossSectionalStrategy \<Rightarrow> sizer \<Rightarrow> SlippageModel option \<Rightarrow> bool \<Rightarrow> RollEvent list \<Rightarrow> bool \<Rightarrow> nat \<Rightarrow>
   PortfolioBacktestEngine" where
  "PortfolioBacktestEngine_init ctx strategy risk slippage target_position roll_events risk_parity vol_lookback =
     \<lparr>pe_ctx = ctx, pe_strategy = strategy, pe_risk = risk, pe_slippage = slippage, pe_target_position = target_position,
      pe_risk_parity = risk_parity, pe_vol_lookback = vol_lookback, pe_rolls_by_date = foldl group_roll [] roll_events\<rparr>"

text \<open>\<open>bars[-(lookback + 1):]\<close> is the whole list when it is shorter; a lookback is a count.\<close>

definition trailing_returns :: "VerifiedBar list \<Rightarrow> nat \<Rightarrow> decimal list res" where
  "trailing_returns bars lookback = price_returns (map vb_close (drop (length bars - (lookback + 1)) bars))"

definition leg_weights ::
  "PortfolioBacktestEngine \<Rightarrow> (ContractSymbol \<times> Signal) list \<Rightarrow> histories \<Rightarrow> (ContractSymbol \<times> decimal) list option res" where
  "leg_weights eng signals history =
     (if \<not> pe_risk_parity eng then Inr None
      else bindE (traverse (\<lambda>(key, _). case map_of history key of
                     None \<Rightarrow> Inl KeyError
                   | Some bars \<Rightarrow> bindE (trailing_returns bars (pe_vol_lookback eng)) (\<lambda>rs. Inr (key, rs))) signals) (\<lambda>returns.
           bindE (inverse_vol_weights returns) (\<lambda>ws. Inr (Some ws))))"

fun roll_all :: "'s broker_ops \<Rightarrow> RollEvent list \<Rightarrow> nat \<times> decimal \<Rightarrow> 's \<Rightarrow> (nat \<times> decimal) res \<times> 's" where
  "roll_all ops [] (rolled_total, cost_total) s = (Inr (rolled_total, cost_total), s)"
| "roll_all ops (event # events) (rolled_total, cost_total) s =
     bindS (bo_roll ops (ev_old_contract event) (ev_new_contract event) (ev_front_settle event) (ev_back_settle event) s)
       (\<lambda>rolled s1.
          if rolled = 0 then roll_all ops events (rolled_total, cost_total) s1
          else case multiplier_for (ev_new_contract event) of
            Inl e \<Rightarrow> (Inl e, s1)
          | Inr multiplier \<Rightarrow>
              roll_all ops events
                (rolled_total + 1,
                 dadd cost_total (dmul (dmul (dsub (ev_back_settle event) (ev_front_settle event)) (dint rolled)) multiplier)) s1)"

definition execute_rolls :: "PortfolioBacktestEngine \<Rightarrow> 's broker_ops \<Rightarrow> date \<Rightarrow> 's \<Rightarrow> (nat \<times> decimal) res \<times> 's" where
  "execute_rolls eng ops d s =
     (case map_of (pe_rolls_by_date eng) d of
        None \<Rightarrow> (Inr (0, 0), s)
      | Some events \<Rightarrow> roll_all ops events (0, 0) s)"

definition resolve_leg ::
  "PortfolioBacktestEngine \<Rightarrow> SizingDecision \<Rightarrow> Signal \<Rightarrow> Position list \<Rightarrow> ContractSymbol \<Rightarrow> (Side \<times> int) option" where
  "resolve_leg eng decision signal positions contract =
     (if pe_target_position eng then
        (let target = (if sg_direction signal > 0 then sd_contracts decision else - sd_contracts decision);
             delta = target - net_position positions contract
         in if delta = 0 then None else Some (if delta > 0 then BUY else SELL, \<bar>delta\<bar>))
      else Some (if sg_direction signal > 0 then BUY else SELL, sd_contracts decision))"

definition flatten_leg :: "'s broker_ops \<Rightarrow> ContractSymbol \<Rightarrow> Position list \<Rightarrow> 's \<Rightarrow> bool res \<times> 's" where
  "flatten_leg ops contract positions s =
     (let net = net_position positions contract
      in if net = 0 then (Inr False, s)
         else place_if_allowed ops contract (if net > 0 then SELL else BUY) \<bar>net\<bar> (''flat@'' @ contract) s)"

text \<open>One leg: whether an order was placed.\<close>

definition place_leg ::
  "PortfolioBacktestEngine \<Rightarrow> 's broker_ops \<Rightarrow> Position list \<Rightarrow> (ContractSymbol \<times> decimal) list \<Rightarrow> decimal \<Rightarrow>
   (ContractSymbol \<times> decimal) list option \<Rightarrow> ContractSymbol \<times> Signal \<Rightarrow> 's \<Rightarrow> bool res \<times> 's" where
  "place_leg eng ops positions last_close mtm_equity weights leg s =
     (case leg of (key, signal) \<Rightarrow>
       (case map_of last_close (sg_contract signal) of
          None \<Rightarrow> (Inr False, s)
        | Some price \<Rightarrow>
            if sg_direction signal = 0 then
              (if pe_target_position eng then flatten_leg ops (sg_contract signal) positions s else (Inr False, s))
            else
              (let kelly = (case weights of
                              None \<Rightarrow> sg_full_kelly_fraction signal
                            | Some ws \<Rightarrow> dmul (sg_full_kelly_fraction signal)
                                           (case map_of ws key of None \<Rightarrow> 1 | Some w \<Rightarrow> w))
               in case pe_risk eng (sg_contract signal) kelly mtm_equity price None None of
                    Inl e \<Rightarrow> (Inl e, s)
                  | Inr decision \<Rightarrow>
                      if sd_contracts decision \<le> 0 then (Inr False, s)
                      else case resolve_leg eng decision signal positions (sg_contract signal) of
                        None \<Rightarrow> (Inr False, s)
                      | Some (side, quantity) \<Rightarrow>
                          place_if_allowed ops (sg_contract signal) side quantity
                            (sg_strategy_id signal @ ''@'' @ dt_isoformat (sg_ts signal) @ ''#'' @ sg_contract signal) s)))"

fun place_legs ::
  "('s \<Rightarrow> bool res \<times> 's) list \<Rightarrow> nat \<Rightarrow> 's \<Rightarrow> nat res \<times> 's" where
  "place_legs [] orders s = (Inr orders, s)"
| "place_legs (leg # legs) orders s =
     bindS (leg s) (\<lambda>placed s1. place_legs legs (if placed then orders + 1 else orders) s1)"

definition place_signals ::
  "PortfolioBacktestEngine \<Rightarrow> 's broker_ops \<Rightarrow> (ContractSymbol \<times> Signal) list \<Rightarrow> Position list \<Rightarrow>
   (ContractSymbol \<times> decimal) list \<Rightarrow> decimal \<Rightarrow> (ContractSymbol \<times> decimal) list option \<Rightarrow> 's \<Rightarrow> nat res \<times> 's" where
  "place_signals eng ops signals positions last_close mtm_equity weights =
     place_legs (map (place_leg eng ops positions last_close mtm_equity weights)
                   (sort_key (\<lambda>(key, signal). sg_contract signal) signals)) 0"

subsection \<open>The axis of dates\<close>

type_synonym stream_bar = "ContractSymbol \<times> VerifiedBar"

abbreviation bar_date :: "stream_bar \<Rightarrow> date" where
  "bar_date kb \<equiv> dt_date (vb_ts (snd kb))"

text \<open>
  \<open>sorted\<close> by date, then stream: sorting is stable, so the order by pairs is the order by date of the list
  ordered by stream.
\<close>

definition indexed_bars :: "histories \<Rightarrow> stream_bar list" where
  "indexed_bars hs = sort_key bar_date (sort_key fst (concat (map (\<lambda>(key, bars). map (Pair key) bars) hs)))"

text \<open>\<open>groupby\<close> on a list: runs of consecutive bars of one date.\<close>

function group_dates :: "stream_bar list \<Rightarrow> (date \<times> stream_bar list) list" where
  "group_dates [] = []"
| "group_dates (b # bs) =
     (bar_date b, b # takeWhile (\<lambda>c. bar_date c = bar_date b) bs)
       # group_dates (dropWhile (\<lambda>c. bar_date c = bar_date b) bs)"
  by pat_completeness auto
termination by (relation "measure length") (auto simp: le_imp_less_Suc length_dropWhile_le)

record 's portfolio_state =
  pf_broker :: 's
  pf_history :: histories
  pf_last_close :: "(ContractSymbol \<times> decimal) list"
  pf_curve :: "decimal list"
  pf_signals :: nat
  pf_orders :: nat
  pf_fills :: nat
  pf_rolls :: nat
  pf_roll_cost :: decimal

definition on_broker :: "('s \<Rightarrow> 'a res \<times> 's) \<Rightarrow> 's portfolio_state \<Rightarrow> 'a res \<times> 's portfolio_state" where
  "on_broker m st = (let (r, s) = m (pf_broker st) in (r, st\<lparr>pf_broker := s\<rparr>))"

fun advance_bars :: "PortfolioBacktestEngine \<Rightarrow> 's broker_ops \<Rightarrow> stream_bar list \<Rightarrow> 's portfolio_state \<Rightarrow> unit res \<times> 's portfolio_state" where
  "advance_bars eng ops [] st = (Inr (), st)"
| "advance_bars eng ops ((key, bar) # bars) st =
     bindS (on_broker (bo_advance ops bar (pe_slippage eng)) st) (\<lambda>events st1.
       advance_bars eng ops bars
         (st1\<lparr>pf_fills := pf_fills st1 + length events,
              pf_last_close := AList.update (vb_contract bar) (vb_close bar) (pf_last_close st1),
              pf_history := AList.update key
                ((case map_of (pf_history st1) key of None \<Rightarrow> [] | Some bs \<Rightarrow> bs) @ [bar]) (pf_history st1)\<rparr>))"

definition decide_date ::
  "PortfolioBacktestEngine \<Rightarrow> 's broker_ops \<Rightarrow> Position list \<Rightarrow> decimal \<Rightarrow> 's portfolio_state \<Rightarrow> unit res \<times> 's portfolio_state" where
  "decide_date eng ops positions mtm_equity st =
     (case pe_strategy eng (pf_history st) (pe_ctx eng) of
        Inl e \<Rightarrow> (Inl e, st)
      | Inr signals \<Rightarrow>
          if signals = [] then (Inr (), st)
          else (let st1 = st\<lparr>pf_signals := pf_signals st + length signals\<rparr>
                in case leg_weights eng signals (pf_history st1) of
                     Inl e \<Rightarrow> (Inl e, st1)
                   | Inr weights \<Rightarrow>
                       bindS (on_broker (place_signals eng ops signals positions (pf_last_close st1) mtm_equity weights) st1)
                         (\<lambda>n st2. (Inr (), st2\<lparr>pf_orders := pf_orders st2 + n\<rparr>))))"

definition mark_date :: "'s broker_ops \<Rightarrow> 's portfolio_state \<Rightarrow> (Position list \<times> decimal) res \<times> 's portfolio_state" where
  "mark_date ops st =
     bindS (on_broker (bo_metrics ops) st) (\<lambda>metrics st1.
       let positions = bo_positions ops (pf_broker st1)
       in case mark_to_market (am_equity metrics) positions (pf_last_close st1) of
            Inl e \<Rightarrow> (Inl e, st1)
          | Inr mtm_equity \<Rightarrow> (Inr (positions, mtm_equity), st1\<lparr>pf_curve := pf_curve st1 @ [mtm_equity]\<rparr>))"

definition date_step ::
  "PortfolioBacktestEngine \<Rightarrow> 's broker_ops \<Rightarrow> date \<times> stream_bar list \<Rightarrow> 's portfolio_state \<Rightarrow> unit res \<times> 's portfolio_state" where
  "date_step eng ops g st =
     bindS (advance_bars eng ops (snd g) st) (\<lambda>_ st1.
     bindS (on_broker (execute_rolls eng ops (fst g)) st1) (\<lambda>(rolled_n, roll_cost) st2.
     bindS (mark_date ops (st2\<lparr>pf_rolls := pf_rolls st2 + rolled_n, pf_roll_cost := dadd (pf_roll_cost st2) roll_cost\<rparr>))
       (\<lambda>(positions, mtm_equity) st3.
          if mtm_equity \<le> 0 then (Inr (), st3) else decide_date eng ops positions mtm_equity st3)))"

fun date_loop ::
  "PortfolioBacktestEngine \<Rightarrow> 's broker_ops \<Rightarrow> (date \<times> stream_bar list) list \<Rightarrow> 's portfolio_state \<Rightarrow> unit res \<times> 's portfolio_state" where
  "date_loop eng ops [] st = (Inr (), st)"
| "date_loop eng ops (g # gs) st = bindS (date_step eng ops g st) (\<lambda>_ st1. date_loop eng ops gs st1)"

definition portfolio_start :: "histories \<Rightarrow> 's \<Rightarrow> 's portfolio_state" where
  "portfolio_start hs s =
     \<lparr>pf_broker = s, pf_history = map (\<lambda>(key, _). (key, [])) hs, pf_last_close = [], pf_curve = [], pf_signals = 0,
      pf_orders = 0, pf_fills = 0, pf_rolls = 0, pf_roll_cost = 0\<rparr>"

definition portfolio_run :: "PortfolioBacktestEngine \<Rightarrow> 's broker_ops \<Rightarrow> histories \<Rightarrow> 's \<Rightarrow> RunResult res \<times> 's" where
  "portfolio_run eng ops hs s =
     map_prod id pf_broker
       (bindS (date_loop eng ops (group_dates (indexed_bars hs)) (portfolio_start hs s)) (\<lambda>_ st.
        bindS (on_broker (bo_metrics ops) st) (\<lambda>final_metrics st1.
          (Inr \<lparr>rr_bars_processed = length (indexed_bars hs), rr_signals_generated = pf_signals st1,
                rr_orders_placed = pf_orders st1, rr_fills = pf_fills st1,
                rr_final_equity = (if pf_curve st1 \<noteq> [] then last (pf_curve st1) else am_equity final_metrics),
                rr_realized_pnl = am_realized_pnl_today final_metrics,
                rr_final_positions = bo_positions ops (pf_broker st1), rr_equity_curve = pf_curve st1,
                rr_survival_capped_bars = 0, rr_rolls_executed = pf_rolls st1,
                rr_total_roll_cost = pf_roll_cost st1, rr_trade_pnls = bo_trade_pnls ops (pf_broker st1)\<rparr>, st1))))"

end
