(* ===== verification/Portfolio_Properties.thy ===== *)
theory Portfolio_Properties
  imports Portfolio_Engine Engine_Properties
begin

text \<open>
  What the multi-contract loop guarantees. The bars up to a date are a prefix of the date axis, so a run on
  histories cut at that date is a prefix of the whole run; the equity curve has one point per date; and the
  broker is only driven through its methods, which the locale of the broker interface gives for every class
  of broker.
\<close>

section \<open>The axis of dates\<close>

text \<open>The histories a run sees when nothing after date \<open>D\<close> has happened yet.\<close>

definition truncated :: "date \<Rightarrow> histories \<Rightarrow> histories" where
  "truncated D hs = map (\<lambda>(key, bars). (key, filter (\<lambda>b. dt_date (vb_ts b) \<le> D) bars)) hs"

definition bar_dates :: "histories \<Rightarrow> date set" where
  "bar_dates hs = (\<Union>(key, bars) \<in> set hs. (\<lambda>b. dt_date (vb_ts b)) ` set bars)"

lemma indexed_bars_truncated: "indexed_bars (truncated D hs) = filter (\<lambda>b. bar_date b \<le> D) (indexed_bars hs)"
proof -
  have "concat (map (\<lambda>(key, bars). map (Pair key) bars) (truncated D hs)) =
        filter (\<lambda>b. bar_date b \<le> D) (concat (map (\<lambda>(key, bars). map (Pair key) bars) hs))"
    by (induction hs) (auto simp: truncated_def filter_map o_def)
  then show ?thesis by (simp add: indexed_bars_def filter_sort)
qed

lemma sorted_indexed_bars: "sorted (map bar_date (indexed_bars hs))"
  by (simp add: indexed_bars_def)

lemma set_indexed_bars: "bar_date ` set (indexed_bars hs) = bar_dates hs"
  by (force simp: indexed_bars_def bar_dates_def)

lemma sorted_split:
  "sorted (map f xs) \<Longrightarrow> xs = filter (\<lambda>x. f x \<le> (D :: int)) xs @ filter (\<lambda>x. \<not> f x \<le> D) xs"
proof (induction xs)
  case (Cons a xs)
  show ?case
  proof (cases "f a \<le> D")
    case False
    then have "\<forall>x \<in> set (a # xs). \<not> f x \<le> D" using Cons.prems by auto
    then have "filter (\<lambda>x. f x \<le> D) (a # xs) = []" "filter (\<lambda>x. \<not> f x \<le> D) (a # xs) = a # xs"
      unfolding filter_empty_conv filter_id_conv by blast+
    then show ?thesis by simp
  qed (use Cons in simp)
qed simp

lemma while_append_stop:
  "takeWhile P ys = [] \<Longrightarrow> takeWhile P (xs @ ys) = takeWhile P xs"
  "dropWhile P ys = ys \<Longrightarrow> dropWhile P (xs @ ys) = dropWhile P xs @ ys"
  by (induction xs) auto

lemma group_dates_append:
  assumes "\<And>x y. x \<in> set xs \<Longrightarrow> y \<in> set ys \<Longrightarrow> bar_date x \<noteq> bar_date y"
  shows "group_dates (xs @ ys) = group_dates xs @ group_dates ys"
  using assms
proof (induction xs rule: group_dates.induct)
  case (2 b bs)
  let ?P = "\<lambda>c. bar_date c = bar_date b"
  have ys: "takeWhile ?P ys = []" "dropWhile ?P ys = ys"
  proof -
    have no: "\<not> ?P y" if "y \<in> set ys" for y using "2.prems" [of b y] that by auto
    show "takeWhile ?P ys = []" using no by (cases ys) simp_all
    show "dropWhile ?P ys = ys" using no by (cases ys) simp_all
  qed
  have split: "takeWhile ?P (bs @ ys) = takeWhile ?P bs" "dropWhile ?P (bs @ ys) = dropWhile ?P bs @ ys"
    using while_append_stop(1) [OF ys(1)] while_append_stop(2) [OF ys(2)] by blast+
  have "group_dates (dropWhile ?P bs @ ys) = group_dates (dropWhile ?P bs) @ group_dates ys"
    by (rule "2.IH") (meson "2.prems" list.set_intros(2) set_dropWhileD)
  then show ?case using split by simp
qed simp

lemma group_dates_length:
  "sorted (map bar_date bs) \<Longrightarrow> length (group_dates bs) = card (bar_date ` set bs)"
proof (induction bs rule: group_dates.induct)
  case (2 b bs)
  let ?P = "\<lambda>c. bar_date c = bar_date b"
  let ?rest = "dropWhile ?P bs"
  have "sorted (map bar_date (takeWhile ?P bs @ ?rest))" using "2.prems" by simp
  then have sr: "sorted (map bar_date ?rest)" by (simp only: map_append sorted_append)
  have later: "bar_date c \<noteq> bar_date b" if "c \<in> set ?rest" for c
  proof -
    have ne: "?rest \<noteq> []" using that by (metis empty_iff empty_set)
    then obtain d ds where d: "?rest = d # ds" by (meson neq_Nil_conv)
    have "\<not> ?P (hd ?rest)" by (rule hd_dropWhile [OF ne])
    then have "\<not> ?P d" unfolding d list.sel .
    moreover have "bar_date b \<le> bar_date d" using "2.prems" d set_dropWhileD [of d ?P bs] by auto
    moreover have "bar_date d \<le> bar_date c" using sr that d by auto
    ultimately show ?thesis by linarith
  qed
  have "set bs = set (takeWhile ?P bs) \<union> set ?rest" by (metis set_append takeWhile_dropWhile_id)
  then have "bar_date ` set (b # bs) = insert (bar_date b) (bar_date ` set (takeWhile ?P bs) \<union> bar_date ` set ?rest)"
    by (simp only: list.set image_insert image_Un)
  moreover have "bar_date ` set (takeWhile ?P bs) \<subseteq> {bar_date b}"
  proof (rule image_subsetI)
    fix c assume "c \<in> set (takeWhile ?P bs)"
    then have "bar_date c = bar_date b" by (rule conjunct2 [OF set_takeWhileD])
    then show "bar_date c \<in> {bar_date b}" by (simp only: singleton_iff)
  qed
  moreover have "insert x (A \<union> B) = insert x B" if "A \<subseteq> {x}" for x :: date and A B using that by auto
  ultimately have dates: "bar_date ` set (b # bs) = insert (bar_date b) (bar_date ` set ?rest)" by metis
  have "bar_date b \<notin> bar_date ` set ?rest"
  proof
    assume "bar_date b \<in> bar_date ` set ?rest"
    then obtain c where "c \<in> set ?rest" "bar_date b = bar_date c" by (elim imageE)
    then show False using later by metis
  qed
  then have "card (bar_date ` set (b # bs)) = Suc (card (bar_date ` set ?rest))"
    unfolding dates by (rule card_insert_disjoint [OF finite_imageI [OF finite_set]])
  then show ?case using "2.IH" [OF sr] by (simp only: group_dates.simps length_Cons)
qed simp

lemma group_dates_truncated:
  "group_dates (indexed_bars hs) =
     group_dates (indexed_bars (truncated D hs)) @ group_dates (filter (\<lambda>b. \<not> bar_date b \<le> D) (indexed_bars hs))"
proof -
  have "group_dates (indexed_bars hs) =
      group_dates (filter (\<lambda>b. bar_date b \<le> D) (indexed_bars hs) @ filter (\<lambda>b. \<not> bar_date b \<le> D) (indexed_bars hs))"
    using sorted_split [OF sorted_indexed_bars, of hs D] by simp
  also have "\<dots> = group_dates (filter (\<lambda>b. bar_date b \<le> D) (indexed_bars hs)) @ group_dates (filter (\<lambda>b. \<not> bar_date b \<le> D) (indexed_bars hs))"
    by (rule group_dates_append) auto
  finally show ?thesis by (simp add: indexed_bars_truncated)
qed

section \<open>The loop\<close>

lemma on_broker_simps [simp]:
  "fst (on_broker m st) = fst (m (pf_broker st))"
  "snd (on_broker m st) = st\<lparr>pf_broker := snd (m (pf_broker st))\<rparr>"
  by (simp_all add: on_broker_def split: prod.splits)

lemma on_broker_eq: "on_broker m st = (r, st') \<longleftrightarrow> (\<exists>s. m (pf_broker st) = (r, s) \<and> st' = st\<lparr>pf_broker := s\<rparr>)"
  by (auto simp: on_broker_def split: prod.splits)

lemma date_loop_append:
  "date_loop eng ops (xs @ ys) st = bindS (date_loop eng ops xs st) (\<lambda>_ st1. date_loop eng ops ys st1)"
proof (induction xs arbitrary: st)
  case (Cons x xs)
  then show ?case by (cases "date_step eng ops x st"; cases "fst (date_step eng ops x st)") auto
qed simp

lemma advance_bars_curve: "advance_bars eng ops bars st = (Inr u, st') \<Longrightarrow> pf_curve st' = pf_curve st"
proof (induction bars arbitrary: st)
  case (Cons kb bars)
  obtain key bar where kb: "kb = (key, bar)" by (cases kb)
  then obtain events st1 where a: "on_broker (bo_advance ops bar (pe_slippage eng)) st = (Inr events, st1)"
    and rest: "advance_bars eng ops bars
         (st1\<lparr>pf_fills := pf_fills st1 + length events,
              pf_last_close := AList.update (vb_contract bar) (vb_close bar) (pf_last_close st1),
              pf_history := AList.update key
                ((case map_of (pf_history st1) key of None \<Rightarrow> [] | Some bs \<Rightarrow> bs) @ [bar]) (pf_history st1)\<rparr>) = (Inr u, st')"
    using Cons.prems by (auto simp: bindS_Inr_iff)
  show ?case using Cons.IH [OF rest] a by (auto simp: on_broker_eq)
qed simp

lemma mark_date_curve:
  assumes "mark_date ops st = (Inr (ps, m), st')"
  shows "pf_curve st' = pf_curve st @ [m]"
proof -
  obtain x s where x: "bo_metrics ops (pf_broker st) = (Inr x, s)"
    using assms by (auto simp: mark_date_def bindS_Inr_iff on_broker_eq)
  show ?thesis
    using assms x
    by (cases "mark_to_market (am_equity x) (bo_positions ops s) (pf_last_close st)")
       (auto simp: mark_date_def Let_def on_broker_def)
qed

lemma decide_date_curve: "decide_date eng ops ps m st = (Inr u, st') \<Longrightarrow> pf_curve st' = pf_curve st"
  by (auto simp: decide_date_def Let_def bindS_Inr_iff on_broker_eq split: sum.splits if_splits)

lemma date_step_curve:
  assumes "date_step eng ops g st = (Inr u, st')"
  shows "\<exists>m. pf_curve st' = pf_curve st @ [m]"
proof -
  obtain st1 n c st2 ps m st3 where a: "advance_bars eng ops (snd g) st = (Inr (), st1)"
    and r: "on_broker (execute_rolls eng ops (fst g)) st1 = (Inr (n, c), st2)"
    and mk: "mark_date ops (st2\<lparr>pf_rolls := pf_rolls st2 + n, pf_roll_cost := dadd (pf_roll_cost st2) c\<rparr>) = (Inr (ps, m), st3)"
    and d: "(if m \<le> 0 then (Inr (), st3) else decide_date eng ops ps m st3) = (Inr u, st')"
    using assms by (auto simp: date_step_def bindS_Inr_iff)
  have "pf_curve st2 = pf_curve st" using advance_bars_curve [OF a] r by (auto simp: on_broker_eq)
  moreover have "pf_curve st3 = pf_curve st2 @ [m]" using mark_date_curve [OF mk] by simp
  moreover have "pf_curve st' = pf_curve st3" using d decide_date_curve by (auto split: if_splits)
  ultimately show ?thesis by simp
qed

lemma date_loop_curve:
  "date_loop eng ops gs st = (Inr u, st') \<Longrightarrow> \<exists>ms. pf_curve st' = pf_curve st @ ms \<and> length ms = length gs"
proof (induction gs arbitrary: st)
  case (Cons g gs)
  then obtain st1 where s: "date_step eng ops g st = (Inr (), st1)" "date_loop eng ops gs st1 = (Inr u, st')"
    by (auto simp: bindS_Inr_iff)
  then show ?case using date_step_curve [OF s(1)] Cons.IH [OF s(2)] by fastforce
qed simp

section \<open>The broker under the loop\<close>

context engine_broker
begin

abbreviation pf_grows :: "MockBroker \<Rightarrow> 's portfolio_state \<Rightarrow> bool" where
  "pf_grows b st \<equiv> broker_step\<^sup>*\<^sup>* b (book (pf_broker st))"

lemmas pf_bind = bindS_state [where P = "pf_grows b" for b] bindS_state [where P = "\<lambda>s. broker_step\<^sup>*\<^sup>* b (book s)" for b]

lemma advance_bars_steps: "pf_grows b st \<Longrightarrow> pf_grows b (snd (advance_bars eng ops bars st))"
proof (induction bars arbitrary: st)
  case (Cons kb bars)
  then show ?case by (cases kb) (auto intro!: pf_bind intro: advance_steps)
qed simp

lemma roll_all_steps: "broker_step\<^sup>*\<^sup>* b (book s) \<Longrightarrow> broker_step\<^sup>*\<^sup>* b (book (snd (roll_all ops events acc s)))"
proof (induction events arbitrary: acc s)
  case (Cons e events)
  then show ?case by (cases acc) (auto intro!: pf_bind intro: roll_steps split: sum.split)
next
  case Nil
  then show ?case by (cases acc) simp
qed

lemma execute_rolls_steps: "broker_step\<^sup>*\<^sup>* b (book s) \<Longrightarrow> broker_step\<^sup>*\<^sup>* b (book (snd (execute_rolls eng ops d s)))"
  by (auto simp: execute_rolls_def intro: roll_all_steps split: option.split)

lemma place_leg_steps:
  "broker_step\<^sup>*\<^sup>* b (book s) \<Longrightarrow> broker_step\<^sup>*\<^sup>* b (book (snd (place_leg eng ops ps lc m ws leg s)))"
  by (cases leg) (auto simp: place_leg_def flatten_leg_def Let_def intro: place_if_allowed_steps split: option.split sum.split prod.split)

lemma place_legs_steps:
  assumes "\<And>leg s. leg \<in> set legs \<Longrightarrow> broker_step\<^sup>*\<^sup>* b (book s) \<Longrightarrow> broker_step\<^sup>*\<^sup>* b (book (snd (leg s)))"
    and "broker_step\<^sup>*\<^sup>* b (book s)"
  shows "broker_step\<^sup>*\<^sup>* b (book (snd (place_legs legs n s)))"
  using assms by (induction legs arbitrary: n s) (auto intro!: pf_bind)

lemma decide_date_steps: "pf_grows b st \<Longrightarrow> pf_grows b (snd (decide_date eng ops ps m st))"
  unfolding decide_date_def Let_def place_signals_def
  by (auto intro!: pf_bind place_legs_steps place_leg_steps split: sum.split)

lemma mark_date_steps: "pf_grows b st \<Longrightarrow> pf_grows b (snd (mark_date ops st))"
  unfolding mark_date_def Let_def by (auto intro!: pf_bind split: sum.split)

lemma date_step_steps: "pf_grows b st \<Longrightarrow> pf_grows b (snd (date_step eng ops g st))"
  unfolding date_step_def
  by (auto intro!: pf_bind advance_bars_steps execute_rolls_steps mark_date_steps decide_date_steps split: prod.split)

lemma date_loop_steps: "pf_grows b st \<Longrightarrow> pf_grows b (snd (date_loop eng ops gs st))"
  by (induction gs arbitrary: st) (auto intro!: pf_bind date_step_steps)

lemma portfolio_run_loop:
  assumes "date_loop eng ops (group_dates (indexed_bars hs)) (portfolio_start hs s) = (Inr (), st)" "broker_inv (book s)"
  shows "\<exists>r s'. portfolio_run eng ops hs s = (Inr r, s') \<and> rr_equity_curve r = pf_curve st"
proof -
  have "broker_step\<^sup>*\<^sup>* (book s) (book (pf_broker st))"
    using date_loop_steps [of "book s" "portfolio_start hs s"] assms(1) by (metis portfolio_start_def portfolio_state.select_convs(1) rtranclp.rtrancl_refl snd_conv)
  then have "broker_inv (book (pf_broker st))" using steps_inv assms(2) by blast
  from metrics_total [OF this] obtain m where "fst (bo_metrics ops (pf_broker st)) = Inr m" by auto
  then obtain s1 where "bo_metrics ops (pf_broker st) = (Inr m, s1)" by (metis prod.collapse)
  then show ?thesis using assms(1) by (simp add: portfolio_run_def on_broker_def)
qed

end

lemma portfolio_run_Inr:
  assumes "portfolio_run eng ops hs s = (Inr r, s')"
  obtains st where "date_loop eng ops (group_dates (indexed_bars hs)) (portfolio_start hs s) = (Inr (), st)"
    "rr_equity_curve r = pf_curve st"
proof -
  obtain u st where u: "date_loop eng ops (group_dates (indexed_bars hs)) (portfolio_start hs s) = (u, st)" by fastforce
  then have "u = Inr ()" using assms by (cases u) (auto simp: portfolio_run_def)
  moreover obtain q s1 where "bo_metrics ops (pf_broker st) = (q, s1)" by fastforce
  ultimately show thesis using that u assms by (cases q) (auto simp: portfolio_run_def on_broker_def)
qed

section \<open>Properties of a portfolio run\<close>

text \<open>
  C9. No look-ahead in the portfolio loop, on either broker class: a run that returns has one point on its
  equity curve for each date on which some stream has a bar, and the run on the histories cut after any date
  also returns, with the points of the curve up to that date. So what the book is worth on a date does not
  depend on a later bar of any stream, whatever the strategy, the sizer, the rolls and the flags.
\<close>

theorem portfolio_no_lookahead:
  assumes "engine_broker ops book" "reachable (book s)" "portfolio_run eng ops hs s = (Inr r, s')"
  shows "length (rr_equity_curve r) = card (bar_dates hs) \<and>
         (\<exists>r1 s1. portfolio_run eng ops (truncated D hs) s = (Inr r1, s1) \<and>
            rr_equity_curve r1 = take (card {d \<in> bar_dates hs. d \<le> D}) (rr_equity_curve r))"
proof -
  let ?early = "group_dates (indexed_bars (truncated D hs))"
  have inv: "broker_inv (book s)" using assms(2) by (rule reachable_inv)
  have start: "portfolio_start (truncated D hs) s = portfolio_start hs s"
    by (simp add: portfolio_start_def truncated_def split_def)
  obtain st where l: "date_loop eng ops (group_dates (indexed_bars hs)) (portfolio_start hs s) = (Inr (), st)"
    and r: "rr_equity_curve r = pf_curve st" using portfolio_run_Inr [OF assms(3)] .
  then obtain st1 where l1: "date_loop eng ops ?early (portfolio_start hs s) = (Inr (), st1)"
    and l2: "date_loop eng ops (group_dates (filter (\<lambda>b. \<not> bar_date b \<le> D) (indexed_bars hs))) st1 = (Inr (), st)"
    unfolding group_dates_truncated [of hs D] date_loop_append by (auto simp: bindS_Inr_iff)
  have "bar_dates (truncated D hs) = {d \<in> bar_dates hs. d \<le> D}" by (force simp: bar_dates_def truncated_def)
  then have n: "length ?early = card {d \<in> bar_dates hs. d \<le> D}"
    using group_dates_length [OF sorted_indexed_bars] set_indexed_bars [of "truncated D hs"] by simp
  have "length (pf_curve st1) = card {d \<in> bar_dates hs. d \<le> D}"
    using date_loop_curve [OF l1] n by (auto simp: portfolio_start_def)
  moreover obtain ms where "pf_curve st = pf_curve st1 @ ms" using date_loop_curve [OF l2] by auto
  ultimately have "pf_curve st1 = take (card {d \<in> bar_dates hs. d \<le> D}) (pf_curve st)" by simp
  moreover have "length (pf_curve st) = card (bar_dates hs)"
    using date_loop_curve [OF l] group_dates_length [OF sorted_indexed_bars] set_indexed_bars [of hs] by (auto simp: portfolio_start_def)
  ultimately show ?thesis
    using engine_broker.portfolio_run_loop [OF assms(1) l1 [folded start] inv] r by auto
qed

definition zb_bar2 :: VerifiedBar where
  "zb_bar2 = zb_bar\<lparr>vb_ts := \<lparr>dt_local = 63849729600000000, dt_off = Some 0\<rparr>\<rparr>"

definition zb_portfolio :: PortfolioBacktestEngine where
  "zb_portfolio = PortfolioBacktestEngine_init (be_ctx (zb_engine zb_risk))
     (\<lambda>h ctx. Inr [(''ZB'', zb_signal\<lparr>sg_direction := 0, sg_full_kelly_fraction := 0\<rparr>)]) zb_risk None False [] False 60"

lemma zb_portfolio_step:
  assumes "pf_broker st = zb0" "vb_contract b = ''ZBM26''"
  shows "\<exists>st'. date_step zb_portfolio mock_ops (d, [(''ZB'', b)]) st = (Inr (), st') \<and> pf_broker st' = zb0 \<and>
           pf_curve st' = pf_curve st @ [1000000]"
proof -
  obtain am where am: "get_account_metrics zb0 = Inr am" "am_equity am = current_equity zb0" using metrics_total [OF zb0_inv(1)] by blast
  have "current_equity zb0 = 1000000" by (simp add: current_equity_def zb0_def session0_def dsum_def dec_exact)
  then show ?thesis using am assms
    by (simp add: date_step_def on_broker_def mock_ops_def advance_def zb0_empty zb_portfolio_def PortfolioBacktestEngine_init_def
        execute_rolls_def mark_date_def get_positions_def mark_to_market_def dec_exact decide_date_def leg_weights_def
        place_signals_def place_leg_def zb_signal_def zb_bar_def es_bar_def AList.update_conv)
qed

theorem portfolio_no_lookahead_witness:
  "\<exists>r s' r1 s1. portfolio_run zb_portfolio mock_ops [(''ZB'', [zb_bar, zb_bar2])] zb0 = (Inr r, s') \<and> length (rr_equity_curve r) = 2 \<and>
     portfolio_run zb_portfolio mock_ops (truncated 739000 [(''ZB'', [zb_bar, zb_bar2])]) zb0 = (Inr r1, s1) \<and>
     rr_equity_curve r1 = [1000000]"
proof -
  let ?hs = "[(''ZB'', [zb_bar, zb_bar2])]" and ?st = "portfolio_start [(''ZB'', [zb_bar, zb_bar2])] zb0"
  have d: "dt_date (vb_ts zb_bar) = 739000" "dt_date (vb_ts zb_bar2) = 739001" "vb_contract zb_bar = ''ZBM26''" "vb_contract zb_bar2 = ''ZBM26''"
    by (simp_all add: zb_bar_def zb_bar2_def es_bar_def dt_date_def)
  have g: "group_dates (indexed_bars ?hs) = [(739000, [(''ZB'', zb_bar)]), (739001, [(''ZB'', zb_bar2)])]"
    by (simp add: indexed_bars_def d)
  obtain st1 where 1: "date_step zb_portfolio mock_ops (739000, [(''ZB'', zb_bar)]) ?st = (Inr (), st1)" "pf_broker st1 = zb0"
    "pf_curve st1 = [1000000]"
    using zb_portfolio_step [of ?st zb_bar 739000] d by (auto simp: portfolio_start_def)
  obtain st2 where 2: "date_step zb_portfolio mock_ops (739001, [(''ZB'', zb_bar2)]) st1 = (Inr (), st2)" "pf_curve st2 = [1000000, 1000000]"
    using zb_portfolio_step [of st1 zb_bar2 739001] d 1 by auto
  have "date_loop zb_portfolio mock_ops (group_dates (indexed_bars ?hs)) ?st = (Inr (), st2)" using g 1 2 by simp
  from mock_eng.portfolio_run_loop [OF this] zb0_inv(1) 2 obtain r s' where
    r: "portfolio_run zb_portfolio mock_ops ?hs zb0 = (Inr r, s')" "rr_equity_curve r = [1000000, 1000000]" by auto
  have "{dt. dt \<in> bar_dates ?hs \<and> dt \<le> 739000} = {739000}" by (auto simp: bar_dates_def d)
  with portfolio_no_lookahead [OF mock_eng.engine_broker_axioms _ r(1), of 739000] r zb0_inv(3) show ?thesis by auto
qed

end
