(* ===== verification/Storage.thy ===== *)
theory Storage
  imports Market_Types "HOL-Library.Multiset"
begin

text \<open>
  The Parquet archive (\<open>src/futur3/storage/abcs.py\<close>, \<open>parquet_store.py\<close>, \<open>parquet_settle_store.py\<close>). An
  archive is the list of its data files: the path below the base directory and the rows of the frame that
  file holds. Writing groups a batch by partition, drops the rows an identical key makes redundant and
  merges the rest into the partition's file; reading selects and sorts the rows of one contract.

  Frames belong to the polars package. A frame is the list of its rows; adding rows, selecting them by a
  condition and counting them are list operations, and the three operations that choose, \<open>unique\<close>, the
  anti-join and \<open>sort\<close>, are the fields of \<open>frames\<close>, an argument of the stores. What the stores rely on is
  \<open>frame_laws\<close>: \<open>unique\<close> with \<open>keep="last"\<close> keeps the last row of each key, the anti-join keeps the rows
  whose key is absent, and \<open>sort\<close> orders its rows, in no particular order where the sort columns tie. The
  columns of text that hold prices are exact, so a row keeps the decimals. Whether a partition can be
  created and written is the argument \<open>disk\<close>; the file format and the compression are not modelled.
\<close>

section \<open>Frames and files\<close>

record 'r frames =
  fr_unique :: "'r list \<Rightarrow> 'r list"
  fr_anti :: "'r list \<Rightarrow> 'r list \<Rightarrow> 'r list"
  fr_sort :: "'r list \<Rightarrow> 'r list"

definition frame_laws :: "('r \<Rightarrow> 'k) \<Rightarrow> ('r \<Rightarrow> 'r \<Rightarrow> bool) \<Rightarrow> 'r frames \<Rightarrow> bool" where
  "frame_laws key leq fs \<longleftrightarrow>
     (\<forall>rows. distinct (map key (fr_unique fs rows)) \<and>
        set (fr_unique fs rows) = {r \<in> set rows. List.find (\<lambda>s. key s = key r) (rev rows) = Some r}) \<and>
     (\<forall>new old. mset (fr_anti fs new old) = mset (filter (\<lambda>r. key r \<notin> key ` set old) new)) \<and>
     (\<forall>rows. mset (fr_sort fs rows) = mset rows \<and> sorted_wrt leq (fr_sort fs rows))"

type_synonym path = "string list"
type_synonym 'r archive = "(path \<times> 'r list) list"

record disk =
  dk_no_dir :: "path \<Rightarrow> bool"
  dk_no_io :: "path \<Rightarrow> bool"

record StoreWriteResult =
  sw_rows_written :: int
  sw_dedupe_count :: int

definition StoreWriteResult_post_init :: "StoreWriteResult \<Rightarrow> unit res" where
  "StoreWriteResult_post_init r =
     bindE (require (\<not> sw_rows_written r < 0) ValueError) (\<lambda>_. require (\<not> sw_dedupe_count r < 0) ValueError)"

definition StoreWriteResult_new :: "int \<Rightarrow> int \<Rightarrow> StoreWriteResult res" where
  "StoreWriteResult_new written deduped =
     (let r = \<lparr>sw_rows_written = written, sw_dedupe_count = deduped\<rparr>
      in bindE (StoreWriteResult_post_init r) (\<lambda>_. Inr r))"

definition total_submitted :: "StoreWriteResult \<Rightarrow> int" where
  "total_submitted r = sw_rows_written r + sw_dedupe_count r"

record StoreQuery =
  sq_contract :: ContractSymbol
  sq_ts_start :: datetime
  sq_ts_end :: datetime
  sq_resolution :: "BarResolution option"
  sq_inclusive_end :: bool

definition StoreQuery_post_init :: "StoreQuery \<Rightarrow> unit res" where
  "StoreQuery_post_init q =
     bindE (require (dt_aware (sq_ts_start q)) ValueError) (\<lambda>_.
     bindE (require (dt_aware (sq_ts_end q)) ValueError) (\<lambda>_.
     require (\<not> dt_instant (sq_ts_end q) \<le> dt_instant (sq_ts_start q)) ValueError))"

text \<open>Merging a batch into the file of its partition: rows written, rows dropped, the new file.\<close>

definition merge_part :: "'r frames \<Rightarrow> 'r list option \<Rightarrow> 'r list \<Rightarrow> int \<times> int \<times> 'r list" where
  "merge_part fs stored part_rows =
     (let submitted = fr_unique fs part_rows;
          internal_dupes = int (length part_rows) - int (length submitted)
      in case stored of
           None \<Rightarrow> (int (length submitted), internal_dupes, fr_sort fs submitted)
         | Some existing \<Rightarrow>
             (let new_only = fr_anti fs submitted existing;
                  collisions = int (length submitted) - int (length new_only)
              in (int (length new_only), internal_dupes + collisions, fr_sort fs (existing @ new_only))))"

fun write_parts ::
  "disk \<Rightarrow> 'r frames \<Rightarrow> ('b \<Rightarrow> 'r res) \<Rightarrow> (path \<times> 'b list) list \<Rightarrow> int \<Rightarrow> int \<Rightarrow> 'r archive \<Rightarrow> (int \<times> int) res \<times> 'r archive"
where
  "write_parts dk fs to_row [] written deduped files = (Inr (written, deduped), files)"
| "write_parts dk fs to_row ((path, part) # parts) written deduped files =
     (if dk_no_dir dk path then (Inl StorageError, files)
      else case traverse to_row part of
        Inl e \<Rightarrow> (Inl e, files)
      | Inr part_rows \<Rightarrow>
          if dk_no_io dk path then (Inl StorageError, files)
          else (case merge_part fs (map_of files path) part_rows of
                  (w, d, file) \<Rightarrow>
                    write_parts dk fs to_row parts (written + w) (deduped + d) (AList.update path file files)))"

definition write_batch ::
  "disk \<Rightarrow> 'r frames \<Rightarrow> ('b \<Rightarrow> 'r res) \<Rightarrow> (path \<times> 'b list) list \<Rightarrow> 'r archive \<Rightarrow> StoreWriteResult res \<times> 'r archive"
where
  "write_batch dk fs to_row parts files =
     bindS (write_parts dk fs to_row parts 0 0 files)
       (\<lambda>(written, deduped) files'. (StoreWriteResult_new written deduped, files'))"

text \<open>The files that match a pattern below a directory, in the order of their paths.\<close>

definition matching_files :: "(path \<Rightarrow> bool) \<Rightarrow> 'r archive \<Rightarrow> 'r archive" where
  "matching_files pat files = sort_key fst (filter (\<lambda>(p, _). pat p) files)"

definition has_prefix :: "string \<Rightarrow> string \<Rightarrow> bool" where
  "has_prefix pre s \<longleftrightarrow> take (length pre) s = pre"

definition SYMBOL_SUFFIX_LEN :: nat where
  "SYMBOL_SUFFIX_LEN = 3"

definition bar_root :: "ContractSymbol \<Rightarrow> string res" where
  "bar_root s =
     (if length s \<le> SYMBOL_SUFFIX_LEN then Inl StorageError else Inr (take (length s - SYMBOL_SUFFIX_LEN) s))"

section \<open>The bar store\<close>

record BarRow =
  br_contract :: string
  br_ts :: datetime
  br_resolution :: string
  br_open :: decimal
  br_high :: decimal
  br_low :: decimal
  br_close :: decimal
  br_volume :: int
  br_oi :: "int option"
  br_source_id :: string
  br_as_of_iso :: datetime
  br_content_bytes_sha :: string

definition bar_to_row :: "RawBar \<Rightarrow> BarRow res" where
  "bar_to_row b =
     bindE (to_utc (rb_ts b)) (\<lambda>ts.
     bindE (to_utc (rb_as_of_iso b)) (\<lambda>as_of.
     Inr \<lparr>br_contract = rb_contract b, br_ts = ts, br_resolution = resolution_value (rb_resolution b), br_open = rb_open b,
          br_high = rb_high b, br_low = rb_low b, br_close = rb_close b, br_volume = rb_volume b, br_oi = rb_oi b,
          br_source_id = rb_source_id b, br_as_of_iso = as_of, br_content_bytes_sha = rb_content_bytes_sha b\<rparr>))"

text \<open>\<open>BarResolution(value)\<close>.\<close>

definition resolution_of :: "string \<Rightarrow> BarResolution res" where
  "resolution_of s =
     (case List.find (\<lambda>r. resolution_value r = s) [SEC_1, SEC_5, MIN_1, MIN_5, MIN_15, HOUR_1, DAY_1, SETTLE] of
        None \<Rightarrow> Inl ValueError
      | Some r \<Rightarrow> Inr r)"

definition row_to_bar :: "BarRow \<Rightarrow> RawBar res" where
  "row_to_bar row =
     bindE (resolution_of (br_resolution row)) (\<lambda>resolution.
       let b = \<lparr>rb_contract = br_contract row, rb_ts = br_ts row, rb_resolution = resolution, rb_open = br_open row,
                rb_high = br_high row, rb_low = br_low row, rb_close = br_close row, rb_volume = br_volume row,
                rb_oi = br_oi row, rb_source_id = br_source_id row, rb_as_of_iso = br_as_of_iso row,
                rb_content_bytes_sha = br_content_bytes_sha row\<rparr>
       in bindE (RawBar_post_init b) (\<lambda>_. Inr b))"

text \<open>The dedupe columns and the sort columns.\<close>

definition bar_dedupe :: "BarRow \<Rightarrow> string \<times> datetime \<times> string \<times> string" where
  "bar_dedupe r = (br_contract r, br_ts r, br_resolution r, br_content_bytes_sha r)"

definition bar_leq :: "BarRow \<Rightarrow> BarRow \<Rightarrow> bool" where
  "bar_leq r s \<longleftrightarrow>
     dt_instant (br_ts r) < dt_instant (br_ts s) \<or>
     dt_instant (br_ts r) = dt_instant (br_ts s) \<and> br_content_bytes_sha r \<le> br_content_bytes_sha s"

definition partition_path :: "string \<Rightarrow> string \<Rightarrow> int \<Rightarrow> int \<Rightarrow> path" where
  "partition_path root_sym resolution year month =
     [''futures'', ''bars'', root_sym, resolution, ''year='' @ show_int year, ''month='' @ zpad 2 (nat month), ''data.parquet'']"

definition partition_key :: "RawBar \<Rightarrow> (string \<times> string \<times> int \<times> int) res" where
  "partition_key b =
     bindE (to_utc (rb_ts b)) (\<lambda>ts_utc.
     bindE (bar_root (rb_contract b)) (\<lambda>r.
     Inr (r, resolution_value (rb_resolution b), year_of (dt_date ts_utc), month_of (dt_date ts_utc))))"

definition bar_groups :: "RawBar list \<Rightarrow> (path \<times> RawBar list) list res" where
  "bar_groups bars =
     bindE (traverse (\<lambda>b. bindE (partition_key b) (\<lambda>k. Inr (k, b))) bars) (\<lambda>keyed.
     Inr (map (\<lambda>((r, resolution, year, month), kbs). (partition_path r resolution year month, map snd kbs))
            (group_by fst keyed)))"

definition write_bars :: "disk \<Rightarrow> BarRow frames \<Rightarrow> RawBar list \<Rightarrow> BarRow archive \<Rightarrow> StoreWriteResult res \<times> BarRow archive" where
  "write_bars dk fs bars files =
     (if bars = [] then (StoreWriteResult_new 0 0, files)
      else case bar_groups bars of
        Inl e \<Rightarrow> (Inl e, files)
      | Inr groups \<Rightarrow> write_batch dk fs bar_to_row groups files)"

text \<open>\<open>glob("year=*/month=*/data.parquet")\<close> below the directory of a root and a resolution.\<close>

fun bar_file_of :: "string \<Rightarrow> string \<Rightarrow> path \<Rightarrow> bool" where
  "bar_file_of root_sym resolution [a, b, c, d, y, m, f] \<longleftrightarrow>
     a = ''futures'' \<and> b = ''bars'' \<and> c = root_sym \<and> d = resolution \<and> has_prefix ''year='' y \<and> has_prefix ''month='' m \<and>
     f = ''data.parquet''"
| "bar_file_of root_sym resolution _ \<longleftrightarrow> False"

definition read_bars :: "disk \<Rightarrow> BarRow frames \<Rightarrow> StoreQuery \<Rightarrow> BarRow archive \<Rightarrow> RawBar list res" where
  "read_bars dk fs query files =
     (case sq_resolution query of
        None \<Rightarrow> Inl ValueError
      | Some resolution \<Rightarrow>
          bindE (bar_root (sq_contract query)) (\<lambda>r.
            let sel = matching_files (bar_file_of r (resolution_value resolution)) files
            in if sel = [] then Inr []
               else bindE (to_utc (sq_ts_start query)) (\<lambda>ts_start.
                    bindE (to_utc (sq_ts_end query)) (\<lambda>ts_end.
                      if list_ex (dk_no_io dk) (map fst sel) then Inl StorageError
                      else traverse row_to_bar
                             (fr_sort fs (filter (\<lambda>r. br_contract r = sq_contract query \<and>
                                dt_instant ts_start \<le> dt_instant (br_ts r) \<and>
                                (if sq_inclusive_end query then dt_instant (br_ts r) \<le> dt_instant ts_end
                                 else dt_instant (br_ts r) < dt_instant ts_end)) (concat (map snd sel))))))))"

section \<open>The settle store\<close>

fun settle_state_value :: "SettleState \<Rightarrow> string" where
  "settle_state_value settle_live = ''live''"
| "settle_state_value settle_preliminary = ''preliminary''"
| "settle_state_value settle_final = ''final''"

definition SETTLE_STATE_RANK :: "(string \<times> int) list" where
  "SETTLE_STATE_RANK = [(''live'', 0), (''preliminary'', 1), (''final'', 2)]"

record SettleRow =
  sr_contract :: string
  sr_as_of_date :: date
  sr_settle :: decimal
  sr_settle_state :: string
  sr_open :: decimal
  sr_high :: decimal
  sr_low :: decimal
  sr_last :: decimal
  sr_change :: decimal
  sr_volume_est :: int
  sr_oi_prior :: int
  sr_source_id :: string
  sr_as_of_iso :: "datetime option"
  sr_content_bytes_sha :: string
  sr_cme_month_code :: string

definition settle_to_row :: "Settle \<Rightarrow> SettleRow res" where
  "settle_to_row s =
     bindE (case st_as_of_iso s of None \<Rightarrow> Inr None | Some t \<Rightarrow> bindE (to_utc t) (\<lambda>u. Inr (Some u))) (\<lambda>as_of.
     Inr \<lparr>sr_contract = st_contract s, sr_as_of_date = st_as_of_date s, sr_settle = st_settle s,
          sr_settle_state = settle_state_value (st_settle_state s), sr_open = st_open s, sr_high = st_high s,
          sr_low = st_low s, sr_last = st_last s, sr_change = st_change s, sr_volume_est = st_volume_est s,
          sr_oi_prior = st_oi_prior s, sr_source_id = st_source_id s, sr_as_of_iso = as_of,
          sr_content_bytes_sha = st_content_bytes_sha s, sr_cme_month_code = st_cme_month_code s\<rparr>)"

definition settle_state_of :: "string \<Rightarrow> SettleState option" where
  "settle_state_of s = List.find (\<lambda>x. settle_state_value x = s) [settle_live, settle_preliminary, settle_final]"

definition row_to_settle :: "SettleRow \<Rightarrow> Settle res" where
  "row_to_settle row =
     (case settle_state_of (sr_settle_state row) of
        None \<Rightarrow> Inl StorageError
      | Some state \<Rightarrow>
          (let s = \<lparr>st_contract = sr_contract row, st_as_of_date = sr_as_of_date row, st_settle = sr_settle row,
                    st_settle_state = state, st_open = sr_open row, st_high = sr_high row, st_low = sr_low row,
                    st_last = sr_last row, st_change = sr_change row, st_volume_est = sr_volume_est row,
                    st_oi_prior = sr_oi_prior row, st_source_id = sr_source_id row, st_as_of_iso = sr_as_of_iso row,
                    st_content_bytes_sha = sr_content_bytes_sha row, st_cme_month_code = sr_cme_month_code row\<rparr>
           in bindE (Settle_post_init s) (\<lambda>_. Inr s)))"

definition settle_dedupe :: "SettleRow \<Rightarrow> string \<times> date \<times> string \<times> string" where
  "settle_dedupe r = (sr_contract r, sr_as_of_date r, sr_settle_state r, sr_content_bytes_sha r)"

definition state_rank :: "SettleRow \<Rightarrow> int" where
  "state_rank r = (case map_of SETTLE_STATE_RANK (sr_settle_state r) of None \<Rightarrow> - 1 | Some n \<Rightarrow> n)"

definition settle_leq :: "SettleRow \<Rightarrow> SettleRow \<Rightarrow> bool" where
  "settle_leq r s \<longleftrightarrow>
     sr_as_of_date r < sr_as_of_date s \<or>
     sr_as_of_date r = sr_as_of_date s \<and>
       (state_rank r < state_rank s \<or>
        state_rank r = state_rank s \<and> sr_content_bytes_sha r \<le> sr_content_bytes_sha s)"

definition settle_partition_path :: "string \<Rightarrow> int \<Rightarrow> path" where
  "settle_partition_path root_sym year = [''futures'', ''settles'', root_sym, ''year='' @ show_int year, ''data.parquet'']"

definition settle_groups :: "Settle list \<Rightarrow> (path \<times> Settle list) list res" where
  "settle_groups settles =
     bindE (traverse (\<lambda>s. bindE (bar_root (st_contract s)) (\<lambda>r. Inr ((r, year_of (st_as_of_date s)), s))) settles) (\<lambda>keyed.
     Inr (map (\<lambda>((r, year), kss). (settle_partition_path r year, map snd kss)) (group_by fst keyed)))"

definition write_settles ::
  "disk \<Rightarrow> SettleRow frames \<Rightarrow> Settle list \<Rightarrow> SettleRow archive \<Rightarrow> StoreWriteResult res \<times> SettleRow archive" where
  "write_settles dk fs settles files =
     (if settles = [] then (StoreWriteResult_new 0 0, files)
      else case settle_groups settles of
        Inl e \<Rightarrow> (Inl e, files)
      | Inr groups \<Rightarrow> write_batch dk fs settle_to_row groups files)"

fun settle_file_of :: "string \<Rightarrow> path \<Rightarrow> bool" where
  "settle_file_of root_sym [a, b, c, y, f] \<longleftrightarrow>
     a = ''futures'' \<and> b = ''settles'' \<and> c = root_sym \<and> has_prefix ''year='' y \<and> f = ''data.parquet''"
| "settle_file_of root_sym _ \<longleftrightarrow> False"

definition read_settles ::
  "disk \<Rightarrow> SettleRow frames \<Rightarrow> ContractSymbol \<Rightarrow> date \<Rightarrow> date \<Rightarrow> SettleRow archive \<Rightarrow> Settle list res" where
  "read_settles dk fs contract as_of_date_start as_of_date_end files =
     (if as_of_date_end < as_of_date_start then Inl ValueError
      else bindE (bar_root contract) (\<lambda>r.
        let sel = matching_files (settle_file_of r) files
        in if sel = [] then Inr []
           else if list_ex (dk_no_io dk) (map fst sel) then Inl StorageError
           else traverse row_to_settle
                  (fr_sort fs (filter (\<lambda>r. sr_contract r = contract \<and> as_of_date_start \<le> sr_as_of_date r \<and>
                                           sr_as_of_date r \<le> as_of_date_end) (concat (map snd sel))))))"

end
