(* ===== verification/Storage_Properties.thy ===== *)
theory Storage_Properties
  imports Storage
begin

text \<open>
  Correctness of the archive. Both stores are described by one abstraction, the set of rows an archive holds:
  a write adds exactly the last row of every key that is not there yet, counts what it adds and what it
  drops, and keeps the files partitioned, sorted and free of duplicate keys; a read returns exactly the rows
  of the contract in the window. The locale states what the two layouts share, that rows with the same key
  belong to the same file; the stores are its interpretations.
\<close>

section \<open>Archives as sets of rows\<close>

definition rows_of :: "'r archive \<Rightarrow> 'r set" where
  "rows_of files = {r. \<exists>p rows. map_of files p = Some rows \<and> r \<in> set rows}"

definition last_rows :: "('r \<Rightarrow> 'k) \<Rightarrow> 'r list \<Rightarrow> 'r set" where
  "last_rows key rows = {r \<in> set rows. List.find (\<lambda>s. key s = key r) (rev rows) = Some r}"

definition archive_inv :: "('r \<Rightarrow> 'k) \<Rightarrow> ('r \<Rightarrow> 'r \<Rightarrow> bool) \<Rightarrow> ('r \<Rightarrow> path) \<Rightarrow> 'r archive \<Rightarrow> bool" where
  "archive_inv key leq path_of files \<longleftrightarrow>
     distinct (map fst files) \<and>
     (\<forall>p rows. map_of files p = Some rows \<longrightarrow>
        distinct (map key rows) \<and> sorted_wrt leq rows \<and> (\<forall>r \<in> set rows. path_of r = p))"

lemma archive_inv_empty: "archive_inv key leq path_of []"
  by (simp add: archive_inv_def)

lemma rows_of_empty [simp]: "rows_of [] = {}"
  by (simp add: rows_of_def)

lemma finite_rows_of: "finite (rows_of files)"
proof (rule finite_subset)
  show "rows_of files \<subseteq> (\<Union>pr \<in> set files. set (snd pr))" by (force simp: rows_of_def dest: map_of_SomeD)
qed simp

lemma stored_subset: "set (case map_of files p of None \<Rightarrow> [] | Some rs \<Rightarrow> rs) \<subseteq> rows_of files"
  by (cases "map_of files p") (auto simp: rows_of_def)

lemma frame_lawsD:
  assumes "frame_laws key leq fs"
  shows "distinct (map key (fr_unique fs rows))" "set (fr_unique fs rows) = last_rows key rows"
    "mset (fr_anti fs new old) = mset (filter (\<lambda>r. key r \<notin> key ` set old) new)"
    "mset (fr_sort fs rows) = mset rows" "sorted_wrt leq (fr_sort fs rows)"
  using assms unfolding frame_laws_def last_rows_def by blast+

lemma mset_distinct_map: "mset xs = mset ys \<Longrightarrow> distinct (map f xs) \<longleftrightarrow> distinct (map f ys)"
  by (metis mset_eq_imp_distinct_iff mset_map)

lemma last_rows_subset: "last_rows key rows \<subseteq> set rows"
  by (auto simp: last_rows_def)

lemma find_filter: "List.find P (filter Q xs) = List.find (\<lambda>x. Q x \<and> P x) xs"
  by (induction xs) auto

lemma find_cong_set: "(\<And>x. x \<in> set xs \<Longrightarrow> P x \<longleftrightarrow> Q x) \<Longrightarrow> List.find P xs = List.find Q xs"
  by (induction xs) auto

lemma find_SomeD: "List.find P xs = Some y \<Longrightarrow> y \<in> set xs \<and> P y"
  by (induction xs) (auto split: if_splits)

lemma find_rev_distinct:
  assumes "distinct (map key xs)" "x \<in> set xs"
  shows "List.find (\<lambda>s. key s = key x) (rev xs) = Some x"
proof (cases "List.find (\<lambda>s. key s = key x) (rev xs)")
  case None
  then show ?thesis using assms(2) by (auto simp: find_None_iff)
next
  case (Some y)
  then have "y \<in> set xs" "key y = key x" using find_SomeD by force+
  then show ?thesis using Some assms by (metis distinct_map inj_onD)
qed

text \<open>The rows a key leaves are found within the partition of the key.\<close>

lemma last_rows_group:
  assumes "\<And>r s. key r = key s \<Longrightarrow> path_of r = path_of s"
  shows "last_rows key (filter (\<lambda>r. path_of r = p) rows) = {r \<in> last_rows key rows. path_of r = p}"
proof -
  have "List.find (\<lambda>s. key s = key r) (rev (filter (\<lambda>r. path_of r = p) rows)) = List.find (\<lambda>s. key s = key r) (rev rows)"
    if "path_of r = p" for r
    unfolding rev_filter find_filter using assms that by (intro find_cong_set) metis
  then show ?thesis by (auto simp: last_rows_def)
qed

text \<open>Merging a batch into one file.\<close>

lemma merge_part_spec:
  assumes laws: "frame_laws key leq fs" and old: "distinct (map key (case stored of None \<Rightarrow> [] | Some rows \<Rightarrow> rows))"
    and m: "merge_part fs stored part_rows = (w, d, file)"
    and prev: "prev = set (case stored of None \<Rightarrow> [] | Some rows \<Rightarrow> rows)"
    and fresh: "fresh = {r \<in> last_rows key part_rows. key r \<notin> key ` prev}"
  shows "set file = prev \<union> fresh" "distinct (map key file)" "sorted_wrt leq file"
    "w = int (card fresh)" "w + d = int (length part_rows)"
proof -
  note l = frame_lawsD [OF laws]
  let ?u = "fr_unique fs part_rows"
  have "set file = prev \<union> fresh \<and> distinct (map key file) \<and> sorted_wrt leq file \<and> w = int (card fresh) \<and> w + d = int (length part_rows)"
  proof (cases stored)
    case None
    then have e: "w = int (length ?u)" "d = int (length part_rows) - int (length ?u)" "file = fr_sort fs ?u" "prev = {}"
      using m prev by (simp_all add: merge_part_def Let_def)
    have "length ?u = card fresh"
      using distinct_card [of ?u] l(1) [of part_rows] l(2) e(4) fresh by (simp add: distinct_map)
    then show ?thesis
      using e l(2,5) l(1) [of part_rows] fresh mset_distinct_map [OF l(4) [of ?u], of key] mset_eq_setD [OF l(4) [of ?u]] by simp
  next
    case (Some existing)
    let ?n = "fr_anti fs ?u existing"
    have e: "w = int (length ?n)" "d = int (length part_rows) - int (length ?u) + (int (length ?u) - int (length ?n))"
      "file = fr_sort fs (existing @ ?n)" "prev = set existing"
      using m prev Some by (simp_all add: merge_part_def Let_def)
    have n: "set ?n = fresh" using mset_eq_setD [OF l(3)] l(2) e(4) fresh by auto
    have dn: "distinct (map key ?n)"
      unfolding mset_distinct_map [OF l(3)] using l(1) [of part_rows] by (simp add: distinct_map_filter)
    have "length ?n = card fresh" using distinct_card [of ?n] dn n by (simp add: distinct_map)
    moreover have "distinct (map key (existing @ ?n))" using old Some dn n fresh e(4) by (auto simp: image_iff)
    ultimately show ?thesis
      using e n l(5) mset_distinct_map [OF l(4) [of "existing @ ?n"], of key] mset_eq_setD [OF l(4) [of "existing @ ?n"]] by simp
  qed
  then show "set file = prev \<union> fresh" "distinct (map key file)" "sorted_wrt leq file"
    "w = int (card fresh)" "w + d = int (length part_rows)" by blast+
qed

lemma matching_rows:
  assumes "distinct (map fst files)"
  shows "set (concat (map snd (matching_files pat files))) = {r. \<exists>p rows. map_of files p = Some rows \<and> pat p \<and> r \<in> set rows}"
proof -
  have "map_of files p = Some rows \<longleftrightarrow> (p, rows) \<in> set files" for p rows using assms by simp
  then show ?thesis by (auto simp: matching_files_def) blast+
qed

lemma distinct_concat_files:
  "distinct (map fst l) \<Longrightarrow> (\<And>p rows. (p, rows) \<in> set l \<Longrightarrow> distinct rows \<and> (\<forall>r \<in> set rows. path_of r = p)) \<Longrightarrow>
     distinct (concat (map snd l))"
proof (induction l)
  case (Cons pr l)
  obtain p rows where pr: "pr = (p, rows)" by (cases pr)
  have "r \<notin> set rows" if "(q, rs) \<in> set l" "r \<in> set rs" for q rs r
  proof
    assume "r \<in> set rows"
    then have "path_of r = p" using Cons.prems(2) [of p rows] pr by simp
    moreover have "path_of r = q" using Cons.prems(2) [of q rs] that by simp
    moreover have "q \<noteq> p" using Cons.prems(1) that(1) pr by force
    ultimately show False by simp
  qed
  moreover have "distinct rows" using Cons.prems(2) [of p rows] pr by simp
  moreover have "distinct (concat (map snd l))" by (rule Cons.IH) (use Cons.prems in auto)
  ultimately show ?case using pr by auto
qed simp

lemma matching_distinct:
  assumes "archive_inv key leq path_of files"
  shows "distinct (concat (map snd (matching_files pat files)))"
proof (rule distinct_concat_files)
  have "distinct (map fst files)" using assms by (simp add: archive_inv_def)
  then have d: "distinct (map fst (filter (\<lambda>(p, _). pat p) files))" by (rule distinct_map_filter)
  have "mset (map fst (matching_files pat files)) = mset (map fst (filter (\<lambda>(p, _). pat p) files))"
    by (simp add: matching_files_def)
  with d show "distinct (map fst (matching_files pat files))" by (metis mset_eq_imp_distinct_iff)
  fix p rows assume "(p, rows) \<in> set (matching_files pat files)"
  then have "map_of files p = Some rows" using assms by (simp add: matching_files_def archive_inv_def)
  then have "distinct (map key rows) \<and> (\<forall>r \<in> set rows. path_of r = p)" using assms by (simp add: archive_inv_def)
  then show "distinct rows \<and> (\<forall>r \<in> set rows. path_of r = p)" by (simp add: distinct_map)
qed

section \<open>What the layouts share\<close>

locale parquet_layout =
  fixes key :: "'r \<Rightarrow> 'k" and path_of :: "'r \<Rightarrow> path" and leq :: "'r \<Rightarrow> 'r \<Rightarrow> bool"
  assumes same_path: "key r = key s \<Longrightarrow> path_of r = path_of s"
begin

abbreviation inv :: "'r archive \<Rightarrow> bool" where
  "inv \<equiv> archive_inv key leq path_of"

definition added :: "'r list \<Rightarrow> 'r archive \<Rightarrow> 'r set" where
  "added rows files = {r \<in> last_rows key rows. key r \<notin> key ` rows_of files}"

lemma update_file:
  assumes inv: "inv files" and laws: "frame_laws key leq fs" and p: "\<forall>r \<in> set rows. path_of r = p"
    and m: "merge_part fs (map_of files p) rows = (w, d, file)"
  shows "inv (AList.update p file files)" "rows_of (AList.update p file files) = rows_of files \<union> added rows files"
    "w = int (card (added rows files))" "w + d = int (length rows)"
proof -
  let ?old = "case map_of files p of None \<Rightarrow> [] | Some rs \<Rightarrow> rs"
  have old: "distinct (map key ?old)" "\<forall>r \<in> set ?old. path_of r = p"
    using inv by (auto simp: archive_inv_def split: option.split)
  have k: "key r \<in> key ` set ?old \<longleftrightarrow> key r \<in> key ` rows_of files" if "r \<in> set rows" for r
  proof -
    have "s \<in> set ?old" if "s \<in> rows_of files" "key s = key r" for s
    proof -
      from \<open>s \<in> rows_of files\<close> obtain q rs where q: "map_of files q = Some rs" "s \<in> set rs" by (auto simp: rows_of_def)
      then have "path_of s = q" using inv by (auto simp: archive_inv_def)
      then have "q = p" using same_path [OF \<open>key s = key r\<close>] p \<open>r \<in> set rows\<close> by simp
      then show ?thesis using q by simp
    qed
    then show ?thesis using stored_subset [of files p] by (fastforce simp: image_iff)
  qed
  have a: "added rows files = {r \<in> last_rows key rows. key r \<notin> key ` set ?old}"
    using k last_rows_subset [of key rows] by (auto simp: added_def)
  note f = merge_part_spec [OF laws old(1) m refl refl]
  have set_file: "set file = set ?old \<union> added rows files" using f(1) a by simp
  show "w = int (card (added rows files))" "w + d = int (length rows)" using f(4,5) a by simp_all
  have "\<forall>r \<in> set file. path_of r = p" using set_file old(2) p last_rows_subset [of key rows] by (auto simp: added_def)
  then show "inv (AList.update p file files)"
    using inv f(2,3) by (auto simp: archive_inv_def distinct_update)
  have "r \<in> rows_of (AList.update p file files) \<longleftrightarrow> r \<in> rows_of files \<union> added rows files" for r
  proof -
    note stored_subset [of files p]
    moreover have "r \<in> rows_of files \<Longrightarrow> r \<notin> set ?old \<Longrightarrow> \<exists>q rs. q \<noteq> p \<and> map_of files q = Some rs \<and> r \<in> set rs"
      by (auto simp: rows_of_def) (metis option.simps(5))
    ultimately show ?thesis using set_file by (auto simp: rows_of_def)
  qed
  then show "rows_of (AList.update p file files) = rows_of files \<union> added rows files" by blast
qed

lemma write_parts_spec:
  assumes laws: "frame_laws key leq fs" and inv: "inv files"
    and conv: "list_all2 (\<lambda>(p, bs) (q, rs). p = q \<and> traverse to_row bs = Inr rs) parts prs"
    and prs: "distinct (map fst prs)" "\<And>p rs. (p, rs) \<in> set prs \<Longrightarrow> \<not> dk_no_dir dk p \<and> \<not> dk_no_io dk p \<and> (\<forall>r \<in> set rs. path_of r = p)"
  shows "\<exists>w' d' files'. write_parts dk fs to_row parts w d files = (Inr (w', d'), files') \<and> inv files' \<and>
           rows_of files' = rows_of files \<union> (\<Union>(p, rs) \<in> set prs. added rs files) \<and>
           w' - w = int (card (rows_of files')) - int (card (rows_of files)) \<and>
           w' + d' = w + d + (\<Sum>(p, rs) \<leftarrow> prs. int (length rs))"
  using inv conv prs
proof (induction prs arbitrary: parts w d files)
  case (Cons pr prs)
  obtain p rs where pr: "pr = (p, rs)" by (cases pr)
  obtain bs parts' where parts: "parts = (p, bs) # parts'" "traverse to_row bs = Inr rs"
    "list_all2 (\<lambda>(p, bs) (q, rs). p = q \<and> traverse to_row bs = Inr rs) parts' prs"
    using Cons.prems(2) pr by (auto simp: list_all2_Cons2)
  have p: "\<not> dk_no_dir dk p" "\<not> dk_no_io dk p" "\<forall>r \<in> set rs. path_of r = p" using Cons.prems(4) [of p rs] pr by auto
  obtain w1 d1 merged where m: "merge_part fs (map_of files p) rs = (w1, d1, merged)" by (metis surj_pair)
  let ?f1 = "AList.update p merged files"
  note u = update_file [OF Cons.prems(1) laws p(3) m]
  obtain w' d' files' where ih: "write_parts dk fs to_row parts' (w + w1) (d + d1) ?f1 = (Inr (w', d'), files')" "inv files'"
    "rows_of files' = rows_of ?f1 \<union> (\<Union>(p, rs) \<in> set prs. added rs ?f1)"
    "w' - (w + w1) = int (card (rows_of files')) - int (card (rows_of ?f1))"
    "w' + d' = (w + w1) + (d + d1) + (\<Sum>(p, rs) \<leftarrow> prs. int (length rs))"
  proof -
    have "distinct (map fst prs)" using Cons.prems(3) by simp
    note * = Cons.IH [OF u(1) parts(3) this, of "w + w1" "d + d1"]
    have h: "\<not> dk_no_dir dk p \<and> \<not> dk_no_io dk p \<and> (\<forall>r \<in> set rs. path_of r = p)" if "(p, rs) \<in> set prs" for p rs
      using that Cons.prems(4) by auto
    have "\<exists>w' d' files'. write_parts dk fs to_row parts' (w + w1) (d + d1) ?f1 = (Inr (w', d'), files') \<and> inv files' \<and>
        rows_of files' = rows_of ?f1 \<union> (\<Union>(p, rs) \<in> set prs. added rs ?f1) \<and>
        w' - (w + w1) = int (card (rows_of files')) - int (card (rows_of ?f1)) \<and>
        w' + d' = (w + w1) + (d + d1) + (\<Sum>(p, rs) \<leftarrow> prs. int (length rs))"
      by (rule *) (rule h)
    then show thesis by (elim exE conjE) (rule that)
  qed
  have later: "added rs' ?f1 = added rs' files" if "(q, rs') \<in> set prs" for q rs'
  proof -
    have "q \<noteq> p" using that Cons.prems(3) pr by force
    have q: "\<forall>r \<in> set rs'. path_of r = q" using Cons.prems(4) [of q rs'] that by simp
    have "key r \<notin> key ` added rs files" if "r \<in> last_rows key rs'" for r
    proof
      assume "key r \<in> key ` added rs files"
      then obtain s where "s \<in> set rs" "key r = key s" using last_rows_subset [of key rs] by (auto simp: added_def)
      then have "path_of r = p" using same_path p(3) by metis
      then show False using q that last_rows_subset [of key rs'] \<open>q \<noteq> p\<close> by (metis subsetD)
    qed
    then show ?thesis unfolding added_def u(2) image_Un by blast
  qed
  have "(\<Union>(p, rs) \<in> set prs. added rs ?f1) = (\<Union>(p, rs) \<in> set prs. added rs files)" using later by (auto split: prod.splits)
  then have all: "rows_of files' = rows_of files \<union> (\<Union>(p, rs) \<in> set (pr # prs). added rs files)" using ih(3) u(2) pr by auto
  have "rows_of files \<inter> added rs files = {}" by (auto simp: added_def)
  then have "int (card (rows_of ?f1)) = int (card (rows_of files)) + w1"
    using u(2,3) finite_rows_of [of files] finite_rows_of [of ?f1] by (simp add: card_Un_disjoint)
  then have "w' - w = int (card (rows_of files')) - int (card (rows_of files))" using ih(4) by simp
  moreover have "w' + d' = w + d + (\<Sum>(p, rs) \<leftarrow> pr # prs. int (length rs))" using ih(5) u(4) pr by simp
  moreover have "write_parts dk fs to_row parts w d files = (Inr (w', d'), files')" using ih(1) parts p m by simp
  ultimately show ?case using ih(2) all by blast
qed simp

lemma added_groups:
  assumes "\<And>p rs. (p, rs) \<in> set prs \<Longrightarrow> rs = filter (\<lambda>r. path_of r = p) rows" "path_of ` set rows \<subseteq> fst ` set prs"
  shows "(\<Union>(p, rs) \<in> set prs. added rs files) = added rows files"
proof -
  have last: "last_rows key (filter (\<lambda>r. path_of r = p) rows) = {r \<in> last_rows key rows. path_of r = p}" for p
    by (rule last_rows_group) (rule same_path)
  have group: "added rs files = {r \<in> added rows files. path_of r = p}" if "(p, rs) \<in> set prs" for p rs
    using last [of p] assms(1) [OF that] by (auto simp: added_def)
  have sub: "added rows files \<subseteq> set rows" using last_rows_subset [of key rows] by (auto simp: added_def)
  show ?thesis
  proof (intro equalityI subsetI)
    fix r assume "r \<in> (\<Union>(p, rs) \<in> set prs. added rs files)"
    then obtain p rs where "(p, rs) \<in> set prs" "r \<in> added rs files" by blast
    then show "r \<in> added rows files" using group by blast
  next
    fix r assume r: "r \<in> added rows files"
    then have "path_of r \<in> fst ` set prs" using sub assms(2) by blast
    then obtain rs where m: "(path_of r, rs) \<in> set prs" by (elim imageE) (metis prod.collapse)
    then have "r \<in> added rs files" using group [OF m] r by simp
    then show "r \<in> (\<Union>(p, rs) \<in> set prs. added rs files)" by (intro UN_I [OF m]) simp
  qed
qed

lemma write_batch_spec:
  assumes laws: "frame_laws key leq fs" and inv: "inv files"
    and conv: "\<And>b. b \<in> set bs \<Longrightarrow> to_row b = Inr (R b) \<and> path_of (R b) = P b \<and> \<not> dk_no_dir dk (P b) \<and> \<not> dk_no_io dk (P b)"
    and parts: "distinct (map fst parts)" "\<And>p xs. (p, xs) \<in> set parts \<longleftrightarrow> xs = filter (\<lambda>b. P b = p) bs \<and> xs \<noteq> []"
  shows "\<exists>files'. write_batch dk fs to_row parts files =
             (Inr \<lparr>sw_rows_written = int (card (added (map R bs) files)),
                    sw_dedupe_count = int (length bs) - int (card (added (map R bs) files))\<rparr>, files') \<and>
           inv files' \<and> rows_of files' = rows_of files \<union> added (map R bs) files"
proof -
  define prs where "prs = map (\<lambda>(p, xs). (p, map R xs)) parts"
  have trav: "traverse to_row xs = Inr (map R xs)" if "set xs \<subseteq> set bs" for xs
    using that conv by (induction xs) auto
  have c: "list_all2 (\<lambda>(p, bs) (q, rs). p = q \<and> traverse to_row bs = Inr rs) parts prs"
    unfolding prs_def list.rel_map by (rule list.rel_refl_strong) (auto simp: parts(2) intro: trav)
  have fsts: "map fst prs = map fst parts" by (simp add: prs_def split_def)
  have rs: "rs = filter (\<lambda>r. path_of r = p) (map R bs) \<and> (\<exists>b \<in> set bs. P b = p)" if pr: "(p, rs) \<in> set prs" for p rs
  proof -
    obtain xs where xs: "(p, xs) \<in> set parts" "rs = map R xs" using pr by (auto simp: prs_def)
    have "filter (\<lambda>b. P b = p) bs = filter ((\<lambda>r. path_of r = p) \<circ> R) bs" using conv by (intro filter_cong) auto
    then have "rs = filter (\<lambda>r. path_of r = p) (map R bs)" using xs parts(2) [of p xs] by (simp add: filter_map)
    moreover have "\<exists>b \<in> set bs. P b = p" using xs(1) unfolding parts(2) by (auto simp: filter_empty_conv)
    ultimately show ?thesis ..
  qed
  have cover: "path_of ` set (map R bs) \<subseteq> fst ` set prs"
  proof
    fix p assume "p \<in> path_of ` set (map R bs)"
    then have "(p, filter (\<lambda>b. P b = p) bs) \<in> set parts" unfolding parts(2) using conv by (auto simp: filter_empty_conv)
    then show "p \<in> fst ` set prs" by (force simp: prs_def)
  qed
  have len: "(\<Sum>(p, rs) \<leftarrow> prs. int (length rs)) = int (length bs)"
  proof -
    have "distinct parts" using parts(1) by (simp add: distinct_map)
    have "(\<Sum>(p, rs) \<leftarrow> prs. int (length rs)) = (\<Sum>(p, xs) \<in> set parts. int (length xs))"
      using \<open>distinct parts\<close> by (simp add: prs_def sum_list_distinct_conv_sum_set o_def split_def)
    also have "\<dots> = (\<Sum>p \<in> P ` set bs. int (length (filter (\<lambda>b. P b = p) bs)))"
    proof (rule sum.reindex_bij_witness [where i = "\<lambda>p. (p, filter (\<lambda>b. P b = p) bs)" and j = fst])
      fix px assume "px \<in> set parts"
      then obtain p xs where "px = (p, xs)" "xs = filter (\<lambda>b. P b = p) bs" "xs \<noteq> []"
        using parts(2) by (metis surj_pair)
      then show "(fst px, filter (\<lambda>b. P b = fst px) bs) = px" "fst px \<in> P ` set bs"
        "int (length (filter (\<lambda>b. P b = fst px) bs)) = (case px of (p, xs) \<Rightarrow> int (length xs))"
        by (auto simp: filter_empty_conv)
    next
      fix p assume "p \<in> P ` set bs"
      then show "(p, filter (\<lambda>b. P b = p) bs) \<in> set parts" by (auto simp: parts(2) filter_empty_conv)
    qed simp
    also have "\<dots> = int (length bs)"
    proof -
      have "(\<Sum>p \<in> A. int (length (filter (\<lambda>b. P b = p) bs))) = int (length bs)" if "finite A" "P ` set bs \<subseteq> A" for A
        using that
      proof (induction bs)
        case (Cons b bs)
        have "(\<Sum>p \<in> A. int (length (filter (\<lambda>b. P b = p) (b # bs)))) =
            (\<Sum>p \<in> A. (if p = P b then 1 else 0) + int (length (filter (\<lambda>b. P b = p) bs)))"
          by (intro sum.cong) auto
        then show ?case using Cons by (simp add: sum.distrib)
      qed simp
      then show ?thesis by simp
    qed
    finally show ?thesis .
  qed
  obtain w d files' where w: "write_parts dk fs to_row parts 0 0 files = (Inr (w, d), files')" "inv files'"
    "rows_of files' = rows_of files \<union> (\<Union>(p, rs) \<in> set prs. added rs files)"
    "w - 0 = int (card (rows_of files')) - int (card (rows_of files))"
    "w + d = 0 + 0 + (\<Sum>(p, rs) \<leftarrow> prs. int (length rs))"
  proof -
    have "\<not> dk_no_dir dk p \<and> \<not> dk_no_io dk p \<and> (\<forall>r \<in> set rs. path_of r = p)" if "(p, rs) \<in> set prs" for p rs
      using rs [OF that] conv by auto
    from write_parts_spec [OF laws inv c _ this] parts(1) fsts show thesis using that by (metis (no_types, lifting))
  qed
  have all: "rows_of files' = rows_of files \<union> added (map R bs) files" using w(3) added_groups [OF conjunct1 [OF rs] cover] by simp
  have fin: "finite (added (map R bs) files)" by (rule finite_subset [OF _ finite_rows_of [of files']]) (simp add: all)
  have "rows_of files \<inter> added (map R bs) files = {}" by (auto simp: added_def)
  then have wc: "w = int (card (added (map R bs) files))" using w(4) all fin finite_rows_of [of files] by (simp add: card_Un_disjoint)
  have "added (map R bs) files \<subseteq> set (map R bs)" using last_rows_subset [of key "map R bs"] by (auto simp: added_def)
  then have "card (added (map R bs) files) \<le> length bs" by (metis card_length card_mono finite_set length_map order_trans)
  moreover have "d = int (length bs) - w" using w(5) len by simp
  ultimately show ?thesis using w(1,2) wc all by (simp add: write_batch_def StoreWriteResult_new_def StoreWriteResult_post_init_def Let_def)
qed

text \<open>A read selects by file and by row, sorts, and decodes each row.\<close>

lemma select_spec:
  assumes laws: "frame_laws key leq fs" and inv: "inv files"
    and ok: "\<And>r. r \<in> rows_of files \<Longrightarrow> dec r = Inr (D r) \<and> E (D r) = r"
    and rows: "rows = fr_sort fs (filter want (concat (map snd (matching_files pat files))))"
  shows "set rows = {r \<in> rows_of files. pat (path_of r) \<and> want r}" "traverse dec rows = Inr (map D rows)"
    "distinct (map D rows)" "sorted_wrt leq rows"
proof -
  let ?all = "concat (map snd (matching_files pat files))"
  note fl = frame_lawsD [OF laws]
  have m: "mset rows = mset (filter want ?all)" using fl(4) rows by simp
  have "set ?all = {r. \<exists>p rows. map_of files p = Some rows \<and> pat p \<and> r \<in> set rows}"
    by (rule matching_rows) (use inv in \<open>simp add: archive_inv_def\<close>)
  also have "\<dots> = {r \<in> rows_of files. pat (path_of r)}" using inv by (fastforce simp: rows_of_def archive_inv_def)
  finally have "set ?all = {r \<in> rows_of files. pat (path_of r)}" .
  then show s: "set rows = {r \<in> rows_of files. pat (path_of r) \<and> want r}" using mset_eq_setD [OF m] by auto
  have "traverse dec rs = Inr (map D rs)" if "set rs \<subseteq> rows_of files" for rs
    using that ok by (induction rs) auto
  then show "traverse dec rows = Inr (map D rows)" using s by blast
  have "distinct (filter want ?all)" by (rule distinct_filter [OF matching_distinct [OF inv]])
  then have "distinct rows" by (rule iffD2 [OF mset_eq_imp_distinct_iff [OF m]])
  moreover have "inj_on D (set rows)" by (rule inj_on_inverseI [where g = E]) (use ok s in blast)
  ultimately show "distinct (map D rows)" unfolding distinct_map by blast
  show "sorted_wrt leq rows" using fl(5) rows by simp
qed

end

section \<open>The two stores\<close>

lemma show_nat_inject [simp]: "show_nat m = show_nat n \<longleftrightarrow> m = n"
  by (metis digits_val_show_nat)

lemma show_int_inject: "0 \<le> i \<Longrightarrow> 0 \<le> j \<Longrightarrow> show_int i = show_int j \<Longrightarrow> i = j"
  by (simp add: show_int_def split: if_splits)

lemma resolution_value_inject: "resolution_value r = resolution_value s \<Longrightarrow> r = s"
  by (cases r; cases s) simp_all

definition bar_row_path :: "BarRow \<Rightarrow> path" where
  "bar_row_path r =
     partition_path (take (length (br_contract r) - SYMBOL_SUFFIX_LEN) (br_contract r)) (br_resolution r)
       (year_of (dt_date (br_ts r))) (month_of (dt_date (br_ts r)))"

definition settle_row_path :: "SettleRow \<Rightarrow> path" where
  "settle_row_path r =
     settle_partition_path (take (length (sr_contract r) - SYMBOL_SUFFIX_LEN) (sr_contract r)) (year_of (sr_as_of_date r))"

interpretation bar_layout: parquet_layout bar_dedupe bar_row_path bar_leq
  by unfold_locales (simp add: bar_dedupe_def bar_row_path_def)

interpretation settle_layout: parquet_layout settle_dedupe settle_row_path settle_leq
  by unfold_locales (simp add: settle_dedupe_def settle_row_path_def)

text \<open>Grouping a batch by a key that names the partition.\<close>

lemma group_parts:
  fixes K :: "'b \<Rightarrow> 'k" and path_fn :: "'k \<Rightarrow> path"
  assumes inj: "inj_on path_fn (K ` set bs)"
    and parts: "parts = map (\<lambda>(k, kbs). (path_fn k, map snd kbs)) (group_by fst (map (\<lambda>b. (K b, b)) bs))"
  shows "distinct (map fst parts)" "(p, xs) \<in> set parts \<longleftrightarrow> xs = filter (\<lambda>b. path_fn (K b) = p) bs \<and> xs \<noteq> []"
proof -
  let ?g = "group_by fst (map (\<lambda>b. (K b, b)) bs)"
  have keys: "set (map fst ?g) = K ` set bs"
  proof (rule set_eqI)
    fix k
    have "k \<in> set (map fst ?g) \<longleftrightarrow> map_of ?g k \<noteq> None" by (simp only: map_of_key not_not)
    also have "\<dots> \<longleftrightarrow> k \<in> K ` set bs" by (auto simp: map_of_group_by Let_def filter_empty_conv)
    finally show "k \<in> set (map fst ?g) \<longleftrightarrow> k \<in> K ` set bs" .
  qed
  have "distinct (map path_fn (map fst ?g))" by (subst distinct_map) (simp only: distinct_group_by keys inj simp_thms)
  moreover have "map fst parts = map path_fn (map fst ?g)" by (simp add: parts split_def)
  ultimately show "distinct (map fst parts)" by (simp only:)
  have g: "(k, kbs) \<in> set ?g \<longleftrightarrow> kbs = map (\<lambda>b. (K b, b)) (filter (\<lambda>b. K b = k) bs) \<and> kbs \<noteq> []" for k kbs
    unfolding group_by_mem by (simp add: filter_map o_def)
  have f: "filter (\<lambda>b. path_fn (K b) = path_fn k) bs = filter (\<lambda>b. K b = k) bs" if "k \<in> K ` set bs" for k
    using that inj by (intro filter_cong) (auto simp: inj_on_def)
  show "(p, xs) \<in> set parts \<longleftrightarrow> xs = filter (\<lambda>b. path_fn (K b) = p) bs \<and> xs \<noteq> []"
  proof
    assume "(p, xs) \<in> set parts"
    then obtain k kbs where k: "(k, kbs) \<in> set ?g" "p = path_fn k" "xs = map snd kbs" by (auto simp: parts)
    have kin: "k \<in> K ` set bs" unfolding keys [symmetric] using k(1) by force
    have kb: "kbs = map (\<lambda>b. (K b, b)) (filter (\<lambda>b. K b = k) bs)" "kbs \<noteq> []" using k(1) g by blast+
    have "xs = filter (\<lambda>b. K b = k) bs" unfolding k(3) kb(1) by (simp add: o_def)
    moreover have "xs \<noteq> []" using kb(2) k(3) by simp
    ultimately show "xs = filter (\<lambda>b. path_fn (K b) = p) bs \<and> xs \<noteq> []" unfolding k(2) f [OF kin] by blast
  next
    assume xs: "xs = filter (\<lambda>b. path_fn (K b) = p) bs \<and> xs \<noteq> []"
    then obtain b where b: "b \<in> set bs" "p = path_fn (K b)" by (auto simp: filter_empty_conv)
    let ?kbs = "map (\<lambda>b. (K b, b)) (filter (\<lambda>c. K c = K b) bs)"
    have "(K b, ?kbs) \<in> set ?g" using b(1) by (simp add: g filter_empty_conv) blast
    moreover have "xs = map snd ?kbs" using xs f [of "K b"] b by (simp add: o_def)
    ultimately show "(p, xs) \<in> set parts" using b(2) by (force simp: parts)
  qed
qed

section \<open>Writing bars\<close>

text \<open>The row of a bar and the bar a row is read back as: the same bar with its times in UTC.\<close>

definition utc_of :: "datetime \<Rightarrow> datetime" where
  "utc_of t = \<lparr>dt_local = dt_instant t, dt_off = Some 0\<rparr>"

definition bar_row :: "RawBar \<Rightarrow> BarRow" where
  "bar_row b =
     \<lparr>br_contract = rb_contract b, br_ts = utc_of (rb_ts b), br_resolution = resolution_value (rb_resolution b), br_open = rb_open b,
      br_high = rb_high b, br_low = rb_low b, br_close = rb_close b, br_volume = rb_volume b, br_oi = rb_oi b,
      br_source_id = rb_source_id b, br_as_of_iso = utc_of (rb_as_of_iso b), br_content_bytes_sha = rb_content_bytes_sha b\<rparr>"

definition utc_bar :: "RawBar \<Rightarrow> RawBar" where
  "utc_bar b = b\<lparr>rb_ts := utc_of (rb_ts b), rb_as_of_iso := utc_of (rb_as_of_iso b)\<rparr>"

text \<open>A bar the store can hold: valid, with a root, and at times that have a UTC representation.\<close>

definition storable :: "RawBar \<Rightarrow> bool" where
  "storable b \<longleftrightarrow>
     RawBar_post_init b = Inr () \<and> SYMBOL_SUFFIX_LEN < length (rb_contract b) \<and>
     to_utc (rb_ts b) = Inr (utc_of (rb_ts b)) \<and> to_utc (rb_as_of_iso b) = Inr (utc_of (rb_as_of_iso b))"

definition healthy :: "disk \<Rightarrow> bool" where
  "healthy dk \<longleftrightarrow> (\<forall>p. \<not> dk_no_dir dk p \<and> \<not> dk_no_io dk p)"

abbreviation bar_archive :: "BarRow archive \<Rightarrow> bool" where
  "bar_archive \<equiv> archive_inv bar_dedupe bar_leq bar_row_path"

text \<open>The rows a batch adds: the last of every dedupe key that the archive does not hold yet.\<close>

definition new_rows :: "('r \<Rightarrow> 'k) \<Rightarrow> 'r list \<Rightarrow> 'r archive \<Rightarrow> 'r set" where
  "new_rows key rows files = {r \<in> last_rows key rows. key r \<notin> key ` rows_of files}"

lemma added_new_rows: "bar_layout.added = new_rows bar_dedupe" "settle_layout.added = new_rows settle_dedupe"
  by (auto simp: bar_layout.added_def settle_layout.added_def new_rows_def fun_eq_iff)

lemma storable_row:
  assumes "storable b"
  shows "bar_to_row b = Inr (bar_row b)" "row_to_bar (bar_row b) = Inr (utc_bar b)"
    "partition_key b = Inr (take (length (rb_contract b) - SYMBOL_SUFFIX_LEN) (rb_contract b), resolution_value (rb_resolution b),
       year_of (dt_date (utc_of (rb_ts b))), month_of (dt_date (utc_of (rb_ts b))))"
proof -
  have "resolution_of (resolution_value r) = Inr r" for r by (cases r) (simp_all add: resolution_of_def)
  moreover have "RawBar_post_init (utc_bar b) = Inr ()"
    using assms by (auto simp: storable_def utc_bar_def RawBar_post_init_iff utc_of_def dt_aware_def)
  ultimately show "row_to_bar (bar_row b) = Inr (utc_bar b)"
    by (cases b) (simp add: row_to_bar_def bar_row_def utc_bar_def Let_def)
qed (use assms in \<open>simp_all add: storable_def bar_to_row_def bar_row_def partition_key_def bar_root_def\<close>)

lemma utc_year_pos: "to_utc t = Inr u \<Longrightarrow> 0 \<le> year_of (dt_date u)"
proof -
  assume "to_utc t = Inr u"
  then have "86400000000 \<le> dt_local u" by (auto simp: to_utc_def dt_add_def Let_def split: if_splits)
  then have "1 \<le> dt_date u" unfolding dt_date_def by (metis pos_imp_zdiv_pos_iff zdiv_mono1 zero_less_numeral div_self zero_neq_numeral)
  then have "year_of 1 \<le> year_of (dt_date u)" by (rule year_of_mono)
  moreover have "year_of 1 = 1" by code_simp
  ultimately show ?thesis by simp
qed

lemma write_bars_groups:
  assumes "\<forall>b \<in> set bars. storable b"
  defines "K \<equiv> \<lambda>b. (take (length (rb_contract b) - SYMBOL_SUFFIX_LEN) (rb_contract b), resolution_value (rb_resolution b),
       year_of (dt_date (utc_of (rb_ts b))), month_of (dt_date (utc_of (rb_ts b))))"
    and "path_fn \<equiv> \<lambda>(r, resolution, year, month). partition_path r resolution year month"
  shows "bar_groups bars = Inr (map (\<lambda>(k, kbs). (path_fn k, map snd kbs)) (group_by fst (map (\<lambda>b. (K b, b)) bars)))"
    "inj_on path_fn (K ` set bars)" "path_fn (K b) = bar_row_path (bar_row b)"
proof -
  have "traverse (\<lambda>b. bindE (partition_key b) (\<lambda>k. Inr (k, b))) bs = Inr (map (\<lambda>b. (K b, b)) bs)" if "\<forall>b \<in> set bs. storable b" for bs
    using that by (induction bs) (simp_all add: storable_row K_def)
  then show "bar_groups bars = Inr (map (\<lambda>(k, kbs). (path_fn k, map snd kbs)) (group_by fst (map (\<lambda>b. (K b, b)) bars)))"
    using assms(1) by (simp add: bar_groups_def path_fn_def split_def)
  have pos: "0 \<le> year_of (dt_date (utc_of (rb_ts b)))" if "b \<in> set bars" for b
    using that assms(1) utc_year_pos by (auto simp: storable_def)
  have month: "0 \<le> month_of d" for d by (simp add: month_of_def Let_def)
  have "K a = K b" if "a \<in> set bars" "b \<in> set bars" "path_fn (K a) = path_fn (K b)" for a b
  proof -
    have "show_int (year_of (dt_date (utc_of (rb_ts a)))) = show_int (year_of (dt_date (utc_of (rb_ts b))))"
      "nat (month_of (dt_date (utc_of (rb_ts a)))) = nat (month_of (dt_date (utc_of (rb_ts b))))"
      "fst (K a) = fst (K b)" "fst (snd (K a)) = fst (snd (K b))"
      using that(3) by (simp_all add: K_def path_fn_def partition_path_def)
    then show ?thesis
      using show_int_inject [OF pos [OF that(1)] pos [OF that(2)]] month by (simp add: K_def eq_nat_nat_iff)
  qed
  then show "inj_on path_fn (K ` set bars)" by (auto simp: inj_on_def)
  show "path_fn (K b) = bar_row_path (bar_row b)" by (simp add: path_fn_def K_def bar_row_path_def bar_row_def)
qed

text \<open>
  C22. Writing to the archive adds exactly the rows it does not hold yet, and counts them. On a disk that
  works, writing any batch of storable bars returns; the archive then holds its old rows and, for every new
  dedupe key of the batch, the last bar with that key; \<open>rows_written\<close> is the number of new rows and every
  other bar of the batch is in \<open>dedupe_count\<close>. No file ends up with a duplicate key, a row of another
  partition or rows out of order.
\<close>

theorem write_bars_merges:
  assumes "frame_laws bar_dedupe bar_leq fs" "healthy dk" "bar_archive files" "\<forall>b \<in> set bars. storable b"
  shows "\<exists>r files'. write_bars dk fs bars files = (Inr r, files') \<and> bar_archive files' \<and>
           rows_of files' = rows_of files \<union> new_rows bar_dedupe (map bar_row bars) files \<and>
           sw_rows_written r = int (card (new_rows bar_dedupe (map bar_row bars) files)) \<and>
           total_submitted r = int (length bars)"
proof (cases "bars = []")
  case True
  then show ?thesis using assms(3)
    by (simp add: write_bars_def StoreWriteResult_new_def StoreWriteResult_post_init_def new_rows_def last_rows_def total_submitted_def)
next
  case False
  note g = write_bars_groups [OF assms(4)]
  let ?K = "\<lambda>b. (take (length (rb_contract b) - SYMBOL_SUFFIX_LEN) (rb_contract b), resolution_value (rb_resolution b),
       year_of (dt_date (utc_of (rb_ts b))), month_of (dt_date (utc_of (rb_ts b))))"
  let ?path = "\<lambda>(r, resolution, year, month). partition_path r resolution year month"
  have conv: "bar_to_row b = Inr (bar_row b) \<and> bar_row_path (bar_row b) = ?path (?K b) \<and> \<not> dk_no_dir dk (?path (?K b)) \<and>
      \<not> dk_no_io dk (?path (?K b))" if "b \<in> set bars" for b
    using that assms(2,4) g(3) [of b] storable_row(1) [of b] by (simp add: healthy_def)
  note parts = group_parts [OF g(2) refl]
  from bar_layout.write_batch_spec [OF assms(1,3) conv parts] obtain files' where
    "write_batch dk fs bar_to_row (map (\<lambda>(k, kbs). (?path k, map snd kbs)) (group_by fst (map (\<lambda>b. (?K b, b)) bars))) files =
       (Inr \<lparr>sw_rows_written = int (card (bar_layout.added (map bar_row bars) files)),
             sw_dedupe_count = int (length bars) - int (card (bar_layout.added (map bar_row bars) files))\<rparr>, files')"
    "bar_archive files'" "rows_of files' = rows_of files \<union> bar_layout.added (map bar_row bars) files"
    by blast
  then show ?thesis using False g(1) by (simp add: write_bars_def total_submitted_def added_new_rows)
qed

section \<open>Reading bars\<close>

text \<open>Every row of an archive the store has written is the row of a storable bar.\<close>

definition bar_rows_ok :: "BarRow archive \<Rightarrow> bool" where
  "bar_rows_ok files \<longleftrightarrow> (\<forall>r \<in> rows_of files. \<exists>b. storable b \<and> r = bar_row b)"

definition in_query :: "StoreQuery \<Rightarrow> RawBar \<Rightarrow> bool" where
  "in_query q b \<longleftrightarrow>
     rb_contract b = sq_contract q \<and> sq_resolution q = Some (rb_resolution b) \<and> dt_instant (sq_ts_start q) \<le> dt_instant (rb_ts b) \<and>
     (if sq_inclusive_end q then dt_instant (rb_ts b) \<le> dt_instant (sq_ts_end q) else dt_instant (rb_ts b) < dt_instant (sq_ts_end q))"

lemma dt_instant_utc_of [simp]: "dt_instant (utc_of t) = dt_instant t"
  by (simp add: utc_of_def dt_instant_def)

lemma write_keeps_ok:
  assumes "bar_rows_ok files" "\<forall>b \<in> set bars. storable b" "rows_of files' = rows_of files \<union> new_rows key (map bar_row bars) files"
  shows "bar_rows_ok files'"
proof -
  have "\<exists>b. storable b \<and> r = bar_row b" if "r \<in> new_rows key (map bar_row bars) files" for r
    using that assms(2) last_rows_subset [of key "map bar_row bars"] by (force simp: new_rows_def)
  then show ?thesis using assms(1,3) by (auto simp: bar_rows_ok_def)
qed

lemma selected_image:
  assumes "\<forall>r \<in> A. \<exists>b. S b \<and> r = f b" "\<And>b. S b \<Longrightarrow> Q (f b) \<longleftrightarrow> R b"
  shows "{r \<in> A. Q r} = f ` {b. S b \<and> f b \<in> A \<and> R b}"
  using assms by auto

lemma bar_row_fields:
  "br_contract (bar_row b) = rb_contract b" "dt_instant (br_ts (bar_row b)) = dt_instant (rb_ts b)"
  by (simp_all add: bar_row_def)

lemma row_file:
  assumes "storable b"
  shows "bar_file_of (take (length c - SYMBOL_SUFFIX_LEN) c) (resolution_value res) (bar_row_path (bar_row b)) \<longleftrightarrow>
           take (length (rb_contract b) - SYMBOL_SUFFIX_LEN) (rb_contract b) = take (length c - SYMBOL_SUFFIX_LEN) c \<and> rb_resolution b = res"
  by (auto simp: bar_row_path_def bar_row_def partition_path_def has_prefix_def dest: resolution_value_inject)

text \<open>
  Reading from the archive returns exactly what a query asks for. For a bar query on an archive that
  only ever received storable bars, the result is the bars of that contract and resolution whose time lies
  in the window, half-open or closed as the query says, each once, in the order of time, and as they were
  stored, with their times in UTC.
\<close>

theorem read_bars_exact:
  assumes "frame_laws bar_dedupe bar_leq fs" "healthy dk" "bar_archive files" "bar_rows_ok files"
    and "sq_resolution q = Some res" "SYMBOL_SUFFIX_LEN < length (sq_contract q)"
    and "to_utc (sq_ts_start q) = Inr t0" "to_utc (sq_ts_end q) = Inr t1"
  shows "\<exists>bars. read_bars dk fs q files = Inr bars \<and> distinct bars \<and>
           set bars = utc_bar ` {b. storable b \<and> bar_row b \<in> rows_of files \<and> in_query q b} \<and>
           sorted (map (\<lambda>b. dt_instant (rb_ts b)) bars)"
proof -
  let ?root = "take (length (sq_contract q) - SYMBOL_SUFFIX_LEN) (sq_contract q)"
  let ?pat = "bar_file_of ?root (resolution_value res)"
  let ?want = "\<lambda>r. br_contract r = sq_contract q \<and> dt_instant t0 \<le> dt_instant (br_ts r) \<and>
      (if sq_inclusive_end q then dt_instant (br_ts r) \<le> dt_instant t1 else dt_instant (br_ts r) < dt_instant t1)"
  let ?D = "\<lambda>r. projr (row_to_bar r)"
  define rows where "rows = fr_sort fs (filter ?want (concat (map snd (matching_files ?pat files))))"
  have ok: "row_to_bar r = Inr (?D r) \<and> bar_row (?D r) = r" if r: "r \<in> rows_of files" for r
  proof -
    obtain b where "storable b" "r = bar_row b" using assms(4) r by (auto simp: bar_rows_ok_def)
    then show ?thesis using storable_row(2) [of b] by (simp add: bar_row_def utc_bar_def utc_of_def dt_instant_def)
  qed
  note sel = bar_layout.select_spec [OF assms(1,3) ok rows_def]
  have t: "dt_instant t0 = dt_instant (sq_ts_start q)" "dt_instant t1 = dt_instant (sq_ts_end q)"
    using to_utc_Inr assms(7,8) by blast+
  have q: "?pat (bar_row_path (bar_row b)) \<and> ?want (bar_row b) \<longleftrightarrow> in_query q b" if "storable b" for b
    using row_file [OF that, of "sq_contract q" res] t assms(5) by (auto simp: in_query_def bar_row_fields split: if_splits)
  have "{r \<in> rows_of files. ?pat (bar_row_path r) \<and> ?want r} = bar_row ` {b. storable b \<and> bar_row b \<in> rows_of files \<and> in_query q b}"
    by (rule selected_image) (fact assms(4) [unfolded bar_rows_ok_def], erule q)
  then have "set (map ?D rows) = (\<lambda>b. ?D (bar_row b)) ` {b. storable b \<and> bar_row b \<in> rows_of files \<and> in_query q b}"
    using sel(1) by (simp only: set_map image_image)
  also have "\<dots> = utc_bar ` {b. storable b \<and> bar_row b \<in> rows_of files \<and> in_query q b}"
    by (intro image_cong) (auto simp: storable_row(2))
  finally have "set (map ?D rows) = utc_bar ` {b. storable b \<and> bar_row b \<in> rows_of files \<and> in_query q b}" .
  moreover have "sorted (map (\<lambda>b. dt_instant (rb_ts b)) (map ?D rows))"
  proof -
    have "dt_instant (rb_ts (?D r)) = dt_instant (br_ts r)" if "r \<in> set rows" for r
      using ok [of r] that sel(1) bar_row_fields(2) [of "?D r"] by simp
    then have "map (\<lambda>b. dt_instant (rb_ts b)) (map ?D rows) = map (\<lambda>r. dt_instant (br_ts r)) rows" by simp
    moreover have "sorted_wrt (\<lambda>r s. dt_instant (br_ts r) \<le> dt_instant (br_ts s)) rows"
      by (rule sorted_wrt_mono_rel [OF _ sel(4)]) (auto simp: bar_leq_def)
    ultimately show ?thesis by (simp only: sorted_map)
  qed
  moreover have "read_bars dk fs q files = Inr (map ?D rows)"
  proof (cases "matching_files ?pat files = []")
    case True
    then have "mset rows = {#}" using frame_lawsD(4) [OF assms(1)] rows_def by simp
    then show ?thesis using True assms(5,6) by (simp add: read_bars_def bar_root_def Let_def)
  next
    case False
    have "\<not> list_ex (dk_no_io dk) (map fst (matching_files ?pat files))" using assms(2) by (auto simp: healthy_def list_ex_iff)
    then show ?thesis using False assms(5-8) sel(2) by (simp add: read_bars_def bar_root_def Let_def rows_def)
  qed
  ultimately show ?thesis using sel(3) by blast
qed

section \<open>The archive as a whole\<close>

text \<open>
  C23. A bar that is written is read back. Whatever an archive already holds, after a batch of storable bars
  with distinct dedupe keys is written, every bar of the batch whose key was new is in the result of every
  query that covers it, as it was apart from the time zone; and writing the same batch once more changes no
  row, writes nothing and counts every bar as a duplicate.
\<close>

theorem write_read_roundtrip:
  assumes "frame_laws bar_dedupe bar_leq fs" "healthy dk" "bar_archive files" "bar_rows_ok files" "\<forall>b \<in> set bars. storable b"
    and "distinct (map (bar_dedupe \<circ> bar_row) bars)" "b \<in> set bars" "bar_dedupe (bar_row b) \<notin> bar_dedupe ` rows_of files"
    and "in_query q b" "to_utc (sq_ts_start q) = Inr t0" "to_utc (sq_ts_end q) = Inr t1"
  shows "\<exists>r files' result r2 files2. write_bars dk fs bars files = (Inr r, files') \<and>
           read_bars dk fs q files' = Inr result \<and> utc_bar b \<in> set result \<and>
           write_bars dk fs bars files' = (Inr r2, files2) \<and> rows_of files2 = rows_of files' \<and>
           sw_rows_written r2 = 0 \<and> sw_dedupe_count r2 = int (length bars)"
proof -
  obtain r files' where w: "write_bars dk fs bars files = (Inr r, files')" "bar_archive files'"
    "rows_of files' = rows_of files \<union> new_rows bar_dedupe (map bar_row bars) files"
    using write_bars_merges [OF assms(1-3,5)] by blast
  have sb: "storable b" using assms(5,7) by blast
  have ok: "bar_rows_ok files'" by (rule write_keeps_ok [OF assms(4,5) w(3)])
  have last: "bar_row c \<in> last_rows bar_dedupe (map bar_row bars)" if "c \<in> set bars" for c
    using that assms(6) find_rev_distinct [of bar_dedupe "map bar_row bars" "bar_row c"] by (simp add: last_rows_def)
  have "bar_row b \<in> rows_of files'" using last [OF assms(7)] w(3) assms(8) by (simp add: new_rows_def)
  moreover have "sq_resolution q = Some (rb_resolution b)" "SYMBOL_SUFFIX_LEN < length (sq_contract q)"
    using assms(9) sb by (auto simp: in_query_def storable_def)
  ultimately obtain result where "read_bars dk fs q files' = Inr result" "utc_bar b \<in> set result"
    using read_bars_exact [OF assms(1,2) w(2) ok _ _ assms(10,11)] sb assms(9) by blast
  moreover obtain r2 files2 where w2: "write_bars dk fs bars files' = (Inr r2, files2)"
    "rows_of files2 = rows_of files' \<union> new_rows bar_dedupe (map bar_row bars) files'"
    "sw_rows_written r2 = int (card (new_rows bar_dedupe (map bar_row bars) files'))" "total_submitted r2 = int (length bars)"
    using write_bars_merges [OF assms(1,2) w(2) assms(5)] by blast
  moreover have "new_rows bar_dedupe (map bar_row bars) files' = {}" using w(3) by (auto simp: new_rows_def)
  ultimately show ?thesis using w(1) by (auto simp: total_submitted_def)
qed

section \<open>Settles\<close>

definition settle_row :: "Settle \<Rightarrow> SettleRow" where
  "settle_row s =
     \<lparr>sr_contract = st_contract s, sr_as_of_date = st_as_of_date s, sr_settle = st_settle s,
      sr_settle_state = settle_state_value (st_settle_state s), sr_open = st_open s, sr_high = st_high s, sr_low = st_low s,
      sr_last = st_last s, sr_change = st_change s, sr_volume_est = st_volume_est s, sr_oi_prior = st_oi_prior s,
      sr_source_id = st_source_id s, sr_as_of_iso = map_option utc_of (st_as_of_iso s),
      sr_content_bytes_sha = st_content_bytes_sha s, sr_cme_month_code = st_cme_month_code s\<rparr>"

definition utc_settle :: "Settle \<Rightarrow> Settle" where
  "utc_settle s = s\<lparr>st_as_of_iso := map_option utc_of (st_as_of_iso s)\<rparr>"

definition storable_settle :: "Settle \<Rightarrow> bool" where
  "storable_settle s \<longleftrightarrow>
     Settle_post_init s = Inr () \<and> SYMBOL_SUFFIX_LEN < length (st_contract s) \<and> 1 \<le> st_as_of_date s \<and>
     (case st_as_of_iso s of None \<Rightarrow> True | Some t \<Rightarrow> to_utc t = Inr (utc_of t))"

abbreviation settle_archive :: "SettleRow archive \<Rightarrow> bool" where
  "settle_archive \<equiv> archive_inv settle_dedupe settle_leq settle_row_path"

definition settle_rows_ok :: "SettleRow archive \<Rightarrow> bool" where
  "settle_rows_ok files \<longleftrightarrow> (\<forall>r \<in> rows_of files. \<exists>s. storable_settle s \<and> r = settle_row s)"

lemma storable_settle_row:
  assumes "storable_settle s"
  shows "settle_to_row s = Inr (settle_row s)" "row_to_settle (settle_row s) = Inr (utc_settle s)"
    "bar_root (st_contract s) = Inr (take (length (st_contract s) - SYMBOL_SUFFIX_LEN) (st_contract s))"
proof -
  show "settle_to_row s = Inr (settle_row s)" "bar_root (st_contract s) = Inr (take (length (st_contract s) - SYMBOL_SUFFIX_LEN) (st_contract s))"
    using assms by (auto simp: storable_settle_def settle_to_row_def settle_row_def bar_root_def split: option.splits)
  have "settle_state_of (settle_state_value x) = Some x" for x by (cases x) (simp_all add: settle_state_of_def)
  moreover have "Settle_post_init (utc_settle s) = Inr ()"
    using assms by (auto simp: storable_settle_def utc_settle_def Settle_post_init_def utc_of_def dt_aware_def assert_tz_aware_def res_simps
        split: option.splits)
  ultimately show "row_to_settle (settle_row s) = Inr (utc_settle s)"
    by (cases s) (simp add: row_to_settle_def settle_row_def utc_settle_def Let_def)
qed

lemma utc_of_utc_of [simp]: "utc_of (utc_of t) = utc_of t"
  by (simp add: utc_of_def dt_instant_def)

lemma settle_row_utc: "settle_row (utc_settle s) = settle_row s"
  by (simp add: settle_row_def utc_settle_def option.map_comp o_def)

lemma write_settles_merges:
  assumes "frame_laws settle_dedupe settle_leq fs" "healthy dk" "settle_archive files" "\<forall>s \<in> set settles. storable_settle s"
  shows "\<exists>r files'. write_settles dk fs settles files = (Inr r, files') \<and> settle_archive files' \<and>
           rows_of files' = rows_of files \<union> new_rows settle_dedupe (map settle_row settles) files \<and>
           sw_rows_written r = int (card (new_rows settle_dedupe (map settle_row settles) files)) \<and>
           total_submitted r = int (length settles)"
proof (cases "settles = []")
  case True
  then show ?thesis using assms(3)
    by (simp add: write_settles_def StoreWriteResult_new_def StoreWriteResult_post_init_def new_rows_def last_rows_def total_submitted_def)
next
  case False
  let ?K = "\<lambda>s. (take (length (st_contract s) - SYMBOL_SUFFIX_LEN) (st_contract s), year_of (st_as_of_date s))"
  let ?path = "\<lambda>(r, year). settle_partition_path r year"
  have "traverse (\<lambda>s. bindE (bar_root (st_contract s)) (\<lambda>r. Inr ((r, year_of (st_as_of_date s)), s))) ss = Inr (map (\<lambda>s. (?K s, s)) ss)"
    if "\<forall>s \<in> set ss. storable_settle s" for ss
    using that by (induction ss) (simp_all add: storable_settle_row)
  then have g: "settle_groups settles = Inr (map (\<lambda>(k, kss). (?path k, map snd kss)) (group_by fst (map (\<lambda>s. (?K s, s)) settles)))"
    using assms(4) by (simp add: settle_groups_def split_def)
  have "0 \<le> year_of (st_as_of_date s)" if "s \<in> set settles" for s
  proof -
    have "year_of 1 \<le> year_of (st_as_of_date s)" using that assms(4) by (intro year_of_mono) (auto simp: storable_settle_def)
    moreover have "year_of 1 = 1" by code_simp
    ultimately show ?thesis by simp
  qed
  then have inj: "inj_on ?path (?K ` set settles)" by (auto simp: inj_on_def settle_partition_path_def dest: show_int_inject)
  have conv: "settle_to_row s = Inr (settle_row s) \<and> settle_row_path (settle_row s) = ?path (?K s) \<and> \<not> dk_no_dir dk (?path (?K s)) \<and>
      \<not> dk_no_io dk (?path (?K s))" if "s \<in> set settles" for s
    using that assms(2,4) storable_settle_row(1) [of s] by (simp add: healthy_def settle_row_path_def settle_row_def)
  from settle_layout.write_batch_spec [OF assms(1,3) conv group_parts [OF inj refl]] obtain files' where
    "write_batch dk fs settle_to_row (map (\<lambda>(k, kss). (?path k, map snd kss)) (group_by fst (map (\<lambda>s. (?K s, s)) settles))) files =
       (Inr \<lparr>sw_rows_written = int (card (settle_layout.added (map settle_row settles) files)),
             sw_dedupe_count = int (length settles) - int (card (settle_layout.added (map settle_row settles) files))\<rparr>, files')"
    "settle_archive files'" "rows_of files' = rows_of files \<union> settle_layout.added (map settle_row settles) files"
    by blast
  then show ?thesis using False g by (simp add: write_settles_def total_submitted_def added_new_rows)
qed

lemma read_settles_exact:
  assumes "frame_laws settle_dedupe settle_leq fs" "healthy dk" "settle_archive files" "settle_rows_ok files"
    and "SYMBOL_SUFFIX_LEN < length c" "d0 \<le> d1"
  shows "\<exists>result. read_settles dk fs c d0 d1 files = Inr result \<and> distinct result \<and>
           set result = utc_settle ` {s. storable_settle s \<and> settle_row s \<in> rows_of files \<and>
                                         (st_contract s = c \<and> d0 \<le> st_as_of_date s \<and> st_as_of_date s \<le> d1)} \<and>
           sorted_wrt (\<lambda>s t. settle_leq (settle_row s) (settle_row t)) result"
proof -
  let ?pat = "settle_file_of (take (length c - SYMBOL_SUFFIX_LEN) c)"
  let ?want = "\<lambda>r. sr_contract r = c \<and> d0 \<le> sr_as_of_date r \<and> sr_as_of_date r \<le> d1"
  let ?D = "\<lambda>r. projr (row_to_settle r)"
  define rows where "rows = fr_sort fs (filter ?want (concat (map snd (matching_files ?pat files))))"
  have ok: "row_to_settle r = Inr (?D r) \<and> settle_row (?D r) = r" if r: "r \<in> rows_of files" for r
  proof -
    obtain s where "storable_settle s" "r = settle_row s" using assms(4) r by (auto simp: settle_rows_ok_def)
    then show ?thesis using storable_settle_row(2) [of s] by (simp add: settle_row_utc)
  qed
  note sel = settle_layout.select_spec [OF assms(1,3) ok rows_def]
  have q: "?pat (settle_row_path (settle_row s)) \<and> ?want (settle_row s) \<longleftrightarrow> st_contract s = c \<and> d0 \<le> st_as_of_date s \<and> st_as_of_date s \<le> d1" for s
    by (auto simp: settle_row_path_def settle_row_def settle_partition_path_def has_prefix_def)
  let ?S = "{s. storable_settle s \<and> settle_row s \<in> rows_of files \<and> (st_contract s = c \<and> d0 \<le> st_as_of_date s \<and> st_as_of_date s \<le> d1)}"
  have "{r \<in> rows_of files. ?pat (settle_row_path r) \<and> ?want r} = settle_row ` ?S"
    by (rule selected_image) (fact assms(4) [unfolded settle_rows_ok_def], rule q)
  then have "set (map ?D rows) = (\<lambda>s. ?D (settle_row s)) ` ?S"
    using sel(1) by (simp only: set_map image_image)
  also have "\<dots> = utc_settle ` ?S" by (intro image_cong) (auto simp: storable_settle_row(2))
  finally have "set (map ?D rows) = utc_settle ` ?S" .
  moreover have "sorted_wrt (\<lambda>s t. settle_leq (settle_row s) (settle_row t)) (map ?D rows)"
    unfolding sorted_wrt_map by (rule sorted_wrt_mono_rel [OF _ sel(4)]) (use ok sel(1) in auto)
  moreover have "read_settles dk fs c d0 d1 files = Inr (map ?D rows)"
  proof (cases "matching_files ?pat files = []")
    case True
    then have "mset rows = {#}" using frame_lawsD(4) [OF assms(1)] rows_def by simp
    then show ?thesis using True assms(5,6) by (simp add: read_settles_def bar_root_def Let_def)
  next
    case False
    have "\<not> list_ex (dk_no_io dk) (map fst (matching_files ?pat files))" using assms(2) by (auto simp: healthy_def list_ex_iff)
    then show ?thesis using False assms(5,6) sel(2) by (simp add: read_settles_def bar_root_def Let_def rows_def)
  qed
  ultimately show ?thesis using sel(3) by blast
qed

section \<open>Frames as lists\<close>

text \<open>An instance of the frame operations, for the examples.\<close>

fun insert_by :: "('r \<Rightarrow> 'r \<Rightarrow> bool) \<Rightarrow> 'r \<Rightarrow> 'r list \<Rightarrow> 'r list" where
  "insert_by leq x [] = [x]"
| "insert_by leq x (y # ys) = (if leq x y then x # y # ys else y # insert_by leq x ys)"

definition list_frames :: "('r \<Rightarrow> 'k) \<Rightarrow> ('r \<Rightarrow> 'r \<Rightarrow> bool) \<Rightarrow> 'r frames" where
  "list_frames key leq =
     \<lparr>fr_unique = (\<lambda>rows. filter (\<lambda>r. List.find (\<lambda>s. key s = key r) (rev rows) = Some r) (remdups rows)),
      fr_anti = (\<lambda>new old. filter (\<lambda>r. key r \<notin> key ` set old) new),
      fr_sort = (\<lambda>rows. foldr (insert_by leq) rows [])\<rparr>"

lemma insert_by_spec:
  assumes "\<And>x y. leq x y \<or> leq y x" "\<And>x y z. leq x y \<Longrightarrow> leq y z \<Longrightarrow> leq x z" "sorted_wrt leq ys"
  shows "mset (insert_by leq x ys) = add_mset x (mset ys) \<and> sorted_wrt leq (insert_by leq x ys)"
  using assms(3)
proof (induction ys)
  case (Cons y ys)
  have set_ins: "set (insert_by leq x zs) = insert x (set zs)" for zs by (induction zs) auto
  show ?case using Cons assms(1) [of x y] assms(2) by (auto simp: set_ins)
qed simp

lemma list_frames_laws:
  assumes "\<And>x y. leq x y \<or> leq y x" "\<And>x y z. leq x y \<Longrightarrow> leq y z \<Longrightarrow> leq x z"
  shows "frame_laws key leq (list_frames key leq)"
proof -
  let ?u = "\<lambda>rows. filter (\<lambda>r. List.find (\<lambda>s. key s = key r) (rev rows) = Some r) (remdups rows)"
  have "inj_on key (set (?u rows))" for rows by (rule inj_onI) force
  then have "distinct (map key (?u rows))" for rows by (simp add: distinct_map)
  moreover have "mset (foldr (insert_by leq) rows []) = mset rows \<and> sorted_wrt leq (foldr (insert_by leq) rows [])" for rows
    by (induction rows) (use insert_by_spec [of leq, OF assms] in auto)
  ultimately show ?thesis by (auto simp: frame_laws_def list_frames_def)
qed

lemma example_frames:
  "frame_laws bar_dedupe bar_leq (list_frames bar_dedupe bar_leq)"
  "frame_laws settle_dedupe settle_leq (list_frames settle_dedupe settle_leq)"
  by (rule list_frames_laws; auto simp: bar_leq_def settle_leq_def)+

definition good_disk :: disk where
  "good_disk = \<lparr>dk_no_dir = (\<lambda>_. False), dk_no_io = (\<lambda>_. False)\<rparr>"

lemma good_disk: "healthy good_disk"
  by (simp add: healthy_def good_disk_def)

text \<open>A bar of a London afternoon, an hour ahead of UTC.\<close>

definition london_bar :: "decimal \<Rightarrow> char \<Rightarrow> RawBar" where
  "london_bar price c =
     \<lparr>rb_contract = ''ESM26'', rb_ts = \<lparr>dt_local = 63849643200000000, dt_off = Some 3600000000\<rparr>, rb_resolution = MIN_5,
      rb_open = price, rb_high = price, rb_low = price, rb_close = price, rb_volume = 10, rb_oi = None, rb_source_id = ''a'',
      rb_as_of_iso = \<lparr>dt_local = 63849643200000000, dt_off = Some 0\<rparr>, rb_content_bytes_sha = replicate 64 c\<rparr>"

lemma london_bar_storable: "storable (london_bar price c)"
  by (simp add: storable_def london_bar_def RawBar_post_init_iff dt_aware_def SYMBOL_SUFFIX_LEN_def to_utc_def dt_add_def
      utc_of_def dt_instant_def max_ordinal_def)

definition london_query :: StoreQuery where
  "london_query = \<lparr>sq_contract = ''ESM26'', sq_ts_start = \<lparr>dt_local = 63849600000000000, dt_off = Some 0\<rparr>,
     sq_ts_end = \<lparr>dt_local = 63849686400000000, dt_off = Some 0\<rparr>, sq_resolution = Some MIN_5, sq_inclusive_end = False\<rparr>"

lemma london_query_covers: "in_query london_query (london_bar price c)"
  by (simp add: in_query_def london_query_def london_bar_def dt_instant_def)

lemma last_of_three: "key a = key b \<Longrightarrow> key c \<noteq> key a \<Longrightarrow> a \<noteq> b \<Longrightarrow> last_rows key [a, b, c] = {b, c}"
  by (auto simp: last_rows_def)

theorem write_bars_merges_witness:
  "\<exists>r files. write_bars good_disk (list_frames bar_dedupe bar_leq)
       [london_bar 100 CHR ''a'', london_bar 101 CHR ''a'', london_bar 102 CHR ''b''] [] = (Inr r, files) \<and>
     rows_of files = {bar_row (london_bar 101 CHR ''a''), bar_row (london_bar 102 CHR ''b'')} \<and>
     sw_rows_written r = 2 \<and> sw_dedupe_count r = 1"
proof -
  let ?bars = "[london_bar 100 CHR ''a'', london_bar 101 CHR ''a'', london_bar 102 CHR ''b'']"
  have st: "\<forall>b \<in> set ?bars. storable b" using london_bar_storable by simp
  have ne: "replicate 64 CHR ''a'' \<noteq> replicate 64 CHR ''b''" by (simp only: replicate_eq_replicate) simp
  have k: "bar_dedupe (bar_row (london_bar 100 CHR ''a'')) = bar_dedupe (bar_row (london_bar 101 CHR ''a''))"
    "bar_dedupe (bar_row (london_bar 102 CHR ''b'')) \<noteq> bar_dedupe (bar_row (london_bar 100 CHR ''a''))"
    "bar_row (london_bar 100 CHR ''a'') \<noteq> bar_row (london_bar 101 CHR ''a'')"
    unfolding bar_dedupe_def bar_row_def london_bar_def using ne by simp_all
  have "new_rows bar_dedupe (map bar_row ?bars) [] = {bar_row (london_bar 101 CHR ''a''), bar_row (london_bar 102 CHR ''b'')}"
    using last_of_three [of bar_dedupe, OF k] by (auto simp: new_rows_def)
  moreover have "bar_row (london_bar 101 CHR ''a'') \<noteq> bar_row (london_bar 102 CHR ''b'')" using k(1,2) by metis
  ultimately show ?thesis
    using write_bars_merges [OF example_frames(1) good_disk archive_inv_empty st] by (auto simp: total_submitted_def)
qed

theorem write_read_roundtrip_witness:
  "\<exists>r files result. write_bars good_disk (list_frames bar_dedupe bar_leq) [london_bar 100 CHR ''a''] [] = (Inr r, files) \<and>
     read_bars good_disk (list_frames bar_dedupe bar_leq) london_query files = Inr result \<and>
     utc_bar (london_bar 100 CHR ''a'') \<in> set result"
proof -
  let ?b = "london_bar 100 CHR ''a''"
  have st: "\<forall>b \<in> set [?b]. storable b" using london_bar_storable by simp
  have d: "distinct (map (bar_dedupe \<circ> bar_row) [?b])" "?b \<in> set [?b]" "bar_dedupe (bar_row ?b) \<notin> bar_dedupe ` rows_of []" by simp_all
  have ok: "bar_rows_ok []" by (simp add: bar_rows_ok_def)
  have t: "to_utc (sq_ts_start london_query) = Inr (sq_ts_start london_query)" "to_utc (sq_ts_end london_query) = Inr (sq_ts_end london_query)"
    by (simp_all add: london_query_def to_utc_def dt_add_def dt_instant_def max_ordinal_def)
  show ?thesis
    using write_read_roundtrip [OF example_frames(1) good_disk archive_inv_empty ok st d london_query_covers t] by blast
qed

theorem read_bars_exact_witness:
  "\<exists>bars. read_bars good_disk (list_frames bar_dedupe bar_leq) london_query
            [(bar_row_path (bar_row (london_bar 100 CHR ''a'')), [bar_row (london_bar 100 CHR ''a'')])] = Inr bars \<and>
     utc_bar (london_bar 100 CHR ''a'') \<in> set bars"
proof -
  let ?b = "london_bar 100 CHR ''a''"
  let ?files = "[(bar_row_path (bar_row ?b), [bar_row ?b])]"
  have rows: "rows_of ?files = {bar_row ?b}" by (auto simp: rows_of_def)
  have inv: "bar_archive ?files" by (simp add: archive_inv_def)
  have ok: "bar_rows_ok ?files" using london_bar_storable by (auto simp: bar_rows_ok_def rows)
  have q: "sq_resolution london_query = Some MIN_5" "SYMBOL_SUFFIX_LEN < length (sq_contract london_query)"
    by (simp_all add: london_query_def SYMBOL_SUFFIX_LEN_def)
  have t: "to_utc (sq_ts_start london_query) = Inr (sq_ts_start london_query)" "to_utc (sq_ts_end london_query) = Inr (sq_ts_end london_query)"
    by (simp_all add: london_query_def to_utc_def dt_add_def dt_instant_def max_ordinal_def)
  obtain bars where "read_bars good_disk (list_frames bar_dedupe bar_leq) london_query ?files = Inr bars"
    "set bars = utc_bar ` {b. storable b \<and> bar_row b \<in> rows_of ?files \<and> in_query london_query b}"
    using read_bars_exact [OF example_frames(1) good_disk inv ok q t] by blast
  then show ?thesis using london_bar_storable london_query_covers rows by auto
qed

text \<open>
  Revisions of a settlement are never lost. Writing a batch of settles with distinct dedupe keys adds
  every one whose key is new: a preliminary and a final settle of one date, and two settles that differ only
  in the hash of their source, all stay. A read of a contract over a range of dates that the write covers
  returns all of them beside everything it returned before, ordered by date, then live before preliminary
  before final, then hash.
\<close>

theorem settle_revisions_kept:
  assumes "frame_laws settle_dedupe settle_leq fs" "healthy dk" "settle_archive files" "settle_rows_ok files"
    and "\<forall>s \<in> set settles. storable_settle s" "distinct (map (settle_dedupe \<circ> settle_row) settles)"
    and "SYMBOL_SUFFIX_LEN < length c" "d0 \<le> d1"
  shows "\<exists>r files' before result. write_settles dk fs settles files = (Inr r, files') \<and>
           read_settles dk fs c d0 d1 files = Inr before \<and> read_settles dk fs c d0 d1 files' = Inr result \<and>
           set result = set before \<union> utc_settle ` {s \<in> set settles. settle_dedupe (settle_row s) \<notin> settle_dedupe ` rows_of files \<and>
                                                        st_contract s = c \<and> d0 \<le> st_as_of_date s \<and> st_as_of_date s \<le> d1} \<and>
           sorted_wrt (\<lambda>s t. settle_leq (settle_row s) (settle_row t)) result"
proof -
  obtain r files' where w: "write_settles dk fs settles files = (Inr r, files')" "settle_archive files'"
    "rows_of files' = rows_of files \<union> new_rows settle_dedupe (map settle_row settles) files"
    using write_settles_merges [OF assms(1-3,5)] by blast
  have last: "settle_row s \<in> last_rows settle_dedupe (map settle_row settles)" if "s \<in> set settles" for s
    using that assms(6) find_rev_distinct [of settle_dedupe "map settle_row settles" "settle_row s"] by (simp add: last_rows_def)
  then have new: "new_rows settle_dedupe (map settle_row settles) files =
      settle_row ` {s \<in> set settles. settle_dedupe (settle_row s) \<notin> settle_dedupe ` rows_of files}"
    using last_rows_subset [of settle_dedupe "map settle_row settles"] unfolding new_rows_def by fastforce
  have ok: "settle_rows_ok files'"
    using assms(4,5) w(3) new by (auto simp: settle_rows_ok_def)
  let ?in = "\<lambda>s. st_contract s = c \<and> d0 \<le> st_as_of_date s \<and> st_as_of_date s \<le> d1"
  obtain before where b: "read_settles dk fs c d0 d1 files = Inr before"
    "set before = utc_settle ` {s. storable_settle s \<and> settle_row s \<in> rows_of files \<and> ?in s}"
    using read_settles_exact [OF assms(1-4,7,8)] by blast
  obtain result where f: "read_settles dk fs c d0 d1 files' = Inr result"
    "set result = utc_settle ` {s. storable_settle s \<and> settle_row s \<in> rows_of files' \<and> ?in s}"
    "sorted_wrt (\<lambda>s t. settle_leq (settle_row s) (settle_row t)) result"
    using read_settles_exact [OF assms(1,2) w(2) ok assms(7,8)] by blast
  have same: "utc_settle s = utc_settle t \<and> (?in s \<longleftrightarrow> ?in t)"
    if "settle_row s = settle_row t" "storable_settle s" "storable_settle t" for s t
    using that storable_settle_row(2) [of s] storable_settle_row(2) [of t] by (auto simp: settle_row_def)
  have "set result = set before \<union> utc_settle ` {s \<in> set settles. settle_dedupe (settle_row s) \<notin> settle_dedupe ` rows_of files \<and> ?in s}"
  proof (intro equalityI subsetI)
    fix x assume "x \<in> set result"
    then obtain s where s: "x = utc_settle s" "storable_settle s" "settle_row s \<in> rows_of files'" "?in s" using f(2) by auto
    show "x \<in> set before \<union> utc_settle ` {s \<in> set settles. settle_dedupe (settle_row s) \<notin> settle_dedupe ` rows_of files \<and> ?in s}"
    proof (cases "settle_row s \<in> rows_of files")
      case False
      then obtain t where "t \<in> set settles" "settle_row s = settle_row t" "settle_dedupe (settle_row t) \<notin> settle_dedupe ` rows_of files"
        using s(3) w(3) new by auto
      then show ?thesis using same [of s t] s(1,2,4) assms(5) by blast
    qed (use s b(2) in auto)
  next
    fix x assume "x \<in> set before \<union> utc_settle ` {s \<in> set settles. settle_dedupe (settle_row s) \<notin> settle_dedupe ` rows_of files \<and> ?in s}"
    then show "x \<in> set result" using f(2) b(2) w(3) new assms(5) by auto
  qed
  then show ?thesis using w(1) b(1) f(1,3) by blast
qed

definition es_revision :: "SettleState \<Rightarrow> char \<Rightarrow> Settle" where
  "es_revision state c =
     \<lparr>st_contract = ''ESM26'', st_as_of_date = 739000, st_settle = 5000, st_settle_state = state, st_open = 5000, st_high = 5010,
      st_low = 4990, st_last = 5000, st_change = 0, st_volume_est = 1, st_oi_prior = 1, st_source_id = ''cme'', st_as_of_iso = None,
      st_content_bytes_sha = replicate 64 c, st_cme_month_code = ''JUN 26''\<rparr>"

theorem settle_revisions_kept_witness:
  "\<exists>r files result. write_settles good_disk (list_frames settle_dedupe settle_leq)
       [es_revision settle_final CHR ''b'', es_revision settle_preliminary CHR ''a''] [] = (Inr r, files) \<and>
     read_settles good_disk (list_frames settle_dedupe settle_leq) ''ESM26'' 739000 739000 files = Inr result \<and>
     set result = {es_revision settle_preliminary CHR ''a'', es_revision settle_final CHR ''b''}"
proof -
  let ?ss = "[es_revision settle_final CHR ''b'', es_revision settle_preliminary CHR ''a'']"
  have st: "\<forall>s \<in> set ?ss. storable_settle s"
    by (simp add: storable_settle_def es_revision_def Settle_post_init_def SYMBOL_SUFFIX_LEN_def SHA256_HEX_LENGTH_def)
  have d: "distinct (map (settle_dedupe \<circ> settle_row) ?ss)" by (simp add: settle_dedupe_def settle_row_def es_revision_def)
  have ok: "settle_rows_ok []" by (simp add: settle_rows_ok_def)
  have c: "SYMBOL_SUFFIX_LEN < length ''ESM26''" by (simp add: SYMBOL_SUFFIX_LEN_def)
  have "read_settles good_disk (list_frames settle_dedupe settle_leq) ''ESM26'' 739000 739000 [] = Inr []"
    by (simp add: read_settles_def bar_root_def SYMBOL_SUFFIX_LEN_def matching_files_def)
  moreover obtain r files bfr result where
    "write_settles good_disk (list_frames settle_dedupe settle_leq) ?ss [] = (Inr r, files)"
    "read_settles good_disk (list_frames settle_dedupe settle_leq) ''ESM26'' 739000 739000 [] = Inr bfr"
    "read_settles good_disk (list_frames settle_dedupe settle_leq) ''ESM26'' 739000 739000 files = Inr result"
    "set result = set bfr \<union> utc_settle ` {s \<in> set ?ss. settle_dedupe (settle_row s) \<notin> settle_dedupe ` rows_of [] \<and>
        st_contract s = ''ESM26'' \<and> 739000 \<le> st_as_of_date s \<and> st_as_of_date s \<le> 739000}"
    using settle_revisions_kept [OF example_frames(2) good_disk archive_inv_empty ok st d c, of 739000 739000] by blast
  moreover have "{s \<in> set ?ss. settle_dedupe (settle_row s) \<notin> settle_dedupe ` rows_of [] \<and>
        st_contract s = ''ESM26'' \<and> 739000 \<le> st_as_of_date s \<and> st_as_of_date s \<le> 739000} = set ?ss"
    by (auto simp: es_revision_def)
  moreover have "utc_settle ` set ?ss = {es_revision settle_preliminary CHR ''a'', es_revision settle_final CHR ''b''}"
    by (auto simp: utc_settle_def es_revision_def)
  ultimately show ?thesis by auto
qed

end
