(* ===== verification/BRR.thy ===== *)
theory BRR
  imports Verifier
begin

text \<open>
  Reconstruction of a crypto reference rate (\<open>src/futur3/data/brr.py\<close>) from the five-minute bars of several
  venues between 15:00 and 16:00 London time. The venues are the data sources of \<open>Verifier\<close>. The time-zone
  database is the parameter \<open>london\<close>: the offset of London from UTC at a wall-clock time. The content hash
  is taken of the JSON text the code builds; \<open>dec_str\<close> is \<open>str\<close> on the closes.

  The lemmas show that a fix depends only on the bars inside its hour and not on the order of the venues,
  that every partition is the mean over the venues present in it, and when there is a fix.
\<close>

definition NUM_PARTITIONS :: nat where "NUM_PARTITIONS = 12"
definition PARTITION_MINUTES :: int where "PARTITION_MINUTES = 5"
definition MIN_VENUES_PER_PARTITION :: nat where "MIN_VENUES_PER_PARTITION = 2"

definition SUPPORTED_CONTRACTS :: "ContractSymbol list" where
  "SUPPORTED_CONTRACTS = [''BTCUSD'', ''ETHUSD'']"

abbreviation (input) minutes :: "int \<Rightarrow> int" where
  "minutes n \<equiv> n * 60000000"

record BRRReconstruction =
  brr_contract :: ContractSymbol
  brr_fix_date :: date
  brr_reconstructed_value :: decimal
  brr_partition_values :: "decimal option list"
  brr_num_partitions_valid :: nat
  brr_venue_ids :: "string list"
  brr_content_bytes_sha :: string

definition BRRReconstruction_post_init :: "BRRReconstruction \<Rightarrow> unit res" where
  "BRRReconstruction_post_init r =
     bindE (require (length (brr_partition_values r) = NUM_PARTITIONS) ValueError) (\<lambda>_.
     bindE (require (\<not> (brr_num_partitions_valid r < 1 \<or> brr_num_partitions_valid r > NUM_PARTITIONS)) ValueError) (\<lambda>_.
     bindE (require (\<not> brr_reconstructed_value r \<le> 0) ValueError) (\<lambda>_.
     bindE (require (length (brr_content_bytes_sha r) = SHA256_HEX_LENGTH) ValueError) (\<lambda>_.
     require (\<not> length (brr_venue_ids r) < MIN_VENUES_PER_PARTITION) ValueError))))"

text \<open>The constructor keeps the sources in the order of their identifiers.\<close>

definition BRRReconstructor_init :: "DataSource list \<Rightarrow> DataSource list res" where
  "BRRReconstructor_init sources =
     (if length sources < MIN_VENUES_PER_PARTITION then Inl InsufficientVenues else Inr (sort_key source_id sources))"

definition venue_ids :: "DataSource list \<Rightarrow> string list" where
  "venue_ids sources = map source_id sources"

definition london_window_utc :: "(int \<Rightarrow> int) \<Rightarrow> date \<Rightarrow> (datetime \<times> datetime) res" where
  "london_window_utc london fix_date =
     (let start_local = fix_date * 86400000000 + minutes 900; end_local = fix_date * 86400000000 + minutes 960
      in bindE (to_utc \<lparr>dt_local = start_local, dt_off = Some (london start_local)\<rparr>) (\<lambda>ts_start.
         bindE (to_utc \<lparr>dt_local = end_local, dt_off = Some (london end_local)\<rparr>) (\<lambda>ts_end.
         Inr (ts_start, ts_end))))"

definition arithmetic_mean :: "decimal list \<Rightarrow> decimal res" where
  "arithmetic_mean xs =
     bindE (require (xs \<noteq> []) AssertionError) (\<lambda>_. ddiv (dsum xs) (dint (int (length xs))))"

definition bars_between :: "datetime \<Rightarrow> datetime \<Rightarrow> RawBar list \<Rightarrow> RawBar list" where
  "bars_between lo hi bars =
     filter (\<lambda>b. dt_instant lo \<le> dt_instant (rb_ts b) \<and> dt_instant (rb_ts b) < dt_instant hi) bars"

definition fetch_bars :: "ContractSymbol \<Rightarrow> datetime \<Rightarrow> datetime \<Rightarrow> DataSource list \<Rightarrow> (string \<times> RawBar list) list res" where
  "fetch_bars contract ts_start ts_end sources =
     foldE (\<lambda>d src. bindE (get_bars src contract ts_start ts_end MIN_5) (\<lambda>raw_bars.
              Inr (AList.update (source_id src) (bars_between ts_start ts_end raw_bars) d))) [] sources"

definition last_close :: "RawBar list \<Rightarrow> decimal option" where
  "last_close hits =
     (case hits of [] \<Rightarrow> None | b # bs \<Rightarrow> Some (rb_close (max_by (\<lambda>x. dt_instant (rb_ts x)) b bs)))"

text \<open>One five-minute partition: \<open>None\<close> when fewer than two venues have a bar in it.\<close>

definition partition_aggregate ::
  "DataSource list \<Rightarrow> (string \<times> RawBar list) list \<Rightarrow> datetime \<Rightarrow> nat \<Rightarrow> decimal option res" where
  "partition_aggregate sources bars_per_venue ts_start i =
     bindE (dt_add ts_start (minutes (int i * PARTITION_MINUTES))) (\<lambda>p_start.
     bindE (dt_add p_start (minutes PARTITION_MINUTES)) (\<lambda>p_end.
     bindE (traverse (\<lambda>src. case map_of bars_per_venue (source_id src) of
                              None \<Rightarrow> Inl KeyError
                            | Some bars \<Rightarrow> Inr (last_close (bars_between p_start p_end bars))) sources) (\<lambda>closes.
       let venue_closes = map the (filter (\<lambda>c. c \<noteq> None) closes)
       in if length venue_closes < MIN_VENUES_PER_PARTITION then Inr None
          else bindE (arithmetic_mean venue_closes) (\<lambda>m. Inr (Some m)))))"

definition bar_json :: "(decimal \<Rightarrow> string) \<Rightarrow> RawBar \<Rightarrow> string" where
  "bar_json dec_str b =
     ''{'' @ json_string ''close'' @ '': '' @ json_string (dec_str (rb_close b)) @
     '', '' @ json_string ''ts'' @ '': '' @ json_string (dt_isoformat (rb_ts b)) @
     '', '' @ json_string ''volume'' @ '': '' @ show_int (rb_volume b) @ ''}''"

definition compute_content_sha ::
  "(decimal \<Rightarrow> string) \<Rightarrow> ContractSymbol \<Rightarrow> date \<Rightarrow> (string \<times> RawBar list) list \<Rightarrow> string" where
  "compute_content_sha dec_str contract fix_date bars_per_venue =
     content_sha256
       (''{'' @ json_string ''contract'' @ '': '' @ json_string contract @
        '', '' @ json_string ''fix_date'' @ '': '' @ json_string (date_isoformat fix_date) @
        '', '' @ json_string ''venues'' @ '': {'' @
        str_join '', '' (map (\<lambda>(venue_id, bars).
            json_string venue_id @ '': ['' @
            str_join '', '' (map (bar_json dec_str) (sort_key (\<lambda>b. dt_instant (rb_ts b)) bars)) @ '']'')
          (sort_key fst bars_per_venue)) @ ''}}'')"

definition reconstruct ::
  "(decimal \<Rightarrow> string) \<Rightarrow> (int \<Rightarrow> int) \<Rightarrow> DataSource list \<Rightarrow> ContractSymbol \<Rightarrow> date \<Rightarrow> BRRReconstruction res" where
  "reconstruct dec_str london sources contract fix_date =
     (if contract \<notin> set SUPPORTED_CONTRACTS then Inl DataSourceError
      else bindE (london_window_utc london fix_date) (\<lambda>(ts_start, ts_end).
        bindE (fetch_bars contract ts_start ts_end sources) (\<lambda>bars_per_venue.
        bindE (traverse (partition_aggregate sources bars_per_venue ts_start) [0..<NUM_PARTITIONS]) (\<lambda>partition_aggregates.
          let valid_partitions = map the (filter (\<lambda>v. v \<noteq> None) partition_aggregates)
          in if valid_partitions = [] then Inl BRRWindowEmpty
             else bindE (arithmetic_mean valid_partitions) (\<lambda>brr_value.
               let r = \<lparr>brr_contract = contract, brr_fix_date = fix_date, brr_reconstructed_value = brr_value,
                        brr_partition_values = partition_aggregates,
                        brr_num_partitions_valid = length valid_partitions, brr_venue_ids = venue_ids sources,
                        brr_content_bytes_sha = compute_content_sha dec_str contract fix_date bars_per_venue\<rparr>
               in bindE (BRRReconstruction_post_init r) (\<lambda>_. Inr r))))))"

section \<open>Means\<close>

text \<open>Each rounding of a sum or quotient of positive values moves it by at most a factor \<open>1 \<plusminus> eps\<close>.\<close>

context rounding
begin

lemma rounded_sum_bounds:
  assumes "0 \<le> lo" "0 \<le> a" "\<forall>x \<in> set xs. lo \<le> x \<and> x \<le> hi"
  shows "(1 - eps) ^ length xs * (a + of_nat (length xs) * lo) \<le> foldl (\<lambda>s x. rnd (s + x)) a xs \<and>
         foldl (\<lambda>s x. rnd (s + x)) a xs \<le> (1 + eps) ^ length xs * (a + of_nat (length xs) * hi)"
  using assms(2,3)
proof (induction xs arbitrary: a)
  case (Cons x xs)
  let ?k = "length xs" and ?a = "rnd (a + x)"
  have x: "lo \<le> x" "x \<le> hi" "0 \<le> a + x" using Cons.prems assms(1) by auto
  have hi: "0 \<le> hi" using x assms(1) by linarith
  have ih: "(1 - eps) ^ ?k * (?a + of_nat ?k * lo) \<le> foldl (\<lambda>s x. rnd (s + x)) ?a xs"
    "foldl (\<lambda>s x. rnd (s + x)) ?a xs \<le> (1 + eps) ^ ?k * (?a + of_nat ?k * hi)"
    using Cons.IH [of ?a] Cons.prems rnd_nonneg [OF x(3)] by auto
  have e: "0 < eps" "eps < 1" using eps_bounds by auto
  have "(1 - eps) * (a + of_nat (Suc ?k) * lo) \<le> ?a + of_nat ?k * lo"
  proof -
    have "(1 - eps) * (a + of_nat (Suc ?k) * lo) \<le> (1 - eps) * (a + x) + (1 - eps) * (of_nat ?k * lo)"
      using e x(1) mult_left_mono [of lo x "1 - eps"] by (simp add: algebra_simps)
    also have "\<dots> \<le> ?a + of_nat ?k * lo"
      using rnd_lower [OF x(3)] e assms(1) mult_right_mono [of "1 - eps" 1 "of_nat ?k * lo"] by simp
    finally show ?thesis .
  qed
  then have "(1 - eps) ^ ?k * ((1 - eps) * (a + of_nat (Suc ?k) * lo)) \<le> (1 - eps) ^ ?k * (?a + of_nat ?k * lo)"
    using e by (intro mult_left_mono) simp_all
  moreover have "?a + of_nat ?k * hi \<le> (1 + eps) * (a + of_nat (Suc ?k) * hi)"
  proof -
    have "?a + of_nat ?k * hi \<le> (1 + eps) * (a + x) + (1 + eps) * (of_nat ?k * hi)"
      using rnd_upper [OF x(3)] e hi mult_right_mono [of 1 "1 + eps" "of_nat ?k * hi"] by simp
    also have "\<dots> \<le> (1 + eps) * (a + of_nat (Suc ?k) * hi)"
      using e x(2) mult_left_mono [of x hi "1 + eps"] by (simp add: algebra_simps)
    finally show ?thesis .
  qed
  then have "(1 + eps) ^ ?k * (?a + of_nat ?k * hi) \<le> (1 + eps) ^ ?k * ((1 + eps) * (a + of_nat (Suc ?k) * hi))"
    using e by (intro mult_left_mono) simp_all
  ultimately show ?case using ih by (simp add: mult.assoc mult.commute [of "1 - eps"] mult.commute [of "1 + eps"])
qed simp

lemma rounded_mean_bounds:
  assumes "0 \<le> lo" "\<forall>x \<in> set xs. lo \<le> x \<and> x \<le> hi" "xs \<noteq> []"
  shows "(1 - eps) ^ Suc (length xs) * lo \<le> rnd (foldl (\<lambda>s x. rnd (s + x)) 0 xs / of_nat (length xs))"
    "rnd (foldl (\<lambda>s x. rnd (s + x)) 0 xs / of_nat (length xs)) \<le> (1 + eps) ^ Suc (length xs) * hi"
proof -
  let ?n = "length xs" and ?s = "foldl (\<lambda>s x. rnd (s + x)) 0 xs"
  have n: "0 < (of_nat ?n :: rat)" using assms(3) by simp
  have e: "0 < eps" "eps < 1" using eps_bounds by auto
  have s: "(1 - eps) ^ ?n * (of_nat ?n * lo) \<le> ?s" "?s \<le> (1 + eps) ^ ?n * (of_nat ?n * hi)"
    using rounded_sum_bounds [of lo 0 xs hi] assms by auto
  have lo: "(1 - eps) ^ ?n * lo \<le> ?s / of_nat ?n" using s(1) n by (simp add: le_divide_eq algebra_simps)
  have hi: "?s / of_nat ?n \<le> (1 + eps) ^ ?n * hi" using s(2) n by (simp add: divide_le_eq algebra_simps)
  have q: "0 \<le> ?s / of_nat ?n" using lo assms(1) e by (meson mult_nonneg_nonneg order_trans zero_le_power diff_ge_0_iff_ge less_imp_le)
  show "(1 - eps) ^ Suc ?n * lo \<le> rnd (?s / of_nat ?n)"
    using order_trans [OF _ rnd_lower [OF q]] mult_left_mono [OF lo, of "1 - eps"] e by (simp add: mult.assoc)
  show "rnd (?s / of_nat ?n) \<le> (1 + eps) ^ Suc ?n * hi"
    using order_trans [OF rnd_upper [OF q]] mult_left_mono [OF hi, of "1 + eps"] e by (simp add: mult.assoc)
qed

end

lemma mean_bounds:
  assumes "arithmetic_mean xs = Inr m" "0 \<le> lo" "\<forall>x \<in> set xs. lo \<le> x \<and> x \<le> hi" "length xs \<le> n"
  shows "(1 - 5 / 10 ^ 28) ^ Suc n * lo \<le> m" "m \<le> (1 + 5 / 10 ^ 28) ^ Suc n * hi"
proof -
  have "dadd = (\<lambda>s x. dround (s + x))" by (intro ext) (simp add: dadd_def)
  then have xs: "xs \<noteq> []" and m: "m = dround (foldl (\<lambda>s x. dround (s + x)) 0 xs / of_nat (length xs))"
    using assms(1) by (auto simp: arithmetic_mean_def res_simps dsum_def dint_def)
  have hi: "0 \<le> hi" using xs assms(2,3) by (cases xs) auto
  note b = dec28.rounded_mean_bounds [OF assms(2,3) xs, folded m]
  have "(1 - 5 / 10 ^ 28 :: rat) ^ Suc n \<le> (1 - 5 / 10 ^ 28) ^ Suc (length xs)"
    by (rule power_decreasing) (use assms(4) in auto)
  then show "(1 - 5 / 10 ^ 28) ^ Suc n * lo \<le> m" using b(1) assms(2) by (meson mult_right_mono order_trans)
  have "(1 + 5 / 10 ^ 28 :: rat) ^ Suc (length xs) \<le> (1 + 5 / 10 ^ 28) ^ Suc n"
    by (rule power_increasing) (use assms(4) in auto)
  then show "m \<le> (1 + 5 / 10 ^ 28) ^ Suc n * hi" using b(2) hi by (meson mult_right_mono order_trans)
qed

section \<open>Fetching\<close>

text \<open>What a venue contributes: its bars inside the window.\<close>

definition venue_window :: "ContractSymbol \<Rightarrow> datetime \<Rightarrow> datetime \<Rightarrow> DataSource \<Rightarrow> RawBar list res" where
  "venue_window contract ts_start ts_end src =
     bindE (get_bars src contract ts_start ts_end MIN_5) (\<lambda>raw_bars. Inr (bars_between ts_start ts_end raw_bars))"

lemma fetch_bars_window:
  "fetch_bars contract ts_start ts_end sources =
     foldE (\<lambda>d src. bindE (venue_window contract ts_start ts_end src) (\<lambda>bars. Inr (AList.update (source_id src) bars d))) [] sources"
  by (simp add: fetch_bars_def venue_window_def bindE_assoc)

lemma fetch_bars_mem:
  assumes "fetch_bars contract ts_start ts_end sources = Inr d" "map_of d v = Some bars"
  shows "\<exists>s \<in> set sources. source_id s = v \<and> venue_window contract ts_start ts_end s = Inr bars"
proof -
  have "\<forall>v bars. map_of d v = Some bars \<longrightarrow> (\<exists>s \<in> set sources. source_id s = v \<and> venue_window contract ts_start ts_end s = Inr bars)"
    by (rule foldE_invariant [OF assms(1) [unfolded fetch_bars_window]]) (auto simp: res_simps split: if_splits)
  then show ?thesis using assms(2) by blast
qed

lemma fetch_bars_cong:
  assumes "list_all2 (\<lambda>s t. source_id s = source_id t \<and> venue_window contract ts_start ts_end s = venue_window contract ts_start ts_end t) ss ts"
  shows "fetch_bars contract ts_start ts_end ss = fetch_bars contract ts_start ts_end ts"
proof -
  have "foldE (\<lambda>d src. bindE (venue_window contract ts_start ts_end src) (\<lambda>bars. Inr (AList.update (source_id src) bars d))) d ss =
        foldE (\<lambda>d src. bindE (venue_window contract ts_start ts_end src) (\<lambda>bars. Inr (AList.update (source_id src) bars d))) d ts" for d
    using assms by (induction arbitrary: d rule: list_all2_induct) auto
  then show ?thesis by (simp add: fetch_bars_window)
qed

lemma traverse_cong2: "list_all2 (\<lambda>x y. f x = g y) xs ys \<Longrightarrow> traverse f xs = traverse g ys"
  by (induction rule: list_all2_induct) auto

lemma reconstruct_cong:
  assumes ids: "map source_id ss = map source_id ts"
    and fetch: "\<And>a b. london_window_utc london fix_date = Inr (a, b) \<Longrightarrow> fetch_bars contract a b ss = fetch_bars contract a b ts"
  shows "reconstruct dec_str london ss contract fix_date = reconstruct dec_str london ts contract fix_date"
proof -
  have l2: "list_all2 (\<lambda>s t. source_id s = source_id t) ss ts"
    using ids by (simp add: list_all2_conv_all_nth list_eq_iff_nth_eq)
  have p: "partition_aggregate ss d a i = partition_aggregate ts d a i" for d a i
  proof -
    have "traverse (\<lambda>src. case map_of d (source_id src) of None \<Rightarrow> Inl KeyError | Some bars \<Rightarrow> Inr (last_close (bars_between p q bars))) ss =
          traverse (\<lambda>src. case map_of d (source_id src) of None \<Rightarrow> Inl KeyError | Some bars \<Rightarrow> Inr (last_close (bars_between p q bars))) ts" for p q
      by (rule traverse_cong2) (rule list.rel_mono_strong [OF l2], simp)
    then show ?thesis by (simp add: partition_aggregate_def)
  qed
  have "partition_aggregate ss = partition_aggregate ts" using p by (intro ext)
  then show ?thesis
    unfolding reconstruct_def venue_ids_def ids
    by (cases "london_window_utc london fix_date") (auto simp: fetch split: prod.split)
qed

text \<open>
  A fix depends only on the bars inside its hour, and not on the order of the venues. Two reconstructors
  built from the same venues in any order, where every venue answers with the same bars between the start
  and the end of the London hour and with anything outside it, return the same outcome for every contract
  and date they agree on, content hash included.
\<close>

theorem brr_window_only:
  assumes "mset (map f sources) = mset sources'" "distinct (map source_id sources)"
    and "\<forall>s \<in> set sources. source_id (f s) = source_id s"
    and "\<And>s a b. s \<in> set sources \<Longrightarrow> london_window_utc london fix_date = Inr (a, b) \<Longrightarrow>
           venue_window contract a b (f s) = venue_window contract a b s"
    and "BRRReconstructor_init sources = Inr ss" "BRRReconstructor_init sources' = Inr ts"
  shows "reconstruct dec_str london ss contract fix_date = reconstruct dec_str london ts contract fix_date"
proof -
  have ss: "ss = sort_key source_id sources" "ts = sort_key source_id sources'"
    using assms(5,6) by (auto simp: BRRReconstructor_init_def split: if_splits)
  have inj: "inj_on source_id (set sources)" using assms(2) by (simp add: distinct_map)
  have "ts = map f ss"
  proof (rule sort_key_inj_key_eq [of sources' "map f ss" source_id, folded ss(2)])
    show "mset sources' = mset (map f ss)" using assms(1) ss(1) by simp
    have "set sources' = f ` set sources" using assms(1) by (metis list.set_map mset_eq_setD)
    then show "inj_on source_id (set sources')" using inj assms(3) by (auto simp: inj_on_def)
    have "map source_id (map f ss) = map source_id ss" using assms(3) ss(1) by simp
    moreover have "sorted (map source_id ss)" using ss(1) by simp
    ultimately show "sorted (map source_id (map f ss))" by (simp only:)
  qed
  moreover have "map source_id ss = map source_id (map f ss)" using assms(3) ss(1) by simp
  moreover have "fetch_bars contract a b ss = fetch_bars contract a b (map f ss)"
    if "london_window_utc london fix_date = Inr (a, b)" for a b
    by (rule fetch_bars_cong) (use assms(3) assms(4) [OF _ that] ss(1) in \<open>auto simp: list.rel_map intro!: list.rel_refl_strong\<close>)
  ultimately show ?thesis by (metis reconstruct_cong)
qed

section \<open>The fix\<close>

lemma last_close_mem: "last_close hits = Some c \<Longrightarrow> \<exists>b \<in> set hits. c = rb_close b"
  using max_by_mem [of "\<lambda>x. dt_instant (rb_ts x)"] by (cases hits) (force simp: last_close_def)+

lemma partition_aggregate_bounds:
  assumes "partition_aggregate sources d ts_start i = Inr (Some v)" "0 \<le> lo"
    and "\<And>u bars b. map_of d u = Some bars \<Longrightarrow> b \<in> set bars \<Longrightarrow> lo \<le> rb_close b \<and> rb_close b \<le> hi"
  shows "(1 - 5 / 10 ^ 28) ^ Suc (length sources) * lo \<le> v \<and> v \<le> (1 + 5 / 10 ^ 28) ^ Suc (length sources) * hi"
proof -
  obtain p q closes where c: "traverse (\<lambda>src. case map_of d (source_id src) of None \<Rightarrow> Inl KeyError
        | Some bars \<Rightarrow> Inr (last_close (bars_between p q bars))) sources = Inr closes"
    and m: "arithmetic_mean (map the (filter (\<lambda>c. c \<noteq> None) closes)) = Inr v"
    using assms(1) by (auto simp: partition_aggregate_def res_simps Let_def split: if_splits)
  have "lo \<le> x \<and> x \<le> hi" if x: "x \<in> set (map the (filter (\<lambda>c. c \<noteq> None) closes))" for x
  proof -
    have "Some x \<in> set closes" using x by auto
    from traverse_mem_back [OF c this] obtain s where "s \<in> set sources" and s: "(case map_of d (source_id s) of None \<Rightarrow> Inl KeyError
        | Some bars \<Rightarrow> Inr (last_close (bars_between p q bars))) = Inr (Some x)" by blast
    then obtain bars where b: "map_of d (source_id s) = Some bars" "last_close (bars_between p q bars) = Some x"
      by (cases "map_of d (source_id s)") simp_all
    from last_close_mem [OF b(2)] obtain y where y: "y \<in> set bars" "x = rb_close y" by (auto simp: bars_between_def)
    show ?thesis using assms(3) [OF b(1) y(1)] y(2) by simp
  qed
  moreover have "length (map the (filter (\<lambda>c. c \<noteq> None) closes)) \<le> length sources"
    using traverse_length [OF c] length_filter_le [of _ closes] by simp
  ultimately show ?thesis using mean_bounds [OF m assms(2), of hi "length sources"] by blast
qed

text \<open>
  A fix never leaves the range of the prices it is made of. When every bar of every venue in the hour
  closes between \<open>lo\<close> and \<open>hi\<close>, so does the value of every partition and the reconstructed rate, up to one
  unit of rounding (five in the 28th digit) for each addition and division that enters it. A fix has twelve
  partitions, at least one of them valid, and is positive.
\<close>

theorem brr_fix_bounds:
  assumes "reconstruct dec_str london sources contract fix_date = Inr r" "london_window_utc london fix_date = Inr (a, b)"
    and "\<And>s bars x. s \<in> set sources \<Longrightarrow> venue_window contract a b s = Inr bars \<Longrightarrow> x \<in> set bars \<Longrightarrow> lo \<le> rb_close x \<and> rb_close x \<le> hi"
    and "0 \<le> lo"
  shows "(1 - 5 / 10 ^ 28) ^ (length sources + 14) * lo \<le> brr_reconstructed_value r \<and>
         brr_reconstructed_value r \<le> (1 + 5 / 10 ^ 28) ^ (length sources + 14) * hi \<and> 0 < brr_reconstructed_value r \<and>
         length (brr_partition_values r) = 12 \<and>
         brr_num_partitions_valid r = length (filter (\<lambda>v. v \<noteq> None) (brr_partition_values r)) \<and> 1 \<le> brr_num_partitions_valid r"
proof -
  obtain d ps where d: "fetch_bars contract a b sources = Inr d"
    and ps: "traverse (partition_aggregate sources d a) [0..<NUM_PARTITIONS] = Inr ps"
    and v: "arithmetic_mean (map the (filter (\<lambda>v. v \<noteq> None) ps)) = Inr (brr_reconstructed_value r)"
    and r: "brr_partition_values r = ps" "brr_num_partitions_valid r = length (map the (filter (\<lambda>v. v \<noteq> None) ps))"
      "BRRReconstruction_post_init r = Inr ()"
    using assms(1,2) by (auto simp: reconstruct_def res_simps Let_def split: if_splits)
  let ?lo = "(1 - 5 / 10 ^ 28) ^ Suc (length sources) * lo" and ?hi = "(1 + 5 / 10 ^ 28) ^ Suc (length sources) * hi"
  have bars: "lo \<le> rb_close x \<and> rb_close x \<le> hi" if "map_of d u = Some bs" "x \<in> set bs" for u bs x
    using fetch_bars_mem [OF d that(1)] assms(3) that(2) by blast
  have "?lo \<le> x \<and> x \<le> ?hi" if x: "x \<in> set (map the (filter (\<lambda>v. v \<noteq> None) ps))" for x
  proof -
    have "Some x \<in> set ps" using x by auto
    from traverse_mem_back [OF ps this] obtain i where i: "partition_aggregate sources d a i = Inr (Some x)" by blast
    show ?thesis by (rule partition_aggregate_bounds [OF i assms(4)]) (erule bars)
  qed
  moreover have "length ps = 12" using traverse_length [OF ps] by (simp add: NUM_PARTITIONS_def)
  then have "length (map the (filter (\<lambda>v. v \<noteq> None) ps)) \<le> 12" using length_filter_le [of _ ps] by simp
  moreover have "0 \<le> ?lo" using assms(4) by (intro mult_nonneg_nonneg zero_le_power) simp_all
  ultimately have "(1 - 5 / 10 ^ 28) ^ Suc 12 * ?lo \<le> brr_reconstructed_value r"
    "brr_reconstructed_value r \<le> (1 + 5 / 10 ^ 28) ^ Suc 12 * ?hi"
    using mean_bounds [OF v, of ?lo ?hi 12] by blast+
  moreover have "p ^ Suc 12 * (p ^ Suc n * x) = p ^ (n + 14) * (x :: rat)" for p x n
    by (simp add: power_add eval_nat_numeral algebra_simps)
  moreover have "0 < brr_reconstructed_value r" "1 \<le> brr_num_partitions_valid r"
    using r(3) by (auto simp: BRRReconstruction_post_init_def res_simps)
  moreover have "length (brr_partition_values r) = 12" "brr_num_partitions_valid r = length (filter (\<lambda>v. v \<noteq> None) (brr_partition_values r))"
    using r(1,2) \<open>length ps = 12\<close> by simp_all
  ultimately show ?thesis by metis
qed

text \<open>Two venues with one bar each, at the start of the hour.\<close>

definition fix_day :: date where "fix_day = 739000"

definition venue_bar :: "decimal \<Rightarrow> RawBar" where
  "venue_bar c = \<lparr>rb_contract = ''BTCUSD'', rb_ts = \<lparr>dt_local = 63849654000000000, dt_off = Some 0\<rparr>,
     rb_resolution = MIN_5, rb_open = c, rb_high = c, rb_low = c, rb_close = c, rb_volume = 1, rb_oi = None, rb_source_id = ''v'',
     rb_as_of_iso = \<lparr>dt_local = 63849654000000000, dt_off = Some 0\<rparr>, rb_content_bytes_sha = replicate 64 CHR ''a''\<rparr>"

definition venue :: "string \<Rightarrow> decimal \<Rightarrow> DataSource" where
  "venue v c = \<lparr>source_id = v, tier = T2_EXCHANGE, get_bars = \<lambda>_ _ _ _. Inr [venue_bar c], latest_settle = \<lambda>_ _. Inr None\<rparr>"

lemma venue_simps:
  "source_id (venue v c) = v" "get_bars (venue v c) k a b r = Inr [venue_bar c]"
  by (simp_all add: venue_def)

lemma two_venues_window:
  "london_window_utc (\<lambda>_. 0) fix_day = Inr (\<lparr>dt_local = 63849654000000000, dt_off = Some 0\<rparr>, \<lparr>dt_local = 63849657600000000, dt_off = Some 0\<rparr>)"
  by (code_simp)

lemma two_venues_fetch:
  "fetch_bars ''BTCUSD'' \<lparr>dt_local = 63849654000000000, dt_off = Some 0\<rparr> \<lparr>dt_local = 63849657600000000, dt_off = Some 0\<rparr>
     [venue ''a'' 100, venue ''b'' 102] = Inr [(''a'', [venue_bar 100]), (''b'', [venue_bar 102])]"
  by code_simp

lemma two_venues_partitions:
  "traverse (partition_aggregate [venue ''a'' 100, venue ''b'' 102] [(''a'', [venue_bar 100]), (''b'', [venue_bar 102])]
     \<lparr>dt_local = 63849654000000000, dt_off = Some 0\<rparr>) [0..<NUM_PARTITIONS] = Inr (Some 101 # replicate 11 None)"
  by code_simp

lemma two_venues_mean: "arithmetic_mean [101] = Inr 101"
  by code_simp

lemma two_venues_fix:
  "\<exists>r. reconstruct (\<lambda>_. '''') (\<lambda>_. 0) [venue ''a'' 100, venue ''b'' 102] ''BTCUSD'' fix_day = Inr r \<and> brr_reconstructed_value r = 101"
  apply (simp add: reconstruct_def SUPPORTED_CONTRACTS_def two_venues_window two_venues_fetch two_venues_partitions two_venues_mean Let_def)
  apply (simp add: BRRReconstruction_post_init_def res_simps NUM_PARTITIONS_def SHA256_HEX_LENGTH_def MIN_VENUES_PER_PARTITION_def
      venue_ids_def compute_content_sha_def content_sha256_def)
  done

theorem brr_fix_bounds_witness:
  "\<exists>r. reconstruct (\<lambda>_. '''') (\<lambda>_. 0) [venue ''a'' 100, venue ''b'' 102] ''BTCUSD'' fix_day = Inr r \<and>
     brr_reconstructed_value r \<le> (1 + 5 / 10 ^ 28) ^ 16 * 102"
proof -
  obtain r where r: "reconstruct (\<lambda>_. '''') (\<lambda>_. 0) [venue ''a'' 100, venue ''b'' 102] ''BTCUSD'' fix_day = Inr r"
    using two_venues_fix by blast
  have "100 \<le> rb_close x \<and> rb_close x \<le> 102"
    if s: "s \<in> set [venue ''a'' 100, venue ''b'' 102]"
      and w: "venue_window ''BTCUSD'' \<lparr>dt_local = 63849654000000000, dt_off = Some 0\<rparr>
                \<lparr>dt_local = 63849657600000000, dt_off = Some 0\<rparr> s = Inr bars" "x \<in> set bars" for s bars x
  proof -
    have "\<exists>c \<in> {100, 102}. bars = filter (\<lambda>b. 63849654000000000 \<le> dt_instant (rb_ts b) \<and> dt_instant (rb_ts b) < 63849657600000000) [venue_bar c]"
      using s w(1) by (auto simp: venue_window_def venue_simps bars_between_def dt_instant_def simp del: filter.simps)
    then show ?thesis using w(2) by (auto simp: venue_bar_def split: if_splits)
  qed
  then have "brr_reconstructed_value r \<le> (1 + 5 / 10 ^ 28) ^ (length [venue ''a'' 100, venue ''b'' 102] + 14) * 102"
    using brr_fix_bounds [OF r two_venues_window, of 100 102] by fastforce
  then show ?thesis using r by auto
qed

text \<open>A bar outside the hour makes no difference.\<close>

definition late_bar :: RawBar where
  "late_bar = (venue_bar 1)\<lparr>rb_ts := \<lparr>dt_local = 63849657600000000, dt_off = Some 0\<rparr>\<rparr>"

definition chatty_venue :: "DataSource \<Rightarrow> DataSource" where
  "chatty_venue s = s\<lparr>get_bars := \<lambda>c a b r. bindE (get_bars s c a b r) (\<lambda>bars. Inr (late_bar # bars))\<rparr>"

lemma chatty_venue_window:
  "venue_window c \<lparr>dt_local = 63849654000000000, dt_off = Some 0\<rparr> \<lparr>dt_local = 63849657600000000, dt_off = Some 0\<rparr> (chatty_venue s) =
   venue_window c \<lparr>dt_local = 63849654000000000, dt_off = Some 0\<rparr> \<lparr>dt_local = 63849657600000000, dt_off = Some 0\<rparr> s"
  by (simp add: venue_window_def chatty_venue_def bindE_assoc bars_between_def late_bar_def dt_instant_def)

theorem brr_window_only_witness:
  "reconstruct (\<lambda>_. '''') (\<lambda>_. 0) [venue ''a'' 100, venue ''b'' 102] ''BTCUSD'' fix_day =
   reconstruct (\<lambda>_. '''') (\<lambda>_. 0) [chatty_venue (venue ''a'' 100), chatty_venue (venue ''b'' 102)] ''BTCUSD'' fix_day"
proof (rule brr_window_only [where f = chatty_venue and sources = "[venue ''a'' 100, venue ''b'' 102]"
      and sources' = "[chatty_venue (venue ''b'' 102), chatty_venue (venue ''a'' 100)]"])
  show "mset (map chatty_venue [venue ''a'' 100, venue ''b'' 102]) = mset [chatty_venue (venue ''b'' 102), chatty_venue (venue ''a'' 100)]"
    by simp
  show "distinct (map source_id [venue ''a'' 100, venue ''b'' 102])" by (simp add: venue_simps)
  show "\<forall>s \<in> set [venue ''a'' 100, venue ''b'' 102]. source_id (chatty_venue s) = source_id s" by (simp add: chatty_venue_def)
  show "venue_window ''BTCUSD'' a b (chatty_venue s) = venue_window ''BTCUSD'' a b s"
    if "london_window_utc (\<lambda>_. 0) fix_day = Inr (a, b)" for a b s
    using that chatty_venue_window by (auto simp: two_venues_window)
  show "BRRReconstructor_init [venue ''a'' 100, venue ''b'' 102] = Inr [venue ''a'' 100, venue ''b'' 102]"
    "BRRReconstructor_init [chatty_venue (venue ''b'' 102), chatty_venue (venue ''a'' 100)] =
      Inr [chatty_venue (venue ''a'' 100), chatty_venue (venue ''b'' 102)]"
    by (simp_all add: BRRReconstructor_init_def MIN_VENUES_PER_PARTITION_def sort_key_def chatty_venue_def venue_simps)
qed

end
