(* ===== verification/Term_Structure.thy ===== *)
theory Term_Structure
  imports Continuous
begin

text \<open>
  The two-leg term structure a carry strategy reads (\<open>src/futur3/data/term_structure.py\<close>): the observation of
  a date, the plan of a root's contracts along the roll calendar, and the index over dates that is computed
  once when the source is built. The index is an association list in insertion order, as is the mapping from
  contracts to bars.

  The lemmas show that the index holds, at every date, exactly the observation of the contract active on it,
  and that nothing dated later enters it.
\<close>

record CarryInputs =
  ci_as_of :: date
  ci_front :: ContractSymbol
  ci_back :: ContractSymbol
  ci_front_close :: decimal
  ci_back_close :: decimal
  ci_days_front :: int
  ci_days_back :: int

definition CarryInputs_post_init :: "CarryInputs \<Rightarrow> unit res" where
  "CarryInputs_post_init ci =
     bindE (require (\<not> (ci_front_close ci \<le> 0 \<or> ci_back_close ci \<le> 0)) TermStructureError) (\<lambda>_.
     require (0 < ci_days_front ci \<and> ci_days_front ci < ci_days_back ci) TermStructureError)"

definition close_known :: "RawBar list \<Rightarrow> date \<Rightarrow> decimal option" where
  "close_known bars target =
     map_option rb_close
       (foldl (\<lambda>best bar. let day = dt_date (rb_ts bar)
                in if day \<le> target \<and> (case best of None \<Rightarrow> True | Some b \<Rightarrow> day > dt_date (rb_ts b)) then Some bar else best)
          None bars)"

definition active_window :: "date \<Rightarrow> date option \<Rightarrow> date \<Rightarrow> bool" where
  "active_window day start end_day \<longleftrightarrow> (start = None \<or> day \<ge> the start) \<and> day < end_day"

record Plan =
  pl_chain :: "ContractSymbol list"
  pl_roll_target :: "(ContractSymbol \<times> date) list"
  pl_ltd :: "(ContractSymbol \<times> date) list"
  pl_back_of :: "(ContractSymbol \<times> ContractSymbol) list"

definition resolve_entry :: "RollCalendar \<Rightarrow> string \<Rightarrow> ContractSymbol \<Rightarrow> (ContractSymbol \<times> RollCalendarEntry) res" where
  "resolve_entry roll_calendar rt contract =
     bindE (require (take (length rt) contract = rt) TermStructureError) (\<lambda>_.
       case roll_calendar contract of None \<Rightarrow> Inl TermStructureError | Some entry \<Rightarrow> Inr (contract, entry))"

definition resolve_plan :: "ContractSymbol list \<Rightarrow> RollCalendar \<Rightarrow> string \<Rightarrow> Plan res" where
  "resolve_plan present roll_calendar rt =
     bindE (traverse (resolve_entry roll_calendar rt) present) (\<lambda>entries.
       let roll_target = map (\<lambda>(c, e). (c, rc_roll_target e)) entries
       in Inr \<lparr>pl_chain = sort_key (\<lambda>c. the (map_of roll_target c)) present,
               pl_roll_target = roll_target,
               pl_ltd = map (\<lambda>(c, e). (c, rc_ltd_date e)) entries,
               pl_back_of = map (\<lambda>(c, e). (c, rc_back_symbol e)) entries\<rparr>)"

text \<open>What one bar of the front contract gives: \<open>None\<close> where the code goes on to the next bar.\<close>

definition observe_bar ::
  "ContractSymbol \<Rightarrow> date \<Rightarrow> ContractSymbol \<Rightarrow> RawBar list option \<Rightarrow> date option \<Rightarrow> RawBar \<Rightarrow> CarryInputs option res" where
  "observe_bar front front_ltd bk back_bars back_ltd bar =
     (let day = dt_date (rb_ts bar)
      in case (back_bars, back_ltd) of
           (Some bars, Some ltd) \<Rightarrow>
             (case close_known bars day of
                None \<Rightarrow> Inr None
              | Some back_close \<Rightarrow>
                  if rb_close bar \<le> 0 \<or> back_close \<le> 0 then Inr None
                  else let days_front = front_ltd - day; days_back = ltd - day
                       in if \<not> (0 < days_front \<and> days_front < days_back) then Inr None
                          else let ci = \<lparr>ci_as_of = day, ci_front = front, ci_back = bk, ci_front_close = rb_close bar,
                                         ci_back_close = back_close, ci_days_front = days_front, ci_days_back = days_back\<rparr>
                               in bindE (CarryInputs_post_init ci) (\<lambda>_. Inr (Some ci)))
         | _ \<Rightarrow> Inr None)"

definition index_bar ::
  "date option \<Rightarrow> date \<Rightarrow> (RawBar \<Rightarrow> CarryInputs option res) \<Rightarrow> (date \<times> CarryInputs) list \<Rightarrow> RawBar \<Rightarrow> (date \<times> CarryInputs) list res" where
  "index_bar prev_roll window_end observe index bar =
     (let day = dt_date (rb_ts bar)
      in if \<not> active_window day prev_roll window_end then Inr index
         else bindE (observe bar) (\<lambda>found.
                case found of None \<Rightarrow> Inr index | Some ci \<Rightarrow> Inr (AList.update day ci index)))"

definition back_ltd_of :: "Plan \<Rightarrow> RollCalendar \<Rightarrow> ContractSymbol \<Rightarrow> date option" where
  "back_ltd_of plan roll_calendar bk =
     (case map_of (pl_ltd plan) bk of
        Some ltd \<Rightarrow> Some ltd
      | None \<Rightarrow> map_option rc_ltd_date (roll_calendar bk))"

fun precompute ::
  "Plan \<Rightarrow> contract_bars \<Rightarrow> RollCalendar \<Rightarrow> ContractSymbol list \<Rightarrow> date option \<Rightarrow> (date \<times> CarryInputs) list \<Rightarrow>
   (date \<times> CarryInputs) list res" where
  "precompute plan per_contract_bars roll_calendar [] prev_roll index = Inr index"
| "precompute plan per_contract_bars roll_calendar (front # chain) prev_roll index =
     bindE (lookup_key (pl_roll_target plan) front) (\<lambda>window_end.
     bindE (lookup_key (pl_back_of plan) front) (\<lambda>bk.
     bindE (lookup_key (pl_ltd plan) front) (\<lambda>front_ltd.
     bindE (lookup_key per_contract_bars front) (\<lambda>bars.
     bindE (foldE (index_bar prev_roll window_end
              (observe_bar front front_ltd bk (map_of per_contract_bars bk) (back_ltd_of plan roll_calendar bk))) index bars) (\<lambda>index'.
     precompute plan per_contract_bars roll_calendar chain (Some window_end) index')))))"

record StaticTermStructure =
  tst_root :: string
  tst_by_date :: "(date \<times> CarryInputs) list"

definition present_in :: "contract_bars \<Rightarrow> ContractSymbol list" where
  "present_in per_contract_bars = map fst (filter (\<lambda>(contract, bars). bars \<noteq> []) per_contract_bars)"

definition StaticTermStructure_init :: "contract_bars \<Rightarrow> RollCalendar \<Rightarrow> string \<Rightarrow> StaticTermStructure res" where
  "StaticTermStructure_init per_contract_bars roll_calendar rt =
     (let present = present_in per_contract_bars
      in bindE (require (present \<noteq> []) TermStructureError) (\<lambda>_.
         bindE (resolve_plan present roll_calendar rt) (\<lambda>plan.
         bindE (precompute plan per_contract_bars roll_calendar (pl_chain plan) None []) (\<lambda>index.
         Inr \<lparr>tst_root = rt, tst_by_date = index\<rparr>))))"

definition carry_inputs :: "StaticTermStructure \<Rightarrow> datetime \<Rightarrow> CarryInputs option res" where
  "carry_inputs ts as_of = bindE (assert_tz_aware as_of) (\<lambda>_. Inr (map_of (tst_by_date ts) (dt_date as_of)))"

definition available_dates :: "StaticTermStructure \<Rightarrow> date list" where
  "available_dates ts = sort (map fst (tst_by_date ts))"

section \<open>The view of a date\<close>

text \<open>
  What the index should hold at a date: the observation of the last usable bar, on that date, of the first
  contract along the chain whose roll target is still ahead.
\<close>

fun last_some :: "'a option \<Rightarrow> 'a option list \<Rightarrow> 'a option" where
  "last_some a [] = a"
| "last_some a (x # xs) = last_some (case x of None \<Rightarrow> a | Some v \<Rightarrow> Some v) xs"

definition observed :: "Plan \<Rightarrow> contract_bars \<Rightarrow> RollCalendar \<Rightarrow> ContractSymbol \<Rightarrow> RawBar \<Rightarrow> CarryInputs option" where
  "observed plan pcb cal front bar =
     (let bk = the (map_of (pl_back_of plan) front)
      in case observe_bar front (the (map_of (pl_ltd plan) front)) bk (map_of pcb bk) (back_ltd_of plan cal bk) bar of
           Inr x \<Rightarrow> x | Inl e \<Rightarrow> None)"

definition observation :: "Plan \<Rightarrow> contract_bars \<Rightarrow> RollCalendar \<Rightarrow> date \<Rightarrow> CarryInputs option" where
  "observation plan pcb cal day =
     (case List.find (\<lambda>c. day < the (map_of (pl_roll_target plan) c)) (pl_chain plan) of
        None \<Rightarrow> None
      | Some front \<Rightarrow>
          last_some None (map (observed plan pcb cal front)
            (filter (\<lambda>bar. dt_date (rb_ts bar) = day) (the (map_of pcb front)))))"

lemma observe_bar_total: "\<exists>x. observe_bar front front_ltd bk back_bars back_ltd bar = Inr x"
  by (auto simp: observe_bar_def CarryInputs_post_init_def res_simps Let_def split: option.splits)

lemma index_bars:
  assumes "\<And>b. b \<in> set bars \<Longrightarrow> \<exists>x. obs b = Inr x"
  shows "\<exists>index'. foldE (index_bar prev_roll window_end obs) index bars = Inr index' \<and>
     (\<forall>day. map_of index' day =
        (if active_window day prev_roll window_end
         then last_some (map_of index day) (map (\<lambda>b. case obs b of Inr x \<Rightarrow> x | Inl e \<Rightarrow> None) (filter (\<lambda>b. dt_date (rb_ts b) = day) bars))
         else map_of index day))"
  using assms
proof (induction bars arbitrary: index)
  case (Cons b bars)
  obtain x where x: "obs b = Inr x" using Cons.prems [of b] by auto
  let ?day = "dt_date (rb_ts b)"
  let ?index = "if active_window ?day prev_roll window_end then (case x of None \<Rightarrow> index | Some ci \<Rightarrow> AList.update ?day ci index) else index"
  have step: "index_bar prev_roll window_end obs index b = Inr ?index"
    using x by (auto simp: index_bar_def Let_def split: option.split)
  obtain index' where i: "foldE (index_bar prev_roll window_end obs) ?index bars = Inr index'"
    and m: "\<And>day. map_of index' day =
        (if active_window day prev_roll window_end
         then last_some (map_of ?index day) (map (\<lambda>b. case obs b of Inr x \<Rightarrow> x | Inl e \<Rightarrow> None) (filter (\<lambda>b. dt_date (rb_ts b) = day) bars))
         else map_of ?index day)"
    using Cons.IH [of ?index] Cons.prems by (metis list.set_intros(2))
  have "map_of index' day =
        (if active_window day prev_roll window_end
         then last_some (map_of index day) (map (\<lambda>b. case obs b of Inr x \<Rightarrow> x | Inl e \<Rightarrow> None) (filter (\<lambda>b. dt_date (rb_ts b) = day) (b # bars)))
         else map_of index day)" for day
    using m [of day] x by (auto simp: update_conv' split: option.split)
  then show ?case using step i by auto
qed simp

lemma precompute_exact:
  assumes "sorted_wrt (\<lambda>c d. T c \<le> T d) chain" "\<And>p c. prev = Some p \<Longrightarrow> c \<in> set chain \<Longrightarrow> p \<le> T c"
    and "\<And>c. c \<in> set chain \<Longrightarrow> map_of (pl_roll_target plan) c = Some (T c) \<and> map_of (pl_back_of plan) c \<noteq> None \<and>
           map_of (pl_ltd plan) c \<noteq> None \<and> map_of pcb c \<noteq> None"
  shows "\<exists>index'. precompute plan pcb cal chain prev index = Inr index' \<and>
     (\<forall>day. map_of index' day =
        (if (case prev of None \<Rightarrow> True | Some p \<Rightarrow> p \<le> day) then
           (case List.find (\<lambda>c. day < T c) chain of
              None \<Rightarrow> map_of index day
            | Some front \<Rightarrow> last_some (map_of index day) (map (observed plan pcb cal front)
                (filter (\<lambda>bar. dt_date (rb_ts bar) = day) (the (map_of pcb front)))))
         else map_of index day))"
  using assms
proof (induction chain arbitrary: prev index)
  case (Cons front chain)
  obtain bk ltd bars where f: "map_of (pl_roll_target plan) front = Some (T front)" "map_of (pl_back_of plan) front = Some bk"
    "map_of (pl_ltd plan) front = Some ltd" "map_of pcb front = Some bars"
    using Cons.prems(3) [of front] by auto
  let ?obs = "observe_bar front ltd bk (map_of pcb bk) (back_ltd_of plan cal bk)"
  have obs: "observed plan pcb cal front = (\<lambda>b. case ?obs b of Inr x \<Rightarrow> x | Inl e \<Rightarrow> None)"
    by (intro ext) (simp add: observed_def f Let_def split: sum.split)
  obtain mid where mid: "foldE (index_bar prev (T front) ?obs) index bars = Inr mid"
    and m: "\<And>day. map_of mid day =
        (if active_window day prev (T front)
         then last_some (map_of index day) (map (observed plan pcb cal front) (filter (\<lambda>b. dt_date (rb_ts b) = day) bars))
         else map_of index day)"
    using index_bars [of bars ?obs prev "T front" index] observe_bar_total unfolding obs by blast
  have "\<exists>index'. precompute plan pcb cal chain (Some (T front)) mid = Inr index' \<and>
     (\<forall>day. map_of index' day =
        (if (case Some (T front) of None \<Rightarrow> True | Some p \<Rightarrow> p \<le> day) then
           (case List.find (\<lambda>c. day < T c) chain of
              None \<Rightarrow> map_of mid day
            | Some front \<Rightarrow> last_some (map_of mid day) (map (observed plan pcb cal front)
                (filter (\<lambda>bar. dt_date (rb_ts bar) = day) (the (map_of pcb front)))))
         else map_of mid day))"
    using Cons.prems by (intro Cons.IH) auto
  then obtain index' where i: "precompute plan pcb cal chain (Some (T front)) mid = Inr index'"
    and r: "\<And>day. map_of index' day =
        (if T front \<le> day then
           (case List.find (\<lambda>c. day < T c) chain of
              None \<Rightarrow> map_of mid day
            | Some front \<Rightarrow> last_some (map_of mid day) (map (observed plan pcb cal front)
                (filter (\<lambda>bar. dt_date (rb_ts bar) = day) (the (map_of pcb front)))))
         else map_of mid day)"
    by auto
  have early: "List.find (\<lambda>c. day < T c) chain = None" if "\<not> T front \<le> day" "\<not> day < T front" for day
    using that by simp
  have "map_of index' day =
        (if (case prev of None \<Rightarrow> True | Some p \<Rightarrow> p \<le> day) then
           (case List.find (\<lambda>c. day < T c) (front # chain) of
              None \<Rightarrow> map_of index day
            | Some front \<Rightarrow> last_some (map_of index day) (map (observed plan pcb cal front)
                (filter (\<lambda>bar. dt_date (rb_ts bar) = day) (the (map_of pcb front)))))
         else map_of index day)" for day
  proof (cases "day < T front")
    case True
    then show ?thesis using r [of day] m [of day] f(4) by (auto simp: active_window_def split: option.split)
  next
    case False
    then have "case prev of None \<Rightarrow> True | Some p \<Rightarrow> p \<le> day" using Cons.prems(2) [of _ front] by (force split: option.split)
    then show ?thesis using False r [of day] m [of day] by (auto simp: active_window_def split: option.split)
  qed
  then show ?case using f mid i by (auto simp: lookup_key_def)
qed (auto split: option.split)

text \<open>The same, read off the bars and the calendar with no plan and no index.\<close>

definition carry_leg :: "contract_bars \<Rightarrow> RollCalendar \<Rightarrow> ContractSymbol \<Rightarrow> RawBar \<Rightarrow> CarryInputs option" where
  "carry_leg pcb cal front bar =
     (let day = dt_date (rb_ts bar); ltd = rc_ltd_date (the (cal front)); bk = rc_back_symbol (the (cal front))
      in case (map_of pcb bk, cal bk) of
           (Some bars, Some entry) \<Rightarrow>
             (case close_known bars day of
                None \<Rightarrow> None
              | Some back_close \<Rightarrow>
                  if 0 < rb_close bar \<and> 0 < back_close \<and> day < ltd \<and> ltd < rc_ltd_date entry
                  then Some \<lparr>ci_as_of = day, ci_front = front, ci_back = bk, ci_front_close = rb_close bar, ci_back_close = back_close,
                             ci_days_front = ltd - day, ci_days_back = rc_ltd_date entry - day\<rparr>
                  else None)
         | _ \<Rightarrow> None)"

definition carry_view :: "contract_bars \<Rightarrow> RollCalendar \<Rightarrow> date \<Rightarrow> CarryInputs option" where
  "carry_view pcb cal day =
     (case List.find (\<lambda>c. day < rc_roll_target (the (cal c))) (sort_key (\<lambda>c. rc_roll_target (the (cal c))) (present_in pcb)) of
        None \<Rightarrow> None
      | Some front \<Rightarrow>
          last_some None (map (carry_leg pcb cal front) (filter (\<lambda>bar. dt_date (rb_ts bar) = day) (the (map_of pcb front)))))"

lemma insort_key_cong_on: "(\<And>y. y \<in> set (x # ys) \<Longrightarrow> f y = g y) \<Longrightarrow> insort_key f x ys = insort_key g x ys"
  by (induction ys) auto

lemma sort_key_cong_on: "(\<And>x. x \<in> set xs \<Longrightarrow> f x = g x) \<Longrightarrow> sort_key f xs = sort_key g xs"
proof (induction xs)
  case (Cons x xs)
  then have "sort_key f xs = sort_key g xs" by simp
  then show ?case using insort_key_cong_on [of x "sort_key g xs" f g] Cons.prems by simp
qed simp

lemma map_of_keys: "map_of (map (\<lambda>k. (k, f k)) ks) k = (if k \<in> set ks then Some (f k) else None)"
  by (simp add: map_of_map_restrict restrict_map_def)

lemma resolve_plan_Inr:
  assumes "resolve_plan present cal rt = Inr plan"
  shows "\<And>c. c \<in> set present \<Longrightarrow> cal c \<noteq> None"
    "pl_chain plan = sort_key (\<lambda>c. rc_roll_target (the (cal c))) present"
    "pl_roll_target plan = map (\<lambda>c. (c, rc_roll_target (the (cal c)))) present"
    "pl_ltd plan = map (\<lambda>c. (c, rc_ltd_date (the (cal c)))) present"
    "pl_back_of plan = map (\<lambda>c. (c, rc_back_symbol (the (cal c)))) present"
proof -
  obtain es where es: "traverse (resolve_entry cal rt) present = Inr es"
    using assms by (auto simp: resolve_plan_def res_simps)
  have one: "cal c = Some e \<and> y = (c, e)" if "resolve_entry cal rt c = Inr y" "e = snd y" for c y e
    using that by (auto simp: resolve_entry_def res_simps split: option.splits)
  show some: "\<And>c. c \<in> set present \<Longrightarrow> cal c \<noteq> None" using traverse_mem [OF es] one by blast
  have "list_all2 (\<lambda>c y. y = (c, the (cal c))) present es"
    by (rule list_all2_mono [OF traverse_Inr_iff [THEN iffD1, OF es]]) (use one in force)
  then have e: "es = map (\<lambda>c. (c, the (cal c))) present"
    by (simp add: list_all2_conv_all_nth list_eq_iff_nth_eq)
  have t: "(\<lambda>(c, x). (c, f x)) \<circ> (\<lambda>c. (c, the (cal c))) = (\<lambda>c. (c, f (the (cal c))))" for f :: "RollCalendarEntry \<Rightarrow> 'x" by auto
  show rt: "pl_roll_target plan = map (\<lambda>c. (c, rc_roll_target (the (cal c)))) present"
    and "pl_ltd plan = map (\<lambda>c. (c, rc_ltd_date (the (cal c)))) present"
    and "pl_back_of plan = map (\<lambda>c. (c, rc_back_symbol (the (cal c)))) present"
    using assms unfolding resolve_plan_def es e by (auto simp: Let_def)
  have "pl_chain plan = sort_key (\<lambda>c. the (map_of (pl_roll_target plan) c)) present"
    using assms es by (auto simp: resolve_plan_def Let_def)
  also have "\<dots> = sort_key (\<lambda>c. rc_roll_target (the (cal c))) present"
    by (rule sort_key_cong_on) (simp add: rt map_of_keys)
  finally show "pl_chain plan = sort_key (\<lambda>c. rc_roll_target (the (cal c))) present" .
qed

lemma observed_leg:
  assumes "resolve_plan present cal rt = Inr plan" "front \<in> set present"
  shows "observed plan pcb cal front bar = carry_leg pcb cal front bar"
proof -
  note p = resolve_plan_Inr [OF assms(1)]
  have b: "back_ltd_of plan cal bk = map_option rc_ltd_date (cal bk)" for bk
    using p(1) [of bk] by (auto simp: back_ltd_of_def p(4) map_of_keys)
  show ?thesis
    using assms(2) by (auto simp: observed_def carry_leg_def b p(4,5) map_of_keys observe_bar_def CarryInputs_post_init_def
          Let_def res_simps split: option.split)
qed

lemma present_in_mem:
  assumes "distinct (map fst pcb)" "c \<in> set (present_in pcb)"
  shows "\<exists>bars. map_of pcb c = Some bars \<and> bars \<noteq> []"
  using assms by (auto simp: present_in_def)

lemma present_has_bars: "c \<in> set (present_in pcb) \<Longrightarrow> map_of pcb c \<noteq> None"
  by (auto simp: present_in_def map_of_eq_None_iff image_iff) force

lemma init_index:
  assumes "resolve_plan (present_in pcb) cal rt = Inr plan"
  shows "\<exists>index. precompute plan pcb cal (pl_chain plan) None [] = Inr index \<and> (\<forall>day. map_of index day = carry_view pcb cal day)"
proof -
  note p = resolve_plan_Inr [OF assms]
  let ?T = "\<lambda>c. rc_roll_target (the (cal c))"
  have "sorted_wrt (\<lambda>c d. ?T c \<le> ?T d) (pl_chain plan)"
    using sorted_sort_key [of ?T "present_in pcb"] by (simp add: p(2) sorted_wrt_map)
  note ex = precompute_exact [OF this, where prev = None and plan = plan and pcb = pcb and cal = cal and index = "[]"]
  have "\<exists>index. precompute plan pcb cal (pl_chain plan) None [] = Inr index \<and>
     (\<forall>day. map_of index day = (case List.find (\<lambda>c. day < ?T c) (pl_chain plan) of
              None \<Rightarrow> None
            | Some front \<Rightarrow> last_some None (map (observed plan pcb cal front)
                (filter (\<lambda>bar. dt_date (rb_ts bar) = day) (the (map_of pcb front))))))"
    using ex present_has_bars [of _ pcb] by (simp add: p(2-5) map_of_keys cong: option.case_cong)
  then obtain index where i: "precompute plan pcb cal (pl_chain plan) None [] = Inr index"
    and m: "\<And>day. map_of index day = (case List.find (\<lambda>c. day < ?T c) (pl_chain plan) of
              None \<Rightarrow> None
            | Some front \<Rightarrow> last_some None (map (observed plan pcb cal front)
                (filter (\<lambda>bar. dt_date (rb_ts bar) = day) (the (map_of pcb front)))))"
    by blast
  have "map_of index day = carry_view pcb cal day" for day
  proof (cases "List.find (\<lambda>c. day < ?T c) (pl_chain plan)")
    case (Some front)
    then have "front \<in> set (present_in pcb)" by (auto simp: find_Some_iff p(2) in_set_conv_nth [symmetric])
      (metis nth_mem set_sort length_sort)
    then have "observed plan pcb cal front = carry_leg pcb cal front" using observed_leg [OF assms] by blast
    then show ?thesis using m [of day] Some by (simp add: carry_view_def p(2))
  qed (simp add: m carry_view_def p(2))
  then show ?thesis using i by blast
qed

text \<open>
  C25. The index computed once at construction is the term structure as it can be read off the bars and the
  roll calendar on any single date. On every date the source answers with the leg pair of the first contract
  along the chain whose roll target is still ahead: its last usable close of that date, the latest close of
  its successor on or before the date, and the days both have left. Where a leg is missing it answers nothing.
\<close>

theorem carry_inputs_exact:
  assumes "StaticTermStructure_init pcb cal rt = Inr ts" "dt_aware as_of"
  shows "carry_inputs ts as_of = Inr (carry_view pcb cal (dt_date as_of))"
proof -
  obtain plan where "resolve_plan (present_in pcb) cal rt = Inr plan"
    and "precompute plan pcb cal (pl_chain plan) None [] = Inr (tst_by_date ts)"
    using assms(1) by (auto simp: StaticTermStructure_init_def Let_def res_simps)
  then show ?thesis using init_index assms(2) by (force simp: carry_inputs_def assert_tz_aware_def res_simps)
qed

section \<open>No look-ahead\<close>

definition bars_until :: "date \<Rightarrow> RawBar list \<Rightarrow> RawBar list" where
  "bars_until cutoff bars = filter (\<lambda>b. dt_date (rb_ts b) \<le> cutoff) bars"

lemma close_known_until: "day \<le> cutoff \<Longrightarrow> close_known (bars_until cutoff bars) day = close_known bars day"
proof -
  assume d: "day \<le> cutoff"
  let ?f = "\<lambda>best bar. let d = dt_date (rb_ts bar)
       in if d \<le> day \<and> (case best of None \<Rightarrow> True | Some b \<Rightarrow> d > dt_date (rb_ts b)) then Some bar else best"
  have "foldl ?f a (bars_until cutoff bars) = foldl ?f a bars" for a
    unfolding bars_until_def by (induction bars arbitrary: a) (use d in \<open>auto simp: Let_def\<close>)
  then show ?thesis unfolding close_known_def by simp
qed

lemma same_present:
  "list_all2 (\<lambda>(c, xs) (d, ys). c = d \<and> (xs = [] \<longleftrightarrow> ys = []) \<and> bars_until cutoff xs = bars_until cutoff ys) pcb pcb' \<Longrightarrow>
   present_in pcb = present_in pcb'"
  by (induction rule: list_all2_induct) (auto simp: present_in_def)

lemma same_bars:
  "list_all2 (\<lambda>(c, xs) (d, ys). c = d \<and> (xs = [] \<longleftrightarrow> ys = []) \<and> bars_until cutoff xs = bars_until cutoff ys) pcb pcb' \<Longrightarrow>
   map_option (bars_until cutoff) (map_of pcb c) = map_option (bars_until cutoff) (map_of pcb' c)"
  by (induction rule: list_all2_induct) auto

lemma same_day_bars:
  "bars_until cutoff xs = bars_until cutoff ys \<Longrightarrow> day \<le> cutoff \<Longrightarrow>
   filter (\<lambda>b. dt_date (rb_ts b) = day) xs = filter (\<lambda>b. dt_date (rb_ts b) = day) ys"
proof -
  assume u: "bars_until cutoff xs = bars_until cutoff ys" and d: "day \<le> cutoff"
  have "filter (\<lambda>b. dt_date (rb_ts b) = day) (bars_until cutoff zs) = filter (\<lambda>b. dt_date (rb_ts b) = day) zs" for zs
    unfolding bars_until_def filter_filter by (rule filter_cong) (use d in auto)
  then show ?thesis using u by metis
qed

lemma carry_leg_cong:
  assumes "map_option (bars_until cutoff) (map_of pcb bk) = map_option (bars_until cutoff) (map_of pcb' bk)"
    and "bk = rc_back_symbol (the (cal front))" "dt_date (rb_ts bar) \<le> cutoff"
  shows "carry_leg pcb cal front bar = carry_leg pcb' cal front bar"
proof (cases "map_of pcb bk")
  case (Some xs)
  then obtain ys where ys: "map_of pcb' bk = Some ys" "bars_until cutoff xs = bars_until cutoff ys"
    using assms(1) by (cases "map_of pcb' bk") auto
  then have "close_known xs (dt_date (rb_ts bar)) = close_known ys (dt_date (rb_ts bar))"
    using close_known_until [OF assms(3)] by metis
  then show ?thesis using Some ys(1) assms(2) by (simp add: carry_leg_def Let_def cong: option.case_cong)
next
  case None
  then show ?thesis using assms(1,2) by (simp add: carry_leg_def Let_def)
qed

text \<open>
  A term structure has no look-ahead. Take two loads of the same contracts, in the same order, whose bars
  agree up to a cutoff date, and which agree on the contracts that have a bar at all. Either both or neither
  can be built, and on every date up to the cutoff they give the same observation, whatever came later.
\<close>

theorem carry_no_lookahead:
  assumes "list_all2 (\<lambda>(c, xs) (d, ys). c = d \<and> (xs = [] \<longleftrightarrow> ys = []) \<and> bars_until cutoff xs = bars_until cutoff ys) pcb pcb'"
    and "StaticTermStructure_init pcb cal rt = Inr ts" "dt_aware as_of" "dt_date as_of \<le> cutoff"
  shows "\<exists>ts'. StaticTermStructure_init pcb' cal rt = Inr ts' \<and> carry_inputs ts' as_of = carry_inputs ts as_of"
proof -
  have pr: "present_in pcb' = present_in pcb" using same_present [OF assms(1)] by simp
  obtain plan where plan: "resolve_plan (present_in pcb) cal rt = Inr plan" "present_in pcb \<noteq> []"
    using assms(2) by (auto simp: StaticTermStructure_init_def Let_def res_simps)
  then obtain index where "precompute plan pcb' cal (pl_chain plan) None [] = Inr index"
    using init_index [of pcb' cal rt plan] pr by auto
  then have i: "StaticTermStructure_init pcb' cal rt = Inr \<lparr>tst_root = rt, tst_by_date = index\<rparr>"
    using plan pr by (simp add: StaticTermStructure_init_def res_simps)
  have "carry_view pcb cal (dt_date as_of) = carry_view pcb' cal (dt_date as_of)"
  proof -
    have "last_some None (map (carry_leg pcb cal front) (filter (\<lambda>bar. dt_date (rb_ts bar) = dt_date as_of) (the (map_of pcb front)))) =
          last_some None (map (carry_leg pcb' cal front) (filter (\<lambda>bar. dt_date (rb_ts bar) = dt_date as_of) (the (map_of pcb' front))))" for front
    proof -
      have f: "filter (\<lambda>bar. dt_date (rb_ts bar) = dt_date as_of) (the (map_of pcb front)) =
            filter (\<lambda>bar. dt_date (rb_ts bar) = dt_date as_of) (the (map_of pcb' front))"
      proof (cases "map_of pcb front")
        case (Some xs)
        then obtain ys where ys: "map_of pcb' front = Some ys" "bars_until cutoff xs = bars_until cutoff ys"
          using same_bars [OF assms(1), of front] by (cases "map_of pcb' front") auto
        show ?thesis using same_day_bars [OF ys(2) assms(4)] Some ys(1) by simp
      next
        case None
        then show ?thesis using same_bars [OF assms(1), of front] by simp
      qed
      show ?thesis unfolding f
        by (rule arg_cong [where f = "last_some None"], rule map_cong [OF refl], rule carry_leg_cong [OF same_bars [OF assms(1)] refl])
          (use assms(4) in auto)
    qed
    then show ?thesis by (simp add: carry_view_def pr cong: option.case_cong)
  qed
  then show ?thesis using i carry_inputs_exact [OF i assms(3)] carry_inputs_exact [OF assms(2,3)] by simp
qed

section \<open>Two contracts\<close>

definition leg_bar :: "ContractSymbol \<Rightarrow> date \<Rightarrow> decimal \<Rightarrow> RawBar" where
  "leg_bar c d p =
     \<lparr>rb_contract = c, rb_ts = \<lparr>dt_local = d * 86400000000, dt_off = Some 0\<rparr>, rb_resolution = DAY_1, rb_open = p, rb_high = p, rb_low = p,
      rb_close = p, rb_volume = 1, rb_oi = None, rb_source_id = ''s'', rb_as_of_iso = \<lparr>dt_local = d * 86400000000, dt_off = Some 0\<rparr>,
      rb_content_bytes_sha = replicate 64 CHR ''a''\<rparr>"

definition legs :: "decimal \<Rightarrow> contract_bars" where
  "legs later =
     [(''ESM26'', [leg_bar ''ESM26'' 9 6, leg_bar ''ESM26'' 11 later]),
      (''ESH26'', [leg_bar ''ESH26'' 8 5, leg_bar ''ESH26'' 10 4])]"

definition legs_entry :: "string \<Rightarrow> string \<Rightarrow> date \<Rightarrow> RollCalendarEntry" where
  "legs_entry front bk d =
     \<lparr>rc_front_symbol = front, rc_back_symbol = bk, rc_ltd_date = d + 4, rc_roll_target = d, rc_roll_deadline = d, rc_regime = RTH, rc_fnd_date = None\<rparr>"

definition legs_calendar :: RollCalendar where
  "legs_calendar c =
     (if c = ''ESH26'' then Some (legs_entry ''ESH26'' ''ESM26'' 20)
      else if c = ''ESM26'' then Some (legs_entry ''ESM26'' ''ESU26'' 100) else None)"

definition at_day :: "date \<Rightarrow> datetime" where
  "at_day d = \<lparr>dt_local = d * 86400000000, dt_off = Some 0\<rparr>"

lemma legs_init: "\<exists>ts. StaticTermStructure_init (legs later) legs_calendar ''ES'' = Inr ts"
proof -
  have p: "present_in (legs later) = [''ESM26'', ''ESH26'']" by (simp add: present_in_def legs_def)
  have "\<exists>plan. resolve_plan (present_in (legs later)) legs_calendar ''ES'' = Inr plan"
    by (simp add: p resolve_plan_def resolve_entry_def legs_calendar_def res_simps Let_def)
  then show ?thesis using init_index p by (force simp: StaticTermStructure_init_def res_simps)
qed

lemma legs_view:
  "carry_view (legs 7) legs_calendar 10 =
     Some \<lparr>ci_as_of = 10, ci_front = ''ESH26'', ci_back = ''ESM26'', ci_front_close = 4, ci_back_close = 6, ci_days_front = 14, ci_days_back = 94\<rparr>"
  by code_simp

theorem carry_inputs_exact_witness:
  "\<exists>ts. StaticTermStructure_init (legs 7) legs_calendar ''ES'' = Inr ts \<and>
     carry_inputs ts (at_day 10) =
       Inr (Some \<lparr>ci_as_of = 10, ci_front = ''ESH26'', ci_back = ''ESM26'', ci_front_close = 4, ci_back_close = 6, ci_days_front = 14, ci_days_back = 94\<rparr>)"
proof -
  obtain ts where ts: "StaticTermStructure_init (legs 7) legs_calendar ''ES'' = Inr ts" using legs_init by blast
  have a: "dt_aware (at_day 10)" "dt_date (at_day 10) = 10" by (simp_all add: at_day_def dt_aware_def dt_date_def)
  show ?thesis using carry_inputs_exact [OF ts a(1)] ts legs_view a(2) by simp
qed

text \<open>Whatever the successor does on the next day.\<close>

theorem carry_no_lookahead_witness:
  "\<exists>ts ts'. StaticTermStructure_init (legs 7) legs_calendar ''ES'' = Inr ts \<and>
     StaticTermStructure_init (legs 9) legs_calendar ''ES'' = Inr ts' \<and> carry_inputs ts' (at_day 10) = carry_inputs ts (at_day 10)"
proof -
  obtain ts where ts: "StaticTermStructure_init (legs 7) legs_calendar ''ES'' = Inr ts" using legs_init by blast
  have a: "dt_aware (at_day 10)" "dt_date (at_day 10) \<le> 10" by (simp_all add: at_day_def dt_aware_def dt_date_def)
  have "list_all2 (\<lambda>(c, xs) (d, ys). c = d \<and> (xs = [] \<longleftrightarrow> ys = []) \<and> bars_until 10 xs = bars_until 10 ys) (legs 7) (legs 9)"
    by (simp add: legs_def bars_until_def leg_bar_def dt_date_def)
  from carry_no_lookahead [OF this ts a] show ?thesis using ts by blast
qed

end
