(* ===== verification/Py_Text.thy ===== *)
theory Py_Text
  imports Decimal_Arith
begin

text \<open>
  What the parsers of vendor data use of Python's text: substrings, case, splitting on white space, whole
  words of a regular expression \<open>\bword\b\<close>, \<open>int(text)\<close> and \<open>Decimal(text)\<close>. Text is ASCII. \<open>int\<close> and
  \<open>Decimal\<close> return \<open>None\<close> on text that is no number; the words for infinities and NaN count as such text,
  because a \<open>decimal\<close> here is a number.
\<close>

fun str_contains :: "string \<Rightarrow> string \<Rightarrow> bool" where
  "str_contains w [] \<longleftrightarrow> w = []"
| "str_contains w (c # cs) \<longleftrightarrow> take (length w) (c # cs) = w \<or> str_contains w cs"

definition char_lower :: "char \<Rightarrow> char" where
  "char_lower c = (let n = (of_char c :: nat) in if 65 \<le> n \<and> n \<le> 90 then char_of (n + 32) else c)"

definition str_lower :: "string \<Rightarrow> string" where
  "str_lower s = map char_lower s"

definition str_remove :: "char \<Rightarrow> string \<Rightarrow> string" where
  "str_remove c s = filter (\<lambda>x. x \<noteq> c) s"

text \<open>\<open>str.split()\<close>; the first argument is the word read so far.\<close>

fun split_words :: "string \<Rightarrow> string \<Rightarrow> string list" where
  "split_words w [] = (if w = [] then [] else [w])"
| "split_words w (c # cs) =
     (if is_ascii_space c then (if w = [] then split_words [] cs else w # split_words [] cs) else split_words (w @ [c]) cs)"

definition str_split :: "string \<Rightarrow> string list" where
  "str_split s = split_words [] s"

definition is_word_char :: "char \<Rightarrow> bool" where
  "is_word_char c \<longleftrightarrow>
     is_ascii_digit c \<or> c = CHR ''_'' \<or> (let n = (of_char c :: nat) in 65 \<le> n \<and> n \<le> 90 \<or> 97 \<le> n \<and> n \<le> 122)"

text \<open>Whether a word stands in a text with no word character on either side; the flag is the character before.\<close>

fun has_word_from :: "bool \<Rightarrow> string \<Rightarrow> string \<Rightarrow> bool" where
  "has_word_from prev w [] \<longleftrightarrow> False"
| "has_word_from prev w (c # cs) \<longleftrightarrow>
     (\<not> prev \<and> take (length w) (c # cs) = w \<and> (case drop (length w) (c # cs) of [] \<Rightarrow> True | d # ds \<Rightarrow> \<not> is_word_char d))
     \<or> has_word_from (is_word_char c) w cs"

definition has_word :: "string \<Rightarrow> string \<Rightarrow> bool" where
  "has_word w s \<longleftrightarrow> has_word_from False w s"

section \<open>Numbers\<close>

definition split_sign :: "string \<Rightarrow> bool \<times> string" where
  "split_sign s =
     (case s of [] \<Rightarrow> (False, [])
      | c # cs \<Rightarrow> if c = CHR ''-'' then (True, cs) else if c = CHR ''+'' then (False, cs) else (False, s))"

text \<open>Digits, with single underscores between them.\<close>

fun digit_groups :: "bool \<Rightarrow> string \<Rightarrow> bool" where
  "digit_groups prev [] \<longleftrightarrow> prev"
| "digit_groups prev (c # cs) \<longleftrightarrow> (if c = CHR ''_'' then prev \<and> digit_groups False cs else is_ascii_digit c \<and> digit_groups True cs)"

definition parse_int :: "string \<Rightarrow> int option" where
  "parse_int s =
     (case split_sign (str_strip s) of (neg, t) \<Rightarrow>
        if digit_groups False t
        then Some ((if neg then - 1 else 1) * int (digits_val (str_remove (CHR ''_'') t))) else None)"

definition exponent_of :: "string \<Rightarrow> int option" where
  "exponent_of s =
     (case s of [] \<Rightarrow> Some 0
      | c # cs \<Rightarrow> if c \<in> {CHR ''e'', CHR ''E''}
          then (case split_sign cs of (neg, ds) \<Rightarrow>
                  if all_digits ds then Some ((if neg then - 1 else 1) * int (digits_val ds)) else None)
          else None)"

definition ten_power :: "int \<Rightarrow> rat" where
  "ten_power e = (if 0 \<le> e then 10 ^ nat e else 1 / 10 ^ nat (- e))"

definition parse_decimal :: "string \<Rightarrow> decimal option" where
  "parse_decimal s =
     (case split_sign (str_remove (CHR ''_'') (str_strip s)) of (neg, t) \<Rightarrow>
        let ip = takeWhile is_ascii_digit t; r = dropWhile is_ascii_digit t;
            dot = r \<noteq> [] \<and> hd r = CHR ''.'';
            fp = (if dot then takeWhile is_ascii_digit (tl r) else []);
            e = (if dot then dropWhile is_ascii_digit (tl r) else r)
        in if ip @ fp = [] then None
           else (case exponent_of e of
                   None \<Rightarrow> None
                 | Some x \<Rightarrow> Some ((if neg then - 1 else 1) * of_nat (digits_val (ip @ fp)) * ten_power (x - int (length fp)))))"

section \<open>Lemmas\<close>

lemma all_digits_not:
  assumes "all_digits s" "c \<in> set s"
  shows "is_ascii_digit c" "\<not> is_ascii_space c" "c \<noteq> CHR ''_''" "c \<noteq> CHR ''-''" "c \<noteq> CHR ''+''"
  using assms by (auto simp: all_digits_def is_ascii_digit_def is_ascii_space_def Let_def)

lemma plain_digits:
  assumes "all_digits s"
  shows "str_strip s = s" "split_sign s = (False, s)" "str_remove (CHR ''_'') s = s"
proof -
  have ne: "s \<noteq> []" using assms by (simp add: all_digits_def)
  have dw: "dropWhile is_ascii_space xs = xs" if "xs \<noteq> []" "set xs \<subseteq> set s" for xs
    using that all_digits_not [OF assms] by (cases xs) auto
  show "str_strip s = s" unfolding str_strip_def using dw [of s] dw [of "rev s"] ne by simp
  show "split_sign s = (False, s)" using all_digits_not [OF assms] ne by (cases s) (auto simp: split_sign_def)
  show "str_remove (CHR ''_'') s = s" unfolding str_remove_def using all_digits_not [OF assms] by (auto simp: filter_id_conv)
qed

lemma parse_int_digits:
  assumes "all_digits s"
  shows "parse_int s = Some (int (digits_val s))"
proof -
  have "digit_groups prev xs" if "set xs \<subseteq> set s" "xs \<noteq> [] \<or> prev" for prev xs
    using that by (induction xs arbitrary: prev) (use all_digits_not [OF assms] in auto)
  then have "digit_groups False s" using assms by (simp add: all_digits_def)
  then show ?thesis using plain_digits [OF assms] by (simp add: parse_int_def)
qed

lemma parse_decimal_digits:
  assumes "all_digits s"
  shows "parse_decimal s = Some (of_nat (digits_val s))"
proof -
  have t: "takeWhile is_ascii_digit s = s" "dropWhile is_ascii_digit s = []"
    using all_digits_not(1) [OF assms] by (simp_all only: takeWhile_eq_all_conv dropWhile_eq_Nil_conv) blast+
  have "s \<noteq> []" using assms by (simp add: all_digits_def)
  then show ?thesis
    by (simp add: parse_decimal_def exponent_of_def ten_power_def Let_def t plain_digits [OF assms])
qed

end
