(* ===== verification/CME_EOD.thy ===== *)
theory CME_EOD
  imports Verifier Storage Py_Text
begin

text \<open>
  The source of exchange settlements (\<open>src/futur3/data/sources/cme_eod.py\<close>): contract symbols and page
  months, the cells of a settlement table, the page with its schema check, and the archive every fetch adds to.

  The HTML parser and the HTTP client are packages outside the repository. A page is given by what the code
  asks the parser for, the record \<open>Soup\<close>: the table a selector finds, with the text of its header and body
  cells, the text of the status element and the text of the whole page; \<open>soup\<close> and \<open>fetch\<close> are arguments.
  Files are those of \<open>Storage\<close>: \<open>unique\<close> of \<open>frames\<close> and the failures of \<open>disk\<close> are arguments too.
\<close>

definition MIN_CONTRACT_SYMBOL_LENGTH :: nat where "MIN_CONTRACT_SYMBOL_LENGTH = 4"
definition MONTH_DISPLAY_PARTS :: nat where "MONTH_DISPLAY_PARTS = 2"
definition YEAR_DIGIT_COUNT :: nat where "YEAR_DIGIT_COUNT = 2"

definition CME_SOURCE_ID :: string where "CME_SOURCE_ID = ''cme_public_settlements''"
definition CME_URL_BASE :: string where "CME_URL_BASE = ''https://www.cmegroup.com''"

definition URLS :: "(string \<times> string) list" where
  "URLS =
     [(''ES'', ''/markets/equities/sp/e-mini-sandp500.settlements.html''),
      (''NQ'', ''/markets/equities/nasdaq/e-mini-nasdaq-100.settlements.html''),
      (''CL'', ''/markets/energy/crude-oil/light-sweet-crude.settlements.html''),
      (''GC'', ''/markets/metals/precious/gold.settlements.html''),
      (''MBT'', ''/markets/cryptocurrencies/bitcoin/micro-bitcoin.settlements.html''),
      (''MET'', ''/markets/cryptocurrencies/ether/micro-ether.settlements.html''),
      (''MES'', ''/markets/equities/sp/micro-e-mini-sandp-500.settlements.html''),
      (''MNQ'', ''/markets/equities/nasdaq/micro-e-mini-nasdaq-100.settlements.html''),
      (''MCL'', ''/markets/energy/crude-oil/micro-crude-oil.settlements.html''),
      (''MGC'', ''/markets/metals/precious/micro-gold.settlements.html'')]"

definition EXPECTED_COLUMN_HEADERS :: "string list" where
  "EXPECTED_COLUMN_HEADERS =
     [''Month'', ''Open'', ''High'', ''Low'', ''Last'', ''Change'', ''Settle'', ''Est. Volume'', ''Prior Day OI'']"

definition MONTH_NAME_TO_CODE :: "(string \<times> char) list" where
  "MONTH_NAME_TO_CODE =
     [(''JAN'', CHR ''F''), (''FEB'', CHR ''G''), (''MAR'', CHR ''H''), (''APR'', CHR ''J''), (''MAY'', CHR ''K''), (''JUN'', CHR ''M''),
      (''JUL'', CHR ''N''), (''AUG'', CHR ''Q''), (''SEP'', CHR ''U''), (''OCT'', CHR ''V''), (''NOV'', CHR ''X''), (''DEC'', CHR ''Z'')]"

definition VALID_MONTH_CODES :: "char list" where
  "VALID_MONTH_CODES = map snd MONTH_NAME_TO_CODE"

definition WAF_MARKERS :: "string list" where
  "WAF_MARKERS =
     [''cf-please-wait'', ''Checking if the site connection is secure'', ''Just a moment...'', ''_cf_chl_opt'', ''cf_chl_'']"

definition PLACEHOLDER_VALUES :: "string list" where
  "PLACEHOLDER_VALUES = [''---'', ''--'', '''', ''-'', ''n/a'', ''N/A'']"

section \<open>Symbols and cells\<close>

definition is_waf_block :: "string \<Rightarrow> bool" where
  "is_waf_block content_bytes = list_ex (\<lambda>marker. str_contains marker content_bytes) WAF_MARKERS"

definition compute_schema_signature :: "string list \<Rightarrow> string" where
  "compute_schema_signature headers = sha256_hex (''['' @ str_join '', '' (map json_string headers) @ '']'')"

definition parse_contract_symbol :: "ContractSymbol \<Rightarrow> (string \<times> char \<times> int) res" where
  "parse_contract_symbol s =
     (if length s < MIN_CONTRACT_SYMBOL_LENGTH then Inl ContractNotConfigured
      else let year_str = drop (length s - 2) s; month_code = s ! (length s - 3); contract_root = take (length s - 3) s
           in if \<not> all_digits year_str then Inl ContractNotConfigured
              else if month_code \<notin> set VALID_MONTH_CODES then Inl ContractNotConfigured
              else if contract_root \<notin> fst ` set URLS then Inl ContractNotConfigured
              else Inr (contract_root, month_code, int (digits_val year_str)))"

definition parse_month_display :: "string \<Rightarrow> (char \<times> int) res" where
  "parse_month_display display =
     (case str_split (str_upper (str_strip display)) of
        [month_name, year_str] \<Rightarrow>
          (case map_of MONTH_NAME_TO_CODE month_name of
             None \<Rightarrow> Inl MalformedSettlementPage
           | Some code \<Rightarrow>
               if \<not> all_digits year_str \<or> length year_str \<noteq> YEAR_DIGIT_COUNT then Inl MalformedSettlementPage
               else Inr (code, int (digits_val year_str)))
      | _ \<Rightarrow> Inl MalformedSettlementPage)"

definition parse_decimal_cell :: "string \<Rightarrow> decimal option res" where
  "parse_decimal_cell raw =
     (let s = str_strip raw
      in if s \<in> set PLACEHOLDER_VALUES then Inr None
         else let t = str_remove (CHR '','') s; u = (if t \<noteq> [] \<and> hd t = CHR ''+'' then tl t else t)
              in case parse_decimal u of None \<Rightarrow> Inl MalformedSettlementPage | Some d \<Rightarrow> Inr (Some d))"

definition parse_int_cell :: "string \<Rightarrow> int option res" where
  "parse_int_cell raw =
     (let s = str_strip raw
      in if s \<in> set PLACEHOLDER_VALUES then Inr None
         else case parse_int (str_remove (CHR '','') s) of None \<Rightarrow> Inl MalformedSettlementPage | Some i \<Rightarrow> Inr (Some i))"

section \<open>The page\<close>

datatype table_selector = by_id string | by_class string | any_table

record Table =
  tb_header :: "string list option option"
  tb_rows :: "string list list option"

record Soup =
  sp_find_table :: "table_selector \<Rightarrow> Table option"
  sp_status :: "string option"
  sp_text :: string

definition find_settlement_table :: "Soup \<Rightarrow> Table res" where
  "find_settlement_table soup =
     (case List.find (\<lambda>t. t \<noteq> None)
             (map (sp_find_table soup) [by_id ''settlementsTable'', by_class ''cmeTable'', by_class ''main-table'', any_table]) of
        Some (Some t) \<Rightarrow> Inr t
      | _ \<Rightarrow> Inl MalformedSettlementPage)"

definition detect_settle_state :: "Soup \<Rightarrow> SettleState" where
  "detect_settle_state soup =
     (let from_text = (if has_word ''Final'' (sp_text soup) \<and> \<not> has_word ''Preliminary'' (sp_text soup)
                       then settle_final else settle_preliminary)
      in case sp_status soup of
           None \<Rightarrow> from_text
         | Some status \<Rightarrow>
             (let text = str_lower status
              in if str_contains ''final'' text then settle_final
                 else if str_contains ''preliminary'' text then settle_preliminary
                 else from_text))"

text \<open>One row: \<open>None\<close> where the code skips it.\<close>

definition build_settle ::
  "string list \<Rightarrow> string \<Rightarrow> string \<Rightarrow> datetime \<Rightarrow> date \<Rightarrow> SettleState \<Rightarrow> Settle option res" where
  "build_settle cells contract_root content_sha as_of_iso as_of_date settle_state =
     (case cells of
        [month_disp, open_str, high_str, low_str, last_str, change_str, settle_str, volume_str, oi_prior_str] \<Rightarrow>
          bindE (parse_month_display month_disp) (\<lambda>(month_code, year_2dig).
          let contract = contract_root @ [month_code] @ zpad 2 (nat year_2dig)
          in bindE (parse_decimal_cell settle_str) (\<lambda>settle_value.
             case settle_value of
               None \<Rightarrow> Inr None
             | Some settle \<Rightarrow>
                 bindE (parse_decimal_cell open_str) (\<lambda>open_value.
                 bindE (parse_decimal_cell high_str) (\<lambda>high_value.
                 bindE (parse_decimal_cell low_str) (\<lambda>low_value.
                 bindE (parse_decimal_cell last_str) (\<lambda>last_value.
                 bindE (parse_decimal_cell change_str) (\<lambda>change_value.
                 bindE (parse_int_cell volume_str) (\<lambda>volume_value.
                 bindE (parse_int_cell oi_prior_str) (\<lambda>oi_prior_value.
                 let s = \<lparr>st_contract = contract, st_as_of_date = as_of_date, st_settle = settle, st_settle_state = settle_state,
                          st_open = (case open_value of None \<Rightarrow> settle | Some x \<Rightarrow> x),
                          st_high = (case high_value of None \<Rightarrow> settle | Some x \<Rightarrow> x),
                          st_low = (case low_value of None \<Rightarrow> settle | Some x \<Rightarrow> x),
                          st_last = (case last_value of None \<Rightarrow> settle | Some x \<Rightarrow> x),
                          st_change = (case change_value of None \<Rightarrow> 0 | Some x \<Rightarrow> x),
                          st_volume_est = (case volume_value of None \<Rightarrow> 0 | Some x \<Rightarrow> x),
                          st_oi_prior = (case oi_prior_value of None \<Rightarrow> 0 | Some x \<Rightarrow> x),
                          st_source_id = CME_SOURCE_ID, st_as_of_iso = Some as_of_iso,
                          st_content_bytes_sha = content_sha256 (content_sha @ ''||'' @ contract),
                          st_cme_month_code = [month_code]\<rparr>
                 in bindE (Settle_post_init s) (\<lambda>_. Inr (Some s)))))))))))
      | _ \<Rightarrow> Inl ValueError)"

definition parse_row ::
  "string \<Rightarrow> string \<Rightarrow> datetime \<Rightarrow> date \<Rightarrow> SettleState \<Rightarrow> string list \<Rightarrow> Settle option res" where
  "parse_row contract_root content_sha as_of_iso as_of_date settle_state cells =
     (if length cells \<noteq> length EXPECTED_COLUMN_HEADERS then Inl MalformedSettlementPage
      else build_settle cells contract_root content_sha as_of_iso as_of_date settle_state)"

definition parse_settlement_page ::
  "Soup \<Rightarrow> string \<Rightarrow> string \<Rightarrow> datetime \<Rightarrow> date \<Rightarrow> Settle list res" where
  "parse_settlement_page soup contract_root content_sha as_of_iso as_of_date =
     bindE (find_settlement_table soup) (\<lambda>table.
       case tb_header table of
         None \<Rightarrow> Inl MalformedSettlementPage
       | Some None \<Rightarrow> Inl MalformedSettlementPage
       | Some (Some headers) \<Rightarrow>
           if compute_schema_signature headers \<noteq> compute_schema_signature EXPECTED_COLUMN_HEADERS then Inl SchemaMismatch
           else (case tb_rows table of
                   None \<Rightarrow> Inl MalformedSettlementPage
                 | Some rows \<Rightarrow>
                     if rows = [] then Inl MalformedSettlementPage
                     else let settle_state = detect_settle_state soup
                          in bindE (traverse (parse_row contract_root content_sha as_of_iso as_of_date settle_state) rows) (\<lambda>results.
                             Inr (map the (filter (\<lambda>r. r \<noteq> None) results)))))"

section \<open>The archive\<close>

definition cme_row :: "Settle \<Rightarrow> SettleRow" where
  "cme_row s =
     \<lparr>sr_contract = st_contract s, sr_as_of_date = st_as_of_date s, sr_settle = st_settle s,
      sr_settle_state = settle_state_value (st_settle_state s), sr_open = st_open s, sr_high = st_high s,
      sr_low = st_low s, sr_last = st_last s, sr_change = st_change s, sr_volume_est = st_volume_est s,
      sr_oi_prior = st_oi_prior s, sr_source_id = st_source_id s, sr_as_of_iso = st_as_of_iso s,
      sr_content_bytes_sha = st_content_bytes_sha s, sr_cme_month_code = st_cme_month_code s\<rparr>"

definition archive_path :: "string \<Rightarrow> int \<Rightarrow> path" where
  "archive_path contract_root year = [''contract='' @ contract_root, ''year='' @ show_int year, ''data.parquet'']"

fun write_years ::
  "disk \<Rightarrow> SettleRow frames \<Rightarrow> string \<Rightarrow> (int \<times> Settle list) list \<Rightarrow> SettleRow archive \<Rightarrow> unit res \<times> SettleRow archive" where
  "write_years dk fs contract_root [] files = (Inr (), files)"
| "write_years dk fs contract_root ((year, year_settles) # by_year) files =
     (let path = archive_path contract_root year; new_df = map cme_row year_settles
      in if dk_no_dir dk path then (Inl OSError, files)
         else if dk_no_io dk path then (Inl OSError, files)
         else write_years dk fs contract_root by_year
                (AList.update path
                   (case map_of files path of
                      Some existing_df \<Rightarrow> fr_unique fs (existing_df @ new_df)
                    | None \<Rightarrow> new_df) files))"

definition write_archive ::
  "disk \<Rightarrow> SettleRow frames \<Rightarrow> string \<Rightarrow> Settle list \<Rightarrow> SettleRow archive \<Rightarrow> unit res \<times> SettleRow archive" where
  "write_archive dk fs contract_root settles files =
     (if settles = [] then (Inr (), files)
      else write_years dk fs contract_root (group_by (\<lambda>s. year_of (st_as_of_date s)) settles) files)"

section \<open>The source\<close>

record CME =
  cme_fetch :: "string \<Rightarrow> (string \<times> string) res"
  cme_soup :: "string \<Rightarrow> Soup"
  cme_now :: datetime

definition fetch_all_for_root ::
  "CME \<Rightarrow> disk \<Rightarrow> SettleRow frames \<Rightarrow> string \<Rightarrow> datetime \<Rightarrow> SettleRow archive \<Rightarrow> Settle list res \<times> SettleRow archive" where
  "fetch_all_for_root cme dk fs contract_root as_of files =
     (case map_of URLS contract_root of
        None \<Rightarrow> (Inl ContractNotConfigured, files)
      | Some url \<Rightarrow>
          bindS (cme_fetch cme (CME_URL_BASE @ url), files) (\<lambda>(content_bytes, content_sha) files.
            if is_waf_block content_bytes then (Inl WAFBlockedError, files)
            else bindS (parse_settlement_page (cme_soup cme content_bytes) contract_root content_sha (cme_now cme) (dt_date as_of), files)
              (\<lambda>settles files.
                 bindS (write_archive dk fs contract_root settles files) (\<lambda>_ files. (Inr settles, files)))))"

definition cme_latest_settle ::
  "CME \<Rightarrow> disk \<Rightarrow> SettleRow frames \<Rightarrow> ContractSymbol \<Rightarrow> datetime \<Rightarrow> SettleRow archive \<Rightarrow> Settle option res \<times> SettleRow archive" where
  "cme_latest_settle cme dk fs contract as_of files =
     bindS (parse_contract_symbol contract, files) (\<lambda>(contract_root, _, _) files.
     bindS (fetch_all_for_root cme dk fs contract_root as_of files) (\<lambda>settles files.
       (Inr (List.find (\<lambda>s. st_contract s = contract) settles), files)))"

definition cme_get_bars :: "ContractSymbol \<Rightarrow> datetime \<Rightarrow> datetime \<Rightarrow> BarResolution \<Rightarrow> RawBar list res" where
  "cme_get_bars contract ts_start ts_end resolution = Inl BarsNotSupported"

end
