(* ===== verification/CME_Properties.thy ===== *)
theory CME_Properties
  imports Replay Storage_Properties
begin

text \<open>
  Properties of \<open>CME_EOD\<close> and \<open>Replay\<close>: the symbols of a page can be looked up again, a fetch adds to the
  archive and never loses a record of it, and a replay of the archive answers what the live source answered.
\<close>

section \<open>Symbols and rows\<close>

lemma digit_val_le: "is_ascii_digit c \<Longrightarrow> digit_val c \<le> 9"
  by (simp add: is_ascii_digit_def digit_val_def le_diff_conv)

lemma digits_val_two: "all_digits s \<Longrightarrow> length s = 2 \<Longrightarrow> digits_val s < 100"
proof -
  assume d: "all_digits s" and "length s = 2"
  then obtain a b where "s = [a, b]" by (auto simp: numeral_2_eq_2 length_Suc_conv)
  then show ?thesis using d digit_val_le [of a] digit_val_le [of b] by (simp add: all_digits_def digits_val_def)
qed

lemma parse_month_display_Inr:
  assumes "parse_month_display d = Inr (code, y)"
  shows "code \<in> set VALID_MONTH_CODES" "0 \<le> y" "nat y < 100"
proof -
  obtain m t where "map_of MONTH_NAME_TO_CODE m = Some code" "all_digits t" "length t = YEAR_DIGIT_COUNT" "y = int (digits_val t)"
    using assms by (auto simp: parse_month_display_def split: list.splits option.splits if_splits)
  then show "code \<in> set VALID_MONTH_CODES" "0 \<le> y" "nat y < 100"
    using digits_val_two [of t] by (auto simp: VALID_MONTH_CODES_def YEAR_DIGIT_COUNT_def dest: map_of_SomeD)
      (metis image_eqI map_of_SomeD snd_conv)
qed

lemma build_settle_nine:
  assumes "build_settle [a, b, c, e, f, g, h, i, j] contract_root sha now d state = Inr (Some s)"
  shows "\<exists>code y settle. parse_month_display a = Inr (code, y) \<and> parse_decimal_cell h = Inr (Some settle) \<and>
      st_contract s = contract_root @ [code] @ zpad 2 (nat y) \<and> st_as_of_date s = d \<and> st_settle_state s = state \<and>
      st_as_of_iso s = Some now \<and> st_content_bytes_sha s = content_sha256 (sha @ ''||'' @ st_contract s) \<and>
      Settle_post_init s = Inr () \<and> st_source_id s = CME_SOURCE_ID \<and> st_settle s = settle"
proof -
  obtain code y where m: "parse_month_display a = Inr (code, y)" using assms by (auto simp: build_settle_def res_simps)
  obtain settle where st: "parse_decimal_cell h = Inr (Some settle)"
    using assms by (auto simp: build_settle_def m Let_def res_simps split: option.split_asm)
  obtain s' where "Settle_post_init s' = Inr () \<and> s' = s \<and> st_contract s' = contract_root @ [code] @ zpad 2 (nat y) \<and>
      st_as_of_date s' = d \<and> st_settle_state s' = state \<and> st_as_of_iso s' = Some now \<and>
      st_content_bytes_sha s' = content_sha256 (sha @ ''||'' @ contract_root @ [code] @ zpad 2 (nat y)) \<and>
      st_source_id s' = CME_SOURCE_ID \<and> st_settle s' = settle"
    using assms unfolding build_settle_def by (simp add: m st Let_def res_simps del: append.simps) (elim exE conjE, force)
  then show ?thesis using m st by auto
qed

lemma build_settle_Inr:
  assumes "build_settle cells contract_root sha now d state = Inr (Some s)"
  shows "\<exists>code y. code \<in> set VALID_MONTH_CODES \<and> y < 100 \<and> st_contract s = contract_root @ [code] @ zpad 2 y \<and>
     parse_month_display (hd cells) = Inr (code, int y)"
    "st_as_of_date s = d" "st_settle_state s = state" "st_as_of_iso s = Some now"
    "st_content_bytes_sha s = content_sha256 (sha @ ''||'' @ st_contract s)" "Settle_post_init s = Inr ()"
    "st_source_id s = CME_SOURCE_ID" "parse_decimal_cell (cells ! 6) = Inr (Some (st_settle s))"
proof -
  obtain a b c e f g h i j where cells: "cells = [a, b, c, e, f, g, h, i, j]"
    using assms by (auto simp: build_settle_def split: list.splits)
  obtain code y settle where m: "parse_month_display a = Inr (code, y)" and st: "parse_decimal_cell h = Inr (Some settle)"
    and s: "st_contract s = contract_root @ [code] @ zpad 2 (nat y) \<and> st_as_of_date s = d \<and> st_settle_state s = state \<and>
      st_as_of_iso s = Some now \<and> st_content_bytes_sha s = content_sha256 (sha @ ''||'' @ st_contract s) \<and>
      Settle_post_init s = Inr () \<and> st_source_id s = CME_SOURCE_ID \<and> st_settle s = settle"
    using build_settle_nine [OF assms [unfolded cells]] by blast
  show "\<exists>code y. code \<in> set VALID_MONTH_CODES \<and> y < 100 \<and> st_contract s = contract_root @ [code] @ zpad 2 y \<and>
     parse_month_display (hd cells) = Inr (code, int y)"
    using parse_month_display_Inr [OF m] s m cells by (intro exI [of _ code] exI [of _ "nat y"]) auto
  show "st_as_of_date s = d" "st_settle_state s = state" "st_as_of_iso s = Some now"
    "st_content_bytes_sha s = content_sha256 (sha @ ''||'' @ st_contract s)" "Settle_post_init s = Inr ()"
    "st_source_id s = CME_SOURCE_ID"
    using s by blast+
  show "parse_decimal_cell (cells ! 6) = Inr (Some (st_settle s))" using s st cells by simp
qed

lemma parse_contract_symbol_built:
  assumes "contract_root \<in> fst ` set URLS" "code \<in> set VALID_MONTH_CODES" "y < 100"
  shows "parse_contract_symbol (contract_root @ [code] @ zpad 2 y) = Inr (contract_root, code, int y)"
proof -
  have "contract_root \<noteq> []" using assms(1) by (auto simp: URLS_def)
  then have n: "1 \<le> length contract_root" by (cases contract_root) auto
  let ?s = "contract_root @ [code] @ zpad 2 y"
  have l: "length ?s = length contract_root + 3" using assms(3) by simp
  have "drop (length ?s - 2) ?s = zpad 2 y" "?s ! (length ?s - 3) = code" "take (length ?s - 3) ?s = contract_root"
    unfolding l by (simp_all add: nth_append)
  then show ?thesis
    using assms n l \<open>contract_root \<noteq> []\<close> by (simp add: parse_contract_symbol_def MIN_CONTRACT_SYMBOL_LENGTH_def Let_def del: append_Cons)
qed

section \<open>The archive\<close>

definition contract_root_of :: "ContractSymbol \<Rightarrow> string" where
  "contract_root_of c = take (length c - 3) c"

definition cme_file :: "SettleRow \<Rightarrow> path" where
  "cme_file r = archive_path (contract_root_of (sr_contract r)) (year_of (sr_as_of_date r))"

text \<open>One file per root and year, and one row per key in each.\<close>

definition cme_archive :: "SettleRow archive \<Rightarrow> bool" where
  "cme_archive files \<longleftrightarrow>
     distinct (map fst files) \<and>
     (\<forall>p rows. map_of files p = Some rows \<longrightarrow> distinct (map settle_dedupe rows) \<and> (\<forall>r \<in> set rows. cme_file r = p))"

text \<open>A page that lists no contract twice.\<close>

definition page_ok :: "Settle list \<Rightarrow> bool" where
  "page_ok settles \<longleftrightarrow> distinct (map st_contract settles)"

lemma cme_row_key: "settle_dedupe (cme_row s) = (st_contract s, st_as_of_date s, settle_state_value (st_settle_state s), st_content_bytes_sha s)"
  by (simp add: settle_dedupe_def cme_row_def)

lemma group_by_const:
  assumes "\<forall>x \<in> set xs. f x = k" "xs \<noteq> []"
  shows "group_by f xs = [(k, xs)]"
proof -
  have g: "(k', ys) \<in> set (group_by f xs) \<longleftrightarrow> k' = k \<and> ys = xs" for k' ys
  proof -
    have "filter (\<lambda>x. f x = k') xs = (if k' = k then xs else [])" using assms(1) by (auto simp: filter_id_conv filter_empty_conv)
    then show ?thesis using assms(2) group_by_mem [of k' ys f xs] by auto
  qed
  then have s: "set (group_by f xs) = {(k, xs)}" by auto
  have "distinct (group_by f xs)" using distinct_group_by [of f xs] by (simp add: distinct_map)
  then have "length (group_by f xs) = Suc 0" using distinct_card [of "group_by f xs"] s by simp
  then obtain z where "group_by f xs = [z]" by (auto simp: length_Suc_conv)
  then show ?thesis using s by simp
qed

lemma page_settles:
  assumes "parse_settlement_page soup contract_root sha now d = Inr settles" "s \<in> set settles"
  shows "\<exists>cells state. build_settle cells contract_root sha now d state = Inr (Some s)"
proof -
  obtain table where t: "find_settlement_table soup = Inr table" using assms(1) by (auto simp: parse_settlement_page_def res_simps)
  obtain headers rows where h: "tb_header table = Some (Some headers)" "tb_rows table = Some rows" "rows \<noteq> []"
    "compute_schema_signature headers = compute_schema_signature EXPECTED_COLUMN_HEADERS"
    using assms(1) by (simp add: parse_settlement_page_def t split: option.split_asm if_split_asm)
  obtain results where r: "traverse (parse_row contract_root sha now d (detect_settle_state soup)) rows = Inr results"
    and s: "settles = map the (filter (\<lambda>r. r \<noteq> None) results)"
    using assms(1) by (auto simp: parse_settlement_page_def t h res_simps)
  have "Some s \<in> set results" using assms(2) s by auto
  from traverse_mem_back [OF r this] show ?thesis by (auto simp: parse_row_def split: if_splits)
qed

lemma fetch_cases:
  assumes "fetch_all_for_root cme dk fs contract_root as_of files = (Inr settles, files')"
  shows "contract_root \<in> fst ` set URLS"
    "\<exists>soup sha. parse_settlement_page soup contract_root sha (cme_now cme) (dt_date as_of) = Inr settles"
    "write_archive dk fs contract_root settles files = (Inr (), files')"
proof -
  obtain url body sha where u: "map_of URLS contract_root = Some url" "cme_fetch cme (CME_URL_BASE @ url) = Inr (body, sha)"
    and p: "parse_settlement_page (cme_soup cme body) contract_root sha (cme_now cme) (dt_date as_of) = Inr settles"
    and w: "write_archive dk fs contract_root settles files = (Inr (), files')"
    using assms by (auto simp: fetch_all_for_root_def bindS_def split: option.splits prod.splits sum.splits if_splits)
  show "contract_root \<in> fst ` set URLS" using u(1) by (metis image_eqI fst_conv map_of_SomeD)
  show "\<exists>soup sha. parse_settlement_page soup contract_root sha (cme_now cme) (dt_date as_of) = Inr settles" using p by blast
  show "write_archive dk fs contract_root settles files = (Inr (), files')" by (rule w)
qed

lemma write_archive_one_year:
  assumes "\<forall>s \<in> set settles. year_of (st_as_of_date s) = year" "settles \<noteq> []" "write_archive dk fs contract_root settles files = (Inr (), files')"
  shows "files' = AList.update (archive_path contract_root year)
     (case map_of files (archive_path contract_root year) of Some old \<Rightarrow> fr_unique fs (old @ map cme_row settles) | None \<Rightarrow> map cme_row settles) files"
  using assms by (auto simp: write_archive_def group_by_const [of settles _ year] Let_def split: if_splits)

lemma page_symbol:
  assumes "fetch_all_for_root cme dk fs contract_root as_of files = (Inr settles, files')" "s \<in> set settles"
  shows "\<exists>cells code y. length cells = 9 \<and> parse_month_display (hd cells) = Inr (code, y) \<and>
     parse_contract_symbol (st_contract s) = Inr (contract_root, code, y) \<and>
     parse_decimal_cell (cells ! 6) = Inr (Some (st_settle s)) \<and>
     st_as_of_date s = dt_date as_of \<and> st_as_of_iso s = Some (cme_now cme) \<and> Settle_post_init s = Inr ()"
proof -
  note c = fetch_cases [OF assms(1)]
  obtain soup sha cells state where b: "build_settle cells contract_root sha (cme_now cme) (dt_date as_of) state = Inr (Some s)"
    using c(2) page_settles [OF _ assms(2)] by blast
  note f = build_settle_Inr [OF b]
  obtain code y where y: "code \<in> set VALID_MONTH_CODES" "y < 100" "st_contract s = contract_root @ [code] @ zpad 2 y"
    "parse_month_display (hd cells) = Inr (code, int y)"
    using f(1) by blast
  have "length cells = 9" using b by (auto simp: build_settle_def split: list.splits)
  then show ?thesis using parse_contract_symbol_built [OF c(1) y(1,2)] y(3,4) f by metis
qed

lemma page_facts:
  assumes "fetch_all_for_root cme dk fs contract_root as_of files = (Inr settles, files')" "s \<in> set settles"
  shows "contract_root_of (st_contract s) = contract_root" "MIN_CONTRACT_SYMBOL_LENGTH \<le> length (st_contract s)"
    "st_as_of_date s = dt_date as_of" "st_as_of_iso s = Some (cme_now cme)" "Settle_post_init s = Inr ()"
proof -
  obtain code y where p: "parse_contract_symbol (st_contract s) = Inr (contract_root, code, y)"
    "st_as_of_date s = dt_date as_of" "st_as_of_iso s = Some (cme_now cme)" "Settle_post_init s = Inr ()"
    using page_symbol [OF assms] by blast
  then show "contract_root_of (st_contract s) = contract_root" "MIN_CONTRACT_SYMBOL_LENGTH \<le> length (st_contract s)"
    "st_as_of_date s = dt_date as_of" "st_as_of_iso s = Some (cme_now cme)" "Settle_post_init s = Inr ()"
    by (auto simp: parse_contract_symbol_def contract_root_of_def Let_def split: if_splits)
qed

lemma fetch_files:
  assumes "fetch_all_for_root cme dk fs contract_root as_of files = (Inr settles, files')" "settles \<noteq> []"
  shows "files' = AList.update (archive_path contract_root (year_of (dt_date as_of)))
     (case map_of files (archive_path contract_root (year_of (dt_date as_of))) of
        Some old \<Rightarrow> fr_unique fs (old @ map cme_row settles) | None \<Rightarrow> map cme_row settles) files"
  using write_archive_one_year [OF _ assms(2) fetch_cases(3) [OF assms(1)]] page_facts(3) [OF assms(1)] by simp

lemma last_rows_keys: "key ` last_rows key rows = key ` set rows"
proof -
  have "\<exists>x \<in> last_rows key rows. key x = key r" if "r \<in> set rows" for r
  proof (cases "List.find (\<lambda>s. key s = key r) (rev rows)")
    case (Some x)
    then have "x \<in> set rows" "key x = key r" using find_SomeD by force+
    then show ?thesis using Some by (auto simp: last_rows_def)
  qed (use that in \<open>auto simp: find_None_iff\<close>)
  then have "key r \<in> key ` last_rows key rows" if "r \<in> set rows" for r using that by (metis image_eqI)
  moreover have "last_rows key rows \<subseteq> set rows" by (rule last_rows_subset)
  ultimately show ?thesis by blast
qed

lemma find_append_Some: "List.find P xs = Some x \<Longrightarrow> List.find P (xs @ ys) = Some x"
  by (induction xs) auto

text \<open>The rows of the file a fetch writes.\<close>

lemma fetch_file_rows:
  assumes laws: "frame_laws settle_dedupe settle_leq fs" and inv: "cme_archive files"
    and ok: "page_ok settles" and rows: "rows = (case map_of files p of Some old \<Rightarrow> fr_unique fs (old @ map cme_row settles) | None \<Rightarrow> map cme_row settles)"
  shows "distinct (map settle_dedupe rows)" "set rows \<subseteq> rows_of files \<union> cme_row ` set settles" "cme_row ` set settles \<subseteq> set rows"
    "\<And>old. map_of files p = Some old \<Longrightarrow> set rows \<subseteq> set old \<union> cme_row ` set settles"
    "\<And>old. map_of files p = Some old \<Longrightarrow> settle_dedupe ` set old \<subseteq> settle_dedupe ` set rows"
proof -
  have d: "distinct (map settle_dedupe (map cme_row settles))"
    using ok by (auto simp: page_ok_def cme_row_key distinct_map inj_on_def)
  have "distinct (map settle_dedupe rows) \<and> set rows \<subseteq> rows_of files \<union> cme_row ` set settles \<and> cme_row ` set settles \<subseteq> set rows \<and>
    (\<forall>old. map_of files p = Some old \<longrightarrow> set rows \<subseteq> set old \<union> cme_row ` set settles \<and> settle_dedupe ` set old \<subseteq> settle_dedupe ` set rows)"
  proof (cases "map_of files p")
    case None
    then show ?thesis using rows d by auto
  next
    case (Some old)
    let ?all = "old @ map cme_row settles"
    have u: "set rows = last_rows settle_dedupe ?all" using rows Some frame_lawsD(2) [OF laws] by simp
    have new: "r \<in> last_rows settle_dedupe ?all" if "r \<in> cme_row ` set settles" for r
    proof -
      have "List.find (\<lambda>s. settle_dedupe s = settle_dedupe r) (rev (map cme_row settles)) = Some r"
        using that by (intro find_rev_distinct [OF d]) simp
      then have "List.find (\<lambda>s. settle_dedupe s = settle_dedupe r) (rev ?all) = Some r"
        unfolding rev_append by (rule find_append_Some)
      then show ?thesis using that by (auto simp: last_rows_def)
    qed
    have "set old \<subseteq> rows_of files" using Some by (auto simp: rows_of_def)
    moreover have sub: "set rows \<subseteq> set old \<union> cme_row ` set settles" using u last_rows_subset [of settle_dedupe ?all] by auto
    ultimately have "set rows \<subseteq> rows_of files \<union> cme_row ` set settles" by blast
    moreover have "settle_dedupe ` set old \<subseteq> settle_dedupe ` set rows" using u last_rows_keys [of settle_dedupe ?all] by auto
    moreover have "distinct (map settle_dedupe rows)" using rows Some frame_lawsD(1) [OF laws] by simp
    moreover have "cme_row ` set settles \<subseteq> set rows" using new u by blast
    ultimately show ?thesis using sub unfolding Some option.inject by simp
  qed
  then show "distinct (map settle_dedupe rows)" "set rows \<subseteq> rows_of files \<union> cme_row ` set settles" "cme_row ` set settles \<subseteq> set rows"
    "\<And>old. map_of files p = Some old \<Longrightarrow> set rows \<subseteq> set old \<union> cme_row ` set settles"
    "\<And>old. map_of files p = Some old \<Longrightarrow> settle_dedupe ` set old \<subseteq> settle_dedupe ` set rows"
    by blast+
qed

lemma rows_of_update:
  "rows_of (AList.update p rows files) = set rows \<union> {r. \<exists>q old. q \<noteq> p \<and> map_of files q = Some old \<and> r \<in> set old}"
  by (auto simp: rows_of_def split: if_splits)

lemma archive_grows:
  assumes "fetch_all_for_root cme dk fs contract_root as_of files = (Inr settles, files')"
    and "frame_laws settle_dedupe settle_leq fs" "cme_archive files" "page_ok settles"
  shows "cme_archive files' \<and> cme_row ` set settles \<subseteq> rows_of files' \<and> rows_of files' \<subseteq> rows_of files \<union> cme_row ` set settles \<and>
     settle_dedupe ` rows_of files \<subseteq> settle_dedupe ` rows_of files'"
proof (cases "settles = []")
  case True
  then have "files' = files" using fetch_cases(3) [OF assms(1)] by (simp add: write_archive_def)
  then show ?thesis using True assms(3) by simp
next
  case False
  let ?p = "archive_path contract_root (year_of (dt_date as_of))"
  let ?rows = "case map_of files ?p of Some old \<Rightarrow> fr_unique fs (old @ map cme_row settles) | None \<Rightarrow> map cme_row settles"
  note w = fetch_file_rows [OF assms(2-4) refl, of ?p]
  have f: "files' = AList.update ?p ?rows files" by (rule fetch_files [OF assms(1) False])
  have path: "cme_file (cme_row s) = ?p" if "s \<in> set settles" for s
    using page_facts [OF assms(1) that] by (simp add: cme_file_def cme_row_def)
  have "cme_file r = ?p" if r: "r \<in> set ?rows" for r
  proof (cases "map_of files ?p")
    case None
    then show ?thesis using r path by auto
  next
    case (Some old)
    then show ?thesis using w(4) [OF Some] r path assms(3) by (auto simp: cme_archive_def)
  qed
  then have "cme_archive files'"
    using assms(3) w(1) unfolding f cme_archive_def by (auto simp: distinct_update split: if_splits)
  moreover have "cme_row ` set settles \<subseteq> rows_of files'" "rows_of files' \<subseteq> rows_of files \<union> cme_row ` set settles"
    using w(2,3) unfolding f rows_of_update by (auto simp: rows_of_def)
  moreover have "settle_dedupe r \<in> settle_dedupe ` rows_of files'" if r: "r \<in> rows_of files" for r
  proof -
    obtain q old where q: "map_of files q = Some old" "r \<in> set old" using r by (auto simp: rows_of_def)
    show ?thesis
    proof (cases "q = ?p")
      case True
      then have "settle_dedupe r \<in> settle_dedupe ` set ?rows" using w(5) q by blast
      then show ?thesis unfolding f rows_of_update by blast
    next
      case False
      then have "r \<in> rows_of files'" using q unfolding f rows_of_update by blast
      then show ?thesis by blast
    qed
  qed
  ultimately show ?thesis by blast
qed

section \<open>Replay\<close>

lemma cme_archive_key:
  assumes "cme_archive files" "r \<in> rows_of files" "r' \<in> rows_of files" "settle_dedupe r = settle_dedupe r'"
  shows "r = r'"
proof -
  obtain p rows q rows' where m: "map_of files p = Some rows" "r \<in> set rows" "map_of files q = Some rows'" "r' \<in> set rows'"
    using assms(2,3) by (auto simp: rows_of_def)
  have "cme_file r = cme_file r'" using assms(4) by (simp add: cme_file_def settle_dedupe_def)
  moreover have "cme_file r = p" "cme_file r' = q" using assms(1) m by (auto simp: cme_archive_def)
  ultimately have "rows' = rows" using m by simp
  moreover have "distinct (map settle_dedupe rows)" using assms(1) m(1) by (simp add: cme_archive_def)
  ultimately show ?thesis using m(2,4) assms(4) by (metis distinct_map inj_onD)
qed

lemma settle_state_of_value [simp]: "settle_state_of (settle_state_value x) = Some x"
  by (cases x) (simp_all add: settle_state_of_def)

lemma replay_row_cme_row:
  assumes "st_as_of_iso s = Some t" "dt_aware t" "to_utc t = Inr t" "Settle_post_init s = Inr ()"
  shows "replay_row (cme_row s) = Inr s"
  using assms by (cases s) (simp add: replay_row_def cme_row_def)

lemma collect_candidates_total:
  assumes "\<forall>p. \<not> dk_no_io dk p"
    and "\<forall>(p, df) \<in> set files. \<forall>r \<in> set df. sr_contract r = c \<longrightarrow> sr_as_of_date r \<le> d \<longrightarrow> (\<exists>t. replay_row r = Inr t)"
  shows "\<exists>cs. collect_candidates dk c d files = Inr cs"
  using assms(2)
proof (induction files)
  case (Cons f files)
  obtain p df where f: "f = (p, df)" by (cases f)
  have "\<exists>ss. traverse replay_row (filter (\<lambda>r. sr_contract r = c \<and> sr_as_of_date r \<le> d) df) = Inr ss"
    using Cons.prems unfolding traverse_ok_iff f by auto
  then show ?case using Cons.IH Cons.prems assms(1) unfolding f by (auto simp: res_simps)
qed simp

lemma settle_before_antisym:
  assumes "settle_before s t" "settle_before t s" "st_contract s = st_contract t"
  shows "settle_dedupe (cme_row s) = settle_dedupe (cme_row t)"
proof -
  have "st_as_of_date s = st_as_of_date t" "replay_rank (st_settle_state s) = replay_rank (st_settle_state t)"
    "st_content_bytes_sha s = st_content_bytes_sha t"
    using assms(1,2) by (auto simp: settle_before_def)
  moreover from this(2) have "st_settle_state s = st_settle_state t"
    by (cases "st_settle_state s"; cases "st_settle_state t") (simp_all add: replay_rank_def)
  ultimately show ?thesis using assms(3) by (simp add: cme_row_key)
qed

lemma replay_row_key: "replay_row r = Inr s \<Longrightarrow> settle_dedupe (cme_row s) = settle_dedupe r"
  using replay_row_fields [of r s] by (simp add: cme_row_def settle_dedupe_def)

lemma replay_file:
  assumes "0 \<le> year_of d" "year_of e \<le> year_of d" "0 \<le> year_of e"
  shows "replay_file_of r d (archive_path r (year_of e))"
proof -
  have "parse_int (show_int (year_of e)) = Some (year_of e)"
    using assms(3) by (simp add: show_int_def parse_int_digits)
  then show ?thesis using assms(2) by (simp add: archive_path_def parse_year_dir_def has_prefix_def)
qed

lemma replay_of_fetch:
  assumes "fetch_all_for_root cme dk fs contract_root as_of files = (Inr settles, files')" "s \<in> set settles"
    and "frame_laws settle_dedupe settle_leq fs" "cme_archive files" "page_ok settles"
    and "\<forall>p. \<not> dk_no_io dk p" "dt_is_utc (cme_now cme)" "to_utc (cme_now cme) = Inr (cme_now cme)" "0 \<le> year_of (dt_date as_of)"
    and "\<forall>r \<in> rows_of files. sr_contract r = st_contract s \<longrightarrow> sr_as_of_date r \<le> dt_date as_of \<longrightarrow> (\<exists>t. replay_row r = Inr t \<and> settle_before t s)"
  shows "replay_latest_settle dk files' (st_contract s) as_of = Inr (Some s)"
proof -
  let ?c = "st_contract s" and ?d = "dt_date as_of"
  note p = page_facts [OF assms(1,2)]
  note g = archive_grows [OF assms(1,3-5)]
  have arch: "cme_archive files'" and sub: "rows_of files' \<subseteq> rows_of files \<union> cme_row ` set settles"
    and new: "cme_row ` set settles \<subseteq> rows_of files'"
    using g by simp_all
  have aware: "dt_aware (cme_now cme)" using assms(7) by (auto simp: dt_is_utc_def dt_aware_def)
  have own: "replay_row (cme_row s) = Inr s" by (rule replay_row_cme_row [OF p(4) aware assms(8) p(5)])
  have row: "\<exists>t. replay_row r = Inr t \<and> settle_before t s"
    if "r \<in> rows_of files'" "sr_contract r = ?c" "sr_as_of_date r \<le> ?d" for r
  proof (cases "r \<in> rows_of files")
    case True
    then show ?thesis using assms(10) that by blast
  next
    case False
    then have "r \<in> cme_row ` set settles" using sub that(1) by (metis UnE subsetD)
    then obtain s' where s': "r = cme_row s'" "s' \<in> set settles" by (rule imageE)
    moreover have "st_contract s' = ?c" using s'(1) that(2) by (simp add: cme_row_def)
    ultimately have "s' = s" using assms(2,5) by (metis page_ok_def distinct_map inj_onD)
    then show ?thesis using own s'(1) settle_before_total [of s s] by blast
  qed
  let ?sel = "matching_files (replay_file_of contract_root ?d) files'"
  have sel: "(q, df) \<in> set ?sel \<longleftrightarrow> map_of files' q = Some df \<and> replay_file_of contract_root ?d q" for q df
    using arch by (auto simp: matching_files_def cme_archive_def)
  have "\<exists>t. replay_row r = Inr t" if "(q, df) \<in> set ?sel" "r \<in> set df" "sr_contract r = ?c" "sr_as_of_date r \<le> ?d" for q df r
  proof -
    have "r \<in> rows_of files'" using that(1,2) sel unfolding rows_of_def by blast
    then show ?thesis using row that(3,4) by blast
  qed
  then have "\<forall>(q, df) \<in> set ?sel. \<forall>r \<in> set df. sr_contract r = ?c \<longrightarrow> sr_as_of_date r \<le> ?d \<longrightarrow> (\<exists>t. replay_row r = Inr t)"
    by blast
  then obtain cs where cs: "collect_candidates dk ?c ?d ?sel = Inr cs" using collect_candidates_total [OF assms(6)] by blast
  note set_cs = collect_candidates_set [OF cs]
  have "cme_row s \<in> rows_of files'" using new assms(2) by (meson image_subset_iff)
  then obtain q df where q: "map_of files' q = Some df" "cme_row s \<in> set df" by (auto simp: rows_of_def)
  then have "q = archive_path contract_root (year_of ?d)"
    using arch p(1,3) by (force simp: cme_archive_def cme_file_def cme_row_def)
  then have "(q, df) \<in> set ?sel" using q(1) sel replay_file [of ?d ?d contract_root] assms(9) by simp
  then have "s \<in> set cs" using set_cs q(2) own p(3) by (force simp: cme_row_def)
  then obtain b where b: "freshest cs = Some b" by (cases "freshest cs") auto
  have fresh: "b \<in> set cs" "settle_before s b" using freshest_best [OF b] \<open>s \<in> set cs\<close> by blast+
  obtain r where r: "r \<in> rows_of files'" "sr_contract r = ?c" "sr_as_of_date r \<le> ?d" "replay_row r = Inr b"
    using fresh(1) set_cs sel by (auto simp: rows_of_def)
  have "settle_before b s" using row [OF r(1-3)] r(4) by auto
  then have "settle_dedupe (cme_row b) = settle_dedupe (cme_row s)"
    using settle_before_antisym fresh(2) replay_row_fields [OF r(4)] r(2) by metis
  then have "settle_dedupe r = settle_dedupe (cme_row s)" using replay_row_key [OF r(4)] by simp
  then have "r = cme_row s" by (rule cme_archive_key [OF arch r(1) \<open>cme_row s \<in> rows_of files'\<close>])
  then have "b = s" using r(4) own by simp
  moreover have "parse_contract_root ?c = Inr contract_root"
    using p(1,2) by (simp add: parse_contract_root_def contract_root_of_def)
  ultimately show ?thesis using cs b by (simp add: replay_latest_settle_def)
qed

section \<open>An example\<close>

text \<open>
  A page with one row. The query is the midnight that starts the day, the clock reads noon.
\<close>

definition es_page :: Soup where
  "es_page =
     \<lparr>sp_find_table = (\<lambda>sel. if sel = by_class ''cmeTable''
        then Some \<lparr>tb_header = Some (Some EXPECTED_COLUMN_HEADERS),
                   tb_rows = Some [[''JUN 26'', ''4,990'', ''5,010'', ''4,980'', ''5,000'', ''+10'', ''5,000'', ''1,234'', ''---'']]\<rparr>
        else None),
      sp_status = Some ''Preliminary'', sp_text = ''''\<rparr>"

definition es_midnight :: datetime where
  "es_midnight = \<lparr>dt_local = 739000 * 86400000000, dt_off = Some 0\<rparr>"

definition es_noon :: datetime where
  "es_noon = \<lparr>dt_local = 739000 * 86400000000 + 43200000000, dt_off = Some 0\<rparr>"

definition es_source :: CME where
  "es_source = \<lparr>cme_fetch = \<lambda>url. Inr (''page'', ''sha''), cme_soup = \<lambda>body. es_page, cme_now = es_noon\<rparr>"

definition es_settle :: Settle where
  "es_settle =
     \<lparr>st_contract = ''ESM26'', st_as_of_date = 739000, st_settle = 5000, st_settle_state = settle_preliminary, st_open = 4990,
      st_high = 5010, st_low = 4980, st_last = 5000, st_change = 10, st_volume_est = 1234, st_oi_prior = 0,
      st_source_id = CME_SOURCE_ID, st_as_of_iso = Some es_noon, st_content_bytes_sha = content_sha256 ''sha||ESM26'',
      st_cme_month_code = ''M''\<rparr>"

lemma decimal_cell_digits:
  assumes "str_strip raw \<notin> set PLACEHOLDER_VALUES"
    and "(let t = str_remove (CHR '','') (str_strip raw) in if t \<noteq> [] \<and> hd t = CHR ''+'' then tl t else t) = u"
    and "all_digits u" "digits_val u = v"
  shows "parse_decimal_cell raw = Inr (Some (of_nat v))"
  using assms by (simp add: parse_decimal_cell_def Let_def parse_decimal_digits)

lemma es_prices:
  "parse_decimal_cell ''4,990'' = Inr (Some 4990)" "parse_decimal_cell ''5,010'' = Inr (Some 5010)"
  "parse_decimal_cell ''4,980'' = Inr (Some 4980)" "parse_decimal_cell ''5,000'' = Inr (Some 5000)"
  "parse_decimal_cell ''+10'' = Inr (Some 10)"
proof -
  show "parse_decimal_cell ''4,990'' = Inr (Some 4990)"
    by (rule decimal_cell_digits [of _ "''4990''" 4990, simplified]) code_simp+
  show "parse_decimal_cell ''5,010'' = Inr (Some 5010)"
    by (rule decimal_cell_digits [of _ "''5010''" 5010, simplified]) code_simp+
  show "parse_decimal_cell ''4,980'' = Inr (Some 4980)"
    by (rule decimal_cell_digits [of _ "''4980''" 4980, simplified]) code_simp+
  show "parse_decimal_cell ''5,000'' = Inr (Some 5000)"
    by (rule decimal_cell_digits [of _ "''5000''" 5000, simplified]) code_simp+
  show "parse_decimal_cell ''+10'' = Inr (Some 10)"
    by (rule decimal_cell_digits [of _ "''10''" 10, simplified]) code_simp+
qed

lemma es_cells:
  "parse_month_display ''JUN 26'' = Inr (CHR ''M'', 26)" "zpad 2 26 = ''26''"
  "parse_int_cell ''1,234'' = Inr (Some 1234)" "parse_int_cell ''---'' = Inr None"
  "is_waf_block ''page'' = False"
  by code_simp+

lemma es_page_parsed: "parse_settlement_page es_page ''ES'' ''sha'' es_noon 739000 = Inr [es_settle]"
proof -
  let ?row = "[''JUN 26'', ''4,990'', ''5,010'', ''4,980'', ''5,000'', ''+10'', ''5,000'', ''1,234'', ''---'']"
  obtain t where t: "find_settlement_table es_page = Inr t" "tb_header t = Some (Some EXPECTED_COLUMN_HEADERS)" "tb_rows t = Some [?row]"
    by (rule that [of "the (sp_find_table es_page (by_class ''cmeTable''))"])
      (simp_all add: find_settlement_table_def es_page_def)
  have state: "detect_settle_state es_page = settle_preliminary"
  proof -
    have "str_contains ''final'' (str_lower ''Preliminary'') = False" "str_contains ''preliminary'' (str_lower ''Preliminary'') = True"
      by code_simp+
    then show ?thesis by (simp add: detect_settle_state_def es_page_def)
  qed
  have "Settle_post_init es_settle = Inr ()"
    by (simp add: Settle_post_init_def es_settle_def es_noon_def assert_tz_aware_def dt_aware_def content_sha256_def SHA256_HEX_LENGTH_def)
  moreover have "build_settle ?row ''ES'' ''sha'' es_noon 739000 settle_preliminary = bindE (Settle_post_init es_settle) (\<lambda>_. Inr (Some es_settle))"
    by (simp add: build_settle_def es_cells es_prices Let_def es_settle_def)
  ultimately have "build_settle ?row ''ES'' ''sha'' es_noon 739000 settle_preliminary = Inr (Some es_settle)" by simp
  moreover have "length EXPECTED_COLUMN_HEADERS = 9" by (simp add: EXPECTED_COLUMN_HEADERS_def)
  ultimately show ?thesis by (simp add: parse_settlement_page_def t state parse_row_def)
qed

lemma es_fetch:
  "fetch_all_for_root es_source good_disk (list_frames settle_dedupe settle_leq) ''ES'' es_midnight [] =
     (Inr [es_settle], [([''contract=ES'', ''year=2024'', ''data.parquet''], [cme_row es_settle])])"
proof -
  have y: "year_of 739000 = 2024" "archive_path ''ES'' 2024 = [''contract=ES'', ''year=2024'', ''data.parquet'']" by code_simp+
  have w: "write_archive good_disk (list_frames settle_dedupe settle_leq) ''ES'' [es_settle] [] =
      (Inr (), [([''contract=ES'', ''year=2024'', ''data.parquet''], [cme_row es_settle])])"
  proof -
    have "group_by (\<lambda>s. year_of (st_as_of_date s)) [es_settle] = [(2024, [es_settle])]"
      by (rule group_by_const) (simp_all add: es_settle_def y(1))
    then show ?thesis by (simp add: write_archive_def y(2) good_disk_def Let_def)
  qed
  have "dt_date es_midnight = 739000" by (simp add: dt_date_def es_midnight_def)
  then show ?thesis
    by (simp add: fetch_all_for_root_def URLS_def es_source_def es_cells es_page_parsed w)
qed

lemma es_conditions:
  "es_settle \<in> set [es_settle]" "cme_archive []" "page_ok [es_settle]" "\<forall>p. \<not> dk_no_io good_disk p"
  "dt_is_utc (cme_now es_source)" "to_utc (cme_now es_source) = Inr (cme_now es_source)" "0 \<le> year_of (dt_date es_midnight)"
  "\<forall>r \<in> rows_of []. sr_contract r = st_contract es_settle \<longrightarrow> sr_as_of_date r \<le> dt_date es_midnight \<longrightarrow>
      (\<exists>t. replay_row r = Inr t \<and> settle_before t es_settle)"
proof -
  show "dt_is_utc (cme_now es_source)" "to_utc (cme_now es_source) = Inr (cme_now es_source)" "0 \<le> year_of (dt_date es_midnight)"
    by code_simp+
qed (simp_all add: cme_archive_def page_ok_def good_disk_def)

section \<open>The source and its replay\<close>

text \<open>
  What a page lists can be looked up. Every settlement read from the page of a root carries the month and
  year its row displays in a symbol that parses back into that root, month code and year, the price its
  settle cell shows, the query date and the fetch time; it passed the checks of its constructor.
\<close>

theorem cme_symbols_roundtrip:
  assumes "fetch_all_for_root cme dk fs contract_root as_of files = (Inr settles, files')" "s \<in> set settles"
  shows "\<exists>cells code y. length cells = 9 \<and> parse_month_display (hd cells) = Inr (code, y) \<and>
     parse_contract_symbol (st_contract s) = Inr (contract_root, code, y) \<and>
     parse_decimal_cell (cells ! 6) = Inr (Some (st_settle s)) \<and>
     st_as_of_date s = dt_date as_of \<and> st_as_of_iso s = Some (cme_now cme) \<and> Settle_post_init s = Inr ()"
  using assms by (rule page_symbol)

theorem cme_symbols_roundtrip_witness:
  "\<exists>cells code y. length cells = 9 \<and> parse_month_display (hd cells) = Inr (code, y) \<and>
     parse_contract_symbol ''ESM26'' = Inr (''ES'', code, y)"
proof -
  from cme_symbols_roundtrip [OF es_fetch es_conditions(1)] show ?thesis by (auto simp: es_settle_def)
qed

text \<open>
  The archive only grows. A fetch that succeeds on a page without duplicates keeps the archive in order,
  one file per root and year and one row per contract, date, state and hash; it stores every settlement it
  returns, adds nothing else, and every key that was archived is still archived.
\<close>

theorem cme_archive_grows:
  assumes "fetch_all_for_root cme dk fs contract_root as_of files = (Inr settles, files')"
    and "frame_laws settle_dedupe settle_leq fs" "cme_archive files" "page_ok settles"
  shows "cme_archive files' \<and> cme_row ` set settles \<subseteq> rows_of files' \<and> rows_of files' \<subseteq> rows_of files \<union> cme_row ` set settles \<and>
     settle_dedupe ` rows_of files \<subseteq> settle_dedupe ` rows_of files'"
  using assms by (rule archive_grows)

theorem cme_archive_grows_witness:
  "cme_row es_settle \<in> rows_of [([''contract=ES'', ''year=2024'', ''data.parquet''], [cme_row es_settle])]"
proof -
  from cme_archive_grows [OF es_fetch example_frames(2) es_conditions(2,3)] show ?thesis by simp
qed



text \<open>
  A replay ignores the time at which a record was captured: asked at midnight, it answers with the settlement
  that was fetched at noon of that day.
\<close>

theorem replay_ignores_capture_time:
  "\<exists>files s t. replay_latest_settle good_disk files ''ESM26'' es_midnight = Inr (Some s) \<and> st_as_of_iso s = Some t \<and>
     dt_instant es_midnight < dt_instant t"
proof -
  have "replay_latest_settle good_disk [([''contract=ES'', ''year=2024'', ''data.parquet''], [cme_row es_settle])]
      (st_contract es_settle) es_midnight = Inr (Some es_settle)"
    by (rule replay_of_fetch [OF es_fetch es_conditions(1) example_frames(2) es_conditions(2-8)])
  moreover have "st_contract es_settle = ''ESM26''" "st_as_of_iso es_settle = Some es_noon" "dt_instant es_midnight < dt_instant es_noon"
    by (simp_all add: es_settle_def es_midnight_def es_noon_def dt_instant_def)
  ultimately show ?thesis by metis
qed

end
