(* ===== verification/Py_Json.thy ===== *)
theory Py_Json
  imports Verifier Py_Text
begin

text \<open>
  Python's \<open>json\<close> as the sources and the paper ledger use it: the value a text decodes to, the reader, and the
  writer on values without floats. A number with a fraction or an exponent becomes a float; it is kept as the
  text it was written with, because the rounding to a binary float belongs to whoever reads it. A repeated
  key keeps its place and takes the last value, as in a \<open>dict\<close>. Characters are below 256.

  The reader recurses over the text; its fuel is one more than the length of the text, and every call reads a
  character. The lemmas show that reading what was written gives the value back.
\<close>

datatype json =
    JNull | JBool bool | JInt int | JFloat string | JStr string | JArr "json list" | JObj "(string \<times> json) list"

definition is_json_space :: "char \<Rightarrow> bool" where
  "is_json_space c \<longleftrightarrow> c = CHR '' '' \<or> (of_char c :: nat) \<in> {9, 10, 13}"

definition skip_ws :: "string \<Rightarrow> string" where
  "skip_ws s = dropWhile is_json_space s"

definition hex_val :: "char \<Rightarrow> nat option" where
  "hex_val c =
     (let n = of_char c :: nat
      in if 48 \<le> n \<and> n \<le> 57 then Some (n - 48)
         else if 97 \<le> n \<and> n \<le> 102 then Some (n - 87)
         else if 65 \<le> n \<and> n \<le> 70 then Some (n - 55) else None)"

fun hex_vals :: "string \<Rightarrow> nat \<Rightarrow> nat option" where
  "hex_vals [] a = Some a"
| "hex_vals (c # cs) a = (case hex_val c of None \<Rightarrow> None | Some d \<Rightarrow> hex_vals cs (16 * a + d))"

definition unescape :: "char \<Rightarrow> char option" where
  "unescape c =
     map_of [(CHR 0x22, CHR 0x22), (CHR 0x5C, CHR 0x5C), (CHR ''/'', CHR ''/''), (CHR ''b'', char_of (8 :: nat)),
             (CHR ''f'', char_of (12 :: nat)), (CHR ''n'', char_of (10 :: nat)), (CHR ''r'', char_of (13 :: nat)),
             (CHR ''t'', char_of (9 :: nat))] c"

text \<open>The characters of a string and the text after its closing quote.\<close>

fun read_string :: "string \<Rightarrow> (string \<times> string) option" where
  "read_string [] = None"
| "read_string (c # cs) =
     (if c = CHR 0x22 then Some ([], cs)
      else if c = CHR 0x5C then
        (case cs of
           [] \<Rightarrow> None
         | e # ds \<Rightarrow>
             if e = CHR ''u'' then
               (case hex_vals (take 4 ds) 0 of
                  None \<Rightarrow> None
                | Some n \<Rightarrow>
                    if length ds < 4 \<or> 256 \<le> n then None
                    else map_option (\<lambda>(t, r). (char_of n # t, r)) (read_string (drop 4 ds)))
             else (case unescape e of
                     None \<Rightarrow> None
                   | Some x \<Rightarrow> map_option (\<lambda>(t, r). (x # t, r)) (read_string ds)))
      else if (of_char c :: nat) < 32 then None
      else map_option (\<lambda>(t, r). (c # t, r)) (read_string cs))"

text \<open>The digits of a number without its sign, whether it has a fraction or an exponent, and the rest.\<close>

definition number_parts :: "string \<Rightarrow> (string \<times> bool \<times> string) option" where
  "number_parts s =
     (let ds = takeWhile is_ascii_digit s; ip = (if ds \<noteq> [] \<and> hd ds = CHR ''0'' then [CHR ''0''] else ds);
          s2 = drop (length ip) s;
          fp = (if s2 \<noteq> [] \<and> hd s2 = CHR ''.'' then takeWhile is_ascii_digit (tl s2) else []);
          s3 = (if fp \<noteq> [] then drop (length fp + 1) s2 else s2);
          s4 = (if s3 \<noteq> [] \<and> hd s3 \<in> {CHR ''e'', CHR ''E''} then tl s3 else []);
          s5 = (if s4 \<noteq> [] \<and> hd s4 \<in> {CHR ''+'', CHR ''-''} then tl s4 else s4);
          ep = takeWhile is_ascii_digit s5
      in if ip = [] then None
         else Some (ip, fp \<noteq> [] \<or> ep \<noteq> [], if ep \<noteq> [] then drop (length ep) s5 else s3))"

definition read_number :: "string \<Rightarrow> (json \<times> string) option" where
  "read_number s =
     (let minus = s \<noteq> [] \<and> hd s = CHR ''-''
      in case number_parts (if minus then tl s else s) of
           None \<Rightarrow> None
         | Some (ip, is_float, rest) \<Rightarrow>
             if is_float then Some (JFloat (take (length s - length rest) s), rest)
             else Some (JInt ((if minus then - 1 else 1) * int (digits_val ip)), rest))"

definition json_words :: "(string \<times> json) list" where
  "json_words =
     [(''null'', JNull), (''true'', JBool True), (''false'', JBool False), (''NaN'', JFloat ''NaN''),
      (''Infinity'', JFloat ''Infinity''), (''-Infinity'', JFloat ''-Infinity'')]"

definition read_scalar :: "string \<Rightarrow> (json \<times> string) option" where
  "read_scalar s =
     (case List.find (\<lambda>(w, _). take (length w) s = w) json_words of
        Some (w, j) \<Rightarrow> Some (j, drop (length w) s)
      | None \<Rightarrow> read_number s)"

fun read_value :: "nat \<Rightarrow> string \<Rightarrow> (json \<times> string) option"
  and read_items :: "nat \<Rightarrow> string \<Rightarrow> (json list \<times> string) option"
  and read_members :: "nat \<Rightarrow> string \<Rightarrow> ((string \<times> json) list \<times> string) option" where
  "read_value 0 s = None"
| "read_value (Suc n) s =
     (case skip_ws s of
        [] \<Rightarrow> None
      | c # cs \<Rightarrow>
          if c = CHR 0x22 then map_option (\<lambda>(t, r). (JStr t, r)) (read_string cs)
          else if c = CHR ''['' then
            (case skip_ws cs of
               [] \<Rightarrow> None
             | d # ds \<Rightarrow> if d = CHR '']'' then Some (JArr [], ds) else map_option (\<lambda>(xs, r). (JArr xs, r)) (read_items n cs))
          else if c = CHR ''{'' then
            (case skip_ws cs of
               [] \<Rightarrow> None
             | d # ds \<Rightarrow> if d = CHR ''}'' then Some (JObj [], ds)
                 else map_option (\<lambda>(kvs, r). (JObj (foldl (\<lambda>d (k, v). AList.update k v d) [] kvs), r)) (read_members n cs))
          else read_scalar (c # cs))"
| "read_items 0 s = None"
| "read_items (Suc n) s =
     (case read_value n s of
        None \<Rightarrow> None
      | Some (x, r) \<Rightarrow>
          (case skip_ws r of
             [] \<Rightarrow> None
           | c # cs \<Rightarrow>
               if c = CHR '']'' then Some ([x], cs)
               else if c = CHR '','' then map_option (\<lambda>(xs, r). (x # xs, r)) (read_items n cs)
               else None))"
| "read_members 0 s = None"
| "read_members (Suc n) s =
     (case skip_ws s of
        [] \<Rightarrow> None
      | q # qs \<Rightarrow>
          if q \<noteq> CHR 0x22 then None
          else (case read_string qs of
             None \<Rightarrow> None
           | Some (k, r) \<Rightarrow>
               (case skip_ws r of
                  [] \<Rightarrow> None
                | c # cs \<Rightarrow>
                    if c \<noteq> CHR '':'' then None
                    else (case read_value n cs of
                       None \<Rightarrow> None
                     | Some (v, r') \<Rightarrow>
                         (case skip_ws r' of
                            [] \<Rightarrow> None
                          | d # ds \<Rightarrow>
                              if d = CHR ''}'' then Some ([(k, v)], ds)
                              else if d = CHR '','' then map_option (\<lambda>(kvs, r). ((k, v) # kvs, r)) (read_members n ds)
                              else None)))))"

definition json_loads :: "string \<Rightarrow> json option" where
  "json_loads s =
     (case read_value (Suc (length s)) s of
        None \<Rightarrow> None
      | Some (j, r) \<Rightarrow> if skip_ws r = [] then Some j else None)"

text \<open>The writer, with the separators between items and after keys; \<open>float_repr\<close> is \<open>repr\<close> of a float.\<close>

fun json_dumps :: "(string \<Rightarrow> string) \<Rightarrow> string \<Rightarrow> string \<Rightarrow> json \<Rightarrow> string" where
  "json_dumps float_repr sep colon JNull = ''null''"
| "json_dumps float_repr sep colon (JBool b) = json_bool b"
| "json_dumps float_repr sep colon (JInt i) = show_int i"
| "json_dumps float_repr sep colon (JFloat f) = float_repr f"
| "json_dumps float_repr sep colon (JStr s) = json_string s"
| "json_dumps float_repr sep colon (JArr xs) = ''['' @ str_join sep (map (json_dumps float_repr sep colon) xs) @ '']''"
| "json_dumps float_repr sep colon (JObj kvs) =
     ''{'' @ str_join sep (map (\<lambda>(k, v). json_string k @ colon @ json_dumps float_repr sep colon v) kvs) @ ''}''"

text \<open>\<open>sort_keys\<close>.\<close>

fun json_sorted :: "json \<Rightarrow> json" where
  "json_sorted (JArr xs) = JArr (map json_sorted xs)"
| "json_sorted (JObj kvs) = JObj (sort_key fst (map (\<lambda>(k, v). (k, json_sorted v)) kvs))"
| "json_sorted j = j"

section \<open>Reading what was written\<close>

lemma hex_val_digit: "d < 16 \<Longrightarrow> hex_val (hex_digit d) = Some d"
  by (auto simp: hex_val_def hex_digit_def Let_def)

lemma read_string_u:
  "hex_vals [a, b, x, y] 0 = Some n \<Longrightarrow> n < 256 \<Longrightarrow>
   read_string (CHR 0x5C # CHR ''u'' # a # b # x # y # s) = map_option (\<lambda>(t, r). (char_of n # t, r)) (read_string s)"
  by (simp del: hex_vals.simps)

lemma read_char: "read_string (json_char c @ s) = map_option (\<lambda>(t, r). (c # t, r)) (read_string s)"
proof -
  let ?n = "of_char c :: nat"
  have n: "?n < 256" by simp
  have c: "c = char_of ?n" by simp
  consider "?n \<in> {34, 92, 10, 13, 9, 12, 8}" | "32 \<le> ?n" "?n \<le> 126" "?n \<noteq> 34" "?n \<noteq> 92"
    | "?n \<notin> {34, 92, 10, 13, 9, 12, 8}" "?n < 32 \<or> 126 < ?n"
    by fastforce
  then show ?thesis
  proof cases
    case 1
    then have "c \<in> {char_of (34 :: nat), char_of (92 :: nat), char_of (10 :: nat), char_of (13 :: nat), char_of (9 :: nat), char_of (12 :: nat), char_of (8 :: nat)}"
      using c by (metis (no_types, lifting) insert_iff empty_iff)
    moreover have "char_of (34 :: nat) = CHR 0x22" "char_of (92 :: nat) = CHR 0x5C" by code_simp+
    ultimately show ?thesis by (auto simp: json_char_def unescape_def)
  next
    case 2
    then have "json_char c = [c]" "c \<noteq> CHR 0x22" "c \<noteq> CHR 0x5C" by (auto simp: json_char_def Let_def)
    then show ?thesis using 2 by simp
  next
    case 3
    have j: "json_char c = [CHR 0x5C, CHR ''u'', CHR ''0'', CHR ''0'', hex_digit (?n div 16), hex_digit (?n mod 16)]"
      using 3 by (auto simp: json_char_def Let_def)
    have h: "hex_val (CHR ''0'') = Some 0" by code_simp
    have div16: "?n div 16 < 16" using n by linarith
    have "hex_vals [CHR ''0'', CHR ''0'', hex_digit (?n div 16), hex_digit (?n mod 16)] 0 = Some ?n"
      using hex_val_digit [of "?n mod 16"] h by (simp add: hex_val_digit [OF div16])
    from read_string_u [OF this n] show ?thesis unfolding j by simp
  qed
qed

lemma read_json_string: "read_string (tl (json_string s) @ r) = Some (s, r)"
proof -
  have "read_string (concat (map json_char s) @ CHR 0x22 # r) = Some (s, r)"
    by (induction s) (simp_all add: read_char)
  then show ?thesis by (simp add: json_string_def)
qed


text \<open>What may follow a number.\<close>

definition number_end :: "string \<Rightarrow> bool" where
  "number_end r \<longleftrightarrow> r = [] \<or> \<not> is_ascii_digit (hd r) \<and> hd r \<notin> {CHR ''.'', CHR ''e'', CHR ''E''}"

lemma show_nat_ne [simp]: "show_nat n \<noteq> []"
  by (subst show_nat.simps) simp

lemma show_nat_zero: "hd (show_nat n) = CHR ''0'' \<Longrightarrow> n = 0"
proof (induction n rule: show_nat.induct)
  case (1 n)
  show ?case
  proof (cases "n < 10")
    case True
    then have "(of_char (hd (show_nat n)) :: nat) = 48 + n" by (simp add: show_nat.simps [of n])
    then show ?thesis using "1.prems" by simp
  next
    case False
    then have "hd (show_nat (n div 10)) = CHR ''0''" using "1.prems" by (simp add: show_nat.simps [of n])
    then have "n div 10 = 0" using "1.IH" False by simp
    then show ?thesis using False by simp
  qed
qed

lemma show_nat_digits: "x \<in> set (show_nat n) \<Longrightarrow> is_ascii_digit x"
  using all_digits_show_nat [of n] by (simp add: all_digits_def)

lemma takeWhile_number:
  assumes "number_end r"
  shows "takeWhile is_ascii_digit (show_nat n @ r) = show_nat n" "takeWhile is_ascii_digit r = []"
proof -
  show t: "takeWhile is_ascii_digit r = []" using assms by (cases r) (auto simp: number_end_def)
  show "takeWhile is_ascii_digit (show_nat n @ r) = show_nat n"
    using show_nat_digits [of _ n] t by (simp add: takeWhile_append2)
qed

lemma read_number_nat:
  assumes "number_end r"
  shows "read_number (show_nat n @ r) = Some (JInt (int n), r)" "read_number (CHR ''-'' # show_nat n @ r) = Some (JInt (- int n), r)"
proof -
  let ?ip = "if show_nat n \<noteq> [] \<and> hd (show_nat n) = CHR ''0'' then [CHR ''0''] else show_nat n"
  have "show_nat 0 = [CHR ''0'']" by code_simp
  then have ip: "?ip = show_nat n" using show_nat_zero [of n] by auto
  have "is_ascii_digit (hd (show_nat n))" by (rule show_nat_digits [of _ n]) simp
  moreover have "\<not> is_ascii_digit (CHR ''-'')" by code_simp
  ultimately have hd: "hd (show_nat n @ r) \<noteq> CHR ''-''" by (auto simp: hd_append)
  note t = takeWhile_number [OF assms]
  have e: "\<not> (r \<noteq> [] \<and> hd r = CHR ''.'')" "\<not> (r \<noteq> [] \<and> hd r \<in> {CHR ''e'', CHR ''E''})"
    using assms by (auto simp: number_end_def)
  have "number_parts (show_nat n @ r) = Some (show_nat n, False, r)"
    unfolding number_parts_def Let_def t(1) ip using e by (cases r) simp_all
  then show "read_number (show_nat n @ r) = Some (JInt (int n), r)" "read_number (CHR ''-'' # show_nat n @ r) = Some (JInt (- int n), r)"
    using hd by (simp_all add: read_number_def)
qed

fun json_scalar :: "json \<Rightarrow> bool" where
  "json_scalar (JFloat f) \<longleftrightarrow> False"
| "json_scalar (JArr xs) \<longleftrightarrow> False"
| "json_scalar (JObj kvs) \<longleftrightarrow> False"
| "json_scalar j \<longleftrightarrow> True"

lemma skip_ws_Cons: "\<not> is_json_space c \<Longrightarrow> skip_ws (c # cs) = c # cs"
  by (simp add: skip_ws_def)

lemma digit_not_space: "is_ascii_digit c \<Longrightarrow> \<not> is_json_space c \<and> c \<notin> {CHR 0x22, CHR ''['', CHR ''{'', CHR ''-'', CHR ''n'', CHR ''t'', CHR ''f'', CHR ''N'', CHR ''I''}"
  by (auto simp: is_ascii_digit_def is_json_space_def)

lemma show_nat_Cons: "\<exists>d ds. show_nat n = d # ds \<and> is_ascii_digit d"
  using show_nat_ne [of n] show_nat_digits [of _ n] by (cases "show_nat n") auto

lemma read_value_int:
  assumes "number_end r"
  shows "read_value (Suc n) (show_int i @ r) = Some (JInt i, r)"
proof (cases "i < 0")
  case True
  obtain d ds where d: "show_nat (nat (- i)) = d # ds" "is_ascii_digit d" using show_nat_Cons by blast
  have "List.find (\<lambda>(w, _). take (length w) (CHR ''-'' # d # ds @ r) = w) json_words = None"
    using digit_not_space [OF d(2)] by (auto simp: json_words_def find_None_iff)
  moreover have "\<not> is_json_space (CHR ''-'')" by code_simp
  ultimately show ?thesis
    using True read_number_nat(2) [OF assms, of "nat (- i)"] by (simp add: show_int_def d(1) skip_ws_Cons read_scalar_def)
next
  case False
  obtain d ds where d: "show_nat (nat i) = d # ds" "is_ascii_digit d" using show_nat_Cons by blast
  have "List.find (\<lambda>(w, _). take (length w) (d # ds @ r) = w) json_words = None"
    using digit_not_space [OF d(2)] by (auto simp: json_words_def find_None_iff)
  then show ?thesis
    using False read_number_nat(1) [OF assms, of "nat i"] digit_not_space [OF d(2)] by (simp add: show_int_def d(1) skip_ws_Cons read_scalar_def)
qed

lemma read_value_scalar:
  assumes "json_scalar v" "number_end r"
  shows "read_value (Suc n) (json_dumps float_repr sep colon v @ r) = Some (v, r)"
proof (cases v)
  case (JInt i)
  then show ?thesis using read_value_int [OF assms(2)] by (simp del: read_value.simps)
next
  case (JStr s)
  have "\<not> is_json_space (CHR 0x22)" by code_simp
  then show ?thesis using read_json_string [of s r] JStr by (simp add: json_string_def skip_ws_Cons)
next
  case JNull
  have "\<not> is_json_space (CHR ''n'')" by code_simp
  then show ?thesis using JNull by (simp add: skip_ws_Cons read_scalar_def json_words_def)
next
  case (JBool b)
  have "\<not> is_json_space (CHR ''t'')" "\<not> is_json_space (CHR ''f'')" by code_simp+
  then show ?thesis using JBool by (cases b) (simp_all add: skip_ws_Cons read_scalar_def json_words_def json_bool_def)
qed (use assms in simp_all)

text \<open>One member of an object.\<close>

lemma json_spaces:
  "\<not> is_json_space (CHR 0x22)" "is_json_space (CHR '' '')" "\<not> is_json_space (CHR '':'')" "\<not> is_json_space (CHR '','')"
  "\<not> is_json_space (CHR ''}'')" "\<not> is_json_space (CHR ''{'')"
  by code_simp+

lemma skip_blank: "skip_ws (CHR '' '' # s) = skip_ws s"
  using json_spaces(2) by (simp add: skip_ws_def)

lemma read_blank: "read_value n (CHR '' '' # s) = read_value n s" "read_members n (CHR '' '' # s) = read_members n s"
  by (cases n; simp add: skip_blank)+

lemma json_string_Cons: "json_string k @ s = CHR 0x22 # tl (json_string k) @ s"
  by (simp add: json_string_def)

lemma read_member:
  assumes "json_scalar v" "number_end (c # cs)" "\<not> is_json_space c"
  shows "read_members (Suc (Suc m)) (json_string k @ '': '' @ json_dumps float_repr sep colon v @ c # cs) =
     (if c = CHR ''}'' then Some ([(k, v)], cs)
      else if c = CHR '','' then map_option (\<lambda>(kvs, r). ((k, v) # kvs, r)) (read_members (Suc m) cs) else None)"
proof -
  have "skip_ws (json_string k @ x) = CHR 0x22 # tl (json_string k) @ x" for x
    unfolding json_string_Cons by (rule skip_ws_Cons) (rule json_spaces)
  moreover have "skip_ws (CHR '':'' # x) = CHR '':'' # x" for x by (rule skip_ws_Cons) (rule json_spaces)
  moreover have "read_value (Suc m) (CHR '' '' # json_dumps float_repr sep colon v @ c # cs) = Some (v, c # cs)"
    unfolding read_blank by (rule read_value_scalar [OF assms(1,2)])
  moreover have "skip_ws (c # cs) = c # cs" by (rule skip_ws_Cons [OF assms(3)])
  ultimately show ?thesis
    by (subst read_members.simps(2)) (simp add: read_json_string del: read_value.simps read_members.simps)
qed

text \<open>A flat object, as the ledger writes its rows.\<close>

lemma read_flat_members:
  assumes "\<forall>(k, v) \<in> set kvs. json_scalar v" "kvs \<noteq> []" "length kvs < n"
  shows "read_members n (str_join '', '' (map (\<lambda>(k, v). json_string k @ '': '' @ json_dumps float_repr '', '' '': '' v) kvs) @ CHR ''}'' # r) =
     Some (kvs, r)"
  using assms
proof (induction kvs arbitrary: n)
  case (Cons kv kvs)
  obtain k v where kv: "kv = (k, v)" by (cases kv)
  have "n = Suc (Suc (n - 2))" using Cons.prems(3) by simp
  then obtain m where m: "n = Suc (Suc m)" by blast
  have e: "number_end (CHR ''}'' # s)" "number_end (CHR '','' # s)" for s
    by (simp_all add: number_end_def is_ascii_digit_def)
  have v: "json_scalar v" using Cons.prems(1) kv by simp
  show ?case
  proof (cases kvs)
    case Nil
    show ?thesis unfolding Nil kv m list.map str_join.simps prod.case append_assoc
      by (subst read_member [OF v e(1) json_spaces(5)]) simp
  next
    case (Cons kv' kvs')
    have join: "str_join '', '' (x # map f kvs) = x @ '', '' @ str_join '', '' (map f kvs)" for x and f :: "string \<times> json \<Rightarrow> string"
      using Cons by simp
    have "read_members (Suc m) (str_join '', '' (map (\<lambda>(k, v). json_string k @ '': '' @ json_dumps float_repr '', '' '': '' v) kvs) @ CHR ''}'' # r) =
      Some (kvs, r)"
      by (rule Cons.IH) (use Cons.prems m Cons in auto)
    then have ih: "read_members (Suc m) (CHR '' '' # str_join '', '' (map (\<lambda>(k, v). json_string k @ '': '' @ json_dumps float_repr '', '' '': '' v) kvs) @ CHR ''}'' # r) =
      Some (kvs, r)"
      by (simp only: read_blank)
    have comma: "('', '' @ s) @ t = CHR '','' # CHR '' '' # s @ t" for s t by simp
    have right: "(json_string k @ x) @ y = json_string k @ x @ y" "('': '' @ x) @ y = '': '' @ x @ y"
      "(json_dumps float_repr '', '' '': '' v @ x) @ y = json_dumps float_repr '', '' '': '' v @ x @ y" for x y by simp_all
    have "(json_string k @ '': '' @ json_dumps float_repr '', '' '': '' v) @ x = json_string k @ '': '' @ json_dumps float_repr '', '' '': '' v @ x" for x
      by simp
    note unf = this
    show ?thesis unfolding kv m list.map join prod.case unf right comma
      by (subst read_member [OF v e(2) json_spaces(4)]) (use ih in \<open>simp del: read_members.simps\<close>)
  qed
qed simp

lemma update_fold_fresh:
  "distinct (map fst (d @ kvs)) \<Longrightarrow> foldl (\<lambda>d (k, v). AList.update k v d) d kvs = d @ kvs"
proof (induction kvs arbitrary: d)
  case (Cons kv kvs)
  obtain k v where kv: "kv = (k, v)" by (cases kv)
  have "k \<notin> fst ` set d" using Cons.prems kv by auto
  then have "AList.update k v d = d @ [(k, v)]" by (induction d) auto
  then show ?case using Cons.IH [of "d @ [(k, v)]"] Cons.prems kv by simp
qed simp

lemma json_flat_roundtrip:
  assumes "\<forall>(k, v) \<in> set kvs. json_scalar v" "distinct (map fst kvs)"
  shows "json_loads (json_dumps float_repr '', '' '': '' (JObj kvs)) = Some (JObj kvs)"
proof (cases "kvs = []")
  case True
  then show ?thesis using json_spaces(5,6) by (simp add: json_loads_def skip_ws_Cons) (simp add: skip_ws_def)
next
  case False
  let ?f = "\<lambda>(k, v). json_string k @ '': '' @ json_dumps float_repr '', '' '': '' v"
  let ?t = "str_join '', '' (map ?f kvs)"
  have len: "length xs \<le> length (str_join '', '' (map ?f xs))" for xs :: "(string \<times> json) list"
  proof (induction xs rule: induct_list012)
    case (3 x y zs)
    then show ?case by (cases x) (simp add: json_string_def)
  qed (auto simp: json_string_def)
  obtain k v kvs' where kvs: "kvs = (k, v) # kvs'" using False by (cases kvs) auto
  have hd: "\<exists>x. ?t = CHR 0x22 # x" unfolding kvs by (cases kvs') (auto simp: json_string_def)
  then have ne: "skip_ws (?t @ s) = ?t @ s" for s using json_spaces(1) by (auto simp: skip_ws_def)
  have m: "read_members (Suc (Suc (length ?t))) (?t @ ''}'') = Some (kvs, [])"
    using read_flat_members [OF assms(1) False, of "Suc (Suc (length ?t))" float_repr "[]"] len [of kvs] by simp
  have brace: "skip_ws (CHR ''{'' # s) = CHR ''{'' # s" for s by (rule skip_ws_Cons) (rule json_spaces)
  obtain x where x: "?t = CHR 0x22 # x" using hd by blast
  have "skip_ws (?t @ ''}'') = CHR 0x22 # x @ ''}''" unfolding ne unfolding x by simp
  then have "read_value (Suc (Suc (Suc (length ?t)))) (CHR ''{'' # ?t @ ''}'') = Some (JObj kvs, [])"
    using m update_fold_fresh [of "[]" kvs] assms(2)
    by (subst read_value.simps(2)) (simp add: brace del: read_members.simps read_value.simps)
  moreover have "json_dumps float_repr '', '' '': '' (JObj kvs) = CHR ''{'' # ?t @ ''}''" by simp
  moreover have "skip_ws [] = []" by (simp add: skip_ws_def)
  ultimately show ?thesis by (simp add: json_loads_def del: read_value.simps json_dumps.simps)
qed

end
