(* ===== verification/Py_Iso.thy ===== *)
theory Py_Iso
  imports Py_Dates Py_Text
begin

text \<open>
  \<open>date.fromisoformat\<close>: calendar dates \<open>YYYY-MM-DD\<close> and \<open>YYYYMMDD\<close>, week dates \<open>YYYY-Www-D\<close>, \<open>YYYYWwwD\<close> and the
  same without a day, for the Monday. The lemma shows that it reads what \<open>isoformat\<close> writes.
\<close>

text \<open>The Monday of the first ISO week, and a day of a week.\<close>

definition iso_week1_monday :: "int \<Rightarrow> date" where
  "iso_week1_monday y = (let firstday = ymd2ord y 1 1; firstweekday = weekday firstday; monday = firstday - firstweekday
                         in if firstweekday > 3 then monday + 7 else monday)"

definition iso_to_date :: "int \<Rightarrow> int \<Rightarrow> int \<Rightarrow> date res" where
  "iso_to_date y w d =
     (let first_weekday = weekday (ymd2ord y 1 1); long_year = first_weekday = 3 \<or> first_weekday = 2 \<and> is_leap y;
          n = iso_week1_monday y + (w - 1) * 7 + (d - 1)
      in if \<not> (1 \<le> y \<and> y \<le> 9999) then Inl ValueError
         else if \<not> (1 \<le> w \<and> w \<le> 52 \<or> w = 53 \<and> long_year) then Inl ValueError
         else if \<not> (1 \<le> d \<and> d \<le> 7) then Inl ValueError
         else if 1 \<le> n \<and> n \<le> max_ordinal then Inr n else Inl ValueError)"

definition digits_int :: "string \<Rightarrow> int res" where
  "digits_int s = (if all_digits s then Inr (int (digits_val s)) else Inl ValueError)"

definition date_fromisoformat :: "string \<Rightarrow> date res" where
  "date_fromisoformat s =
     bindE (digits_int (take 4 s)) (\<lambda>y.
       let r = drop 4 s; dash = r \<noteq> [] \<and> hd r = CHR ''-''; r1 = (if dash then tl r else r)
       in if r1 \<noteq> [] \<and> hd r1 = CHR ''W'' then
            (let w = take 2 (tl r1); r2 = drop 2 (tl r1)
             in bindE (digits_int w) (\<lambda>w. bindE (require (length (take 2 (tl r1)) = 2) ValueError) (\<lambda>_.
                if r2 = [] then iso_to_date y w 1
                else let d = (if dash then tl r2 else r2)
                     in if (dash \<and> hd r2 \<noteq> CHR ''-'') \<or> length d \<noteq> 1 then Inl ValueError
                        else bindE (digits_int d) (\<lambda>d. iso_to_date y w d))))
          else
            (let m = take 2 r1; r2 = drop 2 r1; d = (if dash then tl r2 else r2)
             in if length m \<noteq> 2 \<or> length d \<noteq> 2 \<or> (dash \<and> (r2 = [] \<or> hd r2 \<noteq> CHR ''-'')) then Inl ValueError
                else bindE (digits_int m) (\<lambda>m. bindE (digits_int d) (\<lambda>d. mk_date y m d))))"

lemma day_in_year:
  assumes "1 \<le> doy" "doy \<le> (if is_leap y then 366 else 365)"
  shows "let m = int (length (filter (\<lambda>m. days_before_month y m < doy) [1, 2, 3, 4, 5, 6, 7, 8, 9, 10, 11, 12]))
    in 1 \<le> m \<and> m \<le> 12 \<and> 1 \<le> doy - days_before_month y m \<and> doy - days_before_month y m \<le> days_in_month y m"
proof -
  define l where "l = (if is_leap y then 1 else 0 :: int)"
  have l: "0 \<le> l" "l \<le> 1" by (simp_all add: l_def)
  have b: "days_before_month y 1 = 0" "days_before_month y 2 = 31" "days_before_month y 3 = 59 + l" "days_before_month y 4 = 90 + l"
    "days_before_month y 5 = 120 + l" "days_before_month y 6 = 151 + l" "days_before_month y 7 = 181 + l" "days_before_month y 8 = 212 + l"
    "days_before_month y 9 = 243 + l" "days_before_month y 10 = 273 + l" "days_before_month y 11 = 304 + l" "days_before_month y 12 = 334 + l"
    by (simp_all add: l_def)
  have d: "days_in_month y 1 = 31" "days_in_month y 2 = 28 + l" "days_in_month y 3 = 31" "days_in_month y 4 = 30" "days_in_month y 5 = 31"
    "days_in_month y 6 = 30" "days_in_month y 7 = 31" "days_in_month y 8 = 31" "days_in_month y 9 = 30" "days_in_month y 10 = 31"
    "days_in_month y 11 = 30" "days_in_month y 12 = 31"
    by (simp_all add: l_def days_in_month_def)
  have e: "doy \<le> 365 + l" using assms by (cases "is_leap y") (simp_all add: l_def)
  consider "doy \<le> 31" | "31 < doy" "doy \<le> 59 + l" | "59 + l < doy" "doy \<le> 90 + l" | "90 + l < doy" "doy \<le> 120 + l"
    | "120 + l < doy" "doy \<le> 151 + l" | "151 + l < doy" "doy \<le> 181 + l" | "181 + l < doy" "doy \<le> 212 + l"
    | "212 + l < doy" "doy \<le> 243 + l" | "243 + l < doy" "doy \<le> 273 + l" | "273 + l < doy" "doy \<le> 304 + l"
    | "304 + l < doy" "doy \<le> 334 + l" | "334 + l < doy" "doy \<le> 365 + l"
    using e not_less by meson
  then show ?thesis
    by cases (use assms(1) l in \<open>simp_all add: b d Let_def del: days_before_month_simps\<close>)
qed

lemma mk_date_parts:
  assumes "1 \<le> n" "n \<le> max_ordinal"
  shows "mk_date (year_of n) (month_of n) (day_of n) = Inr n" "1 \<le> year_of n" "year_of n \<le> 9999" "1 \<le> month_of n" "month_of n \<le> 12"
    "1 \<le> day_of n" "day_of n \<le> 31"
proof -
  let ?y = "year_of n" and ?doy = "n - days_before_year (year_of n)"
  have "1 \<le> ?doy" "?doy \<le> (if is_leap ?y then 366 else 365)"
    using year_of_bounds [of n] year_length [of ?y] by auto
  note d = day_in_year [OF this, unfolded Let_def, folded month_of_def [of n, unfolded Let_def]]
  have y: "1 \<le> ?y" "?y \<le> 9999"
  proof -
    have "year_of 1 = 1" "year_of max_ordinal = 9999" by code_simp+
    then show "1 \<le> ?y" "?y \<le> 9999" using year_of_mono [of 1 n] year_of_mono [of n max_ordinal] assms by auto
  qed
  show "1 \<le> ?y" "?y \<le> 9999" by (rule y)+
  show "1 \<le> month_of n" "month_of n \<le> 12" using d by blast+
  show "1 \<le> day_of n" "day_of n \<le> 31" using d days_in_month_bounds(2) [of ?y "month_of n"] by (auto simp: day_of_def)
  show "mk_date ?y (month_of n) (day_of n) = Inr n"
    using d y by (simp add: mk_date_def day_of_def ymd2ord_def)
qed

lemma length_show_nat_le: "1 \<le> k \<Longrightarrow> n < 10 ^ k \<Longrightarrow> length (show_nat n) \<le> k"
proof (induction k arbitrary: n)
  case (Suc k)
  show ?case
  proof (cases "n < 10")
    case False
    then have "1 \<le> k" using Suc.prems(2) by (cases k) simp_all
    moreover have "n div 10 < 10 ^ k" using Suc.prems(2) by (simp add: less_mult_imp_div_less)
    ultimately show ?thesis using Suc.IH [of "n div 10"] False by (simp add: show_nat.simps [of n])
  qed (simp add: show_nat.simps [of n])
qed simp

lemma fromisoformat_isoformat:
  assumes "1 \<le> n" "n \<le> max_ordinal"
  shows "date_fromisoformat (date_isoformat n) = Inr n"
proof -
  note p = mk_date_parts [OF assms]
  have four: "length (zpad 4 k) = 4" if "k < 10000" for k
  proof -
    have "length (show_nat k) \<le> 4" using that by (intro length_show_nat_le) simp_all
    then show ?thesis by (simp add: zpad_def)
  qed
  let ?y = "zpad 4 (nat (year_of n))" and ?m = "zpad 2 (nat (month_of n))" and ?d = "zpad 2 (nat (day_of n))"
  have l: "length ?y = 4" "length ?m = 2" "length ?d = 2" using four [of "nat (year_of n)"] p by auto
  obtain a b where m: "?m = [a, b]" using l(2) by (auto simp: numeral_2_eq_2 length_Suc_conv)
  obtain c e where d: "?d = [c, e]" using l(3) by (auto simp: numeral_2_eq_2 length_Suc_conv)
  have "is_ascii_digit a" using all_digits_zpad [of 2 "nat (month_of n)"] m by (simp add: all_digits_def)
  moreover have "\<not> is_ascii_digit (CHR ''W'')" by code_simp
  ultimately have w: "a \<noteq> CHR ''W''" by auto
  have v: "digits_int ?y = Inr (year_of n)" "digits_int ?m = Inr (month_of n)" "digits_int ?d = Inr (day_of n)"
    using p by (simp_all add: digits_int_def)
  have "take 4 (date_isoformat n) = ?y" "drop 4 (date_isoformat n) = CHR ''-'' # ?m @ CHR ''-'' # ?d"
    using l by (simp_all add: date_isoformat_def)
  then show ?thesis
    using w v p(1) by (simp add: date_fromisoformat_def Let_def m d)
qed

end
