(* ===== verification/Paper_Ledger.thy ===== *)
theory Paper_Ledger
  imports Py_Json Py_Iso
begin

text \<open>
  The append-only ledger of paper sessions (\<open>src/futur3/execution/paper_ledger.py\<close>) and the monitor that reads
  it (\<open>decay_monitor.py\<close>). The ledger is its file: \<open>None\<close> before the first row, then the text. Rows are JSON
  lines. \<open>dec_str\<close> is \<open>str\<close> on a decimal and \<open>floats\<close> the interpreter's binary floats, both arguments; failures
  of the file system are not modelled. The Sharpe ratio is a computation on floats: the argument \<open>sharpe\<close>.

  The lemmas show that a row is read back as it was recorded, that the file keeps the sessions in order of
  their dates with their running total, and what the monitor reports.
\<close>

record floats =
  fl_repr :: "string \<Rightarrow> string"
  fl_trunc :: "string \<Rightarrow> int res"
  fl_truth :: "string \<Rightarrow> bool"

definition LEDGER_SCHEMA :: string where "LEDGER_SCHEMA = ''futur3.paper_ledger.v1''"

record PaperSession =
  ps_session_date :: date
  ps_qualified :: bool
  ps_contracts :: int
  ps_entry_price :: "decimal option"
  ps_exit_price :: "decimal option"
  ps_session_pnl :: decimal
  ps_cost :: decimal
  ps_cumulative_pnl :: decimal

definition price_json :: "(decimal \<Rightarrow> string) \<Rightarrow> decimal option \<Rightarrow> json" where
  "price_json dec_str p = (case p of None \<Rightarrow> JNull | Some x \<Rightarrow> JStr (dec_str x))"

definition session_to_json :: "(decimal \<Rightarrow> string) \<Rightarrow> PaperSession \<Rightarrow> json" where
  "session_to_json dec_str s =
     JObj [(''schema'', JStr LEDGER_SCHEMA),
           (''session_date'', JStr (date_isoformat (ps_session_date s))),
           (''qualified'', JBool (ps_qualified s)),
           (''contracts'', JInt (ps_contracts s)),
           (''entry_price'', price_json dec_str (ps_entry_price s)),
           (''exit_price'', price_json dec_str (ps_exit_price s)),
           (''session_pnl'', JStr (dec_str (ps_session_pnl s))),
           (''cost'', JStr (dec_str (ps_cost s))),
           (''cumulative_pnl'', JStr (dec_str (ps_cumulative_pnl s)))]"

text \<open>\<open>d[key]\<close>, \<open>str(value)\<close>, \<open>bool(value)\<close>, \<open>int(value)\<close> on decoded JSON. The text of a list or an object starts with its bracket.\<close>

definition json_get :: "json \<Rightarrow> string \<Rightarrow> json res" where
  "json_get j key =
     (case j of
        JObj kvs \<Rightarrow> (case map_of kvs key of None \<Rightarrow> Inl KeyError | Some v \<Rightarrow> Inr v)
      | _ \<Rightarrow> Inl TypeError)"

fun json_text :: "floats \<Rightarrow> json \<Rightarrow> string" where
  "json_text fl (JStr s) = s"
| "json_text fl (JInt i) = show_int i"
| "json_text fl (JFloat f) = fl_repr fl f"
| "json_text fl (JBool b) = (if b then ''True'' else ''False'')"
| "json_text fl JNull = ''None''"
| "json_text fl (JArr xs) = ''[''"
| "json_text fl (JObj kvs) = ''{''"

fun json_truth :: "floats \<Rightarrow> json \<Rightarrow> bool" where
  "json_truth fl (JBool b) = b"
| "json_truth fl JNull = False"
| "json_truth fl (JInt i) = (i \<noteq> 0)"
| "json_truth fl (JFloat f) = fl_truth fl f"
| "json_truth fl (JStr s) = (s \<noteq> [])"
| "json_truth fl (JArr xs) = (xs \<noteq> [])"
| "json_truth fl (JObj kvs) = (kvs \<noteq> [])"

fun json_int :: "floats \<Rightarrow> json \<Rightarrow> int res" where
  "json_int fl (JInt i) = Inr i"
| "json_int fl (JBool b) = Inr (if b then 1 else 0)"
| "json_int fl (JFloat f) = fl_trunc fl f"
| "json_int fl (JStr s) = (case parse_int s of None \<Rightarrow> Inl ValueError | Some i \<Rightarrow> Inr i)"
| "json_int fl _ = Inl TypeError"

definition decimal_of :: "string \<Rightarrow> decimal res" where
  "decimal_of s = (case parse_decimal s of None \<Rightarrow> Inl InvalidOperation | Some d \<Rightarrow> Inr d)"

definition price_of_json :: "floats \<Rightarrow> json \<Rightarrow> decimal option res" where
  "price_of_json fl j = (if j = JNull then Inr None else bindE (decimal_of (json_text fl j)) (\<lambda>d. Inr (Some d)))"

definition session_from_json :: "floats \<Rightarrow> json \<Rightarrow> PaperSession res" where
  "session_from_json fl d =
     bindE (json_get d ''entry_price'') (\<lambda>ep.
     bindE (json_get d ''exit_price'') (\<lambda>xp.
     bindE (json_get d ''session_date'') (\<lambda>j. bindE (date_fromisoformat (json_text fl j)) (\<lambda>session_date.
     bindE (json_get d ''qualified'') (\<lambda>q.
     bindE (json_get d ''contracts'') (\<lambda>j. bindE (json_int fl j) (\<lambda>contracts.
     bindE (price_of_json fl ep) (\<lambda>entry_price.
     bindE (price_of_json fl xp) (\<lambda>exit_price.
     bindE (json_get d ''session_pnl'') (\<lambda>j. bindE (decimal_of (json_text fl j)) (\<lambda>session_pnl.
     bindE (json_get d ''cost'') (\<lambda>j. bindE (decimal_of (json_text fl j)) (\<lambda>cost.
     bindE (json_get d ''cumulative_pnl'') (\<lambda>j. bindE (decimal_of (json_text fl j)) (\<lambda>cumulative_pnl.
     Inr \<lparr>ps_session_date = session_date, ps_qualified = json_truth fl q, ps_contracts = contracts, ps_entry_price = entry_price,
          ps_exit_price = exit_price, ps_session_pnl = session_pnl, ps_cost = cost, ps_cumulative_pnl = cumulative_pnl\<rparr>)))))))))))))))"

section \<open>The file\<close>

text \<open>\<open>str.splitlines\<close>; the first argument is the line read so far.\<close>

definition is_line_break :: "char \<Rightarrow> bool" where
  "is_line_break c \<longleftrightarrow> (of_char c :: nat) \<in> {10, 11, 12, 13, 28, 29, 30, 133}"

fun split_lines :: "string \<Rightarrow> string \<Rightarrow> string list" where
  "split_lines w [] = (if w = [] then [] else [w])"
| "split_lines w (c # cs) =
     (if is_line_break c then
        w # split_lines [] (if (of_char c :: nat) = 13 \<and> cs \<noteq> [] \<and> (of_char (hd cs) :: nat) = 10 then tl cs else cs)
      else split_lines (w @ [c]) cs)"

definition read_line :: "floats \<Rightarrow> string \<Rightarrow> PaperSession res" where
  "read_line fl line = (case json_loads line of None \<Rightarrow> Inl ValueError | Some j \<Rightarrow> session_from_json fl j)"

definition ledger_read :: "floats \<Rightarrow> string option \<Rightarrow> PaperSession list res" where
  "ledger_read fl path =
     (case path of
        None \<Rightarrow> Inr []
      | Some text \<Rightarrow> traverse (read_line fl) (filter (\<lambda>line. str_strip line \<noteq> []) (split_lines [] text)))"

definition ledger_append :: "floats \<Rightarrow> (decimal \<Rightarrow> string) \<Rightarrow> PaperSession \<Rightarrow> string option \<Rightarrow> string option" where
  "ledger_append fl dec_str session path =
     Some ((case path of None \<Rightarrow> [] | Some text \<Rightarrow> text) @
           json_dumps (fl_repr fl) '', '' '': '' (session_to_json dec_str session) @ [char_of (10 :: nat)])"

definition ledger_record ::
  "floats \<Rightarrow> (decimal \<Rightarrow> string) \<Rightarrow> date \<Rightarrow> bool \<Rightarrow> int \<Rightarrow> decimal option \<Rightarrow> decimal option \<Rightarrow> decimal \<Rightarrow> decimal \<Rightarrow>
   string option \<Rightarrow> PaperSession res \<times> string option" where
  "ledger_record fl dec_str session_date qualified contracts entry_price exit_price session_pnl cost path =
     (case ledger_read fl path of
        Inl e \<Rightarrow> (Inl e, path)
      | Inr prior \<Rightarrow>
          if prior \<noteq> [] \<and> session_date \<le> ps_session_date (last prior) then (Inl PaperLedgerError, path)
          else let cumulative = dadd (if prior \<noteq> [] then ps_cumulative_pnl (last prior) else 0) session_pnl;
                   session = \<lparr>ps_session_date = session_date, ps_qualified = qualified, ps_contracts = contracts,
                              ps_entry_price = entry_price, ps_exit_price = exit_price, ps_session_pnl = session_pnl,
                              ps_cost = cost, ps_cumulative_pnl = cumulative\<rparr>
               in (Inr session, ledger_append fl dec_str session path))"

definition pnl_series :: "floats \<Rightarrow> string option \<Rightarrow> decimal list res" where
  "pnl_series fl path = bindE (ledger_read fl path) (\<lambda>rows. Inr (map ps_session_pnl rows))"

definition cumulative_pnl :: "floats \<Rightarrow> string option \<Rightarrow> decimal res" where
  "cumulative_pnl fl path =
     bindE (ledger_read fl path) (\<lambda>rows. Inr (if rows \<noteq> [] then ps_cumulative_pnl (last rows) else 0))"

section \<open>The monitor\<close>

datatype DecayVerdict = WARMING_UP | HEALTHY | DECAYED

record 'f DecayStatus =
  dc_n_sessions :: nat
  dc_cumulative_pnl :: decimal
  dc_full_sharpe :: "'f option"
  dc_rolling_sharpe :: "'f option"
  dc_rolling_window :: int
  dc_max_drawdown :: decimal
  dc_verdict :: DecayVerdict

definition max_drawdown :: "decimal list \<Rightarrow> decimal" where
  "max_drawdown pnl =
     (case foldl (\<lambda>(peak, cum, mdd) x.
             let cum = dadd cum x; peak = max peak cum in (peak, cum, max mdd (dsub peak cum))) (0, 0, 0) pnl of
        (peak, cum, mdd) \<Rightarrow> mdd)"

text \<open>\<open>pnl[-w:]\<close>: the last \<open>w\<close> items, all of them for \<open>0\<close>, all but the first \<open>- w\<close> for a negative \<open>w\<close>.\<close>

definition trailing :: "int \<Rightarrow> 'a list \<Rightarrow> 'a list" where
  "trailing w xs = (if 0 < w then drop (length xs - nat w) xs else drop (nat (- w)) xs)"

definition assess_decay ::
  "(decimal list \<Rightarrow> 'f option) \<Rightarrow> ('f \<Rightarrow> bool) \<Rightarrow> decimal list \<Rightarrow> int \<Rightarrow> int \<Rightarrow> 'f DecayStatus" where
  "assess_decay sharpe not_positive pnl rolling_window min_sessions =
     (let n = length pnl; cumulative = dsum pnl; full_sr = sharpe pnl; rolling_sr = sharpe (trailing rolling_window pnl);
          verdict = (if int n < min_sessions then WARMING_UP
                     else if cumulative \<le> 0 \<or> (case rolling_sr of None \<Rightarrow> False | Some sr \<Rightarrow> not_positive sr) then DECAYED
                     else HEALTHY)
      in \<lparr>dc_n_sessions = n, dc_cumulative_pnl = cumulative, dc_full_sharpe = full_sr, dc_rolling_sharpe = rolling_sr,
          dc_rolling_window = rolling_window, dc_max_drawdown = max_drawdown pnl, dc_verdict = verdict\<rparr>)"

section \<open>Reading a row back\<close>

definition prints :: "(decimal \<Rightarrow> string) \<Rightarrow> decimal \<Rightarrow> bool" where
  "prints dec_str x \<longleftrightarrow> parse_decimal (dec_str x) = Some x"

text \<open>A session whose date is a date and whose decimals \<open>str\<close> prints as they are.\<close>

definition session_ok :: "(decimal \<Rightarrow> string) \<Rightarrow> PaperSession \<Rightarrow> bool" where
  "session_ok dec_str s \<longleftrightarrow>
     1 \<le> ps_session_date s \<and> ps_session_date s \<le> max_ordinal \<and>
     (\<forall>x. ps_entry_price s = Some x \<or> ps_exit_price s = Some x \<or> x \<in> {ps_session_pnl s, ps_cost s, ps_cumulative_pnl s} \<longrightarrow> prints dec_str x)"

lemma price_of_price:
  assumes "\<forall>x. p = Some x \<longrightarrow> prints dec_str x"
  shows "price_of_json fl (price_json dec_str p) = Inr p"
  using assms by (cases p) (simp_all add: price_of_json_def price_json_def decimal_of_def prints_def)

lemma session_from_to:
  assumes "session_ok dec_str s"
  shows "session_from_json fl (session_to_json dec_str s) = Inr s"
proof -
  have "decimal_of (dec_str (ps_session_pnl s)) = Inr (ps_session_pnl s)" "decimal_of (dec_str (ps_cost s)) = Inr (ps_cost s)"
    "decimal_of (dec_str (ps_cumulative_pnl s)) = Inr (ps_cumulative_pnl s)"
    "price_of_json fl (price_json dec_str (ps_entry_price s)) = Inr (ps_entry_price s)"
    "price_of_json fl (price_json dec_str (ps_exit_price s)) = Inr (ps_exit_price s)"
    "date_fromisoformat (date_isoformat (ps_session_date s)) = Inr (ps_session_date s)"
    using assms by (auto simp: session_ok_def decimal_of_def prints_def intro!: price_of_price [unfolded prints_def] fromisoformat_isoformat)
  then show ?thesis by (simp add: session_from_json_def session_to_json_def json_get_def)
qed

definition line_of :: "floats \<Rightarrow> (decimal \<Rightarrow> string) \<Rightarrow> PaperSession \<Rightarrow> string" where
  "line_of fl dec_str s = json_dumps (fl_repr fl) '', '' '': '' (session_to_json dec_str s)"

lemma read_line_of:
  assumes "session_ok dec_str s"
  shows "read_line fl (line_of fl dec_str s) = Inr s"
proof -
  obtain kvs where kvs: "session_to_json dec_str s = JObj kvs" "\<forall>(k, v) \<in> set kvs. json_scalar v" "distinct (map fst kvs)"
    by (rule that [OF session_to_json_def]) (auto simp: price_json_def split: option.split)
  have "json_loads (line_of fl dec_str s) = Some (JObj kvs)"
    unfolding line_of_def kvs(1) by (rule json_flat_roundtrip [OF kvs(2,3)])
  then show ?thesis using session_from_to [OF assms, of fl] kvs(1) by (simp add: read_line_def)
qed

section \<open>Lines\<close>

definition plain :: "string \<Rightarrow> bool" where
  "plain s \<longleftrightarrow> (\<forall>c \<in> set s. 32 \<le> (of_char c :: nat) \<and> (of_char c :: nat) \<le> 126)"

lemma plain_append [simp]: "plain (s @ t) \<longleftrightarrow> plain s \<and> plain t"
  by (auto simp: plain_def)

lemma plain_hex: "d < 16 \<Longrightarrow> plain [hex_digit d]"
  by (auto simp: plain_def hex_digit_def)

lemma plain_json_char: "plain (json_char c)"
proof -
  have "(of_char c :: nat) < 256" by simp
  then have "of_char c div 16 < (16 :: nat)" by linarith
  then show ?thesis using plain_hex [of "of_char c div 16"] plain_hex [of "of_char c mod 16"]
    by (auto simp: json_char_def Let_def plain_def)
qed

lemma plain_json_string: "plain (json_string s)"
proof -
  have "plain (concat (map json_char s))" by (induction s) (simp_all add: plain_json_char, simp add: plain_def)
  then show ?thesis by (simp add: json_string_def) (simp add: plain_def)
qed

lemma plain_show_int: "plain (show_int i)"
proof -
  have "32 \<le> (of_char c :: nat) \<and> (of_char c :: nat) \<le> 126" if "is_ascii_digit c" for c using that by (auto simp: is_ascii_digit_def)
  then have "plain (show_nat n)" for n using show_nat_digits [of _ n] by (auto simp: plain_def)
  then show ?thesis by (simp add: show_int_def) (simp add: plain_def)
qed

lemma plain_join: "plain sep \<Longrightarrow> \<forall>s \<in> set ss. plain s \<Longrightarrow> plain (str_join sep ss)"
  by (induction sep ss rule: str_join.induct) (simp_all, simp add: plain_def)

lemma plain_scalar: "json_scalar v \<Longrightarrow> plain (json_dumps float_repr sep colon v)"
  by (cases v) (simp_all add: plain_json_string plain_show_int, simp_all add: plain_def json_bool_def)

lemma plain_line: "plain (line_of fl dec_str s)"
proof -
  obtain kvs where kvs: "session_to_json dec_str s = JObj kvs" "\<forall>(k, v) \<in> set kvs. json_scalar v"
    by (rule that [OF session_to_json_def]) (auto simp: price_json_def split: option.split)
  have "plain ('', '' :: string)" "plain ('': '' :: string)" "plain (''{'' :: string)" "plain (''}'' :: string)" by (simp_all add: plain_def)
  moreover have "plain (json_dumps (fl_repr fl) '', '' '': '' v)" if "(k, v) \<in> set kvs" for k v
    using kvs(2) that by (intro plain_scalar) auto
  ultimately show ?thesis unfolding line_of_def kvs(1) json_dumps.simps
    by (auto intro!: plain_join simp: plain_json_string simp del: append_Cons append_Nil)
qed

lemma str_strip_ne: "c \<in> set s \<Longrightarrow> \<not> is_ascii_space c \<Longrightarrow> str_strip s \<noteq> []"
proof -
  assume c: "c \<in> set s" "\<not> is_ascii_space c"
  have keep: "c \<in> set xs \<Longrightarrow> c \<in> set (dropWhile is_ascii_space xs)" for xs by (induction xs) (use c(2) in auto)
  have "c \<in> set (str_strip s)" unfolding str_strip_def using keep [OF c(1)] keep [of "rev (dropWhile is_ascii_space s)"] by simp
  then show ?thesis by auto
qed

lemma split_lines_newline:
  "split_lines w (t @ char_of (10 :: nat) # u) = split_lines w (t @ [char_of (10 :: nat)]) @ split_lines [] u"
proof (induction w t rule: split_lines.induct)
  case (1 w)
  then show ?case by (simp add: is_line_break_def)
next
  case (2 w c cs)
  show ?case
  proof (cases "is_line_break c")
    case True
    show ?thesis
    proof (cases "(of_char c :: nat) = 13")
      case True
      show ?thesis
      proof (cases cs)
        case Nil
        then show ?thesis using True \<open>is_line_break c\<close> by simp
      next
        case (Cons a list)
        then show ?thesis using "2.IH"(1) [OF \<open>is_line_break c\<close>] True \<open>is_line_break c\<close>
          by (cases "(of_char a :: nat) = 10") simp_all
      qed
    next
      case False
      then show ?thesis using 2 \<open>is_line_break c\<close> by simp
    qed
  next
    case False
    then show ?thesis using 2 by simp
  qed
qed

lemma split_lines_plain: "plain l \<Longrightarrow> split_lines w (l @ [char_of (10 :: nat)]) = [w @ l]"
proof (induction l arbitrary: w)
  case Nil
  then show ?case by (simp add: is_line_break_def)
next
  case (Cons c l)
  then have "\<not> is_line_break c" by (auto simp: plain_def is_line_break_def)
  then show ?case using Cons.IH [of "w @ [c]"] Cons.prems by (simp add: plain_def)
qed

text \<open>A file that ends with its last line, as the ledger leaves it.\<close>

definition ledger_file :: "string option \<Rightarrow> bool" where
  "ledger_file path \<longleftrightarrow> (\<forall>text. path = Some text \<longrightarrow> text = [] \<or> (\<exists>t. text = t @ [char_of (10 :: nat)]))"

lemma read_append:
  assumes "ledger_file path" "ledger_read fl path = Inr rows" "session_ok dec_str s"
  shows "ledger_read fl (ledger_append fl dec_str s path) = Inr (rows @ [s])" "ledger_file (ledger_append fl dec_str s path)"
proof -
  let ?l = "line_of fl dec_str s" and ?nl = "char_of (10 :: nat) :: char"
  let ?text = "case path of None \<Rightarrow> [] | Some text \<Rightarrow> text"
  have "ledger_append fl dec_str s path = Some (?text @ ?l @ [?nl])" by (simp add: ledger_append_def line_of_def)
  moreover have lines: "split_lines [] (?text @ ?l @ [?nl]) = split_lines [] ?text @ [?l]"
  proof (cases "?text = []")
    case True
    then show ?thesis using split_lines_plain [OF plain_line, of "[]" fl dec_str s] by simp
  next
    case False
    then obtain t where t: "?text = t @ [?nl]" using assms(1) by (cases path) (auto simp: ledger_file_def)
    have "split_lines [] (t @ ?nl # (?l @ [?nl])) = split_lines [] (t @ [?nl]) @ split_lines [] (?l @ [?nl])"
      by (rule split_lines_newline)
    then show ?thesis unfolding t using split_lines_plain [OF plain_line, of "[]" fl dec_str s] by simp
  qed
  moreover have "str_strip ?l \<noteq> []"
  proof (rule str_strip_ne)
    show "CHR ''{'' \<in> set ?l" by (simp add: line_of_def session_to_json_def)
    show "\<not> is_ascii_space (CHR ''{'')" by code_simp
  qed
  moreover have "traverse (read_line fl) (filter (\<lambda>line. str_strip line \<noteq> []) (split_lines [] ?text)) = Inr rows"
    using assms(2) by (cases path) (auto simp: ledger_read_def)
  ultimately show "ledger_read fl (ledger_append fl dec_str s path) = Inr (rows @ [s])"
    using read_line_of [OF assms(3), of fl] by (simp add: ledger_read_def traverse_Inr_iff list_all2_append list_all2_lengthD)
  show "ledger_file (ledger_append fl dec_str s path)" by (simp add: ledger_file_def ledger_append_def)
qed

section \<open>Runs of the ledger\<close>

text \<open>
  The files a paper run can leave: any sequence of \<open>record\<close> calls on a file that does not exist yet, refused
  ones included.
\<close>

inductive ledger_reach :: "floats \<Rightarrow> (decimal \<Rightarrow> string) \<Rightarrow> string option \<Rightarrow> bool" for fl dec_str where
  fresh: "ledger_reach fl dec_str None"
| recorded: "ledger_reach fl dec_str path \<Longrightarrow> ledger_record fl dec_str d q n ep xp pnl cost path = (Inr s, path') \<Longrightarrow>
    session_ok dec_str s \<Longrightarrow> ledger_reach fl dec_str path'"
| refused: "ledger_reach fl dec_str path \<Longrightarrow> ledger_record fl dec_str d q n ep xp pnl cost path = (Inl e, path') \<Longrightarrow>
    ledger_reach fl dec_str path'"

definition running_totals :: "PaperSession list \<Rightarrow> bool" where
  "running_totals rows \<longleftrightarrow> (\<forall>i < length rows. ps_cumulative_pnl (rows ! i) = dsum (map ps_session_pnl (take (Suc i) rows)))"

lemma dsum_snoc: "dsum (xs @ [x]) = dadd (dsum xs) x"
  by (simp add: dsum_def)

lemma running_totals_snoc:
  "running_totals (rows @ [s]) \<longleftrightarrow>
     running_totals rows \<and> ps_cumulative_pnl s = dadd (dsum (map ps_session_pnl rows)) (ps_session_pnl s)"
  by (auto simp: running_totals_def nth_append less_Suc_eq dsum_snoc)

lemma running_totals_last:
  "running_totals rows \<Longrightarrow> (if rows \<noteq> [] then ps_cumulative_pnl (last rows) else 0) = dsum (map ps_session_pnl rows)"
  by (cases rows rule: rev_cases) (simp_all add: running_totals_snoc dsum_snoc, simp add: dsum_def)

lemma record_Inr:
  assumes "ledger_record fl dec_str d q n ep xp pnl cost path = (Inr s, path')" "ledger_read fl path = Inr prior"
  shows "path' = ledger_append fl dec_str s path" "ps_session_date s = d" "prior \<noteq> [] \<Longrightarrow> ps_session_date (last prior) < d"
    "ps_session_pnl s = pnl" "ps_cumulative_pnl s = dadd (if prior \<noteq> [] then ps_cumulative_pnl (last prior) else 0) pnl"
  using assms by (auto simp: ledger_record_def Let_def split: if_splits)

lemma reach_inv:
  assumes "ledger_reach fl dec_str path"
  shows "\<exists>rows. ledger_read fl path = Inr rows \<and> ledger_file path \<and> sorted_wrt (\<lambda>s t. ps_session_date s < ps_session_date t) rows \<and>
     running_totals rows"
  using assms
proof (induction rule: ledger_reach.induct)
  case fresh
  show ?case by (simp add: ledger_read_def ledger_file_def running_totals_def)
next
  case (recorded path d q n ep xp pnl cost s path')
  then obtain rows where r: "ledger_read fl path = Inr rows" "ledger_file path"
    "sorted_wrt (\<lambda>s t. ps_session_date s < ps_session_date t) rows" "running_totals rows" by blast
  note w = record_Inr [OF recorded.hyps(2) r(1)]
  note a = read_append [OF r(2,1) recorded.hyps(3), folded w(1)]
  have "ps_session_date x < d" if "x \<in> set rows" for x
  proof -
    obtain xs l where "rows = xs @ [l]" using \<open>x \<in> set rows\<close> by (cases rows rule: rev_cases) auto
    then show ?thesis using w(3) r(3) that by (auto simp: sorted_wrt_append)
  qed
  then have "sorted_wrt (\<lambda>s t. ps_session_date s < ps_session_date t) (rows @ [s])" using r(3) w(2) by (auto simp: sorted_wrt_append)
  moreover have "running_totals (rows @ [s])"
    using r(4) w(4,5) running_totals_last [OF r(4)] by (simp add: running_totals_snoc split: if_splits)
  ultimately show ?case using a by blast
next
  case (refused path d q n ep xp pnl cost e path')
  then have "path' = path" by (auto simp: ledger_record_def Let_def split: sum.splits if_splits)
  then show ?case using refused.IH by simp
qed

text \<open>
  C27. The ledger never counts a session twice and its total is right. After any run the file reads back
  without error, its sessions stand in strictly increasing order of their dates, every row carries the sum of
  the results up to it, and the total the ledger reports is the sum of the series it hands to the monitor.
\<close>

theorem ledger_consistent:
  assumes "ledger_reach fl dec_str path"
  shows "\<exists>rows. ledger_read fl path = Inr rows \<and> sorted_wrt (\<lambda>s t. ps_session_date s < ps_session_date t) rows \<and>
     (\<forall>i < length rows. ps_cumulative_pnl (rows ! i) = dsum (map ps_session_pnl (take (Suc i) rows))) \<and>
     pnl_series fl path = Inr (map ps_session_pnl rows) \<and> cumulative_pnl fl path = Inr (dsum (map ps_session_pnl rows))"
  using reach_inv [OF assms] running_totals_last
  by (force simp: pnl_series_def cumulative_pnl_def running_totals_def)

text \<open>
  A recorded session is read back. Recording on the file of a run either refuses and leaves the file as it
  is, exactly when the date is not after the last recorded one, or the file afterwards reads as before with
  the new session, as it was returned, at its end; restarting loses nothing.
\<close>

theorem ledger_record_roundtrip:
  assumes "ledger_reach fl dec_str path" "ledger_record fl dec_str d q n ep xp pnl cost path = (out, path')"
    and "\<And>s. out = Inr s \<Longrightarrow> session_ok dec_str s"
  shows "\<exists>rows. ledger_read fl path = Inr rows \<and>
     (if rows \<noteq> [] \<and> d \<le> ps_session_date (last rows) then out = Inl PaperLedgerError \<and> path' = path
      else \<exists>s. out = Inr s \<and> ledger_read fl path' = Inr (rows @ [s]) \<and> ps_session_date s = d \<and> ps_session_pnl s = pnl)"
proof -
  obtain rows where r: "ledger_read fl path = Inr rows" "ledger_file path" using reach_inv [OF assms(1)] by blast
  show ?thesis
  proof (cases "rows \<noteq> [] \<and> d \<le> ps_session_date (last rows)")
    case True
    then show ?thesis using assms(2) r(1) by (auto simp: ledger_record_def)
  next
    case False
    then obtain s where s: "out = Inr s" using assms(2) r(1) by (auto simp: ledger_record_def Let_def split: if_splits)
    note w = record_Inr [OF assms(2) [unfolded s] r(1)]
    show ?thesis using read_append(1) [OF r(2,1) assms(3) [OF s], folded w(1)] w(2,4) s r(1) False by auto
  qed
qed

text \<open>An interpreter without floats, a printer of whole decimals, and two sessions.\<close>

definition no_floats :: floats where
  "no_floats = \<lparr>fl_repr = \<lambda>f. f, fl_trunc = \<lambda>f. Inl ValueError, fl_truth = \<lambda>f. True\<rparr>"

definition whole_str :: "decimal \<Rightarrow> string" where
  "whole_str x = show_int \<lfloor>x\<rfloor>"

lemma prints_whole: "prints whole_str (of_nat n)"
  by (simp add: prints_def whole_str_def show_int_def parse_decimal_digits)

definition first_file :: "string option" where
  "first_file = snd (ledger_record no_floats whole_str 739000 True 1 (Some 5000) (Some 5010) 10 2 None)"

lemma first_record:
  "ledger_record no_floats whole_str 739000 True 1 (Some 5000) (Some 5010) 10 2 None =
     (Inr \<lparr>ps_session_date = 739000, ps_qualified = True, ps_contracts = 1, ps_entry_price = Some 5000, ps_exit_price = Some 5010,
           ps_session_pnl = 10, ps_cost = 2, ps_cumulative_pnl = 10\<rparr>, first_file)"
proof -
  have "dadd 0 10 = 10" using drepr_of_int [of 10] by (simp add: dadd_def drepr_def)
  then show ?thesis by (simp add: first_file_def ledger_record_def ledger_read_def Let_def)
qed

lemma ledger_first_reach: "ledger_reach no_floats whole_str first_file"
proof (rule ledger_reach.recorded [OF ledger_reach.fresh first_record])
  have "prints whole_str 5000" "prints whole_str 5010" "prints whole_str 10" "prints whole_str 2"
    using prints_whole [of 5000] prints_whole [of 5010] prints_whole [of 10] prints_whole [of 2] by simp_all
  then show "session_ok whole_str \<lparr>ps_session_date = 739000, ps_qualified = True, ps_contracts = 1, ps_entry_price = Some 5000,
      ps_exit_price = Some 5010, ps_session_pnl = 10, ps_cost = 2, ps_cumulative_pnl = 10\<rparr>"
    by (auto simp: session_ok_def max_ordinal_def)
qed

theorem ledger_consistent_witness:
  "\<exists>rows. ledger_read no_floats first_file = Inr rows \<and> cumulative_pnl no_floats first_file = Inr (dsum (map ps_session_pnl rows))"
  using ledger_consistent [OF ledger_first_reach] by blast

theorem ledger_record_roundtrip_witness:
  "\<exists>s. ledger_record no_floats whole_str 739000 True 1 (Some 5000) (Some 5010) 10 2 None = (Inr s, first_file) \<and>
     ledger_read no_floats first_file = Inr [s]"
proof -
  have ok: "session_ok whole_str \<lparr>ps_session_date = 739000, ps_qualified = True, ps_contracts = 1, ps_entry_price = Some 5000,
      ps_exit_price = Some 5010, ps_session_pnl = 10, ps_cost = 2, ps_cumulative_pnl = 10\<rparr>"
    using prints_whole [of 5000] prints_whole [of 5010] prints_whole [of 10] prints_whole [of 2]
    by (auto simp: session_ok_def max_ordinal_def)
  have "ledger_read no_floats None = Inr []" by (simp add: ledger_read_def)
  then show ?thesis
    using ledger_record_roundtrip [OF ledger_reach.fresh first_record] ok first_record by auto
qed

section \<open>The monitor\<close>

lemma dsub_max: "dsub (max a b) c = max (dsub a c) (dsub b c)"
  using dround_mono [of "a - c" "b - c"] dround_mono [of "b - c" "a - c"] by (auto simp: dsub_def max_def)

text \<open>The equity after a number of sessions, and the drops between two points in time.\<close>

definition cum_after :: "decimal list \<Rightarrow> nat \<Rightarrow> decimal" where
  "cum_after pnl i = dsum (take i pnl)"

definition drops :: "decimal list \<Rightarrow> nat \<Rightarrow> decimal set" where
  "drops pnl k = {dsub (cum_after pnl i) (cum_after pnl j) |i j. i \<le> j \<and> j \<le> k}"

lemma finite_drops: "finite (drops pnl k)" "drops pnl k \<noteq> {}"
proof -
  have "drops pnl k = (\<lambda>(i, j). dsub (cum_after pnl i) (cum_after pnl j)) ` {(i, j). i \<le> j \<and> j \<le> k}"
    by (auto simp: drops_def)
  moreover have "finite {(i, j). i \<le> j \<and> j \<le> k}"
    by (rule finite_subset [of _ "{0..k} \<times> {0..k}"]) auto
  ultimately show "finite (drops pnl k)" by simp
  show "drops pnl k \<noteq> {}" unfolding drops_def by blast
qed

lemma max_drops_from:
  "Max ((\<lambda>i. dsub (cum_after pnl i) c) ` {0..k}) = dsub (Max (cum_after pnl ` {0..k})) c"
proof (induction k)
  case (Suc k)
  have "{0..Suc k} = insert (Suc k) {0..k}" by auto
  then show ?case using Suc.IH by (simp add: dsub_max)
qed simp

lemma drops_Suc: "drops pnl (Suc k) = drops pnl k \<union> (\<lambda>i. dsub (cum_after pnl i) (cum_after pnl (Suc k))) ` {0..Suc k}"
proof (intro equalityI subsetI)
  fix x assume "x \<in> drops pnl (Suc k)"
  then obtain i j where "x = dsub (cum_after pnl i) (cum_after pnl j)" "i \<le> j" "j \<le> Suc k" unfolding drops_def by blast
  then show "x \<in> drops pnl k \<union> (\<lambda>i. dsub (cum_after pnl i) (cum_after pnl (Suc k))) ` {0..Suc k}"
  proof (cases "j = Suc k")
    case True
    then show ?thesis using \<open>x = _\<close> \<open>i \<le> j\<close> by simp
  next
    case False
    then have "j \<le> k" using \<open>j \<le> Suc k\<close> by simp
    then have "x \<in> drops pnl k" unfolding drops_def using \<open>x = _\<close> \<open>i \<le> j\<close> by blast
    then show ?thesis by (rule UnI1)
  qed
next
  fix x assume "x \<in> drops pnl k \<union> (\<lambda>i. dsub (cum_after pnl i) (cum_after pnl (Suc k))) ` {0..Suc k}"
  then show "x \<in> drops pnl (Suc k)"
  proof
    assume "x \<in> drops pnl k"
    then show ?thesis unfolding drops_def using le_SucI by blast
  next
    assume "x \<in> (\<lambda>i. dsub (cum_after pnl i) (cum_after pnl (Suc k))) ` {0..Suc k}"
    then obtain i where "x = dsub (cum_after pnl i) (cum_after pnl (Suc k))" "i \<le> Suc k" by auto
    then show ?thesis unfolding drops_def by blast
  qed
qed

lemma drawdown_fold:
  "foldl (\<lambda>(peak, cum, mdd) x. let cum = dadd cum x; peak = max peak cum in (peak, cum, max mdd (dsub peak cum))) (0, 0, 0) (take k pnl) =
     (Max (cum_after pnl ` {0..k}), cum_after pnl k, Max (drops pnl k))" if "k \<le> length pnl"
  using that
proof (induction k)
  case 0
  have "drops pnl 0 = {0}" by (auto simp: drops_def dsub_def dec28.rnd_zero)
  then show ?case by (simp add: cum_after_def dsum_def)
next
  case (Suc k)
  have t: "take (Suc k) pnl = take k pnl @ [pnl ! k]" using Suc.prems by (simp add: take_Suc_conv_app_nth)
  have c: "cum_after pnl (Suc k) = dadd (cum_after pnl k) (pnl ! k)" unfolding cum_after_def t by (simp add: dsum_snoc)
  have m: "Max (cum_after pnl ` {0..Suc k}) = max (Max (cum_after pnl ` {0..k})) (cum_after pnl (Suc k))"
  proof -
    have "{0..Suc k} = insert (Suc k) {0..k}" by auto
    then show ?thesis by (simp add: max.commute)
  qed
  have "Max (drops pnl (Suc k)) = max (Max (drops pnl k)) (Max ((\<lambda>i. dsub (cum_after pnl i) (cum_after pnl (Suc k))) ` {0..Suc k}))"
    unfolding drops_Suc by (rule Max_Un) (use finite_drops in auto)
  then have "Max (drops pnl (Suc k)) = max (Max (drops pnl k)) (dsub (Max (cum_after pnl ` {0..Suc k})) (cum_after pnl (Suc k)))"
    unfolding max_drops_from .
  then show ?case unfolding t using Suc.IH Suc.prems by (simp add: c m Let_def)
qed

text \<open>
  The monitor reports the worst drop. The drawdown is the greatest fall of the cumulative result between
  any two points of the series, the later one after the earlier, and never negative; the verdict is warming up
  exactly below the minimum of sessions, and healthy exactly when the total is positive and the trailing
  ratio, where it is defined, is positive.
\<close>

theorem decay_status_exact:
  "let st = assess_decay sharpe not_positive pnl w m in
     dc_max_drawdown st = Max {dsub (dsum (take i pnl)) (dsum (take j pnl)) |i j. i \<le> j \<and> j \<le> length pnl} \<and>
     0 \<le> dc_max_drawdown st \<and>
     (dc_verdict st = WARMING_UP \<longleftrightarrow> int (length pnl) < m) \<and>
     (dc_verdict st = HEALTHY \<longleftrightarrow> m \<le> int (length pnl) \<and> 0 < dsum pnl \<and> \<not> (\<exists>sr. sharpe (trailing w pnl) = Some sr \<and> not_positive sr))"
proof -
  have d: "max_drawdown pnl = Max (drops pnl (length pnl))"
    using drawdown_fold [of "length pnl" pnl] by (simp add: max_drawdown_def)
  have "dsub 0 0 \<in> drops pnl (length pnl)" unfolding drops_def cum_after_def by (force simp: dsum_def)
  then have "0 \<le> max_drawdown pnl" unfolding d using finite_drops(1) [of pnl "length pnl"] by (intro Max_ge) (simp_all add: dsub_def dec28.rnd_zero)
  moreover have "drops pnl (length pnl) = {dsub (dsum (take i pnl)) (dsum (take j pnl)) |i j. i \<le> j \<and> j \<le> length pnl}"
    by (simp add: drops_def cum_after_def)
  ultimately show ?thesis using d by (auto simp: assess_decay_def Let_def not_le split: option.split)
qed

end
