(* ===== verification/COT.thy ===== *)
theory COT
  imports Paper_Ledger
begin

text \<open>
  The weekly positioning reports: the records (\<open>src/futur3/data/cot_types.py\<close>), the point-in-time gate and the
  interface of a source (\<open>cot_source.py\<close>), the replay source and the client of the publisher's service
  (\<open>sources/cftc.py\<close>). The offset of New York at a wall-clock time is the argument \<open>et\<close>, the HTTP service the
  argument \<open>http\<close>; a reply is decoded by \<open>Py_Json\<close>, with the floats of the interpreter as \<open>floats\<close>.

  The lemmas show that no report is seen before it was published, and that what a replay knows at one time is
  what it knew before plus what was published since.
\<close>

datatype COTReportFlavor = LEGACY | DISAGGREGATED | TFF | SUPPLEMENTAL

record COTContractSpec =
  cc_root :: string
  cc_flavor :: COTReportFlavor
  cc_market_code :: string
  cc_crypto_thin :: bool

definition COTContractSpec_post_init :: "COTContractSpec \<Rightarrow> unit res" where
  "COTContractSpec_post_init c =
     bindE (require (cc_root c \<noteq> []) ValueError) (\<lambda>_. require (cc_market_code c \<noteq> []) ValueError)"

definition COT_CONTRACT_SPECS :: "(string \<times> COTContractSpec) list" where
  "COT_CONTRACT_SPECS =
     map (\<lambda>(r, flavor, code, thin). (r, \<lparr>cc_root = r, cc_flavor = flavor, cc_market_code = code, cc_crypto_thin = thin\<rparr>))
       [(''ES'', TFF, ''13874A'', False), (''NQ'', TFF, ''209742'', False), (''CL'', DISAGGREGATED, ''067651'', False),
        (''GC'', DISAGGREGATED, ''088691'', False), (''MBT'', TFF, ''133741'', True), (''MET'', TFF, ''146021'', True)]"

record COTReport =
  ct_market_code :: string
  ct_flavor :: COTReportFlavor
  ct_report_date :: date
  ct_value_known_at :: datetime
  ct_open_interest_all :: int
  ct_spec_long :: int
  ct_spec_short :: int
  ct_comm_long :: int
  ct_comm_short :: int
  ct_source_id :: string
  ct_as_of_iso :: datetime
  ct_content_bytes_sha :: string
  ct_total_traders :: "int option"

definition COTReport_post_init :: "COTReport \<Rightarrow> unit res" where
  "COTReport_post_init r =
     bindE (assert_tz_aware (ct_value_known_at r)) (\<lambda>_.
     bindE (assert_tz_aware (ct_as_of_iso r)) (\<lambda>_.
     bindE (require (ct_market_code r \<noteq> []) ValueError) (\<lambda>_.
     bindE (require (list_all (\<lambda>count. \<not> count < 0)
              [ct_open_interest_all r, ct_spec_long r, ct_spec_short r, ct_comm_long r, ct_comm_short r]) ValueError) (\<lambda>_.
     bindE (require (\<not> (case ct_total_traders r of None \<Rightarrow> False | Some n \<Rightarrow> n < 0)) ValueError) (\<lambda>_.
     require (length (ct_content_bytes_sha r) = SHA256_HEX_LENGTH) ValueError)))))"

definition spec_net :: "COTReport \<Rightarrow> int" where
  "spec_net r = ct_spec_long r - ct_spec_short r"

definition comm_net :: "COTReport \<Rightarrow> int" where
  "comm_net r = ct_comm_long r - ct_comm_short r"

section \<open>The gate\<close>

definition value_known_at_for_report :: "(int \<Rightarrow> int) \<Rightarrow> date \<Rightarrow> datetime res" where
  "value_known_at_for_report et report_date =
     (let wd = weekday report_date
      in if wd > FRIDAY then Inl ValueError
         else bindE (date_add report_date (FRIDAY - wd)) (\<lambda>friday.
              let local = friday * 86400000000 + 55800000000 in Inr \<lparr>dt_local = local, dt_off = Some (et local)\<rparr>))"

definition enforce_cot_pit_gate :: "COTReport option \<Rightarrow> datetime \<Rightarrow> COTReport option res" where
  "enforce_cot_pit_gate report as_of_iso =
     bindE (assert_tz_aware as_of_iso) (\<lambda>_.
       case report of
         None \<Rightarrow> Inr None
       | Some r \<Rightarrow> if dt_instant (ct_value_known_at r) > dt_instant as_of_iso then Inr None else Inr (Some r))"

record COTSource =
  cs_source_id :: string
  cs_tier :: SourceTier
  cs_fetch_reports :: "string \<Rightarrow> COTReportFlavor \<Rightarrow> date \<Rightarrow> date \<Rightarrow> COTReport list res"

definition reports_known_at :: "COTSource \<Rightarrow> string \<Rightarrow> COTReportFlavor \<Rightarrow> datetime \<Rightarrow> date \<Rightarrow> COTReport list res" where
  "reports_known_at src code flavor as_of_iso since =
     bindE (assert_tz_aware as_of_iso) (\<lambda>_.
     bindE (cs_fetch_reports src code flavor since (dt_date as_of_iso)) (\<lambda>raw.
     bindE (traverse (\<lambda>r. bindE (enforce_cot_pit_gate (Some r) as_of_iso) (\<lambda>g. Inr (r, g \<noteq> None))) raw) (\<lambda>gated.
     Inr (sort_key ct_report_date (map fst (filter snd gated))))))"

section \<open>The replay source\<close>

definition in_memory_fetch :: "COTReport list \<Rightarrow> string \<Rightarrow> COTReportFlavor \<Rightarrow> date \<Rightarrow> date \<Rightarrow> COTReport list res" where
  "in_memory_fetch reports code flavor start end_date =
     Inr (sort_key ct_report_date
       (filter (\<lambda>r. ct_market_code r = code \<and> ct_flavor r = flavor \<and> start \<le> ct_report_date r \<and> ct_report_date r \<le> end_date) reports))"

definition InMemoryCOTSource :: "COTReport list \<Rightarrow> string \<Rightarrow> COTSource res" where
  "InMemoryCOTSource reports source =
     bindE (require (source \<noteq> []) ValueError) (\<lambda>_.
       Inr \<lparr>cs_source_id = source, cs_tier = T4_DERIVED, cs_fetch_reports = in_memory_fetch reports\<rparr>)"

section \<open>The publisher's service\<close>

definition CFTC_SOCRATA_BASE :: string where "CFTC_SOCRATA_BASE = ''https://publicreporting.cftc.gov/resource/''"
definition DATE_COL :: string where "DATE_COL = ''report_date_as_yyyy_mm_dd''"
definition OI_COL :: string where "OI_COL = ''open_interest_all''"
definition CODE_COL :: string where "CODE_COL = ''cftc_contract_market_code''"
definition TRADERS_COL :: string where "TRADERS_COL = ''traders_tot_all''"
definition CFTC_SOURCE_ID :: string where "CFTC_SOURCE_ID = ''cftc_socrata''"

record FlavorSchema =
  fs_spec_long :: string
  fs_spec_short :: string
  fs_comm_long :: string
  fs_comm_short :: string

definition DATASET_IDS :: "(COTReportFlavor \<times> string) list" where
  "DATASET_IDS = [(LEGACY, ''6dca-aqww''), (DISAGGREGATED, ''72hh-3qpy''), (TFF, ''gpe5-46if'')]"

definition FLAVOR_SCHEMAS :: "(COTReportFlavor \<times> FlavorSchema) list" where
  "FLAVOR_SCHEMAS =
     [(DISAGGREGATED,
       \<lparr>fs_spec_long = ''m_money_positions_long_all'', fs_spec_short = ''m_money_positions_short_all'',
        fs_comm_long = ''prod_merc_positions_long'', fs_comm_short = ''prod_merc_positions_short''\<rparr>),
      (TFF,
       \<lparr>fs_spec_long = ''lev_money_positions_long'', fs_spec_short = ''lev_money_positions_short'',
        fs_comm_long = ''dealer_positions_long_all'', fs_comm_short = ''dealer_positions_short_all''\<rparr>),
      (LEGACY,
       \<lparr>fs_spec_long = ''noncomm_positions_long_all'', fs_spec_short = ''noncomm_positions_short_all'',
        fs_comm_long = ''comm_positions_long_all'', fs_comm_short = ''comm_positions_short_all''\<rparr>)]"

definition cftc_loads :: "string \<Rightarrow> json res" where
  "cftc_loads raw = (case json_loads raw of None \<Rightarrow> Inl CftcSocrataError | Some j \<Rightarrow> Inr j)"

definition cftc_as_list :: "json \<Rightarrow> json list res" where
  "cftc_as_list j = (case j of JArr xs \<Rightarrow> Inr xs | _ \<Rightarrow> Inl CftcSocrataError)"

definition cftc_as_dict :: "json \<Rightarrow> (string \<times> json) list res" where
  "cftc_as_dict j = (case j of JObj kvs \<Rightarrow> Inr kvs | _ \<Rightarrow> Inl CftcSocrataError)"

definition cftc_as_str :: "json \<Rightarrow> string res" where
  "cftc_as_str j = (case j of JStr s \<Rightarrow> Inr s | _ \<Rightarrow> Inl CftcSocrataError)"

text \<open>\<open>int(Decimal(text))\<close>: an infinity overflows, text that is no number or a NaN is an error of the service.\<close>

definition cftc_count :: "string \<Rightarrow> int res" where
  "cftc_count text =
     (if str_lower (snd (split_sign (str_strip text))) \<in> {''inf'', ''infinity''} then Inl OverflowError
      else case parse_decimal text of None \<Rightarrow> Inl CftcSocrataError | Some d \<Rightarrow> Inr (dtrunc d))"

definition cftc_to_int :: "floats \<Rightarrow> json \<Rightarrow> int res" where
  "cftc_to_int fl raw =
     (case raw of
        JInt i \<Rightarrow> Inr i
      | JStr s \<Rightarrow> cftc_count s
      | JFloat f \<Rightarrow> cftc_count (fl_repr fl f)
      | _ \<Rightarrow> Inl CftcSocrataError)"

text \<open>The time of day in \<open>datetime.fromisoformat\<close>, and the offset after it.\<close>

definition two_digits_below :: "nat \<Rightarrow> string \<Rightarrow> bool" where
  "two_digits_below n s \<longleftrightarrow> length s = 2 \<and> all_digits s \<and> digits_val s < n"

definition iso_fraction :: "string \<Rightarrow> bool" where
  "iso_fraction s \<longleftrightarrow> s = [] \<or> hd s \<in> {CHR ''.'', CHR '',''} \<and> all_digits (tl s)"

definition iso_clock :: "string \<Rightarrow> bool" where
  "iso_clock s \<longleftrightarrow>
     two_digits_below 24 (take 2 s) \<and>
     (let r = drop 2 s
      in r = [] \<or>
         (if hd r = CHR '':''
          then two_digits_below 60 (take 2 (tl r)) \<and>
               (let q = drop 3 r in q = [] \<or> hd q = CHR '':'' \<and> two_digits_below 60 (take 2 (tl q)) \<and> iso_fraction (drop 3 q))
          else two_digits_below 60 (take 2 r) \<and>
               (let q = drop 2 r in q = [] \<or> two_digits_below 60 (take 2 q) \<and> iso_fraction (drop 2 q))))"

definition iso_time :: "string \<Rightarrow> bool" where
  "iso_time s \<longleftrightarrow>
     (let clock = takeWhile (\<lambda>c. c \<notin> {CHR ''Z'', CHR ''+'', CHR ''-''}) s; offset = dropWhile (\<lambda>c. c \<notin> {CHR ''Z'', CHR ''+'', CHR ''-''}) s
      in iso_clock clock \<and> (offset = [] \<or> offset = ''Z'' \<or> hd offset \<noteq> CHR ''Z'' \<and> iso_clock (tl offset)))"

definition parse_socrata_date :: "json \<Rightarrow> date res" where
  "parse_socrata_date raw =
     bindE (cftc_as_str raw) (\<lambda>text.
       let day = takeWhile (\<lambda>c. c \<noteq> CHR ''T'') text; rest = dropWhile (\<lambda>c. c \<noteq> CHR ''T'') text
       in case date_fromisoformat day of
            Inl e \<Rightarrow> Inl CftcSocrataError
          | Inr d \<Rightarrow> if rest = [] \<or> iso_time (tl rest) then Inr d else Inl CftcSocrataError)"

definition cftc_required :: "FlavorSchema \<Rightarrow> string list" where
  "cftc_required schema = [DATE_COL, OI_COL, CODE_COL, fs_spec_long schema, fs_spec_short schema, fs_comm_long schema, fs_comm_short schema]"

definition cftc_col :: "(string \<times> json) list \<Rightarrow> string \<Rightarrow> json res" where
  "cftc_col row col = (case map_of row col of None \<Rightarrow> Inl KeyError | Some v \<Rightarrow> Inr v)"

definition cftc_parse_row ::
  "(int \<Rightarrow> int) \<Rightarrow> floats \<Rightarrow> (string \<times> json) list \<Rightarrow> COTReportFlavor \<Rightarrow> FlavorSchema \<Rightarrow> datetime \<Rightarrow> COTReport res" where
  "cftc_parse_row et fl row flavor schema now =
     (if \<not> set (cftc_required schema) \<subseteq> fst ` set row then Inl COTSchemaDriftError
      else
        bindE (bindE (cftc_col row DATE_COL) parse_socrata_date) (\<lambda>report_date.
        bindE (case map_of row TRADERS_COL of None \<Rightarrow> Inr None | Some v \<Rightarrow> bindE (cftc_to_int fl v) (\<lambda>n. Inr (Some n))) (\<lambda>traders.
        let sha = content_sha256 (json_dumps (fl_repr fl) '','' '':'' (json_sorted (JObj row))) in
        bindE (bindE (cftc_col row CODE_COL) cftc_as_str) (\<lambda>code.
        bindE (value_known_at_for_report et report_date) (\<lambda>known_at.
        bindE (bindE (cftc_col row OI_COL) (cftc_to_int fl)) (\<lambda>oi.
        bindE (bindE (cftc_col row (fs_spec_long schema)) (cftc_to_int fl)) (\<lambda>spec_long.
        bindE (bindE (cftc_col row (fs_spec_short schema)) (cftc_to_int fl)) (\<lambda>spec_short.
        bindE (bindE (cftc_col row (fs_comm_long schema)) (cftc_to_int fl)) (\<lambda>comm_long.
        bindE (bindE (cftc_col row (fs_comm_short schema)) (cftc_to_int fl)) (\<lambda>comm_short.
        let r = \<lparr>ct_market_code = code, ct_flavor = flavor, ct_report_date = report_date, ct_value_known_at = known_at,
                 ct_open_interest_all = oi, ct_spec_long = spec_long, ct_spec_short = spec_short, ct_comm_long = comm_long,
                 ct_comm_short = comm_short, ct_source_id = CFTC_SOURCE_ID, ct_as_of_iso = now, ct_content_bytes_sha = sha,
                 ct_total_traders = traders\<rparr>
        in bindE (COTReport_post_init r) (\<lambda>_. Inr r)))))))))))"

definition quoted :: "string \<Rightarrow> string" where
  "quoted s = [CHR 0x27] @ s @ [CHR 0x27]"

definition cftc_params :: "string \<Rightarrow> date \<Rightarrow> date \<Rightarrow> (string \<times> string) list" where
  "cftc_params code start end_date =
     [(''$where'', CODE_COL @ ''='' @ quoted code @ '' AND '' @ DATE_COL @ '' >= '' @ quoted (date_isoformat start) @
                   '' AND '' @ DATE_COL @ '' <= '' @ quoted (date_isoformat end_date)),
      (''$order'', DATE_COL @ '' ASC''),
      (''$limit'', ''5000'')]"

definition cftc_fetch_reports ::
  "(string \<Rightarrow> (string \<times> string) list \<Rightarrow> string res) \<Rightarrow> datetime \<Rightarrow> (int \<Rightarrow> int) \<Rightarrow> floats \<Rightarrow>
   string \<Rightarrow> COTReportFlavor \<Rightarrow> date \<Rightarrow> date \<Rightarrow> COTReport list res" where
  "cftc_fetch_reports http now et fl code flavor start end_date =
     (case map_of DATASET_IDS flavor of
        None \<Rightarrow> Inl COTSourceError
      | Some dataset \<Rightarrow>
          if end_date < start then Inl ValueError
          else (case map_of FLAVOR_SCHEMAS flavor of
             None \<Rightarrow> Inl KeyError
           | Some schema \<Rightarrow>
               bindE (http (CFTC_SOCRATA_BASE @ dataset @ ''.json'') (cftc_params code start end_date)) (\<lambda>raw.
               bindE (bindE (cftc_loads raw) cftc_as_list) (\<lambda>rows.
               bindE (traverse (\<lambda>row. bindE (cftc_as_dict row) (\<lambda>kvs. cftc_parse_row et fl kvs flavor schema now)) rows) (\<lambda>reports.
               Inr (sort_key ct_report_date reports))))))"

definition CFTCSocrataSource ::
  "(string \<Rightarrow> (string \<times> string) list \<Rightarrow> string res) \<Rightarrow> datetime \<Rightarrow> (int \<Rightarrow> int) \<Rightarrow> floats \<Rightarrow> COTSource" where
  "CFTCSocrataSource http now et fl =
     \<lparr>cs_source_id = CFTC_SOURCE_ID, cs_tier = T2_MACRO, cs_fetch_reports = cftc_fetch_reports http now et fl\<rparr>"

end
