(* ===== verification/COT_Properties.thy ===== *)
theory COT_Properties
  imports COT
begin

text \<open>
  What the positioning reports promise a backtest: the view of a source at a moment holds the published reports
  and no other, two views of one replay agree on what both could know, and every row of the service carries the
  release moment of its own week.
\<close>

lemma pit_gate_iff:
  assumes "dt_aware t"
  shows "enforce_cot_pit_gate (Some r) t = Inr (if dt_instant (ct_value_known_at r) \<le> dt_instant t then Some r else None)"
  using assms by (simp add: enforce_cot_pit_gate_def assert_tz_aware_def)

lemma traverse_pure: "(\<And>x. x \<in> set xs \<Longrightarrow> f x = Inr (g x)) \<Longrightarrow> traverse f xs = Inr (map g xs)"
  by (induction xs) auto

lemma filter_snd_map: "map fst (filter snd (map (\<lambda>x. (x, P x)) xs)) = filter P xs"
  by (induction xs) auto

lemma reports_known_at_eq:
  "reports_known_at src code flavor t since =
     (if dt_aware t
      then bindE (cs_fetch_reports src code flavor since (dt_date t)) (\<lambda>raw.
             Inr (sort_key ct_report_date (filter (\<lambda>r. dt_instant (ct_value_known_at r) \<le> dt_instant t) raw)))
      else Inl ValueError)"
proof (cases "dt_aware t")
  case True
  have "traverse (\<lambda>r. bindE (enforce_cot_pit_gate (Some r) t) (\<lambda>g. Inr (r, g \<noteq> None))) raw
        = Inr (map (\<lambda>r. (r, dt_instant (ct_value_known_at r) \<le> dt_instant t)) raw)" for raw
    by (rule traverse_pure) (simp add: pit_gate_iff True)
  with True show ?thesis
    by (simp add: reports_known_at_def assert_tz_aware_def filter_snd_map)
qed (simp add: reports_known_at_def assert_tz_aware_def)

text \<open>The release moment of a report, and the blackout before it.\<close>

abbreviation stamped :: "(int \<Rightarrow> int) \<Rightarrow> COTReport \<Rightarrow> bool" where
  "stamped et r \<equiv> value_known_at_for_report et (ct_report_date r) = Inr (ct_value_known_at r)"

lemma release_moment:
  assumes "value_known_at_for_report et d = Inr k"
  shows "weekday d \<le> FRIDAY" "dt_local k = (d + (FRIDAY - weekday d)) * 86400000000 + 55800000000"
    "dt_off k = Some (et (dt_local k))" "weekday (dt_date k) = FRIDAY"
proof -
  show w: "weekday d \<le> FRIDAY"
    and l: "dt_local k = (d + (FRIDAY - weekday d)) * 86400000000 + 55800000000"
    and "dt_off k = Some (et (dt_local k))"
    using assms by (auto simp: value_known_at_for_report_def date_add_def Let_def split: if_splits)
  have "dt_date k = d + (FRIDAY - weekday d)"
    unfolding dt_date_def l by simp
  then show "weekday (dt_date k) = FRIDAY"
    by (simp add: weekday_def) presburger
qed

lemma release_after_report:
  assumes k: "value_known_at_for_report et d = Inr k" and tue: "weekday d \<le> 1"
    and known: "dt_instant k \<le> dt_instant t" and z: "dt_off t = Some z" "- 86400000000 < z"
    and et: "\<And>l. et l \<le> 0"
  shows "d \<le> dt_date t"
proof -
  have "dt_instant k = dt_local k - et (dt_local k)"
    using release_moment(3)[OF k] by (simp add: dt_instant_def)
  then have "dt_local k \<le> dt_local t - z"
    using known z(1) et[of "dt_local k"] by (simp add: dt_instant_def)
  moreover have "dt_local k \<ge> (d + 3) * 86400000000 + 55800000000"
    unfolding release_moment(2)[OF k] using tue by simp
  ultimately have "d * 86400000000 \<le> dt_local t"
    using z(2) by (simp add: algebra_simps)
  then have "(d * 86400000000) div 86400000000 \<le> dt_local t div 86400000000"
    by (rule zdiv_mono1) simp
  then show ?thesis
    by (simp add: dt_date_def)
qed

section \<open>Two views of one provider\<close>

locale cot_provider =
  fixes fetch :: "string \<Rightarrow> COTReportFlavor \<Rightarrow> date \<Rightarrow> date \<Rightarrow> COTReport list res"
  assumes fetch_total: "\<exists>rs. fetch code flavor s e = Inr rs"
    and fetch_sorted: "fetch code flavor s e = Inr rs \<Longrightarrow> sorted (map ct_report_date rs)"
    and fetch_prefix: "e' \<le> e \<Longrightarrow> fetch code flavor s e = Inr rs
           \<Longrightarrow> fetch code flavor s e' = Inr (filter (\<lambda>r. ct_report_date r \<le> e') rs)"
begin

lemma agree_on_window:
  assumes a: "fetch code flavor s e1 = Inr rs1" and b: "fetch code flavor s e2 = Inr rs2"
    and P1: "\<And>r. r \<in> set rs1 \<Longrightarrow> P r \<Longrightarrow> ct_report_date r \<le> e2"
    and P2: "\<And>r. r \<in> set rs2 \<Longrightarrow> P r \<Longrightarrow> ct_report_date r \<le> e1"
  shows "filter P rs1 = filter P rs2"
proof (cases "e1 \<le> e2")
  case True
  have "rs1 = filter (\<lambda>r. ct_report_date r \<le> e1) rs2"
    using fetch_prefix[OF True b] a by simp
  then have "filter P rs1 = filter (\<lambda>r. ct_report_date r \<le> e1 \<and> P r) rs2"
    by (simp add: conj_commute)
  also have "\<dots> = filter P rs2"
    by (rule filter_cong) (auto dest: P2)
  finally show ?thesis .
next
  case False
  then have "rs2 = filter (\<lambda>r. ct_report_date r \<le> e2) rs1"
    using fetch_prefix[OF _ a, of e2] b by simp
  then have "filter P rs2 = filter (\<lambda>r. ct_report_date r \<le> e2 \<and> P r) rs1"
    by (simp add: conj_commute)
  also have "\<dots> = filter P rs1"
    by (rule filter_cong) (auto dest: P1)
  finally show ?thesis by simp
qed

lemma views_agree:
  assumes src: "cs_fetch_reports src = fetch"
    and t1: "dt_aware t1" and t2: "dt_aware t2" and le: "dt_instant t1 \<le> dt_instant t2"
    and cover: "\<And>r rs e t. fetch code flavor since e = Inr rs \<Longrightarrow> r \<in> set rs \<Longrightarrow> t \<in> {t1, t2}
        \<Longrightarrow> dt_instant (ct_value_known_at r) \<le> dt_instant t \<Longrightarrow> ct_report_date r \<le> dt_date t"
  shows "\<exists>h2. reports_known_at src code flavor t2 since = Inr h2 \<and>
              reports_known_at src code flavor t1 since
                = Inr (filter (\<lambda>r. dt_instant (ct_value_known_at r) \<le> dt_instant t1) h2)"
proof -
  obtain rs1 where r1: "fetch code flavor since (dt_date t1) = Inr rs1"
    using fetch_total by blast
  obtain rs2 where r2: "fetch code flavor since (dt_date t2) = Inr rs2"
    using fetch_total by blast
  let ?P = "\<lambda>r. dt_instant (ct_value_known_at r) \<le> dt_instant t1"
  let ?Q = "\<lambda>r. dt_instant (ct_value_known_at r) \<le> dt_instant t2"
  have "filter ?P rs1 = filter ?P rs2"
  proof (rule agree_on_window[OF r1 r2])
    fix r assume "r \<in> set rs1" "?P r"
    then show "ct_report_date r \<le> dt_date t2"
      using cover[OF r1, of r t2] le by simp
  next
    fix r assume "r \<in> set rs2" "?P r"
    then show "ct_report_date r \<le> dt_date t1"
      using cover[OF r2, of r t1] by simp
  qed
  moreover have "filter ?P (filter ?Q rs2) = filter ?P rs2"
    using le by (simp only: filter_filter) (rule filter_cong, auto)
  ultimately have "sort_key ct_report_date (filter ?P rs1) = filter ?P (sort_key ct_report_date (filter ?Q rs2))"
    by (simp add: filter_sort)
  then show ?thesis
    using t1 t2 src r1 r2 by (auto simp: reports_known_at_eq)
qed

end

interpretation in_memory: cot_provider "in_memory_fetch reports" for reports
proof
  show "\<exists>rs. in_memory_fetch reports code flavor s e = Inr rs" for code flavor s e
    by (simp add: in_memory_fetch_def)
  show "sorted (map ct_report_date rs)" if "in_memory_fetch reports code flavor s e = Inr rs" for code flavor s e rs
    using that by (auto simp: in_memory_fetch_def)
  show "in_memory_fetch reports code flavor s e' = Inr (filter (\<lambda>r. ct_report_date r \<le> e') rs)"
    if "e' \<le> e" "in_memory_fetch reports code flavor s e = Inr rs" for code flavor s e e' rs
    using that by (auto simp: in_memory_fetch_def filter_sort intro!: arg_cong[where f = "sort_key ct_report_date"] filter_cong)
qed

section \<open>The rows of the service\<close>

lemma cftc_row_stamped:
  assumes "cftc_parse_row et fl row flavor schema now = Inr r"
  shows "stamped et r" "COTReport_post_init r = Inr ()" "ct_flavor r = flavor" "ct_as_of_iso r = now"
    "ct_source_id r = CFTC_SOURCE_ID"
  using assms by (auto simp: cftc_parse_row_def Let_def bindE_Inr_iff split: if_splits)

lemma cftc_fetch_rows:
  assumes "cftc_fetch_reports http now et fl code flavor s e = Inr rs"
  shows "sorted (map ct_report_date rs)"
    "r \<in> set rs \<Longrightarrow> \<exists>row schema. cftc_parse_row et fl row flavor schema now = Inr r"
proof -
  obtain raw schema reports where rs: "rs = sort_key ct_report_date reports"
    and tr: "traverse (\<lambda>row. bindE (cftc_as_dict row) (\<lambda>kvs. cftc_parse_row et fl kvs flavor schema now)) raw = Inr reports"
    using assms by (auto simp: cftc_fetch_reports_def bindE_Inr_iff split: option.splits if_splits)
  show "sorted (map ct_report_date rs)"
    by (simp add: rs)
  show "\<exists>row schema. cftc_parse_row et fl row flavor schema now = Inr r" if "r \<in> set rs"
  proof -
    have "r \<in> set reports"
      using that rs by simp
    then obtain row where "bindE (cftc_as_dict row) (\<lambda>kvs. cftc_parse_row et fl kvs flavor schema now) = Inr r"
      using traverse_mem_back[OF tr] by blast
    then show ?thesis
      by (auto simp: bindE_Inr_iff)
  qed
qed

lemma cftc_view:
  assumes v: "reports_known_at (CFTCSocrataSource http now et fl) code flavor t since = Inr h"
  shows "\<exists>raw. cftc_fetch_reports http now et fl code flavor since (dt_date t) = Inr raw \<and>
      h = filter (\<lambda>r. dt_instant (ct_value_known_at r) \<le> dt_instant t) raw \<and>
      (\<forall>r \<in> set raw. COTReport_post_init r = Inr () \<and> ct_flavor r = flavor \<and> weekday (ct_report_date r) \<le> FRIDAY \<and>
         dt_local (ct_value_known_at r) = (ct_report_date r + (FRIDAY - weekday (ct_report_date r))) * 86400000000 + 55800000000 \<and>
         dt_off (ct_value_known_at r) = Some (et (dt_local (ct_value_known_at r))))"
proof -
  obtain raw where raw: "cftc_fetch_reports http now et fl code flavor since (dt_date t) = Inr raw"
    and h: "h = sort_key ct_report_date (filter (\<lambda>r. dt_instant (ct_value_known_at r) \<le> dt_instant t) raw)"
    using v by (auto simp: reports_known_at_eq CFTCSocrataSource_def bindE_Inr_iff split: if_splits)
  have "sort_key ct_report_date raw = raw"
    by (rule sort_key_id_if_sorted) (rule cftc_fetch_rows(1)[OF raw])
  then have "h = filter (\<lambda>r. dt_instant (ct_value_known_at r) \<le> dt_instant t) raw"
    using h by (simp flip: filter_sort)
  moreover have "COTReport_post_init r = Inr () \<and> ct_flavor r = flavor \<and> weekday (ct_report_date r) \<le> FRIDAY \<and>
         dt_local (ct_value_known_at r) = (ct_report_date r + (FRIDAY - weekday (ct_report_date r))) * 86400000000 + 55800000000 \<and>
         dt_off (ct_value_known_at r) = Some (et (dt_local (ct_value_known_at r)))" if r: "r \<in> set raw" for r
  proof -
    obtain row schema where row: "cftc_parse_row et fl row flavor schema now = Inr r"
      using cftc_fetch_rows(2)[OF raw r] by blast
    show ?thesis
      using cftc_row_stamped[OF row] release_moment(1-3) by blast
  qed
  ultimately show ?thesis
    using raw by blast
qed

definition sample_reply :: string where
  "sample_reply = ''[{\"report_date_as_yyyy_mm_dd\":\"2024-01-02T00:00:00.000\",\"open_interest_all\":\"10\",\"cftc_contract_market_code\":\"13874A\",\"lev_money_positions_long\":\"5\",\"lev_money_positions_short\":\"3\",\"dealer_positions_long_all\":\"2\",\"dealer_positions_short_all\":\"1\"}]''"

lemma sample_loads:
  "json_loads sample_reply = Some (JArr [JObj
     [(''report_date_as_yyyy_mm_dd'', JStr ''2024-01-02T00:00:00.000''), (''open_interest_all'', JStr ''10''),
      (''cftc_contract_market_code'', JStr ''13874A''), (''lev_money_positions_long'', JStr ''5''),
      (''lev_money_positions_short'', JStr ''3''), (''dealer_positions_long_all'', JStr ''2''),
      (''dealer_positions_short_all'', JStr ''1'')]])"
  by code_simp

definition sample_row :: "(string \<times> json) list" where
  "sample_row =
     [(''report_date_as_yyyy_mm_dd'', JStr ''2024-01-02T00:00:00.000''), (''open_interest_all'', JStr ''10''),
      (''cftc_contract_market_code'', JStr ''13874A''), (''lev_money_positions_long'', JStr ''5''),
      (''lev_money_positions_short'', JStr ''3''), (''dealer_positions_long_all'', JStr ''2''),
      (''dealer_positions_short_all'', JStr ''1'')]"

definition eastern :: "int \<Rightarrow> int" where
  "eastern l = - 18000000000"

definition sample_now :: datetime where
  "sample_now = \<lparr>dt_local = 738900 * 86400000000, dt_off = Some 0\<rparr>"

definition sample_report :: COTReport where
  "sample_report = \<lparr>ct_market_code = ''13874A'', ct_flavor = TFF, ct_report_date = 738887,
     ct_value_known_at = \<lparr>dt_local = 738890 * 86400000000 + 55800000000, dt_off = Some (- 18000000000)\<rparr>,
     ct_open_interest_all = 10, ct_spec_long = 5, ct_spec_short = 3, ct_comm_long = 2, ct_comm_short = 1,
     ct_source_id = CFTC_SOURCE_ID, ct_as_of_iso = sample_now,
     ct_content_bytes_sha = content_sha256 (json_dumps (fl_repr no_floats) '','' '':'' (json_sorted (JObj sample_row))),
     ct_total_traders = None\<rparr>"

lemma count_digits:
  assumes "all_digits ds" "str_lower ds \<notin> {''inf'', ''infinity''}"
  shows "cftc_count ds = Inr (int (digits_val ds))"
  using plain_digits[OF assms(1)] parse_decimal_digits[OF assms(1)] assms(2) by (simp add: cftc_count_def dtrunc_def)

lemma sample_counts: "cftc_count ''10'' = Inr 10" "cftc_count ''5'' = Inr 5" "cftc_count ''3'' = Inr 3"
    "cftc_count ''2'' = Inr 2" "cftc_count ''1'' = Inr 1"
proof -
  have c: "all_digits ds \<Longrightarrow> str_lower ds \<notin> {''inf'', ''infinity''} \<Longrightarrow> digits_val ds = n \<Longrightarrow> cftc_count ds = Inr (int n)" for ds n
    by (simp add: count_digits)
  show "cftc_count ''10'' = Inr 10" using c[of "''10''" 10] by code_simp
  show "cftc_count ''5'' = Inr 5" using c[of "''5''" 5] by code_simp
  show "cftc_count ''3'' = Inr 3" using c[of "''3''" 3] by code_simp
  show "cftc_count ''2'' = Inr 2" using c[of "''2''" 2] by code_simp
  show "cftc_count ''1'' = Inr 1" using c[of "''1''" 1] by code_simp
qed

lemma sample_date: "parse_socrata_date (JStr ''2024-01-02T00:00:00.000'') = Inr 738887"
  by code_simp

lemma sample_known: "value_known_at_for_report eastern 738887
   = Inr \<lparr>dt_local = 738890 * 86400000000 + 55800000000, dt_off = Some (- 18000000000)\<rparr>"
  by (simp add: value_known_at_for_report_def weekday_def date_add_def max_ordinal_def eastern_def)

lemma sample_post: "COTReport_post_init sample_report = Inr ()"
  by (simp add: COTReport_post_init_def sample_report_def assert_tz_aware_def sample_now_def content_sha256_def SHA256_HEX_LENGTH_def dt_aware_def)

definition sample_schema :: FlavorSchema where
  "sample_schema = \<lparr>fs_spec_long = ''lev_money_positions_long'', fs_spec_short = ''lev_money_positions_short'',
        fs_comm_long = ''dealer_positions_long_all'', fs_comm_short = ''dealer_positions_short_all''\<rparr>"

lemma sample_columns:
  "cftc_col sample_row DATE_COL = Inr (JStr ''2024-01-02T00:00:00.000'')" "cftc_col sample_row OI_COL = Inr (JStr ''10'')"
  "cftc_col sample_row CODE_COL = Inr (JStr ''13874A'')" "map_of sample_row TRADERS_COL = None"
  "cftc_col sample_row (fs_spec_long sample_schema) = Inr (JStr ''5'')" "cftc_col sample_row (fs_spec_short sample_schema) = Inr (JStr ''3'')"
  "cftc_col sample_row (fs_comm_long sample_schema) = Inr (JStr ''2'')" "cftc_col sample_row (fs_comm_short sample_schema) = Inr (JStr ''1'')"
  "set (cftc_required sample_schema) \<subseteq> fst ` set sample_row"
  by (simp_all add: cftc_col_def sample_row_def sample_schema_def DATE_COL_def OI_COL_def CODE_COL_def TRADERS_COL_def cftc_required_def)

lemma sample_parse: "cftc_parse_row eastern no_floats sample_row TFF sample_schema sample_now = Inr sample_report"
  using sample_post unfolding cftc_parse_row_def sample_report_def
  by (simp only: sample_columns not_True_eq_False if_False bindE_simps option.case sample_date sample_known
      sample_counts cftc_to_int_def cftc_as_str_def json.case Let_def)

lemma sample_fetch:
  "cftc_fetch_reports (\<lambda>_ _. Inr sample_reply) sample_now eastern no_floats ''13874A'' TFF 738800 738893 = Inr [sample_report]"
proof -
  have "cftc_loads sample_reply = Inr (JArr [JObj sample_row])"
    by (simp add: cftc_loads_def sample_loads sample_row_def)
  moreover have "map_of FLAVOR_SCHEMAS TFF = Some sample_schema" "map_of DATASET_IDS TFF = Some ''gpe5-46if''"
    by (simp_all add: FLAVOR_SCHEMAS_def sample_schema_def DATASET_IDS_def)
  ultimately show ?thesis
    by (simp add: cftc_fetch_reports_def cftc_as_list_def cftc_as_dict_def sample_parse)
qed

definition sample_evening :: "int \<Rightarrow> datetime" where
  "sample_evening d = \<lparr>dt_local = d * 86400000000 + 82800000000, dt_off = Some 0\<rparr>"

lemma sample_view:
  "reports_known_at (CFTCSocrataSource (\<lambda>_ _. Inr sample_reply) sample_now eastern no_floats) ''13874A'' TFF (sample_evening 738893) 738800
     = Inr [sample_report]"
proof -
  have d: "dt_date (sample_evening 738893) = 738893" "dt_aware (sample_evening 738893)"
      "dt_instant (ct_value_known_at sample_report) \<le> dt_instant (sample_evening 738893)"
    by (simp_all add: sample_evening_def dt_date_def sample_report_def dt_instant_def dt_aware_def)
  show ?thesis
    using sample_fetch by (simp add: reports_known_at_eq d CFTCSocrataSource_def)
qed

section \<open>Claims\<close>

text \<open>
  C26. The blackout of the positioning reports. What a backtest sees of the publisher's service at a moment is, in
  order, exactly the fetched reports whose release moment has passed; each is a valid record of a weekday, and its
  release moment is 15:30 New York time on the Friday of its week.
\<close>

theorem cot_blackout:
  assumes "reports_known_at (CFTCSocrataSource http now et fl) code flavor t since = Inr h"
  shows "\<exists>raw. cftc_fetch_reports http now et fl code flavor since (dt_date t) = Inr raw \<and>
      h = filter (\<lambda>r. dt_instant (ct_value_known_at r) \<le> dt_instant t) raw \<and>
      (\<forall>r \<in> set raw. COTReport_post_init r = Inr () \<and> ct_flavor r = flavor \<and> weekday (ct_report_date r) \<le> FRIDAY \<and>
         dt_local (ct_value_known_at r) = (ct_report_date r + (FRIDAY - weekday (ct_report_date r))) * 86400000000 + 55800000000 \<and>
         dt_off (ct_value_known_at r) = Some (et (dt_local (ct_value_known_at r))))"
  using assms by (rule cftc_view)

theorem cot_blackout_witness:
  "\<exists>h. reports_known_at (CFTCSocrataSource (\<lambda>_ _. Inr sample_reply) sample_now eastern no_floats) ''13874A'' TFF
         (sample_evening 738893) 738800 = Inr h \<and>
       cftc_fetch_reports (\<lambda>_ _. Inr sample_reply) sample_now eastern no_floats ''13874A'' TFF 738800
         (dt_date (sample_evening 738893)) = Inr h"
proof -
  have d: "dt_date (sample_evening 738893) = 738893"
    by (simp add: sample_evening_def dt_date_def)
  show ?thesis
    using cot_blackout [OF sample_view] sample_fetch sample_view by (auto simp: d)
qed

text \<open>
  A replay is consistent in time. Of two moments, the earlier view of a replay of stamped reports is the later
  view without the reports released in between: no report is lost, none appears before its release, whatever time
  zones the moments are in.
\<close>

theorem cot_replay_consistent:
  assumes "InMemoryCOTSource reports source = Inr src"
    and "\<forall>r \<in> set reports. weekday (ct_report_date r) \<le> 1 \<and> value_known_at_for_report et (ct_report_date r) = Inr (ct_value_known_at r)"
    and "\<forall>l. et l \<le> 0"
    and "dt_off t1 = Some z1" "- 86400000000 < z1" "dt_off t2 = Some z2" "- 86400000000 < z2" "dt_instant t1 \<le> dt_instant t2"
  shows "\<exists>later. reports_known_at src code flavor t2 since = Inr later \<and>
           reports_known_at src code flavor t1 since
             = Inr (filter (\<lambda>r. dt_instant (ct_value_known_at r) \<le> dt_instant t1) later)"
proof (rule in_memory.views_agree)
  show "cs_fetch_reports src = in_memory_fetch reports"
    using assms(1) by (auto simp: InMemoryCOTSource_def bindE_Inr_iff)
  show "dt_aware t1" "dt_aware t2"
    using assms(4,6) by (simp_all add: dt_aware_def)
  show "dt_instant t1 \<le> dt_instant t2"
    by (rule assms(8))
  fix r rs e t
  assume rs: "in_memory_fetch reports code flavor since e = Inr rs" and r: "r \<in> set rs" and t: "t \<in> {t1, t2}"
    and known: "dt_instant (ct_value_known_at r) \<le> dt_instant t"
  have "r \<in> set reports"
    using rs r by (auto simp: in_memory_fetch_def)
  then have s: "stamped et r" "weekday (ct_report_date r) \<le> 1"
    using assms(2) by auto
  from t consider "t = t1" | "t = t2" by blast
  then show "ct_report_date r \<le> dt_date t"
    by cases (use release_after_report[OF s known] assms(3-7) in auto)
qed

theorem cot_replay_consistent_witness:
  "\<exists>src later. InMemoryCOTSource [sample_report] ''replay'' = Inr src \<and>
     reports_known_at src ''13874A'' TFF (sample_evening 738893) 738800 = Inr later \<and>
     reports_known_at src ''13874A'' TFF (sample_evening 738888) 738800
       = Inr (filter (\<lambda>r. dt_instant (ct_value_known_at r) \<le> dt_instant (sample_evening 738888)) later)"
proof -
  obtain src where src: "InMemoryCOTSource [sample_report] ''replay'' = Inr src"
    by (simp add: InMemoryCOTSource_def)
  have stamp: "\<forall>r \<in> set [sample_report]. weekday (ct_report_date r) \<le> 1 \<and>
      value_known_at_for_report eastern (ct_report_date r) = Inr (ct_value_known_at r)"
    using sample_known by (simp add: sample_report_def weekday_def)
  have "\<exists>later. reports_known_at src ''13874A'' TFF (sample_evening 738893) 738800 = Inr later \<and>
      reports_known_at src ''13874A'' TFF (sample_evening 738888) 738800
       = Inr (filter (\<lambda>r. dt_instant (ct_value_known_at r) \<le> dt_instant (sample_evening 738888)) later)"
    by (rule cot_replay_consistent [OF src stamp, where ?z1.0 = 0 and ?z2.0 = 0])
       (simp_all add: sample_evening_def dt_instant_def eastern_def)
  then show ?thesis
    using src by blast
qed

end
