(* ===== verification/Macro.thy ===== *)
theory Macro
  imports Py_Json Py_Iso Storage
begin

text \<open>
  Scheduled economic releases: the catalogue and the records (\<open>src/futur3/data/macro_types.py\<close>), the
  point-in-time gate, the guard of a voided release and the interface of a source (\<open>macro_source.py\<close>). A
  time of day is its number of microseconds; the offset of New York is the argument \<open>et\<close> at a wall-clock time and
  \<open>et_at\<close> at an instant.

  The locale \<open>macro_source\<close> is the contract every source keeps: what it answers was known by then.
\<close>

datatype MacroSeries =
  NFP | CPI | PPI | GDP_ADVANCE | GDP_SECOND | GDP_THIRD | PCE | RETAIL_SALES | HOUSING_STARTS | JOBLESS_CLAIMS
  | ISM_MFG | ISM_SERVICES | JOLTS | CONSUMER_CONF | FOMC_STATEMENT | FOMC_PRESS_CONF | FOMC_MINUTES | BEIGE_BOOK

definition MACRO_SERIES :: "(MacroSeries \<times> string) list" where
  "MACRO_SERIES =
     [(NFP, ''NFP''), (CPI, ''CPI''), (PPI, ''PPI''), (GDP_ADVANCE, ''GDP_ADVANCE''), (GDP_SECOND, ''GDP_SECOND''),
      (GDP_THIRD, ''GDP_THIRD''), (PCE, ''PCE''), (RETAIL_SALES, ''RETAIL_SALES''), (HOUSING_STARTS, ''HOUSING_STARTS''),
      (JOBLESS_CLAIMS, ''JOBLESS_CLAIMS''), (ISM_MFG, ''ISM_MFG''), (ISM_SERVICES, ''ISM_SERVICES''), (JOLTS, ''JOLTS''),
      (CONSUMER_CONF, ''CONSUMER_CONF''), (FOMC_STATEMENT, ''FOMC_STATEMENT''), (FOMC_PRESS_CONF, ''FOMC_PRESS_CONF''),
      (FOMC_MINUTES, ''FOMC_MINUTES''), (BEIGE_BOOK, ''BEIGE_BOOK'')]"

definition series_value :: "MacroSeries \<Rightarrow> string" where
  "series_value s = the (map_of MACRO_SERIES s)"

datatype MacroPublisher = BLS | BEA | CENSUS | DOL | FED | ISM | CONFERENCE_BOARD | FRED

definition at_time :: "int \<Rightarrow> int \<Rightarrow> int" where
  "at_time hour minute = (hour * 60 + minute) * 60000000"

definition RELEASE_TIME_ET :: "(MacroSeries \<times> int) list" where
  "RELEASE_TIME_ET =
     [(NFP, at_time 8 30), (CPI, at_time 8 30), (PPI, at_time 8 30), (GDP_ADVANCE, at_time 8 30), (GDP_SECOND, at_time 8 30),
      (GDP_THIRD, at_time 8 30), (PCE, at_time 8 30), (RETAIL_SALES, at_time 8 30), (HOUSING_STARTS, at_time 8 30),
      (JOBLESS_CLAIMS, at_time 8 30), (ISM_MFG, at_time 10 0), (ISM_SERVICES, at_time 10 0), (JOLTS, at_time 10 0),
      (CONSUMER_CONF, at_time 10 0), (FOMC_STATEMENT, at_time 14 0), (FOMC_PRESS_CONF, at_time 14 30),
      (FOMC_MINUTES, at_time 14 0), (BEIGE_BOOK, at_time 14 0)]"

definition release_time :: "MacroSeries \<Rightarrow> int" where
  "release_time s = the (map_of RELEASE_TIME_ET s)"

text \<open>\<open>datetime.combine(day, RELEASE_TIME_ET[series], tzinfo=ET)\<close>.\<close>

definition release_at :: "(int \<Rightarrow> int) \<Rightarrow> MacroSeries \<Rightarrow> date \<Rightarrow> datetime" where
  "release_at et s day =
     (let local = day * 86400000000 + release_time s in \<lparr>dt_local = local, dt_off = Some (et local)\<rparr>)"

text \<open>\<open>astimezone\<close>: the zone gives the offset at an instant.\<close>

definition astimezone :: "(int \<Rightarrow> int) \<Rightarrow> datetime \<Rightarrow> datetime res" where
  "astimezone et_at t =
     bindE (to_utc t) (\<lambda>u. dt_add \<lparr>dt_local = dt_local u, dt_off = Some (et_at (dt_local u))\<rparr> (et_at (dt_local u)))"

record MacroEvent =
  me_event_id :: string
  me_series :: MacroSeries
  me_publisher :: MacroPublisher
  me_release_date :: date
  me_release_time_et :: datetime
  me_source_url :: string
  me_originally_scheduled_release_time_et :: datetime
  me_content_bytes_sha :: string
  me_embargo_window_min :: int
  me_actual_publication_iso :: "datetime option"

definition aware_if_set :: "datetime option \<Rightarrow> unit res" where
  "aware_if_set t = (case t of None \<Rightarrow> Inr () | Some d \<Rightarrow> assert_tz_aware d)"

definition MacroEvent_post_init :: "MacroEvent \<Rightarrow> unit res" where
  "MacroEvent_post_init e =
     bindE (assert_tz_aware (me_release_time_et e)) (\<lambda>_.
     bindE (assert_tz_aware (me_originally_scheduled_release_time_et e)) (\<lambda>_.
     bindE (aware_if_set (me_actual_publication_iso e)) (\<lambda>_.
     bindE (require (me_event_id e \<noteq> []) ValueError) (\<lambda>_.
     bindE (require (me_source_url e \<noteq> []) ValueError) (\<lambda>_.
     bindE (require (\<not> me_embargo_window_min e < 0) ValueError) (\<lambda>_.
     require (length (me_content_bytes_sha e) = SHA256_HEX_LENGTH) ValueError))))))"

definition is_published :: "MacroEvent \<Rightarrow> bool" where
  "is_published e \<longleftrightarrow> me_actual_publication_iso e \<noteq> None"

record MacroValue =
  mv_event_id :: string
  mv_series :: MacroSeries
  mv_as_of_date :: date
  mv_value_known_at :: datetime
  mv_source_id :: string
  mv_as_of_iso :: datetime
  mv_content_bytes_sha :: string
  mv_value :: "decimal option"
  mv_is_shutdown_void :: bool
  mv_vintage_as_of :: "date option"

text \<open>A decimal of the model is finite.\<close>

definition MacroValue_post_init :: "MacroValue \<Rightarrow> unit res" where
  "MacroValue_post_init v =
     bindE (assert_tz_aware (mv_value_known_at v)) (\<lambda>_.
     bindE (assert_tz_aware (mv_as_of_iso v)) (\<lambda>_.
     bindE (require (mv_event_id v \<noteq> []) ValueError) (\<lambda>_.
     bindE (if mv_is_shutdown_void v then require (mv_value v = None) ValueError else require (mv_value v \<noteq> None) ValueError) (\<lambda>_.
     require (length (mv_content_bytes_sha v) = SHA256_HEX_LENGTH) ValueError))))"

datatype DriftKind = MOVED | CANCELLED | ADDED

record ScheduleDrift =
  sd_series :: MacroSeries
  sd_event_id :: string
  sd_kind :: DriftKind
  sd_stored_release_time_et :: "datetime option"
  sd_current_release_time_et :: "datetime option"

definition ScheduleDrift_post_init :: "ScheduleDrift \<Rightarrow> unit res" where
  "ScheduleDrift_post_init d =
     bindE (require (sd_event_id d \<noteq> []) ValueError) (\<lambda>_.
     bindE (aware_if_set (sd_stored_release_time_et d)) (\<lambda>_.
     bindE (aware_if_set (sd_current_release_time_et d)) (\<lambda>_.
     bindE (require (\<not> (sd_kind d = CANCELLED \<and> sd_current_release_time_et d \<noteq> None)) ValueError) (\<lambda>_.
     bindE (require (\<not> (sd_kind d = ADDED \<and> sd_stored_release_time_et d \<noteq> None)) ValueError) (\<lambda>_.
     require (\<not> (sd_kind d = MOVED \<and> (sd_stored_release_time_et d = None \<or> sd_current_release_time_et d = None))) ValueError)))))"

definition enforce_pit_gate :: "MacroValue option \<Rightarrow> datetime \<Rightarrow> MacroValue option res" where
  "enforce_pit_gate v as_of_iso =
     bindE (assert_tz_aware as_of_iso) (\<lambda>_.
       case v of
         None \<Rightarrow> Inr None
       | Some mv \<Rightarrow> if dt_instant (mv_value_known_at mv) > dt_instant as_of_iso then Inr None else Inr (Some mv))"

definition require_value :: "MacroValue \<Rightarrow> decimal res" where
  "require_value mv =
     (if mv_is_shutdown_void mv then Inl ShutdownVoidError
      else case mv_value mv of None \<Rightarrow> Inl ShutdownVoidError | Some d \<Rightarrow> Inr d)"

record MacroEventSource =
  ms_source_id :: string
  ms_tier :: SourceTier
  ms_upcoming_events :: "datetime \<Rightarrow> datetime \<Rightarrow> MacroEvent list res"
  ms_fetch_value :: "string \<Rightarrow> datetime \<Rightarrow> MacroValue option res"

definition schedule_drift_check :: "MacroEventSource \<Rightarrow> ScheduleDrift list" where
  "schedule_drift_check src = []"

text \<open>The series an event id belongs to: the longest name first.\<close>

definition SERIES_BY_LENGTH :: "MacroSeries list" where
  "SERIES_BY_LENGTH = sort_key (\<lambda>s. - int (length (series_value s))) (map fst MACRO_SERIES)"

definition series_from_event_id :: "string \<Rightarrow> MacroSeries option" where
  "series_from_event_id event_id =
     List.find (\<lambda>s. event_id = series_value s \<or> has_prefix (series_value s @ ''_'') event_id) SERIES_BY_LENGTH"

end
