(* ===== verification/Macro_Sources.thy ===== *)
theory Macro_Sources
  imports Macro
begin

text \<open>
  The two sources of economic releases: the vintage archive a backtest reads
  (\<open>src/futur3/data/sources/fred_macro.py\<close>) and the service that is polled on the day
  (\<open>sources/bls_macro.py\<close>). The HTTP client is an argument, the page a text; the parsing helpers that the two
  modules repeat differ in the exception they raise, which is their first argument.
\<close>

section \<open>Guards on decoded JSON\<close>

definition as_obj :: "exn \<Rightarrow> string \<Rightarrow> (string \<times> json) list res" where
  "as_obj err raw = (case json_loads raw of None \<Rightarrow> Inl err | Some data \<Rightarrow> (case data of JObj kvs \<Rightarrow> Inr kvs | _ \<Rightarrow> Inl err))"

definition as_list :: "exn \<Rightarrow> json option \<Rightarrow> json list res" where
  "as_list err obj = (case obj of Some (JArr xs) \<Rightarrow> Inr xs | _ \<Rightarrow> Inl err)"

definition as_dict :: "exn \<Rightarrow> json option \<Rightarrow> (string \<times> json) list res" where
  "as_dict err obj = (case obj of Some (JObj kvs) \<Rightarrow> Inr kvs | _ \<Rightarrow> Inl err)"

definition as_str :: "exn \<Rightarrow> json option \<Rightarrow> string res" where
  "as_str err obj = (case obj of Some (JStr s) \<Rightarrow> Inr s | _ \<Rightarrow> Inl err)"

definition macro_decimal :: "exn \<Rightarrow> string \<Rightarrow> decimal res" where
  "macro_decimal err raw_value = (case parse_decimal raw_value of None \<Rightarrow> Inl err | Some d \<Rightarrow> Inr d)"

definition fred_date :: "string \<Rightarrow> date res" where
  "fred_date raw_date = (case date_fromisoformat raw_date of Inl e \<Rightarrow> Inl FredMacroError | Inr d \<Rightarrow> Inr d)"

section \<open>The vintage archive\<close>

definition FRED_API_BASE :: string where "FRED_API_BASE = ''https://api.stlouisfed.org/fred/''"
definition FRED_MISSING_VALUE :: string where "FRED_MISSING_VALUE = ''.''"
definition OBS_LOOKBACK_LIMIT :: int where "OBS_LOOKBACK_LIMIT = 12"
definition FRED_SOURCE_ID :: string where "FRED_SOURCE_ID = ''fred_alfred''"

definition FRED_SERIES_MAP :: "(MacroSeries \<times> string) list" where
  "FRED_SERIES_MAP =
     [(NFP, ''PAYEMS''), (CPI, ''CPIAUCSL''), (PPI, ''PPIFIS''), (GDP_ADVANCE, ''GDPC1''), (PCE, ''PCEPI''),
      (RETAIL_SALES, ''RSAFS''), (HOUSING_STARTS, ''HOUST''), (JOBLESS_CLAIMS, ''ICSA''), (JOLTS, ''JTSJOL'')]"

definition SERIES_PUBLISHER :: "(MacroSeries \<times> MacroPublisher) list" where
  "SERIES_PUBLISHER =
     [(NFP, BLS), (CPI, BLS), (PPI, BLS), (GDP_ADVANCE, BEA), (PCE, BEA), (RETAIL_SALES, CENSUS),
      (HOUSING_STARTS, CENSUS), (JOBLESS_CLAIMS, DOL), (JOLTS, BLS)]"

text \<open>The first observation with a value; \<open>None\<close> when every one is missing.\<close>

fun first_observation :: "json list \<Rightarrow> (string \<times> json) list option res" where
  "first_observation [] = Inr None"
| "first_observation (obs_obj # rest) =
     bindE (as_dict FredMacroError (Some obs_obj)) (\<lambda>obs.
       if map_of obs ''value'' \<in> {None, Some JNull, Some (JStr FRED_MISSING_VALUE)} then first_observation rest
       else Inr (Some obs))"

definition fred_query :: "string \<Rightarrow> date \<Rightarrow> (string \<times> string) list" where
  "fred_query series_id as_of_date =
     [(''series_id'', series_id), (''realtime_start'', date_isoformat as_of_date),
      (''realtime_end'', date_isoformat as_of_date), (''sort_order'', ''desc''), (''limit'', show_int OBS_LOOKBACK_LIMIT)]"

type_synonym fred_http = "string \<Rightarrow> (string \<times> string) list \<Rightarrow> string res"

definition fred_observation :: "fred_http \<Rightarrow> string \<Rightarrow> date \<Rightarrow> (string \<times> (string \<times> json) list option) res" where
  "fred_observation http series_id as_of_date =
     bindE (http ''series/observations'' (fred_query series_id as_of_date)) (\<lambda>raw.
     bindE (bindE (as_obj FredMacroError raw) (\<lambda>o1. as_list FredMacroError (map_of o1 ''observations''))) (\<lambda>observations.
     bindE (first_observation observations) (\<lambda>chosen. Inr (raw, chosen))))"

definition fred_value ::
  "(int \<Rightarrow> int) \<Rightarrow> string \<Rightarrow> MacroSeries \<Rightarrow> datetime \<Rightarrow> date \<Rightarrow> string \<Rightarrow> (string \<times> json) list \<Rightarrow> MacroValue res" where
  "fred_value et event_id series as_of_iso as_of_date raw obs =
     bindE (bindE (as_str FredMacroError (map_of obs ''value'')) (macro_decimal FredMacroError)) (\<lambda>value.
     bindE (bindE (as_str FredMacroError (map_of obs ''date'')) fred_date) (\<lambda>ref_date.
     bindE (bindE (as_str FredMacroError (map_of obs ''realtime_start'')) fred_date) (\<lambda>published.
     let mv = \<lparr>mv_event_id = event_id, mv_series = series, mv_as_of_date = ref_date,
               mv_value_known_at = release_at et series published, mv_source_id = FRED_SOURCE_ID,
               mv_as_of_iso = as_of_iso, mv_content_bytes_sha = content_sha256 raw, mv_value = Some value,
               mv_is_shutdown_void = False, mv_vintage_as_of = Some as_of_date\<rparr>
     in bindE (MacroValue_post_init mv) (\<lambda>_. Inr mv))))"

definition fred_fetch_value ::
  "fred_http \<Rightarrow> (int \<Rightarrow> int) \<Rightarrow> (int \<Rightarrow> int) \<Rightarrow> string \<Rightarrow> datetime \<Rightarrow> MacroValue option res" where
  "fred_fetch_value http et et_at event_id as_of_iso =
     bindE (assert_tz_aware as_of_iso) (\<lambda>_.
       case series_from_event_id event_id of
         None \<Rightarrow> Inr None
       | Some series \<Rightarrow>
           (case map_of FRED_SERIES_MAP series of
              None \<Rightarrow> Inr None
            | Some series_id \<Rightarrow>
                bindE (astimezone et_at as_of_iso) (\<lambda>ny.
                let as_of_date = dt_date ny in
                bindE (fred_observation http series_id as_of_date) (\<lambda>(raw, chosen).
                  case chosen of
                    None \<Rightarrow> Inr None
                  | Some obs \<Rightarrow>
                      bindE (fred_value et event_id series as_of_iso as_of_date raw obs) (\<lambda>mv.
                      enforce_pit_gate (Some mv) as_of_iso)))))"

text \<open>The release a series belongs to: the text of its number, a Boolean being one, and its link.\<close>

definition resolve_release :: "fred_http \<Rightarrow> string \<Rightarrow> (string \<times> string option) res" where
  "resolve_release http fred_series_id =
     bindE (http ''series/release'' [(''series_id'', fred_series_id)]) (\<lambda>raw.
     bindE (bindE (as_obj FredMacroError raw) (\<lambda>o1. as_list FredMacroError (map_of o1 ''releases''))) (\<lambda>releases.
       if releases = [] then Inl FredMacroError
       else bindE (as_dict FredMacroError (Some (hd releases))) (\<lambda>first.
              bindE (case map_of first ''id'' of
                       Some (JInt i) \<Rightarrow> Inr (show_int i)
                     | Some (JBool b) \<Rightarrow> Inr (if b then ''True'' else ''False'')
                     | _ \<Rightarrow> Inl FredMacroError) (\<lambda>rid.
              Inr (rid, case map_of first ''link'' of Some (JStr s) \<Rightarrow> Some s | _ \<Rightarrow> None)))))"

definition fred_event_id :: "MacroSeries \<Rightarrow> date \<Rightarrow> string" where
  "fred_event_id series rd_date =
     series_value series @ ''_'' @ show_int (year_of rd_date) @ ''_'' @ zpad 2 (nat (month_of rd_date))"

definition fred_event ::
  "(int \<Rightarrow> int) \<Rightarrow> string \<Rightarrow> (string \<times> string option) \<Rightarrow> MacroSeries \<Rightarrow> date \<Rightarrow> MacroEvent" where
  "fred_event et page_sha release series rd_date =
     \<lparr>me_event_id = fred_event_id series rd_date, me_series = series, me_publisher = the (map_of SERIES_PUBLISHER series),
      me_release_date = rd_date, me_release_time_et = release_at et series rd_date,
      me_source_url = (case snd release of
           Some link \<Rightarrow> if link = [] then FRED_API_BASE @ ''release/dates?release_id='' @ fst release else link
         | None \<Rightarrow> FRED_API_BASE @ ''release/dates?release_id='' @ fst release),
      me_originally_scheduled_release_time_et = release_at et series rd_date,
      me_content_bytes_sha = content_sha256 (page_sha @ ''||'' @ fred_event_id series rd_date),
      me_embargo_window_min = 5, me_actual_publication_iso = None\<rparr>"

definition fred_release_date ::
  "(int \<Rightarrow> int) \<Rightarrow> datetime \<Rightarrow> datetime \<Rightarrow> string \<Rightarrow> (string \<times> string option) \<Rightarrow> MacroSeries \<Rightarrow> json \<Rightarrow> MacroEvent option res" where
  "fred_release_date et start end_iso page_sha release series rd_obj =
     bindE (as_dict FredMacroError (Some rd_obj)) (\<lambda>rd.
     bindE (bindE (as_str FredMacroError (map_of rd ''date'')) fred_date) (\<lambda>rd_date.
     let release_dt = release_at et series rd_date in
     if \<not> (dt_instant start \<le> dt_instant release_dt \<and> dt_instant release_dt < dt_instant end_iso) then Inr None
     else let e = fred_event et page_sha release series rd_date
          in bindE (MacroEvent_post_init e) (\<lambda>_. Inr (Some e))))"

definition fred_series_events ::
  "fred_http \<Rightarrow> (int \<Rightarrow> int) \<Rightarrow> datetime \<Rightarrow> datetime \<Rightarrow> date \<Rightarrow> date \<Rightarrow> MacroSeries \<times> string \<Rightarrow> MacroEvent list res" where
  "fred_series_events http et start end_iso start_date end_date entry =
     (case entry of (series, fred_series_id) \<Rightarrow>
        bindE (resolve_release http fred_series_id) (\<lambda>release.
        bindE (http ''release/dates''
                 [(''release_id'', fst release), (''realtime_start'', date_isoformat start_date),
                  (''realtime_end'', date_isoformat end_date), (''include_release_dates_with_no_data'', ''true''),
                  (''sort_order'', ''asc'')]) (\<lambda>raw.
        bindE (bindE (as_obj FredMacroError raw) (\<lambda>o1. as_list FredMacroError (map_of o1 ''release_dates''))) (\<lambda>release_dates.
        bindE (traverse (fred_release_date et start end_iso (content_sha256 raw) release series) release_dates) (\<lambda>found.
        Inr (List.map_filter id found))))))"

definition fred_upcoming_events ::
  "fred_http \<Rightarrow> (int \<Rightarrow> int) \<Rightarrow> (int \<Rightarrow> int) \<Rightarrow> datetime \<Rightarrow> datetime \<Rightarrow> MacroEvent list res" where
  "fred_upcoming_events http et et_at start end_iso =
     bindE (assert_tz_aware start) (\<lambda>_.
     bindE (assert_tz_aware end_iso) (\<lambda>_.
     bindE (require (\<not> dt_instant end_iso \<le> dt_instant start) ValueError) (\<lambda>_.
     bindE (astimezone et_at start) (\<lambda>s.
     bindE (astimezone et_at end_iso) (\<lambda>e.
     bindE (traverse (fred_series_events http et start end_iso (dt_date s) (dt_date e)) FRED_SERIES_MAP) (\<lambda>events.
     Inr (sort_key (\<lambda>e. dt_local (me_release_time_et e))
            (sort_key (\<lambda>e. series_value (me_series e)) (concat events)))))))))"

definition FredMacroSource :: "fred_http \<Rightarrow> (int \<Rightarrow> int) \<Rightarrow> (int \<Rightarrow> int) \<Rightarrow> MacroEventSource" where
  "FredMacroSource http et et_at =
     \<lparr>ms_source_id = FRED_SOURCE_ID, ms_tier = T3_AGGREGATOR, ms_upcoming_events = fred_upcoming_events http et et_at,
      ms_fetch_value = fred_fetch_value http et et_at\<rparr>"

section \<open>The service of the day\<close>

definition BLS_SUCCESS :: string where "BLS_SUCCESS = ''REQUEST_SUCCEEDED''"
definition MONTHLY_PERIOD_LEN :: nat where "MONTHLY_PERIOD_LEN = 3"
definition MONTHS_IN_YEAR :: int where "MONTHS_IN_YEAR = 12"
definition BLS_SOURCE_ID :: string where "BLS_SOURCE_ID = ''bls_api_v2''"

definition BLS_SERIES_MAP :: "(MacroSeries \<times> string) list" where
  "BLS_SERIES_MAP = [(NFP, ''CES0000000001''), (CPI, ''CUUR0000SA0''), (PPI, ''WPSFD4'')]"

definition is_monthly_period :: "string \<Rightarrow> bool" where
  "is_monthly_period period \<longleftrightarrow>
     length period = MONTHLY_PERIOD_LEN \<and> hd period = CHR ''M'' \<and> all_digits (tl period) \<and>
     1 \<le> int (digits_val (tl period)) \<and> int (digits_val (tl period)) \<le> MONTHS_IN_YEAR"

definition is_blank_value :: "json option \<Rightarrow> bool" where
  "is_blank_value v \<longleftrightarrow>
     (case v of
        None \<Rightarrow> True
      | Some JNull \<Rightarrow> True
      | Some (JStr s) \<Rightarrow> str_strip s \<in> {'''', ''-'', ''.''}
      | _ \<Rightarrow> False)"

definition conservative_publication_bound :: "(int \<Rightarrow> int) \<Rightarrow> MacroSeries \<Rightarrow> date \<Rightarrow> datetime res" where
  "conservative_publication_bound et series ref_date =
     (let pub_year = (if month_of ref_date = MONTHS_IN_YEAR then year_of ref_date + 1 else year_of ref_date);
          pub_month = (if month_of ref_date = MONTHS_IN_YEAR then 1 else month_of ref_date + 1)
      in bindE (mk_date pub_year pub_month (days_in_month pub_year pub_month)) (\<lambda>last_day.
         Inr (release_at et series last_day)))"

definition extract_data_points :: "(string \<times> json) list \<Rightarrow> json list res" where
  "extract_data_points payload =
     (case map_of payload ''Results'' of
        Some (JArr []) \<Rightarrow> Inr []
      | results_obj \<Rightarrow>
          bindE (as_dict BlsMacroError (case results_obj of Some (JArr (r # rs)) \<Rightarrow> Some r | obj \<Rightarrow> obj)) (\<lambda>results.
          bindE (as_list BlsMacroError (map_of results ''series'')) (\<lambda>series_list.
            if series_list = [] then Inr []
            else bindE (as_dict BlsMacroError (Some (hd series_list))) (\<lambda>s.
                 as_list BlsMacroError (map_of s ''data'')))))"

fun latest_monthly_point :: "json list \<Rightarrow> (string \<times> json) list option res" where
  "latest_monthly_point [] = Inr None"
| "latest_monthly_point (dp_obj # rest) =
     bindE (as_dict BlsMacroError (Some dp_obj)) (\<lambda>dp.
     bindE (as_str BlsMacroError (map_of dp ''period'')) (\<lambda>period.
       if \<not> is_monthly_period period then latest_monthly_point rest
       else if is_blank_value (map_of dp ''value'') then latest_monthly_point rest
       else Inr (Some dp)))"

type_synonym release_lookup = "MacroSeries \<Rightarrow> date \<Rightarrow> datetime option res"

definition bls_point :: "(string \<Rightarrow> string res) \<Rightarrow> string \<Rightarrow> (string \<times> (string \<times> json) list option) res" where
  "bls_point http series_id =
     bindE (http series_id) (\<lambda>raw.
     bindE (as_obj BlsMacroError raw) (\<lambda>payload.
     bindE (require (map_of payload ''status'' = Some (JStr BLS_SUCCESS)) BlsMacroError) (\<lambda>_.
     bindE (bindE (extract_data_points payload) latest_monthly_point) (\<lambda>chosen. Inr (raw, chosen)))))"

definition bls_value ::
  "release_lookup option \<Rightarrow> (int \<Rightarrow> int) \<Rightarrow> string \<Rightarrow> MacroSeries \<Rightarrow> datetime \<Rightarrow> string \<Rightarrow> (string \<times> json) list \<Rightarrow> MacroValue res" where
  "bls_value lookup et event_id series as_of_iso raw dp =
     bindE (as_str BlsMacroError (map_of dp ''year'')) (\<lambda>year_str.
     bindE (require (all_digits year_str) BlsMacroError) (\<lambda>_.
     bindE (as_str BlsMacroError (map_of dp ''period'')) (\<lambda>period.
     bindE (mk_date (int (digits_val year_str)) (int (digits_val (tl period))) 1) (\<lambda>ref_date.
     bindE (bindE (as_str BlsMacroError (map_of dp ''value'')) (macro_decimal BlsMacroError)) (\<lambda>value.
     bindE (case lookup of None \<Rightarrow> Inr None | Some f \<Rightarrow> f series ref_date) (\<lambda>release_dt.
     bindE (case release_dt of Some t \<Rightarrow> Inr t | None \<Rightarrow> conservative_publication_bound et series ref_date) (\<lambda>known_at.
     let mv = \<lparr>mv_event_id = event_id, mv_series = series, mv_as_of_date = ref_date,
               mv_value_known_at = known_at, mv_source_id = BLS_SOURCE_ID, mv_as_of_iso = as_of_iso,
               mv_content_bytes_sha = content_sha256 raw, mv_value = Some value,
               mv_is_shutdown_void = False, mv_vintage_as_of = None\<rparr>
     in bindE (MacroValue_post_init mv) (\<lambda>_. Inr mv))))))))"

definition bls_fetch_value ::
  "(string \<Rightarrow> string res) \<Rightarrow> release_lookup option \<Rightarrow> (int \<Rightarrow> int) \<Rightarrow> string \<Rightarrow> datetime \<Rightarrow> MacroValue option res" where
  "bls_fetch_value http lookup et event_id as_of_iso =
     bindE (assert_tz_aware as_of_iso) (\<lambda>_.
       case series_from_event_id event_id of
         None \<Rightarrow> Inr None
       | Some series \<Rightarrow>
           (case map_of BLS_SERIES_MAP series of
              None \<Rightarrow> Inr None
            | Some series_id \<Rightarrow>
                bindE (bls_point http series_id) (\<lambda>(raw, chosen).
                  case chosen of
                    None \<Rightarrow> Inr None
                  | Some dp \<Rightarrow>
                      bindE (bls_value lookup et event_id series as_of_iso raw dp) (\<lambda>mv.
                      enforce_pit_gate (Some mv) as_of_iso))))"

definition bls_upcoming_events :: "datetime \<Rightarrow> datetime \<Rightarrow> MacroEvent list res" where
  "bls_upcoming_events start end_iso =
     bindE (assert_tz_aware start) (\<lambda>_.
     bindE (assert_tz_aware end_iso) (\<lambda>_.
     bindE (require (\<not> dt_instant end_iso \<le> dt_instant start) ValueError) (\<lambda>_. Inr [])))"

definition BlsMacroSource :: "(string \<Rightarrow> string res) \<Rightarrow> release_lookup option \<Rightarrow> (int \<Rightarrow> int) \<Rightarrow> MacroEventSource" where
  "BlsMacroSource http lookup et =
     \<lparr>ms_source_id = BLS_SOURCE_ID, ms_tier = T2_MACRO, ms_upcoming_events = bls_upcoming_events,
      ms_fetch_value = bls_fetch_value http lookup et\<rparr>"

end
