(* ===== verification/Macro_Properties.thy ===== *)
theory Macro_Properties
  imports Macro_Sources
begin

text \<open>
  What the sources of economic releases promise: the contract of a source as a locale, with the archive and the
  service of the day as its instances; the stability of an answer due a day; the calendar of the archive; and
  the bound the service falls back on.
\<close>

section \<open>Event ids\<close>

lemma series_by_length:
  "SERIES_BY_LENGTH = [FOMC_PRESS_CONF, HOUSING_STARTS, JOBLESS_CLAIMS, FOMC_STATEMENT, CONSUMER_CONF, RETAIL_SALES,
     ISM_SERVICES, FOMC_MINUTES, GDP_ADVANCE, GDP_SECOND, BEIGE_BOOK, GDP_THIRD, ISM_MFG, JOLTS, NFP, CPI, PPI, PCE]"
  by code_simp

lemma event_id_series: "series_from_event_id (series_value s @ ''_'' @ rest) = Some s"
  by (cases s) (simp_all add: series_from_event_id_def series_by_length series_value_def MACRO_SERIES_def has_prefix_def)

lemma series_value_ne: "series_value s \<noteq> []"
  by (cases s) (simp_all add: series_value_def MACRO_SERIES_def)

section \<open>The contract of a source\<close>


lemma gate_Some:
  "enforce_pit_gate (Some mv) t = Inr (Some v) \<longleftrightarrow>
     dt_aware t \<and> v = mv \<and> dt_instant (mv_value_known_at mv) \<le> dt_instant t"
  by (auto simp: enforce_pit_gate_def assert_tz_aware_def res_simps)

lemma fred_fetch_Some:
  "fred_fetch_value http et et_at i t = Inr (Some v) \<longleftrightarrow>
     (\<exists>series sid ny raw obs. dt_aware t \<and> series_from_event_id i = Some series \<and> map_of FRED_SERIES_MAP series = Some sid \<and>
        astimezone et_at t = Inr ny \<and> fred_observation http sid (dt_date ny) = Inr (raw, Some obs) \<and>
        fred_value et i series t (dt_date ny) raw obs = Inr v \<and> dt_instant (mv_value_known_at v) \<le> dt_instant t)"
  unfolding fred_fetch_value_def
  by (auto simp: bindE_Inr_iff assert_tz_aware_def require_iff gate_Some Let_def split: option.splits prod.splits)

lemma bls_fetch_Some:
  "bls_fetch_value http lookup et i t = Inr (Some v) \<longleftrightarrow>
     (\<exists>series sid raw dp. dt_aware t \<and> series_from_event_id i = Some series \<and> map_of BLS_SERIES_MAP series = Some sid \<and>
        bls_point http sid = Inr (raw, Some dp) \<and>
        bls_value lookup et i series t raw dp = Inr v \<and> dt_instant (mv_value_known_at v) \<le> dt_instant t)"
  unfolding bls_fetch_value_def
  by (auto simp: bindE_Inr_iff assert_tz_aware_def require_iff gate_Some Let_def split: option.splits prod.splits)

lemma fred_value_fields:
  assumes "fred_value et i s t d raw obs = Inr v"
  shows "MacroValue_post_init v = Inr ()" "mv_event_id v = i" "mv_series v = s" "mv_as_of_iso v = t" "\<not> mv_is_shutdown_void v"
    "mv_vintage_as_of v = Some d" "mv_content_bytes_sha v = content_sha256 raw"
  using assms by (auto simp: fred_value_def Let_def bindE_Inr_iff)





section \<open>A day of the archive\<close>

lemma post_init_as_of:
  assumes "MacroValue_post_init v = Inr ()" "dt_aware t"
  shows "MacroValue_post_init (v\<lparr>mv_as_of_iso := t\<rparr>) = Inr ()"
  using assms by (auto simp: MacroValue_post_init_def assert_tz_aware_def res_simps)

lemma fred_value_as_of:
  assumes "fred_value et i s t d raw obs = Inr v" "dt_aware t'"
  shows "fred_value et i s t' d raw obs = Inr (v\<lparr>mv_as_of_iso := t'\<rparr>)"
  using assms post_init_as_of[of v t'] fred_value_fields(1)[OF assms(1)]
  by (auto simp: fred_value_def Let_def bindE_Inr_iff)

lemma fred_stable:
  assumes v: "fred_fetch_value http et et_at i t = Inr (Some v)"
    and day: "astimezone et_at t = Inr n" "astimezone et_at t' = Inr n'" "dt_date n = dt_date n'"
    and later: "dt_instant t \<le> dt_instant t'" "dt_aware t'"
  shows "fred_fetch_value http et et_at i t' = Inr (Some (v\<lparr>mv_as_of_iso := t'\<rparr>))"
proof -
  obtain series sid raw obs where s: "series_from_event_id i = Some series" "map_of FRED_SERIES_MAP series = Some sid"
      "fred_observation http sid (dt_date n) = Inr (raw, Some obs)" "fred_value et i series t (dt_date n) raw obs = Inr v"
      "dt_instant (mv_value_known_at v) \<le> dt_instant t"
    using v day(1) by (auto simp: fred_fetch_Some)
  have "fred_value et i series t' (dt_date n') raw obs = Inr (v\<lparr>mv_as_of_iso := t'\<rparr>)"
    using fred_value_as_of[OF s(4) later(2)] day(3) by simp
  moreover have "dt_instant (mv_value_known_at (v\<lparr>mv_as_of_iso := t'\<rparr>)) \<le> dt_instant t'"
    using s(5) later(1) by simp
  ultimately show ?thesis
    using s(1-3) day later(2) unfolding fred_fetch_Some by metis
qed

section \<open>The calendar of the archive\<close>

lemma content_sha_length [simp]: "length (content_sha256 s) = SHA256_HEX_LENGTH"
  by (simp add: content_sha256_def SHA256_HEX_LENGTH_def)

lemma fred_event_valid: "MacroEvent_post_init (fred_event et sha rel s d) = Inr ()"
  by (simp add: MacroEvent_post_init_def fred_event_def assert_tz_aware_def dt_aware_def release_at_def Let_def
      aware_if_set_def fred_event_id_def FRED_API_BASE_def res_simps split: option.split)

lemma fred_event_series: "series_from_event_id (me_event_id (fred_event et sha rel s d)) = Some s"
  using event_id_series[of s "show_int (year_of d) @ ''_'' @ zpad 2 (nat (month_of d))"]
  by (simp add: fred_event_def fred_event_id_def)

text \<open>The days the archive lists for a series, with its release and the hash of the page.\<close>

definition listed_day :: "json \<Rightarrow> date res" where
  "listed_day obj =
     bindE (as_dict FredMacroError (Some obj)) (\<lambda>rd. bindE (as_str FredMacroError (map_of rd ''date'')) fred_date)"

definition fred_listed :: "fred_http \<Rightarrow> date \<Rightarrow> date \<Rightarrow> string \<Rightarrow> ((string \<times> string option) \<times> string \<times> date list) res" where
  "fred_listed http a b sid =
     bindE (resolve_release http sid) (\<lambda>release.
     bindE (http ''release/dates''
              [(''release_id'', fst release), (''realtime_start'', date_isoformat a), (''realtime_end'', date_isoformat b),
               (''include_release_dates_with_no_data'', ''true''), (''sort_order'', ''asc'')]) (\<lambda>raw.
     bindE (bindE (as_obj FredMacroError raw) (\<lambda>o1. as_list FredMacroError (map_of o1 ''release_dates''))) (\<lambda>objs.
     bindE (traverse listed_day objs) (\<lambda>days. Inr (release, content_sha256 raw, days)))))"

abbreviation due :: "(int \<Rightarrow> int) \<Rightarrow> datetime \<Rightarrow> datetime \<Rightarrow> MacroSeries \<Rightarrow> date \<Rightarrow> bool" where
  "due et s e series d \<equiv> dt_instant s \<le> dt_instant (release_at et series d) \<and> dt_instant (release_at et series d) < dt_instant e"

lemma release_date_eq:
  "fred_release_date et s e sha rel series =
     (\<lambda>obj. bindE (listed_day obj) (\<lambda>d. Inr (if due et s e series d then Some (fred_event et sha rel series d) else None)))"
proof
  fix obj
  have "(\<lambda>d. let release_dt = release_at et series d in
          if \<not> (dt_instant s \<le> dt_instant release_dt \<and> dt_instant release_dt < dt_instant e) then Inr None
          else let ev = fred_event et sha rel series d in bindE (MacroEvent_post_init ev) (\<lambda>_. Inr (Some ev)))
        = (\<lambda>d. Inr (if due et s e series d then Some (fred_event et sha rel series d) else None))"
    by (rule ext) (simp add: Let_def fred_event_valid)
  then show "fred_release_date et s e sha rel series obj =
      bindE (listed_day obj) (\<lambda>d. Inr (if due et s e series d then Some (fred_event et sha rel series d) else None))"
    unfolding fred_release_date_def listed_day_def bindE_assoc by simp
qed

lemma traverse_bind_map: "traverse (\<lambda>x. bindE (f x) (\<lambda>y. Inr (g y))) xs = bindE (traverse f xs) (\<lambda>ys. Inr (map g ys))"
  by (induction xs) (auto simp: bindE_def split: sum.splits)

lemma map_filter_if: "List.map_filter id (map (\<lambda>d. if P d then Some (f d) else None) ds) = map f (filter P ds)"
  by (induction ds) (auto simp: List.map_filter_simps)

lemma series_events_eq:
  "fred_series_events http et s e a b (series, sid) =
     bindE (fred_listed http a b sid) (\<lambda>(rel, sha, days). Inr (map (fred_event et sha rel series) (filter (due et s e series) days)))"
  by (simp add: fred_series_events_def fred_listed_def bindE_assoc release_date_eq traverse_bind_map map_filter_if)

lemma upcoming_events:
  assumes "fred_upcoming_events http et et_at s e = Inr es"
  obtains m n a b where
    "astimezone et_at s = Inr m" "a = dt_date m" "astimezone et_at e = Inr n" "b = dt_date n"
    "sorted (map (\<lambda>e. dt_local (me_release_time_et e)) es)"
    "\<And>ev. ev \<in> set es \<longleftrightarrow> (\<exists>series sid rel sha days d. (series, sid) \<in> set FRED_SERIES_MAP \<and>
        fred_listed http a b sid = Inr (rel, sha, days) \<and> d \<in> set days \<and> due et s e series d \<and> ev = fred_event et sha rel series d)"
    "\<And>series sid. (series, sid) \<in> set FRED_SERIES_MAP \<Longrightarrow> \<exists>rel sha days. fred_listed http a b sid = Inr (rel, sha, days)"
proof -
  obtain m n a b evs where mn: "astimezone et_at s = Inr m" "a = dt_date m" "astimezone et_at e = Inr n" "b = dt_date n"
    and tr: "traverse (fred_series_events http et s e a b) FRED_SERIES_MAP = Inr evs"
    and es: "es = sort_key (\<lambda>e. dt_local (me_release_time_et e)) (sort_key (\<lambda>e. series_value (me_series e)) (concat evs))"
    using assms by (auto simp: fred_upcoming_events_def bindE_Inr_iff)
  have lst: "\<exists>rel sha days. fred_listed http a b sid = Inr (rel, sha, days)" if "(series, sid) \<in> set FRED_SERIES_MAP" for series sid
    using traverse_mem[OF tr that] by (auto simp: series_events_eq bindE_Inr_iff)
  have "ev \<in> set es \<longleftrightarrow> (\<exists>series sid rel sha days d. (series, sid) \<in> set FRED_SERIES_MAP \<and>
      fred_listed http a b sid = Inr (rel, sha, days) \<and> d \<in> set days \<and> due et s e series d \<and> ev = fred_event et sha rel series d)"
    (is "_ \<longleftrightarrow> ?R") for ev
  proof
    assume "ev \<in> set es"
    then obtain l where l: "l \<in> set evs" "ev \<in> set l"
      using es by auto
    obtain series sid where q: "(series, sid) \<in> set FRED_SERIES_MAP" "fred_series_events http et s e a b (series, sid) = Inr l"
      using traverse_mem_back[OF tr l(1)] by auto
    then show ?R
      using l(2) by (fastforce simp: series_events_eq bindE_Inr_iff)
  next
    assume ?R
    then obtain series sid rel sha days d where q: "(series, sid) \<in> set FRED_SERIES_MAP"
        "fred_listed http a b sid = Inr (rel, sha, days)" "d \<in> set days" "due et s e series d" "ev = fred_event et sha rel series d"
      by blast
    obtain l where l: "l \<in> set evs" "fred_series_events http et s e a b (series, sid) = Inr l"
      using traverse_mem[OF tr q(1)] by blast
    have "ev \<in> set l"
      using l(2) q by (auto simp: series_events_eq)
    then show "ev \<in> set es"
      using l(1) by (auto simp: es)
  qed
  with es lst mn that show thesis
    by simp
qed

text \<open>Two weekly releases of one month get one event id, and one hash from one page.\<close>

lemma weekly_event_ids_collide:
  "me_event_id (fred_event et sha rel JOBLESS_CLAIMS 738889) = me_event_id (fred_event et sha rel JOBLESS_CLAIMS 738896)"
  "me_content_bytes_sha (fred_event et sha rel JOBLESS_CLAIMS 738889) = me_content_bytes_sha (fred_event et sha rel JOBLESS_CLAIMS 738896)"
proof -
  have "year_of 738889 = 2024" "year_of 738896 = 2024" "month_of 738889 = 1" "month_of 738896 = 1"
    by code_simp+
  then show "me_event_id (fred_event et sha rel JOBLESS_CLAIMS 738889) = me_event_id (fred_event et sha rel JOBLESS_CLAIMS 738896)"
    "me_content_bytes_sha (fred_event et sha rel JOBLESS_CLAIMS 738889) = me_content_bytes_sha (fred_event et sha rel JOBLESS_CLAIMS 738896)"
    by (simp_all add: fred_event_def fred_event_id_def)
qed

section \<open>The bound of the service\<close>

lemma release_date [simp]: "dt_date (release_at et s d) = d"
  by (cases s) (simp_all add: dt_date_def release_at_def release_time_def RELEASE_TIME_ET_def at_time_def Let_def)

lemma bound_local:
  assumes "conservative_publication_bound et series ref = Inr k"
  shows "dt_local k = dt_date k * 86400000000 + release_time series"
proof -
  obtain l where "k = release_at et series l"
    using assms by (auto simp: conservative_publication_bound_def Let_def bindE_Inr_iff)
  then show ?thesis
    by (simp only: release_date) (simp add: release_at_def Let_def)
qed

lemma mk_date_range:
  assumes "mk_date y m d = Inr n"
  shows "1 \<le> n" "n \<le> max_ordinal"
proof -
  have m: "1 \<le> y" "y \<le> 9999" "1 \<le> m" "m \<le> 12" "1 \<le> d" "d \<le> days_in_month y m" "n = ymd2ord y m d"
    using assms by (simp_all add: mk_date_Inr)
  show "1 \<le> n" "n \<le> max_ordinal"
    using ymd2ord_in_year[OF m(3-6)] days_before_year_range(1)[OF m(1)] days_before_year_range(2)[OF m(2)] m(7) by simp_all
qed

lemma bound_covers_month:
  assumes k: "conservative_publication_bound et series ref = Inr k"
    and d: "1 \<le> d" "d \<le> max_ordinal"
    and month: "month_of d = month_of ref mod 12 + 1" "year_of d = year_of ref + month_of ref div 12" "1 \<le> month_of ref" "month_of ref \<le> 12"
  shows "d \<le> dt_date k"
proof -
  obtain y m l where l: "mk_date y m (days_in_month y m) = Inr l" "k = release_at et series l" "y = year_of d" "m = month_of d"
    using k month by (auto simp: conservative_publication_bound_def MONTHS_IN_YEAR_def Let_def bindE_Inr_iff split: if_splits)
  have "mk_date y m (day_of d) = Inr d"
    using mk_date_parts(1)[OF d] l(3,4) by simp
  then have "d = ymd2ord y m (day_of d)" "day_of d \<le> days_in_month y m"
    by (auto simp: mk_date_def split: if_splits)
  moreover have "l = ymd2ord y m (days_in_month y m)"
    using l(1) by (auto simp: mk_date_def split: if_splits)
  ultimately have "d \<le> l"
    by (simp add: ymd2ord_def)
  then show ?thesis
    using l(2) by (simp add: release_date)
qed


section \<open>A sample service\<close>

definition ny :: "int \<Rightarrow> int" where
  "ny l = - 18000000000"

definition utc_at :: "date \<Rightarrow> int \<Rightarrow> datetime" where
  "utc_at d hour = \<lparr>dt_local = d * 86400000000 + hour * 3600000000, dt_off = Some 0\<rparr>"

definition sample_observations :: string where
  "sample_observations = ''{\"observations\":[{\"realtime_start\":\"2024-01-11\",\"date\":\"2023-12-01\",\"value\":\".\"},{\"realtime_start\":\"2024-01-11\",\"date\":\"2023-11-01\",\"value\":\"310\"}]}''"

definition sample_dates :: string where
  "sample_dates = ''{\"release_dates\":[{\"date\":\"2024-01-11\"},{\"date\":\"2030-01-11\"}]}''"

definition sample_release :: string where
  "sample_release = ''{\"releases\":[{\"id\":10,\"link\":\"http://r\"}]}''"

definition sample_fred :: fred_http where
  "sample_fred endpoint params =
     (if endpoint = ''series/observations'' then Inr sample_observations
      else if endpoint = ''series/release'' then Inr sample_release else Inr sample_dates)"

definition sample_obs :: "(string \<times> json) list" where
  "sample_obs = [(''realtime_start'', JStr ''2024-01-11''), (''date'', JStr ''2023-11-01''), (''value'', JStr ''310'')]"

lemma sample_observation: "fred_observation sample_fred sid d = Inr (sample_observations, Some sample_obs)"
proof -
  have "as_obj FredMacroError sample_observations = Inr [(''observations'', JArr
      [JObj [(''realtime_start'', JStr ''2024-01-11''), (''date'', JStr ''2023-12-01''), (''value'', JStr ''.'')], JObj sample_obs])]"
    by code_simp
  then show ?thesis
    by (simp add: fred_observation_def sample_fred_def as_list_def as_dict_def FRED_MISSING_VALUE_def sample_obs_def)
qed

lemma decimal_310: "macro_decimal err ''310'' = Inr 310"
proof -
  have "all_digits ''310''" "digits_val ''310'' = 310"
    by code_simp+
  then show ?thesis
    using parse_decimal_digits[of "''310''"] by (simp add: macro_decimal_def)
qed

definition sample_cpi :: "datetime \<Rightarrow> MacroValue" where
  "sample_cpi t = \<lparr>mv_event_id = ''CPI_2023_12'', mv_series = CPI, mv_as_of_date = 738825,
     mv_value_known_at = \<lparr>dt_local = 738896 * 86400000000 + 30600000000, dt_off = Some (- 18000000000)\<rparr>,
     mv_source_id = FRED_SOURCE_ID, mv_as_of_iso = t, mv_content_bytes_sha = content_sha256 sample_observations,
     mv_value = Some 310, mv_is_shutdown_void = False, mv_vintage_as_of = Some 738896\<rparr>"

lemma sample_cpi_value:
  assumes "dt_aware t"
  shows "fred_value ny ''CPI_2023_12'' CPI t 738896 sample_observations sample_obs = Inr (sample_cpi t)"
proof -
  have d: "fred_date ''2023-11-01'' = Inr 738825" "fred_date ''2024-01-11'' = Inr 738896"
    by code_simp+
  have o: "map_of sample_obs ''value'' = Some (JStr ''310'')" "map_of sample_obs ''date'' = Some (JStr ''2023-11-01'')"
      "map_of sample_obs ''realtime_start'' = Some (JStr ''2024-01-11'')"
    by (simp_all add: sample_obs_def)
  have "MacroValue_post_init (sample_cpi t) = Inr ()"
    using assms by (simp add: MacroValue_post_init_def sample_cpi_def assert_tz_aware_def dt_aware_def)
  then show ?thesis
    by (simp add: fred_value_def o as_str_def d decimal_310 Let_def sample_cpi_def release_at_def release_time_def
        RELEASE_TIME_ET_def at_time_def ny_def)
qed

lemma ny_day: "14 \<le> h \<Longrightarrow> h \<le> 23 \<Longrightarrow> astimezone ny (utc_at 738896 h) = Inr \<lparr>dt_local = 738896 * 86400000000 + (h - 5) * 3600000000, dt_off = Some (- 18000000000)\<rparr>"
  by (simp add: astimezone_def to_utc_def utc_at_def dt_instant_def dt_add_def Let_def ny_def max_ordinal_def)

lemma sample_cpi_fetch:
  assumes "14 \<le> h" "h \<le> 23"
  shows "fred_fetch_value sample_fred ny ny ''CPI_2023_12'' (utc_at 738896 h) = Inr (Some (sample_cpi (utc_at 738896 h)))"
proof -
  have s: "series_from_event_id ''CPI_2023_12'' = Some CPI" "map_of FRED_SERIES_MAP CPI = Some ''CPIAUCSL''"
    by code_simp+
  have t: "dt_aware (utc_at 738896 h)" "dt_instant (mv_value_known_at (sample_cpi (utc_at 738896 h))) \<le> dt_instant (utc_at 738896 h)"
    using assms by (simp_all add: utc_at_def dt_aware_def sample_cpi_def dt_instant_def)
  have "dt_date \<lparr>dt_local = 738896 * 86400000000 + (h - 5) * 3600000000, dt_off = Some (- 18000000000)\<rparr> = 738896"
    using assms by (simp add: dt_date_def)
  then show ?thesis
    using s t ny_day[OF assms] sample_observation sample_cpi_value[OF t(1)] unfolding fred_fetch_Some by metis
qed


lemma sample_listed:
  assumes "(series, sid) \<in> set FRED_SERIES_MAP"
  shows "fred_listed sample_fred a b sid = Inr ((''10'', Some ''http://r''), content_sha256 sample_dates, [738896, 741088])"
proof -
  have r: "as_obj FredMacroError sample_release = Inr [(''releases'', JArr [JObj [(''id'', JInt 10), (''link'', JStr ''http://r'')]])]"
    by code_simp
  have d: "as_obj FredMacroError sample_dates =
      Inr [(''release_dates'', JArr [JObj [(''date'', JStr ''2024-01-11'')], JObj [(''date'', JStr ''2030-01-11'')]])]"
    by code_simp
  have days: "fred_date ''2024-01-11'' = Inr 738896" "fred_date ''2030-01-11'' = Inr 741088" "show_int 10 = ''10''"
    by code_simp+
  show ?thesis
    by (simp add: fred_listed_def resolve_release_def sample_fred_def r d days as_list_def as_dict_def as_str_def listed_day_def)
qed

lemma sample_upcoming:
  obtains es where "fred_upcoming_events sample_fred ny ny (utc_at 738896 0) (utc_at 738900 0) = Inr es"
proof -
  have "\<exists>evs. traverse (fred_series_events sample_fred ny (utc_at 738896 0) (utc_at 738900 0) a b) FRED_SERIES_MAP = Inr evs" for a b
    by (auto simp: traverse_ok_iff series_events_eq sample_listed)
  moreover have "\<exists>m n. astimezone ny (utc_at 738896 0) = Inr m \<and> astimezone ny (utc_at 738900 0) = Inr n"
    by (simp add: astimezone_def to_utc_def utc_at_def dt_instant_def dt_add_def Let_def ny_def max_ordinal_def)
  ultimately obtain m n evs where "astimezone ny (utc_at 738896 0) = Inr m" "astimezone ny (utc_at 738900 0) = Inr n"
      "traverse (fred_series_events sample_fred ny (utc_at 738896 0) (utc_at 738900 0) (dt_date m) (dt_date n)) FRED_SERIES_MAP = Inr evs"
    by blast
  then show thesis
    using that by (simp add: fred_upcoming_events_def assert_tz_aware_def dt_aware_def utc_at_def dt_instant_def)
qed

section \<open>Claims\<close>



text \<open>
  A value of the archive stands for the rest of its day. Once the archive source has answered an event at some
  moment, it gives the same value, with the same publication moment, at every later moment of the same New York day.
\<close>

theorem fred_value_stands:
  assumes "fred_fetch_value http et et_at i t = Inr (Some v)"
    and "astimezone et_at t = Inr n" "astimezone et_at t' = Inr n'" "dt_date n = dt_date n'"
    and "dt_instant t \<le> dt_instant t'" "dt_aware t'"
  shows "fred_fetch_value http et et_at i t' = Inr (Some (v\<lparr>mv_as_of_iso := t'\<rparr>))"
  using assms by (rule fred_stable)

theorem fred_value_stands_witness:
  "fred_fetch_value sample_fred ny ny ''CPI_2023_12'' (utc_at 738896 20) =
     Inr (Some (sample_cpi (utc_at 738896 14)\<lparr>mv_as_of_iso := utc_at 738896 20\<rparr>))"
  by (rule fred_value_stands [OF sample_cpi_fetch ny_day ny_day]) (simp_all add: dt_date_def utc_at_def dt_instant_def dt_aware_def)

text \<open>
  The release calendar is exact. The calendar of a window lists, in the order of time, exactly the release days
  the archive lists for the series it carries whose release moment lies in the half-open window; every entry is a
  valid event whose id leads back to its series, so that its value can be asked for.
\<close>

theorem fred_calendar_exact:
  assumes "fred_upcoming_events http et et_at s e = Inr es"
  shows "sorted (map (\<lambda>e. dt_local (me_release_time_et e)) es) \<and>
    (\<forall>ev \<in> set es. MacroEvent_post_init ev = Inr () \<and> series_from_event_id (me_event_id ev) = Some (me_series ev)) \<and>
    (\<exists>m n. astimezone et_at s = Inr m \<and> astimezone et_at e = Inr n \<and>
      (\<forall>ev. ev \<in> set es \<longleftrightarrow> (\<exists>series sid rel sha days d. (series, sid) \<in> set FRED_SERIES_MAP \<and>
       fred_listed http (dt_date m) (dt_date n) sid = Inr (rel, sha, days) \<and> d \<in> set days \<and>
       dt_instant s \<le> dt_instant (release_at et series d) \<and> dt_instant (release_at et series d) < dt_instant e \<and>
       ev = fred_event et sha rel series d)))"
proof -
  obtain m n a b where mn: "astimezone et_at s = Inr m" "a = dt_date m" "astimezone et_at e = Inr n" "b = dt_date n"
    and so: "sorted (map (\<lambda>e. dt_local (me_release_time_et e)) es)"
    and mem: "\<And>ev. ev \<in> set es \<longleftrightarrow> (\<exists>series sid rel sha days d. (series, sid) \<in> set FRED_SERIES_MAP \<and>
        fred_listed http a b sid = Inr (rel, sha, days) \<and> d \<in> set days \<and> due et s e series d \<and> ev = fred_event et sha rel series d)"
    by (rule upcoming_events[OF assms]) (rule that; assumption)
  have valid: "\<forall>ev \<in> set es. MacroEvent_post_init ev = Inr () \<and> series_from_event_id (me_event_id ev) = Some (me_series ev)"
  proof
    fix ev assume ev: "ev \<in> set es"
    obtain series sha rel d where "ev = fred_event et sha rel series d"
      using ev unfolding mem by blast
    then show "MacroEvent_post_init ev = Inr () \<and> series_from_event_id (me_event_id ev) = Some (me_series ev)"
      using fred_event_valid fred_event_series by (simp add: fred_event_def)
  qed
  show ?thesis
    by (rule conjI, rule so, rule conjI, rule valid, rule exI[of _ m], rule exI[of _ n]) (simp add: mn(1,3) mem[unfolded mn(2,4)])
qed

theorem fred_calendar_exact_witness:
  "\<exists>es. fred_upcoming_events sample_fred ny ny (utc_at 738896 0) (utc_at 738900 0) = Inr es \<and>
     sorted (map (\<lambda>e. dt_local (me_release_time_et e)) es) \<and> (\<forall>ev \<in> set es. MacroEvent_post_init ev = Inr ())"
proof -
  obtain es where es: "fred_upcoming_events sample_fred ny ny (utc_at 738896 0) (utc_at 738900 0) = Inr es"
    by (rule sample_upcoming)
  from fred_calendar_exact [OF es] es show ?thesis by blast
qed

text \<open>
  Without a calendar the service errs towards silence. A value of a month that is answered with no release
  lookup is stamped no earlier than the release time on any day of the following month, in which it is published.
\<close>

theorem bls_never_early:
  assumes "bls_fetch_value page None et i t = Inr (Some v)" "1 \<le> d" "d \<le> max_ordinal"
    and "month_of d = month_of (mv_as_of_date v) mod 12 + 1"
        "year_of d = year_of (mv_as_of_date v) + month_of (mv_as_of_date v) div 12"
  shows "dt_local (release_at et (mv_series v) d) \<le> dt_local (mv_value_known_at v) \<and>
    dt_instant (mv_value_known_at v) \<le> dt_instant t"
proof -
  obtain series raw dp where v: "bls_value None et i series t raw dp = Inr v" and k: "dt_instant (mv_value_known_at v) \<le> dt_instant t"
    using assms(1) by (auto simp: bls_fetch_Some)
  have bd: "conservative_publication_bound et (mv_series v) (mv_as_of_date v) = Inr (mv_value_known_at v)"
    using v by (auto simp: bls_value_def Let_def bindE_Inr_iff)
  have "1 \<le> mv_as_of_date v" "mv_as_of_date v \<le> max_ordinal"
    using v by (auto simp: bls_value_def Let_def bindE_Inr_iff dest: mk_date_range)
  then have "1 \<le> month_of (mv_as_of_date v)" "month_of (mv_as_of_date v) \<le> 12"
    using mk_date_parts(4,5) by blast+
  then have "d \<le> dt_date (mv_value_known_at v)"
    using bound_covers_month[OF bd assms(2-5)] by blast
  then show ?thesis
    using k bound_local[OF bd] by (auto simp: release_at_def Let_def)
qed


definition sample_bls :: string where
  "sample_bls = ''{\"status\":\"REQUEST_SUCCEEDED\",\"Results\":{\"series\":[{\"data\":[{\"year\":\"2024\",\"period\":\"M13\",\"value\":\"9\"},{\"year\":\"2024\",\"period\":\"M01\",\"value\":\"310\"}]}]}}''"

definition sample_print :: MacroValue where
  "sample_print = \<lparr>mv_event_id = ''CPI_2024_01'', mv_series = CPI, mv_as_of_date = 738886,
     mv_value_known_at = release_at ny CPI 738945, mv_source_id = BLS_SOURCE_ID, mv_as_of_iso = utc_at 738950 0,
     mv_content_bytes_sha = content_sha256 sample_bls, mv_value = Some 310, mv_is_shutdown_void = False, mv_vintage_as_of = None\<rparr>"

lemma sample_bls_fetch: "bls_fetch_value (\<lambda>sid. Inr sample_bls) None ny ''CPI_2024_01'' (utc_at 738950 0) = Inr (Some sample_print)"
proof -
  let ?dp = "[(''year'', JStr ''2024''), (''period'', JStr ''M01''), (''value'', JStr ''310'')]"
  have "bindE (as_obj BlsMacroError sample_bls) (\<lambda>payload. bindE (require (map_of payload ''status'' = Some (JStr BLS_SUCCESS)) BlsMacroError) (\<lambda>_.
      bindE (extract_data_points payload) latest_monthly_point)) = Inr (Some ?dp)"
    by code_simp
  then have point: "bls_point (\<lambda>sid. Inr sample_bls) sid = Inr (sample_bls, Some ?dp)" for sid
    by (auto simp: bls_point_def bindE_Inr_iff)
  have s: "series_from_event_id ''CPI_2024_01'' = Some CPI" "map_of BLS_SERIES_MAP CPI = Some ''CUUR0000SA0''"
    by code_simp+
  have ref: "all_digits ''2024''" "mk_date (int (digits_val ''2024'')) (int (digits_val (tl ''M01''))) 1 = Inr 738886"
    by code_simp+
  have bd: "conservative_publication_bound ny CPI 738886 = Inr (release_at ny CPI 738945)"
    by code_simp
  have "MacroValue_post_init sample_print = Inr ()"
    by (simp add: MacroValue_post_init_def sample_print_def assert_tz_aware_def dt_aware_def utc_at_def release_at_def Let_def)
  then have "bls_value None ny ''CPI_2024_01'' CPI (utc_at 738950 0) sample_bls ?dp = Inr sample_print"
    using ref by (simp add: bls_value_def as_str_def decimal_310 bd Let_def sample_print_def)
  moreover have "dt_aware (utc_at 738950 0)" "dt_instant (mv_value_known_at sample_print) \<le> dt_instant (utc_at 738950 0)"
    by (simp_all add: utc_at_def dt_aware_def sample_print_def dt_instant_def release_at_def Let_def release_time_def
        RELEASE_TIME_ET_def at_time_def ny_def)
  ultimately show ?thesis
    using point s unfolding bls_fetch_Some by blast
qed

theorem bls_never_early_witness:
  "\<exists>v. bls_fetch_value (\<lambda>sid. Inr sample_bls) None ny ''CPI_2024_01'' (utc_at 738950 0) = Inr (Some v) \<and>
     dt_local (release_at ny (mv_series v) 738930) \<le> dt_local (mv_value_known_at v)"
proof -
  have m: "month_of 738930 = 2" "month_of 738886 = 1" "year_of 738930 = 2024" "year_of 738886 = 2024"
    by code_simp+
  have "dt_local (release_at ny (mv_series sample_print) 738930) \<le> dt_local (mv_value_known_at sample_print)"
    using bls_never_early [OF sample_bls_fetch, of 738930] m by (simp add: max_ordinal_def sample_print_def)
  then show ?thesis
    using sample_bls_fetch by blast
qed

end
