(* ===== verification/Event_Severity.thy ===== *)
theory Event_Severity
  imports Macro
begin

text \<open>
  The size gate around scheduled releases (\<open>src/futur3/events/severity.py\<close>): the severity of a series, the
  multiplier of a date and the gated series of returns. The multipliers are exact binary fractions, here rationals;
  the product of a return with a multiplier is the argument \<open>scale\<close>.

  The lemmas show what the multiplier of a date is and what the gate leaves alone.
\<close>

datatype EventSeverity = RELEASED | LOW | MEDIUM | HIGH | CRITICAL

definition SERIES_SEVERITY :: "(MacroSeries \<times> EventSeverity) list" where
  "SERIES_SEVERITY = [(FOMC_STATEMENT, CRITICAL), (CPI, HIGH), (NFP, HIGH), (JOBLESS_CLAIMS, MEDIUM)]"

definition TIER_MULTIPLIER :: "(EventSeverity \<times> rat) list" where
  "TIER_MULTIPLIER = [(CRITICAL, 1 / 2), (HIGH, 1 / 2), (MEDIUM, 1), (LOW, 1), (RELEASED, 1)]"

definition calendar_severity :: "MacroSeries \<Rightarrow> EventSeverity" where
  "calendar_severity s = (case map_of SERIES_SEVERITY s of None \<Rightarrow> LOW | Some v \<Rightarrow> v)"

definition severity_multiplier :: "EventSeverity \<Rightarrow> rat" where
  "severity_multiplier v = the (map_of TIER_MULTIPLIER v)"

record CalendarEvent =
  ce_series :: MacroSeries
  ce_release_date :: date

definition gate_step :: "date \<Rightarrow> int \<Rightarrow> int \<Rightarrow> MacroSeries list \<Rightarrow> CalendarEvent \<Rightarrow> rat \<Rightarrow> rat" where
  "gate_step ref_date days_lo days_hi exclude e m =
     (if ce_series e \<in> set exclude then m
      else let delta = ce_release_date e - ref_date
           in if days_lo \<le> delta \<and> delta \<le> days_hi then min m (severity_multiplier (calendar_severity (ce_series e)))
              else m)"

definition multiplier :: "CalendarEvent list \<Rightarrow> date \<Rightarrow> int \<Rightarrow> int \<Rightarrow> MacroSeries list \<Rightarrow> rat" where
  "multiplier events ref_date days_lo days_hi exclude = fold (gate_step ref_date days_lo days_hi exclude) events 1"

definition apply_gate ::
  "('f \<Rightarrow> rat \<Rightarrow> 'f) \<Rightarrow> (date \<times> 'f) list \<Rightarrow> CalendarEvent list \<Rightarrow> int \<Rightarrow> int \<Rightarrow> MacroSeries list \<Rightarrow> (date \<times> 'f) list" where
  "apply_gate scale returns calendar days_lo days_hi exclude =
     map (\<lambda>(d, r). (d, scale r (multiplier calendar d days_lo days_hi exclude))) returns"

section \<open>The multiplier of a date\<close>

definition tier_one :: "MacroSeries list" where
  "tier_one = [FOMC_STATEMENT, CPI, NFP]"

lemma multiplier_of_series:
  "severity_multiplier (calendar_severity s) = (if s \<in> set tier_one then 1 / 2 else 1)"
  by (cases s) (simp_all add: severity_multiplier_def calendar_severity_def SERIES_SEVERITY_def TIER_MULTIPLIER_def tier_one_def)

definition guarded :: "CalendarEvent list \<Rightarrow> date \<Rightarrow> int \<Rightarrow> int \<Rightarrow> MacroSeries list \<Rightarrow> bool" where
  "guarded events d lo hi exclude \<longleftrightarrow>
     (\<exists>e \<in> set events. ce_series e \<in> set tier_one - set exclude \<and> lo \<le> ce_release_date e - d \<and> ce_release_date e - d \<le> hi)"

lemma gate_step_eq:
  "m \<le> 1 \<Longrightarrow> 1 / 2 \<le> m \<Longrightarrow> gate_step d lo hi exclude e m = (if guarded [e] d lo hi exclude then 1 / 2 else m)"
  by (auto simp: gate_step_def guarded_def multiplier_of_series Let_def min_def)

lemma fold_gate:
  "m \<le> 1 \<Longrightarrow> 1 / 2 \<le> m \<Longrightarrow> fold (gate_step d lo hi exclude) events m = (if guarded events d lo hi exclude then 1 / 2 else m)"
proof (induction events arbitrary: m)
  case (Cons e events)
  show ?case
    using Cons by (auto simp: gate_step_eq guarded_def)
qed (simp add: guarded_def)

lemma multiplier_eq: "multiplier events d lo hi exclude = (if guarded events d lo hi exclude then 1 / 2 else 1)"
  by (simp add: multiplier_def fold_gate)

text \<open>
  The gate halves exactly the guarded dates. The multiplier of a date is one half when a release of the first
  tier (rate decision, CPI, payrolls) that is not excluded falls into the window around the date, and one
  otherwise; the gated series keeps the dates, and keeps every return outside such windows as it is.
\<close>

theorem gate_exact:
  assumes "\<forall>r. scale r 1 = r"
  shows "apply_gate scale returns events lo hi exclude =
     map (\<lambda>(d, r). (d, if \<exists>e \<in> set events. ce_series e \<in> {FOMC_STATEMENT, CPI, NFP} - set exclude \<and>
            lo \<le> ce_release_date e - d \<and> ce_release_date e - d \<le> hi then scale r (1 / 2) else r)) returns"
proof -
  have g: "guarded events d lo hi exclude \<longleftrightarrow> (\<exists>e \<in> set events. ce_series e \<in> {FOMC_STATEMENT, CPI, NFP} - set exclude \<and>
            lo \<le> ce_release_date e - d \<and> ce_release_date e - d \<le> hi)" for d
    by (simp add: guarded_def tier_one_def)
  have "scale r (multiplier events d lo hi exclude) = (if guarded events d lo hi exclude then scale r (1 / 2) else r)" for d r
    using assms by (simp add: multiplier_eq)
  then show ?thesis
    unfolding apply_gate_def g by simp
qed

theorem gate_exact_witness:
  "apply_gate (\<lambda>r m. r * m) [(100, 4), (101, 4 :: rat)] [\<lparr>ce_series = CPI, ce_release_date = 103\<rparr>] 0 2 [] = [(100, 4), (101, 2)]"
proof -
  have "\<forall>r. (\<lambda>r m. r * m) r 1 = (r :: rat)"
    by simp
  then show ?thesis
    by (subst gate_exact) simp_all
qed

end
