(* ===== verification/Live_Adapters.thy ===== *)
theory Live_Adapters
  imports Broker
begin

text \<open>
  The two live adapters as they are shipped (\<open>src/futur3/execution/adapters/ibkr_broker.py\<close>,
  \<open>topstepx_broker.py\<close>): the constructors, the order types they support, the trade gate, and the calls that refuse
  because live wiring is absent. An entry of the audit log of the downgrade matrix is kept as its severity, the type
  that was asked for and the one that is sent; the wording of a reason is not modelled.

  The lemmas show that the matrix never sends an order type the venue lacks, nor one whose prices the order does not
  carry, and that it leaves a record of everything it changes or refuses.
\<close>

section \<open>Interactive Brokers\<close>

definition IBKR_PAPER_PORT :: int where "IBKR_PAPER_PORT = 4002"
definition IBKR_LIVE_PORT :: int where "IBKR_LIVE_PORT = 4001"
definition IBKR_DEFAULT_HOST :: string where "IBKR_DEFAULT_HOST = ''127.0.0.1''"
definition MIN_USER_PORT :: int where "MIN_USER_PORT = 1024"
definition MAX_USER_PORT :: int where "MAX_USER_PORT = 65535"

definition IBKR_SUPPORTED_ORDER_TYPES :: "OrderType list" where
  "IBKR_SUPPORTED_ORDER_TYPES = [MKT, LMT, STP, STP_LMT, STP_PRT, MIT, LIT, MOC, MOO, TRAIL, TRAIL_LMT]"

record IBKRBrokerAdapter =
  ib_host :: string
  ib_port :: int
  ib_client_id :: int
  ib_account_id :: "string option"

definition IBKRBrokerAdapter_init :: "string \<Rightarrow> int \<Rightarrow> int \<Rightarrow> string option \<Rightarrow> IBKRBrokerAdapter res" where
  "IBKRBrokerAdapter_init host port client_id account_id =
     bindE (require (host \<noteq> []) ValueError) (\<lambda>_.
     bindE (require (\<not> (port \<notin> {IBKR_PAPER_PORT, IBKR_LIVE_PORT} \<and> \<not> (MIN_USER_PORT \<le> port \<and> port \<le> MAX_USER_PORT))) ValueError) (\<lambda>_.
     bindE (require (\<not> client_id < 0) ValueError) (\<lambda>_.
     Inr \<lparr>ib_host = host, ib_port = port, ib_client_id = client_id, ib_account_id = account_id\<rparr>)))"

definition ib_is_paper :: "IBKRBrokerAdapter \<Rightarrow> bool" where
  "ib_is_paper b \<longleftrightarrow> ib_port b = IBKR_PAPER_PORT"

definition ib_is_trade_allowed :: "ContractSymbol \<Rightarrow> Side \<Rightarrow> int \<Rightarrow> bool" where
  "ib_is_trade_allowed contract side quantity \<longleftrightarrow> \<not> quantity \<le> 0"

definition ib_place_order :: "Order \<Rightarrow> string res" where
  "ib_place_order ord = Inl IBKRBrokerNotImplemented"

definition ib_cancel_order :: "string \<Rightarrow> unit res" where
  "ib_cancel_order broker_order_id = Inl IBKRBrokerNotImplemented"

definition ib_modify_order :: "string \<Rightarrow> decimal option \<Rightarrow> decimal option \<Rightarrow> int option \<Rightarrow> unit res" where
  "ib_modify_order broker_order_id new_limit_price new_stop_price new_quantity =
     (if new_limit_price = None \<and> new_stop_price = None \<and> new_quantity = None then Inl ValueError
      else Inl IBKRBrokerNotImplemented)"

definition ib_get_positions :: "Position list res" where
  "ib_get_positions = Inl IBKRBrokerNotImplemented"

definition ib_get_account_metrics :: "AccountMetrics res" where
  "ib_get_account_metrics = Inl IBKRBrokerNotImplemented"

definition ib_stream_order_events :: "OrderEvent list res" where
  "ib_stream_order_events = Inl IBKRBrokerNotImplemented"

section \<open>TopstepX\<close>

definition TOPSTEPX_NATIVE_ORDER_TYPES :: "OrderType list" where
  "TOPSTEPX_NATIVE_ORDER_TYPES = [MKT, LMT, STP, STP_LMT, TRAIL, JOIN_BID, JOIN_ASK]"

datatype HaltSeverity = halt_low | halt_medium | halt_high

record TopstepXDowngradeRule =
  dg_target_order_type :: "OrderType option"
  dg_severity :: HaltSeverity

definition DOWNGRADE_MATRIX :: "(OrderType \<times> TopstepXDowngradeRule) list" where
  "DOWNGRADE_MATRIX =
     [(STP_PRT, \<lparr>dg_target_order_type = Some STP, dg_severity = halt_low\<rparr>),
      (MIT, \<lparr>dg_target_order_type = Some STP, dg_severity = halt_medium\<rparr>),
      (LIT, \<lparr>dg_target_order_type = Some LMT, dg_severity = halt_medium\<rparr>),
      (MOC, \<lparr>dg_target_order_type = None, dg_severity = halt_high\<rparr>),
      (MOO, \<lparr>dg_target_order_type = None, dg_severity = halt_high\<rparr>),
      (TRAIL_LMT, \<lparr>dg_target_order_type = None, dg_severity = halt_high\<rparr>)]"

record TopstepXBrokerAdapter =
  tx_account_id :: "string option"
  tx_account_state :: string
  tx_api_key_env_var :: string

definition TopstepXBrokerAdapter_init :: "string option \<Rightarrow> string \<Rightarrow> string \<Rightarrow> TopstepXBrokerAdapter res" where
  "TopstepXBrokerAdapter_init account_id account_state api_key_env_var =
     bindE (require (account_state \<in> {''Combine'', ''XFA'', ''LFA''}) ValueError) (\<lambda>_.
     bindE (require (api_key_env_var \<noteq> []) ValueError) (\<lambda>_.
     Inr \<lparr>tx_account_id = account_id, tx_account_state = account_state, tx_api_key_env_var = api_key_env_var\<rparr>))"

text \<open>The outcome, and the entries of the audit log: severity, requested type, and the type that is sent if any.\<close>

definition downgrade_order_type :: "OrderType \<Rightarrow> OrderType res \<times> (HaltSeverity \<times> OrderType \<times> OrderType option) list" where
  "downgrade_order_type requested =
     (if requested \<in> set TOPSTEPX_NATIVE_ORDER_TYPES then (Inr requested, [])
      else case map_of DOWNGRADE_MATRIX requested of
             None \<Rightarrow> (Inl OrderTypeUnsupportedError, [])
           | Some rule \<Rightarrow>
               (case dg_target_order_type rule of
                  None \<Rightarrow> (Inl OrderTypeUnsupportedError, [(dg_severity rule, requested, None)])
                | Some target \<Rightarrow> (Inr target, [(dg_severity rule, requested, Some target)])))"

definition tx_is_trade_allowed :: "ContractSymbol \<Rightarrow> Side \<Rightarrow> int \<Rightarrow> bool" where
  "tx_is_trade_allowed contract side quantity \<longleftrightarrow> \<not> quantity \<le> 0"

definition tx_place_order :: "Order \<Rightarrow> string res" where
  "tx_place_order ord = Inl TopstepXBrokerNotImplemented"

definition tx_cancel_order :: "string \<Rightarrow> unit res" where
  "tx_cancel_order broker_order_id = Inl TopstepXBrokerNotImplemented"

definition tx_modify_order :: "string \<Rightarrow> decimal option \<Rightarrow> decimal option \<Rightarrow> int option \<Rightarrow> unit res" where
  "tx_modify_order broker_order_id new_limit_price new_stop_price new_quantity =
     (if new_limit_price = None \<and> new_stop_price = None \<and> new_quantity = None then Inl ValueError
      else Inl TopstepXBrokerNotImplemented)"

definition tx_get_positions :: "Position list res" where
  "tx_get_positions = Inl TopstepXBrokerNotImplemented"

definition tx_get_account_metrics :: "AccountMetrics res" where
  "tx_get_account_metrics = Inl TopstepXBrokerNotImplemented"

definition tx_stream_order_events :: "OrderEvent list res" where
  "tx_stream_order_events = Inl TopstepXBrokerNotImplemented"

section \<open>The downgrade matrix\<close>

lemma downgrade_cases:
  "downgrade_order_type t =
     (if t \<in> {MKT, LMT, STP, STP_LMT, TRAIL, JOIN_BID, JOIN_ASK} then (Inr t, [])
      else if t = STP_PRT then (Inr STP, [(halt_low, t, Some STP)])
      else if t = MIT then (Inr STP, [(halt_medium, t, Some STP)])
      else if t = LIT then (Inr LMT, [(halt_medium, t, Some LMT)])
      else (Inl OrderTypeUnsupportedError, [(halt_high, t, None)]))"
  by (cases t) (simp_all add: downgrade_order_type_def TOPSTEPX_NATIVE_ORDER_TYPES_def DOWNGRADE_MATRIX_def)

text \<open>
  C31. A downgraded order is an order the venue can take. When the matrix sends an order under a type, that type is
  native to the venue and is sent as it is the next time; the order still carries every price the new type needs, so
  its constructor accepts it; and a type is changed or refused exactly when the audit log has an entry for it.
\<close>

theorem downgraded_order_valid:
  assumes "Order_new ord = Inr ord'" "downgrade_order_type (o_order_type ord) = (outcome, entries)"
  shows "(\<forall>t. outcome = Inr t \<longrightarrow> t \<in> set TOPSTEPX_NATIVE_ORDER_TYPES \<and> downgrade_order_type t = (Inr t, []) \<and>
            Order_new (ord\<lparr>o_order_type := t\<rparr>) = Inr (ord\<lparr>o_order_type := t\<rparr>)) \<and>
         (\<forall>e. outcome = Inl e \<longrightarrow> e = OrderTypeUnsupportedError) \<and>
         (entries = [] \<longleftrightarrow> outcome = Inr (o_order_type ord))"
proof (cases "o_order_type ord")
qed (use assms in \<open>auto simp: downgrade_cases Order_new_iff requires_limit_def requires_stop_def TOPSTEPX_NATIVE_ORDER_TYPES_def\<close>)

theorem downgraded_order_valid_witness:
  "\<exists>ord entries. o_order_type ord = LIT \<and> downgrade_order_type LIT = (Inr LMT, entries) \<and> entries \<noteq> [] \<and>
     Order_new (ord\<lparr>o_order_type := LMT\<rparr>) = Inr (ord\<lparr>o_order_type := LMT\<rparr>)"
proof -
  let ?ord = "\<lparr>o_contract = ''ESM26'', o_side = BUY, o_quantity = 1, o_order_type = LIT, o_limit_price = Some 5000,
    o_stop_price = None, o_duration = DAY, o_parent_order_id = None, o_oco_group_id = None, o_client_order_id = None\<rparr>"
  have new: "Order_new ?ord = Inr ?ord"
    by (simp add: Order_new_iff requires_limit_def requires_stop_def)
  have "downgrade_order_type (o_order_type ?ord) = (Inr LMT, [(halt_medium, LIT, Some LMT)])"
    by (simp add: downgrade_cases)
  from downgraded_order_valid [OF new this] this show ?thesis
    by (intro exI [of _ ?ord] exI [of _ "[(halt_medium, LIT, Some LMT)]"]) simp
qed

end
