(* ===== verification/Databento.thy ===== *)
theory Databento
  imports Verifier
begin

text \<open>
  The licensed history of daily bars (\<open>src/futur3/data/sources/databento_hist.py\<close>). The vendor client and the clock
  are arguments, as is \<open>dec_str\<close>, which feeds the hash of a record only.

  The lemmas show that an answer is the records of the window, in the order of time, and that a record from the future
  is never passed on.
\<close>

definition DATABENTO_DATASET :: string where "DATABENTO_DATASET = ''GLBX.MDP3''"
definition STYPE_CONTINUOUS :: string where "STYPE_CONTINUOUS = ''continuous''"
definition ROOT_SUFFIX_LEN :: nat where "ROOT_SUFFIX_LEN = 3"
definition DATABENTO_SOURCE_ID :: string where "DATABENTO_SOURCE_ID = ''databento_glbx_mdp3''"

definition CONTINUOUS_SYMBOLS :: "(string \<times> string) list" where
  "CONTINUOUS_SYMBOLS = [(''ES'', ''ES.c.0''), (''NQ'', ''NQ.c.0''), (''CL'', ''CL.c.0''), (''GC'', ''GC.c.0'')]"

record DatabentoBar =
  db_ts :: datetime
  db_open :: decimal
  db_high :: decimal
  db_low :: decimal
  db_close :: decimal
  db_volume :: int

record Databento =
  dx_client :: "string \<Rightarrow> string \<Rightarrow> string \<Rightarrow> datetime \<Rightarrow> datetime \<Rightarrow> DatabentoBar list res"
  dx_now :: datetime
  dx_symbols :: "(string \<times> string) list"

definition resolve_symbol :: "Databento \<Rightarrow> ContractSymbol \<Rightarrow> string res" where
  "resolve_symbol dx key =
     (let r = (if key \<in> fst ` set (dx_symbols dx) then key else take (length key - ROOT_SUFFIX_LEN) key)
      in case map_of (dx_symbols dx) r of None \<Rightarrow> Inl ContractNotConfigured | Some symbol \<Rightarrow> Inr symbol)"

definition databento_bar :: "(decimal \<Rightarrow> string) \<Rightarrow> string \<Rightarrow> ContractSymbol \<Rightarrow> datetime \<Rightarrow> DatabentoBar \<Rightarrow> RawBar" where
  "databento_bar dec_str symbol contract now rec =
     \<lparr>rb_contract = contract, rb_ts = db_ts rec, rb_resolution = DAY_1, rb_open = db_open rec, rb_high = db_high rec,
      rb_low = db_low rec, rb_close = db_close rec, rb_volume = db_volume rec, rb_oi = None,
      rb_source_id = DATABENTO_SOURCE_ID, rb_as_of_iso = now,
      rb_content_bytes_sha = content_sha256 (symbol @ ''|'' @ dt_isoformat (db_ts rec) @ ''|'' @ dec_str (db_open rec) @ ''|'' @
        dec_str (db_high rec) @ ''|'' @ dec_str (db_low rec) @ ''|'' @ dec_str (db_close rec) @ ''|'' @ show_int (db_volume rec))\<rparr>"

text \<open>One record: the comparison of a naive time with an aware one raises.\<close>

definition databento_record ::
  "(decimal \<Rightarrow> string) \<Rightarrow> string \<Rightarrow> ContractSymbol \<Rightarrow> datetime \<Rightarrow> datetime \<Rightarrow> datetime \<Rightarrow> DatabentoBar \<Rightarrow> RawBar option res" where
  "databento_record dec_str symbol contract now ts_start ts_end rec =
     bindE (require (dt_aware (db_ts rec)) TypeError) (\<lambda>_.
     bindE (require (\<not> dt_instant (db_ts rec) > dt_instant now) FutureDatedSourceError) (\<lambda>_.
       if \<not> (dt_instant ts_start \<le> dt_instant (db_ts rec) \<and> dt_instant (db_ts rec) < dt_instant ts_end) then Inr None
       else let b = databento_bar dec_str symbol contract now rec in bindE (RawBar_post_init b) (\<lambda>_. Inr (Some b))))"

definition databento_get_bars ::
  "(decimal \<Rightarrow> string) \<Rightarrow> Databento \<Rightarrow> ContractSymbol \<Rightarrow> datetime \<Rightarrow> datetime \<Rightarrow> BarResolution \<Rightarrow> RawBar list res" where
  "databento_get_bars dec_str dx contract ts_start ts_end resolution =
     bindE (require (resolution = DAY_1) BarsNotSupported) (\<lambda>_.
     bindE (assert_tz_aware ts_start) (\<lambda>_.
     bindE (assert_tz_aware ts_end) (\<lambda>_.
     bindE (resolve_symbol dx contract) (\<lambda>symbol.
     bindE (dx_client dx DATABENTO_DATASET symbol STYPE_CONTINUOUS ts_start ts_end) (\<lambda>records.
     bindE (traverse (databento_record dec_str symbol contract (dx_now dx) ts_start ts_end) records) (\<lambda>bars.
     Inr (sort_key (\<lambda>b. dt_instant (rb_ts b)) (List.map_filter id bars))))))))"

definition databento_source :: "(decimal \<Rightarrow> string) \<Rightarrow> Databento \<Rightarrow> DataSource" where
  "databento_source dec_str dx =
     \<lparr>source_id = DATABENTO_SOURCE_ID, tier = T1_EXCHANGE_HISTORICAL, get_bars = databento_get_bars dec_str dx,
      latest_settle = (\<lambda>contract as_of. Inl SettlesNotSupported)\<rparr>"

section \<open>What a query returns\<close>

lemma databento_record_Inr:
  "databento_record dec_str symbol contract now s e rec = Inr r \<longleftrightarrow>
     dt_aware (db_ts rec) \<and> dt_instant (db_ts rec) \<le> dt_instant now \<and>
     (if dt_instant s \<le> dt_instant (db_ts rec) \<and> dt_instant (db_ts rec) < dt_instant e
      then r = Some (databento_bar dec_str symbol contract now rec) \<and> RawBar_post_init (databento_bar dec_str symbol contract now rec) = Inr ()
      else r = None)"
  by (auto simp: databento_record_def Let_def res_simps)

lemma databento_records:
  assumes "traverse (databento_record dec_str symbol contract now s e) recs = Inr bars"
  shows "List.map_filter id bars =
     map (databento_bar dec_str symbol contract now)
       (filter (\<lambda>rec. dt_instant s \<le> dt_instant (db_ts rec) \<and> dt_instant (db_ts rec) < dt_instant e) recs)"
  using assms
proof (induction recs arbitrary: bars)
  case (Cons r recs)
  then obtain b bs where "databento_record dec_str symbol contract now s e r = Inr b"
      "traverse (databento_record dec_str symbol contract now s e) recs = Inr bs" "bars = b # bs"
    by (auto simp: bindE_Inr_iff)
  with Cons.IH show ?case
    by (auto simp: databento_record_Inr List.map_filter_simps split: if_splits)
qed (simp add: List.map_filter_simps)

lemma resolve_symbol_Inr: "resolve_symbol dx c = Inr symbol \<Longrightarrow> symbol \<in> snd ` set (dx_symbols dx)"
  by (force simp: resolve_symbol_def Let_def split: option.splits dest: map_of_SomeD)

text \<open>
  A daily history is the vendor's, cut to the window. An answer holds exactly the records of the half-open window
  as bars of the contract that was asked for, in the order of time, each of them a valid bar; none of the records the
  vendor sent, inside or outside the window, lies after the clock.
\<close>

theorem databento_bars_exact:
  assumes "databento_get_bars dec_str dx contract s e resolution = Inr bars"
  shows "\<exists>symbol recs. symbol \<in> snd ` set (dx_symbols dx) \<and>
     dx_client dx DATABENTO_DATASET symbol STYPE_CONTINUOUS s e = Inr recs \<and>
     bars = sort_key (\<lambda>b. dt_instant (rb_ts b)) (map (databento_bar dec_str symbol contract (dx_now dx))
       (filter (\<lambda>rec. dt_instant s \<le> dt_instant (db_ts rec) \<and> dt_instant (db_ts rec) < dt_instant e) recs)) \<and>
     (\<forall>b \<in> set bars. RawBar_post_init b = Inr () \<and> rb_contract b = contract) \<and>
     (\<forall>rec \<in> set recs. dt_instant (db_ts rec) \<le> dt_instant (dx_now dx))"
proof -
  obtain symbol recs found where sym: "resolve_symbol dx contract = Inr symbol"
    and recs: "dx_client dx DATABENTO_DATASET symbol STYPE_CONTINUOUS s e = Inr recs"
    and tr: "traverse (databento_record dec_str symbol contract (dx_now dx) s e) recs = Inr found"
    and bars: "bars = sort_key (\<lambda>b. dt_instant (rb_ts b)) (List.map_filter id found)"
    using assms by (auto simp: databento_get_bars_def bindE_Inr_iff)
  have each: "\<exists>r. databento_record dec_str symbol contract (dx_now dx) s e rec = Inr r" if "rec \<in> set recs" for rec
    using traverse_mem[OF tr that] by blast
  have valid: "RawBar_post_init b = Inr () \<and> rb_contract b = contract" if "b \<in> set bars" for b
  proof -
    obtain rec where "rec \<in> set recs" "dt_instant s \<le> dt_instant (db_ts rec)" "dt_instant (db_ts rec) < dt_instant e"
        "b = databento_bar dec_str symbol contract (dx_now dx) rec"
      using \<open>b \<in> set bars\<close> unfolding bars databento_records[OF tr] by auto
    then show ?thesis
      using each[of rec] by (auto simp: databento_record_Inr databento_bar_def)
  qed
  have past: "dt_instant (db_ts rec) \<le> dt_instant (dx_now dx)" if "rec \<in> set recs" for rec
    using each[OF that] by (auto simp: databento_record_Inr)
  show ?thesis
  proof (intro exI conjI)
    show "symbol \<in> snd ` set (dx_symbols dx)"
      by (rule resolve_symbol_Inr[OF sym])
    show "dx_client dx DATABENTO_DATASET symbol STYPE_CONTINUOUS s e = Inr recs"
      by (rule recs)
    show "bars = sort_key (\<lambda>b. dt_instant (rb_ts b)) (map (databento_bar dec_str symbol contract (dx_now dx))
        (filter (\<lambda>rec. dt_instant s \<le> dt_instant (db_ts rec) \<and> dt_instant (db_ts rec) < dt_instant e) recs))"
      unfolding bars databento_records[OF tr] ..
    show "\<forall>b \<in> set bars. RawBar_post_init b = Inr () \<and> rb_contract b = contract"
      using valid by blast
    show "\<forall>rec \<in> set recs. dt_instant (db_ts rec) \<le> dt_instant (dx_now dx)"
      using past by blast
  qed
qed

definition sample_bar :: "date \<Rightarrow> DatabentoBar" where
  "sample_bar d = \<lparr>db_ts = \<lparr>dt_local = d * 86400000000, dt_off = Some 0\<rparr>, db_open = 10, db_high = 12, db_low = 9, db_close = 11, db_volume = 5\<rparr>"

definition sample_databento :: Databento where
  "sample_databento = \<lparr>dx_client = (\<lambda>dataset symbol stype s e. Inr [sample_bar 738888, sample_bar 738887, sample_bar 738900]),
     dx_now = \<lparr>dt_local = 738901 * 86400000000, dt_off = Some 0\<rparr>, dx_symbols = CONTINUOUS_SYMBOLS\<rparr>"

theorem databento_bars_exact_witness:
  "\<exists>bars. databento_get_bars (\<lambda>_. ''x'') sample_databento ''ESM26'' \<lparr>dt_local = 738887 * 86400000000, dt_off = Some 0\<rparr>
     \<lparr>dt_local = 738900 * 86400000000, dt_off = Some 0\<rparr> DAY_1 = Inr bars \<and> (\<forall>b \<in> set bars. RawBar_post_init b = Inr ())"
proof -
  have sym: "resolve_symbol sample_databento ''ESM26'' = Inr ''ES.c.0''"
    by (simp add: resolve_symbol_def sample_databento_def CONTINUOUS_SYMBOLS_def ROOT_SUFFIX_LEN_def Let_def)
  have ok: "\<exists>r. databento_record (\<lambda>_. ''x'') ''ES.c.0'' ''ESM26'' (dx_now sample_databento)
      \<lparr>dt_local = 738887 * 86400000000, dt_off = Some 0\<rparr> \<lparr>dt_local = 738900 * 86400000000, dt_off = Some 0\<rparr> (sample_bar d) = Inr r"
    if "d \<le> 738901" for d
    using that by (auto simp: databento_record_Inr sample_bar_def sample_databento_def dt_instant_def dt_aware_def databento_bar_def
        RawBar_post_init_def assert_tz_aware_def content_sha256_def SHA256_HEX_LENGTH_def)
  have "\<exists>found. traverse (databento_record (\<lambda>_. ''x'') ''ES.c.0'' ''ESM26'' (dx_now sample_databento)
      \<lparr>dt_local = 738887 * 86400000000, dt_off = Some 0\<rparr> \<lparr>dt_local = 738900 * 86400000000, dt_off = Some 0\<rparr>)
      [sample_bar 738888, sample_bar 738887, sample_bar 738900] = Inr found"
    unfolding traverse_ok_iff using ok by simp
  then obtain bars where bars: "databento_get_bars (\<lambda>_. ''x'') sample_databento ''ESM26'' \<lparr>dt_local = 738887 * 86400000000, dt_off = Some 0\<rparr>
     \<lparr>dt_local = 738900 * 86400000000, dt_off = Some 0\<rparr> DAY_1 = Inr bars"
    by (auto simp: databento_get_bars_def sym assert_tz_aware_def dt_aware_def) (simp add: sample_databento_def)
  from databento_bars_exact [OF bars] bars show ?thesis by blast
qed

end
