(* ===== verification/Intraday.thy ===== *)
theory Intraday
  imports Macro
begin

text \<open>
  The intraday tier: windows of the New York session (\<open>src/futur3/intraday_session.py\<close>), the annualization factor of
  a resolution (\<open>timeframe.py\<close>), and the pre-spliced series whose roll returns are left out
  (\<open>data/intraday_continuous.py\<close>). A time of day is its microseconds since midnight; the zone is the argument \<open>et_at\<close>,
  the offset of New York at an instant. What is computed on binary floats goes through the record \<open>float_ops\<close>.

  The lemmas show that a window and its converse split the day, and which returns of a series are left out.
\<close>

section \<open>Windows of the session\<close>

definition RTH_OPEN :: int where "RTH_OPEN = at_time 9 30"
definition RTH_CLOSE :: int where "RTH_CLOSE = at_time 16 0"

definition to_et :: "(int \<Rightarrow> int) \<Rightarrow> datetime \<Rightarrow> datetime res" where
  "to_et et_at ts = bindE (require (dt_aware ts) IntradaySessionError) (\<lambda>_. astimezone et_at ts)"

definition et_time :: "(int \<Rightarrow> int) \<Rightarrow> datetime \<Rightarrow> int res" where
  "et_time et_at ts = bindE (to_et et_at ts) (\<lambda>t. Inr (dt_local t mod 86400000000))"

definition session_date :: "(int \<Rightarrow> int) \<Rightarrow> datetime \<Rightarrow> date res" where
  "session_date et_at ts = bindE (to_et et_at ts) (\<lambda>t. Inr (dt_date t))"

definition in_session_window :: "(int \<Rightarrow> int) \<Rightarrow> datetime \<Rightarrow> int \<Rightarrow> int \<Rightarrow> bool res" where
  "in_session_window et_at ts start end_time =
     bindE (et_time et_at ts) (\<lambda>t.
       Inr (if start \<le> end_time then start \<le> t \<and> t < end_time else t \<ge> start \<or> t < end_time))"

definition is_rth :: "(int \<Rightarrow> int) \<Rightarrow> datetime \<Rightarrow> bool res" where
  "is_rth et_at ts = in_session_window et_at ts RTH_OPEN RTH_CLOSE"

section \<open>Annualization\<close>

record 'f float_ops =
  fo_of_decimal :: "decimal \<Rightarrow> 'f"
  fo_is_zero :: "'f \<Rightarrow> bool"
  fo_return :: "'f \<Rightarrow> 'f \<Rightarrow> 'f"
  fo_mul :: "'f \<Rightarrow> 'f \<Rightarrow> 'f"
  fo_not_positive :: "'f \<Rightarrow> bool"

definition BARS_PER_HOUR :: "(BarResolution \<times> decimal) list" where
  "BARS_PER_HOUR = [(SEC_1, 3600), (SEC_5, 720), (MIN_1, 60), (MIN_5, 12), (MIN_15, 4), (HOUR_1, 1)]"

definition resolve_ppy :: "'f float_ops \<Rightarrow> BarResolution \<Rightarrow> 'f \<Rightarrow> 'f \<Rightarrow> 'f res" where
  "resolve_ppy fo resolution hours_per_session sessions_per_year =
     bindE (require (\<not> fo_not_positive fo hours_per_session) ValueError) (\<lambda>_.
     bindE (require (\<not> fo_not_positive fo sessions_per_year) ValueError) (\<lambda>_.
       if resolution \<in> {DAY_1, SETTLE} then Inr sessions_per_year
       else case map_of BARS_PER_HOUR resolution of
              None \<Rightarrow> Inl ValueError
            | Some n \<Rightarrow> Inr (fo_mul fo (fo_mul fo sessions_per_year hours_per_session) (fo_of_decimal fo n))))"

section \<open>The roll-excluded series\<close>

definition roll_flags :: "RawBar list \<Rightarrow> bool list" where
  "roll_flags bars =
     (if bars = [] then [] else False # map (\<lambda>(prev, cur). rb_contract cur \<noteq> rb_contract prev) (zip bars (tl bars)))"

record RollExcludedSeries =
  rx_root :: string
  rx_bars :: "RawBar list"
  rx_roll_flags :: "bool list"

definition RollExcludedSeries_post_init :: "RollExcludedSeries \<Rightarrow> unit res" where
  "RollExcludedSeries_post_init s =
     bindE (require (rx_bars s \<noteq> []) IntradayContinuousError) (\<lambda>_.
     bindE (require (length (rx_bars s) = length (rx_roll_flags s)) IntradayContinuousError) (\<lambda>_.
     bindE (require (\<not> hd (rx_roll_flags s)) IntradayContinuousError) (\<lambda>_.
     require (list_all (\<lambda>(prev, cur). \<not> dt_instant (rb_ts cur) \<le> dt_instant (rb_ts prev)) (zip (rx_bars s) (tl (rx_bars s))))
       IntradayContinuousError)))"

definition rx_n_rolls :: "RollExcludedSeries \<Rightarrow> nat" where
  "rx_n_rolls s = length (filter (\<lambda>f. f) (rx_roll_flags s))"

definition roll_clean_returns :: "'f float_ops \<Rightarrow> RollExcludedSeries \<Rightarrow> 'f option list" where
  "roll_clean_returns fo s =
     None # map (\<lambda>i.
       let prev_close = fo_of_decimal fo (rb_close (rx_bars s ! (i - 1)))
       in if rx_roll_flags s ! i \<or> fo_is_zero fo prev_close then None
          else Some (fo_return fo (fo_of_decimal fo (rb_close (rx_bars s ! i))) prev_close))
       [1..<length (rx_bars s)]"

definition build_roll_excluded_series :: "string \<Rightarrow> RawBar list \<Rightarrow> RollExcludedSeries res" where
  "build_roll_excluded_series rt bars =
     (let s = \<lparr>rx_root = rt, rx_bars = bars, rx_roll_flags = roll_flags bars\<rparr>
      in bindE (RollExcludedSeries_post_init s) (\<lambda>_. Inr s))"

section \<open>What is left out\<close>

lemma length_roll_flags [simp]: "length (roll_flags bars) = length bars"
  by (cases bars) (simp_all add: roll_flags_def)

lemma roll_flags_nth: "0 < i \<Longrightarrow> i < length bars \<Longrightarrow> roll_flags bars ! i \<longleftrightarrow> rb_contract (bars ! i) \<noteq> rb_contract (bars ! (i - 1))"
  by (cases i) (auto simp: roll_flags_def nth_tl)

lemma build_Inr:
  "build_roll_excluded_series rt bars = Inr s \<longleftrightarrow>
     s = \<lparr>rx_root = rt, rx_bars = bars, rx_roll_flags = roll_flags bars\<rparr> \<and> bars \<noteq> [] \<and>
     list_all (\<lambda>(prev, cur). \<not> dt_instant (rb_ts cur) \<le> dt_instant (rb_ts prev)) (zip bars (tl bars))"
  by (auto simp: build_roll_excluded_series_def RollExcludedSeries_post_init_def Let_def res_simps roll_flags_def)

text \<open>
  A roll never shows as a return. A series that can be built has one entry per bar: none for the first bar, none
  where the contract differs from that of the bar before or the bar before has no base to divide by, and otherwise the
  return from the close of the bar before, which is a bar of the same contract and earlier in time.
\<close>

theorem roll_returns_exact:
  assumes "build_roll_excluded_series rt bars = Inr s"
  shows "length (roll_clean_returns fo s) = length bars \<and> roll_clean_returns fo s ! 0 = None \<and>
    (\<forall>i. 0 < i \<and> i < length bars \<longrightarrow>
       dt_instant (rb_ts (bars ! (i - 1))) < dt_instant (rb_ts (bars ! i)) \<and>
       roll_clean_returns fo s ! i =
         (if rb_contract (bars ! i) = rb_contract (bars ! (i - 1)) \<and> \<not> fo_is_zero fo (fo_of_decimal fo (rb_close (bars ! (i - 1))))
          then Some (fo_return fo (fo_of_decimal fo (rb_close (bars ! i))) (fo_of_decimal fo (rb_close (bars ! (i - 1))))) else None))"
proof -
  have s: "s = \<lparr>rx_root = rt, rx_bars = bars, rx_roll_flags = roll_flags bars\<rparr>" and ne: "bars \<noteq> []"
    and inc: "list_all (\<lambda>(prev, cur). \<not> dt_instant (rb_ts cur) \<le> dt_instant (rb_ts prev)) (zip bars (tl bars))"
    using assms by (simp_all add: build_Inr)
  have later: "dt_instant (rb_ts (bars ! (i - 1))) < dt_instant (rb_ts (bars ! i))" if "0 < i" "i < length bars" for i
  proof -
    obtain n where n: "i = Suc n"
      using \<open>0 < i\<close> by (cases i) auto
    then have "\<not> dt_instant (rb_ts (bars ! Suc n)) \<le> dt_instant (rb_ts (bars ! n))"
      using inc that by (auto simp: list_all_length nth_tl)
    then show ?thesis
      using n by simp
  qed
  have ret: "roll_clean_returns fo s ! i =
      (if rb_contract (bars ! i) = rb_contract (bars ! (i - 1)) \<and> \<not> fo_is_zero fo (fo_of_decimal fo (rb_close (bars ! (i - 1))))
       then Some (fo_return fo (fo_of_decimal fo (rb_close (bars ! i))) (fo_of_decimal fo (rb_close (bars ! (i - 1))))) else None)"
    if i: "0 < i" "i < length bars" for i
    using i roll_flags_nth[OF i] by (simp add: roll_clean_returns_def s nth_Cons' Let_def)
  have "length (roll_clean_returns fo s) = length bars"
    using ne by (cases bars) (auto simp: roll_clean_returns_def s Suc_le_eq)
  moreover have "roll_clean_returns fo s ! 0 = None"
    by (simp add: roll_clean_returns_def)
  ultimately show ?thesis
    using later ret by blast
qed

definition hour_bar :: "string \<Rightarrow> int \<Rightarrow> decimal \<Rightarrow> RawBar" where
  "hour_bar c h x = \<lparr>rb_contract = c, rb_ts = \<lparr>dt_local = 738887 * 86400000000 + h * 3600000000, dt_off = Some 0\<rparr>, rb_resolution = HOUR_1,
     rb_open = x, rb_high = x, rb_low = x, rb_close = x, rb_volume = 1, rb_oi = None, rb_source_id = ''s'',
     rb_as_of_iso = \<lparr>dt_local = 738888 * 86400000000, dt_off = Some 0\<rparr>, rb_content_bytes_sha = ''''\<rparr>"

definition exact_floats :: "rat float_ops" where
  "exact_floats = \<lparr>fo_of_decimal = (\<lambda>x. x), fo_is_zero = (\<lambda>x. x = 0), fo_return = (\<lambda>a b. a / b - 1), fo_mul = (\<lambda>a b. a * b),
     fo_not_positive = (\<lambda>x. x \<le> 0)\<rparr>"

theorem roll_returns_exact_witness:
  "\<exists>s. build_roll_excluded_series ''ES'' [hour_bar ''ESH24'' 1 100, hour_bar ''ESH24'' 2 110, hour_bar ''ESM24'' 3 130] = Inr s \<and>
     roll_clean_returns exact_floats s ! 1 = Some (1 / 10) \<and> roll_clean_returns exact_floats s ! 2 = None"
proof -
  have "\<exists>s. build_roll_excluded_series ''ES'' [hour_bar ''ESH24'' 1 100, hour_bar ''ESH24'' 2 110, hour_bar ''ESM24'' 3 130] = Inr s"
    by (simp add: build_Inr hour_bar_def dt_instant_def)
  then obtain s where s: "build_roll_excluded_series ''ES'' [hour_bar ''ESH24'' 1 100, hour_bar ''ESH24'' 2 110, hour_bar ''ESM24'' 3 130] = Inr s"
    by blast
  have "roll_clean_returns exact_floats s ! 1 = Some (1 / 10)" "roll_clean_returns exact_floats s ! 2 = None"
    using roll_returns_exact [OF s, of exact_floats] by (auto simp: hour_bar_def exact_floats_def)
  with s show ?thesis by blast
qed

text \<open>
  A window and the window from its end to its start share out the day. For two different times of day, every moment
  with a zone lies in exactly one of the two half-open windows between them, whichever of them wraps midnight; a
  window between equal times is empty.
\<close>

theorem windows_split_day:
  assumes "in_session_window et_at ts a b = Inr x"
  shows "in_session_window et_at ts b a = Inr (if a = b then False else \<not> x) \<and> (a = b \<longrightarrow> \<not> x)"
  using assms by (auto simp: in_session_window_def bindE_Inr_iff)

theorem windows_split_day_witness:
  "is_rth (\<lambda>_. - 18000000000) \<lparr>dt_local = 738887 * 86400000000 + 54000000000, dt_off = Some 0\<rparr> = Inr True \<and>
   in_session_window (\<lambda>_. - 18000000000) \<lparr>dt_local = 738887 * 86400000000 + 54000000000, dt_off = Some 0\<rparr> RTH_CLOSE RTH_OPEN = Inr False"
proof -
  have "in_session_window (\<lambda>_. - 18000000000) \<lparr>dt_local = 738887 * 86400000000 + 54000000000, dt_off = Some 0\<rparr> RTH_OPEN RTH_CLOSE = Inr True"
    by (simp add: in_session_window_def et_time_def to_et_def astimezone_def to_utc_def dt_add_def dt_instant_def dt_aware_def Let_def
        max_ordinal_def RTH_OPEN_def RTH_CLOSE_def at_time_def)
  from windows_split_day [OF this] this show ?thesis
    by (simp add: is_rth_def RTH_OPEN_def RTH_CLOSE_def at_time_def)
qed

end
