(* ===== verification/Crypto.thy ===== *)
theory Crypto
  imports Verifier Py_Json
begin

text \<open>
  The spot crypto venues (\<open>src/futur3/data/sources/crypto.py\<close>): one base class over the exchange client, and the
  five venues as its constants. A number of a row is abstract; what the code asks of it is the record \<open>row_ops\<close>: its
  text under \<open>str\<close>, its text in JSON, and the moment \<open>datetime.fromtimestamp(x / 1000, tz=UTC)\<close>; \<open>ro_since_ms\<close> are the milliseconds of a
  moment as the float computation gives them. \<open>dec_text\<close> is
  \<open>str(Decimal(text))\<close>, which feeds the hash; an exchange that fails raises an exception of its own or one of the data
  layer, and the clock is the argument \<open>now\<close>.

  The lemmas show what a query returns, and that the bars of a venue never leave the half-open window.
\<close>

definition MILLISECONDS_PER_SECOND :: int where "MILLISECONDS_PER_SECOND = 1000"
definition OHLCV_EXPECTED_FIELDS :: nat where "OHLCV_EXPECTED_FIELDS = 6"

record 'n row_ops =
  ro_str :: "'n \<Rightarrow> string"
  ro_json :: "'n \<Rightarrow> string"
  ro_moment :: "'n \<Rightarrow> datetime res"
  ro_since_ms :: "datetime \<Rightarrow> int"

definition TIMEFRAME_MAP :: "(BarResolution \<times> string) list" where
  "TIMEFRAME_MAP = [(MIN_1, ''1m''), (MIN_5, ''5m''), (MIN_15, ''15m''), (HOUR_1, ''1h''), (DAY_1, ''1d'')]"

record CryptoVenue =
  cv_venue_name :: string
  cv_source_id :: string
  cv_symbol_map :: "(string \<times> string) list"

definition spot_symbols :: "(string \<times> string) list" where
  "spot_symbols = [(''BTCUSD'', ''BTC/USD''), (''ETHUSD'', ''ETH/USD'')]"

definition CoinbaseCryptoDataSource :: CryptoVenue where
  "CoinbaseCryptoDataSource = \<lparr>cv_venue_name = ''coinbase'', cv_source_id = ''coinbase_advanced'', cv_symbol_map = spot_symbols\<rparr>"

definition KrakenCryptoDataSource :: CryptoVenue where
  "KrakenCryptoDataSource = \<lparr>cv_venue_name = ''kraken'', cv_source_id = ''kraken_spot'', cv_symbol_map = spot_symbols\<rparr>"

definition BitstampCryptoDataSource :: CryptoVenue where
  "BitstampCryptoDataSource = \<lparr>cv_venue_name = ''bitstamp'', cv_source_id = ''bitstamp_spot'', cv_symbol_map = spot_symbols\<rparr>"

definition GeminiCryptoDataSource :: CryptoVenue where
  "GeminiCryptoDataSource = \<lparr>cv_venue_name = ''gemini'', cv_source_id = ''gemini_spot'', cv_symbol_map = spot_symbols\<rparr>"

definition BinanceUSCryptoDataSource :: CryptoVenue where
  "BinanceUSCryptoDataSource = \<lparr>cv_venue_name = ''binanceus'', cv_source_id = ''binanceus_oracle'', cv_symbol_map = spot_symbols\<rparr>"

definition crypto_venues :: "CryptoVenue list" where
  "crypto_venues =
     [CoinbaseCryptoDataSource, KrakenCryptoDataSource, BitstampCryptoDataSource, GeminiCryptoDataSource, BinanceUSCryptoDataSource]"

definition CcxtCryptoDataSource_init :: "CryptoVenue \<Rightarrow> unit res" where
  "CcxtCryptoDataSource_init v =
     bindE (require (cv_venue_name v \<noteq> []) ContractNotConfigured) (\<lambda>_.
     bindE (require (cv_source_id v \<noteq> []) ContractNotConfigured) (\<lambda>_.
     require (cv_symbol_map v \<noteq> []) ContractNotConfigured))"

definition resolve_ccxt_symbol :: "CryptoVenue \<Rightarrow> ContractSymbol \<Rightarrow> string res" where
  "resolve_ccxt_symbol v s = (case map_of (cv_symbol_map v) s of None \<Rightarrow> Inl ContractNotConfigured | Some symbol \<Rightarrow> Inr symbol)"

definition resolve_ccxt_timeframe :: "BarResolution \<Rightarrow> string res" where
  "resolve_ccxt_timeframe resolution =
     (case map_of TIMEFRAME_MAP resolution of None \<Rightarrow> Inl ValueError | Some tf \<Rightarrow> Inr tf)"

definition row_in_window :: "'n row_ops \<Rightarrow> 'n list \<Rightarrow> datetime \<Rightarrow> datetime \<Rightarrow> bool res" where
  "row_in_window ro row ts_start ts_end =
     (case row of
        [] \<Rightarrow> Inl IndexError
      | ts_ms # _ \<Rightarrow> bindE (ro_moment ro ts_ms) (\<lambda>bar_ts.
          Inr (dt_instant ts_start \<le> dt_instant bar_ts \<and> dt_instant bar_ts < dt_instant ts_end)))"

definition crypto_decimal :: "string \<Rightarrow> decimal res" where
  "crypto_decimal text = (case parse_decimal text of None \<Rightarrow> Inl InvalidOperation | Some d \<Rightarrow> Inr d)"

text \<open>The keys in the order of \<open>sort_keys=True\<close>.\<close>

definition ohlcv_payload ::
  "(string \<Rightarrow> string) \<Rightarrow> 'n row_ops \<Rightarrow> CryptoVenue \<Rightarrow> ContractSymbol \<Rightarrow> BarResolution \<Rightarrow> 'n list \<Rightarrow> string" where
  "ohlcv_payload dec_text ro v contract resolution row =
     (let price = (\<lambda>i. json_string (dec_text (ro_str ro (row ! i))))
      in ''{'' @ json_string ''close'' @ '': '' @ price 4 @
         '', '' @ json_string ''contract'' @ '': '' @ json_string contract @
         '', '' @ json_string ''high'' @ '': '' @ price 2 @
         '', '' @ json_string ''low'' @ '': '' @ price 3 @
         '', '' @ json_string ''open'' @ '': '' @ price 1 @
         '', '' @ json_string ''resolution'' @ '': '' @ json_string (resolution_value resolution) @
         '', '' @ json_string ''ts_ms'' @ '': '' @ ro_json ro (row ! 0) @
         '', '' @ json_string ''venue'' @ '': '' @ json_string (cv_venue_name v) @
         '', '' @ json_string ''volume_decimal'' @ '': '' @ price 5 @ ''}'')"

definition ohlcv_row_to_raw_bar ::
  "(string \<Rightarrow> string) \<Rightarrow> 'n row_ops \<Rightarrow> CryptoVenue \<Rightarrow> ContractSymbol \<Rightarrow> BarResolution \<Rightarrow> datetime \<Rightarrow> 'n list \<Rightarrow> RawBar res" where
  "ohlcv_row_to_raw_bar dec_text ro v contract resolution as_of_iso row =
     bindE (require (\<not> length row < OHLCV_EXPECTED_FIELDS) DataSourceError) (\<lambda>_.
     bindE (ro_moment ro (row ! 0)) (\<lambda>bar_ts.
     bindE (crypto_decimal (ro_str ro (row ! 1))) (\<lambda>open_d.
     bindE (crypto_decimal (ro_str ro (row ! 2))) (\<lambda>high_d.
     bindE (crypto_decimal (ro_str ro (row ! 3))) (\<lambda>low_d.
     bindE (crypto_decimal (ro_str ro (row ! 4))) (\<lambda>close_d.
     bindE (crypto_decimal (ro_str ro (row ! 5))) (\<lambda>volume_d.
     let b = \<lparr>rb_contract = contract, rb_ts = bar_ts, rb_resolution = resolution, rb_open = open_d, rb_high = high_d,
              rb_low = low_d, rb_close = close_d, rb_volume = dtrunc volume_d, rb_oi = None, rb_source_id = cv_source_id v,
              rb_as_of_iso = as_of_iso, rb_content_bytes_sha = content_sha256 (ohlcv_payload dec_text ro v contract resolution row)\<rparr>
     in bindE (RawBar_post_init b) (\<lambda>_. Inr b))))))))"

text \<open>An exception of the exchange that is not one of the data layer is wrapped.\<close>

definition wrap_fetch :: "'a res \<Rightarrow> 'a res" where
  "wrap_fetch r = (case r of Inl e \<Rightarrow> if is_data_source_error e then Inl e else Inl DataSourceError | Inr x \<Rightarrow> Inr x)"

definition convert_rows ::
  "(string \<Rightarrow> string) \<Rightarrow> 'n row_ops \<Rightarrow> CryptoVenue \<Rightarrow> ContractSymbol \<Rightarrow> BarResolution \<Rightarrow> datetime \<Rightarrow> datetime \<Rightarrow> datetime \<Rightarrow>
   'n list list \<Rightarrow> RawBar list res" where
  "convert_rows dec_text ro v contract resolution as_of_iso ts_start ts_end rows =
     bindE (traverse (\<lambda>row. bindE (row_in_window ro row ts_start ts_end) (\<lambda>inside.
              if inside then bindE (ohlcv_row_to_raw_bar dec_text ro v contract resolution as_of_iso row) (\<lambda>b. Inr (Some b))
              else Inr None)) rows) (\<lambda>bars. Inr (List.map_filter id bars))"

definition crypto_get_bars ::
  "(string \<Rightarrow> string) \<Rightarrow> 'n row_ops \<Rightarrow> (string \<Rightarrow> string \<Rightarrow> int \<Rightarrow> 'n list list res) \<Rightarrow> datetime \<Rightarrow> CryptoVenue \<Rightarrow>
   ContractSymbol \<Rightarrow> datetime \<Rightarrow> datetime \<Rightarrow> BarResolution \<Rightarrow> RawBar list res" where
  "crypto_get_bars dec_text ro fetch_ohlcv now v contract ts_start ts_end resolution =
     bindE (require (dt_aware ts_start) ValueError) (\<lambda>_.
     bindE (require (dt_aware ts_end) ValueError) (\<lambda>_.
     bindE (require (\<not> dt_instant ts_end \<le> dt_instant ts_start) ValueError) (\<lambda>_.
     bindE (resolve_ccxt_symbol v contract) (\<lambda>ccxt_symbol.
     bindE (resolve_ccxt_timeframe resolution) (\<lambda>timeframe.
     bindE (to_utc ts_start) (\<lambda>_.
     bindE (wrap_fetch (fetch_ohlcv ccxt_symbol timeframe (ro_since_ms ro ts_start))) (\<lambda>rows.
     convert_rows dec_text ro v contract resolution now ts_start ts_end rows)))))))"

definition crypto_source ::
  "(string \<Rightarrow> string) \<Rightarrow> 'n row_ops \<Rightarrow> (string \<Rightarrow> string \<Rightarrow> int \<Rightarrow> 'n list list res) \<Rightarrow> datetime \<Rightarrow> CryptoVenue \<Rightarrow> DataSource" where
  "crypto_source dec_text ro fetch_ohlcv now v =
     \<lparr>source_id = cv_source_id v, tier = T2_EXCHANGE, get_bars = crypto_get_bars dec_text ro fetch_ohlcv now v,
      latest_settle = (\<lambda>contract as_of. Inl SettlesNotSupported)\<rparr>"


section \<open>What a query returns\<close>

lemma list_all2_set2: "list_all2 P xs ys \<Longrightarrow> \<forall>y \<in> set ys. \<exists>x \<in> set xs. P x y"
  by (induction rule: list_all2_induct) auto

lemma row_bar_fields:
  assumes "ohlcv_row_to_raw_bar dec_text ro v contract resolution t row = Inr b"
  shows "RawBar_post_init b = Inr ()" "rb_contract b = contract" "rb_resolution b = resolution" "rb_source_id b = cv_source_id v"
    "ro_moment ro (row ! 0) = Inr (rb_ts b)" "row \<noteq> []"
    "\<exists>x. crypto_decimal (ro_str ro (row ! 5)) = Inr x \<and> rb_volume b = dtrunc x"
  using assms by (auto simp: ohlcv_row_to_raw_bar_def Let_def bindE_Inr_iff require_iff OHLCV_EXPECTED_FIELDS_def)

lemma convert_rows_list:
  assumes "convert_rows dec_text ro v contract resolution t s e rows = Inr bars"
  shows "\<exists>inside. (\<forall>row \<in> set rows. row_in_window ro row s e = Inr (inside row)) \<and>
     list_all2 (\<lambda>row b. ohlcv_row_to_raw_bar dec_text ro v contract resolution t row = Inr b) (filter inside rows) bars"
proof -
  let ?f = "\<lambda>row. bindE (row_in_window ro row s e) (\<lambda>inside.
      if inside then bindE (ohlcv_row_to_raw_bar dec_text ro v contract resolution t row) (\<lambda>b. Inr (Some b)) else Inr None)"
  let ?in = "\<lambda>row. row_in_window ro row s e = Inr True"
  have "(\<forall>row \<in> set rows. row_in_window ro row s e = Inr (?in row)) \<and>
     list_all2 (\<lambda>row b. ohlcv_row_to_raw_bar dec_text ro v contract resolution t row = Inr b) (filter ?in rows) (List.map_filter id found)"
    if "traverse ?f rows = Inr found" for found
    using that
  proof (induction rows arbitrary: found)
    case (Cons row rows)
    then obtain x xs where "?f row = Inr x" "traverse ?f rows = Inr xs" "found = x # xs"
      by (auto simp: bindE_Inr_iff)
    with Cons.IH[of xs] show ?case
      by (auto simp: bindE_Inr_iff List.map_filter_simps split: if_splits)
  qed (simp add: List.map_filter_simps)
  then show ?thesis
    using assms by (intro exI[of _ ?in]) (auto simp: convert_rows_def bindE_Inr_iff)
qed

text \<open>
  The bars of a venue stay inside the window. An answer has one bar for every row of the exchange whose moment
  lies in the half-open window, in the order of the rows and with the moment of its row; each is a valid bar of the
  contract and the resolution that were asked for, stamped with the venue, and its volume is the whole part of the row's.
\<close>

theorem crypto_bars_exact:
  assumes "crypto_get_bars dec_text ro fetch now v contract s e resolution = Inr bars"
  shows "\<exists>symbol tf rows inside. map_of (cv_symbol_map v) contract = Some symbol \<and> map_of TIMEFRAME_MAP resolution = Some tf \<and>
     fetch symbol tf (ro_since_ms ro s) = Inr rows \<and>
     (\<forall>row \<in> set rows. row_in_window ro row s e = Inr (inside row)) \<and>
     list_all2 (\<lambda>row b. ohlcv_row_to_raw_bar dec_text ro v contract resolution now row = Inr b) (filter inside rows) bars \<and>
     (\<forall>b \<in> set bars. dt_instant s \<le> dt_instant (rb_ts b) \<and> dt_instant (rb_ts b) < dt_instant e \<and>
        RawBar_post_init b = Inr () \<and> rb_contract b = contract \<and> rb_resolution b = resolution \<and> rb_source_id b = cv_source_id v)"
proof -
  obtain symbol tf rows where q: "map_of (cv_symbol_map v) contract = Some symbol" "map_of TIMEFRAME_MAP resolution = Some tf"
      "fetch symbol tf (ro_since_ms ro s) = Inr rows" and c: "convert_rows dec_text ro v contract resolution now s e rows = Inr bars"
    using assms by (auto simp: crypto_get_bars_def bindE_Inr_iff resolve_ccxt_symbol_def resolve_ccxt_timeframe_def wrap_fetch_def
        split: option.splits sum.splits if_splits)
  obtain inside where ins: "\<forall>row \<in> set rows. row_in_window ro row s e = Inr (inside row)"
    and l: "list_all2 (\<lambda>row b. ohlcv_row_to_raw_bar dec_text ro v contract resolution now row = Inr b) (filter inside rows) bars"
    using convert_rows_list[OF c] by blast
  have each: "dt_instant s \<le> dt_instant (rb_ts b) \<and> dt_instant (rb_ts b) < dt_instant e \<and>
      RawBar_post_init b = Inr () \<and> rb_contract b = contract \<and> rb_resolution b = resolution \<and> rb_source_id b = cv_source_id v"
    if "b \<in> set bars" for b
  proof -
    obtain row where row: "row \<in> set (filter inside rows)" "ohlcv_row_to_raw_bar dec_text ro v contract resolution now row = Inr b"
      using bspec[OF list_all2_set2[OF l] \<open>b \<in> set bars\<close>] by blast
    have "row_in_window ro row s e = Inr True"
      using ins row(1) by auto
    then show ?thesis
      using row_bar_fields[OF row(2)] by (auto simp: row_in_window_def bindE_Inr_iff split: list.splits)
  qed
  show ?thesis
    by (intro exI[of _ symbol] exI[of _ tf] exI[of _ rows] exI[of _ inside] conjI q ins l ballI) (use each in blast)+
qed

definition sample_ops :: "int row_ops" where
  "sample_ops = \<lparr>ro_str = show_int, ro_json = show_int, ro_moment = (\<lambda>ms. Inr \<lparr>dt_local = 719163 * 86400000000 + ms * 1000, dt_off = Some 0\<rparr>),
     ro_since_ms = (\<lambda>t. 0)\<rparr>"

theorem crypto_bars_exact_witness:
  "\<exists>bars. crypto_get_bars (\<lambda>s. s) sample_ops (\<lambda>symbol tf since. Inr [[0, 1, 1, 1, 1, 7], [60000, 1, 1, 1, 1, 7]])
     \<lparr>dt_local = 719164 * 86400000000, dt_off = Some 0\<rparr> KrakenCryptoDataSource ''BTCUSD'' \<lparr>dt_local = 719163 * 86400000000, dt_off = Some 0\<rparr>
     \<lparr>dt_local = 719163 * 86400000000 + 60000000, dt_off = Some 0\<rparr> MIN_1 = Inr bars \<and> (\<forall>b \<in> set bars. rb_source_id b = ''kraken_spot'')"
proof -
  have d: "crypto_decimal (show_int 1) = Inr 1" "crypto_decimal (show_int 7) = Inr 7"
  proof -
    have "all_digits (show_int 1)" "digits_val (show_int 1) = 1" "all_digits (show_int 7)" "digits_val (show_int 7) = 7"
      by code_simp+
    then show "crypto_decimal (show_int 1) = Inr 1" "crypto_decimal (show_int 7) = Inr 7"
      by (simp_all add: crypto_decimal_def parse_decimal_digits)
  qed
  have ex: "\<exists>bars. crypto_get_bars (\<lambda>s. s) sample_ops (\<lambda>symbol tf since. Inr [[0, 1, 1, 1, 1, 7], [60000, 1, 1, 1, 1, 7]])
     \<lparr>dt_local = 719164 * 86400000000, dt_off = Some 0\<rparr> KrakenCryptoDataSource ''BTCUSD'' \<lparr>dt_local = 719163 * 86400000000, dt_off = Some 0\<rparr>
     \<lparr>dt_local = 719163 * 86400000000 + 60000000, dt_off = Some 0\<rparr> MIN_1 = Inr bars"
    using d by (simp add: crypto_get_bars_def resolve_ccxt_symbol_def resolve_ccxt_timeframe_def TIMEFRAME_MAP_def KrakenCryptoDataSource_def
        spot_symbols_def dt_aware_def dt_instant_def to_utc_def dt_add_def Let_def max_ordinal_def wrap_fetch_def convert_rows_def
        row_in_window_def sample_ops_def ohlcv_row_to_raw_bar_def OHLCV_EXPECTED_FIELDS_def RawBar_post_init_def assert_tz_aware_def
        content_sha256_def SHA256_HEX_LENGTH_def dtrunc_def)
  then show ?thesis
    using crypto_bars_exact by (fastforce simp: KrakenCryptoDataSource_def)
qed

end
