(* ===== verification/Py_Iso_Time.thy ===== *)
theory Py_Iso_Time
  imports Py_Iso
begin

text \<open>
  \<open>datetime.fromisoformat\<close>: the position of the separator between date and time, the time of day in its extended and
  basic forms with a fraction of any length, cut to microseconds, and the offset. Offsets are below 24 hours.
\<close>

definition digits_from :: "nat \<Rightarrow> string \<Rightarrow> nat" where
  "digits_from i s = length (takeWhile is_ascii_digit (drop i s))"

definition iso_separator :: "string \<Rightarrow> nat option" where
  "iso_separator s =
     (let n = length s; ch = (\<lambda>i c. i < n \<and> s ! i = c)
      in if n < 7 then None
         else if n = 7 then Some 7
         else if ch 4 (CHR ''-'') then
           (if ch 5 (CHR ''W'') then
              (if ch 8 (CHR ''-'') then
                 (if n = 9 then None else if 10 < n \<and> is_ascii_digit (s ! 10) then Some 8 else Some 10)
               else Some 8)
            else Some 10)
         else if ch 4 (CHR ''W'') then
           (let i = 7 + digits_from 7 s in if i < 9 then Some i else if even i then Some 7 else Some 8)
         else Some 8)"

definition two_digits :: "string \<Rightarrow> int \<Rightarrow> int option" where
  "two_digits s limit =
     (if length s = 2 \<and> all_digits s \<and> int (digits_val s) < limit then Some (int (digits_val s)) else None)"

definition fraction_us :: "string \<Rightarrow> int option" where
  "fraction_us s =
     (if s = [] then Some 0
      else if hd s \<in> {CHR ''.'', CHR '',''} \<and> all_digits (tl s)
      then Some (foldl (\<lambda>n c. 10 * n + int (digit_val c)) 0 (take 6 (tl s @ ''00000''))) else None)"

text \<open>\<open>HH[:MM[:SS[.f]]]\<close> or \<open>HH[MM[SS[.f]]]\<close>, in microseconds.\<close>

definition clock_us :: "string \<Rightarrow> int option" where
  "clock_us s =
     (case two_digits (take 2 s) 24 of
        None \<Rightarrow> None
      | Some h \<Rightarrow>
          (let r = drop 2 s; colon = r \<noteq> [] \<and> hd r = CHR '':''; r1 = (if colon then tl r else r)
           in if r = [] then Some (h * 3600000000)
              else case two_digits (take 2 r1) 60 of
                None \<Rightarrow> None
              | Some m \<Rightarrow>
                  (let q = drop 2 r1; q1 = (if colon then tl q else q)
                   in if q = [] then Some ((h * 60 + m) * 60000000)
                      else if colon \<and> hd q \<noteq> CHR '':'' then None
                      else case (two_digits (take 2 q1) 60, fraction_us (drop 2 q1)) of
                        (Some sec, Some us) \<Rightarrow> Some (((h * 60 + m) * 60 + sec) * 1000000 + us)
                      | _ \<Rightarrow> None)))"

definition offset_us :: "string \<Rightarrow> int option option" where
  "offset_us s =
     (if s = [] then Some None
      else if s = ''Z'' then Some (Some 0)
      else if hd s = CHR ''+'' then map_option Some (clock_us (tl s))
      else if hd s = CHR ''-'' then map_option (\<lambda>z. Some (- z)) (clock_us (tl s))
      else None)"

definition offset_mark :: "char \<Rightarrow> bool" where
  "offset_mark c = (c = CHR ''Z'' \<or> c = CHR ''+'' \<or> c = CHR ''-'')"

definition datetime_fromisoformat :: "string \<Rightarrow> datetime res" where
  "datetime_fromisoformat s =
     (case iso_separator s of
        None \<Rightarrow> Inl ValueError
      | Some n \<Rightarrow>
          bindE (date_fromisoformat (take n s)) (\<lambda>d.
          let t = drop (n + 1) s; clock = takeWhile (\<lambda>c. \<not> offset_mark c) t; offset = dropWhile (\<lambda>c. \<not> offset_mark c) t
          in if length s \<le> n then Inr \<lparr>dt_local = d * 86400000000, dt_off = None\<rparr>
             else case (clock_us clock, offset_us offset) of
               (Some us, Some off) \<Rightarrow> Inr \<lparr>dt_local = d * 86400000000 + us, dt_off = off\<rparr>
             | _ \<Rightarrow> Inl ValueError))"

lemma fromisoformat_samples:
  "datetime_fromisoformat ''2026-05-21T22:00:00+00:00'' = Inr \<lparr>dt_local = 63915084000000000, dt_off = Some 0\<rparr>"
  "datetime_fromisoformat ''20260521 220000.5Z'' = Inr \<lparr>dt_local = 63915084000500000, dt_off = Some 0\<rparr>"
  "datetime_fromisoformat ''2026-05-21'' = Inr \<lparr>dt_local = 63915004800000000, dt_off = None\<rparr>"
  "datetime_fromisoformat ''2026-W21-4T22-05:00'' = Inr \<lparr>dt_local = 63915084000000000, dt_off = Some (- 18000000000)\<rparr>"
  by code_simp+

end
