(* ===== verification/IBKR_Historical.thy ===== *)
theory IBKR_Historical
  imports Macro Backoff_Queue Verifier Py_Iso_Time
begin

text \<open>
  The historical data of Interactive Brokers (\<open>src/futur3/data/sources/ibkr_historical.py\<close>): symbols, sizes and
  durations of a request, the connection, the requests behind the rate limiter, and the conversion of what comes back.
  The gateway is the record \<open>ib_client\<close> of functions on its own state; an attribute of a bar is what the code reads of it:
  the text \<open>str\<close> gives for a price, the outcome of \<open>int\<close> for a volume, and for a number that stands for a time the
  moment \<open>datetime.fromtimestamp\<close> gives. The offset of Chicago at an instant is \<open>ct_at\<close>, the clock \<open>now\<close>; \<open>dec_text\<close> is
  \<open>str(Decimal(text))\<close> and \<open>dec_str\<close> is \<open>str\<close> on a decimal, which feed hashes. A call may wait for the limiter: \<open>None\<close>
  is a call that does not return.
\<close>

definition PRELIMINARY_PUBLISH_LAG_HOURS_WEEKDAY :: int where "PRELIMINARY_PUBLISH_LAG_HOURS_WEEKDAY = 18"
definition PRELIMINARY_PUBLISH_LAG_HOURS_FRIDAY :: int where "PRELIMINARY_PUBLISH_LAG_HOURS_FRIDAY = 42"
definition Y2K_CENTURY_PIVOT_YEAR :: int where "Y2K_CENTURY_PIVOT_YEAR = 50"
definition SECONDS_PER_DAY :: int where "SECONDS_PER_DAY = 86400"
definition IB_MIN_SYMBOL_LENGTH :: nat where "IB_MIN_SYMBOL_LENGTH = 4"
definition IBKR_SOURCE_ID :: string where "IBKR_SOURCE_ID = ''ibkr_tws_historical''"

definition EXCHANGE_BY_ROOT :: "(string \<times> string) list" where
  "EXCHANGE_BY_ROOT =
     [(''ES'', ''CME''), (''MES'', ''CME''), (''NQ'', ''CME''), (''MNQ'', ''CME''), (''CL'', ''NYMEX''), (''MCL'', ''NYMEX''),
      (''GC'', ''COMEX''), (''MGC'', ''COMEX''), (''MBT'', ''CME''), (''MET'', ''CME''), (''ZB'', ''CBOT'')]"

definition MONTH_CODE_TO_NUMBER :: "(char \<times> int) list" where
  "MONTH_CODE_TO_NUMBER =
     [(CHR ''F'', 1), (CHR ''G'', 2), (CHR ''H'', 3), (CHR ''J'', 4), (CHR ''K'', 5), (CHR ''M'', 6),
      (CHR ''N'', 7), (CHR ''Q'', 8), (CHR ''U'', 9), (CHR ''V'', 10), (CHR ''X'', 11), (CHR ''Z'', 12)]"

definition BAR_SIZE_MAP :: "(BarResolution \<times> string) list" where
  "BAR_SIZE_MAP =
     [(SEC_1, ''1 secs''), (SEC_5, ''5 secs''), (MIN_1, ''1 min''), (MIN_5, ''5 mins''), (MIN_15, ''15 mins''),
      (HOUR_1, ''1 hour''), (DAY_1, ''1 day'')]"

datatype ib_date = IB_datetime datetime | IB_date date | IB_number "datetime res" | IB_text string | IB_other

record ib_bar =
  bar_date :: ib_date
  bar_open :: string
  bar_high :: string
  bar_low :: string
  bar_close :: string
  bar_volume :: "int res option"

record ib_contract =
  ic_symbol :: string
  ic_last_trade_date :: string
  ic_exchange :: string

record ib_request =
  rq_contract :: ib_contract
  rq_end_datetime :: string
  rq_duration :: string
  rq_bar_size :: string
  rq_what_to_show :: string
  rq_use_rth :: bool

record 'w ib_client =
  ic_is_connected :: "'w \<Rightarrow> bool"
  ic_connect :: "string \<Rightarrow> int \<Rightarrow> int \<Rightarrow> 'w \<Rightarrow> unit res \<times> 'w"
  ic_req_historical_data :: "ib_request \<Rightarrow> 'w \<Rightarrow> ib_bar list res \<times> 'w"

record IBKRHistoricalDataSource =
  ih_host :: string
  ih_port :: int
  ih_client_id :: int
  ih_use_rth :: bool

section \<open>Symbols\<close>

definition ib_parse_contract_symbol :: "ContractSymbol \<Rightarrow> (string \<times> char \<times> int) res" where
  "ib_parse_contract_symbol s =
     (if length s < IB_MIN_SYMBOL_LENGTH then Inl ContractNotConfigured
      else
        (let year_str = drop (length s - 2) s; month_code = s ! (length s - 3); rt = take (length s - 3) s
         in if \<not> all_digits year_str then Inl ContractNotConfigured
            else if month_code \<notin> fst ` set MONTH_CODE_TO_NUMBER then Inl ContractNotConfigured
            else if rt \<notin> fst ` set EXCHANGE_BY_ROOT then Inl ContractNotConfigured
            else Inr (rt, month_code, int (digits_val year_str))))"

definition build_ib_contract :: "ContractSymbol \<Rightarrow> ib_contract res" where
  "build_ib_contract contract =
     bindE (ib_parse_contract_symbol contract) (\<lambda>(rt, month_code, year_2dig).
       case (map_of MONTH_CODE_TO_NUMBER month_code, map_of EXCHANGE_BY_ROOT rt) of
         (Some month_num, Some exchange) \<Rightarrow>
           (let century = (if year_2dig < Y2K_CENTURY_PIVOT_YEAR then 2000 else 1900); year_full = century + year_2dig
            in Inr \<lparr>ic_symbol = rt, ic_last_trade_date = zpad 4 (nat year_full) @ zpad 2 (nat month_num), ic_exchange = exchange\<rparr>)
       | _ \<Rightarrow> Inl KeyError)"

definition ib_contract_key :: "ContractSymbol \<Rightarrow> string \<Rightarrow> string res" where
  "ib_contract_key contract what_to_show =
     bindE (ib_parse_contract_symbol contract) (\<lambda>(rt, month_code, year_2dig).
       case map_of EXCHANGE_BY_ROOT rt of
         None \<Rightarrow> Inl KeyError
       | Some exchange \<Rightarrow> Inr (contract @ ''@'' @ exchange @ ''@'' @ what_to_show))"

section \<open>The fields of a request\<close>

definition map_bar_size :: "BarResolution \<Rightarrow> string res" where
  "map_bar_size resolution = (case map_of BAR_SIZE_MAP resolution of None \<Rightarrow> Inl BarsNotSupported | Some bar_size \<Rightarrow> Inr bar_size)"

definition compute_duration_str :: "datetime \<Rightarrow> datetime \<Rightarrow> string" where
  "compute_duration_str ts_start ts_end =
     (let delta_seconds = (dt_instant ts_end - dt_instant ts_start) div 1000000
      in if delta_seconds < SECONDS_PER_DAY then show_int delta_seconds @ '' S''
         else let delta_days = (delta_seconds + SECONDS_PER_DAY - 1) div SECONDS_PER_DAY in show_int delta_days @ '' D'')"

definition format_end_datetime :: "datetime \<Rightarrow> string res" where
  "format_end_datetime ts_end =
     bindE (require (dt_aware ts_end) ValueError) (\<lambda>_.
     bindE (to_utc ts_end) (\<lambda>u.
       let d = dt_date u
       in Inr (show_int (year_of d) @ zpad 2 (nat (month_of d)) @ zpad 2 (nat (day_of d)) @ '' '' @
               iso_hms (dt_local u mod 86400000000) @ '' UTC'')))"

section \<open>The connection and the requests\<close>

definition ensure_connected :: "'w ib_client \<Rightarrow> IBKRHistoricalDataSource \<Rightarrow> 'w \<Rightarrow> unit res \<times> 'w" where
  "ensure_connected ic ih w =
     (if ic_is_connected ic w then (Inr (), w)
      else case ic_connect ic (ih_host ih) (ih_port ih) (ih_client_id ih) w of
             (Inl e, w') \<Rightarrow> (Inl IBKRConnectionError, w')
           | (Inr _, w') \<Rightarrow> (Inr (), w'))"

text \<open>The \<open>with\<close> block around a request: a slot is taken, the request made, and the slot given back on every way out.\<close>

definition limited_request ::
  "'w ib_client \<Rightarrow> MonotonicClock \<Rightarrow> string \<Rightarrow> ib_request \<Rightarrow> BackoffQueue \<Rightarrow> 'w \<Rightarrow> (ib_bar list res \<times> BackoffQueue \<times> 'w) option" where
  "limited_request ic clock key rq q w =
     (case acquire clock key q of
        None \<Rightarrow> None
      | Some (Inl e, q1) \<Rightarrow> Some (Inl e, q1, w)
      | Some (Inr _, q1) \<Rightarrow>
          (case ic_req_historical_data ic rq w of
             (Inl e, w1) \<Rightarrow> Some (Inl (if e = IBKRConnectionError then e else IBKRReqError), release q1, w1)
           | (Inr bars, w1) \<Rightarrow> Some (Inr bars, release q1, w1)))"

text \<open>Both queries: connect, name the limit, request.\<close>

definition connected_request ::
  "'w ib_client \<Rightarrow> IBKRHistoricalDataSource \<Rightarrow> MonotonicClock \<Rightarrow> ContractSymbol \<Rightarrow> ib_request \<Rightarrow> BackoffQueue \<Rightarrow> 'w \<Rightarrow>
   (ib_bar list res \<times> BackoffQueue \<times> 'w) option" where
  "connected_request ic ih clock contract rq q w =
     (case ensure_connected ic ih w of
        (Inl e, w1) \<Rightarrow> Some (Inl e, q, w1)
      | (Inr _, w1) \<Rightarrow>
          (case ib_contract_key contract ''TRADES'' of
             Inl e \<Rightarrow> Some (Inl e, q, w1)
           | Inr key \<Rightarrow> limited_request ic clock key rq q w1))"

section \<open>What comes back\<close>

definition coerce_ts_to_utc :: "ib_date \<Rightarrow> datetime res" where
  "coerce_ts_to_utc raw_ts =
     (case raw_ts of
        IB_datetime t \<Rightarrow> if \<not> dt_aware t then Inl IBKRReqError else to_utc t
      | IB_date d \<Rightarrow> Inr \<lparr>dt_local = d * 86400000000 + 43200000000, dt_off = Some 0\<rparr>
      | IB_number t \<Rightarrow> t
      | IB_text s \<Rightarrow> bindE (datetime_fromisoformat s) (\<lambda>t. if \<not> dt_aware t then Inl IBKRReqError else to_utc t)
      | IB_other \<Rightarrow> Inl IBKRReqError)"

definition ib_decimal :: "string \<Rightarrow> decimal res" where
  "ib_decimal text = (case parse_decimal text of None \<Rightarrow> Inl InvalidOperation | Some d \<Rightarrow> Inr d)"

definition ib_volume :: "int res option \<Rightarrow> int res" where
  "ib_volume v = (case v of None \<Rightarrow> Inr 0 | Some n \<Rightarrow> n)"

definition ib_bar_to_raw ::
  "(string \<Rightarrow> string) \<Rightarrow> ContractSymbol \<Rightarrow> BarResolution \<Rightarrow> datetime \<Rightarrow> ib_bar \<Rightarrow> RawBar res" where
  "ib_bar_to_raw dec_text contract resolution as_of_iso b =
     bindE (coerce_ts_to_utc (bar_date b)) (\<lambda>ts.
     bindE (ib_decimal (bar_open b)) (\<lambda>open_d.
     bindE (ib_decimal (bar_high b)) (\<lambda>high_d.
     bindE (ib_decimal (bar_low b)) (\<lambda>low_d.
     bindE (ib_decimal (bar_close b)) (\<lambda>close_d.
     bindE (ib_volume (bar_volume b)) (\<lambda>volume.
     let payload =
           ''{'' @ json_string ''close'' @ '': '' @ json_string (dec_text (bar_close b)) @
           '', '' @ json_string ''contract'' @ '': '' @ json_string contract @
           '', '' @ json_string ''high'' @ '': '' @ json_string (dec_text (bar_high b)) @
           '', '' @ json_string ''low'' @ '': '' @ json_string (dec_text (bar_low b)) @
           '', '' @ json_string ''open'' @ '': '' @ json_string (dec_text (bar_open b)) @
           '', '' @ json_string ''resolution'' @ '': '' @ json_string (resolution_value resolution) @
           '', '' @ json_string ''ts'' @ '': '' @ json_string (dt_isoformat ts) @
           '', '' @ json_string ''volume'' @ '': '' @ show_int volume @ ''}'';
         r = \<lparr>rb_contract = contract, rb_ts = ts, rb_resolution = resolution, rb_open = open_d, rb_high = high_d, rb_low = low_d,
              rb_close = close_d, rb_volume = volume, rb_oi = None, rb_source_id = IBKR_SOURCE_ID, rb_as_of_iso = as_of_iso,
              rb_content_bytes_sha = content_sha256 payload\<rparr>
     in bindE (RawBar_post_init r) (\<lambda>_. Inr r)))))))"

definition compute_settle_state :: "(int \<Rightarrow> int) \<Rightarrow> datetime \<Rightarrow> datetime \<Rightarrow> SettleState res" where
  "compute_settle_state ct_at bar_ts_utc as_of_utc =
     bindE (astimezone ct_at bar_ts_utc) (\<lambda>bar_ct.
       let lag_hours = (if weekday (dt_date bar_ct) = FRIDAY then PRELIMINARY_PUBLISH_LAG_HOURS_FRIDAY
                        else PRELIMINARY_PUBLISH_LAG_HOURS_WEEKDAY)
       in Inr (if dt_instant as_of_utc - dt_instant bar_ts_utc < lag_hours * 3600000000 then settle_preliminary else settle_final))"

definition settle_payload ::
  "(string \<Rightarrow> string) \<Rightarrow> (decimal \<Rightarrow> string) \<Rightarrow> ContractSymbol \<Rightarrow> date \<Rightarrow> datetime \<Rightarrow> decimal option \<Rightarrow> SettleState \<Rightarrow> int \<Rightarrow> ib_bar \<Rightarrow> string" where
  "settle_payload dec_text dec_str contract as_of_date bar_ts_utc change state volume b =
     ''{'' @ json_string ''as_of_date'' @ '': '' @ json_string (date_isoformat as_of_date) @
     '', '' @ json_string ''bar_ts_utc'' @ '': '' @ json_string (dt_isoformat bar_ts_utc) @
     '', '' @ json_string ''change'' @ '': '' @ json_string (case change of None \<Rightarrow> ''0'' | Some d \<Rightarrow> dec_str d) @
     '', '' @ json_string ''contract'' @ '': '' @ json_string contract @
     '', '' @ json_string ''high'' @ '': '' @ json_string (dec_text (bar_high b)) @
     '', '' @ json_string ''last'' @ '': '' @ json_string (dec_text (bar_close b)) @
     '', '' @ json_string ''low'' @ '': '' @ json_string (dec_text (bar_low b)) @
     '', '' @ json_string ''open'' @ '': '' @ json_string (dec_text (bar_open b)) @
     '', '' @ json_string ''settle'' @ '': '' @ json_string (dec_text (bar_close b)) @
     '', '' @ json_string ''settle_state'' @ '': '' @ json_string (settle_state_value state) @
     '', '' @ json_string ''volume_est'' @ '': '' @ show_int volume @ ''}''"

definition ib_settle ::
  "ContractSymbol \<Rightarrow> date \<Rightarrow> decimal \<Rightarrow> SettleState \<Rightarrow> decimal \<Rightarrow> decimal \<Rightarrow> decimal \<Rightarrow> decimal option \<Rightarrow> int \<Rightarrow> datetime \<Rightarrow> string \<Rightarrow> char \<Rightarrow> Settle" where
  "ib_settle contract as_of_date settle_d settle_state open_d high_d low_d change volume_est now content_sha month_code =
     \<lparr>st_contract = contract, st_as_of_date = as_of_date, st_settle = settle_d, st_settle_state = settle_state, st_open = open_d,
      st_high = high_d, st_low = low_d, st_last = settle_d, st_change = (case change of None \<Rightarrow> 0 | Some d \<Rightarrow> d),
      st_volume_est = volume_est, st_oi_prior = 0, st_source_id = IBKR_SOURCE_ID, st_as_of_iso = Some now,
      st_content_bytes_sha = content_sha, st_cme_month_code = [month_code]\<rparr>"

definition ib_bar_to_settle ::
  "(string \<Rightarrow> string) \<Rightarrow> (decimal \<Rightarrow> string) \<Rightarrow> (int \<Rightarrow> int) \<Rightarrow> datetime \<Rightarrow> ContractSymbol \<Rightarrow> datetime \<Rightarrow> ib_bar option \<Rightarrow> ib_bar \<Rightarrow> Settle res" where
  "ib_bar_to_settle dec_text dec_str ct_at now contract as_of_utc prior_bar b =
     bindE (coerce_ts_to_utc (bar_date b)) (\<lambda>bar_ts_utc.
     bindE (ib_decimal (bar_close b)) (\<lambda>settle_d.
     bindE (ib_decimal (bar_open b)) (\<lambda>open_d.
     bindE (ib_decimal (bar_high b)) (\<lambda>high_d.
     bindE (ib_decimal (bar_low b)) (\<lambda>low_d.
     bindE (case prior_bar of None \<Rightarrow> Inr None | Some p \<Rightarrow> bindE (ib_decimal (bar_close p)) (\<lambda>d. Inr (Some (dsub settle_d d)))) (\<lambda>change.
     bindE (ib_volume (bar_volume b)) (\<lambda>volume_est.
     bindE (compute_settle_state ct_at bar_ts_utc as_of_utc) (\<lambda>state.
     bindE (astimezone ct_at bar_ts_utc) (\<lambda>bar_ct.
     bindE (ib_parse_contract_symbol contract) (\<lambda>(rt, month_code, year).
     let content_sha = content_sha256 (settle_payload dec_text dec_str contract (dt_date bar_ct) bar_ts_utc change state volume_est b);
         r = ib_settle contract (dt_date bar_ct) settle_d state open_d high_d low_d change volume_est now content_sha month_code
     in bindE (Settle_post_init r) (\<lambda>_. Inr r)))))))))))"

section \<open>The queries\<close>

definition ib_comparable :: "datetime \<Rightarrow> datetime \<Rightarrow> unit res" where
  "ib_comparable s t = require (dt_aware s = dt_aware t) TypeError"

definition ib_bars_request :: "IBKRHistoricalDataSource \<Rightarrow> ContractSymbol \<Rightarrow> datetime \<Rightarrow> datetime \<Rightarrow> BarResolution \<Rightarrow> ib_request res" where
  "ib_bars_request ih contract ts_start ts_end resolution =
     bindE (ib_comparable ts_start ts_end) (\<lambda>_.
     bindE (require (\<not> dt_instant ts_end \<le> dt_instant ts_start) ValueError) (\<lambda>_.
     bindE (map_bar_size resolution) (\<lambda>bar_size.
     bindE (build_ib_contract contract) (\<lambda>ibc.
     bindE (format_end_datetime ts_end) (\<lambda>end_datetime.
     Inr \<lparr>rq_contract = ibc, rq_end_datetime = end_datetime, rq_duration = compute_duration_str ts_start ts_end,
          rq_bar_size = bar_size, rq_what_to_show = ''TRADES'', rq_use_rth = ih_use_rth ih\<rparr>)))))"

definition ib_get_bars ::
  "(string \<Rightarrow> string) \<Rightarrow> 'w ib_client \<Rightarrow> IBKRHistoricalDataSource \<Rightarrow> MonotonicClock \<Rightarrow> datetime \<Rightarrow>
   ContractSymbol \<Rightarrow> datetime \<Rightarrow> datetime \<Rightarrow> BarResolution \<Rightarrow> BackoffQueue \<Rightarrow> 'w \<Rightarrow> (RawBar list res \<times> BackoffQueue \<times> 'w) option" where
  "ib_get_bars dec_text ic ih clock now contract ts_start ts_end resolution q w =
     (case ib_bars_request ih contract ts_start ts_end resolution of
        Inl e \<Rightarrow> Some (Inl e, q, w)
      | Inr rq \<Rightarrow>
          (case connected_request ic ih clock contract rq q w of
             None \<Rightarrow> None
           | Some (r, q', w') \<Rightarrow> Some (bindE r (traverse (ib_bar_to_raw dec_text contract resolution now)), q', w')))"

definition ib_settle_request :: "IBKRHistoricalDataSource \<Rightarrow> ContractSymbol \<Rightarrow> datetime \<Rightarrow> ib_request res" where
  "ib_settle_request ih contract as_of_utc =
     bindE (build_ib_contract contract) (\<lambda>ibc.
     bindE (format_end_datetime as_of_utc) (\<lambda>end_datetime.
     Inr \<lparr>rq_contract = ibc, rq_end_datetime = end_datetime, rq_duration = ''2 D'', rq_bar_size = ''1 day'',
          rq_what_to_show = ''TRADES'', rq_use_rth = ih_use_rth ih\<rparr>))"

definition settle_of_bars ::
  "(string \<Rightarrow> string) \<Rightarrow> (decimal \<Rightarrow> string) \<Rightarrow> (int \<Rightarrow> int) \<Rightarrow> datetime \<Rightarrow> ContractSymbol \<Rightarrow> datetime \<Rightarrow> ib_bar list \<Rightarrow> Settle option res" where
  "settle_of_bars dec_text dec_str ct_at now contract as_of_utc ib_bars =
     (if ib_bars = [] then Inr None
      else bindE (traverse (\<lambda>b. bindE (coerce_ts_to_utc (bar_date b)) (\<lambda>t. Inr (dt_instant t, b))) ib_bars) (\<lambda>keyed.
           let ib_bars_sorted = map snd (sort_key fst keyed);
               latest = last ib_bars_sorted;
               prior = (if length ib_bars_sorted \<ge> 2 then Some (last (butlast ib_bars_sorted)) else None)
           in bindE (ib_bar_to_settle dec_text dec_str ct_at now contract as_of_utc prior latest) (\<lambda>s. Inr (Some s))))"

definition ib_latest_settle ::
  "(string \<Rightarrow> string) \<Rightarrow> (decimal \<Rightarrow> string) \<Rightarrow> (int \<Rightarrow> int) \<Rightarrow> 'w ib_client \<Rightarrow> IBKRHistoricalDataSource \<Rightarrow> MonotonicClock \<Rightarrow> datetime \<Rightarrow>
   ContractSymbol \<Rightarrow> datetime \<Rightarrow> BackoffQueue \<Rightarrow> 'w \<Rightarrow> (Settle option res \<times> BackoffQueue \<times> 'w) option" where
  "ib_latest_settle dec_text dec_str ct_at ic ih clock now contract as_of q w =
     (if \<not> dt_aware as_of then Some (Inl ValueError, q, w)
      else case to_utc as_of of
        Inl e \<Rightarrow> Some (Inl e, q, w)
      | Inr as_of_utc \<Rightarrow>
          (case ib_settle_request ih contract as_of_utc of
             Inl e \<Rightarrow> Some (Inl e, q, w)
           | Inr rq \<Rightarrow>
               (case connected_request ic ih clock contract rq q w of
                  None \<Rightarrow> None
                | Some (r, q', w') \<Rightarrow>
                    Some (bindE r (settle_of_bars dec_text dec_str ct_at now contract as_of_utc), q', w'))))"

end
