(* ===== verification/Py_Float.thy ===== *)
theory Py_Float
  imports Rounding
begin

text \<open>
  Python's \<open>float\<close>: a finite value is its rational number; every operation computes the exact result and rounds it half to
  even to 53 binary digits, as the hardware does. What the representation leaves out: infinities and NaN, the exponent
  range (overflow, and the loss of digits below two to the -1022), and the sign of zero. \<open>math.fsum\<close> rounds the exact sum, and
  \<open>math.sqrt\<close> is correctly rounded. The interpretation \<open>fl64\<close> proves the laws of the locale \<open>rounding\<close>.
\<close>

type_synonym pyfloat = rat

definition fround :: "rat \<Rightarrow> pyfloat" where
  "fround x = radix_round 2 53 x"

definition fadd :: "pyfloat \<Rightarrow> pyfloat \<Rightarrow> pyfloat" where
  "fadd a b = fround (a + b)"

definition fsub :: "pyfloat \<Rightarrow> pyfloat \<Rightarrow> pyfloat" where
  "fsub a b = fround (a - b)"

definition fmul :: "pyfloat \<Rightarrow> pyfloat \<Rightarrow> pyfloat" where
  "fmul a b = fround (a * b)"

text \<open>A quotient whose divisor is known not to be zero.\<close>

definition fdiv :: "pyfloat \<Rightarrow> pyfloat \<Rightarrow> pyfloat" where
  "fdiv a b = fround (a / b)"

text \<open>\<open>float(n)\<close>, which an operation with an \<open>int\<close> applies to it first.\<close>

definition fint :: "int \<Rightarrow> pyfloat" where
  "fint n = fround (of_int n)"

definition fsum :: "pyfloat list \<Rightarrow> pyfloat" where
  "fsum xs = fround (sum_list xs)"

definition fmean :: "pyfloat list \<Rightarrow> pyfloat" where
  "fmean xs = fdiv (fsum xs) (fint (int (length xs)))"

definition fsqrt :: "pyfloat \<Rightarrow> pyfloat" where
  "fsqrt x = radix_sqrt 2 53 x"

text \<open>The true quotient of two integers is rounded once.\<close>

definition int_quotient :: "int \<Rightarrow> int \<Rightarrow> pyfloat" where
  "int_quotient m n = fround (of_int m / of_int n)"

text \<open>A value that a float represents.\<close>

definition frepr :: "rat \<Rightarrow> bool" where
  "frepr x \<longleftrightarrow> fround x = x"

interpretation two: radix 2 53
  by unfold_locales simp_all

interpretation fl64: rounding fround "1 / 2 ^ 53" "2 ^ 53"
proof unfold_locales
  fix x y :: rat and n :: int
  show "x \<le> y \<Longrightarrow> fround x \<le> fround y" unfolding fround_def by (rule two.rnd_mono)
  show "fround (- x) = - fround x" unfolding fround_def by (rule two.rnd_minus)
  show "fround (fround x) = fround x" unfolding fround_def by (rule two.rnd_idem)
  show "\<bar>n\<bar> \<le> 2 ^ 53 \<Longrightarrow> fround (of_int n) = of_int n" unfolding fround_def by (rule two.rnd_small_int) simp
  show "\<bar>fround x - x\<bar> \<le> 1 / 2 ^ 53 * \<bar>x\<bar>" unfolding fround_def using two.rnd_error [of x] by simp
qed simp_all

lemma fround_exact: "x = of_int n * 2 powi e \<Longrightarrow> \<bar>n\<bar> \<le> 2 ^ 53 \<Longrightarrow> fround x = x"
  unfolding fround_def using two.radix_round_exact [of x n e] by simp

lemma frepr_fround [simp]: "frepr (fround x)"
  by (simp add: frepr_def fl64.rnd_idem)

lemma frepr_ops [simp]: "frepr (fadd a b)" "frepr (fsub a b)" "frepr (fmul a b)" "frepr (fdiv a b)" "frepr (fint n)"
    "frepr (fsum xs)" "frepr (fmean xs)" "frepr (int_quotient m n)"
  by (simp_all add: fadd_def fsub_def fmul_def fdiv_def fint_def fsum_def fmean_def int_quotient_def)

lemma fround_frepr: "frepr x \<Longrightarrow> fround x = x"
  by (simp add: frepr_def)

lemma frepr_0 [simp]: "frepr 0" and frepr_1 [simp]: "frepr 1"
  by (simp_all add: frepr_def fl64.rnd_zero fl64.rnd_one)

lemma fint_small: "\<bar>n\<bar> \<le> 2 ^ 53 \<Longrightarrow> fint n = of_int n"
  unfolding fint_def by (rule fl64.rnd_small_int)

lemma frepr_half:
  assumes "\<bar>n\<bar> \<le> 2 ^ 53" shows "frepr (of_int n / 2)"
proof -
  have "of_int n / 2 = (of_int n * 2 powi (- 1) :: rat)" by (simp add: power_int_def)
  from fround_exact [OF this assms] show ?thesis by (simp add: frepr_def)
qed

lemma fmul_mono: "0 \<le> a \<Longrightarrow> a \<le> b \<Longrightarrow> 0 \<le> c \<Longrightarrow> fmul c a \<le> fmul c b"
  unfolding fmul_def by (intro fl64.rnd_mono mult_left_mono)

lemma fmul_nonneg: "0 \<le> a \<Longrightarrow> 0 \<le> b \<Longrightarrow> 0 \<le> fmul a b"
  unfolding fmul_def by (intro fl64.rnd_nonneg mult_nonneg_nonneg)

text \<open>A proportion of a count is a float between zero and one.\<close>

lemma int_quotient_unit: "0 \<le> m \<Longrightarrow> m \<le> n \<Longrightarrow> 0 < n \<Longrightarrow> 0 \<le> int_quotient m n \<and> int_quotient m n \<le> 1"
  unfolding int_quotient_def by (auto intro!: fl64.rnd_nonneg fl64.rnd_le_fixed simp: fl64.rnd_one divide_le_eq)

lemma int_quotient_pos: "0 < m \<Longrightarrow> 0 < n \<Longrightarrow> 0 < int_quotient m n"
  unfolding int_quotient_def by (intro fl64.rnd_pos) simp

end
