(* ===== verification/Multiple_Testing.thy ===== *)
theory Multiple_Testing
  imports Py_Float
begin

text \<open>
  Family-wise and false-discovery corrections (\<open>src/futur3/stats/multiple_testing.py\<close>): the rules of Bonferroni, of Holm and of
  Benjamini and Hochberg on floats. The lemmas characterise the running extremum that Holm and Benjamini-Hochberg write
  along the order of the p-values, and the decisions that follow.
\<close>

record MultipleTestResult =
  mt_method :: string
  mt_level :: pyfloat
  mt_p_values :: "pyfloat list"
  mt_adjusted :: "pyfloat list"
  mt_reject :: "bool list"
  mt_n_reject :: nat

definition any_reject :: "MultipleTestResult \<Rightarrow> bool" where
  "any_reject r \<longleftrightarrow> 0 < mt_n_reject r"

definition mt_validate :: "pyfloat list \<Rightarrow> pyfloat \<Rightarrow> pyfloat list res" where
  "mt_validate p_values level =
     bindE (require (0 < level \<and> level < 1) MultipleTestError) (\<lambda>_.
     bindE (require (p_values \<noteq> []) MultipleTestError) (\<lambda>_.
     bindE (require (list_all (\<lambda>v. 0 \<le> v \<and> v \<le> 1) p_values) MultipleTestError) (\<lambda>_. Inr p_values)))"

definition mt_result :: "string \<Rightarrow> pyfloat \<Rightarrow> pyfloat list \<Rightarrow> pyfloat list \<Rightarrow> bool list \<Rightarrow> MultipleTestResult" where
  "mt_result method level p adj reject =
     \<lparr>mt_method = method, mt_level = level, mt_p_values = p, mt_adjusted = adj, mt_reject = reject,
      mt_n_reject = length (filter id reject)\<rparr>"

definition bonferroni_correct :: "pyfloat list \<Rightarrow> pyfloat \<Rightarrow> MultipleTestResult res" where
  "bonferroni_correct p_values alpha =
     bindE (mt_validate p_values alpha) (\<lambda>p.
       let n = length p;
           adjusted = map (\<lambda>pi. min 1 (fmul pi (fint (int n)))) p;
           reject = map (\<lambda>a. a \<le> alpha) adjusted
       in Inr (mt_result ''bonferroni'' alpha p adjusted reject))"

text \<open>The original indices in ascending order of their p-values.\<close>

definition ascending :: "pyfloat list \<Rightarrow> nat list" where
  "ascending p = sort_key (\<lambda>i. p ! i) [0..<length p]"

text \<open>One pass over ranks and indices that keeps a running value and writes it at each index.\<close>

fun running_assign :: "(pyfloat \<Rightarrow> pyfloat \<Rightarrow> pyfloat) \<Rightarrow> (nat \<Rightarrow> nat \<Rightarrow> pyfloat) \<Rightarrow> (nat \<times> nat) list \<Rightarrow> pyfloat \<Rightarrow> pyfloat list \<Rightarrow> pyfloat list" where
  "running_assign step v [] running adj = adj"
| "running_assign step v ((rank, idx) # rest) running adj =
     (let running' = step running (v rank idx) in running_assign step v rest running' (adj[idx := running']))"

definition holm_value :: "pyfloat list \<Rightarrow> nat \<Rightarrow> nat \<Rightarrow> pyfloat" where
  "holm_value p rank idx = min 1 (fmul (fint (int (length p - rank))) (p ! idx))"

definition holm_bonferroni_correct :: "pyfloat list \<Rightarrow> pyfloat \<Rightarrow> MultipleTestResult res" where
  "holm_bonferroni_correct p_values alpha =
     bindE (mt_validate p_values alpha) (\<lambda>p.
       let order = ascending p;
           adjusted = running_assign max (holm_value p) (enumerate 0 order) 0 (replicate (length p) 0);
           reject = map (\<lambda>a. a \<le> alpha) adjusted
       in Inr (mt_result ''holm'' alpha p adjusted reject))"

definition bh_value :: "pyfloat list \<Rightarrow> nat \<Rightarrow> nat \<Rightarrow> pyfloat" where
  "bh_value p rank idx = min 1 (fdiv (fmul (p ! idx) (fint (int (length p)))) (fint (int rank + 1)))"

definition bh_fdr_correct :: "pyfloat list \<Rightarrow> pyfloat \<Rightarrow> MultipleTestResult res" where
  "bh_fdr_correct p_values q =
     bindE (mt_validate p_values q) (\<lambda>p.
       let order = ascending p;
           adjusted = running_assign min (bh_value p) (rev (enumerate 0 order)) 1 (replicate (length p) 0);
           reject = map (\<lambda>a. a \<le> q) adjusted
       in Inr (mt_result ''bh_fdr'' q p adjusted reject))"

section \<open>The running value\<close>

lemma length_running_assign [simp]: "length (running_assign step v ps r adj) = length adj"
  by (induction step v ps r adj rule: running_assign.induct) (simp_all add: Let_def)

lemma running_assign_other: "i \<notin> snd ` set ps \<Longrightarrow> running_assign step v ps r adj ! i = adj ! i"
  by (induction step v ps r adj rule: running_assign.induct) (auto simp: Let_def)

lemma running_assign_nth:
  assumes "distinct (map snd ps)" "\<forall>x \<in> snd ` set ps. x < length adj" "k < length ps"
  shows "running_assign step v ps r adj ! snd (ps ! k) = foldl (\<lambda>r x. step r (v (fst x) (snd x))) r (take (Suc k) ps)"
  using assms
proof (induction step v ps r adj arbitrary: k rule: running_assign.induct)
  case (2 step v rank idx rest r adj)
  show ?case
  proof (cases k)
    case 0
    have "idx \<notin> snd ` set rest" using "2.prems"(1) by simp
    then show ?thesis using "2.prems"(2) 0 by (simp add: Let_def running_assign_other)
  next
    case (Suc j)
    then show ?thesis using "2.IH" [OF refl, of j] "2.prems" by (simp add: Let_def)
  qed
qed simp

lemma foldl_max_le_iff: "foldl (\<lambda>r x. max r (f x)) a xs \<le> (c :: pyfloat) \<longleftrightarrow> a \<le> c \<and> (\<forall>x \<in> set xs. f x \<le> c)"
  by (induction xs arbitrary: a) auto

lemma foldl_min_ge_iff: "(c :: pyfloat) \<le> foldl (\<lambda>r x. min r (f x)) a xs \<longleftrightarrow> c \<le> a \<and> (\<forall>x \<in> set xs. c \<le> f x)"
  by (induction xs arbitrary: a) auto

lemma foldl_min_le_iff: "foldl (\<lambda>r x. min r (f x)) a xs \<le> (c :: pyfloat) \<longleftrightarrow> a \<le> c \<or> (\<exists>x \<in> set xs. f x \<le> c)"
  by (induction xs arbitrary: a) (auto simp: min_le_iff_disj)

lemma ascending_simps [simp]: "length (ascending p) = length p" "distinct (ascending p)" "set (ascending p) = {..<length p}"
  by (auto simp: ascending_def)

lemma ascending_index: "r < length p \<Longrightarrow> ascending p ! r < length p"
  using nth_mem [of r "ascending p"] by simp

lemma ascending_sorted: "s \<le> t \<Longrightarrow> t < length p \<Longrightarrow> p ! (ascending p ! s) \<le> p ! (ascending p ! t)"
  using sorted_nth_mono [of "map (\<lambda>i. p ! i) (ascending p)" s t] by (simp add: ascending_def)

lemma ascending_rank: "i < length p \<Longrightarrow> \<exists>r < length p. ascending p ! r = i"
  using ascending_simps(1,3) [of p] by (metis in_set_conv_nth lessThan_iff)

text \<open>What Holm's pass writes at the index of a rank, and what the pass of Benjamini and Hochberg writes.\<close>

definition holm_adjusted :: "pyfloat list \<Rightarrow> pyfloat list" where
  "holm_adjusted p = running_assign max (holm_value p) (enumerate 0 (ascending p)) 0 (replicate (length p) 0)"

definition bh_adjusted :: "pyfloat list \<Rightarrow> pyfloat list" where
  "bh_adjusted p = running_assign min (bh_value p) (rev (enumerate 0 (ascending p))) 1 (replicate (length p) 0)"

lemma enumerate_facts:
  "distinct (map snd (enumerate 0 xs)) = distinct xs" "snd ` set (enumerate 0 xs) = set xs"
  by (simp_all add: map_snd_enumerate flip: set_map)

lemma set_take_enumerate: "k < length xs \<Longrightarrow> set (take (Suc k) (enumerate 0 xs)) = {(s, xs ! s) |s. s \<le> k}"
  by (force simp: in_set_conv_nth nth_enumerate_eq less_Suc_eq_le)

lemma holm_le_iff:
  assumes "r < length p"
  shows "holm_adjusted p ! (ascending p ! r) \<le> c \<longleftrightarrow> 0 \<le> c \<and> (\<forall>s \<le> r. holm_value p s (ascending p ! s) \<le> c)"
proof -
  have "holm_adjusted p ! snd (enumerate 0 (ascending p) ! r) =
      foldl (\<lambda>r x. max r (holm_value p (fst x) (snd x))) 0 (take (Suc r) (enumerate 0 (ascending p)))"
    unfolding holm_adjusted_def by (rule running_assign_nth) (use assms in \<open>simp_all add: enumerate_facts\<close>)
  moreover have "snd (enumerate 0 (ascending p) ! r) = ascending p ! r" using assms by (simp add: nth_enumerate_eq)
  ultimately show ?thesis using assms by (auto simp: foldl_max_le_iff set_take_enumerate)
qed

lemma set_take_rev_enumerate:
  assumes "r < length xs"
  shows "set (take (length xs - r) (rev (enumerate 0 xs))) = {(s, xs ! s) |s. r \<le> s \<and> s < length xs}"
proof -
  have "take (length xs - r) (rev (enumerate 0 xs)) = rev (drop r (enumerate 0 xs))"
    using assms by (simp add: rev_drop)
  moreover have "set (drop r (enumerate 0 xs)) = {(s, xs ! s) |s. r \<le> s \<and> s < length xs}"
  proof (rule set_eqI)
    fix x
    show "x \<in> set (drop r (enumerate 0 xs)) \<longleftrightarrow> x \<in> {(s, xs ! s) |s. r \<le> s \<and> s < length xs}"
    proof
      assume "x \<in> {(s, xs ! s) |s. r \<le> s \<and> s < length xs}"
      then obtain s where "x = (s, xs ! s)" "r \<le> s" "s < length xs" by blast
      then have "s - r < length (drop r (enumerate 0 xs))" "drop r (enumerate 0 xs) ! (s - r) = x"
        by (simp_all add: nth_enumerate_eq)
      then show "x \<in> set (drop r (enumerate 0 xs))" by (metis nth_mem)
    qed (auto simp: in_set_conv_nth nth_enumerate_eq)
  qed
  ultimately show ?thesis by simp
qed

lemma bh_iff:
  assumes "r < length p"
  shows bh_ge_iff: "c \<le> bh_adjusted p ! (ascending p ! r) \<longleftrightarrow> c \<le> 1 \<and> (\<forall>s. r \<le> s \<and> s < length p \<longrightarrow> c \<le> bh_value p s (ascending p ! s))"
    and bh_le_iff: "bh_adjusted p ! (ascending p ! r) \<le> c \<longleftrightarrow> 1 \<le> c \<or> (\<exists>s. r \<le> s \<and> s < length p \<and> bh_value p s (ascending p ! s) \<le> c)"
proof -
  let ?e = "rev (enumerate 0 (ascending p))" and ?k = "length p - Suc r"
  have k: "?k < length ?e" "Suc ?k = length p - r" using assms by simp_all
  have "bh_adjusted p ! snd (?e ! ?k) = foldl (\<lambda>r x. min r (bh_value p (fst x) (snd x))) 1 (take (Suc ?k) ?e)"
    unfolding bh_adjusted_def by (rule running_assign_nth) (use assms in \<open>simp_all add: enumerate_facts flip: rev_map\<close>)
  moreover have "snd (?e ! ?k) = ascending p ! r" using assms by (simp add: rev_nth nth_enumerate_eq)
  ultimately have eq: "bh_adjusted p ! (ascending p ! r) =
      foldl (\<lambda>r x. min r (bh_value p (fst x) (snd x))) 1 (take (length p - r) ?e)"
    using k(2) by simp
  show "c \<le> bh_adjusted p ! (ascending p ! r) \<longleftrightarrow> c \<le> 1 \<and> (\<forall>s. r \<le> s \<and> s < length p \<longrightarrow> c \<le> bh_value p s (ascending p ! s))"
    "bh_adjusted p ! (ascending p ! r) \<le> c \<longleftrightarrow> 1 \<le> c \<or> (\<exists>s. r \<le> s \<and> s < length p \<and> bh_value p s (ascending p ! s) \<le> c)"
    unfolding eq using set_take_rev_enumerate [of r "ascending p"] assms by (auto simp: foldl_min_ge_iff foldl_min_le_iff)
qed

section \<open>Ties and thresholds\<close>

lemma fint_mono: "m \<le> n \<Longrightarrow> fint m \<le> fint n"
  unfolding fint_def by (intro fl64.rnd_mono) simp

lemma fint_nonneg: "0 \<le> n \<Longrightarrow> 0 \<le> fint n"
  unfolding fint_def by (intro fl64.rnd_nonneg) simp

lemma fint_pos: "0 < n \<Longrightarrow> 0 < fint n"
  unfolding fint_def by (intro fl64.rnd_pos) simp

lemma holm_value_antimono:
  assumes "s \<le> t" "p ! i = p ! j" "0 \<le> p ! i"
  shows "holm_value p t j \<le> holm_value p s i"
proof -
  have "fint (int (length p - t)) * p ! j \<le> fint (int (length p - s)) * p ! i"
    unfolding assms(2) [symmetric] by (intro mult_right_mono fint_mono assms(3)) (use assms(1) in simp)
  then show ?thesis unfolding holm_value_def fmul_def by (intro min.mono fl64.rnd_mono) simp_all
qed

lemma bh_value_antimono:
  assumes "s \<le> t" "p ! i = p ! j" "0 \<le> p ! i"
  shows "bh_value p t j \<le> bh_value p s i"
proof -
  have "fmul (p ! j) (fint (int (length p))) / fint (int t + 1) \<le> fmul (p ! i) (fint (int (length p))) / fint (int s + 1)"
    unfolding assms(2) [symmetric]
    by (intro divide_left_mono fint_mono mult_pos_pos fint_pos fmul_nonneg fint_nonneg assms(3)) (use assms(1) in simp_all)
  then show ?thesis unfolding bh_value_def fdiv_def by (intro min.mono fl64.rnd_mono) simp_all
qed

text \<open>Between two ranks that are out of order the p-values are equal.\<close>

lemma ascending_tie:
  assumes "s \<le> t" "t \<le> r" "r < length p" "p ! (ascending p ! r) \<le> p ! (ascending p ! s)"
  shows "p ! (ascending p ! t) = p ! (ascending p ! s)" "p ! (ascending p ! r) = p ! (ascending p ! t)"
  using ascending_sorted [of s t p] ascending_sorted [of t r p] assms by linarith+

lemma holm_adjusted_mono:
  assumes p: "list_all (\<lambda>v. 0 \<le> v \<and> v \<le> 1) p" and i: "i < length p" "j < length p" "p ! i \<le> p ! j"
  shows "holm_adjusted p ! i \<le> holm_adjusted p ! j"
proof -
  obtain r s where r: "r < length p" "ascending p ! r = i" and s: "s < length p" "ascending p ! s = j"
    using ascending_rank i by metis
  define c where "c = holm_adjusted p ! j"
  have c: "0 \<le> c" "\<And>t. t \<le> s \<Longrightarrow> holm_value p t (ascending p ! t) \<le> c"
    using holm_le_iff [OF s(1), of c] by (simp_all add: c_def s(2))
  have "holm_value p t (ascending p ! t) \<le> c" if t: "t \<le> r" for t
  proof (cases "t \<le> s")
    case False
    then have "p ! (ascending p ! t) = p ! (ascending p ! s)"
      using ascending_tie(1) [of s t r p] t r i(3) s(2) by simp
    moreover have "0 \<le> p ! (ascending p ! s)" using p s by (simp add: list_all_length i(2))
    ultimately have "holm_value p t (ascending p ! t) \<le> holm_value p s (ascending p ! s)"
      using False by (intro holm_value_antimono) simp_all
    then show ?thesis using c(2) [of s] by simp
  qed (rule c(2))
  then show ?thesis using holm_le_iff [OF r(1), of c] c(1) by (simp add: r(2) c_def)
qed

lemma bh_adjusted_mono:
  assumes p: "list_all (\<lambda>v. 0 \<le> v \<and> v \<le> 1) p" and i: "i < length p" "j < length p" "p ! i \<le> p ! j"
  shows "bh_adjusted p ! i \<le> bh_adjusted p ! j"
proof -
  obtain r s where r: "r < length p" "ascending p ! r = i" and s: "s < length p" "ascending p ! s = j"
    using ascending_rank i by metis
  define c where "c = bh_adjusted p ! i"
  have c: "c \<le> 1" "\<And>t. r \<le> t \<Longrightarrow> t < length p \<Longrightarrow> c \<le> bh_value p t (ascending p ! t)"
    using bh_ge_iff [OF r(1), of c] by (simp_all add: c_def r(2))
  have "c \<le> bh_value p t (ascending p ! t)" if t: "s \<le> t" "t < length p" for t
  proof (cases "r \<le> t")
    case False
    then have "p ! (ascending p ! t) = p ! (ascending p ! r)"
      using ascending_tie(2) [of s t r p] t r i(3) s(2) by simp
    moreover have "0 \<le> p ! (ascending p ! t)"
      using p ascending_index [OF t(2)] by (simp add: list_all_length)
    ultimately have "bh_value p r (ascending p ! r) \<le> bh_value p t (ascending p ! t)"
      using False by (intro bh_value_antimono) simp_all
    then show ?thesis using c(2) [of r] r(1) by simp
  qed (use c(2) t(2) in simp)
  then show ?thesis using bh_ge_iff [OF s(1), of c] c(1) by (simp add: s(2) c_def)
qed

section \<open>The corrections\<close>

definition bonferroni_adjusted :: "pyfloat list \<Rightarrow> pyfloat list" where
  "bonferroni_adjusted p = map (\<lambda>pi. min 1 (fmul pi (fint (int (length p))))) p"

lemma corrections_Inr:
  "bonferroni_correct p a = Inr b \<longleftrightarrow> mt_validate p a = Inr p \<and>
     b = mt_result ''bonferroni'' a p (bonferroni_adjusted p) (map (\<lambda>x. x \<le> a) (bonferroni_adjusted p))"
  "holm_bonferroni_correct p a = Inr b \<longleftrightarrow> mt_validate p a = Inr p \<and>
     b = mt_result ''holm'' a p (holm_adjusted p) (map (\<lambda>x. x \<le> a) (holm_adjusted p))"
  "bh_fdr_correct p a = Inr b \<longleftrightarrow> mt_validate p a = Inr p \<and>
     b = mt_result ''bh_fdr'' a p (bh_adjusted p) (map (\<lambda>x. x \<le> a) (bh_adjusted p))"
  unfolding bonferroni_correct_def holm_bonferroni_correct_def bh_fdr_correct_def
  by (auto simp: bindE_Inr_iff mt_validate_def Let_def bonferroni_adjusted_def holm_adjusted_def bh_adjusted_def)

lemma mt_validate_Inr: "mt_validate p a = Inr ps \<longleftrightarrow> 0 < a \<and> a < 1 \<and> p \<noteq> [] \<and> list_all (\<lambda>v. 0 \<le> v \<and> v \<le> 1) p \<and> ps = p"
  by (auto simp: mt_validate_def res_simps)

lemma length_adjusted [simp]: "length (bonferroni_adjusted p) = length p" "length (holm_adjusted p) = length p"
    "length (bh_adjusted p) = length p"
  by (simp_all add: bonferroni_adjusted_def holm_adjusted_def bh_adjusted_def)

lemma bonferroni_le_holm:
  assumes p: "list_all (\<lambda>v. 0 \<le> v \<and> v \<le> 1) p" and i: "i < length p"
  shows "holm_adjusted p ! i \<le> bonferroni_adjusted p ! i"
proof -
  obtain r where r: "r < length p" "ascending p ! r = i" using ascending_rank i by metis
  have pos: "0 \<le> p ! (ascending p ! s)" if "s < length p" for s
    using p ascending_index [OF that] by (simp add: list_all_length)
  have "holm_value p s (ascending p ! s) \<le> bonferroni_adjusted p ! i" if s: "s \<le> r" for s
  proof -
    have "fint (int (length p - s)) * p ! (ascending p ! s) \<le> p ! i * fint (int (length p))"
      using ascending_sorted [OF s r(1)] pos [of s] s r
      by (subst mult.commute) (intro mult_mono fint_mono fint_nonneg, auto)
    then show ?thesis
      unfolding holm_value_def bonferroni_adjusted_def fmul_def using i by (simp add: min.coboundedI2 fl64.rnd_mono)
  qed
  moreover have "0 \<le> bonferroni_adjusted p ! i"
    using i p by (simp add: bonferroni_adjusted_def fmul_nonneg fint_nonneg list_all_length)
  ultimately show ?thesis using holm_le_iff [OF r(1)] r(2) by blast
qed

text \<open>
  C35. The three corrections decide as their papers say. On the p-values in ascending order Holm rejects a hypothesis exactly
  when it and all before it pass their thresholds, Benjamini and Hochberg exactly when it or one after it does; the verdict
  never depends on the order in which tied or untied hypotheses are listed, since a smaller p-value never has a larger adjusted
  one; and Holm rejects whatever Bonferroni rejects. All of this holds of the floats themselves, rounding included.
\<close>

theorem corrections_exact:
  assumes "bonferroni_correct p a = Inr b" "holm_bonferroni_correct p a = Inr h" "bh_fdr_correct p a = Inr f"
  shows "(\<forall>r < length p. mt_reject h ! (ascending p ! r) \<longleftrightarrow>
            (\<forall>s \<le> r. fmul (fint (int (length p - s))) (p ! (ascending p ! s)) \<le> a)) \<and>
         (\<forall>r < length p. mt_reject f ! (ascending p ! r) \<longleftrightarrow>
            (\<exists>s. r \<le> s \<and> s < length p \<and> fdiv (fmul (p ! (ascending p ! s)) (fint (int (length p)))) (fint (int s + 1)) \<le> a)) \<and>
         (\<forall>i < length p. \<forall>j < length p. p ! i \<le> p ! j \<longrightarrow>
            mt_adjusted h ! i \<le> mt_adjusted h ! j \<and> mt_adjusted f ! i \<le> mt_adjusted f ! j \<and>
            mt_adjusted b ! i \<le> mt_adjusted b ! j) \<and>
         (\<forall>i < length p. mt_reject b ! i \<longrightarrow> mt_reject h ! i)"
proof -
  have v: "0 < a" "a < 1" "list_all (\<lambda>v. 0 \<le> v \<and> v \<le> 1) p"
    and r: "mt_reject h = map (\<lambda>x. x \<le> a) (holm_adjusted p)" "mt_reject f = map (\<lambda>x. x \<le> a) (bh_adjusted p)"
      "mt_reject b = map (\<lambda>x. x \<le> a) (bonferroni_adjusted p)"
    and adj: "mt_adjusted h = holm_adjusted p" "mt_adjusted f = bh_adjusted p" "mt_adjusted b = bonferroni_adjusted p"
    using assms unfolding corrections_Inr mt_validate_Inr by (simp_all add: mt_result_def)
  have holm: "mt_reject h ! (ascending p ! r) \<longleftrightarrow> (\<forall>s \<le> r. fmul (fint (int (length p - s))) (p ! (ascending p ! s)) \<le> a)"
    if "r < length p" for r
    using holm_le_iff [OF that, of a] ascending_index [OF that] v(1,2) by (auto simp: r(1) holm_value_def min_le_iff_disj)
  have bh: "mt_reject f ! (ascending p ! r) \<longleftrightarrow>
      (\<exists>s. r \<le> s \<and> s < length p \<and> fdiv (fmul (p ! (ascending p ! s)) (fint (int (length p)))) (fint (int s + 1)) \<le> a)"
    if "r < length p" for r
    using bh_le_iff [OF that, of a] ascending_index [OF that] v(1,2) by (auto simp: r(2) bh_value_def min_le_iff_disj)
  have bonf: "bonferroni_adjusted p ! i \<le> bonferroni_adjusted p ! j" if "i < length p" "j < length p" "p ! i \<le> p ! j" for i j
    using that by (simp add: bonferroni_adjusted_def fmul_def min.coboundedI2 fl64.rnd_mono mult_right_mono fint_nonneg)
  have more: "mt_reject h ! i" if "i < length p" "mt_reject b ! i" for i
    using that bonferroni_le_holm [OF v(3) that(1)] by (simp add: r)
  show ?thesis
    by (intro conjI allI impI holm bh more; (assumption | (unfold adj, (rule holm_adjusted_mono [OF v(3)] bh_adjusted_mono [OF v(3)] bonf; assumption))))
qed

theorem corrections_exact_witness:
  "\<exists>b h f. bonferroni_correct [1/64, 1/2, 1/32] (1/20) = Inr b \<and> holm_bonferroni_correct [1/64, 1/2, 1/32] (1/20) = Inr h \<and>
     bh_fdr_correct [1/64, 1/2, 1/32] (1/20) = Inr f \<and> (\<forall>i < 3. mt_reject h ! i \<or> \<not> mt_reject b ! i)"
proof -
  have v: "mt_validate [1/64, 1/2, 1/32] (1/20) = Inr [1/64, 1/2, 1/32]" by (simp add: mt_validate_Inr)
  obtain b h f where c: "bonferroni_correct [1/64, 1/2, 1/32] (1/20) = Inr b" "holm_bonferroni_correct [1/64, 1/2, 1/32] (1/20) = Inr h"
      "bh_fdr_correct [1/64, 1/2, 1/32] (1/20) = Inr f"
    unfolding corrections_Inr using v by blast
  from corrections_exact [OF c] c show ?thesis by (intro exI [of _ b] exI [of _ h] exI [of _ f]) auto
qed

end
