(* ===== verification/Resampling.thy ===== *)
theory Resampling
  imports Py_Float
begin

text \<open>
  Resampling of a time series (\<open>src/futur3/cv/block_bootstrap.py\<close>, \<open>src/futur3/stats/_multi_strategy.py\<close>,
  \<open>src/futur3/execution/survival.py\<close>): the generator \<open>random.Random\<close> as a record of functions on its own state, the three schemes
  that draw blocks of indices, and the leverage-survival bootstrap. A draw that may repeat for ever is a \<open>partial_function\<close>.
  The predicate \<open>rng_ok\<close> states what the documentation of \<open>random\<close> promises: \<open>randrange(n)\<close> lies below \<open>n\<close> and \<open>random()\<close> in
  \<open>[0, 1)\<close>.
\<close>

record 's rng =
  rg_seed :: "int option \<Rightarrow> 's"
  rg_randrange :: "nat \<Rightarrow> 's \<Rightarrow> nat \<times> 's"
  rg_random :: "'s \<Rightarrow> pyfloat \<times> 's"

definition rng_ok :: "'s rng \<Rightarrow> bool" where
  "rng_ok g \<longleftrightarrow> (\<forall>n s. 0 < n \<longrightarrow> fst (rg_randrange g n s) < n) \<and> (\<forall>s. 0 \<le> fst (rg_random g s) \<and> fst (rg_random g s) < 1)"

section \<open>The stationary bootstrap\<close>

text \<open>The loop over \<open>range(1, output_len)\<close>, with the number of passes left; \<open>idx[-1]\<close> is the last index written.\<close>

fun stationary_loop :: "'s rng \<Rightarrow> nat \<Rightarrow> pyfloat \<Rightarrow> nat \<Rightarrow> nat list \<Rightarrow> 's \<Rightarrow> nat list \<times> 's" where
  "stationary_loop g n p 0 idx s = (idx, s)"
| "stationary_loop g n p (Suc k) idx s =
     (let (u, s) = rg_random g s
      in if u < p then let (i, s) = rg_randrange g n s in stationary_loop g n p k (idx @ [i]) s
         else stationary_loop g n p k (idx @ [(last idx + 1) mod n]) s)"

definition stationary_bootstrap_indices :: "'s rng \<Rightarrow> nat \<Rightarrow> nat \<Rightarrow> 's \<Rightarrow> nat list \<times> 's" where
  "stationary_bootstrap_indices g n block_length s =
     (let p = fdiv 1 (fint (int block_length));
          (i, s) = rg_randrange g n s
      in stationary_loop g n p (n - 1) [i] s)"

definition stationary_path :: "'s rng \<Rightarrow> nat \<Rightarrow> nat \<Rightarrow> pyfloat \<Rightarrow> 's \<Rightarrow> nat list \<times> 's" where
  "stationary_path g output_len data_len new_block_p s =
     (let (i, s) = rg_randrange g data_len s in stationary_loop g data_len new_block_p (output_len - 1) [i] s)"

section \<open>Blocks of fixed length\<close>

partial_function (option) moving_loop :: "'s rng \<Rightarrow> nat \<Rightarrow> nat \<Rightarrow> nat list \<Rightarrow> 's \<Rightarrow> (nat list \<times> 's) option" where
  "moving_loop g n block_len idx s =
     (if length idx < n
      then let (start, s) = rg_randrange g n s
           in moving_loop g n block_len (idx @ map (\<lambda>j. (start + j) mod n) [0..<block_len]) s
      else Some (idx, s))"

definition moving_block_indices :: "'s rng \<Rightarrow> nat \<Rightarrow> nat \<Rightarrow> 's \<Rightarrow> (nat list \<times> 's) option" where
  "moving_block_indices g n block_len s = map_option (apfst (take n)) (moving_loop g n block_len [] s)"

text \<open>\<open>range(0, n, step)\<close> for a positive step.\<close>

definition range_step :: "nat \<Rightarrow> nat \<Rightarrow> nat list" where
  "range_step n step = map (\<lambda>k. k * step) [0..<(n + step - 1) div step]"

partial_function (option) fixed_loop :: "'s rng \<Rightarrow> nat \<Rightarrow> nat \<Rightarrow> nat list \<Rightarrow> nat list \<Rightarrow> 's \<Rightarrow> (nat list \<times> 's) option" where
  "fixed_loop g n block_len starts idx s =
     (if length idx < n
      then let (k, s) = rg_randrange g (length starts) s;
               b = starts ! k
           in fixed_loop g n block_len starts (idx @ [b..<min (b + block_len) n]) s
      else Some (idx, s))"

definition fixed_block_indices :: "'s rng \<Rightarrow> nat \<Rightarrow> nat \<Rightarrow> 's \<Rightarrow> (nat list \<times> 's) option" where
  "fixed_block_indices g n block_len s =
     map_option (apfst (take n)) (fixed_loop g n block_len (range_step n block_len) [] s)"

definition block_indices :: "'s rng \<Rightarrow> string \<Rightarrow> nat \<Rightarrow> nat \<Rightarrow> 's \<Rightarrow> (nat list \<times> 's) option" where
  "block_indices g mode n block_len s =
     (if mode = ''stationary'' then Some (stationary_bootstrap_indices g n block_len s)
      else if mode = ''moving'' then moving_block_indices g n block_len s
      else fixed_block_indices g n block_len s)"

text \<open>Independent draws, \<open>[rng.randrange(n) for _ in range(k)]\<close>.\<close>

fun iid_indices :: "'s rng \<Rightarrow> nat \<Rightarrow> nat \<Rightarrow> 's \<Rightarrow> nat list \<times> 's" where
  "iid_indices g n 0 s = ([], s)"
| "iid_indices g n (Suc k) s =
     (let (i, s) = rg_randrange g n s; (is, s) = iid_indices g n k s in (i # is, s))"

section \<open>Indices stay in range, and blocks are contiguous\<close>

lemma rng_range: "rng_ok g \<Longrightarrow> 0 < n \<Longrightarrow> rg_randrange g n s = (i, s') \<Longrightarrow> i < n"
  unfolding rng_ok_def by (metis fst_conv)

lemma stationary_loop_spec:
  assumes "rng_ok g" "0 < n" "idx \<noteq> []" "set idx \<subseteq> {..<n}" "stationary_loop g n p k idx s = (idx', s')"
  shows "length idx' = length idx + k \<and> set idx' \<subseteq> {..<n}"
  using assms
proof (induction g n p k idx s rule: stationary_loop.induct)
  case (2 g n p k idx s)
  obtain u s1 where u: "rg_random g s = (u, s1)" by fastforce
  obtain i s2 where i: "rg_randrange g n s1 = (i, s2)" by fastforce
  have "i < n" by (rule rng_range [OF "2.prems"(1,2) i])
  then show ?case using 2 u i by (auto split: if_splits simp: Let_def)
qed simp

lemma stationary_path_spec:
  assumes "rng_ok g" "0 < n" "0 < m" "stationary_path g m n p s = (idx, s')"
  shows "length idx = m \<and> set idx \<subseteq> {..<n}"
proof -
  obtain i s1 where i: "rg_randrange g n s = (i, s1)" by fastforce
  have "i < n" by (rule rng_range [OF assms(1,2) i])
  then show ?thesis
    using stationary_loop_spec [OF assms(1,2), of "[i]" p "m - 1" s1 idx s'] assms(3,4) i by (auto simp: stationary_path_def)
qed

lemma stationary_bootstrap_path:
  "stationary_bootstrap_indices g n L s = stationary_path g n n (fdiv 1 (fint (int L))) s"
  by (simp add: stationary_bootstrap_indices_def stationary_path_def Let_def)

text \<open>What a loop over blocks leaves: at least \<open>n\<close> indices in range, each after the first the successor of the one before it
  unless a block starts there.\<close>

definition blocks_ok :: "nat \<Rightarrow> (nat \<Rightarrow> nat \<Rightarrow> bool) \<Rightarrow> nat list \<Rightarrow> bool" where
  "blocks_ok n R idx \<longleftrightarrow> set idx \<subseteq> {..<n} \<and> (\<forall>k. 0 < k \<and> k < length idx \<longrightarrow> R k (idx ! k) \<or> idx ! k = (idx ! (k - 1) + 1) mod n)"

lemma blocks_ok_Nil [simp]: "blocks_ok n R []"
  by (simp add: blocks_ok_def)

lemma blocks_ok_append:
  assumes "blocks_ok n R xs" "ys \<noteq> []" "R (length xs) (hd ys)" "set ys \<subseteq> {..<n}"
    and "\<And>j. 0 < j \<Longrightarrow> j < length ys \<Longrightarrow> ys ! j = (ys ! (j - 1) + 1) mod n"
  shows "blocks_ok n R (xs @ ys)"
  unfolding blocks_ok_def
proof (intro conjI allI impI)
  show "set (xs @ ys) \<subseteq> {..<n}" using assms(1,4) by (auto simp: blocks_ok_def)
  fix k assume k: "0 < k \<and> k < length (xs @ ys)"
  show "R k ((xs @ ys) ! k) \<or> (xs @ ys) ! k = ((xs @ ys) ! (k - 1) + 1) mod n"
  proof (cases k "length xs" rule: linorder_cases)
    case less
    then have "k - 1 < length xs" by simp
    then show ?thesis using assms(1) k less by (auto simp: blocks_ok_def nth_append)
  next
    case equal
    then show ?thesis using assms(2,3) by (simp add: nth_append hd_conv_nth)
  next
    case greater
    then have "k - length xs < length ys" "0 < k - length xs" "k - 1 - length xs = k - length xs - 1" "\<not> k - 1 < length xs" using k by auto
    then show ?thesis using assms(5) [of "k - length xs"] by (simp add: nth_append)
  qed
qed

lemma blocks_ok_take: "blocks_ok n R xs \<Longrightarrow> blocks_ok n R (take m xs)"
  unfolding blocks_ok_def using set_take_subset [of m xs] by auto

lemma moving_loop_spec:
  assumes "rng_ok g" "0 < n" "0 < L" "blocks_ok n (\<lambda>k _. L dvd k) idx" "L dvd length idx"
  shows "\<exists>idx' s'. moving_loop g n L idx s = Some (idx', s') \<and> n \<le> length idx' \<and> blocks_ok n (\<lambda>k _. L dvd k) idx'"
  using assms(4,5)
proof (induction "n - length idx" arbitrary: idx s rule: less_induct)
  case less
  show ?case
  proof (cases "length idx < n")
    case True
    obtain b s1 where b: "rg_randrange g n s = (b, s1)" by fastforce
    define ys where "ys = map (\<lambda>j. (b + j) mod n) [0..<L]"
    have "blocks_ok n (\<lambda>k _. L dvd k) (idx @ ys)"
    proof (rule blocks_ok_append)
      show "blocks_ok n (\<lambda>k _. L dvd k) idx" "L dvd length idx" "set ys \<subseteq> {..<n}" "ys \<noteq> []"
        using less.prems assms(2,3) by (auto simp: ys_def)
      fix j assume "0 < j" "j < length ys"
      then have "b + j = b + (j - 1) + 1" "j - 1 < L" "j < L" by (simp_all add: ys_def)
      then show "ys ! j = (ys ! (j - 1) + 1) mod n" by (simp add: ys_def mod_Suc_eq)
    qed
    moreover have "L dvd length (idx @ ys)" using less.prems by (simp add: ys_def)
    moreover have "n - length (idx @ ys) < n - length idx" using True assms(3) by (simp add: ys_def)
    ultimately obtain idx' s' where "moving_loop g n L (idx @ ys) s1 = Some (idx', s')" "n \<le> length idx'" "blocks_ok n (\<lambda>k _. L dvd k) idx'"
      using less.hyps by blast
    then show ?thesis using True b by (subst moving_loop.simps) (simp add: ys_def)
  qed (use less.prems in \<open>subst moving_loop.simps, simp\<close>)
qed

lemma range_step_mem: "b \<in> set (range_step n L) \<Longrightarrow> 0 < L \<Longrightarrow> L dvd b \<and> b < n"
proof -
  assume "b \<in> set (range_step n L)" and L: "0 < L"
  then obtain k where k: "b = k * L" "k < (n + L - 1) div L" by (auto simp: range_step_def)
  then have "(k + 1) * L \<le> n + L - 1" using L by (metis Suc_eq_plus1 Suc_leI less_eq_div_iff_mult_less_eq)
  then show ?thesis using k(1) L by auto
qed

lemma range_step_nonempty: "0 < L \<Longrightarrow> 0 < n \<Longrightarrow> 0 < length (range_step n L)"
  by (simp add: range_step_def div_greater_zero_iff)

lemma fixed_loop_spec:
  assumes "rng_ok g" "0 < n" "0 < L" "blocks_ok n (\<lambda>_ i. L dvd i) idx"
  shows "\<exists>idx' s'. fixed_loop g n L (range_step n L) idx s = Some (idx', s') \<and> n \<le> length idx' \<and> blocks_ok n (\<lambda>_ i. L dvd i) idx'"
  using assms(4)
proof (induction "n - length idx" arbitrary: idx s rule: less_induct)
  case less
  show ?case
  proof (cases "length idx < n")
    case True
    obtain k s1 where k: "rg_randrange g (length (range_step n L)) s = (k, s1)" by fastforce
    define b where "b = range_step n L ! k"
    have "k < length (range_step n L)" using rng_range [OF assms(1) range_step_nonempty [OF assms(3,2)] k] .
    then have b: "L dvd b" "b < n" using range_step_mem [of b n L] assms(3) by (simp_all add: b_def)
    define ys where "ys = [b..<min (b + L) n]"
    have ys: "ys \<noteq> []" "hd ys = b" using b assms(3) by (simp_all add: ys_def)
    have "blocks_ok n (\<lambda>_ i. L dvd i) (idx @ ys)"
    proof (rule blocks_ok_append)
      show "blocks_ok n (\<lambda>_ i. L dvd i) idx" "ys \<noteq> []" "L dvd hd ys" "set ys \<subseteq> {..<n}"
        using less.prems ys b by (auto simp: ys_def)
      fix j assume "0 < j" "j < length ys"
      then have "b + j < min (b + L) n" "b + (j - 1) < min (b + L) n" "b + (j - 1) + 1 = b + j" by (auto simp: ys_def)
      then show "ys ! j = (ys ! (j - 1) + 1) mod n" by (simp only: ys_def nth_upt) simp
    qed
    moreover have "n - length (idx @ ys) < n - length idx" using True ys(1) by (cases ys) simp_all
    ultimately obtain idx' s' where "fixed_loop g n L (range_step n L) (idx @ ys) s1 = Some (idx', s')" "n \<le> length idx'" "blocks_ok n (\<lambda>_ i. L dvd i) idx'"
      using less.hyps by blast
    then show ?thesis using True k by (subst fixed_loop.simps) (simp add: ys_def b_def)
  qed (use less.prems in \<open>subst fixed_loop.simps, simp\<close>)
qed

lemma moving_block_indices_spec:
  assumes "rng_ok g" "0 < n" "0 < L"
  shows "\<exists>idx s'. moving_block_indices g n L s = Some (idx, s') \<and> length idx = n \<and> blocks_ok n (\<lambda>k _. L dvd k) idx"
proof -
  obtain idx s' where "moving_loop g n L [] s = Some (idx, s')" "n \<le> length idx" "blocks_ok n (\<lambda>k _. L dvd k) idx"
    using moving_loop_spec [OF assms, of "[]" s] by auto
  then show ?thesis by (simp add: moving_block_indices_def blocks_ok_take)
qed

lemma fixed_block_indices_spec:
  assumes "rng_ok g" "0 < n" "0 < L"
  shows "\<exists>idx s'. fixed_block_indices g n L s = Some (idx, s') \<and> length idx = n \<and> blocks_ok n (\<lambda>_ i. L dvd i) idx"
proof -
  obtain idx s' where "fixed_loop g n L (range_step n L) [] s = Some (idx, s')" "n \<le> length idx" "blocks_ok n (\<lambda>_ i. L dvd i) idx"
    using fixed_loop_spec [OF assms, of "[]" s] by auto
  then show ?thesis by (simp add: fixed_block_indices_def blocks_ok_take)
qed

lemma block_indices_total:
  assumes "rng_ok g" "0 < n" "0 < L"
  shows "\<exists>idx s'. block_indices g mode n L s = Some (idx, s') \<and> length idx = n \<and> set idx \<subseteq> {..<n}"
proof -
  obtain idx s' where "stationary_bootstrap_indices g n L s = (idx, s')" by fastforce
  moreover from this have "length idx = n \<and> set idx \<subseteq> {..<n}"
    using stationary_path_spec [OF assms(1,2,2)] by (simp add: stationary_bootstrap_path)
  ultimately show ?thesis
    using moving_block_indices_spec [OF assms, of s] fixed_block_indices_spec [OF assms, of s]
    by (auto simp: block_indices_def blocks_ok_def)
qed

lemma range_step_whole: "0 < n \<Longrightarrow> range_step n n = [0]"
proof -
  assume "0 < n"
  then have "(n + n - 1) div n = 1" by (intro div_nat_eqI) auto
  then show ?thesis by (simp add: range_step_def)
qed

lemma fixed_whole: 
  assumes "rng_ok g" "0 < n"
  shows "map_option fst (fixed_block_indices g n n s) = Some [0..<n]"
proof -
  obtain k s1 where k: "rg_randrange g 1 s = (k, s1)" by fastforce
  have "k = 0" using rng_range [OF assms(1) _ k] by simp
  then show ?thesis using assms(2) k
    by (simp add: fixed_block_indices_def range_step_whole fixed_loop.simps [of g n n "[0]"])
qed

lemma moving_loop_single:
  assumes "0 < n" "rng_ok g" "length idx \<le> n"
  shows "moving_loop g n 1 idx s = Some (apfst ((@) idx) (iid_indices g n (n - length idx) s))"
  using assms(3)
proof (induction "n - length idx" arbitrary: idx s)
  case 0
  then have "length idx = n" by simp
  then show ?case by (subst moving_loop.simps) (simp add: apfst_def)
next
  case (Suc k)
  obtain i s1 where i: "rg_randrange g n s = (i, s1)" by fastforce
  have "i < n" by (rule rng_range [OF assms(2,1) i])
  moreover have "moving_loop g n 1 (idx @ [i]) s1 = Some (apfst ((@) (idx @ [i])) (iid_indices g n k s1))"
  proof -
    have "k = n - length (idx @ [i])" using Suc(2) by simp
    then show ?thesis using Suc(1) [of "idx @ [i]" s1] Suc(2,3) by simp
  qed
  moreover have "length idx < n" using Suc(2) by simp
  ultimately show ?case
    unfolding Suc(2) [symmetric] using i by (subst moving_loop.simps) (simp add: case_prod_beta Let_def apfst_def map_prod_def)
qed

lemma iid_indices_spec: "rng_ok g \<Longrightarrow> 0 < n \<Longrightarrow> iid_indices g n k s = (is, s') \<Longrightarrow> length is = k \<and> set is \<subseteq> {..<n}"
proof (induction k arbitrary: s "is")
  case (Suc k)
  obtain i s1 js s2 where "rg_randrange g n s = (i, s1)" "iid_indices g n k s1 = (js, s2)" by fastforce
  then show ?case using Suc.IH [of s1 js] Suc.prems rng_range [of g n s i s1] by auto
qed simp

section \<open>The three schemes\<close>

text \<open>A generator for examples: it counts its calls.\<close>

definition counting :: "nat rng" where
  "counting = \<lparr>rg_seed = (\<lambda>_. 0), rg_randrange = (\<lambda>n s. (s mod n, Suc s)), rg_random = (\<lambda>s. (1 / 4, Suc s))\<rparr>"

lemma counting_ok [simp]: "rng_ok counting"
  by (simp add: rng_ok_def counting_def)

text \<open>
  Every scheme returns, with as many indices as the sample has, all of them in range. The moving blocks are contiguous on the
  circle: an index whose position is no multiple of the block length is the successor of the one before it. The fixed blocks are
  the disjoint ones: an index is the successor of the one before it, or a multiple of the block length. One fixed block as long
  as the sample gives the sample itself, and moving blocks of length one are independent draws.
\<close>

theorem block_indices_exact:
  assumes "rng_ok g" "0 < n" "0 < L"
  shows "(\<exists>idx s'. block_indices g mode n L s = Some (idx, s') \<and> length idx = n \<and> set idx \<subseteq> {..<n}) \<and>
         (\<exists>idx s'. block_indices g ''moving'' n L s = Some (idx, s') \<and>
            (\<forall>k. 0 < k \<and> k < n \<and> \<not> L dvd k \<longrightarrow> idx ! k = (idx ! (k - 1) + 1) mod n)) \<and>
         (\<exists>idx s'. block_indices g ''fixed'' n L s = Some (idx, s') \<and>
            (\<forall>k. 0 < k \<and> k < n \<longrightarrow> L dvd idx ! k \<or> idx ! k = idx ! (k - 1) + 1)) \<and>
         map_option fst (block_indices g ''fixed'' n n s) = Some [0..<n] \<and>
         block_indices g ''moving'' n 1 s = Some (iid_indices g n n s)"
proof (intro conjI)
  obtain idx s' where m: "moving_block_indices g n L s = Some (idx, s')" "length idx = n" "blocks_ok n (\<lambda>k _. L dvd k) idx"
    using moving_block_indices_spec [OF assms] by blast
  then show "\<exists>idx s'. block_indices g ''moving'' n L s = Some (idx, s') \<and>
      (\<forall>k. 0 < k \<and> k < n \<and> \<not> L dvd k \<longrightarrow> idx ! k = (idx ! (k - 1) + 1) mod n)"
    by (intro exI [of _ idx] exI [of _ s']) (auto simp: block_indices_def blocks_ok_def)
  obtain jdx t' where f: "fixed_block_indices g n L s = Some (jdx, t')" "length jdx = n" "blocks_ok n (\<lambda>_ i. L dvd i) jdx"
    using fixed_block_indices_spec [OF assms] by blast
  have "L dvd jdx ! k \<or> jdx ! k = jdx ! (k - 1) + 1" if k: "0 < k" "k < n" for k
  proof -
    have "jdx ! (k - 1) < n" using f(2,3) k nth_mem [of "k - 1" jdx] by (auto simp: blocks_ok_def subset_iff)
    then have "(jdx ! (k - 1) + 1) mod n = jdx ! (k - 1) + 1 \<or> (jdx ! (k - 1) + 1) mod n = 0"
      by (metis Suc_eq_plus1 Suc_lessI mod_less mod_self)
    then show ?thesis using f(2,3) k by (auto simp: blocks_ok_def)
  qed
  with f(1) show "\<exists>idx s'. block_indices g ''fixed'' n L s = Some (idx, s') \<and>
      (\<forall>k. 0 < k \<and> k < n \<longrightarrow> L dvd idx ! k \<or> idx ! k = idx ! (k - 1) + 1)"
    by (intro exI [of _ jdx] exI [of _ t']) (simp add: block_indices_def)
  show "block_indices g ''moving'' n 1 s = Some (iid_indices g n n s)"
    using moving_loop_single [OF assms(2,1), of "[]" s] iid_indices_spec [OF assms(1,2), of n s]
    by (cases "iid_indices g n n s") (simp add: block_indices_def moving_block_indices_def apfst_def)
qed (use block_indices_total [OF assms] fixed_whole [OF assms(1,2)] in \<open>auto simp: block_indices_def\<close>)

theorem block_indices_exact_witness: "\<exists>idx s'. block_indices counting ''moving'' 5 2 (3 :: nat) = Some (idx, s') \<and> idx ! 1 = (idx ! 0 + 1) mod 5"
proof -
  obtain idx s' where "block_indices counting ''moving'' 5 2 3 = Some (idx, s')"
      "\<forall>k. 0 < k \<and> k < 5 \<and> \<not> 2 dvd k \<longrightarrow> idx ! k = (idx ! (k - 1) + 1) mod 5"
    using block_indices_exact [of counting 5 2 "''moving''" 3] by auto
  then show ?thesis by (intro exI [of _ idx] exI [of _ s']) auto
qed

end
