(* ===== verification/Extended_Float.thy ===== *)
theory Extended_Float
  imports Py_Float Prelude
begin

text \<open>
  Floats with the two infinities and NaN, for the statistics that may return them: comparisons are false on NaN, \<open>inf - inf\<close> and
  \<open>0 * inf\<close> are NaN. The class \<open>linorder\<close> orders them as \<open>sorted\<close> does a list without NaN (NaN is put last). \<open>libm\<close> holds the
  functions of \<open>math\<close> whose last digits the C library decides; nothing is assumed of them unless a property says so.
\<close>

datatype xfloat = Fin pyfloat | PInf | NInf | NaN

record libm =
  lm_log :: "pyfloat \<Rightarrow> pyfloat"
  lm_log10 :: "pyfloat \<Rightarrow> pyfloat"
  lm_pow :: "pyfloat \<Rightarrow> pyfloat \<Rightarrow> pyfloat"

definition xfinite :: "xfloat \<Rightarrow> bool" where
  "xfinite x = (case x of Fin _ \<Rightarrow> True | _ \<Rightarrow> False)"

definition xval :: "xfloat \<Rightarrow> pyfloat" where
  "xval x = (case x of Fin a \<Rightarrow> a | _ \<Rightarrow> 0)"

fun xle :: "xfloat \<Rightarrow> xfloat \<Rightarrow> bool" where
  "xle NaN y = False"
| "xle x NaN = False"
| "xle NInf y = True"
| "xle x PInf = True"
| "xle (Fin a) (Fin b) = (a \<le> b)"
| "xle (Fin a) NInf = False"
| "xle PInf (Fin b) = False"
| "xle PInf NInf = False"

definition xlt :: "xfloat \<Rightarrow> xfloat \<Rightarrow> bool" where
  "xlt x y \<longleftrightarrow> xle x y \<and> \<not> xle y x"

fun xneg :: "xfloat \<Rightarrow> xfloat" where
  "xneg (Fin a) = Fin (- a)"
| "xneg PInf = NInf"
| "xneg NInf = PInf"
| "xneg NaN = NaN"

fun xadd :: "xfloat \<Rightarrow> xfloat \<Rightarrow> xfloat" where
  "xadd (Fin a) (Fin b) = Fin (fadd a b)"
| "xadd NaN y = NaN"
| "xadd x NaN = NaN"
| "xadd PInf NInf = NaN"
| "xadd NInf PInf = NaN"
| "xadd PInf y = PInf"
| "xadd NInf y = NInf"
| "xadd x PInf = PInf"
| "xadd x NInf = NInf"

definition xsub :: "xfloat \<Rightarrow> xfloat \<Rightarrow> xfloat" where
  "xsub x y = xadd x (xneg y)"

text \<open>A finite factor times an extended one.\<close>

definition xscale :: "pyfloat \<Rightarrow> xfloat \<Rightarrow> xfloat" where
  "xscale a x = (case x of Fin b \<Rightarrow> Fin (fmul a b)
                 | NaN \<Rightarrow> NaN
                 | _ \<Rightarrow> (if a = 0 then NaN else if 0 < a then x else xneg x))"

instantiation xfloat :: linorder
begin

definition less_eq_xfloat :: "xfloat \<Rightarrow> xfloat \<Rightarrow> bool" where
  "less_eq_xfloat x y \<longleftrightarrow> y = NaN \<or> xle x y"

definition less_xfloat :: "xfloat \<Rightarrow> xfloat \<Rightarrow> bool" where
  "less_xfloat x y \<longleftrightarrow> x \<le> y \<and> \<not> y \<le> (x :: xfloat)"

instance
proof
  fix x y z :: xfloat
  show "x < y \<longleftrightarrow> x \<le> y \<and> \<not> y \<le> x" by (rule less_xfloat_def)
  show "x \<le> x" by (cases x) (simp_all add: less_eq_xfloat_def)
  show "x \<le> y \<Longrightarrow> y \<le> z \<Longrightarrow> x \<le> z" by (cases x; cases y; cases z) (simp_all add: less_eq_xfloat_def)
  show "x \<le> y \<Longrightarrow> y \<le> x \<Longrightarrow> x = y" by (cases x; cases y) (simp_all add: less_eq_xfloat_def)
  show "x \<le> y \<or> y \<le> x" by (cases x; cases y) (auto simp: less_eq_xfloat_def)
qed

end

lemma xle_order: "x \<noteq> NaN \<Longrightarrow> y \<noteq> NaN \<Longrightarrow> xle x y \<longleftrightarrow> x \<le> y"
  by (simp add: less_eq_xfloat_def)

lemma xfinite_iff: "xfinite x \<longleftrightarrow> (\<exists>a. x = Fin a)"
  by (cases x) (simp_all add: xfinite_def)

lemma xval_Fin [simp]: "xval (Fin a) = a"
  by (simp add: xval_def)

lemma xfinite_Fin [simp]: "xfinite (Fin a)" "\<not> xfinite PInf" "\<not> xfinite NInf" "\<not> xfinite NaN"
  by (simp_all add: xfinite_def)

lemma Fin_xval: "xfinite x \<Longrightarrow> Fin (xval x) = x"
  by (auto simp: xfinite_iff)

section \<open>Maxima and p-values\<close>

text \<open>The first index of the maximum, as \<open>max(range(n), key=f)\<close> finds it.\<close>

definition first_max :: "(nat \<Rightarrow> pyfloat) \<Rightarrow> nat \<Rightarrow> nat" where
  "first_max f n = foldl (\<lambda>b k. if f b < f k then k else b) 0 [1..<n]"

lemma first_max_step:
  "foldl (\<lambda>b k. if f b < f k then k else b) 0 [1..<Suc n] =
     (if n = 0 then 0 else let b = foldl (\<lambda>b k. if f b < f k then k else b) 0 [1..<n] in if f b < f n then n else b)"
  by (simp add: Let_def)

lemma first_max_spec: "0 < n \<Longrightarrow> first_max f n < n \<and> (\<forall>k < n. f k \<le> f (first_max f n)) \<and> (\<forall>k < first_max f n. f k < f (first_max f n))"
  unfolding first_max_def
proof (induction n)
  case (Suc n)
  show ?case
  proof (cases "n = 0")
    case False
    then show ?thesis using Suc.IH unfolding first_max_step Let_def
      by (auto simp: less_Suc_eq intro: order.strict_trans1 order.strict_trans order.trans less_imp_le)
  qed simp
qed simp

text \<open>\<open>(count + 1) / (draws + 1)\<close> with a count of the draws is a float in \<open>(0, 1]\<close>, and grows with the count.\<close>

definition p_value :: "nat \<Rightarrow> nat \<Rightarrow> pyfloat" where
  "p_value count draws = int_quotient (int count + 1) (int draws + 1)"

lemma p_value_bounds: "count \<le> draws \<Longrightarrow> 0 < p_value count draws \<and> p_value count draws \<le> 1"
  using int_quotient_unit [of "int count + 1" "int draws + 1"] by (simp add: p_value_def int_quotient_pos)

lemma p_value_mono: "a \<le> b \<Longrightarrow> p_value a draws \<le> p_value b draws"
  unfolding p_value_def int_quotient_def by (intro fl64.rnd_mono divide_right_mono) simp_all

lemma p_value_all: "p_value draws draws = 1"
  by (simp add: p_value_def int_quotient_def fl64.rnd_one)

lemma p_value_filter: "0 < p_value (length (filter P xs)) (length xs) \<and> p_value (length (filter P xs)) (length xs) \<le> 1"
  by (rule p_value_bounds) (rule length_filter_le)

lemma length_filter_mono: "(\<And>x. x \<in> set xs \<Longrightarrow> P x \<Longrightarrow> Q x) \<Longrightarrow> length (filter P xs) \<le> length (filter Q xs)"
  by (induction xs) auto

section \<open>The module \<open>statistics\<close>\<close>

text \<open>\<open>mean\<close> and \<open>variance\<close> compute the exact value and round it once, \<open>stdev\<close> rounds the square root of the exact variance once.\<close>

definition fmean_exact :: "pyfloat list \<Rightarrow> pyfloat" where
  "fmean_exact xs = fround (sum_list xs / of_nat (length xs))"

definition exact_variance :: "pyfloat list \<Rightarrow> rat" where
  "exact_variance xs = (let m = sum_list xs / of_nat (length xs)
                        in sum_list (map (\<lambda>x. (x - m) * (x - m)) xs) / of_int (int (length xs) - 1))"

definition fvariance :: "pyfloat list \<Rightarrow> pyfloat" where
  "fvariance xs = fround (exact_variance xs)"

definition fstdev :: "pyfloat list \<Rightarrow> pyfloat" where
  "fstdev xs = radix_sqrt 2 53 (exact_variance xs)"

text \<open>\<open>math.isclose(a, b, rel_tol=1e-9, abs_tol=1e-12)\<close>.\<close>

definition isclose :: "pyfloat \<Rightarrow> pyfloat \<Rightarrow> bool" where
  "isclose a b \<longleftrightarrow> a = b \<or>
     (let diff = \<bar>fsub b a\<bar>; rel = fround (1 / 10 ^ 9)
      in diff \<le> \<bar>fmul rel b\<bar> \<or> diff \<le> \<bar>fmul rel a\<bar> \<or> diff \<le> fround (1 / 10 ^ 12))"

text \<open>\<open>int(x)\<close> truncates towards zero.\<close>

definition trunc :: "pyfloat \<Rightarrow> int" where
  "trunc x = (if 0 \<le> x then \<lfloor>x\<rfloor> else \<lceil>x\<rceil>)"

lemma fround_half: "fround (1 / 2) = 1 / 2"
  using frepr_half [of 1] by (simp add: frepr_def)

section \<open>Square roots\<close>

lemma isqrt_nonneg: "0 \<le> isqrt n"
  by (induction n rule: isqrt.induct) (simp add: isqrt.simps [of n for n] Let_def)

lemma fsqrt_nonneg: "0 \<le> fsqrt x"
  unfolding fsqrt_def radix_sqrt_def Let_def using isqrt_nonneg by (auto intro!: mult_nonneg_nonneg add_nonneg_nonneg)

lemma isqrt_pos: "1 \<le> n \<Longrightarrow> 1 \<le> isqrt n"
  using isqrt_nonneg [of "n div 4"] by (cases "isqrt (n div 4) = 0") (simp_all add: isqrt.simps [of n] Let_def)

lemma two_sqrt_pos:
  assumes "0 < x" shows "0 < radix_sqrt 2 53 x"
proof -
  define k where "k = 52 - adjusted 2 x div 2"
  define y where "y = x * 2 powi (2 * k)"
  have "(1 :: rat) \<le> 2 powi (adjusted 2 x + 2 * k)" by (rule one_le_power_int) (simp_all add: k_def)
  also have "\<dots> = 2 powi adjusted 2 x * 2 powi (2 * k)" by (simp add: power_int_add)
  also have "\<dots> \<le> y" unfolding y_def using two.adjusted_bounds(1) [OF assms] by (intro mult_right_mono) simp_all
  finally have n: "1 \<le> isqrt \<lfloor>y\<rfloor>" by (intro isqrt_pos) (simp add: le_floor_iff)
  have "radix_sqrt 2 53 x = of_int (if y < (2 * of_int (isqrt \<lfloor>y\<rfloor>) + 1) * (2 * of_int (isqrt \<lfloor>y\<rfloor>) + 1) / 4 then isqrt \<lfloor>y\<rfloor>
      else if y > (2 * of_int (isqrt \<lfloor>y\<rfloor>) + 1) * (2 * of_int (isqrt \<lfloor>y\<rfloor>) + 1) / 4 then isqrt \<lfloor>y\<rfloor> + 1
      else if even (isqrt \<lfloor>y\<rfloor>) then isqrt \<lfloor>y\<rfloor> else isqrt \<lfloor>y\<rfloor> + 1) * 2 powi (- k)"
    using assms by (simp add: radix_sqrt_def Let_def k_def [symmetric] y_def)
  then show ?thesis using n by (auto intro!: mult_pos_pos)
qed

end
