(* ===== verification/Block_Bootstrap.thy ===== *)
theory Block_Bootstrap
  imports Resampling Extended_Float
begin

text \<open>
  The block bootstrap (\<open>src/futur3/cv/block_bootstrap.py\<close>, \<open>_quantile\<close> of \<open>src/futur3/stats/bootstrap_ci.py\<close>): the automatic choice
  of the block length and the percentile interval. The statistic is a function that may return an infinity or NaN.
\<close>

section \<open>The automatic block length\<close>

definition autocovariances :: "pyfloat list \<Rightarrow> nat \<Rightarrow> nat \<Rightarrow> pyfloat list" where
  "autocovariances centered max_lag n =
     map (\<lambda>k. fdiv (fsum (map (\<lambda>t. fmul (centered ! t) (centered ! (t + k))) [0..<n - k])) (fint (int n))) [0..<max_lag + 1]"

definition flat_top :: "pyfloat \<Rightarrow> pyfloat" where
  "flat_top x = (let a = \<bar>x\<bar> in if a \<le> 1 / 2 then 1 else if a \<le> 1 then fmul 2 (fsub 1 a) else 0)"

text \<open>The lag just before the first run of insignificant autocorrelations, else the largest significant one.\<close>

definition cutoff_lag :: "pyfloat list \<Rightarrow> pyfloat \<Rightarrow> nat \<Rightarrow> nat \<Rightarrow> nat" where
  "cutoff_lag rho threshold k_n m_max =
     (case find (\<lambda>kk. list_all (\<lambda>j. \<bar>rho ! (kk + j)\<bar> < threshold) [0..<k_n]) [1..<m_max - k_n + 2] of
        Some kk \<Rightarrow> kk - 1
      | None \<Rightarrow> (let sig = filter (\<lambda>k. threshold \<le> \<bar>rho ! k\<bar>) [1..<m_max + 1] in if sig \<noteq> [] then Max (set sig) else 1))"

text \<open>One pass of the loop that accumulates \<open>g_hat\<close> and \<open>d_inner\<close>.\<close>

definition window_step :: "pyfloat list \<Rightarrow> nat \<Rightarrow> pyfloat \<times> pyfloat \<Rightarrow> int \<Rightarrow> pyfloat \<times> pyfloat" where
  "window_step gamma big_m acc k =
     (let lam = flat_top (int_quotient k (int big_m));
          gk = gamma ! nat \<bar>k\<bar>
      in (fadd (fst acc) (fmul (fmul lam (fint \<bar>k\<bar>)) gk), fadd (snd acc) (fmul lam gk)))"

definition optimal_block_length :: "libm \<Rightarrow> pyfloat list \<Rightarrow> int" where
  "optimal_block_length lm x =
     (let n = length x; fn = fint (int n)
      in if n < 8 then 1
         else
           let mean = fdiv (fsum x) fn;
               centered = map (\<lambda>v. fsub v mean) x;
               k_n = max 5 (nat \<lceil>fsqrt (lm_log10 lm fn)\<rceil>);
               m_max = nat \<lceil>fsqrt fn\<rceil> + k_n;
               gamma = autocovariances centered m_max n;
               g0 = gamma ! 0
           in if g0 \<le> 0 then 1
              else
                let rho = map (\<lambda>g. fdiv g g0) gamma;
                    threshold = fmul 2 (fsqrt (fdiv (lm_log10 lm fn) fn));
                    m_hat = max (cutoff_lag rho threshold k_n m_max) 1;
                    big_m = min (2 * m_hat) m_max;
                    (g_hat, d_inner) = foldl (window_step gamma big_m) (0, 0) [- int big_m..int big_m];
                    d_sb = fmul 2 (lm_pow lm d_inner 2)
                in if d_sb \<le> 0 \<or> g_hat \<le> 0 then 1
                   else
                     let b = fmul (lm_pow lm (fdiv (fmul 2 (lm_pow lm g_hat 2)) d_sb) (fdiv 1 3)) (lm_pow lm fn (fdiv 1 3));
                         b_max = \<lceil>min (fmul 3 (fsqrt fn)) (fdiv fn 3)\<rceil>
                     in max 1 (min (trunc (fadd b (1 / 2))) b_max))"

section \<open>The percentile interval\<close>

definition quantile :: "xfloat list \<Rightarrow> pyfloat \<Rightarrow> xfloat" where
  "quantile sorted_vals p =
     (let n = length sorted_vals
      in if n = 1 then sorted_vals ! 0
         else
           let h = fmul (fint (int n - 1)) p;
               lo = nat \<lfloor>h\<rfloor>;
               hi = min (lo + 1) (n - 1);
               frac = fsub h (fint (int lo))
           in xadd (sorted_vals ! lo) (xscale frac (xsub (sorted_vals ! hi) (sorted_vals ! lo))))"

record BlockBootstrapResult =
  bb_point :: xfloat
  bb_lower :: xfloat
  bb_upper :: xfloat
  bb_confidence :: pyfloat
  bb_block_mean :: int
  bb_block_mean_estimated :: bool
  bb_mode :: string
  bb_n_resamples :: int
  bb_n :: nat
  bb_seed :: "int option"
  bb_bootstrap_distribution :: "xfloat list"
  bb_reason :: "string option"

definition bb_lower_exceeds :: "BlockBootstrapResult \<Rightarrow> pyfloat \<Rightarrow> bool" where
  "bb_lower_exceeds r threshold \<longleftrightarrow> xfinite (bb_lower r) \<and> xlt (Fin threshold) (bb_lower r)"

text \<open>The resampling loop: a draw that is NaN is dropped, an infinite one kept.\<close>

fun boot_loop :: "'s rng \<Rightarrow> (pyfloat list \<Rightarrow> xfloat) \<Rightarrow> pyfloat list \<Rightarrow> string \<Rightarrow> nat \<Rightarrow> nat \<Rightarrow> 's \<Rightarrow> xfloat list \<Rightarrow> xfloat list option" where
  "boot_loop g statistic x mode block_len 0 s boot = Some boot"
| "boot_loop g statistic x mode block_len (Suc k) s boot =
     Option.bind (block_indices g mode (length x) block_len s) (\<lambda>(idx, s).
       let theta = statistic (map (\<lambda>i. x ! i) idx)
       in boot_loop g statistic x mode block_len k s (if theta = NaN then boot else boot @ [theta]))"

definition block_bootstrap ::
  "libm \<Rightarrow> 's rng \<Rightarrow> xfloat list \<Rightarrow> (pyfloat list \<Rightarrow> xfloat) \<Rightarrow> int \<Rightarrow> int option \<Rightarrow> string \<Rightarrow> pyfloat \<Rightarrow> int option \<Rightarrow>
     BlockBootstrapResult res option" where
  "block_bootstrap lm g data statistic n_resamples block_mean mode confidence seed =
     (if \<not> (0 < confidence \<and> confidence < 1) then Some (Inl BlockBootstrapError)
      else if mode \<notin> {''stationary'', ''moving'', ''fixed''} then Some (Inl BlockBootstrapError)
      else if n_resamples < 1000 then Some (Inl BlockBootstrapError)
      else
        let n = length data
        in if n < 2 then Some (Inl BlockBootstrapError)
           else if \<not> list_all xfinite data then Some (Inl BlockBootstrapError)
           else
             let x = map xval data;
                 (block_len, estimated) = (case block_mean of None \<Rightarrow> (optimal_block_length lm x, True) | Some L \<Rightarrow> (L, False))
             in if block_len < 1 \<or> int n < block_len then Some (Inl BlockBootstrapError)
                else
                  let point = statistic x;
                      result = (\<lambda>lower upper boot reason.
                        \<lparr>bb_point = point, bb_lower = lower, bb_upper = upper, bb_confidence = confidence, bb_block_mean = block_len,
                         bb_block_mean_estimated = estimated, bb_mode = mode, bb_n_resamples = n_resamples, bb_n = n, bb_seed = seed,
                         bb_bootstrap_distribution = boot, bb_reason = reason\<rparr>)
                  in if \<not> xfinite point
                     then Some (Inr (result NaN NaN [] (Some ''point statistic is not finite (e.g. profit factor with no losses)'')))
                     else
                       Option.bind (boot_loop g statistic x mode (nat block_len) (nat n_resamples) (rg_seed g seed) []) (\<lambda>boot.
                         let n_boot = int (length boot)
                         in if n_boot < n_resamples div 2
                            then Some (Inr (result NaN NaN boot (Some (''too many degenerate resamples ('' @
                                   show_nat (nat (n_resamples - n_boot)) @ '' of '' @ show_nat (nat n_resamples) @ '' were NaN)''))))
                            else
                              let alpha = fsub 1 confidence;
                                  boot_sorted = sort boot;
                                  lower = quantile boot_sorted (fdiv alpha 2);
                                  upper = quantile boot_sorted (fsub 1 (fdiv alpha 2))
                              in Some (Inr (result lower upper boot None))))"

section \<open>The block length lies between one and the sample size\<close>

lemma fint_upper: "0 \<le> n \<Longrightarrow> fint n \<le> (1 + 1 / 2 ^ 53) * of_int n"
  unfolding fint_def by (rule fl64.rnd_upper) simp

lemma third_le: "1 \<le> n \<Longrightarrow> \<lceil>fdiv (fint (int n)) 3\<rceil> \<le> int n"
proof -
  assume n: "1 \<le> n"
  have f: "0 \<le> fint (int n)" "fint (int n) \<le> (1 + 1 / 2 ^ 53) * of_nat n"
    using fint_upper [of "int n"] fl64.rnd_nonneg [of "of_nat n"] by (simp_all add: fint_def)
  have "fdiv (fint (int n)) 3 \<le> (1 + 1 / 2 ^ 53) * (fint (int n) / 3)"
    unfolding fdiv_def using f by (intro fl64.rnd_upper) simp
  also have "\<dots> \<le> (1 + 1 / 2 ^ 53) * ((1 + 1 / 2 ^ 53) * of_nat n / 3)"
    using f by (intro mult_left_mono divide_right_mono) simp_all
  also have "\<dots> \<le> of_nat n" by simp
  finally show ?thesis by (simp add: ceiling_le_iff)
qed

lemma optimal_block_length_bounds: "1 \<le> n \<Longrightarrow> length x = n \<Longrightarrow> 1 \<le> optimal_block_length lm x \<and> optimal_block_length lm x \<le> int n"
proof -
  assume n: "1 \<le> n" "length x = n"
  define P where "P z \<longleftrightarrow> 1 \<le> z \<and> z \<le> int n" for z :: int
  have ite: "P (if c then a else b)" if "P a" "P b" for a b c
    using that by simp
  have one: "P 1" using n by (simp add: P_def)
  have clamp: "P (max 1 (min t \<lceil>min a (fdiv (fint (int n)) 3)\<rceil>))" for t a
  proof -
    have "\<lceil>min a (fdiv (fint (int n)) 3)\<rceil> \<le> int n"
      by (rule order.trans [OF ceiling_mono [OF min.cobounded2] third_le [OF n(1)]])
    then show ?thesis using n(1) unfolding P_def by linarith
  qed
  have "P (optimal_block_length lm x)"
    unfolding optimal_block_length_def Let_def n(2) case_prod_beta by (intro ite one clamp)
  then show ?thesis by (simp only: P_def)
qed

section \<open>The bootstrap returns\<close>

definition resamples :: "(pyfloat list \<Rightarrow> xfloat) \<Rightarrow> pyfloat list \<Rightarrow> xfloat set" where
  "resamples statistic x = {statistic ys |ys. length ys = length x \<and> set ys \<subseteq> set x} - {NaN}"

lemma boot_loop_total:
  assumes "rng_ok g" "x \<noteq> []" "0 < L" "set boot \<subseteq> resamples statistic x"
  shows "\<exists>boot'. boot_loop g statistic x mode L k s boot = Some boot' \<and> length boot' \<le> length boot + k \<and> set boot' \<subseteq> resamples statistic x"
  using assms(4)
proof (induction k arbitrary: s boot)
  case (Suc k)
  obtain idx s1 where idx: "block_indices g mode (length x) L s = Some (idx, s1)" "length idx = length x" "set idx \<subseteq> {..<length x}"
    using block_indices_total [OF assms(1) _ assms(3)] assms(2) by blast
  define ys where "ys = map (\<lambda>i. x ! i) idx"
  have "length ys = length x" "set ys \<subseteq> set x" using idx(2,3) by (auto simp: ys_def subset_iff)
  then have "statistic ys \<noteq> NaN \<Longrightarrow> statistic ys \<in> resamples statistic x" by (auto simp: resamples_def)
  then show ?case
    using Suc.IH [of boot s1] Suc.IH [of "boot @ [statistic ys]" s1] Suc.prems idx(1)
    by (auto simp: Let_def ys_def [symmetric])
qed simp

lemma xval_data: "list_all xfinite data \<Longrightarrow> Fin ` set (map xval data) = set data"
  by (force simp: list_all_iff Fin_xval image_iff)

definition bb_arguments_ok :: "xfloat list \<Rightarrow> int \<Rightarrow> int option \<Rightarrow> string \<Rightarrow> pyfloat \<Rightarrow> bool" where
  "bb_arguments_ok data n_resamples block_mean mode confidence \<longleftrightarrow>
     0 < confidence \<and> confidence < 1 \<and> mode \<in> {''stationary'', ''moving'', ''fixed''} \<and> 1000 \<le> n_resamples \<and>
     2 \<le> length data \<and> list_all xfinite data \<and> (\<forall>L. block_mean = Some L \<longrightarrow> 1 \<le> L \<and> L \<le> int (length data))"

definition chosen_length :: "libm \<Rightarrow> xfloat list \<Rightarrow> int option \<Rightarrow> int" where
  "chosen_length lm data block_mean = (case block_mean of None \<Rightarrow> optimal_block_length lm (map xval data) | Some L \<Rightarrow> L)"

lemma chosen_length_bounds:
  "bb_arguments_ok data nr bm mode c \<Longrightarrow> 1 \<le> chosen_length lm data bm \<and> chosen_length lm data bm \<le> int (length data)"
  using optimal_block_length_bounds [of "length data" "map xval data" lm]
  by (auto simp: bb_arguments_ok_def chosen_length_def split: option.split)

lemma block_bootstrap_refuses:
  "\<not> bb_arguments_ok data nr bm mode c \<Longrightarrow> block_bootstrap lm g data statistic nr bm mode c seed = Some (Inl BlockBootstrapError)"
  by (cases bm) (auto simp: block_bootstrap_def bb_arguments_ok_def Let_def)

definition bb_result ::
  "libm \<Rightarrow> xfloat list \<Rightarrow> xfloat \<Rightarrow> int \<Rightarrow> int option \<Rightarrow> string \<Rightarrow> pyfloat \<Rightarrow> int option \<Rightarrow> xfloat \<Rightarrow> xfloat \<Rightarrow> xfloat list \<Rightarrow> string option \<Rightarrow>
     BlockBootstrapResult" where
  "bb_result lm data point nr bm mode c seed lower upper boot reason =
     \<lparr>bb_point = point, bb_lower = lower, bb_upper = upper, bb_confidence = c, bb_block_mean = chosen_length lm data bm,
      bb_block_mean_estimated = (bm = None), bb_mode = mode, bb_n_resamples = nr, bb_n = length data, bb_seed = seed,
      bb_bootstrap_distribution = boot, bb_reason = reason\<rparr>"

text \<open>The three ways a call with valid arguments ends.\<close>

lemma block_bootstrap_accepts:
  fixes lm :: libm and statistic :: "pyfloat list \<Rightarrow> xfloat" and seed :: "int option"
  assumes "rng_ok g" "bb_arguments_ok data nr bm mode c"
  defines "x \<equiv> map xval data"
  defines "R \<equiv> bb_result lm data (statistic x) nr bm mode c seed"
  shows "\<exists>boot. set boot \<subseteq> resamples statistic x \<and> length boot \<le> nat nr \<and>
     (block_bootstrap lm g data statistic nr bm mode c seed =
        Some (Inr (R NaN NaN [] (Some ''point statistic is not finite (e.g. profit factor with no losses)''))) \<and> \<not> xfinite (statistic x) \<or>
      (\<exists>t. block_bootstrap lm g data statistic nr bm mode c seed = Some (Inr (R NaN NaN boot (Some t)))) \<and> int (length boot) < nr div 2 \<or>
      block_bootstrap lm g data statistic nr bm mode c seed =
        Some (Inr (R (quantile (sort boot) (fdiv (fsub 1 c) 2)) (quantile (sort boot) (fsub 1 (fdiv (fsub 1 c) 2))) boot None)) \<and>
        xfinite (statistic x) \<and> nr div 2 \<le> int (length boot))"
proof -
  define L where "L = chosen_length lm data bm"
  have L: "1 \<le> L" "L \<le> int (length data)" using chosen_length_bounds [OF assms(2)] by (simp_all add: L_def)
  have data: "0 < c" "c < 1" "mode \<in> {''stationary'', ''moving'', ''fixed''}" "\<not> nr < 1000" "\<not> length data < 2" "list_all xfinite data"
    using assms(2) by (simp_all add: bb_arguments_ok_def)
  have pair: "(case bm of None \<Rightarrow> (optimal_block_length lm x, True) | Some L \<Rightarrow> (L, False)) = (L, bm = None)"
    by (simp add: L_def chosen_length_def x_def split: option.split)
  have "x \<noteq> []" using data(5) by (auto simp: x_def)
  then obtain boot where boot: "boot_loop g statistic x mode (nat L) (nat nr) (rg_seed g seed) [] = Some boot"
      "length boot \<le> nat nr" "set boot \<subseteq> resamples statistic x"
    using boot_loop_total [OF assms(1), of x "nat L" "[]" statistic mode "nat nr" "rg_seed g seed"] L(1) by auto
  have len: "\<not> (L < 1 \<or> int (length data) < L)" using L by simp
  show ?thesis
    by (intro exI [of _ boot] conjI boot(2,3))
      (use boot(1) data(1,2,3) in \<open>simp add: block_bootstrap_def Let_def data(4-6) pair len R_def bb_result_def L_def [symmetric] x_def [symmetric]\<close>)
qed

text \<open>
  C34. The block bootstrap always returns, whatever the generator draws. It raises exactly on a confidence outside \<open>(0, 1)\<close>, an unknown
  mode, fewer than 1000 resamples, fewer than two points, data that is not finite, or an explicit block length outside \<open>[1, n]\<close>: the
  length it chooses itself is never refused. Every value it keeps is the statistic of a resample of the data, as long as the data, and
  none is NaN; bounds are reported without a reason only when the point statistic is finite and at least half of the resamples count.
\<close>

theorem block_bootstrap_total:
  assumes "rng_ok g"
  shows "\<exists>r. block_bootstrap lm g data statistic nr bm mode c seed = Some r \<and>
     ((\<exists>e. r = Inl e) \<longleftrightarrow> \<not> (0 < c \<and> c < 1 \<and> mode \<in> {''stationary'', ''moving'', ''fixed''} \<and> 1000 \<le> nr \<and> 2 \<le> length data \<and>
        list_all xfinite data \<and> (\<forall>L. bm = Some L \<longrightarrow> 1 \<le> L \<and> L \<le> int (length data)))) \<and>
     (\<forall>b. r = Inr b \<longrightarrow> 1 \<le> bb_block_mean b \<and> bb_block_mean b \<le> int (length data) \<and>
        (\<forall>t \<in> set (bb_bootstrap_distribution b).
           t \<noteq> NaN \<and> (\<exists>ys. length ys = length data \<and> Fin ` set ys \<subseteq> set data \<and> t = statistic ys)) \<and>
        (bb_reason b = None \<longrightarrow> xfinite (bb_point b) \<and> nr div 2 \<le> int (length (bb_bootstrap_distribution b))))"
proof (cases "bb_arguments_ok data nr bm mode c")
  case False
  then show ?thesis by (auto simp: block_bootstrap_refuses bb_arguments_ok_def)
next
  case True
  then have data: "Fin ` set (map xval data) = set data" by (intro xval_data) (simp add: bb_arguments_ok_def)
  have mem: "t \<noteq> NaN \<and> (\<exists>ys. length ys = length data \<and> Fin ` set ys \<subseteq> set data \<and> t = statistic ys)"
    if "t \<in> resamples statistic (map xval data)" for t
  proof -
    from that obtain ys where ys: "t \<noteq> NaN" "t = statistic ys" "length ys = length data" "set ys \<subseteq> set (map xval data)"
      by (auto simp: resamples_def)
    from ys(1-3) image_mono [OF ys(4), of Fin] show ?thesis unfolding data by blast
  qed
  have good: ?thesis
    if b: "block_bootstrap lm g data statistic nr bm mode c seed = Some (Inr b)" "bb_block_mean b = chosen_length lm data bm"
        "set (bb_bootstrap_distribution b) \<subseteq> resamples statistic (map xval data)"
        "bb_reason b = None \<longrightarrow> xfinite (bb_point b) \<and> nr div 2 \<le> int (length (bb_bootstrap_distribution b))" for b
  proof (rule exI [of _ "Inr b"], intro conjI)
    show "(\<exists>e. Inr b = Inl e) \<longleftrightarrow> \<not> (0 < c \<and> c < 1 \<and> mode \<in> {''stationary'', ''moving'', ''fixed''} \<and> 1000 \<le> nr \<and> 2 \<le> length data \<and>
        list_all xfinite data \<and> (\<forall>L. bm = Some L \<longrightarrow> 1 \<le> L \<and> L \<le> int (length data)))"
      using True unfolding bb_arguments_ok_def by blast
  qed (use b mem chosen_length_bounds [OF True, of lm] in \<open>simp_all add: subset_iff\<close>)
  define B where "B = bb_result lm data (statistic (map xval data)) nr bm mode c seed"
  have B: "bb_block_mean (B l u bs t) = chosen_length lm data bm" "bb_bootstrap_distribution (B l u bs t) = bs"
      "bb_reason (B l u bs t) = t" "bb_point (B l u bs t) = statistic (map xval data)" for l u bs t
    by (simp_all add: B_def bb_result_def)
  from block_bootstrap_accepts [OF assms True, of statistic lm seed, folded B_def] show ?thesis
    by (elim exE conjE disjE) (rule good, assumption, (unfold B, simp_all)[3])+
qed

theorem block_bootstrap_total_witness:
  "\<exists>b. block_bootstrap \<lparr>lm_log = id, lm_log10 = id, lm_pow = (\<lambda>x _. x)\<rparr> counting [Fin 1, Fin 2] (\<lambda>x. Fin (hd x)) 1000 None ''moving''
     (1 / 2) (Some 7) = Some (Inr b) \<and> 1 \<le> bb_block_mean b \<and> bb_block_mean b \<le> 2"
  using block_bootstrap_total [OF counting_ok, of "\<lparr>lm_log = id, lm_log10 = id, lm_pow = (\<lambda>x _. x)\<rparr>" "[Fin 1, Fin 2]" "\<lambda>x. Fin (hd x)" 1000 None
      "''moving''" "1 / 2" "Some 7"]
  by (elim exE conjE) (case_tac r, auto)

end
