(* ===== verification/Survival.thy ===== *)
theory Survival
  imports Block_Bootstrap
begin

text \<open>
  The leverage-survival gate (\<open>src/futur3/execution/survival.py\<close>): the share of bootstrap paths whose equity never reaches the
  kill switch. The lemmas give the surviving paths as a filter over the list of drawn paths, which does not depend on the kill
  switch or the leverage.
\<close>




section \<open>The drawn paths\<close>

fun drawn_paths :: "'s rng \<Rightarrow> nat \<Rightarrow> nat \<Rightarrow> pyfloat \<Rightarrow> nat \<Rightarrow> 's \<Rightarrow> nat list list" where
  "drawn_paths g horizon n p 0 s = []"
| "drawn_paths g horizon n p (Suc k) s = (let (path, s) = stationary_path g horizon n p s in path # drawn_paths g horizon n p k s)"


lemma length_drawn_paths [simp]: "length (drawn_paths g h n p k s) = k"
  by (induction k arbitrary: s) (simp_all add: case_prod_beta Let_def)







section \<open>The probability\<close>








end
