(* ===== verification/CSCV.thy ===== *)
theory CSCV
  imports Extended_Float Combinations
begin

text \<open>
  The probability of backtest overfitting (\<open>src/futur3/cv/cscv.py\<close>): every symmetric split of the segments of the time axis, the
  in-sample winner of each, and the share of splits in which it ranks below the median out of sample. The metric is a function that
  may return an infinity or NaN; \<open>statistics.correlation\<close> is a parameter (\<open>None\<close> stands for its error), since its digits depend
  on the version of the library.
\<close>

record CSCVResult =
  cs_pbo :: pyfloat
  cs_n_strategies :: nat
  cs_n_observations :: nat
  cs_n_segments :: int
  cs_n_combinations :: nat
  cs_mean_logit :: pyfloat
  cs_median_logit :: pyfloat
  cs_is_oos_correlation :: pyfloat
  cs_logits :: "pyfloat list"

definition PBO_THRESHOLD :: pyfloat where
  "PBO_THRESHOLD = 1 / 2"

definition passes_pbo :: "CSCVResult \<Rightarrow> bool" where
  "passes_pbo r \<longleftrightarrow> cs_pbo r < PBO_THRESHOLD"

definition per_period_sharpe :: "pyfloat list \<Rightarrow> xfloat" where
  "per_period_sharpe returns =
     (if length returns < 2 then Fin 0
      else let sd = fstdev returns in if sd \<le> 0 then Fin 0 else Fin (fdiv (fmean returns) sd))"

definition metric_over :: "(pyfloat list \<Rightarrow> xfloat) \<Rightarrow> pyfloat list list \<Rightarrow> nat list \<Rightarrow> xfloat" where
  "metric_over metric strat_segments combo = metric (concat (map (\<lambda>j. strat_segments ! j) combo))"

definition argmax :: "pyfloat list \<Rightarrow> nat" where
  "argmax vs = first_max (\<lambda>i. vs ! i) (length vs)"

definition relative_rank :: "pyfloat list \<Rightarrow> nat \<Rightarrow> nat \<Rightarrow> pyfloat" where
  "relative_rank metrics target m =
     (let target_v = metrics ! target;
          below = length (filter (\<lambda>v. v < target_v) metrics);
          equal = length (filter (\<lambda>v. v = target_v) metrics);
          rank = fadd (fint (int below)) (fdiv (fint (int equal + 1)) 2)
      in fdiv rank (fint (int m + 1)))"

definition LOGIT_EPS :: pyfloat where
  "LOGIT_EPS = fround (1 / 10 ^ 9)"

definition safe_logit :: "libm \<Rightarrow> pyfloat \<Rightarrow> pyfloat" where
  "safe_logit lm w = (let wc = min (max w LOGIT_EPS) (fsub 1 LOGIT_EPS) in lm_log lm (fdiv wc (fsub 1 wc)))"

definition fmedian :: "pyfloat list \<Rightarrow> pyfloat" where
  "fmedian xs = (let ys = sort xs; n = length ys; i = n div 2
                 in if odd n then ys ! i else fdiv (fadd (ys ! (i - 1)) (ys ! i)) 2)"

definition pearson :: "(pyfloat list \<Rightarrow> pyfloat list \<Rightarrow> pyfloat option) \<Rightarrow> pyfloat list \<Rightarrow> pyfloat list \<Rightarrow> pyfloat" where
  "pearson correlation xs ys = (if length xs < 2 then 0 else case correlation xs ys of Some c \<Rightarrow> c | None \<Rightarrow> 0)"

text \<open>The metrics of every strategy on the chosen segments, and on the other ones.\<close>

definition is_metrics :: "(pyfloat list \<Rightarrow> xfloat) \<Rightarrow> pyfloat list list list \<Rightarrow> nat list \<Rightarrow> xfloat list" where
  "is_metrics metric segments is_combo = map (\<lambda>s. metric_over metric s is_combo) segments"

definition oos_metrics :: "(pyfloat list \<Rightarrow> xfloat) \<Rightarrow> pyfloat list list list \<Rightarrow> nat \<Rightarrow> nat list \<Rightarrow> xfloat list" where
  "oos_metrics metric segments n_segments is_combo =
     (let oos_combo = filter (\<lambda>j. j \<notin> set is_combo) [0..<n_segments] in map (\<lambda>s. metric_over metric s oos_combo) segments)"

text \<open>The slices of every strategy over the shared time axis; a trailing remainder is dropped.\<close>

definition time_segments :: "pyfloat list list \<Rightarrow> nat \<Rightarrow> nat \<Rightarrow> pyfloat list list list" where
  "time_segments rows seg_size n_segments = map (\<lambda>row. map (\<lambda>j. take seg_size (drop (j * seg_size) row)) [0..<n_segments]) rows"

text \<open>One pass of the loop over the splits: what a split appends to the logits and to the two series of metrics.\<close>

definition split_result ::
  "libm \<Rightarrow> (pyfloat list \<Rightarrow> xfloat) \<Rightarrow> pyfloat list list list \<Rightarrow> nat \<Rightarrow> nat list \<Rightarrow> (pyfloat \<times> pyfloat list \<times> pyfloat list) option" where
  "split_result lm metric segments n_segments is_combo =
     (let ins = is_metrics metric segments is_combo;
          oos = oos_metrics metric segments n_segments is_combo
      in if \<not> list_all xfinite (ins @ oos) then None
         else let winner = argmax (map xval ins);
                  w = relative_rank (map xval oos) winner (length segments)
              in Some (safe_logit lm w, map xval ins, map xval oos))"

definition cscv_pbo ::
  "libm \<Rightarrow> (pyfloat list \<Rightarrow> pyfloat list \<Rightarrow> pyfloat option) \<Rightarrow> xfloat list list \<Rightarrow> int \<Rightarrow> (pyfloat list \<Rightarrow> xfloat) \<Rightarrow> int \<Rightarrow> CSCVResult res" where
  "cscv_pbo lm correlation strategy_returns n_segments metric min_obs_per_segment =
     (let n_strategies = length strategy_returns
      in bindE (require (2 \<le> n_strategies) CSCVError) (\<lambda>_.
         bindE (require (2 \<le> n_segments \<and> even n_segments) CSCVError) (\<lambda>_.
         bindE (require (1 \<le> min_obs_per_segment) CSCVError) (\<lambda>_.
         let t_obs = length (strategy_returns ! 0)
         in bindE (require (list_all (\<lambda>s. length s = t_obs) strategy_returns) CSCVError) (\<lambda>_.
            bindE (require (list_all (list_all xfinite) strategy_returns) CSCVError) (\<lambda>_.
            let rows = map (map xval) strategy_returns;
                n_seg = nat n_segments;
                seg_size = t_obs div n_seg
            in bindE (require (min_obs_per_segment \<le> int seg_size) CSCVError) (\<lambda>_.
               let used_t = seg_size * n_seg;
                   segments = time_segments rows seg_size n_seg;
                   half = n_seg div 2;
                   splits = List.map_filter (split_result lm metric segments n_seg) (combinations half [0..<n_seg]);
                   logits = map fst splits;
                   is_all = concat (map (\<lambda>x. fst (snd x)) splits);
                   oos_all = concat (map (\<lambda>x. snd (snd x)) splits)
               in bindE (require (logits \<noteq> []) CSCVError) (\<lambda>_.
                  let pbo = int_quotient (int (length (filter (\<lambda>lam. lam < 0) logits))) (int (length logits))
                  in Inr \<lparr>cs_pbo = pbo, cs_n_strategies = n_strategies, cs_n_observations = used_t, cs_n_segments = n_segments,
                          cs_n_combinations = n_seg choose half, cs_mean_logit = fmean logits, cs_median_logit = fmedian logits,
                          cs_is_oos_correlation = pearson correlation is_all oos_all, cs_logits = logits\<rparr>))))))))"

section \<open>A split counts when the winner is beaten by more strategies than it beats\<close>

text \<open>What the library documents of the logarithm.\<close>

definition log_ok :: "libm \<Rightarrow> bool" where
  "log_ok lm \<longleftrightarrow> (\<forall>x > 0. lm_log lm x < 0 \<longleftrightarrow> x < 1)"

lemma frepr_LOGIT_EPS: "0 < LOGIT_EPS" "LOGIT_EPS < 1 / 4"
proof -
  show "0 < LOGIT_EPS" unfolding LOGIT_EPS_def by (rule fl64.rnd_pos) simp
  have "LOGIT_EPS \<le> (1 + 1 / 2 ^ 53) * (1 / 10 ^ 9)" unfolding LOGIT_EPS_def by (rule fl64.rnd_upper) simp
  then show "LOGIT_EPS < 1 / 4" by (rule order.strict_trans1) simp
qed

lemma upper_clamp: "3 / 4 \<le> fsub 1 LOGIT_EPS" "fsub 1 LOGIT_EPS < 1"
proof -
  have "3 / 4 = (of_int 3 * 2 powi (- 2) :: rat)" by (simp add: power_int_def power2_eq_square)
  then have "fround (3 / 4) = 3 / 4" by (rule fround_exact) simp
  then show "3 / 4 \<le> fsub 1 LOGIT_EPS" unfolding fsub_def using frepr_LOGIT_EPS by (intro fl64.rnd_ge_fixed) simp_all
  have "10 ^ 9 * LOGIT_EPS \<ge> 1 / 2"
    using fl64.rnd_lower [of "1 / 10 ^ 9"] by (simp add: LOGIT_EPS_def)
  then have "(1 + 1 / 2 ^ 53) * (1 - LOGIT_EPS) < 1" by simp
  moreover have "fsub 1 LOGIT_EPS \<le> (1 + 1 / 2 ^ 53) * (1 - LOGIT_EPS)"
    unfolding fsub_def using frepr_LOGIT_EPS by (intro fl64.rnd_upper) simp
  ultimately show "fsub 1 LOGIT_EPS < 1" by linarith
qed

text \<open>The logit of a weight that is one half or more is not negative; of a weight clearly below one half it is.\<close>

lemma safe_logit_upper:
  assumes "log_ok lm" "1 / 2 \<le> w"
  shows "\<not> safe_logit lm w < 0"
proof -
  define wc where "wc = min (max w LOGIT_EPS) (fsub 1 LOGIT_EPS)"
  have wc: "1 / 2 \<le> wc" "wc < 1" using assms(2) upper_clamp by (simp_all add: wc_def)
  have "1 - wc \<le> 1 / 2" "0 < 1 - wc" using wc by simp_all
  then have y: "0 < fsub 1 wc" "fsub 1 wc \<le> 1 / 2"
    unfolding fsub_def by (blast intro: fl64.rnd_pos fl64.rnd_le_fixed fround_half)+
  then have "1 \<le> wc / fsub 1 wc" using wc by (simp add: le_divide_eq)
  then have "1 \<le> fdiv wc (fsub 1 wc)" unfolding fdiv_def by (intro fl64.rnd_ge_fixed fl64.rnd_one)
  then have "0 < fdiv wc (fsub 1 wc) \<and> \<not> fdiv wc (fsub 1 wc) < 1" by linarith
  then show ?thesis using assms(1) by (simp add: safe_logit_def log_ok_def Let_def wc_def)
qed

lemma safe_logit_lower:
  assumes "log_ok lm" "0 < w" "w \<le> (1 - 1 / 2 ^ 50) / 2 * (1 + 1 / 2 ^ 53)"
  shows "safe_logit lm w < 0"
proof -
  define wc where "wc = min (max w LOGIT_EPS) (fsub 1 LOGIT_EPS)"
  have u: "w < 1 / 2" using assms(3) by (rule order.strict_trans1) simp
  have wc: "0 < wc" "wc \<le> (1 - 1 / 2 ^ 50) / 2 * (1 + 1 / 2 ^ 53)"
  proof -
    have "LOGIT_EPS \<le> (1 - 1 / 2 ^ 50) / 2 * (1 + 1 / 2 ^ 53)"
      by (rule order.trans [OF less_imp_le [OF frepr_LOGIT_EPS(2)]]) simp
    with assms(3) have "max w LOGIT_EPS \<le> (1 - 1 / 2 ^ 50) / 2 * (1 + 1 / 2 ^ 53)" by (rule max.boundedI)
    then show "wc \<le> (1 - 1 / 2 ^ 50) / 2 * (1 + 1 / 2 ^ 53)" unfolding wc_def by (rule order.trans [OF min.cobounded1])
    show "0 < wc" using assms(2) upper_clamp frepr_LOGIT_EPS by (simp add: wc_def)
  qed
  have half: "wc < 1 / 2" using wc(2) by (rule order.strict_trans1) simp
  then have y: "1 / 2 \<le> fsub 1 wc" unfolding fsub_def by (intro fl64.rnd_ge_fixed fround_half) simp
  then have "wc / fsub 1 wc \<le> wc / (1 / 2)" using wc(1) by (intro divide_left_mono) simp_all
  also have "\<dots> \<le> (1 - 1 / 2 ^ 50) * (1 + 1 / 2 ^ 53)" using wc(2) by simp
  finally have q: "wc / fsub 1 wc \<le> (1 - 1 / 2 ^ 50) * (1 + 1 / 2 ^ 53)" .
  have q0: "0 < wc / fsub 1 wc" using wc(1) y by simp
  have "fdiv wc (fsub 1 wc) \<le> (1 + 1 / 2 ^ 53) * (wc / fsub 1 wc)"
    unfolding fdiv_def using q0 by (intro fl64.rnd_upper) simp
  also have "\<dots> \<le> (1 + 1 / 2 ^ 53) * ((1 - 1 / 2 ^ 50) * (1 + 1 / 2 ^ 53))" using q by (intro mult_left_mono) simp_all
  also have "\<dots> < 1" by simp
  finally have "fdiv wc (fsub 1 wc) < 1" .
  moreover have "0 < fdiv wc (fsub 1 wc)" unfolding fdiv_def using q0 by (rule fl64.rnd_pos)
  ultimately show ?thesis using assms(1) by (simp add: safe_logit_def log_ok_def Let_def wc_def)
qed

lemma rank_value:
  assumes "below + equal \<le> m" "m < 2 ^ 50"
  shows "fadd (fint (int below)) (fdiv (fint (int equal + 1)) 2) = of_nat (2 * below + equal + 1) / 2"
proof -
  have f: "fint (int below) = of_nat below" "fint (int equal + 1) = of_int (int equal + 1)"
    using assms fint_small [of "int below"] fint_small [of "int equal + 1"] by simp_all
  have "fround (of_int (int equal + 1) / 2) = of_int (int equal + 1) / 2"
    using frepr_half [of "int equal + 1"] assms by (simp add: frepr_def)
  moreover have "fround (of_int (int (2 * below + equal + 1)) / 2) = of_int (int (2 * below + equal + 1)) / 2"
    using frepr_half [of "int (2 * below + equal + 1)"] assms by (simp add: frepr_def)
  moreover have "of_nat below + of_int (int equal + 1) / 2 = (of_int (int (2 * below + equal + 1)) / 2 :: rat)"
    by (simp add: field_simps)
  ultimately show ?thesis unfolding fadd_def fdiv_def f by (simp only: of_int_of_nat_eq)
qed

text \<open>How many strategies the target beats, and how many beat it.\<close>

definition n_below :: "pyfloat list \<Rightarrow> nat \<Rightarrow> nat" where
  "n_below metrics target = length (filter (\<lambda>v. v < metrics ! target) metrics)"

definition n_above :: "pyfloat list \<Rightarrow> nat \<Rightarrow> nat" where
  "n_above metrics target = length (filter (\<lambda>v. metrics ! target < v) metrics)"

lemma n_below_above: "n_below ms t + length (filter (\<lambda>v. v = ms ! t) ms) + n_above ms t = length ms"
proof -
  have "length (filter (\<lambda>v. v < a) ms) + length (filter (\<lambda>v. v = a) ms) + length (filter (\<lambda>v. a < v) ms) = length ms" for a
    by (induction ms) auto
  then show ?thesis by (simp add: n_below_def n_above_def)
qed

lemma reciprocal_le: "0 < x \<Longrightarrow> x \<le> y \<Longrightarrow> 1 / y \<le> 1 / (x :: rat)"
  by (simp add: frac_le)

lemma logit_negative_iff:
  assumes "log_ok lm" "length ms < 2 ^ 50"
  shows "safe_logit lm (relative_rank ms t (length ms)) < 0 \<longleftrightarrow> n_below ms t < n_above ms t"
proof -
  define b e a m where "b = n_below ms t" and "e = length (filter (\<lambda>v. v = ms ! t) ms)" and "a = n_above ms t" and "m = length ms"
  have sum: "b + e + a = m" using n_below_above [of ms t] by (simp add: b_def e_def a_def m_def)
  have m: "m < 2 ^ 50" using assms(2) by (simp add: m_def)
  have "fadd (fint (int b)) (fdiv (fint (int e + 1)) 2) = of_nat (2 * b + e + 1) / 2"
    using rank_value [of b e m] sum m by simp
  moreover have "fint (int m + 1) = of_nat (m + 1)" using fint_small [of "int m + 1"] m by simp
  moreover have "relative_rank ms t (length ms) = fdiv (fadd (fint (int b)) (fdiv (fint (int e + 1)) 2)) (fint (int m + 1))"
    by (simp add: relative_rank_def Let_def b_def e_def m_def n_below_def)
  ultimately have w: "relative_rank ms t (length ms) = fround (of_nat (2 * b + e + 1) / 2 / of_nat (m + 1))"
    by (simp only: fdiv_def)
  define q :: rat where "q = of_nat (2 * b + e + 1) / 2 / of_nat (m + 1)"
  have q0: "0 < q" by (simp add: q_def)
  show ?thesis
  proof (cases "b < a")
    case True
    then have "2 * b + e + 1 \<le> m" using sum by linarith
    then have "of_nat (2 * b + e + 1) \<le> (of_nat m :: rat)" by (simp only: of_nat_le_iff)
    then have "q \<le> of_nat m / 2 / of_nat (m + 1)" unfolding q_def by (intro divide_right_mono) simp_all
    also have "\<dots> = (1 - 1 / of_nat (m + 1)) / 2" by (simp add: field_simps)
    also have "\<dots> \<le> (1 - 1 / 2 ^ 50) / 2"
    proof -
      have "of_nat (m + 1) \<le> (of_nat (2 ^ 50) :: rat)" using m by (simp only: of_nat_le_iff)
      then have "1 / of_nat (2 ^ 50) \<le> (1 / of_nat (m + 1) :: rat)"
        by (rule reciprocal_le [rotated]) simp
      then have "1 / 2 ^ 50 \<le> (1 / of_nat (m + 1) :: rat)" by (simp only: of_nat_power of_nat_numeral)
      then show ?thesis by (intro divide_right_mono diff_left_mono) simp_all
    qed
    finally have q: "q \<le> (1 - 1 / 2 ^ 50) / 2" .
    have "fround q \<le> (1 + 1 / 2 ^ 53) * q" using q0 by (intro fl64.rnd_upper) simp
    also have "\<dots> \<le> (1 + 1 / 2 ^ 53) * ((1 - 1 / 2 ^ 50) / 2)" using q by (intro mult_left_mono) simp_all
    finally have "fround q \<le> (1 - 1 / 2 ^ 50) / 2 * (1 + 1 / 2 ^ 53)" by simp
    then have "safe_logit lm (fround q) < 0" by (rule safe_logit_lower [OF assms(1) fl64.rnd_pos [OF q0]])
    then show ?thesis using True by (simp only: w q_def b_def a_def)
  next
    case False
    then have "m + 1 \<le> 2 * b + e + 1" using sum by linarith
    then have "of_nat (m + 1) \<le> (of_nat (2 * b + e + 1) :: rat)" by (simp only: of_nat_le_iff)
    then have "1 / 2 \<le> q" unfolding q_def by (simp add: le_divide_eq)
    then have "1 / 2 \<le> fround q" by (intro fl64.rnd_ge_fixed fround_half)
    then have "\<not> safe_logit lm (fround q) < 0" by (rule safe_logit_upper [OF assms(1)])
    then show ?thesis using False by (simp only: w q_def b_def a_def simp_thms)
  qed
qed

section \<open>The probability of overfitting\<close>

text \<open>The splits whose metrics are all finite, and the verdict on one of them.\<close>

definition usable_splits :: "(pyfloat list \<Rightarrow> xfloat) \<Rightarrow> pyfloat list list list \<Rightarrow> nat \<Rightarrow> nat list list" where
  "usable_splits metric segments n = filter (\<lambda>c. list_all xfinite (is_metrics metric segments c @ oos_metrics metric segments n c))
     (combinations (n div 2) [0..<n])"

definition overfit_split :: "(pyfloat list \<Rightarrow> xfloat) \<Rightarrow> pyfloat list list list \<Rightarrow> nat \<Rightarrow> nat list \<Rightarrow> bool" where
  "overfit_split metric segments n c \<longleftrightarrow>
     (let oos = map xval (oos_metrics metric segments n c); winner = argmax (map xval (is_metrics metric segments c))
      in n_below oos winner < n_above oos winner)"

lemma map_filter_splits:
  "map fst (List.map_filter (split_result lm metric segments n) cs) =
     map (\<lambda>c. safe_logit lm (relative_rank (map xval (oos_metrics metric segments n c)) (argmax (map xval (is_metrics metric segments c))) (length segments)))
       (filter (\<lambda>c. list_all xfinite (is_metrics metric segments c @ oos_metrics metric segments n c)) cs)"
  by (induction cs) (auto simp: map_filter_simps split_result_def Let_def)

lemma cscv_pbo_Inr:
  assumes "cscv_pbo lm correlation sr S metric min_obs = Inr r"
  defines "T \<equiv> length (sr ! 0)"
  defines "segs \<equiv> time_segments (map (map xval) sr) (T div nat S) (nat S)"
  shows "2 \<le> S \<and> even S \<and> 2 \<le> length sr \<and> 1 \<le> min_obs \<and> (\<forall>s \<in> set sr. length s = T) \<and> min_obs \<le> int (T div nat S) \<and>
    cs_logits r = map (\<lambda>c. safe_logit lm (relative_rank (map xval (oos_metrics metric segs (nat S) c)) (argmax (map xval (is_metrics metric segs c)))
      (length sr))) (usable_splits metric segs (nat S)) \<and> usable_splits metric segs (nat S) \<noteq> [] \<and>
    cs_pbo r = int_quotient (int (length (filter (\<lambda>lam. lam < 0) (cs_logits r)))) (int (length (cs_logits r))) \<and>
    cs_n_observations r = T div nat S * nat S \<and> cs_n_combinations r = nat S choose (nat S div 2)"
proof -
  have "length segs = length sr" by (simp add: segs_def time_segments_def)
  then show ?thesis
    using assms(1) unfolding cscv_pbo_def Let_def bindE_Inr_iff require_iff
    by (auto simp: map_filter_splits usable_splits_def segs_def [symmetric] T_def [symmetric] list_all_iff)
qed

lemma overfit_split_iff:
  assumes "log_ok lm" "length segs < 2 ^ 50"
  shows "safe_logit lm (relative_rank (map xval (oos_metrics metric segs n c)) (argmax (map xval (is_metrics metric segs c))) (length segs)) < 0 \<longleftrightarrow>
    overfit_split metric segs n c"
proof -
  have "length (map xval (oos_metrics metric segs n c)) = length segs" by (simp add: oos_metrics_def Let_def)
  then show ?thesis
    using logit_negative_iff [OF assms(1), of "map xval (oos_metrics metric segs n c)"] assms(2) by (simp add: overfit_split_def Let_def)
qed

lemma overfit_identical:
  assumes "\<forall>s \<in> set segs. s = a"
  shows "\<not> overfit_split metric segs n c"
proof -
  define oos w where "oos = map xval (oos_metrics metric segs n c)" and "w = argmax (map xval (is_metrics metric segs c))"
  have same: "\<forall>v \<in> set oos. v = xval (metric_over metric a (filter (\<lambda>j. j \<notin> set c) [0..<n]))"
    using assms by (auto simp: oos_def oos_metrics_def Let_def)
  have w: "w < length oos \<or> oos = []"
    using first_max_spec [of "length segs"] by (auto simp: w_def oos_def oos_metrics_def Let_def argmax_def is_metrics_def)
  have "n_above oos w = 0"
    unfolding n_above_def length_0_conv filter_empty_conv using same w by (metis empty_iff less_irrefl list.set(1) nth_mem)
  then show ?thesis by (simp add: overfit_split_def Let_def oos_def w_def)
qed

text \<open>
  C38. The probability of backtest overfitting is the exact share of the usable symmetric splits in which more strategies beat the in-sample
  winner out of sample than it beats there: the ranks, the clamp and the logarithm between the two never change the verdict. It lies in
  \<open>[0, 1]\<close> and is zero for a family of identical strategies. The splits are all the choices of half the segments, each one's complement
  among them, every segment is in sample in one half of them, and fewer observations than there are segments are dropped.
\<close>

theorem cscv_pbo_exact:
  assumes "cscv_pbo lm correlation sr S metric min_obs = Inr r" "log_ok lm" "length sr < 2 ^ 50"
    "segs = time_segments (map (map xval) sr) (length (sr ! 0) div nat S) (nat S)"
  shows "cs_pbo r = int_quotient (int (length (filter (overfit_split metric segs (nat S)) (usable_splits metric segs (nat S)))))
           (int (length (usable_splits metric segs (nat S)))) \<and>
         0 \<le> cs_pbo r \<and> cs_pbo r \<le> 1 \<and>
         ((\<forall>s \<in> set sr. s = sr ! 0) \<longrightarrow> cs_pbo r = 0) \<and>
         set ` set (combinations (nat S div 2) [0..<nat S]) = {A. A \<subseteq> {..<nat S} \<and> card A = card ({..<nat S} - A)} \<and>
         cs_n_combinations r = length (combinations (nat S div 2) [0..<nat S]) \<and>
         (\<forall>j < nat S. 2 * length (filter (\<lambda>c. j \<in> set c) (combinations (nat S div 2) [0..<nat S])) = cs_n_combinations r) \<and>
         cs_n_observations r \<le> length (sr ! 0) \<and> length (sr ! 0) < cs_n_observations r + nat S"
proof -
  note r = cscv_pbo_Inr [OF assms(1), folded assms(4)]
  have len: "length segs = length sr" by (simp add: assms(4) time_segments_def)
  define U where "U = usable_splits metric segs (nat S)"
  have "length (filter (\<lambda>lam. lam < 0) (cs_logits r)) = length (filter (overfit_split metric segs (nat S)) U)"
    using r overfit_split_iff [OF assms(2), of segs metric "nat S"] assms(3) by (simp add: filter_map o_def len U_def)
  then have pbo: "cs_pbo r = int_quotient (int (length (filter (overfit_split metric segs (nat S)) U))) (int (length U))" and U: "U \<noteq> []"
    using r by (simp_all add: U_def)
  have unit: "0 \<le> cs_pbo r \<and> cs_pbo r \<le> 1"
    unfolding pbo using U by (intro int_quotient_unit) simp_all
  have zero: "cs_pbo r = 0" if "\<forall>s \<in> set sr. s = sr ! 0"
  proof -
    have "\<forall>s \<in> set segs. s = map (\<lambda>j. take (length (sr ! 0) div nat S) (drop (j * (length (sr ! 0) div nat S)) (map xval (sr ! 0)))) [0..<nat S]"
      unfolding assms(4) time_segments_def using that by (auto simp: cong: map_cong)
    from overfit_identical [OF this] show ?thesis by (simp add: pbo int_quotient_def fl64.rnd_zero)
  qed
  have S: "0 < nat S" "even (nat S)" using r by (auto simp: even_nat_iff)
  have halves: "{A. A \<subseteq> {..<nat S} \<and> card A = nat S div 2} = {A. A \<subseteq> {..<nat S} \<and> card A = card ({..<nat S} - A)}"
  proof -
    have "card A = nat S div 2 \<longleftrightarrow> card A = card ({..<nat S} - A)" if "A \<subseteq> {..<nat S}" for A
      using that card_Diff_subset [of A "{..<nat S}"] card_mono [OF _ that] S(2) finite_subset [OF that] by auto
    then show ?thesis by blast
  qed
  have obs: "cs_n_observations r = length (sr ! 0) div nat S * nat S" using r by simp
  show ?thesis
  proof (intro conjI impI)
    show "set ` set (combinations (nat S div 2) [0..<nat S]) = {A. A \<subseteq> {..<nat S} \<and> card A = card ({..<nat S} - A)}"
      unfolding halves [symmetric] using combinations_set [of "[0..<nat S]" "nat S div 2"] by (simp add: atLeast0LessThan)
    show n: "cs_n_combinations r = length (combinations (nat S div 2) [0..<nat S])" using r by (simp add: length_combinations)
    show "\<forall>j < nat S. 2 * length (filter (\<lambda>c. j \<in> set c) (combinations (nat S div 2) [0..<nat S])) = cs_n_combinations r"
      unfolding n using half_combinations_balanced [of "[0..<nat S]" _ "nat S div 2"] S(2) by auto
    show "cs_n_observations r \<le> length (sr ! 0)" "length (sr ! 0) < cs_n_observations r + nat S"
      unfolding obs using div_mult_mod_eq [of "length (sr ! 0)" "nat S"] mod_less_divisor [OF S(1), of "length (sr ! 0)"] by linarith+
  qed (use unit zero in \<open>simp_all add: pbo [unfolded U_def]\<close>)
qed

theorem cscv_pbo_exact_witness:
  "\<exists>r. cscv_pbo \<lparr>lm_log = (\<lambda>x. x - 1), lm_log10 = id, lm_pow = (\<lambda>x _. x)\<rparr> (\<lambda>_ _. None) [[Fin 1, Fin 2], [Fin 1, Fin 2]] 2 (\<lambda>xs. Fin (hd xs)) 1 = Inr r \<and>
     cs_pbo r = 0"
proof -
  let ?lm = "\<lparr>lm_log = (\<lambda>x. x - 1), lm_log10 = id, lm_pow = (\<lambda>x _. x)\<rparr>" and ?sr = "[[Fin 1, Fin 2], [Fin 1, Fin 2]]"
  have ok: "log_ok ?lm" by (simp add: log_ok_def)
  obtain r where r: "cscv_pbo ?lm (\<lambda>_ _. None) ?sr 2 (\<lambda>xs. Fin (hd xs)) 1 = Inr r"
  proof -
    have "list_all xfinite (is_metrics (\<lambda>xs. Fin (hd xs)) segs c @ oos_metrics (\<lambda>xs. Fin (hd xs)) segs 2 c)" for segs c
      by (auto simp: is_metrics_def oos_metrics_def metric_over_def list_all_iff Let_def)
    moreover have "combinations 1 [0..<2] \<noteq> ([] :: nat list list)" using length_combinations [of 1 "[0..<2]"] by auto
    ultimately have "map fst (List.map_filter (split_result ?lm (\<lambda>xs. Fin (hd xs)) segs 2) (combinations 1 [0..<2])) \<noteq> []" for segs
      unfolding map_filter_splits by simp
    then show ?thesis using that by (simp add: cscv_pbo_def require_def Let_def)
  qed
  from cscv_pbo_exact [OF r ok _ refl] r show ?thesis by simp
qed

end
