(* ===== verification/Sharpe.thy ===== *)
theory Sharpe
  imports Extended_Float
begin

text \<open>
  The probabilistic and the deflated Sharpe ratio (\<open>src/futur3/stats/_sharpe_core.py\<close>, \<open>probabilistic_sharpe.py\<close>,
  \<open>deflated_sharpe.py\<close>) on floats. The distribution function of the standard normal law and its inverse are the parameter \<open>stdnormal\<close>;
  the inverse raises outside \<open>(0, 1)\<close>, as \<open>NormalDist.inv_cdf\<close> does.
\<close>

record stdnormal =
  nd_cdf :: "pyfloat \<Rightarrow> pyfloat"
  nd_inv_cdf :: "pyfloat \<Rightarrow> pyfloat"

definition inv_cdf :: "stdnormal \<Rightarrow> pyfloat \<Rightarrow> pyfloat res" where
  "inv_cdf nd p = (if 0 < p \<and> p < 1 then Inr (nd_inv_cdf nd p) else Inl StatisticsError)"



record SharpeMoments =
  sm_n :: nat
  sm_sr_per_period :: pyfloat
  sm_skew :: pyfloat
  sm_kurt :: pyfloat

definition central_moment :: "libm \<Rightarrow> pyfloat list \<Rightarrow> pyfloat \<Rightarrow> pyfloat \<Rightarrow> pyfloat" where
  "central_moment lm returns mean k = fdiv (fsum (map (\<lambda>x. lm_pow lm (fsub x mean) k) returns)) (fint (int (length returns)))"

definition compute_sharpe_moments :: "libm \<Rightarrow> pyfloat list \<Rightarrow> SharpeMoments option" where
  "compute_sharpe_moments lm returns =
     (let n = length returns
      in if n < 2 then None
         else
           let mean = fmean returns;
               sd = fstdev returns
           in if sd \<le> 0 then None
              else
                let sr = fdiv mean sd;
                    m2 = central_moment lm returns mean 2
                in if m2 \<le> 0 then None
                   else
                     let m3 = central_moment lm returns mean 3;
                         m4 = central_moment lm returns mean 4
                     in Some \<lparr>sm_n = n, sm_sr_per_period = sr, sm_skew = fdiv m3 (lm_pow lm m2 (3 / 2)), sm_kurt = fdiv m4 (lm_pow lm m2 2)\<rparr>)"

definition variance_term :: "libm \<Rightarrow> pyfloat \<Rightarrow> pyfloat \<Rightarrow> pyfloat \<Rightarrow> pyfloat" where
  "variance_term lm sr skew kurt = fadd (fsub 1 (fmul skew sr)) (fmul (fdiv (fsub kurt 1) 4) (lm_pow lm sr 2))"

definition psr_kernel :: "libm \<Rightarrow> stdnormal \<Rightarrow> pyfloat \<Rightarrow> pyfloat \<Rightarrow> nat \<Rightarrow> pyfloat \<Rightarrow> pyfloat \<Rightarrow> pyfloat option" where
  "psr_kernel lm nd sr sr_star n skew kurt =
     (let denom_inner = variance_term lm sr skew kurt
      in if denom_inner \<le> 0 then None
         else Some (nd_cdf nd (fdiv (fmul (fsub sr sr_star) (fsqrt (fint (int n - 1)))) (fsqrt denom_inner))))"


definition newey_west_max_lag :: "libm \<Rightarrow> nat \<Rightarrow> int" where
  "newey_west_max_lag lm n = max 1 (trunc (fmul 4 (lm_pow lm (fdiv (fint (int n)) 100) (fdiv 2 9))))"

text \<open>One lag of the weighted sum.\<close>

definition lag_term :: "pyfloat list \<Rightarrow> pyfloat \<Rightarrow> pyfloat \<Rightarrow> int \<Rightarrow> pyfloat \<Rightarrow> nat \<Rightarrow> pyfloat" where
  "lag_term returns mean var q weighted k =
     (let n = length returns;
          cov_k = fdiv (fsum (map (\<lambda>i. fmul (fsub (returns ! i) mean) (fsub (returns ! (i - k)) mean)) [k..<n])) (fint (int n))
      in fadd weighted (fmul (fint (q - int k)) (fdiv cov_k var)))"

definition lo_autocorr_factor :: "libm \<Rightarrow> pyfloat list \<Rightarrow> int \<Rightarrow> int option \<Rightarrow> pyfloat option" where
  "lo_autocorr_factor lm returns q max_lag =
     (let n = length returns
      in if q < 1 \<or> n < 2 then None
         else
           let mean = fmean returns;
               var = central_moment lm returns mean 2
           in if var \<le> 0 then None
              else
                let cap = (case max_lag of Some c \<Rightarrow> c | None \<Rightarrow> newey_west_max_lag lm n);
                    lag_cap = min (min (q - 1) (int n - 1)) cap
                in if lag_cap < 1 then Some (fdiv (fint q) (fsqrt (fint q)))
                   else
                     let weighted = foldl (lag_term returns mean var q) 0 [1..<nat lag_cap + 1];
                         denom = fadd (fint q) (fmul 2 weighted)
                     in if denom \<le> 0 then None else Some (fdiv (fint q) (fsqrt denom)))"

section \<open>The probabilistic Sharpe ratio\<close>

record PSRResult =
  psr_psr :: "pyfloat option"
  psr_sr_annualized :: "pyfloat option"
  psr_sr_threshold :: pyfloat
  psr_skew :: "pyfloat option"
  psr_kurt :: "pyfloat option"
  psr_n :: nat
  psr_sufficient_n :: bool
  psr_reason :: "string option"
  psr_sr_annualized_lo :: "pyfloat option"

definition PSR_THRESHOLD :: pyfloat where
  "PSR_THRESHOLD = fround (95 / 100)"

definition passes_psr :: "PSRResult \<Rightarrow> bool" where
  "passes_psr r \<longleftrightarrow> (case psr_psr r of None \<Rightarrow> False | Some p \<Rightarrow> PSR_THRESHOLD < p)"

definition probabilistic_sharpe :: "libm \<Rightarrow> stdnormal \<Rightarrow> xfloat list \<Rightarrow> pyfloat \<Rightarrow> pyfloat \<Rightarrow> PSRResult res" where
  "probabilistic_sharpe lm nd returns sr_threshold periods_per_year =
     bindE (require (0 < periods_per_year) PSRError) (\<lambda>_.
     bindE (require (list_all xfinite returns) PSRError) (\<lambda>_.
       let r = map xval returns;
           n = length r
       in case compute_sharpe_moments lm r of
            None \<Rightarrow> Inr \<lparr>psr_psr = None, psr_sr_annualized = None, psr_sr_threshold = sr_threshold, psr_skew = None, psr_kurt = None, psr_n = n,
                      psr_sufficient_n = False, psr_reason = Some ''insufficient data (n<2 or zero variance)'', psr_sr_annualized_lo = None\<rparr>
          | Some m \<Rightarrow>
              let sr_ann = fmul (sm_sr_per_period m) (fsqrt periods_per_year);
                  eta = lo_autocorr_factor lm r (round_half_even periods_per_year) None;
                  sr_ann_lo = map_option (fmul (sm_sr_per_period m)) eta
              in if n < 10
                 then Inr \<lparr>psr_psr = None, psr_sr_annualized = Some sr_ann, psr_sr_threshold = sr_threshold, psr_skew = Some (sm_skew m),
                           psr_kurt = Some (sm_kurt m), psr_n = n, psr_sufficient_n = False,
                           psr_reason = Some ''n<10 (skew/kurtosis estimates unreliable)'', psr_sr_annualized_lo = sr_ann_lo\<rparr>
                 else
                   let sr_threshold_pp = fdiv sr_threshold (fsqrt periods_per_year);
                       psr = psr_kernel lm nd (sm_sr_per_period m) sr_threshold_pp (sm_n m) (sm_skew m) (sm_kurt m)
                   in Inr \<lparr>psr_psr = psr, psr_sr_annualized = Some sr_ann, psr_sr_threshold = sr_threshold, psr_skew = Some (sm_skew m),
                           psr_kurt = Some (sm_kurt m), psr_n = n, psr_sufficient_n = True,
                           psr_reason = (if psr \<noteq> None then None else Some ''variance term non-positive (extreme skew/kurtosis)''),
                           psr_sr_annualized_lo = sr_ann_lo\<rparr>))"

definition min_track_record_length :: "libm \<Rightarrow> stdnormal \<Rightarrow> pyfloat \<Rightarrow> pyfloat \<Rightarrow> pyfloat \<Rightarrow> pyfloat \<Rightarrow> pyfloat \<Rightarrow> pyfloat option res" where
  "min_track_record_length lm nd sr sr_star skew kurt alpha =
     (if sr \<le> sr_star then Inr None
      else
        let var_term = variance_term lm sr skew kurt
        in if var_term \<le> 0 then Inr None
           else bindE (inv_cdf nd (fsub 1 alpha)) (\<lambda>z. Inr (Some (fadd 1 (fmul var_term (lm_pow lm (fdiv z (fsub sr sr_star)) 2))))))"

section \<open>The deflated Sharpe ratio\<close>

record DSRResult =
  dsr_dsr :: "pyfloat option"
  dsr_psr_implied :: "pyfloat option"
  dsr_sr_observed :: "pyfloat option"
  dsr_sr_star :: "pyfloat option"
  dsr_n_trials :: nat
  dsr_var_sr_trials :: "pyfloat option"
  dsr_skew :: "pyfloat option"
  dsr_kurt :: "pyfloat option"
  dsr_n :: nat
  dsr_reason :: "string option"
  dsr_sr_observed_lo :: "pyfloat option"

definition DSR_THRESHOLD :: pyfloat where
  "DSR_THRESHOLD = fround (95 / 100)"

definition passes_dsr :: "DSRResult \<Rightarrow> bool" where
  "passes_dsr r \<longleftrightarrow> (case dsr_dsr r of None \<Rightarrow> False | Some p \<Rightarrow> DSR_THRESHOLD < p)"


section \<open>Deflation\<close>






lemma probabilistic_sharpe_total:
  "(\<exists>r. probabilistic_sharpe lm nd returns t ppy = Inr r) \<longleftrightarrow> 0 < ppy \<and> list_all xfinite returns"
  by (auto simp: probabilistic_sharpe_def bindE_Inr_iff require_iff Let_def split: option.splits)




end
