(* ===== verification/BCa.thy ===== *)
theory BCa
  imports Block_Bootstrap Sharpe
begin

text \<open>
  The bootstrap interval with bias correction and acceleration (\<open>src/futur3/stats/bootstrap_ci.py\<close>).
\<close>

definition PF_LOWER_THRESHOLD :: pyfloat where
  "PF_LOWER_THRESHOLD = 1"

definition profit_factor :: "pyfloat list \<Rightarrow> xfloat" where
  "profit_factor returns =
     (let gains = fsum (filter (\<lambda>r. 0 < r) returns);
          losses = fsum (map uminus (filter (\<lambda>r. r < 0) returns))
      in if losses = 0 then (if 0 < gains then PInf else NaN) else Fin (fdiv gains losses))"

record BCaResult =
  bca_point :: xfloat
  bca_lower :: xfloat
  bca_upper :: xfloat
  bca_z0 :: xfloat
  bca_accel :: xfloat
  bca_confidence :: pyfloat
  bca_n_resamples :: int
  bca_n :: nat
  bca_seed :: "int option"
  bca_reason :: "string option"

definition bca_lower_exceeds :: "BCaResult \<Rightarrow> pyfloat \<Rightarrow> bool" where
  "bca_lower_exceeds r threshold \<longleftrightarrow> xfinite (bca_lower r) \<and> xlt (Fin threshold) (bca_lower r)"

definition bca_undefined :: "xfloat \<Rightarrow> pyfloat \<Rightarrow> int \<Rightarrow> nat \<Rightarrow> int option \<Rightarrow> string \<Rightarrow> BCaResult" where
  "bca_undefined point confidence n_resamples n seed reason =
     \<lparr>bca_point = point, bca_lower = NaN, bca_upper = NaN, bca_z0 = NaN, bca_accel = NaN, bca_confidence = confidence,
      bca_n_resamples = n_resamples, bca_n = n, bca_seed = seed, bca_reason = Some reason\<rparr>"

text \<open>The bootstrap distribution: NaN draws are dropped, infinite ones kept.\<close>

fun iid_boot_loop :: "'s rng \<Rightarrow> (pyfloat list \<Rightarrow> xfloat) \<Rightarrow> pyfloat list \<Rightarrow> nat \<Rightarrow> 's \<Rightarrow> xfloat list" where
  "iid_boot_loop g statistic x 0 s = []"
| "iid_boot_loop g statistic x (Suc k) s =
     (let (idx, s) = iid_indices g (length x) (length x) s;
          theta = statistic (map (\<lambda>i. x ! i) idx)
      in if theta = NaN then iid_boot_loop g statistic x k s else theta # iid_boot_loop g statistic x k s)"

definition bias_proportion :: "xfloat list \<Rightarrow> xfloat \<Rightarrow> pyfloat" where
  "bias_proportion boot point =
     (let n_boot = fint (int (length boot));
          n_less = length (filter (\<lambda>t. xlt t point) boot);
          n_eq = length (filter (\<lambda>t. t = point) boot);
          p = fdiv (fadd (fint (int n_less)) (fmul (1 / 2) (fint (int n_eq)))) n_boot;
          edge = fdiv (1 / 2) n_boot
      in min (max p edge) (fsub 1 edge))"

definition jackknife_accel :: "libm \<Rightarrow> (pyfloat list \<Rightarrow> xfloat) \<Rightarrow> pyfloat list \<Rightarrow> pyfloat" where
  "jackknife_accel lm statistic x =
     (let jack = map (\<lambda>i. statistic (take i x @ drop (i + 1) x)) [0..<length x]
      in if list_all xfinite jack
         then
           let j_bar = fmean (map xval jack);
               diffs = map (\<lambda>j. fsub j_bar (xval j)) jack;
               denom = fsum (map (\<lambda>d. fmul d d) diffs)
           in if 0 < denom then fdiv (fsum (map (\<lambda>d. lm_pow lm d 3) diffs)) (fmul 6 (lm_pow lm denom (3 / 2))) else 0
         else 0)"

definition DENOM_FLOOR :: pyfloat where
  "DENOM_FLOOR = fround (1 / 10 ^ 12)"

definition bca_adjusted :: "stdnormal \<Rightarrow> pyfloat \<Rightarrow> pyfloat \<Rightarrow> pyfloat \<Rightarrow> pyfloat" where
  "bca_adjusted nd z0 accel z_q =
     (let denom = fsub 1 (fmul accel (fadd z0 z_q));
          denom = (if \<bar>denom\<bar> < DENOM_FLOOR then (if denom < 0 then - DENOM_FLOOR else DENOM_FLOOR) else denom)
      in nd_cdf nd (fadd z0 (fdiv (fadd z0 z_q) denom)))"

definition bca_bootstrap ::
  "libm \<Rightarrow> stdnormal \<Rightarrow> 's rng \<Rightarrow> xfloat list \<Rightarrow> (pyfloat list \<Rightarrow> xfloat) \<Rightarrow> int \<Rightarrow> pyfloat \<Rightarrow> int option \<Rightarrow> BCaResult res" where
  "bca_bootstrap lm nd g data statistic n_resamples confidence seed =
     bindE (require (0 < confidence \<and> confidence < 1) BCaError) (\<lambda>_.
     bindE (require (1000 \<le> n_resamples) BCaError) (\<lambda>_.
     bindE (require (2 \<le> length data) BCaError) (\<lambda>_.
     bindE (require (list_all xfinite data) BCaError) (\<lambda>_.
       let x = map xval data;
           n = length x;
           point = statistic x
       in if \<not> xfinite point
          then Inr (bca_undefined point confidence n_resamples n seed ''point statistic is not finite (e.g. profit factor with no losses)'')
          else
            let boot = iid_boot_loop g statistic x (nat n_resamples) (rg_seed g seed);
                n_boot = int (length boot)
            in if n_boot < n_resamples div 2
               then Inr (bca_undefined point confidence n_resamples n seed (''too many degenerate resamples ('' @
                      show_nat (nat (n_resamples - n_boot)) @ '' of '' @ show_nat (nat n_resamples) @ '' were NaN)''))
               else
                 bindE (inv_cdf nd (bias_proportion boot point)) (\<lambda>z0.
                 let accel = jackknife_accel lm statistic x;
                     alpha = fsub 1 confidence;
                     boot_sorted = sort boot
                 in bindE (inv_cdf nd (fdiv alpha 2)) (\<lambda>z_lower.
                    bindE (inv_cdf nd (fsub 1 (fdiv alpha 2))) (\<lambda>z_upper.
                      Inr \<lparr>bca_point = point, bca_lower = quantile boot_sorted (bca_adjusted nd z0 accel z_lower),
                           bca_upper = quantile boot_sorted (bca_adjusted nd z0 accel z_upper), bca_z0 = Fin z0, bca_accel = Fin accel,
                           bca_confidence = confidence, bca_n_resamples = n_resamples, bca_n = n, bca_seed = seed, bca_reason = None\<rparr>)))))))"

end
