(* ===== verification/Permutation_Test.thy ===== *)
theory Permutation_Test
  imports Resampling Extended_Float "HOL-Library.Multiset"
begin

text \<open>
  The permutation test (\<open>src/futur3/stats/permutation.py\<close>): the three transforms that destroy an edge, the null distribution and its
  p-value. \<open>random.shuffle\<close> is the loop of the standard library, which draws an index below each position from the top down.
\<close>

record PermutationResult =
  pm_p_value :: "pyfloat option"
  pm_observed :: xfloat
  pm_n_permutations :: int
  pm_n_valid :: nat
  pm_mode :: string
  pm_one_sided :: bool
  pm_block_length :: int
  pm_lag1_autocorr :: "pyfloat option"
  pm_autocorr_warning :: bool
  pm_seed :: "int option"
  pm_reason :: "string option"
  pm_null_distribution :: "xfloat list"

definition PERMUTATION_P_THRESHOLD :: pyfloat where
  "PERMUTATION_P_THRESHOLD = fround (5 / 100)"

definition passes_permutation :: "PermutationResult \<Rightarrow> bool" where
  "passes_permutation r \<longleftrightarrow> (case pm_p_value r of None \<Rightarrow> False | Some p \<Rightarrow> p < PERMUTATION_P_THRESHOLD)"

definition mean_return :: "pyfloat list \<Rightarrow> xfloat" where
  "mean_return returns = Fin (fmean returns)"

definition lag1_autocorr :: "libm \<Rightarrow> pyfloat list \<Rightarrow> pyfloat option" where
  "lag1_autocorr lm returns =
     (let n = length returns
      in if n < 3 then None
         else let mean = fmean returns;
                  var = fsum (map (\<lambda>x. lm_pow lm (fsub x mean) 2) returns)
              in if var \<le> 0 then None
                 else let cov = fsum (map (\<lambda>i. fmul (fsub (returns ! i) mean) (fsub (returns ! (i - 1)) mean)) [1..<n])
                      in Some (fdiv cov var))"

text \<open>\<open>for i in reversed(range(1, len(x))): j = randbelow(i + 1); x[i], x[j] = x[j], x[i]\<close>.\<close>

fun shuffle_loop :: "'s rng \<Rightarrow> nat \<Rightarrow> 'a list \<Rightarrow> 's \<Rightarrow> 'a list \<times> 's" where
  "shuffle_loop g 0 xs s = (xs, s)"
| "shuffle_loop g (Suc i) xs s =
     (let (j, s) = rg_randrange g (Suc i + 1) s
      in shuffle_loop g i (xs[Suc i := xs ! j, j := xs ! Suc i]) s)"

definition rng_shuffle :: "'s rng \<Rightarrow> 'a list \<Rightarrow> 's \<Rightarrow> 'a list \<times> 's" where
  "rng_shuffle g xs s = shuffle_loop g (length xs - 1) xs s"

fun sign_flip :: "'s rng \<Rightarrow> pyfloat list \<Rightarrow> 's \<Rightarrow> pyfloat list \<times> 's" where
  "sign_flip g [] s = ([], s)"
| "sign_flip g (r # rs) s =
     (let (u, s) = rg_random g s; (out, s) = sign_flip g rs s in ((if u < 1 / 2 then r else - r) # out, s))"

definition blocks_of :: "pyfloat list \<Rightarrow> nat \<Rightarrow> pyfloat list list" where
  "blocks_of returns block_length = map (\<lambda>i. take block_length (drop i returns)) (range_step (length returns) block_length)"

definition permute :: "'s rng \<Rightarrow> pyfloat list \<Rightarrow> string \<Rightarrow> nat \<Rightarrow> 's \<Rightarrow> pyfloat list \<times> 's" where
  "permute g returns mode block_length s =
     (if mode = ''sign_flip'' then sign_flip g returns s
      else if mode = ''shuffle'' then rng_shuffle g returns s
      else let (blocks, s) = rng_shuffle g (blocks_of returns block_length) s in (concat blocks, s))"

fun null_loop :: "'s rng \<Rightarrow> (pyfloat list \<Rightarrow> xfloat) \<Rightarrow> pyfloat list \<Rightarrow> string \<Rightarrow> nat \<Rightarrow> nat \<Rightarrow> 's \<Rightarrow> xfloat list" where
  "null_loop g statistic r mode block_length 0 s = []"
| "null_loop g statistic r mode block_length (Suc k) s =
     (let (sample, s) = permute g r mode block_length s;
          v = statistic sample
      in if xfinite v then v # null_loop g statistic r mode block_length k s else null_loop g statistic r mode block_length k s)"

definition MAX_NAN_FRACTION :: pyfloat where
  "MAX_NAN_FRACTION = fround (1 / 10)"

definition permutation_test ::
  "libm \<Rightarrow> 's rng \<Rightarrow> xfloat list \<Rightarrow> (pyfloat list \<Rightarrow> xfloat) \<Rightarrow> int \<Rightarrow> string \<Rightarrow> int \<Rightarrow> bool \<Rightarrow> int option \<Rightarrow> PermutationResult res" where
  "permutation_test lm g returns statistic n_permutations mode block_length one_sided seed =
     bindE (require (mode \<in> {''sign_flip'', ''block_shuffle'', ''shuffle''}) PermutationError) (\<lambda>_.
     bindE (require (1000 \<le> n_permutations) PermutationError) (\<lambda>_.
     bindE (require (1 \<le> block_length) PermutationError) (\<lambda>_.
     bindE (require (2 \<le> length returns) PermutationError) (\<lambda>_.
     bindE (require (list_all xfinite returns) PermutationError) (\<lambda>_.
       let r = map xval returns;
           n = length r;
           lag1 = lag1_autocorr lm r;
           autocorr_warning = (case lag1 of None \<Rightarrow> False
                               | Some a \<Rightarrow> mode \<in> {''sign_flip'', ''shuffle''} \<and> fdiv 2 (fsqrt (fint (int n))) < \<bar>a\<bar>);
           observed = statistic r;
           result = (\<lambda>p n_valid null reason.
             \<lparr>pm_p_value = p, pm_observed = observed, pm_n_permutations = n_permutations, pm_n_valid = n_valid, pm_mode = mode,
              pm_one_sided = one_sided, pm_block_length = block_length, pm_lag1_autocorr = lag1, pm_autocorr_warning = autocorr_warning,
              pm_seed = seed, pm_reason = reason, pm_null_distribution = null\<rparr>)
       in if \<not> xfinite observed then Inr (result None 0 [] (Some ''observed statistic is not finite''))
          else
            let null = null_loop g statistic r mode (nat block_length) (nat n_permutations) (rg_seed g seed);
                n_valid = length null;
                n_nan = n_permutations - int n_valid
            in bindE (require (\<not> fmul MAX_NAN_FRACTION (fint n_permutations) < of_int n_nan) PermutationError) (\<lambda>_.
               let n_ge = (if one_sided then length (filter (\<lambda>v. xle observed v) null)
                           else length (filter (\<lambda>v. \<bar>xval observed\<bar> \<le> \<bar>xval v\<bar>) null))
               in Inr (result (Some (p_value n_ge n_valid)) n_valid null None)))))))"

section \<open>A transform rearranges the returns or their signs\<close>

lemma shuffle_loop_mset:
  assumes "rng_ok g"
  shows "i < length xs \<or> i = 0 \<Longrightarrow> mset (fst (shuffle_loop g i xs s)) = mset xs"
proof (induction i arbitrary: xs s)
  case (Suc i)
  obtain j s1 where j: "rg_randrange g (Suc i + 1) s = (j, s1)" by fastforce
  have "j < Suc i + 1" by (rule rng_range [OF assms _ j]) simp
  then have "mset (xs[Suc i := xs ! j, j := xs ! Suc i]) = mset xs"
    using Suc.prems by (intro mset_swap) simp_all
  then show ?case using Suc.IH [of "xs[Suc i := xs ! j, j := xs ! Suc i]" s1] Suc.prems j by simp
qed simp

lemma rng_shuffle_mset: "rng_ok g \<Longrightarrow> rng_shuffle g xs s = (ys, s') \<Longrightarrow> mset ys = mset xs"
  using shuffle_loop_mset [of g "length xs - 1" xs s] by (cases xs) (simp_all add: rng_shuffle_def)

lemma sign_flip_signs: "sign_flip g xs s = (ys, s') \<Longrightarrow> list_all2 (\<lambda>a b. b = a \<or> b = - a) xs ys"
  by (induction g xs s arbitrary: ys rule: sign_flip.induct) (auto split: prod.splits)

lemma concat_blocks: "0 < L \<Longrightarrow> concat (blocks_of xs L) = xs"
proof -
  assume L: "0 < L"
  have "concat (map (\<lambda>k. take L (drop (k * L) xs)) [0..<m]) = take (m * L) xs" for m
  proof (induction m)
    case (Suc m)
    have "take (Suc m * L) xs = take (m * L + L) xs" by (simp add: add.commute)
    then show ?case using Suc by (simp add: take_add)
  qed simp
  from this [of "(length xs + L - 1) div L"] have "concat (blocks_of xs L) = take ((length xs + L - 1) div L * L) xs"
    unfolding blocks_of_def range_step_def map_map o_def .
  moreover have "length xs \<le> (length xs + L - 1) div L * L"
    using dividend_less_div_times [OF L, of "length xs + L - 1"] L by linarith
  ultimately show ?thesis by (simp only: take_all)
qed

text \<open>What a sample drawn in a mode may be.\<close>

definition rearranged :: "string \<Rightarrow> pyfloat list \<Rightarrow> pyfloat list \<Rightarrow> bool" where
  "rearranged mode xs ys \<longleftrightarrow> (if mode = ''sign_flip'' then list_all2 (\<lambda>a b. b = a \<or> b = - a) xs ys else mset ys = mset xs)"

lemma permute_rearranged:
  assumes "rng_ok g" "0 < L" "permute g xs mode L s = (ys, s')"
  shows "rearranged mode xs ys"
proof -
  obtain bs s1 where b: "rng_shuffle g (blocks_of xs L) s = (bs, s1)" by fastforce
  have parts: "mset (concat zs) = sum_mset (image_mset mset (mset zs))" for zs :: "pyfloat list list"
    by (induction zs) simp_all
  have "mset (concat bs) = mset (concat (blocks_of xs L))"
    unfolding parts rng_shuffle_mset [OF assms(1) b] ..
  then have blocks: "mset (concat bs) = mset xs" by (simp only: concat_blocks [OF assms(2)])
  consider "mode = ''sign_flip''" "sign_flip g xs s = (ys, s')" | "mode \<noteq> ''sign_flip''" "rng_shuffle g xs s = (ys, s')"
    | "mode \<noteq> ''sign_flip''" "ys = concat bs"
    using assms(3) b by (auto simp: permute_def split: if_splits)
  then show ?thesis
    by cases (use blocks sign_flip_signs rng_shuffle_mset [OF assms(1), of xs s ys s'] in \<open>simp_all add: rearranged_def\<close>)
qed

lemma null_loop_values:
  assumes "rng_ok g" "0 < L"
  shows "v \<in> set (null_loop g statistic xs mode L k s) \<Longrightarrow> xfinite v \<and> (\<exists>ys. rearranged mode xs ys \<and> v = statistic ys)"
proof (induction k arbitrary: s)
  case (Suc k)
  obtain ys s1 where "permute g xs mode L s = (ys, s1)" by fastforce
  moreover from this have "rearranged mode xs ys" by (rule permute_rearranged [OF assms])
  ultimately show ?case using Suc by (auto simp: Let_def split: if_splits)
qed simp

section \<open>The test\<close>

lemma permutation_test_Inr:
  assumes "permutation_test lm g returns statistic B mode L one_sided seed = Inr r"
  defines "x \<equiv> map xval returns"
  shows "mode \<in> {''sign_flip'', ''block_shuffle'', ''shuffle''} \<and> 1 \<le> L \<and> pm_observed r = statistic x \<and>
    (\<not> xfinite (statistic x) \<and> pm_p_value r = None \<or>
     xfinite (statistic x) \<and> pm_null_distribution r = null_loop g statistic x mode (nat L) (nat B) (rg_seed g seed) \<and>
     pm_p_value r = Some (p_value (if one_sided then length (filter (\<lambda>v. xle (statistic x) v) (pm_null_distribution r))
       else length (filter (\<lambda>v. \<bar>xval (statistic x)\<bar> \<le> \<bar>xval v\<bar>) (pm_null_distribution r))) (length (pm_null_distribution r))))"
  using assms(1) unfolding permutation_test_def Let_def bindE_Inr_iff require_iff x_def [symmetric]
  by (cases "xfinite (statistic x)") (auto simp: bindE_Inr_iff require_iff)

lemma permutation_p_value_pos:
  assumes "permutation_test lm g returns statistic B mode L one_sided seed = Inr r" "pm_p_value r = Some p"
  shows "0 < p \<and> p \<le> 1"
  using permutation_test_Inr [OF assms(1)] assms(2) p_value_filter [of _ "pm_null_distribution r"] by (auto split: if_splits)

text \<open>
  C39. The permutation test never reports a p-value of zero: it lies in \<open>(0, 1]\<close> and is missing exactly when the observed statistic is not
  finite. Every value of the null distribution is the finite statistic of the returns with some signs flipped, or of a reordering of
  them. And a statistic that does not depend on the order, such as the mean, has the p-value one under both shuffles: the test
  cannot find an edge there, as the documentation warns.
\<close>

theorem permutation_test_exact:
  assumes "permutation_test lm g returns statistic B mode L one_sided seed = Inr r" "rng_ok g"
  shows "(pm_p_value r = None \<longleftrightarrow> \<not> xfinite (pm_observed r)) \<and>
         (\<forall>p. pm_p_value r = Some p \<longrightarrow> 0 < p \<and> p \<le> 1 \<and>
            (\<forall>v \<in> set (pm_null_distribution r). xfinite v \<and> (\<exists>ys. v = statistic ys \<and>
               (if mode = ''sign_flip'' then list_all2 (\<lambda>a b. b = a \<or> b = - a) (map xval returns) ys
                else mset ys = mset (map xval returns)))) \<and>
            (mode \<noteq> ''sign_flip'' \<and> (\<forall>xs ys. mset xs = mset ys \<longrightarrow> statistic xs = statistic ys) \<longrightarrow> p = 1))"
proof -
  note r = permutation_test_Inr [OF assms(1)]
  define x where "x = map xval returns"
  have L: "0 < nat L" using r by simp
  show ?thesis
  proof (intro conjI allI impI)
    fix p assume p: "pm_p_value r = Some p"
    define null where "null = pm_null_distribution r"
    have fin: "xfinite (statistic x)" and null: "null = null_loop g statistic x mode (nat L) (nat B) (rg_seed g seed)"
      and pv: "p = p_value (if one_sided then length (filter (\<lambda>v. xle (statistic x) v) null)
         else length (filter (\<lambda>v. \<bar>xval (statistic x)\<bar> \<le> \<bar>xval v\<bar>) null)) (length null)"
      using r p by (auto simp: x_def null_def)
    show "0 < p" "p \<le> 1" unfolding pv using p_value_filter [of _ null] by (auto split: if_splits)
    have vals: "xfinite v \<and> (\<exists>ys. rearranged mode x ys \<and> v = statistic ys)" if "v \<in> set null" for v
      using null_loop_values [OF assms(2) L] that by (simp add: null)
    then show "\<forall>v \<in> set (pm_null_distribution r). xfinite v \<and> (\<exists>ys. v = statistic ys \<and>
        (if mode = ''sign_flip'' then list_all2 (\<lambda>a b. b = a \<or> b = - a) (map xval returns) ys
         else mset ys = mset (map xval returns)))"
      unfolding null_def [symmetric] x_def [symmetric] rearranged_def by blast
    assume inv: "mode \<noteq> ''sign_flip'' \<and> (\<forall>xs ys. mset xs = mset ys \<longrightarrow> statistic xs = statistic ys)"
    have same: "v = statistic x" if "v \<in> set null" for v
      using vals [OF that] inv unfolding rearranged_def by (metis (full_types))
    have "xle (statistic x) (statistic x)" using fin by (auto simp: xfinite_iff)
    then have "filter (\<lambda>v. xle (statistic x) v) null = null" "filter (\<lambda>v. \<bar>xval (statistic x)\<bar> \<le> \<bar>xval v\<bar>) null = null"
      using same by (auto simp: filter_id_conv)
    then show "p = 1" unfolding pv by (simp add: p_value_all)
  qed (use r in auto)
qed

lemma mean_return_mset: "mset xs = mset ys \<Longrightarrow> mean_return xs = mean_return ys"
  using sum_mset_sum_list [of xs] sum_mset_sum_list [of ys] mset_eq_length [of xs ys]
  by (simp add: mean_return_def fmean_def fsum_def)

lemma null_loop_total: "(\<And>ys. xfinite (statistic ys)) \<Longrightarrow> length (null_loop g statistic xs mode L k s) = k"
  by (induction k arbitrary: s) (simp_all add: case_prod_beta Let_def)

lemma permutation_test_accepts:
  assumes "mode \<in> {''sign_flip'', ''block_shuffle'', ''shuffle''}" "1000 \<le> B" "1 \<le> L" "2 \<le> length returns" "list_all xfinite returns"
    "\<And>ys. xfinite (statistic ys)"
  shows "\<exists>r. permutation_test lm g returns statistic B mode L one_sided seed = Inr r"
proof -
  have "0 \<le> fmul MAX_NAN_FRACTION (fint B)"
    unfolding MAX_NAN_FRACTION_def fint_def using assms(2) by (intro fmul_nonneg fl64.rnd_nonneg) simp_all
  then have "\<not> fmul MAX_NAN_FRACTION (fint B) < of_int (B - int (length (null_loop g statistic (map xval returns) mode (nat L) (nat B) (rg_seed g seed))))"
    using assms(2,6) by (simp add: null_loop_total)
  then show ?thesis using assms unfolding permutation_test_def Let_def by (simp add: require_def)
qed

theorem permutation_test_exact_witness:
  "\<exists>r. permutation_test \<lparr>lm_log = id, lm_log10 = id, lm_pow = (\<lambda>x _. x)\<rparr> counting [Fin 1, Fin 2, Fin 3] mean_return 1000 ''shuffle'' 5 True (Some 7) = Inr r \<and>
     pm_p_value r = Some 1"
proof -
  let ?lm = "\<lparr>lm_log = id, lm_log10 = id, lm_pow = (\<lambda>x _. x)\<rparr>"
  obtain r where r: "permutation_test ?lm counting [Fin 1, Fin 2, Fin 3] mean_return 1000 ''shuffle'' 5 True (Some 7) = Inr r"
    using permutation_test_accepts [of "''shuffle''" 1000 5 "[Fin 1, Fin 2, Fin 3]" mean_return ?lm counting True "Some 7"]
    by (auto simp: mean_return_def)
  note ex = permutation_test_exact [OF r counting_ok]
  have fin: "xfinite (pm_observed r)" using permutation_test_Inr [OF r] by (simp add: mean_return_def)
  obtain p where p: "pm_p_value r = Some p" using conjunct1 [OF ex] fin by (cases "pm_p_value r") simp_all
  have "\<forall>xs ys. mset xs = mset ys \<longrightarrow> mean_return xs = mean_return ys" by (intro allI impI mean_return_mset)
  moreover have "''shuffle'' \<noteq> ''sign_flip''" by simp
  ultimately have "p = 1" using conjunct2 [OF ex, THEN spec, THEN mp, OF p] by blast
  then show ?thesis using r p by blast
qed

end
