(* ===== verification/Multi_Strategy.thy ===== *)
theory Multi_Strategy
  imports Block_Bootstrap
begin

text \<open>
  Tests over a family of strategies (\<open>src/futur3/stats/_multi_strategy.py\<close>, \<open>reality_check.py\<close>, \<open>spa_test.py\<close>,
  \<open>romano_wolf.py\<close>): the differentials against a benchmark, their means under one shared resampling of time, White's reality check,
  Hansen's test of superior predictive ability, and the step-down of Romano and Wolf. The lemmas follow the step-down along the
  descending order of the studentized means.
\<close>

section \<open>Shared machinery\<close>

definition differential_row :: "nat \<Rightarrow> xfloat list \<Rightarrow> xfloat list \<Rightarrow> pyfloat list res" where
  "differential_row n_obs bench s =
     (let row = map (\<lambda>t. xsub (s ! t) (bench ! t)) [0..<n_obs]
      in bindE (require (list_all xfinite row) MultiStrategyError) (\<lambda>_. Inr (map xval row)))"

definition prepare_differentials ::
  "xfloat list list \<Rightarrow> xfloat list option \<Rightarrow> (pyfloat list list \<times> pyfloat list \<times> nat \<times> nat) res" where
  "prepare_differentials strategy_returns bench_returns =
     (let n_strategies = length strategy_returns
      in bindE (require (1 \<le> n_strategies) MultiStrategyError) (\<lambda>_.
         let n_obs = length (strategy_returns ! 0)
         in bindE (require (2 \<le> n_obs) MultiStrategyError) (\<lambda>_.
            bindE (require (list_all (\<lambda>s. length s = n_obs) strategy_returns) MultiStrategyError) (\<lambda>_.
            bindE (case bench_returns of
                     None \<Rightarrow> Inr (replicate n_obs (Fin 0))
                   | Some b \<Rightarrow> bindE (require (length b = n_obs) MultiStrategyError) (\<lambda>_. Inr b)) (\<lambda>bench.
            bindE (traverse (differential_row n_obs bench) strategy_returns) (\<lambda>d.
              let dbar = map (\<lambda>row. fdiv (fsum row) (fint (int n_obs))) d
              in Inr (d, dbar, n_obs, n_strategies)))))))"

fun differential_means_loop :: "'s rng \<Rightarrow> pyfloat list list \<Rightarrow> nat \<Rightarrow> nat \<Rightarrow> nat \<Rightarrow> 's \<Rightarrow> pyfloat list list" where
  "differential_means_loop g d n_obs block_length 0 s = []"
| "differential_means_loop g d n_obs block_length (Suc k) s =
     (let (idx, s) = stationary_bootstrap_indices g n_obs block_length s
      in map (\<lambda>row. fdiv (fsum (map (\<lambda>i. row ! i) idx)) (fint (int n_obs))) d # differential_means_loop g d n_obs block_length k s)"

definition bootstrap_differential_means ::
  "'s rng \<Rightarrow> pyfloat list list \<Rightarrow> nat \<Rightarrow> nat \<Rightarrow> nat \<Rightarrow> int option \<Rightarrow> pyfloat list list" where
  "bootstrap_differential_means g d n_obs n_bootstrap block_length seed =
     differential_means_loop g d n_obs block_length n_bootstrap (rg_seed g seed)"

text \<open>\<open>omega_k\<close>, the bootstrap deviation of \<open>sqrt(T) * (dstar_k - dbar_k)\<close>.\<close>

definition bootstrap_omega :: "libm \<Rightarrow> pyfloat \<Rightarrow> pyfloat list \<Rightarrow> pyfloat list list \<Rightarrow> nat \<Rightarrow> nat \<Rightarrow> pyfloat" where
  "bootstrap_omega lm root_t dbar dstar n_bootstrap k =
     fsqrt (fdiv (fsum (map (\<lambda>row. lm_pow lm (fmul root_t (fsub (row ! k) (dbar ! k))) 2) dstar)) (fint (int n_bootstrap)))"

section \<open>White's reality check\<close>

record RealityCheckResult =
  rc_p_value :: pyfloat
  rc_max_strategy_idx :: nat
  rc_max_differential :: pyfloat
  rc_n_strategies :: nat
  rc_n_obs :: nat
  rc_block_length :: int
  rc_n_bootstrap :: int
  rc_seed :: "int option"

definition rc_reject_null_at :: "RealityCheckResult \<Rightarrow> pyfloat \<Rightarrow> bool" where
  "rc_reject_null_at r alpha \<longleftrightarrow> rc_p_value r < alpha"

definition reality_check ::
  "'s rng \<Rightarrow> xfloat list list \<Rightarrow> xfloat list option \<Rightarrow> int \<Rightarrow> int \<Rightarrow> int option \<Rightarrow> RealityCheckResult res" where
  "reality_check g strategy_returns bench_returns n_bootstrap block_length seed =
     bindE (require (1000 \<le> n_bootstrap) RealityCheckError) (\<lambda>_.
     bindE (require (1 \<le> block_length) RealityCheckError) (\<lambda>_.
     bindE (prepare_differentials strategy_returns bench_returns) (\<lambda>(d, dbar, n_obs, n_strategies).
       let root_t = fsqrt (fint (int n_obs));
           observed = fmul root_t (Max (set dbar));
           max_idx = first_max (\<lambda>k. dbar ! k) n_strategies;
           dstar = bootstrap_differential_means g d n_obs (nat n_bootstrap) (nat block_length) seed;
           count = length (filter (\<lambda>row. observed \<le> Max (set (map (\<lambda>k. fmul root_t (fsub (row ! k) (dbar ! k))) [0..<n_strategies]))) dstar);
           p = p_value count (nat n_bootstrap)
       in Inr \<lparr>rc_p_value = p, rc_max_strategy_idx = max_idx, rc_max_differential = dbar ! max_idx, rc_n_strategies = n_strategies,
               rc_n_obs = n_obs, rc_block_length = block_length, rc_n_bootstrap = n_bootstrap, rc_seed = seed\<rparr>)))"

section \<open>Hansen's test of superior predictive ability\<close>

record SPAResult =
  spa_p_value :: pyfloat
  spa_test_statistic :: pyfloat
  spa_max_strategy_idx :: nat
  spa_max_t_stat :: pyfloat
  spa_n_strategies :: nat
  spa_n_obs :: nat
  spa_block_length :: int
  spa_n_bootstrap :: int
  spa_seed :: "int option"

definition spa_reject_null_at :: "SPAResult \<Rightarrow> pyfloat \<Rightarrow> bool" where
  "spa_reject_null_at r alpha \<longleftrightarrow> spa_p_value r < alpha"

text \<open>The running maximum over the strategies of one draw; a strategy without variance adds nothing.\<close>

definition spa_boot_stat :: "pyfloat \<Rightarrow> pyfloat list \<Rightarrow> pyfloat list \<Rightarrow> nat \<Rightarrow> pyfloat list \<Rightarrow> pyfloat" where
  "spa_boot_stat root_t omega gs n_strategies row =
     foldl (\<lambda>boot_stat k. if 0 < omega ! k then max boot_stat (fdiv (fmul root_t (fsub (row ! k) (gs ! k))) (omega ! k)) else boot_stat)
       0 [0..<n_strategies]"

definition spa_test ::
  "libm \<Rightarrow> 's rng \<Rightarrow> xfloat list list \<Rightarrow> xfloat list option \<Rightarrow> int \<Rightarrow> int \<Rightarrow> int option \<Rightarrow> SPAResult res" where
  "spa_test lm g strategy_returns bench_returns n_bootstrap block_length seed =
     bindE (require (1000 \<le> n_bootstrap) SPAError) (\<lambda>_.
     bindE (require (1 \<le> block_length) SPAError) (\<lambda>_.
     bindE (prepare_differentials strategy_returns bench_returns) (\<lambda>(d, dbar, n_obs, n_strategies).
       let root_t = fsqrt (fint (int n_obs));
           dstar = bootstrap_differential_means g d n_obs (nat n_bootstrap) (nat block_length) seed;
           omega = map (bootstrap_omega lm root_t dbar dstar (nat n_bootstrap)) [0..<n_strategies];
           t_stats = map (\<lambda>k. if 0 < omega ! k then fdiv (fmul root_t (dbar ! k)) (omega ! k) else 0) [0..<n_strategies];
           max_idx = first_max (\<lambda>k. t_stats ! k) n_strategies;
           observed = max 0 (t_stats ! max_idx);
           tau = fsqrt (fmul 2 (lm_log lm (lm_log lm (fint (int (max n_obs 3))))));
           gs = map (\<lambda>k. if 0 < omega ! k \<and> - tau \<le> t_stats ! k then dbar ! k else 0) [0..<n_strategies];
           count = length (filter (\<lambda>row. observed \<le> spa_boot_stat root_t omega gs n_strategies row) dstar);
           p = p_value count (nat n_bootstrap)
       in Inr \<lparr>spa_p_value = p, spa_test_statistic = observed, spa_max_strategy_idx = max_idx, spa_max_t_stat = t_stats ! max_idx,
               spa_n_strategies = n_strategies, spa_n_obs = n_obs, spa_block_length = block_length, spa_n_bootstrap = n_bootstrap,
               spa_seed = seed\<rparr>)))"

section \<open>The step-down of Romano and Wolf\<close>

record RomanoWolfResult =
  rw_alpha :: pyfloat
  rw_observed_stats :: "pyfloat list"
  rw_adjusted_pvalues :: "pyfloat list"
  rw_reject :: "bool list"
  rw_n_rejected :: nat
  rw_n_strategies :: nat
  rw_n_obs :: nat
  rw_block_length :: int
  rw_n_bootstrap :: int
  rw_seed :: "int option"

definition any_significant :: "RomanoWolfResult \<Rightarrow> bool" where
  "any_significant r \<longleftrightarrow> 0 < rw_n_rejected r"

definition significant_indices :: "RomanoWolfResult \<Rightarrow> nat list" where
  "significant_indices r = filter (\<lambda>i. rw_reject r ! i) [0..<length (rw_reject r)]"

text \<open>\<open>max((row[k] for k in remaining if valid[k]), default=0.0)\<close>.\<close>

definition max_valid :: "bool list \<Rightarrow> nat set \<Rightarrow> pyfloat list \<Rightarrow> pyfloat" where
  "max_valid valid remaining row =
     (let ks = {k \<in> remaining. valid ! k} in if ks = {} then 0 else Max ((\<lambda>k. row ! k) ` ks))"

definition step_p_value :: "pyfloat list list \<Rightarrow> bool list \<Rightarrow> pyfloat list \<Rightarrow> nat \<Rightarrow> nat set \<Rightarrow> nat \<Rightarrow> pyfloat" where
  "step_p_value tstar valid t_obs n_bootstrap remaining idx =
     p_value (length (filter (\<lambda>row. t_obs ! idx \<le> max_valid valid remaining row) tstar)) n_bootstrap"

fun stepdown ::
  "pyfloat \<Rightarrow> (nat set \<Rightarrow> nat \<Rightarrow> pyfloat) \<Rightarrow> nat list \<Rightarrow> nat set \<Rightarrow> pyfloat \<Rightarrow> pyfloat list \<Rightarrow> bool list \<Rightarrow> pyfloat list \<times> bool list" where
  "stepdown alpha step_p [] remaining running adj reject = (adj, reject)"
| "stepdown alpha step_p (idx # order) remaining running adj reject =
     (let running = max running (step_p remaining idx);
          adj = adj[idx := running]
      in if running \<le> alpha then stepdown alpha step_p order (remaining - {idx}) running adj (reject[idx := True])
         else (map (\<lambda>k. if k \<in> remaining then running else adj ! k) [0..<length adj], reject))"

definition rw_statistics ::
  "libm \<Rightarrow> pyfloat \<Rightarrow> pyfloat list \<Rightarrow> pyfloat list list \<Rightarrow> nat \<Rightarrow> nat \<Rightarrow> bool list \<times> pyfloat list \<times> pyfloat list list" where
  "rw_statistics lm root_t dbar dstar n_bootstrap n_strat =
     (let omega = map (bootstrap_omega lm root_t dbar dstar n_bootstrap) [0..<n_strat];
          valid = map (\<lambda>w. 0 < w) omega;
          t_obs = map (\<lambda>k. if valid ! k then fdiv (fmul root_t (dbar ! k)) (omega ! k) else 0) [0..<n_strat];
          tstar = map (\<lambda>row. map (\<lambda>k. if valid ! k then fdiv (fmul root_t (fsub (row ! k) (dbar ! k))) (omega ! k) else 0) [0..<n_strat]) dstar
      in (valid, t_obs, tstar))"

text \<open>\<open>sorted(range(n), key=..., reverse=True)\<close>, which keeps the order of equal keys.\<close>

definition descending :: "pyfloat list \<Rightarrow> nat list" where
  "descending t = sort_key (\<lambda>k. - (t ! k)) [0..<length t]"

definition romano_wolf_stepdown ::
  "libm \<Rightarrow> 's rng \<Rightarrow> xfloat list list \<Rightarrow> xfloat list option \<Rightarrow> pyfloat \<Rightarrow> int \<Rightarrow> int \<Rightarrow> int option \<Rightarrow> RomanoWolfResult res" where
  "romano_wolf_stepdown lm g strategy_returns bench_returns alpha n_bootstrap block_length seed =
     bindE (require (0 < alpha \<and> alpha < 1) RomanoWolfError) (\<lambda>_.
     bindE (require (1000 \<le> n_bootstrap) RomanoWolfError) (\<lambda>_.
     bindE (require (1 \<le> block_length) RomanoWolfError) (\<lambda>_.
     bindE (prepare_differentials strategy_returns bench_returns) (\<lambda>(d, dbar, n_obs, n_strat).
       let root_t = fsqrt (fint (int n_obs));
           dstar = bootstrap_differential_means g d n_obs (nat n_bootstrap) (nat block_length) seed;
           (valid, t_obs, tstar) = rw_statistics lm root_t dbar dstar (nat n_bootstrap) n_strat;
           (adj, reject) = stepdown alpha (step_p_value tstar valid t_obs (nat n_bootstrap)) (descending t_obs) {..<n_strat} 0
             (replicate n_strat 1) (replicate n_strat False)
       in Inr \<lparr>rw_alpha = alpha, rw_observed_stats = t_obs, rw_adjusted_pvalues = adj, rw_reject = reject,
               rw_n_rejected = length (filter id reject), rw_n_strategies = n_strat, rw_n_obs = n_obs, rw_block_length = block_length,
               rw_n_bootstrap = n_bootstrap, rw_seed = seed\<rparr>))))"

section \<open>The step-down, strategy by strategy\<close>

lemma length_differential_means [simp]: "length (differential_means_loop g d n L k s) = k"
  by (induction k arbitrary: s) (simp_all add: case_prod_beta Let_def)

lemma length_bootstrap_means [simp]: "length (bootstrap_differential_means g d n k L seed) = k"
  by (simp add: bootstrap_differential_means_def)

lemma descending_simps [simp]: "length (descending t) = length t" "distinct (descending t)" "set (descending t) = {..<length t}"
  by (auto simp: descending_def)

lemma descending_sorted: "sorted_wrt (\<lambda>i j. t ! j \<le> t ! i) (descending t)"
proof -
  have "sorted (map (\<lambda>k. - (t ! k)) (descending t))" by (simp add: descending_def)
  then show ?thesis by (simp add: sorted_map)
qed

lemma stepdown_frame:
  assumes "i \<notin> remaining" "set order \<subseteq> remaining" "i < length adj" "stepdown alpha step_p order remaining running adj reject = (A, J)"
  shows "A ! i = adj ! i" "J ! i = reject ! i"
proof -
  have "A ! i = adj ! i \<and> J ! i = reject ! i" if "i \<notin> set order" "i \<notin> remaining"
    using that assms(3,4)
    by (induction alpha step_p order remaining running adj reject rule: stepdown.induct) (auto simp: Let_def split: if_splits)
  then show "A ! i = adj ! i" "J ! i = reject ! i" using assms(1,2) by auto
qed

lemma stepdown_length:
  "stepdown alpha step_p order remaining running adj reject = (A, J) \<Longrightarrow> length A = length adj \<and> length J = length reject"
  by (induction alpha step_p order remaining running adj reject rule: stepdown.induct) (auto simp: Let_def split: if_splits)

text \<open>What the loop leaves: a strategy outside the remaining set keeps its entries (\<open>stepdown_frame\<close>); inside it, the verdict compares the adjusted
  p-value with the level, and the adjusted p-values grow along the order.\<close>

lemma stepdown_spec:
  assumes "distinct order" "set order = remaining" "remaining \<subseteq> {..<length adj}" "length reject = length adj"
    "\<forall>i \<in> remaining. \<not> reject ! i" "stepdown alpha step_p order remaining running adj reject = (A, J)"
  shows "(\<forall>i \<in> remaining. running \<le> A ! i \<and> (J ! i \<longleftrightarrow> A ! i \<le> alpha)) \<and>
    sorted (map (\<lambda>i. A ! i) order)"
  using assms
proof (induction alpha step_p order remaining running adj reject rule: stepdown.induct)
  case (2 alpha step_p idx order remaining running adj reject)
  define r where "r = max running (step_p remaining idx)"
  have idx: "idx < length adj" "idx \<in> remaining" using "2.prems" by auto
  show ?case
  proof (cases "r \<le> alpha")
    case True
    have A: "stepdown alpha step_p order (remaining - {idx}) r (adj[idx := r]) (reject[idx := True]) = (A, J)"
      using "2.prems"(6) True by (simp add: Let_def r_def)
    have rest: "distinct order" "set order = remaining - {idx}" "remaining - {idx} \<subseteq> {..<length (adj[idx := r])}"
      "length (reject[idx := True]) = length (adj[idx := r])" "\<forall>i \<in> remaining - {idx}. \<not> reject[idx := True] ! i"
      using "2.prems" by (auto simp: nth_list_update)
    have IH: "\<And>i. i \<in> remaining - {idx} \<Longrightarrow> r \<le> A ! i \<and> (J ! i \<longleftrightarrow> A ! i \<le> alpha)" "sorted (map (\<lambda>i. A ! i) order)"
      using "2.IH" [OF r_def refl True [folded r_def] rest A] by auto
    have idx': "A ! idx = r" "J ! idx"
      using stepdown_frame [OF _ _ _ A, of idx] rest(2) idx "2.prems"(4) by simp_all
    have "running \<le> r" by (simp add: r_def)
    have "running \<le> A ! i \<and> (J ! i \<longleftrightarrow> A ! i \<le> alpha)" if "i \<in> remaining" for i
    proof (cases "i = idx")
      case False
      then have "r \<le> A ! i \<and> (J ! i \<longleftrightarrow> A ! i \<le> alpha)" using IH(1) that by simp
      with \<open>running \<le> r\<close> show ?thesis by linarith
    qed (use idx' True \<open>running \<le> r\<close> in simp)
    moreover have "sorted (map (\<lambda>i. A ! i) (idx # order))"
      using IH rest(2) by (simp add: idx'(1))
    ultimately show ?thesis by blast
  next
    case False
    then have A: "A = map (\<lambda>k. if k \<in> remaining then r else adj[idx := r] ! k) [0..<length adj]" "J = reject"
      using "2.prems"(6) unfolding stepdown.simps Let_def r_def [symmetric] by simp_all
    moreover have "running \<le> r" by (simp add: r_def)
    moreover from A(1) have Ar: "A ! i = r" if "i \<in> remaining" for i using "2.prems"(3) that by auto
    moreover have "map (\<lambda>i. A ! i) (idx # order) = replicate (length (idx # order)) r"
      using "2.prems"(2) Ar by (intro replicate_eqI) auto
    then have "sorted (map (\<lambda>i. A ! i) (idx # order))" by (metis sorted_replicate)
    ultimately show ?thesis using False "2.prems"(4,5) idx by (auto simp: nth_list_update)
  qed
qed simp

text \<open>A step over a smaller set, for a larger statistic, has at most the p-value of a strategy that is still in it.\<close>

lemma max_valid_mono:
  assumes "R \<subseteq> S" "finite S" "i \<in> R" "valid ! i"
  shows "max_valid valid R row \<le> max_valid valid S row"
proof -
  have ne: "{k \<in> R. valid ! k} \<noteq> {}" "{k \<in> S. valid ! k} \<noteq> {}" using assms by auto
  have "finite {k \<in> S. valid ! k}" "finite {k \<in> R. valid ! k}" using assms(1,2) by (auto intro: finite_subset)
  then show ?thesis unfolding max_valid_def Let_def using ne assms(1)
    by (simp only: if_False) (intro Max_mono image_mono, auto)
qed

lemma step_p_value_mono:
  assumes "R \<subseteq> S" "finite S" "i \<in> R" "valid ! i" "t ! i \<le> t ! j"
  shows "step_p_value tstar valid t B R j \<le> step_p_value tstar valid t B S i"
  unfolding step_p_value_def using max_valid_mono [OF assms(1-4)] assms(5)
  by (intro p_value_mono length_filter_mono) (meson order.trans)

lemma stepdown_single_step:
  assumes "distinct order" "set order = remaining" "remaining \<subseteq> S" "finite S" "remaining \<subseteq> {..<length adj}"
    "sorted_wrt (\<lambda>i j. t ! j \<le> t ! i) order" "i \<in> remaining" "valid ! i"
    "stepdown alpha (step_p_value tstar valid t B) order remaining running adj reject = (A, J)"
  shows "A ! i \<le> max running (step_p_value tstar valid t B S i)"
  using assms
proof (induction alpha "step_p_value tstar valid t B" order remaining running adj reject rule: stepdown.induct)
  case (2 alpha idx order remaining running adj reject)
  define r where "r = max running (step_p_value tstar valid t B remaining idx)"
  have "t ! i \<le> t ! idx" using "2.prems"(2,6,7) by auto
  then have r: "r \<le> max running (step_p_value tstar valid t B S i)"
    using step_p_value_mono [OF "2.prems"(3,4,7,8)] by (simp add: r_def max.coboundedI2)
  have i: "i < length adj" using "2.prems"(5,7) by auto
  show ?case
  proof (cases "r \<le> alpha")
    case True
    have A: "stepdown alpha (step_p_value tstar valid t B) order (remaining - {idx}) r (adj[idx := r]) (reject[idx := True]) = (A, J)"
      using "2.prems"(9) True unfolding stepdown.simps Let_def r_def [symmetric] by simp
    show ?thesis
    proof (cases "i = idx")
      case True
      have "A ! idx = adj[idx := r] ! idx"
        by (rule stepdown_frame [OF _ _ _ A]) (use "2.prems"(1,2) i True in auto)
      then show ?thesis using r i True by simp
    next
      case False
      have "A ! i \<le> max r (step_p_value tstar valid t B S i)"
        using "2.hyps" [OF r_def refl True [folded r_def] _ _ _ "2.prems"(4) _ _ _ "2.prems"(8) A] "2.prems" False by auto
      then show ?thesis using r by linarith
    qed
  next
    case False
    then have "A = map (\<lambda>k. if k \<in> remaining then r else adj[idx := r] ! k) [0..<length adj]"
      using "2.prems"(9) unfolding stepdown.simps Let_def r_def [symmetric] by simp
    then show ?thesis using r i "2.prems"(7) by simp
  qed
qed simp

lemma stepdown_range:
  assumes "\<And>R j. 0 < step_p R j \<and> step_p R j \<le> 1" "distinct order" "set order = remaining" "remaining \<subseteq> {..<length adj}" "i \<in> remaining" "0 \<le> running" "running \<le> 1"
    "stepdown alpha step_p order remaining running adj reject = (A, J)"
  shows "0 < A ! i \<and> A ! i \<le> 1"
  using assms
proof (induction alpha step_p order remaining running adj reject rule: stepdown.induct)
  case (2 alpha step_p idx order remaining running adj reject)
  define r where "r = max running (step_p remaining idx)"
  have r: "0 < r" "r \<le> 1" using "2.prems"(1) [of remaining idx] "2.prems"(7) by (auto simp: r_def)
  have i: "i < length adj" using "2.prems"(4,5) by auto
  show ?case
  proof (cases "r \<le> alpha")
    case True
    have A: "stepdown alpha step_p order (remaining - {idx}) r (adj[idx := r]) (reject[idx := True]) = (A, J)"
      using "2.prems"(8) True unfolding stepdown.simps Let_def r_def [symmetric] by simp
    show ?thesis
    proof (cases "i = idx")
      case True
      have "A ! idx = adj[idx := r] ! idx"
        by (rule stepdown_frame [OF _ _ _ A]) (use "2.prems"(2,3) i True in auto)
      then show ?thesis using r i True by simp
    next
      case False
      then show ?thesis
        using "2.IH" [OF r_def refl True [folded r_def] "2.prems"(1) _ _ _ _ _ _ A] "2.prems"(2-5) r by auto
    qed
  next
    case False
    then have "A = map (\<lambda>k. if k \<in> remaining then r else adj[idx := r] ! k) [0..<length adj]"
      using "2.prems"(8) unfolding stepdown.simps Let_def r_def [symmetric] by simp
    then show ?thesis using r i "2.prems"(5) by simp
  qed
qed simp

section \<open>The three tests\<close>

lemma prepare_differentials_shape:
  assumes "prepare_differentials sr br = Inr (d, dbar, T, n)"
  shows "n = length sr \<and> 1 \<le> n \<and> 2 \<le> T \<and> length d = n \<and> length dbar = n \<and> (\<forall>row \<in> set d. length row = T)"
proof -
  obtain bench where t: "traverse (differential_row T bench) sr = Inr d" "n = length sr" "1 \<le> n" "2 \<le> T"
      "dbar = map (\<lambda>row. fdiv (fsum row) (fint (int T))) d"
    using assms by (auto simp: prepare_differentials_def Let_def res_simps split: option.splits)
  have "length d = length sr" using t(1) by (rule traverse_length)
  moreover have "\<forall>row \<in> set d. length row = T"
    using t(1) by (induction sr arbitrary: d) (auto simp: res_simps differential_row_def Let_def)
  ultimately show ?thesis using t by simp
qed

lemma rw_statistics_shape:
  "rw_statistics lm root_t dbar dstar B n = (valid, t, tstar) \<Longrightarrow> length valid = n \<and> length t = n \<and> length tstar = length dstar"
  by (auto simp: rw_statistics_def Let_def)

lemma descending_before:
  assumes "i < length t" "j < length t" "t ! j < t ! i" "sorted (map (\<lambda>i. A ! i) (descending t))"
  shows "A ! i \<le> (A ! j :: pyfloat)"
proof -
  obtain a b where a: "a < length t" "descending t ! a = i" and b: "b < length t" "descending t ! b = j"
    using assms(1,2) descending_simps(1,3) [of t] by (metis in_set_conv_nth lessThan_iff)
  have "\<not> b < a"
    using sorted_wrt_nth_less [OF descending_sorted, of b a t] a b assms(3) by auto
  then show ?thesis using sorted_nth_mono [OF assms(4), of a b] a b by simp
qed

text \<open>
  C32. The step-down of Romano and Wolf decides consistently: a strategy is rejected exactly when its adjusted p-value, which lies in
  \<open>(0, 1]\<close>, is at most the level; a strategy with a larger statistic never has a larger adjusted p-value, so the rejected ones are the
  strongest. And the step-down gains power: the adjusted p-value of a strategy with variance is at most its p-value in the single test
  against the maximum over all strategies, so whatever that test rejects is rejected.
\<close>

theorem romano_wolf_exact:
  assumes "romano_wolf_stepdown lm g sr br alpha B L seed = Inr r" "prepare_differentials sr br = Inr (d, dbar, T, n)"
    "rw_statistics lm (fsqrt (fint (int T))) dbar (bootstrap_differential_means g d T (nat B) (nat L) seed) (nat B) n = (valid, t, tstar)"
  shows "(\<forall>k < n. 0 < rw_adjusted_pvalues r ! k \<and> rw_adjusted_pvalues r ! k \<le> 1 \<and>
            (rw_reject r ! k \<longleftrightarrow> rw_adjusted_pvalues r ! k \<le> alpha)) \<and>
         (\<forall>i < n. \<forall>j < n. t ! j < t ! i \<longrightarrow> rw_adjusted_pvalues r ! i \<le> rw_adjusted_pvalues r ! j \<and> (rw_reject r ! j \<longrightarrow> rw_reject r ! i)) \<and>
         (\<forall>k < n. valid ! k \<longrightarrow> rw_adjusted_pvalues r ! k \<le> step_p_value tstar valid t (nat B) {..<n} k \<and>
            (step_p_value tstar valid t (nat B) {..<n} k \<le> alpha \<longrightarrow> rw_reject r ! k)) \<and>
         rw_n_rejected r = card {k. k < n \<and> rw_reject r ! k}"
proof -
  define P where "P = step_p_value tstar valid t (nat B)"
  obtain A J where AJ: "stepdown alpha P (descending t) {..<n} 0 (replicate n 1) (replicate n False) = (A, J)" by fastforce
  have r: "rw_adjusted_pvalues r = A" "rw_reject r = J" "rw_n_rejected r = length (filter id J)"
    using assms AJ by (auto simp: romano_wolf_stepdown_def res_simps Let_def P_def)
  have len: "length t = n" "length tstar = nat B" using rw_statistics_shape [OF assms(3)] by simp_all
  have P: "0 < P R j \<and> P R j \<le> 1" for R j
    unfolding P_def step_p_value_def len(2) [symmetric] by (rule p_value_filter)
  have order: "distinct (descending t)" "set (descending t) = {..<n}" "{..<n} \<subseteq> {..<length (replicate n (1 :: pyfloat))}"
      "length (replicate n False) = length (replicate n (1 :: pyfloat))" "\<forall>i \<in> {..<n}. \<not> replicate n False ! i"
    by (simp_all add: len)
  have spec: "\<And>i. i < n \<Longrightarrow> J ! i \<longleftrightarrow> A ! i \<le> alpha" "sorted (map (\<lambda>i. A ! i) (descending t))"
    using stepdown_spec [OF order AJ] by auto
  have range: "0 < A ! k \<and> A ! k \<le> 1" if "k < n" for k
    using stepdown_range [OF P order(1-3) _ _ _ AJ, of k] that by simp
  have mono: "A ! i \<le> A ! j" if "i < n" "j < n" "t ! j < t ! i" for i j
    using descending_before [OF _ _ that(3) spec(2)] that(1,2) len by simp
  have single: "A ! k \<le> P {..<n} k" if "k < n" "valid ! k" for k
  proof -
    have "A ! k \<le> max 0 (P {..<n} k)"
      unfolding P_def
      by (rule stepdown_single_step [OF order(1,2) subset_refl finite_lessThan order(3) descending_sorted _ that(2) AJ [unfolded P_def]])
        (use that(1) in simp)
    then show ?thesis using P [of "{..<n}" k] by simp
  qed
  have "length J = n" using stepdown_length [OF AJ] by simp
  then have "length (filter id J) = card {k. k < n \<and> J ! k}" by (simp add: length_filter_conv_card)
  moreover have "J ! i" if "i < n" "j < n" "t ! j < t ! i" "J ! j" for i j
    using mono [OF that(1-3)] spec(1) that by (meson order.trans)
  moreover have "J ! k" if "k < n" "valid ! k" "P {..<n} k \<le> alpha" for k
    using single [OF that(1,2)] spec(1) [OF that(1)] that(3) by linarith
  ultimately show ?thesis
    unfolding r P_def [symmetric] using range spec(1) mono single by blast
qed

theorem romano_wolf_exact_witness:
  "\<exists>r. romano_wolf_stepdown \<lparr>lm_log = id, lm_log10 = id, lm_pow = (\<lambda>x _. x)\<rparr> counting [[Fin 1, Fin 2], [Fin 3, Fin 1]] None (1 / 20) 1000 1 None = Inr r \<and>
     (\<forall>k < 2. 0 < rw_adjusted_pvalues r ! k)"
proof -
  let ?lm = "\<lparr>lm_log = id, lm_log10 = id, lm_pow = (\<lambda>x _. x)\<rparr>" and ?sr = "[[Fin 1, Fin 2], [Fin 3, Fin 1]]"
  obtain d dbar where p: "prepare_differentials ?sr None = Inr (d, dbar, 2, 2)"
    by (simp add: prepare_differentials_def differential_row_def xsub_def require_def Let_def numeral_2_eq_2)
  obtain valid t tstar where s: "rw_statistics ?lm (fsqrt (fint (int 2))) dbar (bootstrap_differential_means counting d 2 (nat 1000) (nat 1) None) (nat 1000) 2 = (valid, t, tstar)"
    using prod_cases3 by blast
  obtain r where r: "romano_wolf_stepdown ?lm counting ?sr None (1 / 20) 1000 1 None = Inr r"
    by (simp add: romano_wolf_stepdown_def p require_def Let_def case_prod_beta)
  from romano_wolf_exact [OF r p s] r show ?thesis by blast
qed

lemma foldl_invariant_nonneg: "0 \<le> a \<Longrightarrow> 0 \<le> foldl (\<lambda>b k. if P k then max b (f k) else b) a ks" for a :: pyfloat
  by (induction ks arbitrary: a) auto

lemma p_value_draws:
  "0 < p_value (length (filter P (bootstrap_differential_means g d n k L seed))) k"
  "p_value (length (filter P (bootstrap_differential_means g d n k L seed))) k \<le> 1"
  using p_value_filter [of P "bootstrap_differential_means g d n k L seed"] by simp_all

lemma reality_check_Inr:
  assumes "reality_check g sr br B L seed = Inr r" "prepare_differentials sr br = Inr (d, dbar, T, n)"
  shows "0 < rc_p_value r \<and> rc_p_value r \<le> 1 \<and> rc_max_strategy_idx r = first_max (\<lambda>k. dbar ! k) n \<and>
    rc_max_differential r = dbar ! first_max (\<lambda>k. dbar ! k) n"
  using assms p_value_draws
  by (auto simp: reality_check_def res_simps Let_def)

lemma spa_test_Inr:
  assumes "spa_test lm g sr br B L seed = Inr r" "prepare_differentials sr br = Inr (d, dbar, T, n)"
  shows "0 < spa_p_value r \<and> spa_p_value r \<le> 1 \<and> spa_max_strategy_idx r < n \<and> spa_test_statistic r = max 0 (spa_max_t_stat r) \<and>
    (0 < spa_max_t_stat r \<longrightarrow> 0 < dbar ! spa_max_strategy_idx r) \<and> (spa_max_t_stat r \<le> 0 \<longrightarrow> spa_p_value r = 1)"
proof -
  define root_t dstar where "root_t = fsqrt (fint (int T))" and "dstar = bootstrap_differential_means g d T (nat B) (nat L) seed"
  define omega where "omega = map (bootstrap_omega lm root_t dbar dstar (nat B)) [0..<n]"
  define t where "t = map (\<lambda>k. if 0 < omega ! k then fdiv (fmul root_t (dbar ! k)) (omega ! k) else 0) [0..<n]"
  define m where "m = first_max (\<lambda>k. t ! k) n"
  have "1 \<le> n" using prepare_differentials_shape [OF assms(2)] by simp
  then have m: "m < n" using first_max_spec [of n "\<lambda>k. t ! k"] by (simp add: m_def)
  define gs where "gs = map (\<lambda>k. if 0 < omega ! k \<and> - fsqrt (fmul 2 (lm_log lm (lm_log lm (fint (int (max T 3)))))) \<le> t ! k then dbar ! k else 0) [0..<n]"
  have "r = \<lparr>spa_p_value = p_value (length (filter (\<lambda>row. max 0 (t ! m) \<le> spa_boot_stat root_t omega gs n row) dstar)) (nat B),
      spa_test_statistic = max 0 (t ! m), spa_max_strategy_idx = m, spa_max_t_stat = t ! m, spa_n_strategies = n, spa_n_obs = T,
      spa_block_length = L, spa_n_bootstrap = B, spa_seed = seed\<rparr>"
    using assms(1) unfolding spa_test_def assms(2) bindE_simps(2) bindE_Inr_iff require_iff split Let_def
      root_t_def [symmetric] dstar_def [symmetric] omega_def [symmetric] t_def [symmetric] m_def [symmetric] gs_def [symmetric]
    by simp
  then have r: "spa_p_value r = p_value (length (filter (\<lambda>row. max 0 (t ! m) \<le> spa_boot_stat root_t omega gs n row) dstar)) (nat B)"
      "spa_test_statistic r = max 0 (t ! m)" "spa_max_strategy_idx r = m" "spa_max_t_stat r = t ! m"
    by simp_all
  have len: "length dstar = nat B" by (simp add: dstar_def)
  have "0 < dbar ! m" if "0 < t ! m"
  proof (rule ccontr)
    assume "\<not> 0 < dbar ! m"
    then have "fmul root_t (dbar ! m) \<le> 0"
      unfolding fmul_def root_t_def by (intro fl64.rnd_nonpos mult_nonneg_nonpos fsqrt_nonneg) simp
    then have "t ! m \<le> 0" using m by (simp add: t_def fdiv_def fl64.rnd_nonpos divide_nonpos_pos)
    with that show False by simp
  qed
  moreover have "0 \<le> spa_boot_stat root_t omega gs n row" for row
    unfolding spa_boot_stat_def by (rule foldl_invariant_nonneg) simp
  then have "spa_p_value r = 1" if "t ! m \<le> 0" using that p_value_all [of "length dstar"] by (simp add: r(1) max_def len)
  ultimately show ?thesis using p_value_filter [of _ dstar] m by (simp add: r len)
qed

text \<open>
  The two tests of the best of the family report a p-value in \<open>(0, 1]\<close> for every input they accept, and accept the same families:
  both raise the error of the differentials or neither does. White's names the first strategy with the largest mean differential; Hansen's
  never rejects unless the mean differential of the strategy it names is positive: without such a strategy its p-value is one.
\<close>

theorem family_tests_exact:
  assumes "1000 \<le> B" "1 \<le> L"
  shows "(\<forall>e. prepare_differentials sr br = Inl e \<longrightarrow> reality_check g sr br B L seed = Inl e \<and> spa_test lm g sr br B L seed = Inl e) \<and>
         (\<forall>d dbar T n. prepare_differentials sr br = Inr (d, dbar, T, n) \<longrightarrow>
           (\<exists>r. reality_check g sr br B L seed = Inr r \<and> 0 < rc_p_value r \<and> rc_p_value r \<le> 1 \<and>
              (\<forall>k < n. dbar ! k \<le> rc_max_differential r) \<and> dbar ! rc_max_strategy_idx r = rc_max_differential r \<and>
              (\<forall>k < rc_max_strategy_idx r. dbar ! k < rc_max_differential r)) \<and>
           (\<exists>q. spa_test lm g sr br B L seed = Inr q \<and> 0 < spa_p_value q \<and> spa_p_value q \<le> 1 \<and>
              (\<forall>alpha \<le> 1. spa_reject_null_at q alpha \<longrightarrow> 0 < dbar ! spa_max_strategy_idx q)))"
proof (intro conjI allI impI)
  fix d dbar T n assume p: "prepare_differentials sr br = Inr (d, dbar, T, n)"
  then have n: "0 < n" using prepare_differentials_shape [OF p] by linarith
  obtain r where r: "reality_check g sr br B L seed = Inr r"
    using assms p by (simp add: reality_check_def require_def Let_def)
  show "\<exists>r. reality_check g sr br B L seed = Inr r \<and> 0 < rc_p_value r \<and> rc_p_value r \<le> 1 \<and>
      (\<forall>k < n. dbar ! k \<le> rc_max_differential r) \<and> dbar ! rc_max_strategy_idx r = rc_max_differential r \<and>
      (\<forall>k < rc_max_strategy_idx r. dbar ! k < rc_max_differential r)"
    using reality_check_Inr [OF r p] first_max_spec [OF n, of "\<lambda>k. dbar ! k"] r by (intro exI [of _ r]) simp
  obtain q where q: "spa_test lm g sr br B L seed = Inr q"
    using assms p by (simp add: spa_test_def require_def Let_def)
  have "0 < dbar ! spa_max_strategy_idx q" if "alpha \<le> 1" "spa_reject_null_at q alpha" for alpha
    using spa_test_Inr [OF q p] that by (cases "0 < spa_max_t_stat q") (auto simp: spa_reject_null_at_def)
  with spa_test_Inr [OF q p] q show "\<exists>q. spa_test lm g sr br B L seed = Inr q \<and> 0 < spa_p_value q \<and> spa_p_value q \<le> 1 \<and>
      (\<forall>alpha \<le> 1. spa_reject_null_at q alpha \<longrightarrow> 0 < dbar ! spa_max_strategy_idx q)"
    by blast
qed (use assms in \<open>simp_all add: reality_check_def spa_test_def require_def\<close>)

theorem family_tests_exact_witness:
  "\<exists>r. reality_check counting [[Fin 1, Fin 2], [Fin 3, Fin 1]] None 1000 1 None = Inr r \<and> 0 < rc_p_value r"
proof -
  obtain d dbar where p: "prepare_differentials [[Fin 1, Fin 2], [Fin 3, Fin 1]] None = Inr (d, dbar, 2, 2)"
    by (simp add: prepare_differentials_def differential_row_def xsub_def require_def Let_def numeral_2_eq_2)
  have "1000 \<le> (1000 :: int)" "1 \<le> (1 :: int)" by simp_all
  from family_tests_exact [OF this, of "[[Fin 1, Fin 2], [Fin 3, Fin 1]]" None counting None] p show ?thesis by blast
qed

end
