(* ===== verification/Promotion.thy ===== *)
theory Promotion
  imports BCa Permutation_Test Multi_Strategy
begin

text \<open>
  The promotion decision (\<open>src/futur3/stats/promotion_gate.py\<close>) and the bridge from equity curves to it
  (\<open>src/futur3/stats/backtest_validation.py\<close>).
\<close>

section \<open>The five gates\<close>









section \<open>From equity curves\<close>


text \<open>The loop over the curve: a total loss at the first value that is not positive, and nothing after it.\<close>

fun returns_loop :: "bool \<Rightarrow> pyfloat \<Rightarrow> pyfloat list \<Rightarrow> pyfloat list" where
  "returns_loop ruined prev [] = []"
| "returns_loop ruined prev (cur # rest) =
     (if ruined then 0 # returns_loop True cur rest
      else if cur \<le> 0 then - 1 # returns_loop True cur rest
      else fsub (fdiv cur prev) 1 # returns_loop False cur rest)"



section \<open>What a promotion implies\<close>











section \<open>The bridge from equity curves\<close>



lemma length_returns_loop [simp]: "length (returns_loop b prev es) = length es"
  by (induction b prev es rule: returns_loop.induct) simp_all







end
