(* ===== verification/Performance.thy ===== *)
theory Performance
  imports Sharpe Block_Bootstrap Decimal_Arith
begin

text \<open>
  Descriptive statistics of a run: the metrics of an equity curve and of the closed trades (\<open>src/futur3/stats/performance.py\<close>), the
  sensitivity to outliers and costs (\<open>robustness.py\<close>) and the asymmetry of the tails (\<open>tail_risk.py\<close>). Ratios are floats, money is
  decimal.
\<close>

section \<open>Equity curves\<close>

record PerformanceMetrics =
  pf_n_periods :: nat
  pf_total_return :: pyfloat
  pf_annualized_return :: pyfloat
  pf_annualized_volatility :: "pyfloat option"
  pf_sharpe :: "pyfloat option"
  pf_max_drawdown :: pyfloat
  pf_calmar :: "pyfloat option"

fun drawdown_loop :: "pyfloat \<Rightarrow> pyfloat \<Rightarrow> pyfloat list \<Rightarrow> pyfloat" where
  "drawdown_loop peak mdd [] = mdd"
| "drawdown_loop peak mdd (x # xs) =
     (let peak = max peak x; dd = fdiv (fsub peak x) peak in drawdown_loop peak (max mdd dd) xs)"

definition max_drawdown :: "pyfloat list \<Rightarrow> pyfloat" where
  "max_drawdown equity = drawdown_loop (hd equity) 0 equity"

definition compute_metrics :: "libm \<Rightarrow> decimal list \<Rightarrow> pyfloat \<Rightarrow> pyfloat \<Rightarrow> PerformanceMetrics res" where
  "compute_metrics lm equity_curve periods_per_year risk_free_rate =
     bindE (require (0 < periods_per_year) StatsError) (\<lambda>_.
       let n = length equity_curve
       in bindE (require (2 \<le> n) StatsError) (\<lambda>_.
          let equity = map fround equity_curve
          in bindE (require (list_all (\<lambda>x. 0 < x) equity) StatsError) (\<lambda>_.
             let returns = map (\<lambda>i. fsub (fdiv (equity ! i) (equity ! (i - 1))) 1) [1..<n];
                 n_returns = length returns;
                 growth = fdiv (last equity) (hd equity);
                 total_return = fsub growth 1;
                 annualized_return = fsub (lm_pow lm growth (fdiv periods_per_year (fint (int n_returns)))) 1;
                 max_dd = max_drawdown equity;
                 (volatility, sharpe) =
                   (if 2 \<le> n_returns
                    then let mean_r = fmean_exact returns
                         in if list_all (\<lambda>r. isclose r mean_r) returns then (Some 0, None)
                            else let sd = fstdev returns;
                                     mean_excess = fsub mean_r (fdiv risk_free_rate periods_per_year)
                                 in (Some (fmul sd (fsqrt periods_per_year)), Some (fmul (fdiv mean_excess sd) (fsqrt periods_per_year)))
                    else (None, None));
                 calmar = (if 0 < max_dd then Some (fdiv annualized_return max_dd) else None)
             in Inr \<lparr>pf_n_periods = n_returns, pf_total_return = total_return, pf_annualized_return = annualized_return,
                     pf_annualized_volatility = volatility, pf_sharpe = sharpe, pf_max_drawdown = max_dd, pf_calmar = calmar\<rparr>)))"

section \<open>Closed trades\<close>

record TradeMetrics =
  tm_n_trades :: nat
  tm_n_wins :: nat
  tm_n_losses :: nat
  tm_n_scratch :: int
  tm_win_rate :: "pyfloat option"
  tm_avg_win :: "decimal option"
  tm_avg_loss :: "decimal option"
  tm_payoff_ratio :: "pyfloat option"
  tm_expectancy :: "decimal option"
  tm_profit_factor :: "pyfloat option"
  tm_pnl_skew :: "pyfloat option"

definition pnl_skew :: "libm \<Rightarrow> pyfloat list \<Rightarrow> pyfloat option" where
  "pnl_skew lm pnls =
     (if length pnls < 3 then None
      else let mean = fdiv (fsum pnls) (fint (int (length pnls)));
               m2 = central_moment lm pnls mean 2
           in if m2 \<le> 0 then None
              else let m3 = central_moment lm pnls mean 3 in Some (fdiv m3 (lm_pow lm m2 (3 / 2))))"

definition compute_trade_metrics :: "libm \<Rightarrow> decimal list \<Rightarrow> TradeMetrics" where
  "compute_trade_metrics lm trade_pnls =
     (let n = length trade_pnls;
          wins = filter (\<lambda>p. 0 < p) trade_pnls;
          losses = filter (\<lambda>p. p < 0) trade_pnls;
          n_wins = length wins;
          n_losses = length losses;
          win_rate = (if 0 < n then Some (int_quotient (int n_wins) (int n)) else None);
          avg_win = (if 0 < n_wins then Some (dround (dsum wins / of_nat n_wins)) else None);
          avg_loss = (if 0 < n_losses then Some (dround (dneg (dsum losses) / of_nat n_losses)) else None);
          payoff_ratio = (case (avg_win, avg_loss) of (Some w, Some l) \<Rightarrow> Some (fround (dround (w / l))) | _ \<Rightarrow> None);
          expectancy = (if 0 < n then Some (dround (dsum trade_pnls / of_nat n)) else None);
          gross_win = dsum wins;
          gross_loss = dneg (dsum losses);
          profit_factor = (if 0 < gross_loss then Some (fround (dround (gross_win / gross_loss))) else None)
      in \<lparr>tm_n_trades = n, tm_n_wins = n_wins, tm_n_losses = n_losses, tm_n_scratch = int n - int n_wins - int n_losses,
          tm_win_rate = win_rate, tm_avg_win = avg_win, tm_avg_loss = avg_loss, tm_payoff_ratio = payoff_ratio,
          tm_expectancy = expectancy, tm_profit_factor = profit_factor, tm_pnl_skew = pnl_skew lm (map fround trade_pnls)\<rparr>)"

section \<open>Outliers and costs\<close>

definition sharpe_or_none :: "pyfloat list \<Rightarrow> pyfloat \<Rightarrow> pyfloat option" where
  "sharpe_or_none returns periods_per_year =
     (if length returns < 2 then None
      else let sd = fstdev returns in if sd = 0 then None else Some (fmul (fdiv (fmean_exact returns) sd) (fsqrt periods_per_year)))"

definition winsorize :: "pyfloat list \<Rightarrow> nat \<Rightarrow> pyfloat list" where
  "winsorize returns k =
     (let ordered = sort returns; lo = ordered ! k; hi = ordered ! (length ordered - 1 - k) in map (\<lambda>x. min (max x lo) hi) returns)"

definition winsorized_sharpe :: "pyfloat list \<Rightarrow> pyfloat \<Rightarrow> pyfloat \<Rightarrow> pyfloat option res" where
  "winsorized_sharpe returns trim_frac periods_per_year =
     bindE (require (0 \<le> trim_frac \<and> trim_frac < 1 / 2) RobustnessError) (\<lambda>_.
     bindE (require (0 < periods_per_year) RobustnessError) (\<lambda>_.
       if length returns < 2 then Inr None
       else let k = nat (trunc (fmul trim_frac (fint (int (length returns)))))
            in if k = 0 then Inr (sharpe_or_none returns periods_per_year)
               else Inr (sharpe_or_none (winsorize returns k) periods_per_year)))"

definition tail_contribution :: "pyfloat list \<Rightarrow> pyfloat \<Rightarrow> pyfloat res" where
  "tail_contribution returns share =
     bindE (require (0 < share \<and> share < 1) RobustnessError) (\<lambda>_.
       let total = fsum (map abs returns)
       in if total = 0 then Inr 0
          else let k = max 1 (nat (trunc (fmul share (fint (int (length returns))))));
                   most = take k (rev (sort (map abs returns)))
               in Inr (fdiv (fsum most) total))"

definition net_returns :: "pyfloat list \<Rightarrow> bool list \<Rightarrow> pyfloat \<Rightarrow> pyfloat list res" where
  "net_returns returns traded cost_per_trade =
     bindE (require (length returns = length traded) RobustnessError) (\<lambda>_.
     bindE (require (0 \<le> cost_per_trade) RobustnessError) (\<lambda>_.
       Inr (map (\<lambda>(r, t). if t then fsub r cost_per_trade else r) (zip returns traded))))"

section \<open>Tails\<close>

record TailMeans =
  tl_left_mean :: pyfloat
  tl_right_mean :: pyfloat
  tl_n_tail :: nat

definition tail_ratio :: "TailMeans \<Rightarrow> xfloat" where
  "tail_ratio t =
     (let denom = \<bar>tl_left_mean t\<bar>
      in if denom = 0 then (if 0 < tl_right_mean t then PInf else NaN) else Fin (fdiv (tl_right_mean t) denom))"

definition skewness :: "libm \<Rightarrow> pyfloat list \<Rightarrow> pyfloat option" where
  "skewness lm returns = map_option sm_skew (compute_sharpe_moments lm returns)"

definition skewness_excluding_extremes :: "libm \<Rightarrow> pyfloat list \<Rightarrow> int \<Rightarrow> pyfloat option res" where
  "skewness_excluding_extremes lm returns n_drop =
     bindE (require (0 \<le> n_drop) TailRiskError) (\<lambda>_.
       if int (length returns) - n_drop < 2 then Inr None
       else if n_drop = 0 then Inr (skewness lm returns)
       else
         let mean = fmean returns;
             by_extremity = sort_key (\<lambda>i. - \<bar>fsub (returns ! i) mean\<bar>) [0..<length returns];
             dropped = set (take (nat n_drop) by_extremity);
             kept = map (\<lambda>i. returns ! i) (filter (\<lambda>i. i \<notin> dropped) [0..<length returns])
         in Inr (skewness lm kept))"

definition fquantile :: "pyfloat list \<Rightarrow> pyfloat \<Rightarrow> pyfloat" where
  "fquantile ordered p =
     (let n = length ordered
      in if n = 1 then ordered ! 0
         else let h = fmul (fint (int n - 1)) p;
                  lo = nat \<lfloor>h\<rfloor>;
                  hi = min (lo + 1) (n - 1)
              in fadd (ordered ! lo) (fmul (fsub h (fint (int lo))) (fsub (ordered ! hi) (ordered ! lo))))"

definition quantile_skewness :: "pyfloat list \<Rightarrow> pyfloat \<Rightarrow> pyfloat option res" where
  "quantile_skewness returns tail =
     bindE (require (0 < tail \<and> tail < 1 / 2) TailRiskError) (\<lambda>_.
       if length returns < 2 then Inr None
       else
         let ordered = sort returns;
             q_lo = fquantile ordered tail;
             q_mid = fquantile ordered (1 / 2);
             q_hi = fquantile ordered (fsub 1 tail);
             spread = fsub q_hi q_lo
         in if spread \<le> 0 then Inr None else Inr (Some (fdiv (fsub (fadd q_hi q_lo) (fmul 2 q_mid)) spread)))"

text \<open>\<open>round(x, 9)\<close> rounds the exact value half to even in decimal, then to a float.\<close>

definition round9 :: "pyfloat \<Rightarrow> pyfloat" where
  "round9 x = fround (of_int (round_half_even (x * 10 ^ 9)) / 10 ^ 9)"

definition tail_means :: "pyfloat list \<Rightarrow> pyfloat \<Rightarrow> TailMeans option res" where
  "tail_means returns tail =
     bindE (require (0 < tail \<and> tail < 1 / 2) TailRiskError) (\<lambda>_.
       let n = length returns
       in if n < 2 then Inr None
          else
            let ordered = sort returns;
                k = nat (max 1 \<lceil>round9 (fmul tail (fint (int n)))\<rceil>)
            in Inr (Some \<lparr>tl_left_mean = fmean (take k ordered), tl_right_mean = fmean (drop (n - k) ordered), tl_n_tail = k\<rparr>))"

section \<open>The drawdown\<close>

lemma drawdown_step:
  assumes "frepr peak" "0 < peak" "0 < x" "x \<le> peak"
  shows "0 \<le> fdiv (fsub peak x) peak" "fdiv (fsub peak x) peak \<le> 1" "fdiv (fsub peak x) peak = 0 \<longleftrightarrow> x = peak"
proof -
  have s: "0 \<le> fsub peak x" "fsub peak x \<le> peak"
    unfolding fsub_def using assms by (auto intro!: fl64.rnd_nonneg fl64.rnd_le_fixed simp: frepr_def)
  then show "0 \<le> fdiv (fsub peak x) peak" "fdiv (fsub peak x) peak \<le> 1"
    unfolding fdiv_def using assms(2) by (auto intro!: fl64.rnd_nonneg fl64.rnd_le_fixed fl64.rnd_one simp: divide_le_eq)
  show "fdiv (fsub peak x) peak = 0 \<longleftrightarrow> x = peak"
    unfolding fdiv_def fsub_def using assms(2) by (auto simp: fl64.rnd_eq_0_iff)
qed

lemma drawdown_loop_spec:
  assumes "frepr peak" "0 < peak" "0 \<le> mdd" "mdd \<le> 1" "\<forall>x \<in> set xs. 0 < x \<and> frepr x"
  shows "0 \<le> drawdown_loop peak mdd xs \<and> drawdown_loop peak mdd xs \<le> 1 \<and> (drawdown_loop peak mdd xs = 0 \<longleftrightarrow> mdd = 0 \<and> sorted (peak # xs))"
  using assms
proof (induction xs arbitrary: peak mdd)
  case (Cons x xs)
  define q where "q = max peak x"
  define dd where "dd = fdiv (fsub q x) q"
  have q: "frepr q" "0 < q" "x \<le> q" using Cons.prems by (auto simp: q_def max_def)
  have x: "0 < x" using Cons.prems by simp
  note dd = drawdown_step [OF q(1,2) x q(3), folded dd_def]
  have IH: "0 \<le> drawdown_loop q (max mdd dd) xs \<and> drawdown_loop q (max mdd dd) xs \<le> 1 \<and>
      (drawdown_loop q (max mdd dd) xs = 0 \<longleftrightarrow> max mdd dd = 0 \<and> sorted (q # xs))"
    using Cons.prems q dd by (intro Cons.IH) auto
  have "max mdd dd = 0 \<longleftrightarrow> mdd = 0 \<and> q = x" using dd Cons.prems(3) by (auto simp: max_def)
  moreover have "q = x \<and> sorted (q # xs) \<longleftrightarrow> sorted (peak # x # xs)"
  proof
    assume "q = x \<and> sorted (q # xs)"
    then have "peak \<le> x" "sorted (x # xs)" by (auto simp: q_def max_def split: if_splits)
    then show "sorted (peak # x # xs)" by (auto intro: order.trans)
  qed (auto simp: q_def max_def)
  ultimately show ?case using IH by (simp add: q_def [symmetric] dd_def [symmetric] Let_def del: sorted_simps)
qed simp

lemma max_drawdown_spec:
  assumes "es \<noteq> []" "\<forall>x \<in> set es. 0 < x \<and> frepr x"
  shows "0 \<le> max_drawdown es \<and> max_drawdown es \<le> 1 \<and> (max_drawdown es = 0 \<longleftrightarrow> sorted es)"
proof (cases es)
  case (Cons a as)
  then show ?thesis using drawdown_loop_spec [of a 0 es] assms by (simp add: max_drawdown_def)
qed (use assms in simp)

lemma frepr_floats: "\<forall>x \<in> set (map fround c). frepr x"
  by simp

text \<open>
  The metrics of a curve: one period fewer than points, a drawdown in \<open>[0, 1]\<close> that is zero exactly when the curve never falls, and a Calmar
  ratio exactly when there is a drawdown.
\<close>

theorem metrics_exact:
  assumes "compute_metrics lm c ppy rf = Inr m"
  shows "2 \<le> length c \<and> pf_n_periods m = length c - 1 \<and> 0 \<le> pf_max_drawdown m \<and> pf_max_drawdown m \<le> 1 \<and>
    (pf_max_drawdown m = 0 \<longleftrightarrow> sorted (map fround c)) \<and> (pf_calmar m = None \<longleftrightarrow> sorted (map fround c))"
proof -
  have pos: "\<forall>x \<in> set (map fround c). 0 < x" and len: "2 \<le> length c"
    and m: "pf_n_periods m = length c - 1" "pf_max_drawdown m = max_drawdown (map fround c)"
      "pf_calmar m = None \<longleftrightarrow> \<not> 0 < max_drawdown (map fround c)"
    using assms unfolding compute_metrics_def Let_def case_prod_beta bindE_Inr_iff require_iff by (auto simp: list_all_iff)
  have "map fround c \<noteq> []" using len by auto
  from max_drawdown_spec [OF this] pos frepr_floats show ?thesis using len by (auto simp: m)
qed

section \<open>Trades\<close>

lemma foldl_dadd_pos: "0 \<le> a \<Longrightarrow> \<forall>x \<in> set xs. 0 < x \<Longrightarrow> xs \<noteq> [] \<Longrightarrow> 0 < foldl dadd a xs"
proof (induction xs arbitrary: a)
  case (Cons x xs)
  have p: "0 < dadd a x" unfolding dadd_def using Cons.prems by (intro dec28.rnd_pos) auto
  then show ?case using Cons.IH [of "dadd a x"] Cons.prems by (cases xs) auto
qed simp

lemma foldl_dadd_neg: "a \<le> 0 \<Longrightarrow> \<forall>x \<in> set xs. x < 0 \<Longrightarrow> xs \<noteq> [] \<Longrightarrow> foldl dadd a xs < 0"
proof (induction xs arbitrary: a)
  case (Cons x xs)
  have p: "dadd a x < 0" unfolding dadd_def using Cons.prems by (intro dec28.rnd_neg) auto
  then show ?case using Cons.IH [of "dadd a x"] Cons.prems by (cases xs) auto
qed simp

lemma gross_signs:
  assumes "ws = filter (\<lambda>p. 0 < p) pnls" "ls = filter (\<lambda>p. p < 0) pnls"
  shows "ws \<noteq> [] \<Longrightarrow> 0 < dsum ws" "ls \<noteq> [] \<Longrightarrow> 0 < dneg (dsum ls)" "ls = [] \<Longrightarrow> dneg (dsum ls) = 0"
proof -
  show "ws \<noteq> [] \<Longrightarrow> 0 < dsum ws" unfolding dsum_def by (rule foldl_dadd_pos) (use assms(1) in auto)
  have "ls \<noteq> [] \<Longrightarrow> dsum ls < 0" unfolding dsum_def by (rule foldl_dadd_neg) (use assms(2) in auto)
  then show "ls \<noteq> [] \<Longrightarrow> 0 < dneg (dsum ls)" unfolding dneg_def by (intro dec28.rnd_pos) simp
  show "ls = [] \<Longrightarrow> dneg (dsum ls) = 0" by (simp add: dsum_def dneg_def dec28.rnd_zero)
qed

text \<open>
  The trade metrics: every trade is a win, a loss or a scratch; the rates lie in \<open>[0, 1]\<close>, average win and loss are positive amounts, and the
  profit factor is missing exactly when no trade lost.
\<close>

theorem trade_metrics_exact:
  assumes m: "m = compute_trade_metrics lm pnls"
  shows "int (tm_n_wins m) + int (tm_n_losses m) + tm_n_scratch m = int (length pnls)" (is ?counts)
    and "tm_n_scratch m = int (length (filter (\<lambda>p. p = 0) pnls))" (is ?scratch)
    and "\<forall>r. tm_win_rate m = Some r \<longrightarrow> 0 \<le> r \<and> r \<le> 1" (is ?rate)
    and "\<forall>a. tm_avg_win m = Some a \<or> tm_avg_loss m = Some a \<longrightarrow> 0 < a" (is ?averages)
    and "tm_profit_factor m = None \<longleftrightarrow> (\<forall>p \<in> set pnls. 0 \<le> p)" (is ?factor)
proof -
  define ws ls where "ws = filter (\<lambda>p. 0 < p) pnls" and "ls = filter (\<lambda>p. p < 0) pnls"
  note g = gross_signs [OF ws_def ls_def]
  have sum: "length ws + length ls + length (filter (\<lambda>p. p = 0) pnls) = length pnls"
    unfolding ws_def ls_def by (induction pnls) auto
  have M: "tm_n_wins m = length ws" "tm_n_losses m = length ls" "tm_n_scratch m = int (length pnls) - int (length ws) - int (length ls)"
      "tm_win_rate m = (if 0 < length pnls then Some (int_quotient (int (length ws)) (int (length pnls))) else None)"
      "tm_avg_win m = (if 0 < length ws then Some (dround (dsum ws / of_nat (length ws))) else None)"
      "tm_avg_loss m = (if 0 < length ls then Some (dround (dneg (dsum ls) / of_nat (length ls))) else None)"
      "tm_profit_factor m = (if 0 < dneg (dsum ls) then Some (fround (dround (dsum ws / dneg (dsum ls)))) else None)"
    by (simp_all add: m compute_trade_metrics_def Let_def ws_def ls_def)
  show ?counts ?scratch using sum by (simp_all add: M)
  show ?rate using int_quotient_unit [of "int (length ws)" "int (length pnls)"] sum by (auto simp: M)
  have avg: "0 < dround (x / of_nat (length ys))" if "0 < x" "0 < length ys" for x and ys :: "decimal list"
    by (rule dec28.rnd_pos) (use that in simp)
  show ?averages
    using g(1,2) avg [of "dsum ws" ws] avg [of "dneg (dsum ls)" ls] by (auto simp: M split: if_splits)
  have "ls = [] \<longleftrightarrow> (\<forall>p \<in> set pnls. 0 \<le> p)" by (auto simp: ls_def filter_empty_conv not_less)
  then show ?factor using g(2,3) by (cases "ls = []") (simp_all add: M)
qed

end
