(* ===== verification/Spec2Isabelle.thy ===== *)
theory Spec2Isabelle
  imports Engine_Exposure Roll_Properties Continuous_Properties CV_Properties Backoff_Properties Portfolio_Properties
    Storage_Properties BRR Term_Structure CME_Properties COT_Properties Macro_Properties Event_Severity Live_Adapters
    Databento Intraday Crypto IBKR_Properties Multiple_Testing Survival CSCV
    Promotion Performance
begin

text \<open>
  A verification library for futur3-engine (\<open>src/futur3\<close>), a research and backtest engine for futures.
  Market data of several sources is cross-checked into verified bars and settles; a strategy turns verified
  bars into signals; a sizer turns a signal into a number of contracts; an engine places the orders on a
  broker, which fills them on later bars, marks the account and rolls positions from an expiring contract
  into its successor. The library models these parts as they are written and proves what they promise.

  \<^bold>\<open>Conventions.\<close> The theories \<open>Prelude\<close>, \<open>Rounding\<close>, \<open>Decimal_Arith\<close>, \<open>Py_Float\<close>, \<open>Py_Dates\<close> and \<open>Sha256\<close> hold what the code uses of
  Python: an exception is a value of \<open>exn\<close>, a fallible call returns \<open>'a res\<close> (\<open>Inl\<close> the exception), a method
  that writes its object returns the outcome and the object afterwards, a \<open>dict\<close> is an association list in
  insertion order, an \<open>int\<close> is an \<open>int\<close>, a \<open>Decimal\<close> is its rational value with every operation rounded half to
  even to 28 digits as the default context does, a \<open>float\<close> of the statistics its rational value rounded to 53 binary
  digits (\<open>Rounding\<close> proves the laws of both roundings once, in the locales \<open>rounding\<close> and \<open>radix\<close>), a date is its proleptic ordinal, and a datetime its wall
  clock in microseconds with an offset. Attributes keep the names of the code behind a prefix per class.
  \<open>Py_Text\<close>, \<open>Py_Json\<close> and \<open>Py_Iso\<close> have the parts of \<open>str\<close>, \<open>int\<close>, \<open>Decimal\<close>, \<open>json\<close> and \<open>datetime\<close> that read
  and write text, on ASCII; \<open>Py_Iso_Time\<close> adds the time of day of \<open>datetime.fromisoformat\<close>.

  \<^bold>\<open>Data.\<close> \<open>Market_Types\<close> (\<open>data/types.py\<close>) has the enumerations and the frozen records with the checks of
  their constructors. \<open>Trading_Calendar\<close> (\<open>contracts/trading_calendar.py\<close>) computes the holidays and walks
  trading days. \<open>Verifier\<close> and \<open>Runtime\<close> (\<open>data/verifier.py\<close>, \<open>data/verifier_policies.py\<close>,
  \<open>runtime/context.py\<close>) poll the sources, test the quorum and the tolerance band, and chain the hashes of
  what they emit; the theorems say that a verified record is backed by a quorum that agrees, exactly when
  the policy says so, whatever the order of the sources. \<open>Continuous\<close> (\<open>data/continuous.py\<close>) splices the
  bars of successive contracts along a roll calendar. \<open>Term_Structure\<close> (\<open>data/term_structure.py\<close>) is the index
  of front and back leg that a carry strategy reads, proved to be what the bars show on each date. \<open>BRR\<close>
  (\<open>data/brr.py\<close>) rebuilds the reference rate of a London hour from venue bars.

  \<^bold>\<open>Sources and archives.\<close> \<open>Storage\<close> (\<open>storage/abcs.py\<close>, \<open>parquet_store.py\<close>, \<open>parquet_settle_store.py\<close>) are the
  partitioned stores; \<open>Storage_Properties\<close> proves what a write adds, that reads return it and that no revision
  is lost. \<open>CME_EOD\<close> and \<open>Replay\<close> (\<open>data/sources/cme_eod.py\<close>, \<open>replay.py\<close>) scrape the settlement pages into an
  archive and answer from it; \<open>CME_Properties\<close> proves that the archive only grows and that the replay answers
  what the live source answered. \<open>COT\<close> (\<open>data/cot_types.py\<close>, \<open>cot_source.py\<close>, \<open>sources/cftc.py\<close>) has the weekly
  positioning reports with their publication gate; \<open>COT_Properties\<close> states a locale of the providers that answer
  a window by its dates, interprets it on the replay source and proves that no view sees an unpublished report.
  \<open>Macro\<close> and \<open>Macro_Sources\<close> (\<open>data/macro_types.py\<close>, \<open>macro_source.py\<close>, \<open>sources/fred_macro.py\<close>,
  \<open>bls_macro.py\<close>) are the macro releases and their two sources; \<open>Macro_Properties\<close> states the point-in-time contract
  as a locale and interprets it on both. \<open>Event_Severity\<close> (\<open>events/severity.py\<close>) scales returns around them.
  \<open>Databento\<close> and \<open>Crypto\<close> (\<open>sources/databento_hist.py\<close>, \<open>crypto.py\<close>) convert vendor records to bars, \<open>Intraday\<close>
  (\<open>intraday_session.py\<close>, \<open>timeframe.py\<close>, \<open>data/intraday_continuous.py\<close>) has session windows and the returns without
  roll seams. \<open>Backoff_Queue\<close> (\<open>data/sources/backoff_queue.py\<close>) limits the rate of requests, and \<open>IBKR_Historical\<close>
  (\<open>sources/ibkr_historical.py\<close>) makes its requests behind it; \<open>IBKR_Properties\<close> proves that any session of queries
  stays within the limits and leaves nothing in flight.

  \<^bold>\<open>Execution.\<close> \<open>Broker\<close> and \<open>Slippage\<close> (\<open>execution/broker.py\<close>, \<open>execution/slippage.py\<close>) have the order
  types and the price haircut. \<open>Mock_Broker\<close> (\<open>execution/adapters/mock_broker.py\<close>) is the order book, the
  positions and the ledger; \<open>Broker_Invariant\<close>, \<open>Broker_Ledger\<close> and \<open>Broker_Properties\<close> prove an invariant
  of every reachable state, the effect of every operation, and that positions, equity and trade ledger agree
  with the fills. \<open>Prop_Broker\<close> (\<open>prop_aware_mock_broker.py\<close>) is the subclass with the account limits.
  \<open>Risk_Manager\<close> (\<open>risk_manager.py\<close>, \<open>margin_source.py\<close>, \<open>fixed_size_risk_manager.py\<close>) sizes positions.
  \<open>Roll_Executor\<close> (\<open>roll_executor.py\<close>) builds the roll calendar and decides rolls. \<open>Paper_Ledger\<close>
  (\<open>paper_ledger.py\<close>, \<open>decay_monitor.py\<close>) is the file of paper sessions and the monitor that reads it.
  \<open>Live_Adapters\<close> (\<open>execution/adapters/ibkr_broker.py\<close>, \<open>topstepx_broker.py\<close>) are the live adapters as far as they
  exist: their gates and the downgrade of order types.

  \<^bold>\<open>Engines.\<close> The engines call a broker through \<open>Engine_Broker\<close>, a table of methods with one instance per
  broker class; its locale states that every class acts on the book as \<open>MockBroker\<close> does, and both
  interpretations discharge it, so the engine theorems hold on either. \<open>Backtest_Engine\<close>
  (\<open>engine/backtest.py\<close>, \<open>strategies/base.py\<close>) is the single-stream loop and \<open>Portfolio_Engine\<close>
  (\<open>engine/portfolio_backtest.py\<close>, \<open>execution/vol_parity.py\<close>) the multi-contract loop. \<open>Engine_Properties\<close>,
  \<open>Engine_Exposure\<close> and \<open>Portfolio_Properties\<close> prove that a run never looks ahead, reports what the broker
  recorded, pays for a decision on a later bar, and bounds the exposure. \<open>Cross_Validation\<close>
  (\<open>cv/walkforward.py\<close>, \<open>cv/cpcv.py\<close>) generates the splits that strategies are validated on; \<open>Combinations\<close>
  has the choices of \<open>itertools.combinations\<close> that it shares with \<open>CSCV\<close>.

  \<^bold>\<open>Statistics.\<close> \<open>Extended_Float\<close> adds the infinities and NaN to the floats. \<open>Multiple_Testing\<close>
  (\<open>stats/multiple_testing.py\<close>) has the three corrections, proved to decide as the rules on the ordered p-values say.
  \<open>Resampling\<close> and \<open>Block_Bootstrap\<close> (\<open>cv/block_bootstrap.py\<close>, \<open>stats/_multi_strategy.py\<close>) draw blocks of indices from
  a generator; the theorems say that the draws return, stay in range and keep blocks contiguous, and that the block length
  the code chooses is always a legal one. \<open>Multi_Strategy\<close> (\<open>stats/reality_check.py\<close>, \<open>spa_test.py\<close>, \<open>romano_wolf.py\<close>)
  has the tests over a family of strategies; the step-down is proved consistent and never weaker than the single test.
  \<open>Permutation_Test\<close> (\<open>permutation.py\<close>), \<open>Sharpe\<close> (\<open>_sharpe_core.py\<close>, \<open>probabilistic_sharpe.py\<close>, \<open>deflated_sharpe.py\<close>) and
  \<open>BCa\<close> (\<open>bootstrap_ci.py\<close>) are the tests of one strategy; \<open>Promotion\<close> (\<open>promotion_gate.py\<close>, \<open>backtest_validation.py\<close>)
  joins them into the decision on the equity curves of a family, and its theorems say what a promotion implies. \<open>CSCV\<close>
  (\<open>cv/cscv.py\<close>) is the probability of overfitting, proved to be a comparison of counts. \<open>Performance\<close> (\<open>performance.py\<close>,
  \<open>robustness.py\<close>, \<open>tail_risk.py\<close>) describes curves, trades and tails.
  \<open>Survival\<close> (\<open>execution/survival.py\<close>) is the share of leveraged paths that never reach the kill switch.

  \<^bold>\<open>Loops.\<close> Loops over lists are structural recursion. The walk over trading days has the code's own step
  budget, proved sufficient; the walk-forward loop and the waiting loop of the rate limiter are partial
  functions, as are the loops that draw blocks; that they return is a theorem.

  \<^bold>\<open>Parameters.\<close> Strategies, data sources, the survival test of the sizer and the clock are arguments of the definitions
  that use them. \<open>str\<close> on a \<open>Decimal\<close> is an argument where it only feeds a hash or a message, because it shows
  trailing zeros that the numeric value does not keep. The operations of polars on frames (sort, unique, anti-join)
  are a record of functions under the laws \<open>frame_laws\<close>, which an instance on lists satisfies; a file system is the
  list of its files with predicates for the accesses that fail. An HTTP service is a function from the request to
  a reply, a vendor client a function or a record of functions on its own state (\<open>ib_client\<close>), a parsed HTML page the
  record \<open>Soup\<close> of what the code asks of it, the offset of a time zone a function of the wall clock or of the instant,
  the generator of \<open>random\<close> a record of functions on its own state (\<open>rng\<close>, under \<open>rng_ok\<close>), the functions of the C library
  the record \<open>libm\<close>, the normal law \<open>stdnormal\<close>, and the conversions of binary floats the records \<open>floats\<close>, \<open>row_ops\<close> and \<open>float_ops\<close>.

  \<^bold>\<open>Not modelled.\<close> The text of exceptions and of log messages; NaN and infinite decimals. Floats have
  no exponent range, so overflow and underflow are absent. \<open>storage/duckdb_query.py\<close> builds SQL text and
  \<open>tools/verify_facts.py\<close> is an operator script. Health checks, logging and the construction of default clients are
  left out.
\<close>

end
